(* ===== verification/Prelude.thy ===== *)
theory Prelude
  imports Complex_Main "HOL-Library.AList"
begin

text \<open>
  What every component of the development shares: the results of service methods (an HTTP
  exception or a value), the insertion-ordered maps behind a JavaScript \<open>Map\<close> and a Redis
  hash, JavaScript string helpers (\<open>trim\<close>, decimal printing), and the locale that lifts a
  one-step invariant to every run of a component.
\<close>

section \<open>Proof collections\<close>

named_theorems amap \<open>lookup, membership and keys of insertion-ordered maps\<close>
named_theorems res \<open>inversion of service results\<close>

section \<open>Results of service methods\<close>

text \<open>
  A service method either returns or throws one of Nest's HTTP exceptions; \<open>Internal\<close> is any
  other thrown error (Nest answers it with status 500).
\<close>

datatype http_error =
    BadRequest string
  | Unauthorized string
  | Forbidden string
  | NotFound string
  | Conflict string
  | Internal string

type_synonym 'a result = "http_error + 'a"

fun rbind :: "'e + 'a \<Rightarrow> ('a \<Rightarrow> 'e + 'b) \<Rightarrow> 'e + 'b" where
  "rbind (Inl e) f = Inl e"
| "rbind (Inr a) f = f a"

definition guard_or :: "bool \<Rightarrow> 'e \<Rightarrow> 'e + unit" where
  "guard_or b e = (if b then Inr () else Inl e)"

definition from_option :: "'e \<Rightarrow> 'a option \<Rightarrow> 'e + 'a" where
  "from_option e x = (case x of None \<Rightarrow> Inl e | Some a \<Rightarrow> Inr a)"

lemma rbind_Inr_iff [res]: "rbind m f = Inr b \<longleftrightarrow> (\<exists>a. m = Inr a \<and> f a = Inr b)"
  by (cases m) auto

lemma rbind_Inl_iff [res]:
  "rbind m f = Inl e \<longleftrightarrow> m = Inl e \<or> (\<exists>a. m = Inr a \<and> f a = Inl e)"
  by (cases m) auto

lemma guard_or_Inr_iff [res]: "guard_or b e = Inr u \<longleftrightarrow> b"
  by (simp add: guard_or_def)

lemma guard_or_Inl_iff [res]: "guard_or b e = Inl e' \<longleftrightarrow> \<not> b \<and> e' = e"
  by (auto simp: guard_or_def)

lemma from_option_Inr_iff [res]: "from_option e x = Inr a \<longleftrightarrow> x = Some a"
  by (simp add: from_option_def split: option.splits)

lemma from_option_Inl_iff [res]: "from_option e x = Inl e' \<longleftrightarrow> x = None \<and> e' = e"
  by (auto simp: from_option_def split: option.splits)

section \<open>Insertion-ordered maps\<close>

text \<open>
  A JavaScript \<open>Map\<close> iterates in insertion order and \<open>set\<close> on a key that is present keeps its
  place: an association list with \<open>AList.update\<close> and \<open>AList.delete\<close>. The same
  representation stands for the field/value pairs of a Redis hash.
\<close>

type_synonym ('k, 'v) amap = "('k \<times> 'v) list"

abbreviation aput :: "'k \<Rightarrow> 'v \<Rightarrow> ('k, 'v) amap \<Rightarrow> ('k, 'v) amap" where
  "aput \<equiv> AList.update"

abbreviation adel :: "'k \<Rightarrow> ('k, 'v) amap \<Rightarrow> ('k, 'v) amap" where
  "adel \<equiv> AList.delete"

abbreviation avals :: "('k, 'v) amap \<Rightarrow> 'v list" where
  "avals m \<equiv> map snd m"

abbreviation akeys :: "('k, 'v) amap \<Rightarrow> 'k list" where
  "akeys m \<equiv> map fst m"

lemma aput_lookup [amap]: "map_of (aput k v m) k' = (if k' = k then Some v else map_of m k')"
  by (simp add: update_conv')

lemma adel_lookup [amap]: "map_of (adel k m) k' = (if k' = k then None else map_of m k')"
  by (simp add: delete_conv')

lemma aput_keys [amap]: "set (akeys (aput k v m)) = insert k (set (akeys m))"
  by (induction m) auto

lemma adel_keys [amap]: "set (akeys (adel k m)) = set (akeys m) - {k}"
  by (auto simp: AList.delete_eq)

lemma aput_distinct [amap]: "distinct (akeys m) \<Longrightarrow> distinct (akeys (aput k v m))"
  by (rule distinct_update)

lemma adel_distinct [amap]: "distinct (akeys m) \<Longrightarrow> distinct (akeys (adel k m))"
  by (rule distinct_delete)

lemma aput_length [amap]:
  "length (aput k v m) = (if k \<in> set (akeys m) then length m else Suc (length m))"
  by (induction m) auto

lemma adel_length: "length (adel k m) \<le> length m"
  by (simp add: AList.delete_eq)

lemma aput_set:
  "distinct (akeys m) \<Longrightarrow> set (aput k v m) = insert (k, v) {p \<in> set m. fst p \<noteq> k}"
proof (induction m)
  case (Cons p m)
  show ?case
  proof (cases "fst p = k")
    case True
    then have "{q \<in> set m. fst q \<noteq> k} = set m" using Cons.prems by (auto simp: image_iff)
    with True show ?thesis by auto
  next
    case False
    then show ?thesis using Cons by auto
  qed
qed simp

lemma adel_set: "set (adel k m) = {p \<in> set m. fst p \<noteq> k}"
  by (auto simp: AList.delete_eq)

lemma filter_keys_distinct: "distinct (akeys m) \<Longrightarrow> distinct (akeys (filter P m))"
  by (induction m) auto

lemma map_of_filter_snd:
  "distinct (akeys m) \<Longrightarrow> map_of (filter (\<lambda>(k, v). P v) m) k =
     (case map_of m k of Some v \<Rightarrow> if P v then Some v else None | None \<Rightarrow> None)"
proof (induction m)
  case (Cons x m)
  obtain k' v where x: "x = (k', v)" by (cases x)
  have "map_of (filter (\<lambda>(k, v). P v) m) k = None" if "k' = k"
    using Cons.prems that x by (force simp: map_of_eq_None_iff)
  then show ?case using Cons x by (auto split: option.splits)
qed simp

text \<open>How many values satisfy a predicate, through an update and a removal.\<close>

definition vcount :: "('v \<Rightarrow> bool) \<Rightarrow> ('k, 'v) amap \<Rightarrow> nat" where
  "vcount P m = length (filter P (avals m))"

lemma vcount_simps [simp]:
  "vcount P [] = 0" "vcount P (x # m) = (if P (snd x) then 1 else 0) + vcount P m"
  by (simp_all add: vcount_def)

lemma vcount_adel:
  "distinct (akeys m) \<Longrightarrow> map_of m k = Some v \<Longrightarrow> vcount P m = vcount P (adel k m) + (if P v then 1 else 0)"
proof (induction m)
  case (Cons x m)
  obtain k' w where x: "x = (k', w)" by (cases x)
  show ?case
  proof (cases "k' = k")
    case True
    then have "k \<notin> set (akeys m)" using Cons.prems x by simp
    then have "adel k m = m" by (simp add: delete_id)
    then show ?thesis using True Cons.prems x by simp
  next
    case False
    then show ?thesis using Cons x by simp
  qed
qed simp

lemma vcount_aput:
  "distinct (akeys m) \<Longrightarrow> vcount P (aput k v m) = vcount P (adel k m) + (if P v then 1 else 0)"
proof (induction m)
  case (Cons x m)
  obtain k' w where x: "x = (k', w)" by (cases x)
  show ?case
  proof (cases "k' = k")
    case True
    then have "k \<notin> set (akeys m)" using Cons.prems x by simp
    then have "adel k m = m" by (simp add: delete_id)
    then show ?thesis using True x by simp
  next
    case False
    then show ?thesis using Cons x by simp
  qed
qed simp

lemma vcount_adel_le: "vcount P (adel k m) \<le> vcount P m"
  by (induction m) auto

section \<open>Searching\<close>

lemma find_append: "find P (xs @ ys) = (case find P xs of None \<Rightarrow> find P ys | Some x \<Rightarrow> Some x)"
  by (induction xs) auto

lemma find_by_key: "distinct (map f xs) \<Longrightarrow> x \<in> set xs \<Longrightarrow> find (\<lambda>y. f y = f x) xs = Some x"
  by (induction xs) (auto simp: image_iff)

section \<open>Runs and invariants\<close>

text \<open>
  A component is a step function over its operations; a property kept by each operation holds
  after any sequence of them. Every component that claims an invariant interprets this locale.
\<close>

locale invariant_system =
  fixes step :: "'s \<Rightarrow> 'e \<Rightarrow> 's"
    and inv :: "'s \<Rightarrow> bool"
  assumes inv_step: "inv s \<Longrightarrow> inv (step s e)"
begin

lemma inv_run: "inv s \<Longrightarrow> inv (foldl step s es)"
  by (induction es arbitrary: s) (auto simp: inv_step)

end

end
