(* ===== verification/JsText.thy ===== *)
theory JsText
  imports Prelude
begin

text \<open>
  The parts of the JavaScript language and its standard library that the modelled services
  use on strings and numbers: \<open>String.prototype.trim\<close>, template-literal printing of natural
  numbers, zero padding, \<open>Math.trunc\<close>. A string is a list of code units below 256; the
  services compare, measure and cut strings by code unit, as JavaScript does.
\<close>

section \<open>Decimal printing\<close>

fun dec :: "nat \<Rightarrow> string" where
  "dec n = (if n < 10 then [char_of (48 + n)] else dec (n div 10) @ [char_of (48 + n mod 10)])"

declare dec.simps [simp del]

definition digit :: "char \<Rightarrow> bool" where
  "digit c \<longleftrightarrow> 48 \<le> (of_char c :: nat) \<and> (of_char c :: nat) \<le> 57"

definition undec :: "string \<Rightarrow> nat" where
  "undec s = foldl (\<lambda>n c. 10 * n + (of_char c - 48)) 0 s"

lemma digit_char_of: "n < 10 \<Longrightarrow> digit (char_of (48 + n))" for n :: nat
  by (simp add: digit_def of_char_of)

lemma of_digit: "n < 10 \<Longrightarrow> of_char (char_of (48 + n) :: char) = 48 + n" for n :: nat
  by (simp add: of_char_of)

lemma dec_digits: "list_all digit (dec n)"
proof (induction n rule: dec.induct)
  case (1 n)
  show ?case
  proof (cases "n < 10")
    case True
    then show ?thesis by (subst dec.simps) (simp add: digit_char_of)
  next
    case False
    with 1 have "list_all digit (dec (n div 10))" by simp
    with False show ?thesis by (subst dec.simps) (simp add: digit_char_of)
  qed
qed

lemma dec_nonempty: "dec n \<noteq> []"
  by (subst dec.simps) simp

lemma undec_dec: "undec (dec n) = n"
proof (induction n rule: dec.induct)
  case (1 n)
  show ?case
  proof (cases "n < 10")
    case True
    then show ?thesis by (subst dec.simps) (simp add: undec_def of_digit)
  next
    case False
    with 1 have "undec (dec (n div 10)) = n div 10" by simp
    with False show ?thesis by (subst dec.simps) (simp add: undec_def of_digit)
  qed
qed

lemma dec_inject [simp]: "dec m = dec n \<longleftrightarrow> m = n"
  using undec_dec by metis

text \<open>Two strings that end in digits after a separator that is no digit split the same way.\<close>

lemma append_sep_digits:
  assumes "a @ c # dec m = b @ c # dec n" and "\<not> digit c"
  shows "a = b \<and> m = n"
proof -
  have tw: "takeWhile digit (rev (xs @ c # dec k)) = rev (dec k)" for xs k
  proof -
    have "\<forall>x \<in> set (rev (dec k)). digit x" using dec_digits by (simp add: list_all_iff)
    then show ?thesis
      using assms(2) takeWhile_append2 [of "rev (dec k)" digit "c # rev xs"] by simp
  qed
  have "rev (dec m) = rev (dec n)" using tw [of a m] tw [of b n] assms(1) by simp
  then have "m = n" by simp
  with assms(1) show ?thesis by simp
qed

text \<open>An integer in a template literal.\<close>

definition int_text :: "int \<Rightarrow> string" where
  "int_text n = (if n < 0 then ''-'' @ dec (nat (- n)) else dec (nat n))"

text \<open>\<open>split\<close> on a separator of one character.\<close>

fun js_split :: "char \<Rightarrow> string \<Rightarrow> string list" where
  "js_split c [] = [[]]"
| "js_split c (x # xs) =
     (if x = c then [] # js_split c xs
      else case js_split c xs of [] \<Rightarrow> [[x]] | y # ys \<Rightarrow> (x # y) # ys)"

section \<open>Unicode text\<close>

text \<open>Text with characters above 255 is a list of code points; literals enter it through
  \<open>codes\<close>.\<close>

type_synonym codepoints = "nat list"

definition codes :: "string \<Rightarrow> codepoints" where
  "codes s = map of_char s"

lemma codes_inject: "codes a = codes b \<longleftrightarrow> a = b"
  unfolding codes_def by (rule inj_map_eq_map) (simp add: inj_def)

lemma codes_append [simp]: "codes (a @ b) = codes a @ codes b"
  by (simp add: codes_def)

section \<open>Trimming\<close>

text \<open>JavaScript white space and line terminators among the code units below 256.\<close>

definition js_space :: "char \<Rightarrow> bool" where
  "js_space c \<longleftrightarrow> (of_char c :: nat) \<in> {9, 10, 11, 12, 13, 32, 160}"

definition trim :: "string \<Rightarrow> string" where
  "trim s = rev (dropWhile js_space (rev (dropWhile js_space s)))"

lemma trim_ends:
  assumes "trim s \<noteq> []"
  shows "\<not> js_space (hd (trim s))" and "\<not> js_space (last (trim s))"
proof -
  let ?d = "dropWhile js_space s"
  have ne': "dropWhile js_space (rev ?d) \<noteq> []"
    using assms by (simp add: trim_def)
  then have ne: "?d \<noteq> []" by (metis dropWhile.simps(1) rev.simps(1))
  from ne' show "\<not> js_space (last (trim s))"
    by (simp add: trim_def last_rev hd_dropWhile)
  obtain ys where ys: "rev ?d = takeWhile js_space (rev ?d) @ rev (trim s)"
    by (simp add: trim_def)
  then have "?d = trim s @ rev (takeWhile js_space (rev ?d))"
    by (metis rev_append rev_rev_ident)
  then have "hd (trim s) = hd ?d" using assms by (metis hd_append2)
  with ne show "\<not> js_space (hd (trim s))" by (simp add: hd_dropWhile)
qed

lemma trim_length: "length (trim s) \<le> length s"
  by (simp add: trim_def) (metis length_dropWhile_le length_rev order_trans)

text \<open>JavaScript's truth of an optional string.\<close>

definition given :: "string option \<Rightarrow> bool" where
  "given x \<longleftrightarrow> x \<noteq> None \<and> x \<noteq> Some []"

section \<open>Numbers off the wire\<close>

text \<open>
  A number is a rational; \<open>None\<close> is \<open>NaN\<close>. \<open>js_or n d\<close> is \<open>n || d\<close>.
\<close>

definition js_trunc :: "rat \<Rightarrow> int" where
  "js_trunc x = (if 0 \<le> x then \<lfloor>x\<rfloor> else \<lceil>x\<rceil>)"

definition js_or :: "rat option \<Rightarrow> rat \<Rightarrow> rat" where
  "js_or x d = (case x of None \<Rightarrow> d | Some r \<Rightarrow> if r = 0 then d else r)"

end
