(* ===== verification/Identity.thy ===== *)
theory Identity
  imports JsText
begin

text \<open>
  Who a request or a socket speaks for: the roles and the token claims
  (\<open>src/auth/jwt-payload.ts\<close>), the account state behind a token, and the identity a
  class sees (\<open>RoomUser\<close> of \<open>src/shared/index.ts\<close>). Verifying a token's
  signature is the JWT library's work: wherever the code calls it, the model takes a function
  from tokens to claims as a parameter (\<open>None\<close>: verification throws).
\<close>

datatype role = INSTRUCTOR | STUDENT | ORG_ADMIN

datatype user_status = ACTIVE | DISABLED

record recorder_claim =
  rc_sessionId :: string
  rc_recordingId :: string

record preview_claim =
  pv_sessionId :: string
  pv_port :: nat

record jwt_payload =
  jwt_sub :: string
  jwt_role :: role
  jwt_name :: string
  jwt_email :: string
  jwt_organizationId :: "string option"
  jwt_emailVerified :: bool
  jwt_isSuperAdmin :: bool
  jwt_recorder :: "recorder_claim option"
  jwt_preview :: "preview_claim option"

record account_state =
  acc_status :: user_status
  acc_emailVerified :: bool

record room_user =
  ru_userId :: string
  ru_name :: string
  ru_role :: role

text \<open>A participant's token: no recorder and no preview claim.\<close>

definition plain_token :: "jwt_payload \<Rightarrow> bool" where
  "plain_token u \<longleftrightarrow> jwt_recorder u = None \<and> jwt_preview u = None"

end
