(* ===== verification/Plugins.thy ===== *)
theory Plugins
  imports Identity
begin

text \<open>
  The add-on packs: the catalog (\<open>src/plugins/catalog.ts\<close>) and the entitlement service
  (\<open>src/plugins/plugins.service.ts\<close>) over the rows of \<open>OrgPlugin\<close>, whose
  pair of organization and key is unique in the schema.
\<close>

section \<open>Catalog\<close>

record plugin_def =
  pd_key :: string
  pd_name :: string
  pd_priceMonthly :: "int option"

definition plugin_islamic_education :: string where
  "plugin_islamic_education = ''islamic-education''"

definition plugin_code_instruction :: string where
  "plugin_code_instruction = ''code-instruction''"

definition plugin_maths_sciences :: string where
  "plugin_maths_sciences = ''maths-sciences''"

definition plugin_test_prep :: string where
  "plugin_test_prep = ''test-prep''"

definition plugin_catalog :: "plugin_def list" where
  "plugin_catalog =
     [\<lparr>pd_key = ''islamic-education'', pd_name = ''Islamic Education'', pd_priceMonthly = None\<rparr>,
      \<lparr>pd_key = ''code-instruction'', pd_name = ''Code Instruction'', pd_priceMonthly = None\<rparr>,
      \<lparr>pd_key = ''maths-sciences'', pd_name = ''Maths & Sciences'', pd_priceMonthly = None\<rparr>,
      \<lparr>pd_key = ''test-prep'', pd_name = ''Test Prep'', pd_priceMonthly = None\<rparr>]"

definition is_valid_plugin_key :: "string \<Rightarrow> bool" where
  "is_valid_plugin_key key \<longleftrightarrow> key \<in> set (map pd_key plugin_catalog)"

section \<open>Entitlements\<close>

type_synonym org_plugins = "(string \<times> string) list"

definition enabled_keys :: "org_plugins \<Rightarrow> string \<Rightarrow> string set" where
  "enabled_keys rows orgId = set (map snd (filter (\<lambda>r. fst r = orgId) rows))"

definition list_for_org :: "org_plugins \<Rightarrow> string \<Rightarrow> (plugin_def \<times> bool) list" where
  "list_for_org rows orgId =
     map (\<lambda>p. (p, pd_key p \<in> enabled_keys rows orgId)) plugin_catalog"

text \<open>\<open>if (!orgId) return false\<close>: a missing or empty organization id is not entitled.\<close>

definition is_enabled :: "org_plugins \<Rightarrow> string option \<Rightarrow> string \<Rightarrow> bool" where
  "is_enabled rows orgId key =
     (case orgId of None \<Rightarrow> False | Some o' \<Rightarrow> o' \<noteq> [] \<and> (o', key) \<in> set rows)"

text \<open>\<open>pluginKeys\<close> is a JSON column: \<open>Some ks\<close> when it holds an array.\<close>

definition is_enabled_for_course ::
  "org_plugins \<Rightarrow> string option \<Rightarrow> string list option \<Rightarrow> string \<Rightarrow> bool"
where
  "is_enabled_for_course rows orgId pluginKeys key =
     (case pluginKeys of Some ks \<Rightarrow> key \<in> set ks | None \<Rightarrow> is_enabled rows orgId key)"

definition enable :: "org_plugins \<Rightarrow> string \<Rightarrow> string \<Rightarrow> (org_plugins \<times> string \<times> bool) result" where
  "enable rows orgId key =
     (if \<not> is_valid_plugin_key key then Inl (BadRequest ''Unknown plugin'')
      else Inr (if (orgId, key) \<in> set rows then rows else rows @ [(orgId, key)], key, True))"

definition disable :: "org_plugins \<Rightarrow> string \<Rightarrow> string \<Rightarrow> (org_plugins \<times> string \<times> bool) result" where
  "disable rows orgId key =
     (if \<not> is_valid_plugin_key key then Inl (BadRequest ''Unknown plugin'')
      else Inr (filter (\<lambda>r. \<not> (fst r = orgId \<and> snd r = key)) rows, key, False))"

section \<open>The entitlement contract\<close>

text \<open>
  What the rest of the program relies on: a switch per organization and pack. The packs that
  gate routes, guards and the room gateway only ever ask \<open>on\<close>.
\<close>

locale pack_switch =
  fixes on :: "'s \<Rightarrow> string \<Rightarrow> string \<Rightarrow> bool"
    and turn_on :: "'s \<Rightarrow> string \<Rightarrow> string \<Rightarrow> 's"
    and turn_off :: "'s \<Rightarrow> string \<Rightarrow> string \<Rightarrow> 's"
    and known :: "string \<Rightarrow> bool"
    and ok :: "'s \<Rightarrow> bool"
  assumes on_turn_on: "known k \<Longrightarrow> org \<noteq> [] \<Longrightarrow>
      on (turn_on s org k) org' k' \<longleftrightarrow> (org' = org \<and> k' = k) \<or> on s org' k'"
    and on_turn_off: "known k \<Longrightarrow>
      on (turn_off s org k) org' k' \<longleftrightarrow> \<not> (org' = org \<and> k' = k) \<and> on s org' k'"
    and ok_turn_on: "ok s \<Longrightarrow> ok (turn_on s org k)"
    and ok_turn_off: "ok s \<Longrightarrow> ok (turn_off s org k)"
begin

lemma off_after_on:
  "known k \<Longrightarrow> org \<noteq> [] \<Longrightarrow> \<not> on s org k \<Longrightarrow>
     on (turn_off (turn_on s org k) org k) org' k' = on s org' k'"
  by (auto simp: on_turn_on on_turn_off)

lemma on_idem:
  "known k \<Longrightarrow> org \<noteq> [] \<Longrightarrow>
     on (turn_on (turn_on s org k) org k) org' k' = on (turn_on s org k) org' k'"
  by (auto simp: on_turn_on)

end

definition enable_rows :: "org_plugins \<Rightarrow> string \<Rightarrow> string \<Rightarrow> org_plugins" where
  "enable_rows rows orgId key = (case enable rows orgId key of Inl _ \<Rightarrow> rows | Inr (r, _) \<Rightarrow> r)"

definition disable_rows :: "org_plugins \<Rightarrow> string \<Rightarrow> string \<Rightarrow> org_plugins" where
  "disable_rows rows orgId key = (case disable rows orgId key of Inl _ \<Rightarrow> rows | Inr (r, _) \<Rightarrow> r)"

interpretation packs: pack_switch "\<lambda>rows org. is_enabled rows (Some org)" enable_rows disable_rows
  is_valid_plugin_key distinct
  by unfold_locales
    (auto simp: is_enabled_def enable_rows_def disable_rows_def enable_def disable_def
      split: if_splits)

section \<open>Properties\<close>

text \<open>Turning a known pack on for an organization entitles exactly that pair: no other
  organization and no other pack changes; the unique rows stay unique; an unknown key is
  refused.\<close>

theorem enable_entitles_exactly:
  assumes "enable rows org key = Inr (rows', k, b)" and "org \<noteq> []" and "distinct rows"
  shows "(is_enabled rows' (Some org') key' \<longleftrightarrow>
      (org' = org \<and> key' = key) \<or> is_enabled rows (Some org') key') \<and>
    distinct rows' \<and>
    is_valid_plugin_key key"
proof (intro conjI)
  from assms(1) show known: "is_valid_plugin_key key" by (auto simp: enable_def split: if_splits)
  have rows': "rows' = enable_rows rows org key" using assms(1) by (simp add: enable_rows_def)
  show "is_enabled rows' (Some org') key' \<longleftrightarrow>
      (org' = org \<and> key' = key) \<or> is_enabled rows (Some org') key'"
    unfolding rows' using known assms(2) by (rule packs.on_turn_on)
  show "distinct rows'" unfolding rows' using assms(3) by (rule packs.ok_turn_on)
qed

theorem enable_entitles_exactly_witness:
  "is_enabled [(''org'', ''test-prep'')] (Some ''org'') ''test-prep''"
proof -
  have h: "enable [] ''org'' ''test-prep'' = Inr ([(''org'', ''test-prep'')], ''test-prep'', True)"
    by (simp add: enable_def is_valid_plugin_key_def plugin_catalog_def)
  show ?thesis
    using enable_entitles_exactly [OF h, of "''org''" "''test-prep''"] by simp
qed

text \<open>Enabling and then disabling a pack that was off restores every entitlement.\<close>

theorem disable_undoes_enable:
  assumes "is_valid_plugin_key key" and "org \<noteq> []" and "\<not> is_enabled rows (Some org) key"
  shows "is_enabled (disable_rows (enable_rows rows org key) org key) (Some org') key'
    = is_enabled rows (Some org') key'"
  using assms by (rule packs.off_after_on)

theorem disable_undoes_enable_witness:
  "is_enabled (disable_rows (enable_rows [(''b'', ''test-prep'')] ''a'' ''test-prep'') ''a'' ''test-prep'')
     (Some ''b'') ''test-prep''"
proof -
  have "is_valid_plugin_key ''test-prep''"
    by (simp add: is_valid_plugin_key_def plugin_catalog_def)
  then show ?thesis
    using disable_undoes_enable [of "''test-prep''" "''a''" "[(''b'', ''test-prep'')]" "''b''" "''test-prep''"]
    by (simp add: is_enabled_def)
qed

end
