(* ===== verification/Database.thy ===== *)
theory Database
  imports Plugins
begin

text \<open>
  The rows of \<open>prisma/schema.prisma\<close> that the modelled services read and write, with the
  columns they use. A table is the list of its rows; \<open>findUnique\<close> on an id is \<open>find\<close>;
  required relations (a session's course, a question's quiz) are followed by id. Generated ids and
  the database clock are inputs of the operations that insert. A query's failure (connection
  lost, time-out) is outside the model.
\<close>

datatype session_status = SCHEDULED | LIVE | ENDED

datatype quiz_type = SECTION_QUIZ | BUZZER

record org_row =
  org_id :: string
  org_micRequiresRaisedHand :: bool

record user_row =
  us_id :: string
  us_name :: string
  us_role :: role

record course_row =
  co_id :: string
  co_instructorId :: "string option"
  co_organizationId :: "string option"
  co_pluginKeys :: "string list option"

record section_row =
  se_id :: string
  se_courseId :: string

record session_row =
  ls_id :: string
  ls_courseId :: string
  ls_status :: session_status
  ls_livekitRoom :: string

record enrollment_row =
  en_courseId :: string
  en_studentId :: string

record quiz_row =
  qz_id :: string
  qz_sectionId :: "string option"
  qz_sessionId :: "string option"
  qz_courseId :: "string option"
  qz_type :: quiz_type
  qz_createdAt :: int

record question_row =
  qq_id :: string
  qq_quizId :: string
  qq_body :: string
  qq_options :: "string list"
  qq_correctIndex :: int
  qq_timeLimitSec :: int
  qq_points :: int

record answer_row =
  qa_questionId :: string
  qa_studentId :: string
  qa_answerIndex :: int
  qa_isCorrect :: bool
  qa_receivedAt :: int

record chat_row =
  cm_id :: string
  cm_sessionId :: string
  cm_userId :: string
  cm_body :: string
  cm_audioUrl :: "string option"
  cm_createdAt :: int

record hifz_row =
  hf_courseId :: string
  hf_surahNumber :: int
  hf_ayahEnd :: int
  hf_recordedAt :: int

record db =
  db_orgs :: "org_row list"
  db_orgPlugins :: org_plugins
  db_users :: "user_row list"
  db_courses :: "course_row list"
  db_sections :: "section_row list"
  db_sessions :: "session_row list"
  db_enrollments :: "enrollment_row list"
  db_quizzes :: "quiz_row list"
  db_questions :: "question_row list"
  db_answers :: "answer_row list"
  db_chat :: "chat_row list"
  db_hifz :: "hifz_row list"

definition empty_db :: db where
  "empty_db = \<lparr>db_orgs = [], db_orgPlugins = [], db_users = [], db_courses = [], db_sections = [],
     db_sessions = [], db_enrollments = [], db_quizzes = [], db_questions = [], db_answers = [],
     db_chat = [], db_hifz = []\<rparr>"

definition find_org :: "db \<Rightarrow> string \<Rightarrow> org_row option" where
  "find_org d i = find (\<lambda>r. org_id r = i) (db_orgs d)"

definition find_user :: "db \<Rightarrow> string \<Rightarrow> user_row option" where
  "find_user d i = find (\<lambda>r. us_id r = i) (db_users d)"

definition find_course :: "db \<Rightarrow> string \<Rightarrow> course_row option" where
  "find_course d i = find (\<lambda>r. co_id r = i) (db_courses d)"

definition find_section :: "db \<Rightarrow> string \<Rightarrow> section_row option" where
  "find_section d i = find (\<lambda>r. se_id r = i) (db_sections d)"

definition find_session :: "db \<Rightarrow> string \<Rightarrow> session_row option" where
  "find_session d i = find (\<lambda>r. ls_id r = i) (db_sessions d)"

definition find_quiz :: "db \<Rightarrow> string \<Rightarrow> quiz_row option" where
  "find_quiz d i = find (\<lambda>r. qz_id r = i) (db_quizzes d)"

definition find_question :: "db \<Rightarrow> string \<Rightarrow> question_row option" where
  "find_question d i = find (\<lambda>r. qq_id r = i) (db_questions d)"

text \<open>Rows with a required relation: the row together with the one it points at.\<close>

definition session_course :: "db \<Rightarrow> string \<Rightarrow> (session_row \<times> course_row) option" where
  "session_course d i =
     Option.bind (find_session d i) (\<lambda>s. map_option (Pair s) (find_course d (ls_courseId s)))"

definition question_quiz :: "db \<Rightarrow> string \<Rightarrow> (question_row \<times> quiz_row) option" where
  "question_quiz d i =
     Option.bind (find_question d i) (\<lambda>q. map_option (Pair q) (find_quiz d (qq_quizId q)))"

definition enrolled :: "db \<Rightarrow> string \<Rightarrow> string \<Rightarrow> bool" where
  "enrolled d courseId studentId =
     list_ex (\<lambda>r. en_courseId r = courseId \<and> en_studentId r = studentId) (db_enrollments d)"

text \<open>\<open>quizAnswer.create\<close>: \<open>None\<close> is the unique-constraint error \<open>P2002\<close> on
  question and student.\<close>

definition create_answer :: "db \<Rightarrow> answer_row \<Rightarrow> db option" where
  "create_answer d a =
     (if list_ex (\<lambda>r. qa_questionId r = qa_questionId a \<and> qa_studentId r = qa_studentId a) (db_answers d)
      then None else Some (d\<lparr>db_answers := db_answers d @ [a]\<rparr>))"

text \<open>At most one answer per question and student.\<close>

definition answers_unique :: "db \<Rightarrow> bool" where
  "answers_unique d \<longleftrightarrow> distinct (map (\<lambda>r. (qa_questionId r, qa_studentId r)) (db_answers d))"

lemma create_answer_unique: "create_answer d a = Some d' \<Longrightarrow> answers_unique d \<Longrightarrow> answers_unique d'"
  by (force simp: create_answer_def answers_unique_def list_ex_iff split: if_splits)

lemma find_sessionD: "find_session d i = Some r \<Longrightarrow> ls_id r = i \<and> r \<in> set (db_sessions d)"
  by (auto simp: find_session_def find_Some_iff)

lemma find_courseD: "find_course d i = Some r \<Longrightarrow> co_id r = i \<and> r \<in> set (db_courses d)"
  by (auto simp: find_course_def find_Some_iff)

lemma find_questionD: "find_question d i = Some r \<Longrightarrow> qq_id r = i \<and> r \<in> set (db_questions d)"
  by (auto simp: find_question_def find_Some_iff)

lemma session_courseD:
  "session_course d i = Some (s, c) \<Longrightarrow> find_session d i = Some s \<and> find_course d (ls_courseId s) = Some c"
  by (auto simp: session_course_def bind_eq_Some_conv)

end
