(* ===== verification/QuranWords.thy ===== *)
theory QuranWords
  imports JsText "HOL-Library.Product_Lexorder" "HOL-Library.Option_ord"
begin

text \<open>
  \<open>src/quran/quran-words.ts\<close>: positions in the Qur'an text, and the check and normal
  form of the parts of a mark. The text itself (the JSON asset) and the grapheme segmentation
  (\<open>Intl.Segmenter\<close>) are parameters; text is a list of code units.
\<close>

section \<open>Text\<close>

type_synonym ustring = "nat list"
type_synonym quran_text = "nat \<Rightarrow> ustring list option"
type_synonym segmenter = "ustring \<Rightarrow> ustring list"

definition space_unit :: nat where
  "space_unit = 32"

text \<open>\<open>split(' ').filter(Boolean)\<close>: the maximal runs without a space.\<close>

fun split_words_from :: "ustring \<Rightarrow> ustring \<Rightarrow> ustring list" where
  "split_words_from w [] = (if w = [] then [] else [w])"
| "split_words_from w (c # cs) =
     (if c = space_unit then (if w = [] then [] else [w]) @ split_words_from [] cs
      else split_words_from (w @ [c]) cs)"

definition split_words :: "ustring \<Rightarrow> ustring list" where
  "split_words t = split_words_from [] t"

definition ayah_words :: "quran_text \<Rightarrow> nat \<Rightarrow> nat \<Rightarrow> ustring list option" where
  "ayah_words txt surah ayah =
     (case txt surah of None \<Rightarrow> None
      | Some ayahs \<Rightarrow>
          if 1 \<le> ayah \<and> ayah - 1 < length ayahs then Some (split_words (ayahs ! (ayah - 1))) else None)"

section \<open>Parts\<close>

text \<open>A value off the wire where the code expects a number.\<close>

datatype wire = WNum rat | WOther

definition wire_int :: "wire \<Rightarrow> int option" where
  "wire_int w = (case w of WOther \<Rightarrow> None | WNum r \<Rightarrow> if of_int \<lfloor>r\<rfloor> = r then Some \<lfloor>r\<rfloor> else None)"

text \<open>\<open>isIndex\<close>: an integer that is not negative.\<close>

definition wire_index :: "wire \<Rightarrow> nat option" where
  "wire_index w = (case wire_int w of None \<Rightarrow> None | Some i \<Rightarrow> if 0 \<le> i then Some (nat i) else None)"

record part_ref =
  pr_surah :: wire
  pr_ayah :: wire
  pr_word :: "wire option"
  pr_letter :: "wire option"

datatype normalized_part =
  Part (np_surah: nat) (np_ayah: nat) (np_word: "nat option") (np_letter: "nat option")

definition part_rank :: "normalized_part \<Rightarrow> nat \<times> nat \<times> nat option \<times> nat option" where
  "part_rank p = (np_surah p, np_ayah p, np_word p, np_letter p)"

lemma part_rank_inj: "part_rank p = part_rank q \<longleftrightarrow> p = q"
  by (cases p; cases q) (simp add: part_rank_def)

text \<open>The comparator of the final sort: surah, ayah, then word and letter with \<open>null\<close> first.\<close>

instantiation normalized_part :: linorder
begin

definition less_eq_normalized_part :: "normalized_part \<Rightarrow> normalized_part \<Rightarrow> bool" where
  "less_eq_normalized_part p q \<longleftrightarrow> part_rank p \<le> part_rank q"

definition less_normalized_part :: "normalized_part \<Rightarrow> normalized_part \<Rightarrow> bool" where
  "less_normalized_part p q \<longleftrightarrow> part_rank p < part_rank q"

instance
proof
  fix p q r :: normalized_part
  show "p < q \<longleftrightarrow> p \<le> q \<and> \<not> q \<le> p"
    by (auto simp: less_eq_normalized_part_def less_normalized_part_def)
  show "p \<le> p" by (simp add: less_eq_normalized_part_def)
  show "p \<le> q \<Longrightarrow> q \<le> r \<Longrightarrow> p \<le> r" by (auto simp: less_eq_normalized_part_def)
  show "p \<le> q \<Longrightarrow> q \<le> p \<Longrightarrow> p = q"
    by (auto simp: less_eq_normalized_part_def part_rank_inj dest: order.antisym)
  show "p \<le> q \<or> q \<le> p" by (auto simp: less_eq_normalized_part_def)
qed

end

datatype part_error =
    PickSomething
  | TooManyPieces nat
  | BadSurah
  | NoAyah nat wire
  | LetterNeedsWord
  | NoWord nat nat nat wire
  | NoLetter nat wire

definition max_parts :: nat where
  "max_parts = 64"

text \<open>The duplicate test's key, \<open>surah:ayah:word:letter\<close> with \<open>null\<close> printed empty.\<close>

definition opt_dec :: "nat option \<Rightarrow> string" where
  "opt_dec x = (case x of None \<Rightarrow> [] | Some n \<Rightarrow> dec n)"

definition part_key :: "normalized_part \<Rightarrow> string" where
  "part_key p = dec (np_surah p) @ '':'' @ dec (np_ayah p) @ '':''
     @ opt_dec (np_word p) @ '':'' @ opt_dec (np_letter p)"

definition check_part ::
  "quran_text \<Rightarrow> segmenter \<Rightarrow> part_ref \<Rightarrow> part_error + normalized_part"
where
  "check_part txt seg part =
     (case wire_int (pr_surah part) of
        None \<Rightarrow> Inl BadSurah
      | Some s \<Rightarrow>
          if s < 1 \<or> s > 114 then Inl BadSurah
          else
            let surah = nat s;
                ayah = (case wire_int (pr_ayah part) of
                          Some a \<Rightarrow> if a \<ge> 1 then Some (nat a) else None | None \<Rightarrow> None);
                wds = Option.bind ayah (ayah_words txt surah)
            in case wds of
                 None \<Rightarrow> Inl (NoAyah surah (pr_ayah part))
               | Some words \<Rightarrow>
                   (case pr_word part of
                      None \<Rightarrow>
                        if pr_letter part \<noteq> None then Inl LetterNeedsWord
                        else Inr (Part surah (the ayah) None None)
                    | Some w \<Rightarrow>
                        (case wire_index w of
                           None \<Rightarrow> Inl (NoWord surah (the ayah) (length words) w)
                         | Some wi \<Rightarrow>
                             if wi \<ge> length words
                             then Inl (NoWord surah (the ayah) (length words) w)
                             else (case pr_letter part of
                                     None \<Rightarrow> Inr (Part surah (the ayah) (Some wi) None)
                                   | Some l \<Rightarrow>
                                       let letters = seg (words ! wi) in
                                       (case wire_index l of
                                          None \<Rightarrow> Inl (NoLetter (length letters) l)
                                        | Some li \<Rightarrow>
                                            if li \<ge> length letters
                                            then Inl (NoLetter (length letters) l)
                                            else Inr (Part surah (the ayah) (Some wi) (Some li)))))))"

text \<open>The loop, with the keys seen and the parts kept so far.\<close>

fun collect_parts ::
  "quran_text \<Rightarrow> segmenter \<Rightarrow> string list \<Rightarrow> normalized_part list \<Rightarrow> part_ref list
    \<Rightarrow> part_error + normalized_part list"
where
  "collect_parts txt seg seen out [] = Inr out"
| "collect_parts txt seg seen out (part # rest) =
     (case check_part txt seg part of
        Inl e \<Rightarrow> Inl e
      | Inr p \<Rightarrow>
          if part_key p \<in> set seen then collect_parts txt seg seen out rest
          else collect_parts txt seg (part_key p # seen) (out @ [p]) rest)"

definition validate_parts_max ::
  "quran_text \<Rightarrow> segmenter \<Rightarrow> nat \<Rightarrow> part_ref list \<Rightarrow> part_error + normalized_part list"
where
  "validate_parts_max txt seg limit parts =
     (if parts = [] then Inl PickSomething
      else if length parts > limit then Inl (TooManyPieces limit)
      else (case collect_parts txt seg [] [] parts of
              Inl e \<Rightarrow> Inl e
            | Inr out \<Rightarrow> Inr (sort out)))"

definition validate_parts ::
  "quran_text \<Rightarrow> segmenter \<Rightarrow> part_ref list \<Rightarrow> part_error + normalized_part list"
where
  "validate_parts txt seg parts = validate_parts_max txt seg max_parts parts"

text \<open>\<open>firstAyahOf\<close> reads the first part; the code calls it on a validated, nonempty list
  (on an empty one JavaScript throws).\<close>

definition first_ayah_of :: "normalized_part list \<Rightarrow> (nat \<times> nat) option" where
  "first_ayah_of parts = (case parts of [] \<Rightarrow> None | p # _ \<Rightarrow> Some (np_surah p, np_ayah p))"

section \<open>The duplicate key separates parts\<close>

lemma no_colon_dec: "CHR '':'' \<notin> set (dec n)"
proof
  assume "CHR '':'' \<in> set (dec n)"
  with dec_digits [of n] have "digit (CHR '':'')" by (simp add: list_all_iff)
  then show False by (simp add: digit_def)
qed

lemma no_colon_opt: "CHR '':'' \<notin> set (opt_dec x)"
  by (simp add: opt_dec_def no_colon_dec split: option.splits)

lemma cut_at:
  "c \<notin> set a \<Longrightarrow> c \<notin> set b \<Longrightarrow> a @ c # x = b @ c # y \<Longrightarrow> a = b \<and> x = y"
proof (induction a arbitrary: b)
  case Nil
  then show ?case by (cases b) auto
next
  case (Cons d a)
  then show ?case by (cases b) auto
qed

lemma opt_dec_inject [simp]: "opt_dec x = opt_dec y \<longleftrightarrow> x = y"
  using dec_nonempty by (auto simp: opt_dec_def split: option.splits) metis+

lemma part_key_inject: "part_key p = part_key q \<longleftrightarrow> p = q"
proof
  assume eq: "part_key p = part_key q"
  then have 1: "dec (np_surah p) = dec (np_surah q)"
    and r1: "dec (np_ayah p) @ CHR '':'' # opt_dec (np_word p) @ CHR '':'' # opt_dec (np_letter p)
      = dec (np_ayah q) @ CHR '':'' # opt_dec (np_word q) @ CHR '':'' # opt_dec (np_letter q)"
    using cut_at [OF no_colon_dec no_colon_dec, of "np_surah p" _ "np_surah q"]
    by (simp_all add: part_key_def)
  from cut_at [OF no_colon_dec no_colon_dec r1]
  have 2: "np_ayah p = np_ayah q"
    and r2: "opt_dec (np_word p) @ CHR '':'' # opt_dec (np_letter p)
      = opt_dec (np_word q) @ CHR '':'' # opt_dec (np_letter q)"
    by simp_all
  from cut_at [OF no_colon_opt no_colon_opt r2] 1 2 show "p = q"
    by (cases p; cases q) simp
qed simp

section \<open>The collecting loop\<close>

lemma collect_parts_spec:
  "set seen = part_key ` set out \<Longrightarrow>
   collect_parts txt seg seen out parts =
     (case those (map (\<lambda>p. case check_part txt seg p of Inl _ \<Rightarrow> None | Inr q \<Rightarrow> Some q) parts) of
        None \<Rightarrow> collect_parts txt seg seen out parts
      | Some ps \<Rightarrow> Inr (foldl (\<lambda>acc p. if p \<in> set acc then acc else acc @ [p]) out ps))"
proof (induction parts arbitrary: seen out)
  case Nil
  then show ?case by simp
next
  case (Cons part rest)
  show ?case
  proof (cases "check_part txt seg part")
    case (Inl e)
    then show ?thesis by simp
  next
    case (Inr p)
    have mem: "part_key p \<in> set seen \<longleftrightarrow> p \<in> set out"
      using Cons.prems by (auto simp: part_key_inject)
    show ?thesis
    proof (cases "p \<in> set out")
      case True
      with Inr mem show ?thesis
        using Cons.IH [OF Cons.prems] by (simp split: option.splits)
    next
      case False
      then have "set (part_key p # seen) = part_key ` set (out @ [p])"
        using Cons.prems by simp
      with Inr mem False show ?thesis
        using Cons.IH [of "part_key p # seen" "out @ [p]"] by (simp split: option.splits)
    qed
  qed
qed

lemma collect_parts_Inr:
  assumes "collect_parts txt seg seen out parts = Inr ps"
  shows "\<forall>part \<in> set parts. \<exists>q. check_part txt seg part = Inr q"
  using assms
  by (induction parts arbitrary: seen out) (auto split: sum.splits if_splits)

lemma dedup_set: "set (foldl (\<lambda>acc p. if p \<in> set acc then acc else acc @ [p]) out ps) = set out \<union> set ps"
  by (induction ps arbitrary: out) auto

lemma dedup_distinct:
  "distinct out \<Longrightarrow> distinct (foldl (\<lambda>acc p. if p \<in> set acc then acc else acc @ [p]) out ps)"
  by (induction ps arbitrary: out) auto

definition checked :: "quran_text \<Rightarrow> segmenter \<Rightarrow> part_ref list \<Rightarrow> normalized_part set" where
  "checked txt seg parts = {q. \<exists>part \<in> set parts. check_part txt seg part = Inr q}"

lemma collect_parts_result:
  assumes "collect_parts txt seg [] [] parts = Inr out"
  shows "set out = checked txt seg parts" and "distinct out"
proof -
  let ?f = "\<lambda>p. case check_part txt seg p of Inl _ \<Rightarrow> None | Inr q \<Rightarrow> Some q"
  have all: "\<forall>part \<in> set parts. \<exists>q. check_part txt seg part = Inr q"
    using assms by (rule collect_parts_Inr)
  then have "those (map ?f parts) = Some (map (\<lambda>p. projr (check_part txt seg p)) parts)"
    by (induction parts) auto
  then have out: "out = foldl (\<lambda>acc p. if p \<in> set acc then acc else acc @ [p]) []
      (map (\<lambda>p. projr (check_part txt seg p)) parts)"
    using assms collect_parts_spec [of "[]" "[]" "txt" seg parts] by simp
  then show "distinct out" by (simp add: dedup_distinct)
  show "set out = checked txt seg parts"
    using all by (force simp: out dedup_set checked_def image_iff)
qed

section \<open>Properties\<close>

definition part_in_text :: "quran_text \<Rightarrow> segmenter \<Rightarrow> normalized_part \<Rightarrow> bool" where
  "part_in_text txt seg p \<longleftrightarrow>
     1 \<le> np_surah p \<and> np_surah p \<le> 114 \<and>
     (\<exists>words. ayah_words txt (np_surah p) (np_ayah p) = Some words \<and>
        (case np_word p of
           None \<Rightarrow> np_letter p = None
         | Some w \<Rightarrow> w < length words \<and>
             (case np_letter p of None \<Rightarrow> True | Some l \<Rightarrow> l < length (seg (words ! w)))))"

lemma check_part_in_text: "check_part txt seg r = Inr p \<Longrightarrow> part_in_text txt seg p"
  by (auto simp: check_part_def part_in_text_def Let_def bind_eq_Some_conv
      split: option.splits if_splits)

definition nat_wire :: "nat \<Rightarrow> wire" where
  "nat_wire n = WNum (of_nat n)"

lemma wire_int_nat [simp]: "wire_int (nat_wire n) = Some (int n)"
  by (simp add: wire_int_def nat_wire_def)

lemma wire_index_nat [simp]: "wire_index (nat_wire n) = Some n"
  by (simp add: wire_index_def)

text \<open>A stored part sent back by a client.\<close>

definition to_ref :: "normalized_part \<Rightarrow> part_ref" where
  "to_ref p = \<lparr>pr_surah = nat_wire (np_surah p), pr_ayah = nat_wire (np_ayah p),
     pr_word = map_option nat_wire (np_word p), pr_letter = map_option nat_wire (np_letter p)\<rparr>"

lemma ayah_words_pos: "ayah_words txt s a = Some ws \<Longrightarrow> Suc 0 \<le> a"
  by (auto simp: ayah_words_def split: option.splits if_splits)

lemma check_part_to_ref: "part_in_text txt seg p \<Longrightarrow> check_part txt seg (to_ref p) = Inr p"
  by (cases p)
    (auto simp: part_in_text_def check_part_def to_ref_def Let_def
      dest: ayah_words_pos intro: ayah_words_pos split: option.splits)

lemma validate_Inr:
  assumes "validate_parts_max txt seg limit parts = Inr out"
  shows "sorted out" and "distinct out" and "set out = checked txt seg parts"
    and "parts \<noteq> []" and "length parts \<le> limit"
  using assms collect_parts_result
  by (auto simp: validate_parts_max_def split: if_splits sum.splits)

lemma validate_length: "validate_parts_max txt seg limit parts = Inr out \<Longrightarrow> length out \<le> length parts"
proof -
  assume a: "validate_parts_max txt seg limit parts = Inr out"
  have "checked txt seg parts \<subseteq> (\<lambda>r. projr (check_part txt seg r)) ` set parts"
    by (force simp: checked_def)
  then have "card (checked txt seg parts) \<le> length parts"
    by (meson card_image_le card_length card_mono finite_imageI finite_set le_trans)
  then show ?thesis using validate_Inr(2,3) [OF a] by (metis distinct_card)
qed

text \<open>A mark that is accepted is stored in normal form: between one and \<open>limit\<close> parts,
  strictly increasing in reading order (so without duplicates), every one of them naming a surah,
  ayah, word and letter that exist in the text, and exactly the parts the client sent.\<close>

theorem validate_parts_normal_form:
  assumes "validate_parts_max txt seg limit parts = Inr out"
  shows "out \<noteq> [] \<and> length out \<le> limit \<and> sorted_wrt (<) out \<and>
    (\<forall>p \<in> set out. part_in_text txt seg p) \<and> set out = checked txt seg parts"
proof -
  note v = validate_Inr [OF assms]
  have ex: "\<forall>r \<in> set parts. \<exists>q. check_part txt seg r = Inr q"
    using assms collect_parts_Inr by (auto simp: validate_parts_max_def split: if_splits sum.splits)
  then have "out \<noteq> []" using v(3,4) by (cases parts) (auto simp: checked_def)
  moreover have "sorted_wrt (<) out" using v(1,2) by (simp add: strict_sorted_iff)
  moreover have "\<forall>p \<in> set out. part_in_text txt seg p"
    using v(3) check_part_in_text by (auto simp: checked_def)
  ultimately show ?thesis using v validate_length [OF assms] by auto
qed

definition small_text :: quran_text where
  "small_text s = (if s = 1 then Some [[98, 32, 99, 99]] else None)"

definition unit_segmenter :: segmenter where
  "unit_segmenter w = map (\<lambda>c. [c]) w"

lemma small_text_words: "ayah_words small_text (Suc 0) (Suc 0) = Some [[98], [99, 99]]"
  by (simp add: ayah_words_def small_text_def split_words_def space_unit_def)

lemma small_text_parts:
  "validate_parts_max small_text unit_segmenter 64
     (map to_ref [Part 1 1 (Some 1) (Some 0), Part 1 1 None None, Part 1 1 (Some 1) (Some 0)])
   = Inr [Part 1 1 None None, Part 1 1 (Some 1) (Some 0)]"
proof -
  have a: "check_part small_text unit_segmenter (to_ref (Part (Suc 0) (Suc 0) (Some (Suc 0)) (Some 0)))
      = Inr (Part (Suc 0) (Suc 0) (Some (Suc 0)) (Some 0))"
    by (rule check_part_to_ref) (simp add: part_in_text_def small_text_words unit_segmenter_def)
  have b: "check_part small_text unit_segmenter (to_ref (Part (Suc 0) (Suc 0) None None)) = Inr (Part (Suc 0) (Suc 0) None None)"
    by (rule check_part_to_ref) (simp add: part_in_text_def small_text_words)
  show ?thesis
    by (simp add: validate_parts_max_def a b part_key_inject less_eq_normalized_part_def part_rank_def
        less_eq_option_None_code)
qed

theorem validate_parts_normal_form_witness:
  "sorted_wrt (<) [Part 1 1 None None, Part 1 1 (Some 1) (Some 0)]"
  using validate_parts_normal_form [OF small_text_parts] by blast

text \<open>The stored form depends only on which positions were picked: two accepted requests that
  name the same parts, in any order and with any repetitions, are stored identically.\<close>

theorem validate_parts_canonical:
  assumes "validate_parts_max txt seg limit parts = Inr out"
    and "validate_parts_max txt seg limit' parts' = Inr out'"
    and "checked txt seg parts = checked txt seg parts'"
  shows "out = out'"
  using validate_Inr [OF assms(1)] validate_Inr [OF assms(2)] assms(3)
  by (intro sorted_distinct_set_unique) simp_all

theorem validate_parts_canonical_witness:
  "validate_parts_max small_text unit_segmenter 64
     (map to_ref [Part 1 1 (Some 1) (Some 0), Part 1 1 None None, Part 1 1 (Some 1) (Some 0)])
   = Inr [Part 1 1 None None, Part 1 1 (Some 1) (Some 0)]"
  using validate_parts_canonical [OF small_text_parts small_text_parts refl] small_text_parts by simp

text \<open>Finding: Reading a mark back is the identity: the stored parts, sent again as they are, pass every
  check and are stored unchanged.\<close>

theorem validate_parts_stable:
  assumes "validate_parts_max txt seg limit parts = Inr out"
  shows "validate_parts_max txt seg limit (map to_ref out) = Inr out"
proof -
  note n = validate_parts_normal_form [OF assms]
  have ok: "\<forall>r \<in> set (map to_ref out). \<exists>q. check_part txt seg r = Inr q"
    using n check_part_to_ref by auto
  have run: "\<exists>ps. collect_parts txt seg seen acc rs = Inr ps"
    if "\<forall>r \<in> set rs. \<exists>q. check_part txt seg r = Inr q" for seen acc rs
    using that by (induction rs arbitrary: seen acc) (auto split: sum.splits)
  obtain out' where out': "validate_parts_max txt seg limit (map to_ref out) = Inr out'"
    using run [OF ok, of "[]" "[]"] n by (auto simp: validate_parts_max_def)
  have "checked txt seg (map to_ref out) = set out"
    using n check_part_to_ref by (force simp: checked_def)
  then have "checked txt seg (map to_ref out) = checked txt seg parts" using n by simp
  then have "out' = out"
    using validate_Inr [OF out'] validate_Inr [OF assms] by (intro sorted_distinct_set_unique) simp_all
  with out' show ?thesis by simp
qed

theorem validate_parts_stable_witness:
  "validate_parts_max small_text unit_segmenter 64
     (map to_ref [Part 1 1 None None, Part 1 1 (Some 1) (Some 0)])
   = Inr [Part 1 1 None None, Part 1 1 (Some 1) (Some 0)]"
  by (rule validate_parts_stable [OF small_text_parts])

end
