(* ===== verification/TajweedInput.thy ===== *)
theory TajweedInput
  imports JsText "HOL-Library.Sublist"
begin

text \<open>
  \<open>src/tajweed/tajweed-input.ts\<close> and the rule keys of \<open>src/shared/index.ts\<close>:
  what the HTTP API and the room gateway accept as an annotation id, a colour, a rule and a
  teacher's note.
\<close>

section \<open>Rules\<close>

text \<open>\<open>TAJWEED_RULE_GROUPS\<close>: group keys with their rule keys.\<close>

definition tajweed_rule_groups :: "(string \<times> string list) list" where
  "tajweed_rule_groups =
     [(''nun'', [''izhar_halqi'', ''idgham_ghunnah'', ''idgham_no_ghunnah'', ''iqlab'', ''ikhfa_haqiqi'']),
      (''mim'', [''ikhfa_shafawi'', ''idgham_shafawi'', ''izhar_shafawi'']),
      (''ghunnah'', [''mushaddadah'']),
      (''qalqalah'', [''sughra'', ''kubra'']),
      (''madd'', [''tabii'', ''muttasil'', ''munfasil'', ''arid'', ''lin'', ''badal'', ''iwad'',
         ''silah_sughra'', ''silah_kubra'', ''lazim_kalimi_muthaqqal'', ''lazim_kalimi_mukhaffaf'',
         ''lazim_harfi_muthaqqal'', ''lazim_harfi_mukhaffaf'', ''tamkin'', ''farq'']),
      (''idgham'', [''mutamathilayn'', ''mutajanisayn'', ''mutaqaribayn'']),
      (''lam'', [''shamsiyyah'', ''qamariyyah'', ''jalalah_tafkhim'', ''jalalah_tarqiq'']),
      (''ra'', [''tafkhim'', ''tarqiq'']),
      (''sifat'', [''istila'', ''istifal'']),
      (''hamzah'', [''wasl'', ''qat'']),
      (''waqf'', [''lazim'', ''mamnu'', ''jaiz'', ''wasl_awla'', ''waqf_awla'', ''muanaqah'', ''saktah''])]"

definition tajweed_legacy_rules :: "string list" where
  "tajweed_legacy_rules =
     [''madd'', ''ghunnah'', ''ikhfa'', ''idgham'', ''iqlab'', ''izhar'', ''qalqalah'', ''waqf'']"

text \<open>\<open>TAJWEED_RULE_KEYS\<close>: every \<open>group.rule\<close>, the custom note, and the legacy keys.\<close>

definition tajweed_rule_keys :: "string list" where
  "tajweed_rule_keys =
     concat (map (\<lambda>(g, rs). map (\<lambda>r. g @ ''.'' @ r) rs) tajweed_rule_groups)
       @ [''custom''] @ tajweed_legacy_rules"

definition is_tajweed_rule :: "string option \<Rightarrow> bool" where
  "is_tajweed_rule v = (case v of None \<Rightarrow> False | Some s \<Rightarrow> s \<in> set tajweed_rule_keys)"

section \<open>Ids and colours\<close>

definition between :: "nat \<Rightarrow> nat \<Rightarrow> char \<Rightarrow> bool" where
  "between lo hi c \<longleftrightarrow> lo \<le> of_char c \<and> of_char c \<le> hi"

definition alnum :: "char \<Rightarrow> bool" where
  "alnum c \<longleftrightarrow> between 48 57 c \<or> between 65 90 c \<or> between 97 122 c"

text \<open>\<open>/^[A-Za-z0-9_-]{8,64}$/\<close>\<close>

definition annotation_id_ok :: "string \<Rightarrow> bool" where
  "annotation_id_ok s \<longleftrightarrow>
     8 \<le> length s \<and> length s \<le> 64 \<and> list_all (\<lambda>c. alnum c \<or> c = CHR ''_'' \<or> c = CHR ''-'') s"

text \<open>\<open>/^#[0-9a-fA-F]{6}$/\<close>\<close>

definition hex_color_ok :: "string \<Rightarrow> bool" where
  "hex_color_ok s =
     (case s of [] \<Rightarrow> False
      | c # cs \<Rightarrow> c = CHR ''#'' \<and> length cs = 6
          \<and> list_all (\<lambda>d. between 48 57 d \<or> between 97 102 d \<or> between 65 70 d) cs)"

section \<open>Notes\<close>

text \<open>\<open>replace(/<[^>]*>/g, '')\<close>: from a \<open><\<close> to the first \<open>></\<close> after it, if there is one.\<close>

function strip_tags :: "string \<Rightarrow> string" where
  "strip_tags [] = []"
| "strip_tags (c # cs) =
     (if c = CHR ''<'' \<and> CHR ''>'' \<in> set cs
      then strip_tags (tl (dropWhile (\<lambda>d. d \<noteq> CHR ''>'') cs))
      else c # strip_tags cs)"
  by pat_completeness auto
termination
proof (relation "measure length")
  fix c :: char and cs :: string
  have "length (tl (dropWhile (\<lambda>d. d \<noteq> CHR ''>'') cs)) \<le> length cs"
    by (metis diff_le_self le_trans length_dropWhile_le length_tl)
  then show "(tl (dropWhile (\<lambda>d. d \<noteq> CHR ''>'') cs), c # cs) \<in> measure length"
    by simp
qed auto

text \<open>Control characters other than tab, line feed and carriage return.\<close>

definition stripped_control :: "char \<Rightarrow> bool" where
  "stripped_control c \<longleftrightarrow>
     (let n = of_char c :: nat in n \<le> 8 \<or> n = 11 \<or> n = 12 \<or> (14 \<le> n \<and> n \<le> 31) \<or> n = 127)"

definition clean_text :: "string option \<Rightarrow> nat \<Rightarrow> string option" where
  "clean_text v limit =
     (case v of None \<Rightarrow> None
      | Some s \<Rightarrow>
          let cleaned = take limit (trim (filter (\<lambda>c. \<not> stripped_control c) (strip_tags s)))
          in if cleaned = [] then None else Some cleaned)"

section \<open>No tag survives\<close>

text \<open>A string holds a tag when a \<open><\<close> stands somewhere before a \<open>></\<close>.\<close>

fun has_tag :: "string \<Rightarrow> bool" where
  "has_tag [] = False"
| "has_tag (c # cs) = ((c = CHR ''<'' \<and> CHR ''>'' \<in> set cs) \<or> has_tag cs)"

lemma strip_tags_set: "set (strip_tags s) \<subseteq> set s"
proof (induction s rule: strip_tags.induct)
  case (2 c cs)
  have "set (tl (dropWhile (\<lambda>d. d \<noteq> CHR ''>'') cs)) \<subseteq> set cs"
    by (metis (no_types) dropWhile_eq_drop drop_Suc set_drop_subset tl_drop)
  with 2 show ?case by (auto split: if_splits)
qed simp

lemma strip_tags_no_tag: "\<not> has_tag (strip_tags s)"
proof (induction s rule: strip_tags.induct)
  case (2 c cs)
  then show ?case using strip_tags_set [of cs] by auto
qed simp

lemma has_tag_subseq: "subseq xs ys \<Longrightarrow> has_tag xs \<Longrightarrow> has_tag ys"
proof (induction rule: list_emb.induct)
  case (list_emb_Cons2 x y xs ys)
  then have "set xs \<subseteq> set ys" by (auto dest: list_emb_set)
  with list_emb_Cons2 show ?case by auto
qed simp_all

lemma trim_subseq: "subseq (trim s) s"
proof -
  have d: "subseq (dropWhile js_space t) t" for t
    by (metis list_emb_append2 subseq_order.order_refl takeWhile_dropWhile_id)
  have "subseq (rev (dropWhile js_space (rev t))) t" for t
  proof -
    have "t = rev (dropWhile js_space (rev t)) @ rev (takeWhile js_space (rev t))"
      by (metis rev_append rev_rev_ident takeWhile_dropWhile_id)
    then show ?thesis by (metis list_emb_prefix subseq_order.order_refl)
  qed
  then show ?thesis unfolding trim_def using d subseq_order.order_trans by blast
qed

lemma clean_text_Some:
  assumes "clean_text v limit = Some t"
  obtains s where "v = Some s" "t \<noteq> []"
    "t = take limit (trim (filter (\<lambda>c. \<not> stripped_control c) (strip_tags s)))"
  using assms by (auto simp: clean_text_def Let_def split: option.splits if_splits)

text \<open>A teacher's note that is kept is nonempty, at most \<open>limit\<close> long, free of control
  characters other than line breaks and tabs, and no \<open><\<close> in it is followed by a \<open>></\<close>: no
  markup survives, whatever was typed.\<close>

theorem clean_text_safe:
  assumes "clean_text v limit = Some t"
  shows "t \<noteq> [] \<and> length t \<le> limit \<and> \<not> has_tag t \<and> list_all (\<lambda>c. \<not> stripped_control c) t"
proof -
  from assms obtain s where t: "t \<noteq> []"
    "t = take limit (trim (filter (\<lambda>c. \<not> stripped_control c) (strip_tags s)))"
    by (rule clean_text_Some)
  let ?f = "filter (\<lambda>c. \<not> stripped_control c) (strip_tags s)"
  have sub: "subseq t ?f"
    unfolding t(2) by (meson subseq_order.order_trans trim_subseq prefix_imp_subseq take_is_prefix)
  have "subseq t (strip_tags s)"
    using sub subseq_filter_left subseq_order.order_trans by blast
  then have "\<not> has_tag t" using has_tag_subseq strip_tags_no_tag by blast
  moreover have "list_all (\<lambda>c. \<not> stripped_control c) t"
    using list_emb_set [OF sub] by (force simp: list_all_iff)
  ultimately show ?thesis using t by simp
qed

theorem clean_text_safe_witness:
  "clean_text (Some ''<b>hi'') 10 = Some ''hi'' \<and> length ''hi'' \<le> 10 \<and> \<not> has_tag ''hi''"
proof -
  have h: "clean_text (Some ''<b>hi'') 10 = Some ''hi''"
    by (simp add: clean_text_def trim_def js_space_def stripped_control_def)
  show ?thesis using h clean_text_safe [OF h] by simp
qed

end
