(* ===== verification/RoomState.thy ===== *)
theory RoomState
  imports Database QuranWords TajweedInput
begin

text \<open>
  \<open>src/room-gateway/room-state.service.ts\<close>: the ephemeral state of one live session. Each
  Redis key of a session is a field; a hash is an insertion-ordered map, a set a list without
  repetition, and a JSON value the value it encodes. Keys also carry a twelve-hour life that is
  renewed by writes; its end is not a step of the model.
\<close>

section \<open>Data\<close>

record quran_position =
  qp_surah :: int
  qp_ayah :: int

record tajweed_temporary =
  tt_id :: string
  tt_surahNumber :: nat
  tt_ayahNumber :: nat
  tt_parts :: "normalized_part list"
  tt_rule :: string
  tt_customLabel :: "string option"
  tt_style :: string
  tt_color :: "string option"
  tt_note :: "string option"
  tt_expiresAt :: "int option"

record quiz_question_public =
  qpub_questionId :: string
  qpub_body :: string
  qpub_options :: "string list"
  qpub_timeLimitSec :: int
  qpub_points :: int
  qpub_openedAt :: int

datatype buzzer_phase = IDLE | COLLECTING | QUESTION_OPEN | WINNER | TIMEOUT | QA

record buzzer_state =
  bz_phase :: buzzer_phase
  bz_eligibleUserIds :: "string list"
  bz_question :: "quiz_question_public option"
  bz_winner :: "room_user option"

text \<open>What \<open>JSON.parse\<close> makes of the pointing key: a list of parts, another value, an error.\<close>

datatype pointing_json = JParts "normalized_part list" | JOtherValue | JMalformed

record room_state =
  rs_presence :: "(string, room_user) amap"
  rs_chatlock :: bool
  rs_view :: "string option"
  rs_theme :: "string option"
  rs_quran :: "quran_position option"
  rs_tajweed :: "(string, tajweed_temporary) amap"
  rs_pointing :: "pointing_json option"
  rs_hands :: "(string, room_user) amap"
  rs_speakers :: "string list"
  rs_buzzer :: "buzzer_state option"
  rs_answered :: "string list"

definition empty_room :: room_state where
  "empty_room = \<lparr>rs_presence = [], rs_chatlock = False, rs_view = None, rs_theme = None,
     rs_quran = None, rs_tajweed = [], rs_pointing = None, rs_hands = [], rs_speakers = [],
     rs_buzzer = None, rs_answered = []\<rparr>"

section \<open>Presence and raised hands\<close>

definition add_presence :: "room_state \<Rightarrow> room_user \<Rightarrow> room_state" where
  "add_presence r u = r\<lparr>rs_presence := aput (ru_userId u) u (rs_presence r)\<rparr>"

definition remove_presence :: "room_state \<Rightarrow> string \<Rightarrow> room_state" where
  "remove_presence r uid = r\<lparr>rs_presence := adel uid (rs_presence r)\<rparr>"

definition list_presence :: "room_state \<Rightarrow> room_user list" where
  "list_presence r = avals (rs_presence r)"

definition raise_hand :: "room_state \<Rightarrow> room_user \<Rightarrow> room_state" where
  "raise_hand r u = r\<lparr>rs_hands := aput (ru_userId u) u (rs_hands r)\<rparr>"

definition lower_hand :: "room_state \<Rightarrow> string \<Rightarrow> room_state" where
  "lower_hand r uid = r\<lparr>rs_hands := adel uid (rs_hands r)\<rparr>"

definition list_hands :: "room_state \<Rightarrow> room_user list" where
  "list_hands r = avals (rs_hands r)"

definition clear_hands :: "room_state \<Rightarrow> room_state" where
  "clear_hands r = r\<lparr>rs_hands := []\<rparr>"

text \<open>\<open>Math.floor(Math.random() * n)\<close> with the random number an input in \<open>[0, 1)\<close>.\<close>

definition random_hand :: "rat \<Rightarrow> room_state \<Rightarrow> room_user option" where
  "random_hand rnd r =
     (let userIds = akeys (rs_hands r) in
      if userIds = [] then None
      else map_of (rs_hands r) (userIds ! nat \<lfloor>rnd * of_nat (length userIds)\<rfloor>))"

section \<open>Lock, view, theme, mushaf\<close>

definition set_chat_lock :: "room_state \<Rightarrow> bool \<Rightarrow> room_state" where
  "set_chat_lock r locked = r\<lparr>rs_chatlock := locked\<rparr>"

definition is_chat_locked :: "room_state \<Rightarrow> bool" where
  "is_chat_locked r = rs_chatlock r"

definition set_view :: "room_state \<Rightarrow> string \<Rightarrow> room_state" where
  "set_view r v = r\<lparr>rs_view := Some v\<rparr>"

definition get_view :: "room_state \<Rightarrow> string" where
  "get_view r =
     (case rs_view r of
        None \<Rightarrow> ''video''
      | Some v \<Rightarrow> if v = ''board'' \<or> v = ''quran'' \<or> v = ''code'' then v else ''video'')"

definition room_schemes :: "string list" where
  "room_schemes = [''teal'', ''forest'', ''indigo'', ''plum'']"

definition set_theme :: "room_state \<Rightarrow> string \<Rightarrow> room_state" where
  "set_theme r s = r\<lparr>rs_theme := Some s\<rparr>"

definition get_theme :: "room_state \<Rightarrow> string" where
  "get_theme r =
     (case rs_theme r of None \<Rightarrow> ''teal''
      | Some v \<Rightarrow> if v \<in> set room_schemes then v else ''teal'')"

definition set_quran_pos :: "room_state \<Rightarrow> quran_position \<Rightarrow> room_state" where
  "set_quran_pos r p = r\<lparr>rs_quran := Some p\<rparr>"

definition get_quran_pos :: "room_state \<Rightarrow> quran_position" where
  "get_quran_pos r =
     (case rs_quran r of None \<Rightarrow> \<lparr>qp_surah = 1, qp_ayah = 1\<rparr> | Some p \<Rightarrow> p)"

definition has_quran_pos :: "room_state \<Rightarrow> bool" where
  "has_quran_pos r \<longleftrightarrow> rs_quran r \<noteq> None"

section \<open>Live Tajweed annotations\<close>

definition tajweed_live_max :: nat where
  "tajweed_live_max = 50"

definition set_tajweed_temporary :: "room_state \<Rightarrow> tajweed_temporary \<Rightarrow> room_state \<times> bool" where
  "set_tajweed_temporary r a =
     (let exists = tt_id a \<in> set (akeys (rs_tajweed r)) in
      if \<not> exists \<and> length (rs_tajweed r) \<ge> tajweed_live_max then (r, False)
      else (r\<lparr>rs_tajweed := aput (tt_id a) a (rs_tajweed r)\<rparr>, True))"

text \<open>\<open>if (id)\<close>: an absent or empty id clears everything.\<close>

definition clear_tajweed_temporary :: "room_state \<Rightarrow> string option \<Rightarrow> room_state" where
  "clear_tajweed_temporary r i =
     (case i of
        Some x \<Rightarrow> if x \<noteq> [] then r\<lparr>rs_tajweed := adel x (rs_tajweed r)\<rparr> else r\<lparr>rs_tajweed := []\<rparr>
      | None \<Rightarrow> r\<lparr>rs_tajweed := []\<rparr>)"

definition tajweed_expired :: "int \<Rightarrow> tajweed_temporary \<Rightarrow> bool" where
  "tajweed_expired now a = (case tt_expiresAt a of None \<Rightarrow> False | Some t \<Rightarrow> t \<le> now)"

definition list_tajweed_temporary :: "int \<Rightarrow> room_state \<Rightarrow> room_state \<times> tajweed_temporary list" where
  "list_tajweed_temporary now r =
     (r\<lparr>rs_tajweed := filter (\<lambda>(k, a). \<not> tajweed_expired now a) (rs_tajweed r)\<rparr>,
      filter (\<lambda>a. \<not> tajweed_expired now a) (avals (rs_tajweed r)))"

definition set_tajweed_pointing :: "room_state \<Rightarrow> normalized_part list \<Rightarrow> room_state" where
  "set_tajweed_pointing r parts =
     (if parts = [] then r\<lparr>rs_pointing := None\<rparr> else r\<lparr>rs_pointing := Some (JParts parts)\<rparr>)"

definition get_tajweed_pointing :: "room_state \<Rightarrow> normalized_part list" where
  "get_tajweed_pointing r =
     (case rs_pointing r of None \<Rightarrow> []
      | Some (JParts ps) \<Rightarrow> ps | Some JOtherValue \<Rightarrow> [] | Some JMalformed \<Rightarrow> [])"

section \<open>Speakers and buzzer\<close>

definition sadd :: "string \<Rightarrow> string list \<Rightarrow> string list" where
  "sadd x xs = (if x \<in> set xs then xs else xs @ [x])"

definition grant_mic :: "room_state \<Rightarrow> string \<Rightarrow> room_state" where
  "grant_mic r uid = r\<lparr>rs_speakers := sadd uid (rs_speakers r)\<rparr>"

definition revoke_mic :: "room_state \<Rightarrow> string \<Rightarrow> room_state" where
  "revoke_mic r uid = r\<lparr>rs_speakers := removeAll uid (rs_speakers r)\<rparr>"

definition list_speakers :: "room_state \<Rightarrow> string list" where
  "list_speakers r = rs_speakers r"

definition set_buzzer_state :: "room_state \<Rightarrow> buzzer_state \<Rightarrow> room_state" where
  "set_buzzer_state r b = r\<lparr>rs_buzzer := Some b\<rparr>"

definition get_buzzer_state :: "room_state \<Rightarrow> buzzer_state option" where
  "get_buzzer_state r = rs_buzzer r"

definition mark_buzzer_answered :: "room_state \<Rightarrow> string \<Rightarrow> room_state \<times> bool" where
  "mark_buzzer_answered r uid =
     (r\<lparr>rs_answered := sadd uid (rs_answered r)\<rparr>, uid \<notin> set (rs_answered r))"

definition clear_buzzer_answered :: "room_state \<Rightarrow> room_state" where
  "clear_buzzer_answered r = r\<lparr>rs_answered := []\<rparr>"

lemmas room_ops =
  add_presence_def remove_presence_def list_presence_def raise_hand_def lower_hand_def
  list_hands_def clear_hands_def set_chat_lock_def is_chat_locked_def set_view_def set_theme_def
  set_quran_pos_def has_quran_pos_def clear_tajweed_temporary_def
  set_tajweed_pointing_def grant_mic_def revoke_mic_def list_speakers_def set_buzzer_state_def
  get_buzzer_state_def clear_buzzer_answered_def

section \<open>The register contract\<close>

text \<open>
  Presence and hands are the same thing to the gateway: a register of identities with one entry
  per user. The gateway's lemmas use only these laws.
\<close>

locale user_register =
  fixes put :: "'s \<Rightarrow> room_user \<Rightarrow> 's"
    and del :: "'s \<Rightarrow> string \<Rightarrow> 's"
    and users :: "'s \<Rightarrow> room_user list"
    and ok :: "'s \<Rightarrow> bool"
  assumes ok_put: "ok s \<Longrightarrow> ok (put s u)"
    and ok_del: "ok s \<Longrightarrow> ok (del s uid)"
    and users_put: "ok s \<Longrightarrow>
      set (users (put s u)) = insert u {v \<in> set (users s). ru_userId v \<noteq> ru_userId u}"
    and users_del: "ok s \<Longrightarrow> set (users (del s uid)) = {v \<in> set (users s). ru_userId v \<noteq> uid}"
    and one_each: "ok s \<Longrightarrow> distinct (map ru_userId (users s))"
begin

definition member :: "'s \<Rightarrow> string \<Rightarrow> bool" where
  "member s uid \<longleftrightarrow> uid \<in> ru_userId ` set (users s)"

lemma member_put: "ok s \<Longrightarrow> member (put s u) uid \<longleftrightarrow> uid = ru_userId u \<or> member s uid"
  by (auto simp: member_def users_put)

lemma member_del: "ok s \<Longrightarrow> member (del s uid) uid' \<longleftrightarrow> uid' \<noteq> uid \<and> member s uid'"
  by (auto simp: member_def users_del)

lemma unique_entry:
  "ok s \<Longrightarrow> u \<in> set (users s) \<Longrightarrow> v \<in> set (users s) \<Longrightarrow> ru_userId u = ru_userId v \<Longrightarrow> u = v"
  using one_each by (metis distinct_map inj_onD)

lemma put_twice:
  "ok s \<Longrightarrow> ru_userId u = ru_userId v \<Longrightarrow> set (users (put (put s u) v)) = set (users (put s v))"
  by (auto simp: users_put ok_put)

end

text \<open>Every value of the hash is filed under its own user id.\<close>

definition register_ok :: "(string, room_user) amap \<Rightarrow> bool" where
  "register_ok m \<longleftrightarrow> distinct (akeys m) \<and> (\<forall>(k, u) \<in> set m. ru_userId u = k)"

lemma register_ok_keys: "register_ok m \<Longrightarrow> map ru_userId (avals m) = akeys m"
  by (auto simp: register_ok_def)

lemma register_put: "register_ok m \<Longrightarrow> register_ok (aput (ru_userId u) u m)"
  unfolding register_ok_def by (simp add: aput_set distinct_update)

lemma register_del: "register_ok m \<Longrightarrow> register_ok (adel uid m)"
  unfolding register_ok_def by (simp add: adel_set distinct_delete)

lemma register_fst: "register_ok m \<Longrightarrow> p \<in> set m \<Longrightarrow> fst p = ru_userId (snd p)"
  by (auto simp: register_ok_def)

lemma register_put_vals:
  assumes "register_ok m"
  shows "set (avals (aput (ru_userId u) u m)) = insert u {v \<in> set (avals m). ru_userId v \<noteq> ru_userId u}"
proof -
  have "set (aput (ru_userId u) u m) = insert (ru_userId u, u) {p \<in> set m. fst p \<noteq> ru_userId u}"
    using assms by (intro aput_set) (simp add: register_ok_def)
  then show ?thesis using register_fst [OF assms] by (auto simp: image_iff)
qed

lemma register_del_vals:
  assumes "register_ok m"
  shows "set (avals (adel uid m)) = {v \<in> set (avals m). ru_userId v \<noteq> uid}"
  using register_fst [OF assms] by (auto simp: adel_set image_iff)

lemma register_one_each: "register_ok m \<Longrightarrow> distinct (map ru_userId (avals m))"
  by (simp only: register_ok_keys) (simp add: register_ok_def)

lemmas register_laws =
  register_put register_del register_put_vals register_del_vals register_one_each

interpretation presence: user_register add_presence remove_presence list_presence "\<lambda>r. register_ok (rs_presence r)"
proof unfold_locales
  fix r :: room_state and u :: room_user and uid :: string
  assume ok: "register_ok (rs_presence r)"
  note laws = register_laws [OF ok]
  show "register_ok (rs_presence (add_presence r u))" using laws(1) [of u] by (simp add: add_presence_def)
  show "register_ok (rs_presence (remove_presence r uid))" using laws(2) [of uid] by (simp add: remove_presence_def)
  show "set (list_presence (add_presence r u)) = insert u {v \<in> set (list_presence r). ru_userId v \<noteq> ru_userId u}"
    using laws(3) [of u] by (simp add: add_presence_def list_presence_def)
  show "set (list_presence (remove_presence r uid)) = {v \<in> set (list_presence r). ru_userId v \<noteq> uid}"
    using laws(4) [of uid] by (simp add: remove_presence_def list_presence_def)
  show "distinct (map ru_userId (list_presence r))" using laws(5) by (simp add: list_presence_def)
qed

interpretation hands: user_register raise_hand lower_hand list_hands "\<lambda>r. register_ok (rs_hands r)"
proof unfold_locales
  fix r :: room_state and u :: room_user and uid :: string
  assume ok: "register_ok (rs_hands r)"
  note laws = register_laws [OF ok]
  show "register_ok (rs_hands (raise_hand r u))" using laws(1) [of u] by (simp add: raise_hand_def)
  show "register_ok (rs_hands (lower_hand r uid))" using laws(2) [of uid] by (simp add: lower_hand_def)
  show "set (list_hands (raise_hand r u)) = insert u {v \<in> set (list_hands r). ru_userId v \<noteq> ru_userId u}"
    using laws(3) [of u] by (simp add: raise_hand_def list_hands_def)
  show "set (list_hands (lower_hand r uid)) = {v \<in> set (list_hands r). ru_userId v \<noteq> uid}"
    using laws(4) [of uid] by (simp add: lower_hand_def list_hands_def)
  show "distinct (map ru_userId (list_hands r))" using laws(5) by (simp add: list_hands_def)
qed

end
