(* ===== verification/Points.thy ===== *)
theory Points
  imports Identity "HOL-Library.Multiset"
begin

text \<open>
  \<open>src/points/points.service.ts\<close>: the append-only points ledger and its Redis
  projection, a sorted set per course that is served while a \<open>built\<close> marker stands. Whether
  Redis answers is an input of each call. \<open>ZREVRANGE 0 -1 WITHSCORES\<close> is a parameter
  \<open>zrev\<close>, of which the code uses that it lists the members by descending score
  (\<open>zrevrange_spec\<close>).
\<close>

section \<open>Ledger\<close>

definition points_quiz_correct :: int where
  "points_quiz_correct = 10"

definition points_buzzer_win :: int where
  "points_buzzer_win = 25"

datatype points_reason = QUIZ_CORRECT | BUZZER_WIN | PARTICIPATION | ASSIGNMENT_GRADED

record ledger_entry =
  le_studentId :: string
  le_courseId :: string
  le_delta :: int
  le_reason :: points_reason
  le_refId :: "string option"

record points_state =
  ps_ledger :: "ledger_entry list"
  ps_zset :: "string \<Rightarrow> (string, int) amap"
  ps_built :: "string \<Rightarrow> bool"

definition course_entries :: "ledger_entry list \<Rightarrow> string \<Rightarrow> ledger_entry list" where
  "course_entries l c = filter (\<lambda>e. le_courseId e = c) l"

definition student_sum :: "ledger_entry list \<Rightarrow> string \<Rightarrow> string \<Rightarrow> int" where
  "student_sum l c sid = sum_list (map le_delta (filter (\<lambda>e. le_studentId e = sid) (course_entries l c)))"

definition my_points :: "points_state \<Rightarrow> string \<Rightarrow> string \<Rightarrow> int" where
  "my_points s sid c = student_sum (ps_ledger s) c sid"

section \<open>Projection\<close>

definition zincrby :: "string \<Rightarrow> int \<Rightarrow> (string, int) amap \<Rightarrow> (string, int) amap" where
  "zincrby sid d z = aput sid ((case map_of z sid of None \<Rightarrow> 0 | Some p \<Rightarrow> p) + d) z"

definition bump_projection :: "bool \<Rightarrow> points_state \<Rightarrow> string \<Rightarrow> string \<Rightarrow> int \<Rightarrow> points_state" where
  "bump_projection up s c sid d =
     (if up \<and> ps_built s c then s\<lparr>ps_zset := (ps_zset s)(c := zincrby sid d (ps_zset s c))\<rparr> else s)"

definition award :: "bool \<Rightarrow> points_state \<Rightarrow> ledger_entry \<Rightarrow> points_state" where
  "award up s e =
     bump_projection up (s\<lparr>ps_ledger := ps_ledger s @ [e]\<rparr>)
       (le_courseId e) (le_studentId e) (le_delta e)"

type_synonym zrevrange = "(string \<times> int) list \<Rightarrow> (string \<times> int) list"

definition read_projection ::
  "bool \<Rightarrow> zrevrange \<Rightarrow> points_state \<Rightarrow> string \<Rightarrow> (string \<times> int) list option"
where
  "read_projection up zrev s c = (if up \<and> ps_built s c then Some (zrev (ps_zset s c)) else None)"

text \<open>\<open>groupBy studentId\<close>; MySQL leaves the order of the groups open, and nothing below
  depends on the one taken here (first appearance).\<close>

definition group_sums :: "ledger_entry list \<Rightarrow> string \<Rightarrow> (string \<times> int) list" where
  "group_sums l c =
     map (\<lambda>sid. (sid, student_sum l c sid)) (rev (remdups (rev (map le_studentId (course_entries l c)))))"

definition rebuild_rows :: "points_state \<Rightarrow> string \<Rightarrow> (string \<times> int) list" where
  "rebuild_rows s c = sort_key (\<lambda>r. - snd r) (group_sums (ps_ledger s) c)"

text \<open>The \<open>MULTI\<close>: delete, add the rows, set the marker.\<close>

definition rebuild_write :: "bool \<Rightarrow> points_state \<Rightarrow> string \<Rightarrow> (string \<times> int) list \<Rightarrow> points_state" where
  "rebuild_write up s c rows =
     (if up then s\<lparr>ps_zset := (ps_zset s)(c := rows), ps_built := (ps_built s)(c := True)\<rparr> else s)"

definition rebuild_projection :: "bool \<Rightarrow> points_state \<Rightarrow> string \<Rightarrow> points_state \<times> (string \<times> int) list" where
  "rebuild_projection up s c = (let rows = rebuild_rows s c in (rebuild_write up s c rows, rows))"

record leaderboard_row =
  lr_userId :: string
  lr_name :: string
  lr_points :: int
  lr_rank :: nat

definition to_rows :: "(string \<rightharpoonup> string) \<Rightarrow> (string \<times> int) list \<Rightarrow> leaderboard_row list" where
  "to_rows nameById scores =
     map (\<lambda>(i, sc). \<lparr>lr_userId = fst sc,
         lr_name = (case nameById (fst sc) of None \<Rightarrow> ''Unknown'' | Some n \<Rightarrow> n),
         lr_points = snd sc, lr_rank = i + 1\<rparr>)
       (enumerate 0 scores)"

definition leaderboard ::
  "bool \<Rightarrow> bool \<Rightarrow> zrevrange \<Rightarrow> (string \<rightharpoonup> string) \<Rightarrow> points_state \<Rightarrow> string
    \<Rightarrow> points_state \<times> leaderboard_row list"
where
  "leaderboard rd wr zrev nameById s c =
     (case read_projection rd zrev s c of
        Some scores \<Rightarrow> (s, to_rows nameById scores)
      | None \<Rightarrow> (case rebuild_projection wr s c of (s', rows) \<Rightarrow> (s', to_rows nameById rows)))"

text \<open>The keys' one-hour life ends: an event of Redis, not of the service.\<close>

definition expire_projection :: "points_state \<Rightarrow> string \<Rightarrow> points_state" where
  "expire_projection s c = s\<lparr>ps_zset := (ps_zset s)(c := []), ps_built := (ps_built s)(c := False)\<rparr>"

definition zrevrange_spec :: "zrevrange \<Rightarrow> bool" where
  "zrevrange_spec zrev \<longleftrightarrow>
     (\<forall>z. mset (zrev z) = mset z \<and> sorted_wrt (\<ge>) (map snd (zrev z)))"

section \<open>Ledger sums\<close>

definition ledger_map :: "ledger_entry list \<Rightarrow> string \<Rightarrow> string \<rightharpoonup> int" where
  "ledger_map l c sid =
     (if sid \<in> le_studentId ` set (course_entries l c) then Some (student_sum l c sid) else None)"

lemma map_of_group: "map_of (map (\<lambda>k. (k, f k)) ks) x = (if x \<in> set ks then Some (f x) else None)"
  by (induction ks) auto

lemma group_sums_map: "map_of (group_sums l c) = ledger_map l c"
  by (rule ext) (simp add: group_sums_def map_of_group ledger_map_def)

lemma group_sums_distinct: "distinct (map fst (group_sums l c))"
  by (simp add: group_sums_def comp_def)

lemma ledger_map_snoc:
  "ledger_map (l @ [e]) c =
     (if le_courseId e = c
      then (ledger_map l c)(le_studentId e \<mapsto>
          (case ledger_map l c (le_studentId e) of None \<Rightarrow> 0 | Some p \<Rightarrow> p) + le_delta e)
      else ledger_map l c)"
proof -
  have "student_sum l c sid = 0" if "sid \<notin> le_studentId ` set (course_entries l c)" for sid
  proof -
    have "filter (\<lambda>e. le_studentId e = sid) (course_entries l c) = []"
      using that by (auto simp: filter_empty_conv)
    then show ?thesis by (simp add: student_sum_def)
  qed
  then show ?thesis
    by (auto simp: ledger_map_def fun_eq_iff student_sum_def course_entries_def)
qed

lemma rebuild_rows_map: "map_of (rebuild_rows s c) = ledger_map (ps_ledger s) c"
proof -
  have "map_of (rebuild_rows s c) = map_of (group_sums (ps_ledger s) c)"
    unfolding rebuild_rows_def
    by (rule map_of_inject_set [THEN iffD2])
      (auto simp: group_sums_distinct distinct_map group_sums_def comp_def inj_on_def)
  then show ?thesis by (simp add: group_sums_map)
qed

lemma rebuild_rows_distinct: "distinct (map fst (rebuild_rows s c))"
proof -
  have "mset (map fst (rebuild_rows s c)) = mset (map fst (group_sums (ps_ledger s) c))"
    by (simp add: rebuild_rows_def)
  then show ?thesis using group_sums_distinct mset_eq_imp_distinct_iff by blast
qed

section \<open>The projection invariant\<close>

text \<open>A trusted projection holds exactly the ledger's sums, as long as Redis took every increment
  since it was built.\<close>

definition projection_fits :: "points_state \<Rightarrow> string \<Rightarrow> bool" where
  "projection_fits s c \<longleftrightarrow>
     (ps_built s c \<longrightarrow> distinct (map fst (ps_zset s c)) \<and> map_of (ps_zset s c) = ledger_map (ps_ledger s) c)"

lemma award_fits:
  "projection_fits s c \<Longrightarrow> up \<or> \<not> ps_built s c \<or> le_courseId e \<noteq> c \<Longrightarrow> projection_fits (award up s e) c"
  by (auto simp: projection_fits_def award_def bump_projection_def zincrby_def ledger_map_snoc
      amap update_conv' split: option.splits)

lemma rebuild_write_fits:
  "projection_fits s c \<or> (up \<and> k = c) \<Longrightarrow> projection_fits (rebuild_write up s k (rebuild_rows s k)) c"
  by (auto simp: projection_fits_def rebuild_write_def rebuild_rows_map rebuild_rows_distinct)

lemma leaderboard_fits:
  "projection_fits s c \<or> (wr \<and> k = c \<and> \<not> (rd \<and> ps_built s c)) \<Longrightarrow> projection_fits (fst (leaderboard rd wr zrev nm s k)) c"
  by (auto simp: leaderboard_def read_projection_def rebuild_projection_def Let_def rebuild_write_fits split: option.splits)

lemma expire_fits: "projection_fits s c \<or> k = c \<Longrightarrow> projection_fits (expire_projection s k) c"
  by (auto simp: projection_fits_def expire_projection_def)

text \<open>Awards with or without Redis, leaderboards with its read and its rebuild failing as they like, and
  expiries.\<close>

datatype points_op = Award bool ledger_entry | Leaderboard string bool bool | Expire string

fun points_step :: "zrevrange \<Rightarrow> (string \<rightharpoonup> string) \<Rightarrow> points_state \<Rightarrow> points_op \<Rightarrow> points_state" where
  "points_step zrev nm s (Award up e) = award up s e"
| "points_step zrev nm s (Leaderboard c rd wr) = fst (leaderboard rd wr zrev nm s c)"
| "points_step zrev nm s (Expire c) = expire_projection s c"

text \<open>Which projections have missed an increment: an award of the course fails on Redis while the projection
  is trusted, and neither an expiry nor a rebuild has come since.\<close>

fun missed :: "points_state \<Rightarrow> (string \<Rightarrow> bool) \<Rightarrow> points_op \<Rightarrow> string \<Rightarrow> bool" where
  "missed s b (Award up e) c = (b c \<or> (\<not> up \<and> ps_built s c \<and> le_courseId e = c))"
| "missed s b (Leaderboard k rd wr) c = (b c \<and> \<not> (wr \<and> k = c \<and> \<not> (rd \<and> ps_built s c)))"
| "missed s b (Expire k) c = (b c \<and> k \<noteq> c)"

definition watched_step ::
  "zrevrange \<Rightarrow> (string \<rightharpoonup> string) \<Rightarrow> points_state \<times> (string \<Rightarrow> bool) \<Rightarrow> points_op \<Rightarrow> points_state \<times> (string \<Rightarrow> bool)"
where
  "watched_step zrev nm x op = (points_step zrev nm (fst x) op, missed (fst x) (snd x) op)"

definition watched_ok :: "points_state \<times> (string \<Rightarrow> bool) \<Rightarrow> bool" where
  "watched_ok x \<longleftrightarrow> (\<forall>c. \<not> snd x c \<longrightarrow> projection_fits (fst x) c)"

interpretation points_run: invariant_system "watched_step zrev nm" watched_ok for zrev nm
proof unfold_locales
  fix x op
  assume ok: "watched_ok x"
  show "watched_ok (watched_step zrev nm x op)"
    unfolding watched_ok_def watched_step_def fst_conv snd_conv
  proof (intro allI impI)
    fix c
    assume "\<not> missed (fst x) (snd x) op c"
    then show "projection_fits (points_step zrev nm (fst x) op) c"
      using ok by (cases op) (auto simp: watched_ok_def award_fits leaderboard_fits expire_fits)
  qed
qed

lemma watched_states: "fst (foldl (watched_step zrev nm) x ops) = foldl (points_step zrev nm) (fst x) ops"
  by (induction ops arbitrary: x) (simp_all add: watched_step_def)

definition points_start :: "points_state" where
  "points_start = \<lparr>ps_ledger = [], ps_zset = (\<lambda>_. []), ps_built = (\<lambda>_. False)\<rparr>"

definition stale :: "zrevrange \<Rightarrow> (string \<rightharpoonup> string) \<Rightarrow> points_op list \<Rightarrow> string \<Rightarrow> bool" where
  "stale zrev nm ops = snd (foldl (watched_step zrev nm) (points_start, \<lambda>_. False) ops)"

lemma points_start_fits: "projection_fits points_start c"
  by (simp add: projection_fits_def points_start_def)

lemma fits_unless_stale: "\<not> stale zrev nm ops c \<Longrightarrow> projection_fits (foldl (points_step zrev nm) points_start ops) c"
  using points_run.inv_run [of "(points_start, \<lambda>_. False)" zrev nm ops]
  by (simp add: watched_ok_def watched_states stale_def points_start_fits)

section \<open>What the leaderboard shows\<close>

definition row_scores :: "leaderboard_row list \<Rightarrow> (string \<times> int) list" where
  "row_scores rows = map (\<lambda>r. (lr_userId r, lr_points r)) rows"

lemma to_rows_scores: "row_scores (to_rows nm scores) = scores"
  by (simp add: row_scores_def to_rows_def comp_def case_prod_beta)

lemma to_rows_ranks: "map lr_rank (to_rows nm scores) = [1 ..< Suc (length scores)]"
  by (rule nth_equalityI)
    (simp_all add: to_rows_def nth_enumerate_eq case_prod_beta del: upt_Suc)

lemma mset_of_map_of:
  assumes "distinct (map fst xs)" and "distinct (map fst ys)" and "map_of xs = map_of ys"
  shows "mset xs = mset ys"
proof -
  have "set xs = set ys" using assms by (simp add: map_of_inject_set)
  then show ?thesis
    using assms(1,2) by (simp add: set_eq_iff_mset_eq_distinct [symmetric] distinct_map)
qed

lemma projection_scores:
  assumes "projection_fits s c" and "ps_built s c"
  shows "mset (ps_zset s c) = mset (group_sums (ps_ledger s) c)"
  using assms
  by (intro mset_of_map_of) (auto simp: projection_fits_def group_sums_map group_sums_distinct)

lemma leaderboard_scores:
  assumes "projection_fits s c \<or> \<not> (rd \<and> ps_built s c)" and "zrevrange_spec zrev"
  shows "mset (row_scores (snd (leaderboard rd wr zrev nm s c))) = mset (group_sums (ps_ledger s) c)"
  using assms projection_scores [of s c]
  by (auto simp: leaderboard_def read_projection_def rebuild_projection_def Let_def to_rows_scores
      zrevrange_spec_def rebuild_rows_def split: option.splits if_splits)

lemma leaderboard_sorted:
  assumes "zrevrange_spec zrev"
  shows "sorted_wrt (\<ge>) (map lr_points (snd (leaderboard rd wr zrev nm s c)))"
proof -
  have points: "map lr_points (to_rows nm scores) = map snd scores" for scores
    using arg_cong [OF to_rows_scores [of nm scores], of "map snd"] by (simp add: row_scores_def comp_def)
  have "sorted (map (\<lambda>r. - snd r) (rebuild_rows s c))" by (simp add: rebuild_rows_def)
  then have "sorted_wrt (\<ge>) (map snd (rebuild_rows s c))" by (simp add: sorted_wrt_map)
  then show ?thesis using assms
    by (auto simp: leaderboard_def read_projection_def rebuild_projection_def Let_def points
        zrevrange_spec_def split: option.splits if_splits)
qed

section \<open>Properties\<close>

lemma sum_by_student:
  "(\<Sum>sid \<leftarrow> ks. sum_list (map le_delta (filter (\<lambda>e. le_studentId e = sid) es)))
     = sum_list (map le_delta es)"
  if "distinct ks" "le_studentId ` set es \<subseteq> set ks"
  using that
proof (induction es)
  case Nil
  then show ?case by simp
next
  case (Cons e es)
  have "(\<Sum>sid \<leftarrow> ks. (if le_studentId e = sid then le_delta e else 0)) = le_delta e"
    using Cons.prems by (simp add: sum_list_distinct_conv_sum_set)
  moreover have "(\<Sum>sid \<leftarrow> ks. sum_list (map le_delta (filter (\<lambda>e. le_studentId e = sid) (e # es))))
      = (\<Sum>sid \<leftarrow> ks. (if le_studentId e = sid then le_delta e else 0)
           + sum_list (map le_delta (filter (\<lambda>e. le_studentId e = sid) es)))"
    by (rule arg_cong [of _ _ sum_list]) simp
  ultimately show ?case using Cons by (simp add: sum_list_addf)
qed

lemma group_sums_total:
  "sum_list (map snd (group_sums l c)) = sum_list (map le_delta (course_entries l c))"
  using sum_by_student [of "rev (remdups (rev (map le_studentId (course_entries l c))))" "course_entries l c"]
  by (simp add: group_sums_def comp_def student_sum_def)

text \<open>C29: After any sequence of awards, leaderboard reads and key expiries, with Redis failing as it
  likes, the leaderboard lists every student with an entry in the course exactly once with the
  ledger's sum, in descending order, unless it is served from a projection that missed the increment
  of an award since it was built: whenever the read fails, or the projection is not there, or no
  increment was missed. It is ranked 1, 2, 3, ... always.\<close>

theorem leaderboard_matches_ledger:
  assumes "zrevrange_spec zrev"
  shows "let s = foldl (points_step zrev nm) points_start ops;
           rows = snd (leaderboard rd wr zrev nm s c)
    in (\<not> (stale zrev nm ops c \<and> rd \<and> ps_built s c) \<longrightarrow>
          mset (row_scores rows) = mset (group_sums (ps_ledger s) c)) \<and>
       sorted_wrt (\<ge>) (map lr_points rows) \<and>
       map lr_rank rows = [1 ..< Suc (length rows)]"
proof -
  let ?s = "foldl (points_step zrev nm) points_start ops"
  have "\<exists>scores. snd (leaderboard rd wr zrev nm ?s c) = to_rows nm scores"
    by (auto simp: leaderboard_def split: option.splits prod.splits)
  then have "map lr_rank (snd (leaderboard rd wr zrev nm ?s c))
      = [1 ..< Suc (length (snd (leaderboard rd wr zrev nm ?s c)))]"
    by (auto simp: to_rows_ranks simp del: upt_Suc) (simp add: to_rows_def)
  moreover have "mset (row_scores (snd (leaderboard rd wr zrev nm ?s c))) = mset (group_sums (ps_ledger ?s) c)"
    if "\<not> (stale zrev nm ops c \<and> rd \<and> ps_built ?s c)"
    using that fits_unless_stale [of zrev nm ops c] by (intro leaderboard_scores [OF _ assms]) blast
  ultimately show ?thesis using leaderboard_sorted [OF assms] by (simp add: Let_def del: upt_Suc)
qed

definition zrev_by_score :: zrevrange where
  "zrev_by_score z = sort_key (\<lambda>r. - snd r) z"

lemma zrev_by_score_spec: "zrevrange_spec zrev_by_score"
proof -
  have "sorted (map (\<lambda>r. - snd r) (zrev_by_score z))" for z
    by (simp add: zrev_by_score_def)
  then show ?thesis by (simp add: zrevrange_spec_def sorted_wrt_map zrev_by_score_def)
qed

text \<open>Redis fails the second award while the leaderboard stands; the keys expire, it is rebuilt, and the last award is counted.\<close>

definition ten_points :: "string \<Rightarrow> ledger_entry" where
  "ten_points u = \<lparr>le_studentId = u, le_courseId = ''c'', le_delta = 10, le_reason = QUIZ_CORRECT, le_refId = None\<rparr>"

definition hiccup :: "points_op list" where
  "hiccup = [Award True (ten_points ''a''), Leaderboard ''c'' True True, Award False (ten_points ''a''), Expire ''c'',
     Award False (ten_points ''b''), Leaderboard ''c'' True True, Award True (ten_points ''b'')]"

theorem leaderboard_matches_ledger_witness:
  "let s = foldl (points_step zrev_by_score (\<lambda>_. None)) points_start hiccup;
       rows = snd (leaderboard True True zrev_by_score (\<lambda>_. None) s ''c'')
   in mset (row_scores rows) = {#(''a'', 20), (''b'', 20)#} \<and> map lr_rank rows = [1, 2]"
proof -
  let ?s = "foldl (points_step zrev_by_score (\<lambda>_. None)) points_start hiccup"
  let ?rows = "snd (leaderboard True True zrev_by_score (\<lambda>_. None) ?s ''c'')"
  have "\<not> stale zrev_by_score (\<lambda>_. None) hiccup ''c''" and "group_sums (ps_ledger ?s) ''c'' = [(''a'', 20), (''b'', 20)]"
    and l: "length ?rows = 2" by code_simp+
  moreover have "(\<not> (stale zrev_by_score (\<lambda>_. None) hiccup ''c'' \<and> True \<and> ps_built ?s ''c'') \<longrightarrow>
      mset (row_scores ?rows) = mset (group_sums (ps_ledger ?s) ''c'')) \<and> map lr_rank ?rows = [1 ..< Suc (length ?rows)]"
    using leaderboard_matches_ledger [OF zrev_by_score_spec, where nm = "\<lambda>_. None" and ops = hiccup and rd = True and wr = True and c = "''c''"]
    unfolding Let_def by blast
  ultimately show ?thesis by (simp add: Let_def upt_rec)
qed

text \<open>No points appear or vanish between ledger and leaderboard: over every such run, the
  points on a course's leaderboard add up to the sum of the course's ledger entries.\<close>

theorem leaderboard_conserves_points:
  assumes "zrevrange_spec zrev" and "\<not> stale zrev nm ops c"
  shows "let s = foldl (points_step zrev nm) points_start ops
    in sum_list (map lr_points (snd (leaderboard rd wr zrev nm s c)))
       = sum_list (map le_delta (course_entries (ps_ledger s) c))"
proof -
  let ?s = "foldl (points_step zrev nm) points_start ops"
  let ?rows = "snd (leaderboard rd wr zrev nm ?s c)"
  have "mset (row_scores ?rows) = mset (group_sums (ps_ledger ?s) c)"
    using fits_unless_stale [OF assms(2)] by (intro leaderboard_scores [OF _ assms(1)]) simp
  then have "mset (map snd (row_scores ?rows)) = mset (map snd (group_sums (ps_ledger ?s) c))"
    by (metis mset_map)
  then have "sum_list (map snd (row_scores ?rows)) = sum_list (map snd (group_sums (ps_ledger ?s) c))"
    by (metis sum_mset_sum_list)
  then show ?thesis by (simp add: group_sums_total row_scores_def comp_def)
qed

text \<open>An award that Redis fails is missing from the projection while it stands.\<close>

lemma failed_increment_is_missing:
  "let s = foldl (points_step zrev_by_score (\<lambda>_. None)) points_start (take 3 hiccup) in
   row_scores (snd (leaderboard True True zrev_by_score (\<lambda>_. None) s ''c'')) = [(''a'', 10)] \<and> my_points s ''a'' ''c'' = 20"
  by code_simp

text \<open>The failure the invariant excludes is real: an award recorded while the leaderboard is
  being rebuilt (after its sums were read, before they are written back) is in the ledger but
  missing from the trusted projection, so the leaderboard keeps showing the student's old total.\<close>

theorem award_during_rebuild_is_lost:
  assumes "zrevrange_spec zrev" and "\<not> ps_built s c"
    and "le_courseId e = c" and "ledger_map (ps_ledger s) c (le_studentId e) = Some old"
  defines "s' \<equiv> rebuild_write True (award True s e) c (rebuild_rows s c)"
  shows "(le_studentId e, old) \<in> set (row_scores (snd (leaderboard True wr zrev nm s' c))) \<and>
    my_points s' (le_studentId e) c = old + le_delta e"
proof (intro conjI)
  have "ps_built s' c" and z: "ps_zset s' c = rebuild_rows s c"
    by (simp_all add: s'_def rebuild_write_def)
  then have "snd (leaderboard True wr zrev nm s' c) = to_rows nm (zrev (rebuild_rows s c))"
    by (simp add: leaderboard_def read_projection_def)
  moreover have "(le_studentId e, old) \<in> set (rebuild_rows s c)"
    using assms(4) by (intro map_of_SomeD) (simp add: rebuild_rows_map)
  ultimately show "(le_studentId e, old) \<in> set (row_scores (snd (leaderboard True wr zrev nm s' c)))"
    using assms(1) by (simp add: to_rows_scores zrevrange_spec_def) (metis mset_eq_setD)
  have "ps_ledger s' = ps_ledger s @ [e]"
    by (simp add: s'_def rebuild_write_def award_def bump_projection_def)
  moreover have "student_sum (ps_ledger s) c (le_studentId e) = old"
    using assms(4) by (simp add: ledger_map_def split: if_splits)
  ultimately show "my_points s' (le_studentId e) c = old + le_delta e"
    using assms(3) by (simp add: my_points_def student_sum_def course_entries_def)
qed

theorem award_during_rebuild_is_lost_witness:
  "\<exists>s' :: points_state. my_points s' ''a'' ''c'' = 20 \<and>
     (''a'', 10) \<in> set (row_scores (snd (leaderboard True True zrev_by_score (\<lambda>_. None) s' ''c'')))"
proof -
  let ?e = "\<lparr>le_studentId = ''a'', le_courseId = ''c'', le_delta = 10, le_reason = QUIZ_CORRECT,
    le_refId = None\<rparr>"
  let ?s = "award True points_start ?e"
  have h: "\<not> ps_built ?s ''c''" "le_courseId ?e = ''c''"
    "ledger_map (ps_ledger ?s) ''c'' (le_studentId ?e) = Some 10"
    by (simp_all add: award_def bump_projection_def points_start_def ledger_map_def student_sum_def
        course_entries_def)
  from award_during_rebuild_is_lost [OF zrev_by_score_spec h]
  show ?thesis
    by (intro exI [of _ "rebuild_write True (award True ?s ?e) ''c'' (rebuild_rows ?s ''c'')"]) simp
qed

end
