(* ===== verification/RoomGateway.thy ===== *)
theory RoomGateway
  imports RoomState Points
begin

text \<open>
  \<open>src/room-gateway/room.gateway.ts\<close>: the socket gateway of a live session. The state is
  the database, the points service, the Redis state of every session, the connected sockets with
  their per-socket data and rooms, the in-process buzzer timers, and the log of emitted events.
  Each message handler is a function on it, run to completion; the interleavings of the answer
  handler are in the theory \<open>BuzzerRace\<close>. What comes from outside in a step (the clock,
  randomness, ids, whether Redis and LiveKit answer) is a record of inputs.
\<close>

section \<open>Sockets, events, state\<close>

text \<open>\<open>authReady\<close> is \<open>None\<close> while the account check is pending; \<open>sk_packets\<close> is the
  packet limiter's count and window start.\<close>

record socket =
  sk_user :: "jwt_payload option"
  sk_sessionIds :: "string list"
  sk_rooms :: "string list"
  sk_authReady :: "bool option"
  sk_teaching :: bool
  sk_shadow :: bool
  sk_packets :: "nat \<times> int"

datatype error_text = Msg string | PartMsg part_error

record chat_message =
  ch_id :: string
  ch_sessionId :: string
  ch_user :: room_user
  ch_body :: string
  ch_audioUrl :: "string option"
  ch_sentAt :: int

datatype event =
    EvError string error_text
  | EvException
  | EvPresence string "room_user list"
  | EvChatLocked string bool
  | EvView string string
  | EvTheme string string
  | EvQuranPosition string quran_position
  | EvTajweedTemporary string "tajweed_temporary list"
  | EvTajweedPointing string "normalized_part list"
  | EvHands string "room_user list"
  | EvSpeakers string "string list"
  | EvChatHistory string "chat_message list"
  | EvChatMessage chat_message
  | EvPicked string room_user
  | EvBuzzerState string buzzer_state
  | EvQuizOpened string quiz_question_public
  | EvQuizClosed string string
  | EvAnswerResult string bool
  | EvLeaderboard string "leaderboard_row list"
  | EvScreenShareGranted string string
  | EvScreenShareRevoked string string

datatype target = ToClient string | ToRoom string

record gateway =
  g_db :: db
  g_points :: points_state
  g_room :: "string \<Rightarrow> room_state"
  g_socks :: "(string, socket) amap"
  g_timers :: "string \<rightharpoonup> string"
  g_out :: "(target \<times> event) list"

record env =
  e_now :: int
  e_rand :: rat
  e_newid :: string
  e_redis_bump :: bool
  e_redis_read :: bool
  e_redis_write :: bool
  e_livekit_ok :: bool
  e_zrev :: zrevrange
  e_text :: quran_text
  e_seg :: segmenter

definition staff_room :: "string \<Rightarrow> string" where
  "staff_room sid = sid @ ''::staff''"

definition sock :: "gateway \<Rightarrow> string \<Rightarrow> socket option" where
  "sock g cid = map_of (g_socks g) cid"

definition put_sock :: "string \<Rightarrow> socket \<Rightarrow> gateway \<Rightarrow> gateway" where
  "put_sock cid sk g = g\<lparr>g_socks := aput cid sk (g_socks g)\<rparr>"

definition emit :: "target \<Rightarrow> event \<Rightarrow> gateway \<Rightarrow> gateway" where
  "emit t ev g = g\<lparr>g_out := g_out g @ [(t, ev)]\<rparr>"

definition fail :: "string \<Rightarrow> string \<Rightarrow> string \<Rightarrow> gateway \<Rightarrow> gateway" where
  "fail cid code message g = emit (ToClient cid) (EvError code (Msg message)) g"

definition upd_room :: "string \<Rightarrow> (room_state \<Rightarrow> room_state) \<Rightarrow> gateway \<Rightarrow> gateway" where
  "upd_room sid f g = g\<lparr>g_room := (g_room g)(sid := f (g_room g sid))\<rparr>"

section \<open>Internals\<close>

definition acting_role :: "socket \<Rightarrow> jwt_payload \<Rightarrow> role" where
  "acting_role sk user = (if sk_teaching sk then INSTRUCTOR else jwt_role user)"

definition room_user_of :: "socket \<Rightarrow> jwt_payload \<Rightarrow> room_user" where
  "room_user_of sk user =
     \<lparr>ru_userId = jwt_sub user, ru_name = jwt_name user, ru_role = acting_role sk user\<rparr>"

text \<open>Fails with \<open>NOT_IN_ROOM\<close> itself; a socket is always in the room named by its own id.\<close>

definition in_room :: "socket \<Rightarrow> string \<Rightarrow> bool" where
  "in_room sk sid \<longleftrightarrow> sid \<in> set (sk_rooms sk)"

definition broadcast_presence :: "string \<Rightarrow> gateway \<Rightarrow> gateway" where
  "broadcast_presence sid g = emit (ToRoom sid) (EvPresence sid (list_presence (g_room g sid))) g"

definition broadcast_hands :: "target \<Rightarrow> string \<Rightarrow> gateway \<Rightarrow> gateway" where
  "broadcast_hands t sid g = emit t (EvHands sid (list_hands (g_room g sid))) g"

definition broadcast_speakers :: "target \<Rightarrow> string \<Rightarrow> gateway \<Rightarrow> gateway" where
  "broadcast_speakers t sid g = emit t (EvSpeakers sid (list_speakers (g_room g sid))) g"

definition send_tajweed_temporary :: "int \<Rightarrow> target \<Rightarrow> string \<Rightarrow> gateway \<Rightarrow> gateway" where
  "send_tajweed_temporary now t sid g =
     (let (r, anns) = list_tajweed_temporary now (g_room g sid)
      in emit t (EvTajweedTemporary sid anns) (upd_room sid (\<lambda>_. r) g))"

definition send_tajweed_pointing :: "target \<Rightarrow> string \<Rightarrow> gateway \<Rightarrow> gateway" where
  "send_tajweed_pointing t sid g =
     emit t (EvTajweedPointing sid (get_tajweed_pointing (g_room g sid))) g"

definition clear_timer :: "string \<Rightarrow> gateway \<Rightarrow> gateway" where
  "clear_timer sid g = g\<lparr>g_timers := (g_timers g)(sid := None)\<rparr>"

text \<open>\<open>fetchSockets\<close> lists the sockets in the room, shadowing ones and recorders included.\<close>

definition user_still_in_room :: "gateway \<Rightarrow> string \<Rightarrow> string \<Rightarrow> string \<Rightarrow> bool" where
  "user_still_in_room g sid uid except =
     list_ex (\<lambda>(c, s). sid \<in> set (sk_rooms s) \<and> c \<noteq> except \<and> map_option jwt_sub (sk_user s) = Some uid)
       (g_socks g)"

definition mic_needs_hand :: "db \<Rightarrow> string \<Rightarrow> bool" where
  "mic_needs_hand d sid =
     (case session_course d sid of
        None \<Rightarrow> False
      | Some (_, c) \<Rightarrow>
          (case Option.bind (co_organizationId c) (find_org d) of
             None \<Rightarrow> False | Some o' \<Rightarrow> org_micRequiresRaisedHand o'))"

definition is_pack_enabled :: "db \<Rightarrow> course_row \<Rightarrow> string \<Rightarrow> bool" where
  "is_pack_enabled d c key =
     is_enabled_for_course (db_orgPlugins d) (co_organizationId c) (co_pluginKeys c) key"

definition owned_session ::
  "db \<Rightarrow> socket \<Rightarrow> jwt_payload \<Rightarrow> string \<Rightarrow> string + (session_row \<times> course_row)"
where
  "owned_session d sk user sid =
     (let isInstructor = jwt_role user = INSTRUCTOR;
          isTeachingAdmin = (jwt_role user = ORG_ADMIN \<and> sk_teaching sk)
      in if \<not> isInstructor \<and> \<not> isTeachingAdmin then Inl ''Instructor only''
         else (case session_course d sid of
                 None \<Rightarrow> Inl ''Not your session''
               | Some (s, c) \<Rightarrow>
                   if (if isInstructor then co_instructorId c = Some (jwt_sub user)
                       else co_organizationId c = jwt_organizationId user)
                   then Inr (s, c) else Inl ''Not your session''))"

text \<open>The frame of every handler: the socket and its user; then, for the host's handlers,
  \<open>const session = await this.ownedSession(client, sid); if (!session) return\<close>.\<close>

definition with_user ::
  "string \<Rightarrow> gateway \<Rightarrow> (socket \<Rightarrow> jwt_payload \<Rightarrow> gateway) \<Rightarrow> gateway"
where
  "with_user cid g k =
     (case sock g cid of None \<Rightarrow> g
      | Some sk \<Rightarrow> (case sk_user sk of None \<Rightarrow> g | Some user \<Rightarrow> k sk user))"

definition as_owner ::
  "string \<Rightarrow> string \<Rightarrow> gateway \<Rightarrow> (socket \<Rightarrow> jwt_payload \<Rightarrow> session_row \<Rightarrow> course_row \<Rightarrow> gateway) \<Rightarrow> gateway"
where
  "as_owner cid sid g k =
     with_user cid g (\<lambda>sk user.
       case owned_session (g_db g) sk user sid of
         Inl msg \<Rightarrow> fail cid ''FORBIDDEN'' msg g
       | Inr (s, c) \<Rightarrow> k sk user s c)"

section \<open>Connection lifecycle\<close>

text \<open>
  \<open>authenticate\<close> up to its first await: a bad or preview token disconnects; otherwise the
  identity is attached, the packet filters are installed and the account check is pending.
\<close>

definition on_connect ::
  "int \<Rightarrow> (string \<Rightarrow> jwt_payload option) \<Rightarrow> gateway \<Rightarrow> string \<Rightarrow> string option \<Rightarrow> gateway"
where
  "on_connect now verify g cid token =
     (if sock g cid \<noteq> None then g
      else case verify (case token of None \<Rightarrow> [] | Some t \<Rightarrow> t) of
        None \<Rightarrow> emit (ToClient cid) (EvError ''UNAUTHORIZED'' (Msg ''Invalid token'')) g
      | Some user \<Rightarrow>
          if jwt_preview user \<noteq> None
          then emit (ToClient cid) (EvError ''UNAUTHORIZED''
                 (Msg ''Preview token cannot join classroom sockets'')) g
          else put_sock cid \<lparr>sk_user = Some user, sk_sessionIds = [], sk_rooms = [cid],
                 sk_authReady = None, sk_teaching = False, sk_shadow = False, sk_packets = (0, now)\<rparr> g)"

text \<open>The account check's outcome: the socket is admitted or told off and disconnected.\<close>

definition on_account :: "(string \<Rightarrow> account_state option) \<Rightarrow> gateway \<Rightarrow> string \<Rightarrow> gateway" where
  "on_account account g cid =
     with_user cid g (\<lambda>sk user.
       if sk_authReady sk \<noteq> None then g
       else (case account (jwt_sub user) of
               Some a \<Rightarrow>
                 if acc_status a = DISABLED \<or> \<not> acc_emailVerified a
                 then fail cid ''FORBIDDEN'' ''Account not permitted'' (g\<lparr>g_socks := adel cid (g_socks g)\<rparr>)
                 else put_sock cid (sk\<lparr>sk_authReady := Some True\<rparr>) g
             | None \<Rightarrow>
                 fail cid ''FORBIDDEN'' ''Account not permitted'' (g\<lparr>g_socks := adel cid (g_socks g)\<rparr>)))"

text \<open>The packet limiter: count and start of the current window; \<open>True\<close> lets the packet by.\<close>

definition packet_limit :: "int \<Rightarrow> nat \<times> int \<Rightarrow> (nat \<times> int) \<times> bool" where
  "packet_limit now st =
     (let (count, reset) = (if now - snd st > 1000 then (0, now) else st);
          count = Suc count
      in ((count, reset), \<not> count > 60))"

definition remove_departed :: "string \<Rightarrow> string \<Rightarrow> gateway \<Rightarrow> gateway" where
  "remove_departed uid sid g =
     broadcast_hands (ToRoom sid) sid (broadcast_presence sid
       (upd_room sid (\<lambda>r. lower_hand (remove_presence r uid) uid) g))"

definition depart :: "string \<Rightarrow> bool \<Rightarrow> string \<Rightarrow> gateway \<Rightarrow> string \<Rightarrow> gateway" where
  "depart cid shadow uid h sid =
     (if shadow then h
      else if user_still_in_room h sid uid cid then h
      else remove_departed uid sid h)"

text \<open>socket.io has already taken the socket out of its rooms.\<close>

definition on_disconnect :: "gateway \<Rightarrow> string \<Rightarrow> gateway" where
  "on_disconnect g cid =
     (case sock g cid of None \<Rightarrow> g
      | Some sk \<Rightarrow>
          let g' = g\<lparr>g_socks := adel cid (g_socks g)\<rparr> in
          (case sk_user sk of None \<Rightarrow> g'
           | Some user \<Rightarrow> foldl (depart cid (sk_shadow sk) (jwt_sub user)) g' (sk_sessionIds sk)))"

section \<open>Room membership\<close>

definition last_recitation_anchor :: "db \<Rightarrow> string \<Rightarrow> quran_position option" where
  "last_recitation_anchor d courseId =
     (case sort_key (\<lambda>h. - hf_recordedAt h) (filter (\<lambda>h. hf_courseId h = courseId) (db_hifz d)) of
        [] \<Rightarrow> None
      | h # _ \<Rightarrow> Some \<lparr>qp_surah = hf_surahNumber h, qp_ayah = hf_ayahEnd h\<rparr>)"

definition chat_history :: "db \<Rightarrow> string \<Rightarrow> chat_message list" where
  "chat_history d sid =
     map (\<lambda>m. \<lparr>ch_id = cm_id m, ch_sessionId = sid,
            ch_user = (case find_user d (cm_userId m) of
               Some u \<Rightarrow> \<lparr>ru_userId = us_id u, ru_name = us_name u, ru_role = us_role u\<rparr>
             | None \<Rightarrow> \<lparr>ru_userId = cm_userId m, ru_name = [], ru_role = STUDENT\<rparr>),
            ch_body = cm_body m, ch_audioUrl = cm_audioUrl m, ch_sentAt = cm_createdAt m\<rparr>)
       (rev (take 50 (sort_key (\<lambda>m. - cm_createdAt m)
          (filter (\<lambda>m. cm_sessionId m = sid) (db_chat d)))))"

text \<open>Who may enter: the recorder by its claim, the instructor by ownership, the admin by
  organization, a student by enrolment.\<close>

definition join_refusal :: "db \<Rightarrow> jwt_payload \<Rightarrow> string \<Rightarrow> course_row \<Rightarrow> string option" where
  "join_refusal d user sid c =
     (let isRecorder = (map_option rc_sessionId (jwt_recorder user) = Some sid) in
      if jwt_recorder user \<noteq> None \<and> \<not> isRecorder then Some ''Not the session this token films''
      else if isRecorder then None
      else if jwt_role user = INSTRUCTOR
      then (if co_instructorId c \<noteq> Some (jwt_sub user) then Some ''Not your session'' else None)
      else if jwt_role user = ORG_ADMIN
      then (if co_organizationId c \<noteq> jwt_organizationId user then Some ''Not your organization'' else None)
      else if \<not> enrolled d (co_id c) (jwt_sub user) then Some ''Not enrolled'' else None)"

text \<open>What a late joiner is sent.\<close>

definition send_room_state :: "env \<Rightarrow> string \<Rightarrow> string \<Rightarrow> course_row \<Rightarrow> gateway \<Rightarrow> gateway" where
  "send_room_state e cid sid c g0 =
     (let to = ToClient cid;
          g1 = emit to (EvChatLocked sid (is_chat_locked (g_room g0 sid))) g0;
          g2 = emit to (EvView sid (get_view (g_room g1 sid))) g1;
          g3 = emit to (EvTheme sid (get_theme (g_room g2 sid))) g2;
          g4 =
            (if is_pack_enabled (g_db g3) c plugin_islamic_education
             then
               let g' = (if has_quran_pos (g_room g3 sid) then g3
                         else (case last_recitation_anchor (g_db g3) (co_id c) of
                                 None \<Rightarrow> g3
                               | Some a \<Rightarrow> upd_room sid (\<lambda>r. set_quran_pos r a) g3));
                   g'' = emit to (EvQuranPosition sid (get_quran_pos (g_room g' sid))) g'
               in send_tajweed_pointing to sid (send_tajweed_temporary (e_now e) to sid g'')
             else g3)
      in emit to (EvChatHistory sid (chat_history (g_db g4) sid))
           (broadcast_speakers to sid (broadcast_hands to sid g4)))"

definition enter_room :: "env \<Rightarrow> string \<Rightarrow> socket \<Rightarrow> jwt_payload \<Rightarrow> string \<Rightarrow> course_row \<Rightarrow> gateway \<Rightarrow> gateway" where
  "enter_room e cid sk user sid c g =
     (let rooms = sadd sid (sk_rooms sk);
          rooms = (if jwt_role user \<noteq> STUDENT then sadd (staff_room sid) rooms else rooms);
          sk' = sk\<lparr>sk_rooms := rooms, sk_sessionIds := sadd sid (sk_sessionIds sk)\<rparr>;
          g1 = put_sock cid sk' g;
          g2 = (if sk_shadow sk
                then emit (ToClient cid) (EvPresence sid (list_presence (g_room g1 sid))) g1
                else broadcast_presence sid
                       (upd_room sid (\<lambda>r. add_presence r (room_user_of sk' user)) g1))
      in send_room_state e cid sid c g2)"

definition on_join :: "env \<Rightarrow> gateway \<Rightarrow> string \<Rightarrow> string \<Rightarrow> bool \<Rightarrow> gateway" where
  "on_join e g cid sid as_teach =
     with_user cid g (\<lambda>sk user.
       if sk_authReady sk \<noteq> Some True then g
       else (case session_course (g_db g) sid of
               None \<Rightarrow> fail cid ''NOT_JOINABLE'' ''Session not found or ended'' g
             | Some (s, c) \<Rightarrow>
                 if ls_status s = ENDED then fail cid ''NOT_JOINABLE'' ''Session not found or ended'' g
                 else
                   let isAdmin = (jwt_role user = ORG_ADMIN);
                       teaching = (isAdmin \<and> as_teach);
                       isRecorder = (map_option rc_sessionId (jwt_recorder user) = Some sid);
                       shadow = ((isAdmin \<and> \<not> teaching) \<or> isRecorder);
                       sk' = sk\<lparr>sk_teaching := teaching, sk_shadow := shadow\<rparr>;
                       g' = put_sock cid sk' g
                   in (case join_refusal (g_db g) user sid c of
                         Some msg \<Rightarrow> fail cid ''FORBIDDEN'' msg g'
                       | None \<Rightarrow> enter_room e cid sk' user sid c g')))"

text \<open>Only the session's room is left: the staff room of the session is not.\<close>

definition on_leave :: "gateway \<Rightarrow> string \<Rightarrow> string \<Rightarrow> gateway" where
  "on_leave g cid sid =
     with_user cid g (\<lambda>sk user.
       let sk' = sk\<lparr>sk_rooms := removeAll sid (sk_rooms sk),
                    sk_sessionIds := removeAll sid (sk_sessionIds sk)\<rparr>;
           g' = put_sock cid sk' g
       in if \<not> sk_shadow sk \<and> \<not> user_still_in_room g' sid (jwt_sub user) cid
          then remove_departed (jwt_sub user) sid g' else g')"

section \<open>Chat\<close>

text \<open>\<open>chatMessage.create\<close> violates a foreign key when the session does not exist (the
  room may be the socket's own): the handler throws.\<close>

definition post_chat ::
  "env \<Rightarrow> string \<Rightarrow> string \<Rightarrow> socket \<Rightarrow> jwt_payload \<Rightarrow> string \<Rightarrow> string option \<Rightarrow> gateway \<Rightarrow> gateway"
where
  "post_chat e cid sid sk user body audio g =
     (if find_session (g_db g) sid = None then emit (ToClient cid) EvException g
      else
        let m = \<lparr>cm_id = e_newid e, cm_sessionId = sid, cm_userId = jwt_sub user, cm_body = body,
                 cm_audioUrl = audio, cm_createdAt = e_now e\<rparr>
        in emit (ToRoom sid)
             (EvChatMessage \<lparr>ch_id = cm_id m, ch_sessionId = sid, ch_user = room_user_of sk user,
                ch_body = body, ch_audioUrl = audio, ch_sentAt = cm_createdAt m\<rparr>)
             (g\<lparr>g_db := (g_db g)\<lparr>db_chat := db_chat (g_db g) @ [m]\<rparr>\<rparr>))"

definition chat_blocked :: "gateway \<Rightarrow> socket \<Rightarrow> jwt_payload \<Rightarrow> string \<Rightarrow> bool" where
  "chat_blocked g sk user sid \<longleftrightarrow>
     acting_role sk user \<noteq> INSTRUCTOR \<and> is_chat_locked (g_room g sid)"

definition on_chat :: "env \<Rightarrow> gateway \<Rightarrow> string \<Rightarrow> string \<Rightarrow> string \<Rightarrow> gateway" where
  "on_chat e g cid sid text =
     with_user cid g (\<lambda>sk user.
       if \<not> in_room sk sid then fail cid ''NOT_IN_ROOM'' ''Join the room first'' g
       else let body = trim text in
         if body = [] \<or> length body > 2000 then g
         else if chat_blocked g sk user sid then fail cid ''CHAT_LOCKED'' ''Chat is locked'' g
         else post_chat e cid sid sk user body None g)"

text \<open>\<open>/^\/api\/files\/voice\/[\w-]+$/\<close>\<close>

definition voice_prefix :: string where
  "voice_prefix = ''/api/files/voice/''"

definition voice_url_ok :: "string \<Rightarrow> bool" where
  "voice_url_ok u \<longleftrightarrow>
     take (length voice_prefix) u = voice_prefix \<and> drop (length voice_prefix) u \<noteq> [] \<and>
     list_all (\<lambda>c. alnum c \<or> c = CHR ''_'' \<or> c = CHR ''-'') (drop (length voice_prefix) u)"

definition on_chat_voice :: "env \<Rightarrow> gateway \<Rightarrow> string \<Rightarrow> string \<Rightarrow> string \<Rightarrow> gateway" where
  "on_chat_voice e g cid sid url =
     with_user cid g (\<lambda>sk user.
       if \<not> in_room sk sid then fail cid ''NOT_IN_ROOM'' ''Join the room first'' g
       else let audioUrl = trim url in
         if audioUrl = [] \<or> \<not> voice_url_ok audioUrl then g
         else if chat_blocked g sk user sid then fail cid ''CHAT_LOCKED'' ''Chat is locked'' g
         else post_chat e cid sid sk user [] (Some audioUrl) g)"

definition on_chat_lock :: "gateway \<Rightarrow> string \<Rightarrow> string \<Rightarrow> bool \<Rightarrow> gateway" where
  "on_chat_lock g cid sid locked =
     as_owner cid sid g (\<lambda>sk user s c.
       emit (ToRoom sid) (EvChatLocked sid locked) (upd_room sid (\<lambda>r. set_chat_lock r locked) g))"

section \<open>Stage\<close>

definition on_view_change :: "gateway \<Rightarrow> string \<Rightarrow> string \<Rightarrow> string \<Rightarrow> gateway" where
  "on_view_change g cid sid wanted =
     as_owner cid sid g (\<lambda>sk user s c.
       let view = (if wanted = ''board'' \<or> wanted = ''quran'' \<or> wanted = ''code'' then wanted else ''video'')
       in if (view = ''quran'' \<or> view = ''code'') \<and>
             \<not> is_pack_enabled (g_db g) c
                 (if view = ''quran'' then plugin_islamic_education else plugin_code_instruction)
          then fail cid ''PLUGIN_DISABLED'' ''Add-on not enabled'' g
          else emit (ToRoom sid) (EvView sid view) (upd_room sid (\<lambda>r. set_view r view) g))"

definition on_theme_change :: "gateway \<Rightarrow> string \<Rightarrow> string \<Rightarrow> string \<Rightarrow> gateway" where
  "on_theme_change g cid sid scheme =
     as_owner cid sid g (\<lambda>sk user s c.
       if scheme \<notin> set room_schemes then fail cid ''BAD_SCHEME'' ''Unknown colour scheme'' g
       else emit (ToRoom sid) (EvTheme sid scheme) (upd_room sid (\<lambda>r. set_theme r scheme) g))"

text \<open>\<open>Number(p.surah)\<close> and \<open>Number(p.ayah)\<close> are the inputs, \<open>None\<close> for \<open>NaN\<close>.\<close>

definition clamp_position :: "rat option \<Rightarrow> rat option \<Rightarrow> quran_position" where
  "clamp_position surah ayah =
     \<lparr>qp_surah = min 114 (max 1 (js_trunc (js_or surah 1))), qp_ayah = max 1 (js_trunc (js_or ayah 1))\<rparr>"

definition on_quran_navigate :: "gateway \<Rightarrow> string \<Rightarrow> string \<Rightarrow> rat option \<Rightarrow> rat option \<Rightarrow> gateway" where
  "on_quran_navigate g cid sid surah ayah =
     as_owner cid sid g (\<lambda>sk user s c.
       if \<not> is_pack_enabled (g_db g) c plugin_islamic_education
       then fail cid ''PLUGIN_DISABLED'' ''Add-on not enabled'' g
       else let pos = clamp_position surah ayah in
         emit (ToRoom sid) (EvQuranPosition sid pos) (upd_room sid (\<lambda>r. set_quran_pos r pos) g))"

section \<open>Live Tajweed annotations\<close>

text \<open>The annotation as it arrives: a field of the wrong type is \<open>None\<close>.\<close>

record tajweed_request =
  tr_id :: "string option"
  tr_rule :: "string option"
  tr_parts :: "part_ref list"
  tr_customLabel :: "string option"
  tr_style :: "string option"
  tr_color :: "string option"
  tr_note :: "string option"
  tr_ttlSec :: "rat option"

definition live_annotation ::
  "env \<Rightarrow> tajweed_request \<Rightarrow> (error_text + tajweed_temporary)"
where
  "live_annotation e a =
     (case tr_id a of
        None \<Rightarrow> Inl (Msg ''Invalid annotation id'')
      | Some i \<Rightarrow>
          if \<not> annotation_id_ok i then Inl (Msg ''Invalid annotation id'')
          else if \<not> is_tajweed_rule (tr_rule a) then Inl (Msg ''Unknown Tajweed rule'')
          else (case validate_parts (e_text e) (e_seg e) (tr_parts a) of
                  Inl err \<Rightarrow> Inl (PartMsg err)
                | Inr parts \<Rightarrow>
                    let customLabel = clean_text (tr_customLabel a) 60 in
                    if tr_rule a = Some ''custom'' \<and> customLabel = None
                    then Inl (Msg ''Give the custom note a label'')
                    else
                      let ttlSec = min 3600 (max 0 (js_trunc (js_or (tr_ttlSec a) 0)));
                          loc = the (first_ayah_of parts)
                      in Inr \<lparr>tt_id = i, tt_surahNumber = fst loc, tt_ayahNumber = snd loc,
                           tt_parts = parts, tt_rule = the (tr_rule a), tt_customLabel = customLabel,
                           tt_style = (if tr_style a = Some ''UNDERLINE'' then ''UNDERLINE'' else ''HIGHLIGHT''),
                           tt_color = (case tr_color a of
                              Some col \<Rightarrow> if hex_color_ok col then Some col else None | None \<Rightarrow> None),
                           tt_note = clean_text (tr_note a) 1000,
                           tt_expiresAt = (if ttlSec \<noteq> 0 then Some (e_now e + ttlSec * 1000) else None)\<rparr>))"

definition on_tajweed_temporary_set ::
  "env \<Rightarrow> gateway \<Rightarrow> string \<Rightarrow> string \<Rightarrow> tajweed_request option \<Rightarrow> gateway"
where
  "on_tajweed_temporary_set e g cid sid req =
     as_owner cid sid g (\<lambda>sk user s c.
       if \<not> is_pack_enabled (g_db g) c plugin_islamic_education
       then fail cid ''PLUGIN_DISABLED'' ''Add-on not enabled'' g
       else (case req of
               None \<Rightarrow> fail cid ''BAD_REQUEST'' ''Invalid annotation id'' g
             | Some a \<Rightarrow>
                 (case live_annotation e a of
                    Inl err \<Rightarrow> emit (ToClient cid) (EvError ''BAD_REQUEST'' err) g
                  | Inr ann \<Rightarrow>
                      let (r, stored) = set_tajweed_temporary (g_room g sid) ann in
                      if \<not> stored
                      then fail cid ''LIMIT''
                             ''Too many live annotations - clear some before adding more'' g
                      else send_tajweed_temporary (e_now e) (ToRoom sid) sid (upd_room sid (\<lambda>_. r) g))))"

definition on_tajweed_temporary_clear :: "env \<Rightarrow> gateway \<Rightarrow> string \<Rightarrow> string \<Rightarrow> string option \<Rightarrow> gateway" where
  "on_tajweed_temporary_clear e g cid sid i =
     as_owner cid sid g (\<lambda>sk user s c.
       let i' = (case i of Some x \<Rightarrow> if annotation_id_ok x then Some x else None | None \<Rightarrow> None)
       in send_tajweed_temporary (e_now e) (ToRoom sid) sid
            (upd_room sid (\<lambda>r. clear_tajweed_temporary r i') g))"

definition on_tajweed_pointing_set :: "env \<Rightarrow> gateway \<Rightarrow> string \<Rightarrow> string \<Rightarrow> part_ref list \<Rightarrow> gateway" where
  "on_tajweed_pointing_set e g cid sid refs =
     as_owner cid sid g (\<lambda>sk user s c.
       case (if refs \<noteq> [] then validate_parts (e_text e) (e_seg e) refs else Inr []) of
         Inl err \<Rightarrow> emit (ToClient cid) (EvError ''BAD_REQUEST'' (PartMsg err)) g
       | Inr parts \<Rightarrow>
           send_tajweed_pointing (ToRoom sid) sid (upd_room sid (\<lambda>r. set_tajweed_pointing r parts) g))"

definition on_tajweed_pointing_clear :: "gateway \<Rightarrow> string \<Rightarrow> string \<Rightarrow> gateway" where
  "on_tajweed_pointing_clear g cid sid =
     as_owner cid sid g (\<lambda>sk user s c.
       send_tajweed_pointing (ToRoom sid) sid (upd_room sid (\<lambda>r. set_tajweed_pointing r []) g))"

section \<open>Raised hands and the microphone\<close>

definition on_hand_raise :: "gateway \<Rightarrow> string \<Rightarrow> string \<Rightarrow> gateway" where
  "on_hand_raise g cid sid =
     with_user cid g (\<lambda>sk user.
       if \<not> in_room sk sid then fail cid ''NOT_IN_ROOM'' ''Join the room first'' g
       else if jwt_role user \<noteq> STUDENT then g
       else broadcast_hands (ToRoom sid) sid
              (upd_room sid (\<lambda>r. raise_hand r (room_user_of sk user)) g))"

definition on_hand_lower :: "gateway \<Rightarrow> string \<Rightarrow> string \<Rightarrow> gateway" where
  "on_hand_lower g cid sid =
     with_user cid g (\<lambda>sk user.
       if \<not> in_room sk sid then fail cid ''NOT_IN_ROOM'' ''Join the room first'' g
       else
         let userId = jwt_sub user;
             g1 = upd_room sid (\<lambda>r. lower_hand r userId) g;
             g2 = (if mic_needs_hand (g_db g1) sid \<and> userId \<in> set (list_speakers (g_room g1 sid))
                   then broadcast_speakers (ToRoom sid) sid (upd_room sid (\<lambda>r. revoke_mic r userId) g1)
                   else g1)
         in broadcast_hands (ToRoom sid) sid g2)"

definition on_pick_random :: "env \<Rightarrow> gateway \<Rightarrow> string \<Rightarrow> string \<Rightarrow> gateway" where
  "on_pick_random e g cid sid =
     as_owner cid sid g (\<lambda>sk user s c.
       case random_hand (e_rand e) (g_room g sid) of
         None \<Rightarrow> fail cid ''NO_HANDS'' ''No raised hands to pick from'' g
       | Some picked \<Rightarrow>
           let g1 = emit (ToRoom sid) (EvPicked sid picked) g;
               g2 = broadcast_hands (ToRoom sid) sid (upd_room sid clear_hands g1)
           in broadcast_speakers (ToRoom sid) sid
                (upd_room sid (\<lambda>r. grant_mic r (ru_userId picked)) g2))"

definition on_mic_grant :: "gateway \<Rightarrow> string \<Rightarrow> string \<Rightarrow> string \<Rightarrow> gateway" where
  "on_mic_grant g cid sid uid =
     as_owner cid sid g (\<lambda>sk user s c.
       if mic_needs_hand (g_db g) sid \<and>
          \<not> list_ex (\<lambda>u. ru_userId u = uid) (list_hands (g_room g sid))
       then fail cid ''MIC_NEEDS_HAND'' ''The student must raise their hand first'' g
       else broadcast_speakers (ToRoom sid) sid (upd_room sid (\<lambda>r. grant_mic r uid) g))"

definition on_mic_revoke :: "gateway \<Rightarrow> string \<Rightarrow> string \<Rightarrow> string \<Rightarrow> gateway" where
  "on_mic_revoke g cid sid uid =
     as_owner cid sid g (\<lambda>sk user s c.
       broadcast_speakers (ToRoom sid) sid (upd_room sid (\<lambda>r. revoke_mic r uid) g))"

text \<open>LiveKit's answer to \<open>setPublishPermission\<close> is an input.\<close>

definition set_screen_share :: "env \<Rightarrow> gateway \<Rightarrow> string \<Rightarrow> string \<Rightarrow> string \<Rightarrow> bool \<Rightarrow> gateway" where
  "set_screen_share e g cid sid uid grant =
     as_owner cid sid g (\<lambda>sk user s c.
       if \<not> e_livekit_ok e
       then fail cid ''LIVEKIT_UNAVAILABLE'' ''Could not update media permissions'' g
       else emit (ToRoom sid)
              (if grant then EvScreenShareGranted sid uid else EvScreenShareRevoked sid uid) g)"

section \<open>Buzzer round\<close>

definition belongs_here :: "db \<Rightarrow> session_row \<Rightarrow> quiz_row \<Rightarrow> bool" where
  "belongs_here d s qz =
     (let quizCourseId =
        (case qz_courseId qz of Some c \<Rightarrow> Some c
         | None \<Rightarrow> map_option se_courseId (Option.bind (qz_sectionId qz) (find_section d)))
      in qz_sessionId qz = Some (ls_id s) \<or>
         (quizCourseId \<noteq> None \<and> quizCourseId = Some (ls_courseId s)))"

definition public_question :: "int \<Rightarrow> question_row \<Rightarrow> quiz_question_public" where
  "public_question now q =
     \<lparr>qpub_questionId = qq_id q, qpub_body = qq_body q, qpub_options = qq_options q,
      qpub_timeLimitSec = qq_timeLimitSec q, qpub_points = qq_points q, qpub_openedAt = now\<rparr>"

definition on_buzzer_start :: "env \<Rightarrow> gateway \<Rightarrow> string \<Rightarrow> string \<Rightarrow> string \<Rightarrow> gateway" where
  "on_buzzer_start e g cid sid qid =
     as_owner cid sid g (\<lambda>sk user s c.
       if map_option bz_phase (get_buzzer_state (g_room g sid)) = Some QUESTION_OPEN
       then fail cid ''BUZZER_BUSY'' ''A question is already open'' g
       else
         let eligible = filter (\<lambda>u. ru_role u = STUDENT) (list_presence (g_room g sid)) in
         if eligible = [] then fail cid ''NO_STUDENTS'' ''No students in the room to quiz'' g
         else (case question_quiz (g_db g) qid of
                 None \<Rightarrow> fail cid ''BAD_QUESTION'' ''Question not in this class'' g
               | Some (q, qz) \<Rightarrow>
                   if \<not> belongs_here (g_db g) s qz
                   then fail cid ''BAD_QUESTION'' ''Question not in this class'' g
                   else
                     let pq = public_question (e_now e) q;
                         st = \<lparr>bz_phase = QUESTION_OPEN, bz_eligibleUserIds = map ru_userId eligible,
                               bz_question = Some pq, bz_winner = None\<rparr>;
                         g1 = upd_room sid (\<lambda>r. set_buzzer_state (clear_buzzer_answered r) st) g;
                         g2 = emit (ToRoom sid) (EvQuizOpened sid pq)
                                (emit (ToRoom sid) (EvBuzzerState sid st) g1);
                         g3 = clear_timer sid g2
                     in g3\<lparr>g_timers := (g_timers g3)(sid \<mapsto> qq_id q)\<rparr>))"

text \<open>The time-out callback of the timer that is set for the session.\<close>

definition timeout_buzzer :: "gateway \<Rightarrow> string \<Rightarrow> string \<Rightarrow> gateway" where
  "timeout_buzzer g sid qid =
     (let g1 = g\<lparr>g_timers := (g_timers g)(sid := None)\<rparr> in
      case get_buzzer_state (g_room g1 sid) of
        None \<Rightarrow> g1
      | Some st \<Rightarrow>
          if bz_phase st \<noteq> QUESTION_OPEN \<or> map_option qpub_questionId (bz_question st) \<noteq> Some qid then g1
          else
            let st' = \<lparr>bz_phase = TIMEOUT, bz_eligibleUserIds = bz_eligibleUserIds st,
                       bz_question = bz_question st, bz_winner = None\<rparr>
            in emit (ToRoom sid) (EvQuizClosed sid qid)
                 (emit (ToRoom sid) (EvBuzzerState sid st')
                   (upd_room sid (\<lambda>r. set_buzzer_state r st') g1)))"

definition on_timer :: "gateway \<Rightarrow> string \<Rightarrow> gateway" where
  "on_timer g sid = (case g_timers g sid of None \<Rightarrow> g | Some qid \<Rightarrow> timeout_buzzer g sid qid)"

text \<open>
  \<open>onQuizAnswer\<close> in the pieces between its awaits: the test of the open question
  (\<open>answer_check\<close>), the answered-set, the question with the persisted attempt and the
  result (\<open>answer_record\<close>), the second read of the buzzer state, and the win.
\<close>

definition answer_check :: "room_state \<Rightarrow> jwt_payload \<Rightarrow> string \<Rightarrow> (string \<times> string) option" where
  "answer_check r user qid =
     (case get_buzzer_state r of
        None \<Rightarrow> Some (''NOT_OPEN'', ''Question is not open'')
      | Some st \<Rightarrow>
          if bz_phase st \<noteq> QUESTION_OPEN \<or> map_option qpub_questionId (bz_question st) \<noteq> Some qid
          then Some (''NOT_OPEN'', ''Question is not open'')
          else if jwt_sub user \<notin> set (bz_eligibleUserIds st)
          then Some (''NOT_ELIGIBLE'', ''This round started before you joined'')
          else None)"

definition answer_correct :: "question_row \<Rightarrow> int \<Rightarrow> bool" where
  "answer_correct q i \<longleftrightarrow> 0 \<le> i \<and> i < int (length (qq_options q)) \<and> i = qq_correctIndex q"

definition quiz_course :: "db \<Rightarrow> quiz_row \<Rightarrow> string option" where
  "quiz_course d qz =
     (case qz_courseId qz of Some c \<Rightarrow> Some c
      | None \<Rightarrow>
          (case map_option ls_courseId (Option.bind (qz_sessionId qz) (find_session d)) of
             Some c \<Rightarrow> Some c
           | None \<Rightarrow> map_option se_courseId (Option.bind (qz_sectionId qz) (find_section d))))"

definition answer_record ::
  "env \<Rightarrow> string \<Rightarrow> jwt_payload \<Rightarrow> question_row \<Rightarrow> int \<Rightarrow> gateway \<Rightarrow> gateway"
where
  "answer_record e cid user q i g =
     (let a = \<lparr>qa_questionId = qq_id q, qa_studentId = jwt_sub user, qa_answerIndex = i,
               qa_isCorrect = answer_correct q i, qa_receivedAt = e_now e\<rparr>;
          g1 = (case create_answer (g_db g) a of None \<Rightarrow> g | Some d \<Rightarrow> g\<lparr>g_db := d\<rparr>)
      in emit (ToClient cid) (EvAnswerResult (qq_id q) (answer_correct q i)) g1)"

definition winner_state :: "socket \<Rightarrow> jwt_payload \<Rightarrow> buzzer_state \<Rightarrow> buzzer_state" where
  "winner_state sk user latest =
     \<lparr>bz_phase = WINNER, bz_eligibleUserIds = bz_eligibleUserIds latest,
      bz_question = bz_question latest, bz_winner = Some (room_user_of sk user)\<rparr>"

definition answer_award ::
  "env \<Rightarrow> string \<Rightarrow> jwt_payload \<Rightarrow> question_row \<Rightarrow> string option \<Rightarrow> gateway \<Rightarrow> gateway"
where
  "answer_award e sid user q courseId g =
     (case courseId of
        None \<Rightarrow> g
      | Some c \<Rightarrow>
          if c = [] then g
          else
            let ps = award (e_redis_bump e) (g_points g)
                  \<lparr>le_studentId = jwt_sub user, le_courseId = c, le_delta = qq_points q,
                   le_reason = BUZZER_WIN, le_refId = Some (qq_id q)\<rparr>;
                (ps', rows) = leaderboard (e_redis_read e) (e_redis_write e) (e_zrev e)
                  (\<lambda>i. map_option us_name (find_user (g_db g) i)) ps c
            in emit (ToRoom sid) (EvLeaderboard sid rows) (g\<lparr>g_points := ps'\<rparr>))"

definition answer_win ::
  "env \<Rightarrow> string \<Rightarrow> socket \<Rightarrow> jwt_payload \<Rightarrow> question_row \<Rightarrow> string option \<Rightarrow> buzzer_state \<Rightarrow> gateway \<Rightarrow> gateway"
where
  "answer_win e sid sk user q courseId latest g =
     (let ws = winner_state sk user latest;
          g1 = upd_room sid (\<lambda>r. set_buzzer_state r ws) (clear_timer sid g);
          g2 = answer_award e sid user q courseId g1
      in emit (ToRoom sid) (EvQuizClosed sid (qq_id q)) (emit (ToRoom sid) (EvBuzzerState sid ws) g2))"

definition on_quiz_answer :: "env \<Rightarrow> gateway \<Rightarrow> string \<Rightarrow> string \<Rightarrow> string \<Rightarrow> int \<Rightarrow> gateway" where
  "on_quiz_answer e g cid sid qid i =
     with_user cid g (\<lambda>sk user.
       if \<not> in_room sk sid then fail cid ''NOT_IN_ROOM'' ''Join the room first'' g
       else if jwt_role user \<noteq> STUDENT then g
       else (case answer_check (g_room g sid) user qid of
               Some (code, msg) \<Rightarrow> fail cid code msg g
             | None \<Rightarrow>
                 let (r1, first) = mark_buzzer_answered (g_room g sid) (jwt_sub user);
                     g1 = upd_room sid (\<lambda>_. r1) g
                 in if \<not> first then fail cid ''ALREADY_ANSWERED'' ''One attempt per question'' g1
                    else (case question_quiz (g_db g1) qid of
                            None \<Rightarrow> g1
                          | Some (q, qz) \<Rightarrow>
                              let courseId = quiz_course (g_db g1) qz;
                                  g2 = answer_record e cid user q i g1
                              in if \<not> answer_correct q i then g2
                                 else (case get_buzzer_state (g_room g2 sid) of
                                         None \<Rightarrow> g2
                                       | Some latest \<Rightarrow>
                                           if bz_phase latest \<noteq> QUESTION_OPEN then g2
                                           else answer_win e sid sk user q courseId latest g2))))"

section \<open>The gateway as a machine\<close>

datatype packet =
    RoomJoin string bool
  | RoomLeave string
  | ChatSend string string
  | ChatVoice string string
  | ChatLock string bool
  | ViewChange string string
  | ThemeChange string string
  | QuranNavigate string "rat option" "rat option"
  | TajweedSet string "tajweed_request option"
  | TajweedClear string "string option"
  | PointingSet string "part_ref list"
  | PointingClear string
  | HandRaise string
  | HandLower string
  | PickRandom string
  | BuzzerStart string string
  | QuizAnswer string string int
  | ScreenShare string string bool
  | MicGrant string string
  | MicRevoke string string

text \<open>A recorder's socket lets only \<open>room:join\<close> by.\<close>

definition recorder_filter :: "jwt_payload \<Rightarrow> packet \<Rightarrow> bool" where
  "recorder_filter user p =
     (jwt_recorder user = None \<or> (case p of RoomJoin _ _ \<Rightarrow> True | _ \<Rightarrow> False))"

fun handle :: "env \<Rightarrow> gateway \<Rightarrow> string \<Rightarrow> packet \<Rightarrow> gateway" where
  "handle e g cid (RoomJoin sid teach) = on_join e g cid sid teach"
| "handle e g cid (RoomLeave sid) = on_leave g cid sid"
| "handle e g cid (ChatSend sid body) = on_chat e g cid sid body"
| "handle e g cid (ChatVoice sid url) = on_chat_voice e g cid sid url"
| "handle e g cid (ChatLock sid b) = on_chat_lock g cid sid b"
| "handle e g cid (ViewChange sid v) = on_view_change g cid sid v"
| "handle e g cid (ThemeChange sid v) = on_theme_change g cid sid v"
| "handle e g cid (QuranNavigate sid su ay) = on_quran_navigate g cid sid su ay"
| "handle e g cid (TajweedSet sid r) = on_tajweed_temporary_set e g cid sid r"
| "handle e g cid (TajweedClear sid i) = on_tajweed_temporary_clear e g cid sid i"
| "handle e g cid (PointingSet sid ps) = on_tajweed_pointing_set e g cid sid ps"
| "handle e g cid (PointingClear sid) = on_tajweed_pointing_clear g cid sid"
| "handle e g cid (HandRaise sid) = on_hand_raise g cid sid"
| "handle e g cid (HandLower sid) = on_hand_lower g cid sid"
| "handle e g cid (PickRandom sid) = on_pick_random e g cid sid"
| "handle e g cid (BuzzerStart sid q) = on_buzzer_start e g cid sid q"
| "handle e g cid (QuizAnswer sid q i) = on_quiz_answer e g cid sid q i"
| "handle e g cid (ScreenShare sid uid b) = set_screen_share e g cid sid uid b"
| "handle e g cid (MicGrant sid uid) = on_mic_grant g cid sid uid"
| "handle e g cid (MicRevoke sid uid) = on_mic_revoke g cid sid uid"

text \<open>A packet passes the recorder filter, then the limiter, then its handler.\<close>

definition on_packet :: "env \<Rightarrow> gateway \<Rightarrow> string \<Rightarrow> packet \<Rightarrow> gateway" where
  "on_packet e g cid p =
     with_user cid g (\<lambda>sk user.
       if \<not> recorder_filter user p then g
       else
         let (st, pass) = packet_limit (e_now e) (sk_packets sk);
             g' = put_sock cid (sk\<lparr>sk_packets := st\<rparr>) g
         in if pass then handle e g' cid p else g')"

datatype message =
    Connect string "string option"
  | Account string
  | Disconnect string
  | Packet string packet
  | Timer string

record services =
  sv_verify :: "string \<Rightarrow> jwt_payload option"
  sv_account :: "string \<Rightarrow> account_state option"

text \<open>The input of a step: what the outside contributes, and the message.\<close>

fun gateway_step :: "gateway \<Rightarrow> env \<times> services \<times> message \<Rightarrow> gateway" where
  "gateway_step g (e, sv, Connect cid t) = on_connect (e_now e) (sv_verify sv) g cid t"
| "gateway_step g (e, sv, Account cid) = on_account (sv_account sv) g cid"
| "gateway_step g (e, sv, Disconnect cid) = on_disconnect g cid"
| "gateway_step g (e, sv, Packet cid p) = on_packet e g cid p"
| "gateway_step g (e, sv, Timer sid) = on_timer g sid"

definition gateway_start :: "db \<Rightarrow> gateway" where
  "gateway_start d = \<lparr>g_db = d, g_points = points_start, g_room = (\<lambda>_. empty_room), g_socks = [],
     g_timers = (\<lambda>_. None), g_out = []\<rparr>"

end
