(* ===== verification/RoomFrame.thy ===== *)
theory RoomFrame
  imports RoomGateway
begin

text \<open>
  What the gateway's building blocks leave alone, as simplification rules, and how the handlers
  are opened: every invariant of the gateway is proved over these.
\<close>

named_theorems handlers \<open>the packet handlers of the gateway\<close>

declare on_join_def [handlers] on_leave_def [handlers] on_chat_def [handlers]
  on_chat_voice_def [handlers] on_chat_lock_def [handlers] on_view_change_def [handlers]
  on_theme_change_def [handlers] on_quran_navigate_def [handlers]
  on_tajweed_temporary_set_def [handlers] on_tajweed_temporary_clear_def [handlers]
  on_tajweed_pointing_set_def [handlers] on_tajweed_pointing_clear_def [handlers]
  on_hand_raise_def [handlers] on_hand_lower_def [handlers] on_pick_random_def [handlers]
  on_buzzer_start_def [handlers] on_quiz_answer_def [handlers] set_screen_share_def [handlers]
  on_mic_grant_def [handlers] on_mic_revoke_def [handlers]

section \<open>Frames\<close>

lemma emit_frame [simp]:
  "g_db (emit t ev g) = g_db g" "g_points (emit t ev g) = g_points g"
  "g_room (emit t ev g) = g_room g" "g_socks (emit t ev g) = g_socks g"
  "g_timers (emit t ev g) = g_timers g" "g_out (emit t ev g) = g_out g @ [(t, ev)]"
  by (simp_all add: emit_def)

lemma fail_frame [simp]:
  "g_db (fail c code m g) = g_db g" "g_points (fail c code m g) = g_points g"
  "g_room (fail c code m g) = g_room g" "g_socks (fail c code m g) = g_socks g"
  "g_timers (fail c code m g) = g_timers g"
  "g_out (fail c code m g) = g_out g @ [(ToClient c, EvError code (Msg m))]"
  by (simp_all add: fail_def)

lemma upd_room_frame [simp]:
  "g_db (upd_room sid f g) = g_db g" "g_points (upd_room sid f g) = g_points g"
  "g_room (upd_room sid f g) = (g_room g)(sid := f (g_room g sid))"
  "g_socks (upd_room sid f g) = g_socks g"
  "g_timers (upd_room sid f g) = g_timers g" "g_out (upd_room sid f g) = g_out g"
  by (simp_all add: upd_room_def)

lemma put_sock_frame [simp]:
  "g_db (put_sock c sk g) = g_db g" "g_points (put_sock c sk g) = g_points g"
  "g_room (put_sock c sk g) = g_room g" "g_socks (put_sock c sk g) = aput c sk (g_socks g)"
  "g_timers (put_sock c sk g) = g_timers g" "g_out (put_sock c sk g) = g_out g"
  by (simp_all add: put_sock_def)

lemma clear_timer_frame [simp]:
  "g_db (clear_timer sid g) = g_db g" "g_points (clear_timer sid g) = g_points g"
  "g_room (clear_timer sid g) = g_room g" "g_socks (clear_timer sid g) = g_socks g"
  "g_timers (clear_timer sid g) = (g_timers g)(sid := None)" "g_out (clear_timer sid g) = g_out g"
  by (simp_all add: clear_timer_def)

lemmas broadcast_defs =
  broadcast_presence_def broadcast_hands_def broadcast_speakers_def send_tajweed_pointing_def

lemma send_tajweed_temporary_frame [simp]:
  "g_db (send_tajweed_temporary now t sid g) = g_db g"
  "g_points (send_tajweed_temporary now t sid g) = g_points g"
  "g_room (send_tajweed_temporary now t sid g) =
     (g_room g)(sid := fst (list_tajweed_temporary now (g_room g sid)))"
  "g_socks (send_tajweed_temporary now t sid g) = g_socks g"
  "g_timers (send_tajweed_temporary now t sid g) = g_timers g"
  "g_out (send_tajweed_temporary now t sid g) =
     g_out g @ [(t, EvTajweedTemporary sid (snd (list_tajweed_temporary now (g_room g sid))))]"
  by (simp_all add: send_tajweed_temporary_def split: prod.splits)

lemma answer_record_frame [simp]:
  "g_points (answer_record e c u q i g) = g_points g"
  "g_room (answer_record e c u q i g) = g_room g"
  "g_socks (answer_record e c u q i g) = g_socks g"
  "g_timers (answer_record e c u q i g) = g_timers g"
  "g_out (answer_record e c u q i g) = g_out g @ [(ToClient c, EvAnswerResult (qq_id q) (answer_correct q i))]"
  by (simp_all add: answer_record_def Let_def split: option.splits)

lemma answer_award_frame [simp]:
  "g_db (answer_award e sid u q c g) = g_db g" "g_room (answer_award e sid u q c g) = g_room g"
  "g_socks (answer_award e sid u q c g) = g_socks g"
  "g_timers (answer_award e sid u q c g) = g_timers g"
  by (simp_all add: answer_award_def Let_def split: option.splits prod.splits)

lemma answer_award_out:
  "\<exists>rows. g_out (answer_award e sid u q c g) = g_out g \<or>
     g_out (answer_award e sid u q c g) = g_out g @ [(ToRoom sid, EvLeaderboard sid rows)]"
  by (auto simp: answer_award_def Let_def split: option.splits prod.splits)

lemma answer_win_frame [simp]:
  "g_db (answer_win e sid sk u q c l g) = g_db g"
  "g_room (answer_win e sid sk u q c l g) =
     (g_room g)(sid := set_buzzer_state (g_room g sid) (winner_state sk u l))"
  "g_socks (answer_win e sid sk u q c l g) = g_socks g"
  "g_timers (answer_win e sid sk u q c l g) = (g_timers g)(sid := None)"
  by (simp_all add: answer_win_def Let_def)

lemma post_chat_frame [simp]:
  "g_points (post_chat e c sid sk u b a g) = g_points g"
  "g_room (post_chat e c sid sk u b a g) = g_room g"
  "g_socks (post_chat e c sid sk u b a g) = g_socks g"
  "g_timers (post_chat e c sid sk u b a g) = g_timers g"
  by (simp_all add: post_chat_def Let_def)

lemma remove_departed_frame [simp]:
  "g_db (remove_departed u sid g) = g_db g" "g_points (remove_departed u sid g) = g_points g"
  "g_room (remove_departed u sid g) =
     (g_room g)(sid := lower_hand (remove_presence (g_room g sid) u) u)"
  "g_socks (remove_departed u sid g) = g_socks g"
  "g_timers (remove_departed u sid g) = g_timers g"
  by (simp_all add: remove_departed_def broadcast_defs)

section \<open>Sockets\<close>

lemma sock_put [simp]: "sock (put_sock c sk g) c' = (if c' = c then Some sk else sock g c')"
  by (simp add: sock_def aput_lookup)

lemma sock_frame:
  "g_socks g = g_socks h \<Longrightarrow> sock g = sock h"
  by (simp add: sock_def fun_eq_iff)

lemma with_user_cases:
  "(with_user c g k = g) \<or>
   (\<exists>sk u. sock g c = Some sk \<and> sk_user sk = Some u \<and> with_user c g k = k sk u)"
  by (simp add: with_user_def split: option.splits)

lemma as_owner_cases:
  "(as_owner c sid g k = g) \<or>
   (\<exists>sk u. sock g c = Some sk \<and> sk_user sk = Some u \<and>
      ((\<exists>msg. owned_session (g_db g) sk u sid = Inl msg \<and> as_owner c sid g k = fail c ''FORBIDDEN'' msg g) \<or>
       (\<exists>s co. owned_session (g_db g) sk u sid = Inr (s, co) \<and> as_owner c sid g k = k sk u s co)))"
  by (auto simp: as_owner_def with_user_def split: option.splits sum.splits)

text \<open>Which handlers touch sockets: joining and leaving only.\<close>

fun is_membership :: "packet \<Rightarrow> bool" where
  "is_membership (RoomJoin _ _) = True"
| "is_membership (RoomLeave _) = True"
| "is_membership _ = False"

lemma as_owner_pres:
  assumes "P g" and "\<And>msg. P (fail c ''FORBIDDEN'' msg g)"
    and "\<And>sk u s co. sock g c = Some sk \<Longrightarrow> sk_user sk = Some u \<Longrightarrow>
      owned_session (g_db g) sk u sid = Inr (s, co) \<Longrightarrow> P (k sk u s co)"
  shows "P (as_owner c sid g k)"
  using as_owner_cases [of c sid g k] assms by auto

lemma with_user_pres:
  assumes "P g" and "\<And>sk u. sock g c = Some sk \<Longrightarrow> sk_user sk = Some u \<Longrightarrow> P (k sk u)"
  shows "P (with_user c g k)"
  using with_user_cases [of c g k] assms by auto

lemma handle_socks: "\<not> is_membership p \<Longrightarrow> g_socks (handle e g c p) = g_socks g"
  by (cases p)
    (auto simp: handlers broadcast_defs Let_def split: option.splits sum.splits prod.splits
      intro!: as_owner_pres [where P = "\<lambda>h. g_socks h = g_socks g"]
        with_user_pres [where P = "\<lambda>h. g_socks h = g_socks g"])

section \<open>The tables the gateway never writes\<close>

definition same_tables :: "db \<Rightarrow> db \<Rightarrow> bool" where
  "same_tables d d' \<longleftrightarrow>
     d' = d\<lparr>db_answers := db_answers d', db_chat := db_chat d'\<rparr>"

lemma same_tables_refl [simp]: "same_tables d d"
  by (simp add: same_tables_def)

lemma same_tables_find:
  assumes "same_tables d d'"
  shows "find_session d' = find_session d" "find_course d' = find_course d"
    "session_course d' = session_course d" "enrolled d' = enrolled d"
    "join_refusal d' = join_refusal d" "owned_session d' = owned_session d"
    "question_quiz d' = question_quiz d" "find_org d' = find_org d" "find_user d' = find_user d"
proof -
  obtain a b where d': "d' = d\<lparr>db_answers := a, db_chat := b\<rparr>"
    using assms unfolding same_tables_def by blast
  show "find_session d' = find_session d" "find_course d' = find_course d"
    "find_org d' = find_org d" "find_user d' = find_user d" "enrolled d' = enrolled d"
    by (simp_all add: d' fun_eq_iff find_session_def find_course_def enrolled_def find_org_def
        find_user_def)
  then show sc: "session_course d' = session_course d"
    by (simp add: fun_eq_iff session_course_def)
  show "owned_session d' = owned_session d"
    by (intro ext) (simp add: owned_session_def sc cong: if_cong)
  show "join_refusal d' = join_refusal d"
    using \<open>enrolled d' = enrolled d\<close> by (simp add: fun_eq_iff join_refusal_def)
  show "question_quiz d' = question_quiz d"
    by (simp add: d' fun_eq_iff question_quiz_def find_question_def find_quiz_def)
qed

lemma answer_record_db:
  "g_db h = g_db g \<Longrightarrow> same_tables (g_db g) (g_db (answer_record e c u q i h))"
  by (auto simp: answer_record_def Let_def create_answer_def same_tables_def split: option.splits if_splits)

lemma post_chat_db: "same_tables (g_db g) (g_db (post_chat e c sid sk u b a g))"
  by (simp add: post_chat_def Let_def same_tables_def)

lemma enter_room_frame [simp]:
  "g_db (enter_room e c sk u sid co g) = g_db g"
  "g_points (enter_room e c sk u sid co g) = g_points g"
  "g_timers (enter_room e c sk u sid co g) = g_timers g"
  "g_socks (enter_room e c sk u sid co g) =
     aput c (sk\<lparr>sk_rooms := (if jwt_role u \<noteq> STUDENT then sadd (staff_room sid) (sadd sid (sk_rooms sk))
               else sadd sid (sk_rooms sk)),
             sk_sessionIds := sadd sid (sk_sessionIds sk)\<rparr>) (g_socks g)"
  by (simp_all add: enter_room_def send_room_state_def broadcast_defs Let_def split: option.splits)

lemma handle_db: "same_tables (g_db g) (g_db (handle e g c p))"
  by (cases p)
    (auto simp: handlers broadcast_defs Let_def answer_record_db post_chat_db
      split: option.splits sum.splits prod.splits
      intro!: as_owner_pres [where P = "\<lambda>h. same_tables (g_db g) (g_db h)"]
        with_user_pres [where P = "\<lambda>h. same_tables (g_db g) (g_db h)"])

end
