(* ===== verification/RoomMembership.thy ===== *)
theory RoomMembership
  imports RoomFrame
begin

text \<open>
  Who is in a room and who is shown as present: the invariants of joining, leaving and
  disconnecting over every run of the gateway, and the two ways in which the code's own
  bookkeeping loses track of presence.
\<close>

section \<open>Admission\<close>

text \<open>The rule of a session, said apart from the code: a recorder's token is for one session, an
  instructor teaches the course, an admin is of its organization, a student is enrolled.\<close>

definition entitled :: "db \<Rightarrow> jwt_payload \<Rightarrow> string \<Rightarrow> course_row \<Rightarrow> bool" where
  "entitled d u sid co \<longleftrightarrow>
     (case jwt_recorder u of
        Some r \<Rightarrow> rc_sessionId r = sid
      | None \<Rightarrow>
          (case jwt_role u of
             INSTRUCTOR \<Rightarrow> co_instructorId co = Some (jwt_sub u)
           | ORG_ADMIN \<Rightarrow> co_organizationId co = jwt_organizationId u
           | STUDENT \<Rightarrow> enrolled d (co_id co) (jwt_sub u)))"

definition authorised :: "db \<Rightarrow> jwt_payload \<Rightarrow> string \<Rightarrow> bool" where
  "authorised d u sid \<longleftrightarrow> (\<exists>s co. session_course d sid = Some (s, co) \<and> entitled d u sid co)"

lemma join_refusal_entitled: "join_refusal d u sid co = None \<longleftrightarrow> entitled d u sid co"
  by (simp add: join_refusal_def entitled_def Let_def split: option.split role.split)

definition sock_ok :: "db \<Rightarrow> string \<Rightarrow> socket \<Rightarrow> bool" where
  "sock_ok d c sk \<longleftrightarrow>
     (\<exists>u. sk_user sk = Some u \<and> jwt_preview u = None \<and>
        (sk_sessionIds sk \<noteq> [] \<longrightarrow> sk_authReady sk = Some True) \<and>
        (\<forall>sid \<in> set (sk_sessionIds sk). authorised d u sid) \<and>
        set (sk_sessionIds sk) \<subseteq> set (sk_rooms sk) \<and>
        (\<forall>r \<in> set (sk_rooms sk). r = c \<or> r \<in> set (sk_sessionIds sk) \<or>
           (\<exists>sid. r = staff_room sid \<and> authorised d u sid \<and> jwt_role u \<noteq> STUDENT)))"

definition members_inv :: "db \<Rightarrow> gateway \<Rightarrow> bool" where
  "members_inv d g \<longleftrightarrow>
     same_tables d (g_db g) \<and> (\<forall>c sk. sock g c = Some sk \<longrightarrow> sock_ok d c sk)"

lemma same_tables_trans: "same_tables a b \<Longrightarrow> same_tables b c \<Longrightarrow> same_tables a c"
  unfolding same_tables_def by (metis db.surjective db.update_convs(10,11))

lemma members_put:
  "members_inv d g \<Longrightarrow> sock_ok d c sk \<Longrightarrow> members_inv d (put_sock c sk g)"
  by (auto simp: members_inv_def)

lemma members_emit [simp]: "members_inv d (emit t ev g) = members_inv d g"
  by (simp add: members_inv_def sock_def)

lemma members_fail [simp]: "members_inv d (fail c code m g) = members_inv d g"
  by (simp add: members_inv_def sock_def)

lemma members_frame:
  "g_socks h = g_socks g \<Longrightarrow> same_tables (g_db g) (g_db h) \<Longrightarrow> members_inv d g \<Longrightarrow> members_inv d h"
  by (auto simp: members_inv_def sock_def intro: same_tables_trans)

lemma members_sock: "members_inv d g \<Longrightarrow> sock g c = Some sk \<Longrightarrow> sock_ok d c sk"
  by (simp add: members_inv_def)

lemma sadd_set [simp]: "set (sadd x xs) = insert x (set xs)"
  by (auto simp: sadd_def)

lemma members_join:
  assumes inv: "members_inv d g"
  shows "members_inv d (on_join e g c sid teach)"
  unfolding on_join_def
proof (rule with_user_pres [where P = "members_inv d"])
  fix sk u
  assume sk: "sock g c = Some sk" and u: "sk_user sk = Some u"
  note ok = members_sock [OF inv sk]
  let ?sk' = "\<lambda>t s. sk\<lparr>sk_teaching := t, sk_shadow := s\<rparr>"
  have ok': "sock_ok d c (?sk' t s)" for t s
    using ok by (simp add: sock_ok_def)
  have tabs: "session_course (g_db g) = session_course d" "join_refusal (g_db g) = join_refusal d"
    using inv by (simp_all add: members_inv_def same_tables_find)
  have enter: "members_inv d (enter_room e c (?sk' t s) u sid co (put_sock c (?sk' t s) g))"
    if "session_course d sid = Some (se, co)" "join_refusal d u sid co = None"
      "sk_authReady sk = Some True" for t s se co
  proof -
    have auth: "authorised d u sid" using that by (auto simp: authorised_def join_refusal_entitled)
    have "sock_ok d c ((?sk' t s)\<lparr>sk_rooms := rs, sk_sessionIds := sadd sid (sk_sessionIds sk)\<rparr>)"
      if "rs = (if jwt_role u \<noteq> STUDENT then sadd (staff_room sid) (sadd sid (sk_rooms sk))
            else sadd sid (sk_rooms sk))" for rs
      using ok u that auth \<open>sk_authReady sk = Some True\<close> by (auto simp: sock_ok_def)
    then have "members_inv d (put_sock c ((?sk' t s)\<lparr>sk_rooms :=
        (if jwt_role u \<noteq> STUDENT then sadd (staff_room sid) (sadd sid (sk_rooms sk))
            else sadd sid (sk_rooms sk)), sk_sessionIds := sadd sid (sk_sessionIds sk)\<rparr>)
        (put_sock c (?sk' t s) g))"
      by (intro members_put inv ok') simp
    then show ?thesis by (rule members_frame [rotated 2]) simp_all
  qed
  show "members_inv d
     (if sk_authReady sk \<noteq> Some True then g
      else case session_course (g_db g) sid of
        None \<Rightarrow> fail c ''NOT_JOINABLE'' ''Session not found or ended'' g
      | Some (s, co) \<Rightarrow>
          if ls_status s = ENDED then fail c ''NOT_JOINABLE'' ''Session not found or ended'' g
          else
            let isAdmin = (jwt_role u = ORG_ADMIN);
                teaching = (isAdmin \<and> teach);
                isRecorder = (map_option rc_sessionId (jwt_recorder u) = Some sid);
                shadow = ((isAdmin \<and> \<not> teaching) \<or> isRecorder);
                sk' = sk\<lparr>sk_teaching := teaching, sk_shadow := shadow\<rparr>;
                g' = put_sock c sk' g
            in (case join_refusal (g_db g) u sid co of
                  Some msg \<Rightarrow> fail c ''FORBIDDEN'' msg g'
                | None \<Rightarrow> enter_room e c sk' u sid co g'))"
    unfolding Let_def tabs using inv
    by (auto split: option.splits intro!: enter members_put ok')
qed (rule inv)

lemma members_leave: "members_inv d g \<Longrightarrow> members_inv d (on_leave g c sid)"
  unfolding on_leave_def
proof (rule with_user_pres [where P = "members_inv d"])
  fix sk u
  assume inv: "members_inv d g" and sk: "sock g c = Some sk" and "sk_user sk = Some u"
  let ?sk' = "sk\<lparr>sk_rooms := removeAll sid (sk_rooms sk), sk_sessionIds := removeAll sid (sk_sessionIds sk)\<rparr>"
  have "sock_ok d c ?sk'"
    using members_sock [OF inv sk] by (auto simp: sock_ok_def)
  with inv have "members_inv d (put_sock c ?sk' g)" by (rule members_put)
  moreover from this have "members_inv d (remove_departed (jwt_sub u) sid (put_sock c ?sk' g))"
    by (rule members_frame [rotated 2]) simp_all
  ultimately show "members_inv d (let sk' = ?sk'; g' = put_sock c sk' g
       in if \<not> sk_shadow sk \<and> \<not> user_still_in_room g' sid (jwt_sub u) c
          then remove_departed (jwt_sub u) sid g' else g')"
    by (simp add: Let_def)
qed

lemma depart_frame [simp]:
  "g_socks (depart c sh u h sid) = g_socks h" "g_db (depart c sh u h sid) = g_db h"
  "g_timers (depart c sh u h sid) = g_timers h" "g_points (depart c sh u h sid) = g_points h"
  by (simp_all add: depart_def)

lemma foldl_depart_frame [simp]:
  "g_socks (foldl (depart c sh u) h sids) = g_socks h"
  "g_db (foldl (depart c sh u) h sids) = g_db h"
  "g_timers (foldl (depart c sh u) h sids) = g_timers h"
  "g_points (foldl (depart c sh u) h sids) = g_points h"
  by (induction sids arbitrary: h) simp_all

lemma on_disconnect_socks [simp]: "g_socks (on_disconnect g c) = (if sock g c = None then g_socks g else adel c (g_socks g))"
  by (simp add: on_disconnect_def Let_def split: option.splits)

lemma on_disconnect_db [simp]: "g_db (on_disconnect g c) = g_db g"
  by (simp add: on_disconnect_def Let_def split: option.splits)

lemma members_drop:
  "members_inv d g \<Longrightarrow> g_socks h = adel c (g_socks g) \<Longrightarrow> g_db h = g_db g \<Longrightarrow> members_inv d h"
  by (simp add: members_inv_def sock_def adel_lookup)

lemma members_disconnect: "members_inv d g \<Longrightarrow> members_inv d (on_disconnect g c)"
  by (cases "sock g c = None") (auto intro: members_drop members_frame)

lemma members_connect: "members_inv d g \<Longrightarrow> members_inv d (on_connect now verify g c t)"
  by (auto simp: on_connect_def sock_ok_def intro!: members_put split: option.splits)

lemma members_account: "members_inv d g \<Longrightarrow> members_inv d (on_account account g c)"
  unfolding on_account_def
proof (rule with_user_pres [where P = "members_inv d"])
  fix sk u
  assume inv: "members_inv d g" and sk: "sock g c = Some sk"
  have "sock_ok d c (sk\<lparr>sk_authReady := Some True\<rparr>)"
    using members_sock [OF inv sk] by (auto simp: sock_ok_def)
  moreover have "members_inv d (g\<lparr>g_socks := adel c (g_socks g)\<rparr>)"
    using inv by (rule members_drop) simp_all
  ultimately show "members_inv d
      (if sk_authReady sk \<noteq> None then g
       else case account (jwt_sub u) of
         Some a \<Rightarrow>
           if acc_status a = DISABLED \<or> \<not> acc_emailVerified a
           then fail c ''FORBIDDEN'' ''Account not permitted'' (g\<lparr>g_socks := adel c (g_socks g)\<rparr>)
           else put_sock c (sk\<lparr>sk_authReady := Some True\<rparr>) g
       | None \<Rightarrow> fail c ''FORBIDDEN'' ''Account not permitted'' (g\<lparr>g_socks := adel c (g_socks g)\<rparr>))"
    using inv by (auto simp: members_put split: option.splits)
qed

lemma members_handle: "members_inv d g \<Longrightarrow> members_inv d (handle e g c p)"
proof (cases "is_membership p")
  case True
  then show "members_inv d g \<Longrightarrow> members_inv d (handle e g c p)"
    by (cases p) (simp_all add: members_join members_leave)
next
  case False
  then show "members_inv d g \<Longrightarrow> members_inv d (handle e g c p)"
    by (intro members_frame [OF handle_socks handle_db])
qed

lemma on_packet_pres:
  assumes "P g"
    and "\<And>sk st. sock g c = Some sk \<Longrightarrow> P (put_sock c (sk\<lparr>sk_packets := st\<rparr>) g)"
    and "\<And>sk u st. sock g c = Some sk \<Longrightarrow> sk_user sk = Some u \<Longrightarrow> recorder_filter u p \<Longrightarrow>
      P (handle e (put_sock c (sk\<lparr>sk_packets := st\<rparr>) g) c p)"
  shows "P (on_packet e g c p)"
  unfolding on_packet_def
  by (rule with_user_pres) (auto simp: Let_def assms split: prod.splits)

lemma members_packet: "members_inv d g \<Longrightarrow> members_inv d (on_packet e g c p)"
proof (rule on_packet_pres)
  fix sk st
  assume inv: "members_inv d g" and sk: "sock g c = Some sk"
  have "sock_ok d c (sk\<lparr>sk_packets := st\<rparr>)"
    using members_sock [OF inv sk] by (simp add: sock_ok_def)
  with inv show put: "members_inv d (put_sock c (sk\<lparr>sk_packets := st\<rparr>) g)" by (rule members_put)
  show "members_inv d (handle e (put_sock c (sk\<lparr>sk_packets := st\<rparr>) g) c p)"
    using put by (rule members_handle)
qed

lemma on_timer_frame [simp]:
  "g_socks (on_timer g sid) = g_socks g" "g_db (on_timer g sid) = g_db g"
  by (simp_all add: on_timer_def timeout_buzzer_def Let_def split: option.splits)

interpretation members: invariant_system gateway_step "members_inv d" for d
proof unfold_locales
  fix g and x :: "env \<times> services \<times> message"
  assume inv: "members_inv d g"
  obtain e sv m where x: "x = (e, sv, m)" by (cases x)
  show "members_inv d (gateway_step g x)"
    using inv members_frame [OF on_timer_frame(1), of g] unfolding x
    by (cases m)
      (simp_all add: members_connect members_account members_disconnect members_packet)
qed

lemma members_start: "members_inv d (gateway_start d)"
  by (simp add: members_inv_def gateway_start_def sock_def)

section \<open>Presence of participants\<close>

lemma handle_presence:
  "\<not> is_membership p \<Longrightarrow> rs_presence (g_room (handle e g c p) sid) = rs_presence (g_room g sid)"
  by (cases p)
    (auto simp: handlers broadcast_defs room_ops mark_buzzer_answered_def set_tajweed_temporary_def
      list_tajweed_temporary_def Let_def
      split: option.splits sum.splits prod.splits if_splits
      intro!: as_owner_pres [where P = "\<lambda>h. rs_presence (g_room h sid) = rs_presence (g_room g sid)"]
        with_user_pres [where P = "\<lambda>h. rs_presence (g_room h sid) = rs_presence (g_room g sid)"])

definition participant :: "jwt_payload \<Rightarrow> bool" where
  "participant u \<longleftrightarrow> jwt_role u \<noteq> ORG_ADMIN \<and> jwt_recorder u = None"

definition present_inv :: "gateway \<Rightarrow> bool" where
  "present_inv g \<longleftrightarrow>
     (\<forall>sid. register_ok (rs_presence (g_room g sid))) \<and>
     (\<forall>c sk u sid. sock g c = Some sk \<longrightarrow> sk_user sk = Some u \<longrightarrow> participant u \<longrightarrow>
        sid \<in> set (sk_sessionIds sk) \<longrightarrow>
        presence.member (g_room g sid) (jwt_sub u) \<and> sid \<in> set (sk_rooms sk))"

lemma present_inv_frame:
  assumes "present_inv g" and "\<And>sid. rs_presence (g_room h sid) = rs_presence (g_room g sid)"
    and "\<And>c sk. sock h c = Some sk \<Longrightarrow> \<exists>sk'. sock g c = Some sk' \<and> sk_user sk' = sk_user sk \<and>
      set (sk_sessionIds sk) \<subseteq> set (sk_sessionIds sk') \<and>
      set (sk_rooms sk') \<inter> set (sk_sessionIds sk) \<subseteq> set (sk_rooms sk)"
  shows "present_inv h"
proof -
  have mem: "presence.member (g_room h sid) = presence.member (g_room g sid)" for sid
    by (simp add: presence.member_def list_presence_def assms(2) fun_eq_iff)
  show ?thesis
    unfolding present_inv_def
  proof (intro conjI allI impI)
    show "register_ok (rs_presence (g_room h sid))" for sid
      using assms(1,2) by (simp add: present_inv_def)
    fix c sk u sid
    assume h: "sock h c = Some sk" "sk_user sk = Some u" "participant u" "sid \<in> set (sk_sessionIds sk)"
    from assms(3) [OF h(1)] obtain sk' where sk': "sock g c = Some sk'" "sk_user sk' = Some u"
      "sid \<in> set (sk_sessionIds sk')" "sid \<in> set (sk_rooms sk') \<Longrightarrow> sid \<in> set (sk_rooms sk)"
      using h by auto
    with assms(1) h(3) have "presence.member (g_room g sid) (jwt_sub u) \<and> sid \<in> set (sk_rooms sk')"
      by (auto simp: present_inv_def)
    with sk' show "presence.member (g_room h sid) (jwt_sub u)" "sid \<in> set (sk_rooms sk)"
      by (simp_all add: mem)
  qed
qed

lemma present_put_same:
  "present_inv g \<Longrightarrow> sock g c = Some sk \<Longrightarrow> sk_user sk' = sk_user sk \<Longrightarrow>
   sk_sessionIds sk' = sk_sessionIds sk \<Longrightarrow> sk_rooms sk' = sk_rooms sk \<Longrightarrow> present_inv (put_sock c sk' g)"
  by (erule present_inv_frame) (auto split: if_splits)

lemma present_emit [simp]: "present_inv (emit t ev g) = present_inv g"
  by (simp add: present_inv_def sock_def)

lemma present_fail [simp]: "present_inv (fail c code m g) = present_inv g"
  by (simp add: present_inv_def sock_def)

lemma remove_departed_presence:
  "rs_presence (g_room (remove_departed uid sid g) sid') =
     (if sid' = sid then adel uid (rs_presence (g_room g sid)) else rs_presence (g_room g sid'))"
  by (simp add: lower_hand_def remove_presence_def)

lemma present_remove:
  assumes inv: "present_inv g" and gone: "\<not> user_still_in_room g sid uid c"
    and self: "\<And>sk. sock g c = Some sk \<Longrightarrow> sid \<notin> set (sk_rooms sk)"
  shows "present_inv (remove_departed uid sid g)"
  unfolding present_inv_def
proof (intro conjI allI impI)
  have reg: "register_ok (rs_presence (g_room g s))" for s using inv by (simp add: present_inv_def)
  show "register_ok (rs_presence (g_room (remove_departed uid sid g) s))" for s
    using reg register_del by (simp add: remove_presence_def lower_hand_def)
  fix c' sk u s
  assume "sock (remove_departed uid sid g) c' = Some sk" and u: "sk_user sk = Some u"
    and p: "participant u" and s: "s \<in> set (sk_sessionIds sk)"
  then have sk: "sock g c' = Some sk" by (simp add: sock_def)
  have m: "presence.member (g_room g s) (jwt_sub u)" and r: "s \<in> set (sk_rooms sk)"
    using inv sk u p s by (auto simp: present_inv_def)
  show "s \<in> set (sk_rooms sk)" by (rule r)
  have "\<not> (s = sid \<and> jwt_sub u = uid)"
  proof
    assume eq: "s = sid \<and> jwt_sub u = uid"
    have "c' \<noteq> c" using self [of sk] sk r eq by auto
    moreover have "(c', sk) \<in> set (g_socks g)" using sk by (auto simp: sock_def dest: map_of_SomeD)
    ultimately have "user_still_in_room g sid uid c"
      using u r eq by (force simp: user_still_in_room_def list_ex_iff)
    with gone show False ..
  qed
  then show "presence.member (g_room (remove_departed uid sid g) s) (jwt_sub u)"
    using m presence.member_del [of "g_room g s" uid "jwt_sub u"] reg
    by (auto simp: presence.member_def list_presence_def remove_presence_def lower_hand_def)
qed

lemma present_depart:
  "present_inv g \<Longrightarrow> sock g c = None \<Longrightarrow> present_inv (depart c sh uid g sid)"
  by (auto simp: depart_def intro: present_remove)

lemma present_foldl_depart:
  "present_inv g \<Longrightarrow> sock g c = None \<Longrightarrow> present_inv (foldl (depart c sh uid) g sids)"
proof (induction sids arbitrary: g)
  case (Cons sid sids)
  then have "sock (depart c sh uid g sid) c = None" by (simp add: sock_def)
  with Cons show ?case by (simp add: present_depart)
qed simp

lemma present_drop:
  "present_inv g \<Longrightarrow> present_inv (g\<lparr>g_socks := adel c (g_socks g)\<rparr>)"
  by (erule present_inv_frame) (auto simp: sock_def adel_lookup split: if_splits)

lemma present_disconnect: "present_inv g \<Longrightarrow> present_inv (on_disconnect g c)"
proof -
  assume inv: "present_inv g"
  have "sock (g\<lparr>g_socks := adel c (g_socks g)\<rparr>) c = None" by (simp add: sock_def adel_lookup)
  with present_drop [OF inv] inv show ?thesis
    by (auto simp: on_disconnect_def Let_def present_foldl_depart split: option.splits)
qed

lemma present_leave: "present_inv g \<Longrightarrow> present_inv (on_leave g c sid)"
  unfolding on_leave_def
proof (rule with_user_pres [where P = present_inv])
  fix sk u
  assume inv: "present_inv g" and sk: "sock g c = Some sk" and u: "sk_user sk = Some u"
  let ?sk' = "sk\<lparr>sk_rooms := removeAll sid (sk_rooms sk), sk_sessionIds := removeAll sid (sk_sessionIds sk)\<rparr>"
  have put: "present_inv (put_sock c ?sk' g)"
    using inv by (rule present_inv_frame) (auto simp: sk split: if_splits)
  have "present_inv (remove_departed (jwt_sub u) sid (put_sock c ?sk' g))"
    if "\<not> user_still_in_room (put_sock c ?sk' g) sid (jwt_sub u) c"
    using put that by (rule present_remove) auto
  with put show "present_inv (let sk' = ?sk'; g' = put_sock c sk' g
       in if \<not> sk_shadow sk \<and> \<not> user_still_in_room g' sid (jwt_sub u) c
          then remove_departed (jwt_sub u) sid g' else g')"
    by (simp add: Let_def)
qed

lemma enter_room_presence:
  "rs_presence (g_room (enter_room e c sk u sid co g) s) =
     (if s = sid \<and> \<not> sk_shadow sk
      then aput (jwt_sub u) (room_user_of sk u) (rs_presence (g_room g sid))
      else rs_presence (g_room g s))"
  by (simp add: enter_room_def send_room_state_def broadcast_defs Let_def room_ops room_user_of_def
      acting_role_def list_tajweed_temporary_def split: option.splits)

lemma present_enter:
  assumes inv: "present_inv g" and sk: "sock g c = Some sk" and u: "sk_user sk = Some u"
    and shadow: "participant u \<Longrightarrow> \<not> sk_shadow sk"
  shows "present_inv (enter_room e c sk u sid co g)"
  unfolding present_inv_def
proof (intro conjI allI impI)
  let ?h = "enter_room e c sk u sid co g"
  have reg: "register_ok (rs_presence (g_room g s))" for s using inv by (simp add: present_inv_def)
  have uid: "ru_userId (room_user_of sk u) = jwt_sub u" by (simp add: room_user_of_def)
  show "register_ok (rs_presence (g_room ?h s))" for s
    using reg register_put [of "rs_presence (g_room g sid)" "room_user_of sk u"]
    by (simp add: enter_room_presence uid)
  have grow: "presence.member (g_room g s) x \<or> (s = sid \<and> x = jwt_sub u \<and> \<not> sk_shadow sk) \<longleftrightarrow>
      presence.member (g_room ?h s) x" for s x
    using presence.member_put [of "g_room g sid" "room_user_of sk u" x] reg
    by (auto simp: presence.member_def list_presence_def enter_room_presence add_presence_def uid)
  fix c' sk' u' s
  assume "sock ?h c' = Some sk'" and u': "sk_user sk' = Some u'" and p: "participant u'"
    and s: "s \<in> set (sk_sessionIds sk')"
  then have cases: "(c' = c \<and> sk_user sk = Some u' \<and> (s = sid \<or> s \<in> set (sk_sessionIds sk)) \<and>
      insert sid (set (sk_rooms sk)) \<subseteq> set (sk_rooms sk')) \<or> sock g c' = Some sk'"
    by (auto simp: sock_def aput_lookup split: if_splits)
  have old: "presence.member (g_room g r) (jwt_sub u'') \<and> r \<in> set (sk_rooms sk'')"
    if "sock g c'' = Some sk''" "sk_user sk'' = Some u''" "participant u''" "r \<in> set (sk_sessionIds sk'')"
    for c'' sk'' u'' r
    using inv that by (auto simp: present_inv_def)
  show "presence.member (g_room ?h s) (jwt_sub u')"
    using cases old [of c' sk' u' s] old [of c sk u' s] sk u u' p s shadow grow [of s "jwt_sub u'"] by auto
  show "s \<in> set (sk_rooms sk')"
    using cases old [of c' sk' u' s] old [of c sk u' s] sk u' p s by auto
qed

lemma present_join: "present_inv g \<Longrightarrow> present_inv (on_join e g c sid teach)"
  unfolding on_join_def
proof (rule with_user_pres [where P = present_inv])
  fix sk u
  assume inv: "present_inv g" and sk: "sock g c = Some sk" and u: "sk_user sk = Some u"
  let ?sk' = "\<lambda>t s. sk\<lparr>sk_teaching := t, sk_shadow := s\<rparr>"
  have put: "present_inv (put_sock c (?sk' t s) g)" for t s
    using inv sk by (rule present_put_same) simp_all
  have enter: "present_inv (enter_room e c (?sk' t s) u sid co (put_sock c (?sk' t s) g))"
    if "participant u \<Longrightarrow> \<not> s" for t s co
    using put by (rule present_enter) (simp_all add: u that)
  show "present_inv
     (if sk_authReady sk \<noteq> Some True then g
      else case session_course (g_db g) sid of
        None \<Rightarrow> fail c ''NOT_JOINABLE'' ''Session not found or ended'' g
      | Some (s, co) \<Rightarrow>
          if ls_status s = ENDED then fail c ''NOT_JOINABLE'' ''Session not found or ended'' g
          else
            let isAdmin = (jwt_role u = ORG_ADMIN);
                teaching = (isAdmin \<and> teach);
                isRecorder = (map_option rc_sessionId (jwt_recorder u) = Some sid);
                shadow = ((isAdmin \<and> \<not> teaching) \<or> isRecorder);
                sk' = sk\<lparr>sk_teaching := teaching, sk_shadow := shadow\<rparr>;
                g' = put_sock c sk' g
            in (case join_refusal (g_db g) u sid co of
                  Some msg \<Rightarrow> fail c ''FORBIDDEN'' msg g'
                | None \<Rightarrow> enter_room e c sk' u sid co g'))"
    unfolding Let_def
    by (auto simp: inv put participant_def split: option.splits intro!: enter)
qed

lemma present_handle: "present_inv g \<Longrightarrow> present_inv (handle e g c p)"
proof (cases "is_membership p")
  case True
  then show "present_inv g \<Longrightarrow> present_inv (handle e g c p)"
    by (cases p) (simp_all add: present_join present_leave)
next
  case False
  then show "present_inv g \<Longrightarrow> present_inv (handle e g c p)"
    by (elim present_inv_frame)
      (auto simp: handle_presence sock_frame [OF handle_socks])
qed

lemma present_packet: "present_inv g \<Longrightarrow> present_inv (on_packet e g c p)"
proof (rule on_packet_pres)
  fix sk st
  assume inv: "present_inv g" and sk: "sock g c = Some sk"
  then show put: "present_inv (put_sock c (sk\<lparr>sk_packets := st\<rparr>) g)"
    by (rule present_put_same) simp_all
  show "present_inv (handle e (put_sock c (sk\<lparr>sk_packets := st\<rparr>) g) c p)"
    using put by (rule present_handle)
qed

lemma present_put_new:
  "present_inv g \<Longrightarrow> sk_sessionIds sk = [] \<Longrightarrow> present_inv (put_sock c sk g)"
  by (auto simp: present_inv_def sock_def put_sock_def aput_lookup split: if_splits)

lemma present_connect: "present_inv g \<Longrightarrow> present_inv (on_connect now verify g c t)"
  by (auto simp: on_connect_def present_put_new split: option.splits)

lemma present_account: "present_inv g \<Longrightarrow> present_inv (on_account account g c)"
  unfolding on_account_def
  by (rule with_user_pres)
    (auto simp: present_put_same present_drop split: option.splits)

lemma on_timer_presence: "rs_presence (g_room (on_timer g sid) s) = rs_presence (g_room g s)"
  by (auto simp: on_timer_def timeout_buzzer_def Let_def set_buzzer_state_def split: option.splits)

interpretation present: invariant_system gateway_step present_inv
proof unfold_locales
  fix g and x :: "env \<times> services \<times> message"
  assume inv: "present_inv g"
  obtain e sv m where x: "x = (e, sv, m)" by (cases x)
  have "present_inv (on_timer g sid)" for sid
    using inv by (rule present_inv_frame) (auto simp: on_timer_presence sock_def)
  then show "present_inv (gateway_step g x)"
    using inv unfolding x
    by (cases m) (simp_all add: present_connect present_account present_disconnect present_packet)
qed

lemma present_start: "present_inv (gateway_start d)"
  by (simp add: present_inv_def gateway_start_def sock_def register_ok_def empty_room_def)

section \<open>A class to run\<close>

text \<open>A small database and its people, for the concrete applications of the theorems.\<close>

definition demo_user :: "string \<Rightarrow> role \<Rightarrow> jwt_payload" where
  "demo_user i r = \<lparr>jwt_sub = i, jwt_role = r, jwt_name = i, jwt_email = i, jwt_organizationId = Some ''o'',
     jwt_emailVerified = True, jwt_isSuperAdmin = False, jwt_recorder = None, jwt_preview = None\<rparr>"

definition demo_recorder :: jwt_payload where
  "demo_recorder = (demo_user ''i'' INSTRUCTOR)
     \<lparr>jwt_recorder := Some \<lparr>rc_sessionId = ''s'', rc_recordingId = ''r''\<rparr>\<rparr>"

definition demo_db :: db where
  "demo_db = empty_db\<lparr>
     db_courses := [\<lparr>co_id = ''c'', co_instructorId = Some ''i'', co_organizationId = Some ''o'',
        co_pluginKeys = Some []\<rparr>],
     db_sessions := [\<lparr>ls_id = ''s'', ls_courseId = ''c'', ls_status = LIVE, ls_livekitRoom = ''s''\<rparr>,
        \<lparr>ls_id = ''s2'', ls_courseId = ''c'', ls_status = LIVE, ls_livekitRoom = ''s2''\<rparr>],
     db_enrollments := [\<lparr>en_courseId = ''c'', en_studentId = ''a''\<rparr>, \<lparr>en_courseId = ''c'', en_studentId = ''b''\<rparr>],
     db_quizzes := [\<lparr>qz_id = ''z'', qz_sectionId = None, qz_sessionId = Some ''s'', qz_courseId = Some ''c'',
        qz_type = BUZZER, qz_createdAt = 0\<rparr>],
     db_questions := [\<lparr>qq_id = ''q'', qq_quizId = ''z'', qq_body = ''?'', qq_options = [''x'', ''y''],
        qq_correctIndex = 1, qq_timeLimitSec = 60, qq_points = 25\<rparr>]\<rparr>"

definition demo_env :: env where
  "demo_env = \<lparr>e_now = 0, e_rand = 0, e_newid = ''m'', e_redis_bump = True, e_redis_read = True,
     e_redis_write = True, e_livekit_ok = True, e_zrev = zrev_by_score, e_text = small_text,
     e_seg = unit_segmenter\<rparr>"

text \<open>A token is the id of its user; \<open>rec\<close> is the recorder's.\<close>

definition demo_services :: services where
  "demo_services =
     \<lparr>sv_verify = (\<lambda>t. if t = ''i'' then Some (demo_user ''i'' INSTRUCTOR)
        else if t = ''rec'' then Some demo_recorder
        else if t = ''adm'' then Some (demo_user ''adm'' ORG_ADMIN)
        else if t = ''a'' \<or> t = ''b'' then Some (demo_user t STUDENT) else None),
      sv_account = (\<lambda>_. Some \<lparr>acc_status = ACTIVE, acc_emailVerified = True\<rparr>)\<rparr>"

definition demo_run :: "message list \<Rightarrow> gateway" where
  "demo_run ms = foldl gateway_step (gateway_start demo_db) (map (\<lambda>m. (demo_env, demo_services, m)) ms)"

definition joins :: "string \<Rightarrow> string \<Rightarrow> message list" where
  "joins cid t = [Connect cid (Some t), Account cid, Packet cid (RoomJoin ''s'' False)]"

lemmas demo_defs = demo_run_def demo_db_def demo_env_def demo_services_def demo_user_def
  demo_recorder_def joins_def empty_db_def gateway_start_def

section \<open>Properties\<close>

text \<open>C1: Nobody is ever in a session's room without having been admitted: in every state of every
  run, a socket that has joined a session passed the account check, and its token passes the
  session's rule (the recorder of that very session, the course's own instructor, an admin of the
  same organization, or an enrolled student); a staff room holds no student.\<close>

theorem rooms_hold_admitted_only:
  assumes "sock (foldl gateway_step (gateway_start d) xs) c = Some sk"
  shows "\<exists>u. sk_user sk = Some u \<and> jwt_preview u = None \<and>
     (\<forall>sid \<in> set (sk_sessionIds sk). sk_authReady sk = Some True \<and> authorised d u sid) \<and>
     (\<forall>r \<in> set (sk_rooms sk). r = c \<or> r \<in> set (sk_sessionIds sk) \<or>
        (\<exists>sid. r = staff_room sid \<and> authorised d u sid \<and> jwt_role u \<noteq> STUDENT))"
proof -
  have "members_inv d (foldl gateway_step (gateway_start d) xs)"
    by (rule members.inv_run) (rule members_start)
  then have "sock_ok d c sk" using assms by (rule members_sock)
  then show ?thesis by (fastforce simp: sock_ok_def)
qed

theorem rooms_hold_admitted_only_witness:
  "\<exists>sk u. sock (demo_run (joins ''1'' ''a'')) ''1'' = Some sk \<and> sk_sessionIds sk = [''s''] \<and>
     sk_user sk = Some u \<and> authorised demo_db u ''s''"
proof -
  have "map_option sk_sessionIds (sock (demo_run (joins ''1'' ''a'')) ''1'') = Some [''s'']"
    by code_simp
  then obtain sk where sk: "sock (demo_run (joins ''1'' ''a'')) ''1'' = Some sk" "sk_sessionIds sk = [''s'']"
    by auto
  show ?thesis
    using rooms_hold_admitted_only [OF sk(1) [unfolded demo_run_def]] sk by auto
qed

text \<open>C2: As long as a participant (a student or an instructor with an ordinary token) has a live
  socket that joined a session, the session's presence list shows them, and shows each user once:
  a reconnect, a second tab or another socket's departure never erases them.\<close>

theorem participants_stay_present:
  assumes "g = foldl gateway_step (gateway_start d) xs"
    and "sock g c = Some sk" and "sk_user sk = Some u" and "participant u"
    and "sid \<in> set (sk_sessionIds sk)"
  shows "jwt_sub u \<in> ru_userId ` set (list_presence (g_room g sid)) \<and>
    distinct (map ru_userId (list_presence (g_room g sid)))"
proof (intro conjI)
  have inv: "present_inv g" unfolding assms(1) by (rule present.inv_run) (rule present_start)
  then show "jwt_sub u \<in> ru_userId ` set (list_presence (g_room g sid))"
    using assms(2-5) by (auto simp: present_inv_def presence.member_def)
  show "distinct (map ru_userId (list_presence (g_room g sid)))"
    using inv by (intro presence.one_each) (simp add: present_inv_def)
qed

theorem participants_stay_present_witness:
  "''a'' \<in> ru_userId ` set (list_presence (g_room
     (demo_run (joins ''1'' ''a'' @ joins ''2'' ''a'' @ [Disconnect ''1''])) ''s''))"
proof -
  let ?g = "demo_run (joins ''1'' ''a'' @ joins ''2'' ''a'' @ [Disconnect ''1''])"
  have "map_option (\<lambda>sk. (sk_user sk, sk_sessionIds sk)) (sock ?g ''2'')
      = Some (Some (demo_user ''a'' STUDENT), [''s''])"
    by code_simp
  then obtain sk where sk: "sock ?g ''2'' = Some sk" "sk_user sk = Some (demo_user ''a'' STUDENT)"
    "sk_sessionIds sk = [''s'']" by auto
  have p: "participant (demo_user ''a'' STUDENT)" by (simp add: participant_def demo_user_def)
  show ?thesis
    using participants_stay_present [OF demo_run_def sk(1,2) p, of "''s''"] sk(3)
    by (simp add: demo_user_def)
qed

end
