(* ===== verification/RoomStage.thy ===== *)
theory RoomStage
  imports RoomMembership
begin

text \<open>
  What a session's room holds and who can change it: the live annotations stay within the ceiling
  and well formed, the mushaf position stays a position, hands and speakers are listed once; and
  the lock, the view, the theme, the marks, the speakers and the opening of a question are the
  host's. Then the recorder's and the account check's edge cases.
\<close>

section \<open>The room invariant\<close>

definition annotation_ok :: "quran_text \<Rightarrow> segmenter \<Rightarrow> tajweed_temporary \<Rightarrow> bool" where
  "annotation_ok t seg a \<longleftrightarrow>
     annotation_id_ok (tt_id a) \<and> tt_rule a \<in> set tajweed_rule_keys \<and>
     (\<exists>refs. validate_parts t seg refs = Inr (tt_parts a)) \<and>
     (tt_rule a = ''custom'' \<longrightarrow> tt_customLabel a \<noteq> None) \<and>
     (\<forall>l. tt_customLabel a = Some l \<longrightarrow> length l \<le> 60) \<and>
     (\<forall>l. tt_note a = Some l \<longrightarrow> length l \<le> 1000) \<and>
     tt_style a \<in> {''UNDERLINE'', ''HIGHLIGHT''}"

definition position_ok :: "quran_position \<Rightarrow> bool" where
  "position_ok p \<longleftrightarrow> 1 \<le> qp_surah p \<and> qp_surah p \<le> 114 \<and> 1 \<le> qp_ayah p"

definition room_ok :: "quran_text \<Rightarrow> segmenter \<Rightarrow> room_state \<Rightarrow> bool" where
  "room_ok t seg r \<longleftrightarrow>
     length (rs_tajweed r) \<le> tajweed_live_max \<and> distinct (akeys (rs_tajweed r)) \<and>
     (\<forall>(k, a) \<in> set (rs_tajweed r). tt_id a = k \<and> annotation_ok t seg a) \<and>
     (\<forall>p. rs_quran r = Some p \<longrightarrow> position_ok p) \<and>
     register_ok (rs_hands r) \<and> distinct (rs_speakers r)"

text \<open>Hifz rows are validated where they are written: a recitation ends at a real place.\<close>

definition hifz_ok :: "db \<Rightarrow> bool" where
  "hifz_ok d \<longleftrightarrow> list_all (\<lambda>h. 1 \<le> hf_surahNumber h \<and> hf_surahNumber h \<le> 114 \<and> 1 \<le> hf_ayahEnd h) (db_hifz d)"

lemma room_ok_empty: "room_ok t seg empty_room"
  by (simp add: room_ok_def empty_room_def tajweed_live_max_def register_ok_def)

lemma distinct_sadd [simp]: "distinct xs \<Longrightarrow> distinct (sadd x xs)"
  by (simp add: sadd_def)

lemma room_ok_simple [simp]:
  "room_ok t seg (add_presence r u) = room_ok t seg r"
  "room_ok t seg (remove_presence r i) = room_ok t seg r"
  "room_ok t seg (set_chat_lock r b) = room_ok t seg r"
  "room_ok t seg (set_view r v) = room_ok t seg r"
  "room_ok t seg (set_theme r v) = room_ok t seg r"
  "room_ok t seg (set_tajweed_pointing r ps) = room_ok t seg r"
  "room_ok t seg (set_buzzer_state r bs) = room_ok t seg r"
  "room_ok t seg (clear_buzzer_answered r) = room_ok t seg r"
  by (simp_all add: room_ok_def room_ops)

lemma room_ok_hands:
  assumes "room_ok t seg r"
  shows "room_ok t seg (raise_hand r u)" "room_ok t seg (lower_hand r i)" "room_ok t seg (clear_hands r)"
  using assms by (simp_all add: room_ok_def room_ops register_put register_del) (simp add: register_ok_def)

lemma room_ok_mic:
  assumes "room_ok t seg r"
  shows "room_ok t seg (grant_mic r i)" "room_ok t seg (revoke_mic r i)"
  using assms by (simp_all add: room_ok_def room_ops distinct_removeAll)

lemma room_ok_position: "room_ok t seg r \<Longrightarrow> position_ok p \<Longrightarrow> room_ok t seg (set_quran_pos r p)"
  by (simp add: room_ok_def room_ops)

lemma room_ok_expire: "room_ok t seg r \<Longrightarrow> room_ok t seg (fst (list_tajweed_temporary now r))"
  by (auto simp: room_ok_def list_tajweed_temporary_def filter_keys_distinct
      intro: order_trans [OF length_filter_le])

lemma room_ok_clear: "room_ok t seg r \<Longrightarrow> room_ok t seg (clear_tajweed_temporary r i)"
  by (auto simp: room_ok_def clear_tajweed_temporary_def adel_set distinct_delete
      intro: order_trans [OF length_delete_le] split: option.splits)

lemma room_ok_annotate:
  assumes "room_ok t seg r" and "annotation_ok t seg a"
  shows "room_ok t seg (fst (set_tajweed_temporary r a))"
  using assms
  by (auto simp: room_ok_def set_tajweed_temporary_def Let_def aput_set aput_length distinct_update)

lemma room_ok_answered: "room_ok t seg r \<Longrightarrow> room_ok t seg (fst (mark_buzzer_answered r u))"
  by (simp add: room_ok_def mark_buzzer_answered_def)

lemmas room_ok_intros =
  room_ok_hands room_ok_mic room_ok_position room_ok_expire room_ok_clear room_ok_annotate
  room_ok_answered

definition room_inv :: "quran_text \<Rightarrow> segmenter \<Rightarrow> gateway \<Rightarrow> bool" where
  "room_inv t seg g \<longleftrightarrow> hifz_ok (g_db g) \<and> (\<forall>sid. room_ok t seg (g_room g sid))"

lemma room_inv_room: "room_inv t seg g \<Longrightarrow> room_ok t seg (g_room g sid)"
  by (simp add: room_inv_def)

lemma room_inv_same:
  "room_inv t seg g \<Longrightarrow> g_room h = g_room g \<Longrightarrow> db_hifz (g_db h) = db_hifz (g_db g) \<Longrightarrow> room_inv t seg h"
  by (simp add: room_inv_def hifz_ok_def)

lemma room_inv_emit [simp]:
  "room_inv t seg (emit to ev g) = room_inv t seg g"
  "room_inv t seg (fail c code m g) = room_inv t seg g"
  "room_inv t seg (put_sock c sk g) = room_inv t seg g"
  "room_inv t seg (clear_timer sid g) = room_inv t seg g"
  "room_inv t seg (g\<lparr>g_timers := tm\<rparr>) = room_inv t seg g"
  by (simp_all add: room_inv_def)

lemma room_inv_upd:
  "room_inv t seg g \<Longrightarrow> room_ok t seg (f (g_room g sid)) \<Longrightarrow> room_inv t seg (upd_room sid f g)"
  by (simp add: room_inv_def)

lemma room_inv_send [intro]:
  "room_inv t seg g \<Longrightarrow> room_inv t seg (send_tajweed_temporary now to sid g)"
  by (simp add: room_inv_def room_ok_expire)

lemma room_inv_answer:
  assumes "room_inv t seg g"
  shows "room_inv t seg (answer_record e c u q i g)" "room_inv t seg (answer_win e sid sk u q co l g)"
    "room_inv t seg (post_chat e c sid sk u b a g)"
  using assms
  by (auto simp: room_inv_def answer_record_def post_chat_def create_answer_def hifz_ok_def
      split: option.splits)

lemma anchor_ok:
  assumes "hifz_ok d" and "last_recitation_anchor d c = Some p"
  shows "position_ok p"
proof -
  obtain h hs where hs: "sort_key (\<lambda>h. - hf_recordedAt h) (filter (\<lambda>h. hf_courseId h = c) (db_hifz d)) = h # hs"
    and p: "p = \<lparr>qp_surah = hf_surahNumber h, qp_ayah = hf_ayahEnd h\<rparr>"
    using assms(2) by (auto simp: last_recitation_anchor_def split: list.splits)
  have "h \<in> set (sort_key (\<lambda>h. - hf_recordedAt h) (filter (\<lambda>h. hf_courseId h = c) (db_hifz d)))"
    by (simp only: hs) simp
  then show ?thesis using assms(1) by (auto simp: p hifz_ok_def position_ok_def list_all_iff)
qed

lemma clamp_ok: "position_ok (clamp_position su ay)"
  by (simp add: clamp_position_def position_ok_def)

lemma clean_text_length: "clean_text v n = Some l \<Longrightarrow> length l \<le> n"
  by (erule clean_text_Some) simp

lemma live_annotation_ok:
  assumes "live_annotation e a = Inr ann"
  shows "annotation_ok (e_text e) (e_seg e) ann"
proof -
  obtain i parts where i: "tr_id a = Some i" "annotation_id_ok i" and r: "is_tajweed_rule (tr_rule a)"
    and v: "validate_parts (e_text e) (e_seg e) (tr_parts a) = Inr parts"
    and c: "\<not> (tr_rule a = Some ''custom'' \<and> clean_text (tr_customLabel a) 60 = None)"
    and f: "tt_id ann = i" "tt_rule ann = the (tr_rule a)" "tt_parts ann = parts"
      "tt_customLabel ann = clean_text (tr_customLabel a) 60" "tt_note ann = clean_text (tr_note a) 1000"
      "tt_style ann \<in> {''UNDERLINE'', ''HIGHLIGHT''}"
    using assms by (auto simp: live_annotation_def Let_def split: option.splits if_splits sum.splits)
  from r obtain k where k: "tr_rule a = Some k" "k \<in> set tajweed_rule_keys"
    by (auto simp: is_tajweed_rule_def split: option.splits)
  show ?thesis
    unfolding annotation_ok_def using i v c f k by (auto dest: clean_text_length)
qed

lemma room_inv_leave:
  "room_inv t seg g \<Longrightarrow> room_inv t seg (remove_departed u sid g)"
  by (simp add: room_inv_def room_ok_hands)

lemma room_inv_depart:
  "room_inv t seg g \<Longrightarrow> room_inv t seg (foldl (depart c sh u) g sids)"
  by (induction sids arbitrary: g) (simp_all add: depart_def room_inv_leave)

lemma room_inv_disconnect: "room_inv t seg g \<Longrightarrow> room_inv t seg (on_disconnect g c)"
proof -
  assume "room_inv t seg g"
  then have "room_inv t seg (g\<lparr>g_socks := adel c (g_socks g)\<rparr>)" by (simp add: room_inv_def)
  then show ?thesis
    using \<open>room_inv t seg g\<close>
    by (auto simp: on_disconnect_def Let_def room_inv_depart split: option.splits)
qed

lemma room_inv_enter:
  assumes "room_inv t seg g"
  shows "room_inv t seg (enter_room e c sk u sid co g)"
proof -
  have seed: "room_inv t seg (upd_room s (\<lambda>r. set_quran_pos r a) h)"
    if "room_inv t seg h" "last_recitation_anchor (g_db h) i = Some a" for s h a i
    using that by (auto simp: room_inv_def intro!: room_ok_position anchor_ok)
  have send: "room_inv t seg (send_room_state e c sid co h)" if "room_inv t seg h" for h
    using that
    by (auto simp: send_room_state_def broadcast_defs Let_def split: option.splits
        intro!: room_inv_send seed)
  show ?thesis
    using assms by (auto simp: enter_room_def broadcast_defs Let_def intro!: send room_inv_upd room_inv_room)
qed

lemma room_inv_handle:
  assumes "room_inv t seg g" and "e_text e = t" and "e_seg e = seg"
  shows "room_inv t seg (handle e g c p)"
proof -
  note room = room_inv_room [OF assms(1)]
  have ann: "room_ok t seg r'"
    if "live_annotation e a = Inr x" "set_tajweed_temporary (g_room g sid) x = (r', b)" for a x r' b sid
    using room_ok_annotate [OF room live_annotation_ok [OF that(1), unfolded assms(2,3)], of sid] that(2)
    by simp
  have mark: "room_ok t seg r'" if "mark_buzzer_answered (g_room g sid) u = (r', b)" for r' b sid u
    using room_ok_answered [OF room, of sid u] that by simp
  show ?thesis
    by (cases p)
      (auto simp: handlers broadcast_defs Let_def assms clamp_ok
        split: option.splits sum.splits prod.splits
        intro!: as_owner_pres [where P = "room_inv t seg"] with_user_pres [where P = "room_inv t seg"]
          room_inv_upd room_inv_send room_inv_answer room_inv_leave room_inv_enter room_ok_intros room
        dest: ann mark)
qed

text \<open>A run on one mushaf text: the text and its segmentation are the same in every step.\<close>

definition with_mushaf :: "quran_text \<Rightarrow> segmenter \<Rightarrow> env \<times> services \<times> message \<Rightarrow> env \<times> services \<times> message" where
  "with_mushaf t seg = (\<lambda>(e, sv, m). (e\<lparr>e_text := t, e_seg := seg\<rparr>, sv, m))"

interpretation stage: invariant_system "\<lambda>g x. gateway_step g (with_mushaf t seg x)" "room_inv t seg"
proof unfold_locales
  fix g and x :: "env \<times> services \<times> message"
  assume inv: "room_inv t seg g"
  obtain e sv m where x: "x = (e, sv, m)" by (cases x)
  let ?e = "e\<lparr>e_text := t, e_seg := seg\<rparr>"
  have packet: "room_inv t seg (on_packet ?e g c p)" for c p
    unfolding on_packet_def
    by (rule with_user_pres [where P = "room_inv t seg"])
      (use inv in \<open>auto simp: Let_def split: prod.splits intro!: room_inv_handle\<close>)
  have account: "room_inv t seg (on_account f g c)" for f c
    unfolding on_account_def
    by (rule with_user_pres [where P = "room_inv t seg"]) (use inv in \<open>auto simp: room_inv_def split: option.splits\<close>)
  have timer: "room_inv t seg (on_timer g sid)" for sid
    using inv room_inv_room [OF inv]
    by (auto simp: on_timer_def timeout_buzzer_def Let_def split: option.splits intro!: room_inv_upd)
  show "room_inv t seg (gateway_step g (with_mushaf t seg x))"
    using inv unfolding x with_mushaf_def
    by (cases m)
      (auto simp: packet account timer room_inv_disconnect on_connect_def split: option.splits)
qed

lemma room_inv_run:
  assumes "hifz_ok d" and "\<forall>x \<in> set xs. e_text (fst x) = t \<and> e_seg (fst x) = seg"
  shows "room_inv t seg (foldl gateway_step (gateway_start d) xs)"
proof -
  have "with_mushaf t seg x = x" if "x \<in> set xs" for x
    using assms(2) that by (cases x) (auto simp: with_mushaf_def)
  then have "foldl gateway_step (gateway_start d) xs =
      foldl (\<lambda>g x. gateway_step g (with_mushaf t seg x)) (gateway_start d) xs"
    by (intro foldl_cong) auto
  moreover have "room_inv t seg (gateway_start d)"
    using assms(1) by (simp add: room_inv_def gateway_start_def room_ok_empty)
  ultimately show ?thesis by (simp add: stage.inv_run)
qed

section \<open>What only the host can do\<close>

definition owns :: "gateway \<Rightarrow> string \<Rightarrow> string \<Rightarrow> bool" where
  "owns g c sid \<longleftrightarrow>
     (\<exists>sk u s co. sock g c = Some sk \<and> sk_user sk = Some u \<and> owned_session (g_db g) sk u sid = Inr (s, co))"

definition question_open :: "room_state \<Rightarrow> bool" where
  "question_open r \<longleftrightarrow> map_option bz_phase (rs_buzzer r) = Some QUESTION_OPEN"

text \<open>What the host alone may do to a room: lock or unlock, change the view, the theme or the
  pointed words, let someone speak, add or redraw an annotation, open a question.\<close>

definition stage_gained :: "room_state \<Rightarrow> room_state \<Rightarrow> bool" where
  "stage_gained r r' \<longleftrightarrow>
     rs_chatlock r' \<noteq> rs_chatlock r \<or> rs_view r' \<noteq> rs_view r \<or> rs_theme r' \<noteq> rs_theme r \<or>
     rs_pointing r' \<noteq> rs_pointing r \<or> \<not> set (rs_speakers r') \<subseteq> set (rs_speakers r) \<or>
     \<not> set (rs_tajweed r') \<subseteq> set (rs_tajweed r) \<or> (question_open r' \<and> rs_buzzer r' \<noteq> rs_buzzer r)"

lemma stage_same [simp]: "\<not> stage_gained r r"
  by (simp add: stage_gained_def)

lemma stage_untouched [simp]:
  "stage_gained r (add_presence r' u) = stage_gained r r'"
  "stage_gained r (remove_presence r' i) = stage_gained r r'"
  "stage_gained r (raise_hand r' u) = stage_gained r r'"
  "stage_gained r (lower_hand r' i) = stage_gained r r'"
  "stage_gained r (set_quran_pos r' p) = stage_gained r r'"
  "stage_gained r (fst (mark_buzzer_answered r' i)) = stage_gained r r'"
  by (simp_all add: stage_gained_def room_ops question_open_def mark_buzzer_answered_def)

lemma stage_harmless [simp]:
  "\<not> stage_gained r r' \<Longrightarrow> \<not> stage_gained r (revoke_mic r' j)"
  "\<not> stage_gained r r' \<Longrightarrow> \<not> stage_gained r (fst (list_tajweed_temporary now r'))"
  "\<not> stage_gained r r' \<Longrightarrow> bz_phase b \<noteq> QUESTION_OPEN \<Longrightarrow> \<not> stage_gained r (set_buzzer_state r' b)"
  by (auto simp: stage_gained_def room_ops question_open_def list_tajweed_temporary_def)

lemma stage_trans: "\<not> stage_gained r r' \<Longrightarrow> \<not> stage_gained r' r'' \<Longrightarrow> \<not> stage_gained r r''"
  unfolding stage_gained_def question_open_def by (elim de_Morgan_disj [THEN iffD1, elim_format]) auto

definition calm :: "gateway \<Rightarrow> gateway \<Rightarrow> bool" where
  "calm g h \<longleftrightarrow> (\<forall>sid. \<not> stage_gained (g_room g sid) (g_room h sid))"

lemma calm_trans: "calm g h \<Longrightarrow> calm h k \<Longrightarrow> calm g k"
  unfolding calm_def by (meson stage_trans)

lemma calm_same [simp]: "g_room h = g_room g \<Longrightarrow> calm g h"
  by (simp add: calm_def)

lemma calm_frame [simp]:
  "calm g (emit to ev h) = calm g h" "calm g (fail c code m h) = calm g h"
  "calm g (put_sock c sk h) = calm g h" "calm g (clear_timer sid h) = calm g h"
  "calm g (answer_record e c u q i h) = calm g h" "calm g (post_chat e c sid sk u bd a h) = calm g h"
  "calm (put_sock c sk g) h = calm g h"
  by (simp_all add: calm_def)

lemma calm_upd:
  "calm g h \<Longrightarrow> \<not> stage_gained (g_room g sid) (f (g_room h sid)) \<Longrightarrow> calm g (upd_room sid f h)"
  by (simp add: calm_def)

lemma calm_removed: "calm g h \<Longrightarrow> calm g (remove_departed u sid h)"
  by (simp add: calm_def)

lemma calm_win: "calm g h \<Longrightarrow> calm g (answer_win e sid sk u q c l h)"
  by (simp add: calm_def winner_state_def)

lemma calm_depart: "calm g (foldl (depart c sh u) g sids)"
proof (induction sids arbitrary: g)
  case (Cons s sids)
  have "calm g (depart c sh u g s)" by (simp add: depart_def calm_def)
  then show ?case using Cons.IH [of "depart c sh u g s"] by (auto intro: calm_trans)
qed simp

lemma calm_enter: "calm g (enter_room e c sk u sid co g)"
  unfolding calm_def enter_room_def send_room_state_def
  by (auto simp: broadcast_defs Let_def split: option.splits)

text \<open>The packets only the host of a session may send, with the session.\<close>

fun host_packet :: "packet \<Rightarrow> string option" where
  "host_packet (ChatLock sid _) = Some sid"
| "host_packet (ViewChange sid _) = Some sid"
| "host_packet (ThemeChange sid _) = Some sid"
| "host_packet (QuranNavigate sid _ _) = Some sid"
| "host_packet (TajweedSet sid _) = Some sid"
| "host_packet (TajweedClear sid _) = Some sid"
| "host_packet (PointingSet sid _) = Some sid"
| "host_packet (PointingClear sid) = Some sid"
| "host_packet (PickRandom sid) = Some sid"
| "host_packet (BuzzerStart sid _) = Some sid"
| "host_packet (ScreenShare sid _ _) = Some sid"
| "host_packet (MicGrant sid _) = Some sid"
| "host_packet (MicRevoke sid _) = Some sid"
| "host_packet _ = None"

lemma as_owner_refused:
  "\<not> owns g c sid \<Longrightarrow> as_owner c sid g k = g \<or> (\<exists>msg. as_owner c sid g k = fail c ''FORBIDDEN'' msg g)"
  using as_owner_cases [of c sid g k] unfolding owns_def by blast

text \<open>A host packet either is refused with at most an error to its sender, or touches its own
  session alone.\<close>

lemma host_refused:
  assumes "host_packet p = Some sid" and "\<not> owns g c sid"
  shows "handle e g c p = g \<or> (\<exists>msg. handle e g c p = fail c ''FORBIDDEN'' msg g)"
  using assms
  by (cases p) (simp_all add: handlers as_owner_refused)

lemma host_other:
  assumes "host_packet p = Some sid" and "sid' \<noteq> sid"
  shows "g_room (handle e g c p) sid' = g_room g sid'"
  using assms
  by (cases p)
    (auto simp: handlers broadcast_defs Let_def split: option.splits sum.splits prod.splits
      intro!: as_owner_pres [where P = "\<lambda>h. g_room h sid' = g_room g sid'"])

lemma guest_calm:
  assumes "host_packet p = None"
  shows "calm g (handle e g c p)"
proof -
  have enter: "calm g (enter_room e c sk u sid co (put_sock c' sk' g))" for c sk u sid co c' sk'
    using calm_enter [of "put_sock c' sk' g"] by simp
  show ?thesis
    using assms
    by (cases p)
      (auto simp: handlers broadcast_defs Let_def case_prod_beta
        split: option.splits
        intro!: with_user_pres [where P = "calm g"] calm_upd calm_removed calm_win enter)
qed

lemma on_packet_cases:
  "on_packet e g c p = g \<or>
   (\<exists>sk u st. sock g c = Some sk \<and> sk_user sk = Some u \<and>
      (on_packet e g c p = put_sock c (sk\<lparr>sk_packets := st\<rparr>) g \<or>
       on_packet e g c p = handle e (put_sock c (sk\<lparr>sk_packets := st\<rparr>) g) c p))"
proof (cases "sock g c")
  case (Some sk)
  then show ?thesis
    by (cases "sk_user sk"; cases "packet_limit (e_now e) (sk_packets sk)"; cases "snd (packet_limit (e_now e) (sk_packets sk))")
      (auto simp: on_packet_def with_user_def Let_def)
qed (simp add: on_packet_def with_user_def)

text \<open>What the host alone changes in a room, only a step of its host changes.\<close>

lemma stage_step:
  assumes "stage_gained (g_room g sid) (g_room (gateway_step g (e, sv, m)) sid)"
  shows "\<exists>c p. m = Packet c p \<and> host_packet p = Some sid \<and> owns g c sid"
proof -
  have calm: "\<not> calm g (gateway_step g (e, sv, m))" using assms by (auto simp: calm_def)
  have account: "calm g (on_account f g c)" for f c
    unfolding on_account_def
    by (rule with_user_pres [where P = "calm g"]) (auto simp: calm_def split: option.splits)
  have timer: "calm g (on_timer g s)" for s
    by (auto simp: on_timer_def timeout_buzzer_def Let_def calm_def split: option.splits)
  have gone: "calm g (on_disconnect g c)" for c
    using calm_depart [of "g\<lparr>g_socks := h\<rparr>" for h] 
    by (auto simp: on_disconnect_def Let_def calm_def split: option.splits)
  obtain c p where m: "m = Packet c p"
    using calm account timer gone by (cases m) (auto simp: on_connect_def split: option.splits)
  have "\<not> calm g (on_packet e g c p)" using calm m by simp
  then obtain sk u st where sk: "sock g c = Some sk" "sk_user sk = Some u"
    and h: "on_packet e g c p = handle e (put_sock c (sk\<lparr>sk_packets := st\<rparr>) g) c p"
    using on_packet_cases [of e g c p] by auto
  let ?g = "put_sock c (sk\<lparr>sk_packets := st\<rparr>) g"
  have gained: "stage_gained (g_room ?g sid) (g_room (handle e ?g c p) sid)"
    using assms h m by simp
  then have host: "host_packet p = Some sid"
    using guest_calm [of p ?g e c] host_other [of p _ sid e ?g c]
    by (cases "host_packet p") (fastforce simp: calm_def)+
  moreover have "owns ?g c sid"
    using gained host_refused [OF host, of ?g c e] by (cases "owns ?g c sid") auto
  then have "owns g c sid" using sk by (auto simp: owns_def owned_session_def Let_def cong: if_cong)
  ultimately show ?thesis using m by blast
qed

section \<open>Chat rows\<close>

text \<open>The row a chat packet of a socket stands for.\<close>

definition chat_row_of :: "env \<Rightarrow> jwt_payload \<Rightarrow> string \<Rightarrow> string \<Rightarrow> string option \<Rightarrow> chat_row" where
  "chat_row_of e u sid body audio =
     \<lparr>cm_id = e_newid e, cm_sessionId = sid, cm_userId = jwt_sub u, cm_body = body,
      cm_audioUrl = audio, cm_createdAt = e_now e\<rparr>"

definition chat_grows :: "gateway \<Rightarrow> env \<Rightarrow> string \<Rightarrow> packet \<Rightarrow> gateway \<Rightarrow> bool" where
  "chat_grows g e c p h \<longleftrightarrow>
     (\<exists>sk u sid body audio.
        sock g c = Some sk \<and> sk_user sk = Some u \<and> sid \<in> set (sk_rooms sk) \<and>
        (is_chat_locked (g_room g sid) \<longrightarrow> acting_role sk u = INSTRUCTOR) \<and>
        db_chat (g_db h) = db_chat (g_db g) @ [chat_row_of e u sid body audio] \<and>
        ((\<exists>t. p = ChatSend sid t \<and> body = trim t \<and> body \<noteq> [] \<and> length body \<le> 2000 \<and> audio = None) \<or>
         (\<exists>url. p = ChatVoice sid url \<and> body = [] \<and> audio = Some (trim url) \<and> voice_url_ok (trim url))))"

lemma post_chat_rows:
  "db_chat (g_db (post_chat e c sid sk u b a g)) =
     (if find_session (g_db g) sid = None then db_chat (g_db g)
      else db_chat (g_db g) @ [chat_row_of e u sid b a])"
  by (simp add: post_chat_def Let_def chat_row_of_def)

lemma answer_record_chat [simp]: "db_chat (g_db (answer_record e c u q i g)) = db_chat (g_db g)"
  by (auto simp: answer_record_def Let_def create_answer_def split: option.splits)

lemma handle_chat:
  "db_chat (g_db (handle e g c p)) = db_chat (g_db g) \<or> chat_grows g e c p (handle e g c p)"
proof (cases "\<exists>sid b. p = ChatSend sid b \<or> p = ChatVoice sid b")
  case True
  then show ?thesis
    by (auto simp: handlers with_user_def Let_def post_chat_rows chat_grows_def in_room_def
        chat_blocked_def split: option.splits)
next
  case False
  then have "db_chat (g_db (handle e g c p)) = db_chat (g_db g)"
    by (cases p)
      (auto simp: handlers broadcast_defs Let_def case_prod_beta split: option.splits sum.splits
        intro!: as_owner_pres [where P = "\<lambda>h. db_chat (g_db h) = db_chat (g_db g)"]
          with_user_pres [where P = "\<lambda>h. db_chat (g_db h) = db_chat (g_db g)"])
  then show ?thesis ..
qed

lemma depart_db: "g_db (foldl (depart c sh u) g sids) = g_db g"
  by (induction sids arbitrary: g) (simp_all add: depart_def)

lemma quiet_db:
  "g_db (on_connect n v g c t) = g_db g" "g_db (on_account f g c) = g_db g"
  "g_db (on_disconnect g c) = g_db g" "g_db (on_timer g s) = g_db g"
  by (auto simp: on_connect_def on_account_def with_user_def on_disconnect_def on_timer_def
      timeout_buzzer_def Let_def depart_db split: option.splits)

section \<open>Properties\<close>

text \<open>C3: What only the host of a session does to its stage: if a step locks or unlocks the chat,
  changes the view, the theme or the pointed words, lets somebody speak, adds or redraws a live
  annotation or opens a question (what takes away, as a hand that is lowered, a winning answer or a
  timer, is not meant), then it is a host packet for that very session
  from a socket whose user owns it (the course's instructor, or an admin of the organization in
  teach mode).\<close>

theorem only_the_host_runs_the_stage:
  assumes "stage_gained (g_room g sid) (g_room (gateway_step g (e, sv, m)) sid)"
  shows "\<exists>c p sk u s co. m = Packet c p \<and> host_packet p = Some sid \<and> sock g c = Some sk \<and>
     sk_user sk = Some u \<and> session_course (g_db g) sid = Some (s, co) \<and>
     (jwt_role u = INSTRUCTOR \<and> co_instructorId co = Some (jwt_sub u) \<or>
      jwt_role u = ORG_ADMIN \<and> sk_teaching sk \<and> co_organizationId co = jwt_organizationId u)"
proof -
  obtain c p where "m = Packet c p" "host_packet p = Some sid" "owns g c sid"
    using stage_step [OF assms] by blast
  then show ?thesis
    by (auto simp: owns_def owned_session_def Let_def split: if_splits option.splits)
qed

theorem only_the_host_runs_the_stage_witness:
  "\<exists>c p sk u s co. Packet ''1'' (ChatLock ''s'' True) = Packet c p \<and> host_packet p = Some ''s'' \<and>
     sock (demo_run (joins ''1'' ''i'')) c = Some sk \<and>
     sk_user sk = Some u \<and> session_course (g_db (demo_run (joins ''1'' ''i''))) ''s'' = Some (s, co) \<and>
     (jwt_role u = INSTRUCTOR \<and> co_instructorId co = Some (jwt_sub u) \<or>
      jwt_role u = ORG_ADMIN \<and> sk_teaching sk \<and> co_organizationId co = jwt_organizationId u)"
proof -
  have "rs_chatlock (g_room (demo_run (joins ''1'' ''i'')) ''s'') = False"
    "rs_chatlock (g_room (gateway_step (demo_run (joins ''1'' ''i''))
       (demo_env, demo_services, Packet ''1'' (ChatLock ''s'' True))) ''s'') = True"
    by code_simp+
  then have "stage_gained (g_room (demo_run (joins ''1'' ''i'')) ''s'')
     (g_room (gateway_step (demo_run (joins ''1'' ''i''))
       (demo_env, demo_services, Packet ''1'' (ChatLock ''s'' True))) ''s'')"
    unfolding stage_gained_def by simp
  then show ?thesis by (rule only_the_host_runs_the_stage)
qed

text \<open>C4: A room stays within its bounds in every run: never more than fifty live annotations, each
  filed under its own id and well formed (a known rule, parts in normal form, a label when the
  rule is custom), the shared mushaf between surah 1 and 114 and at a positive ayah, hands raised
  once per user and speakers listed once.\<close>

theorem rooms_stay_within_bounds:
  assumes "hifz_ok d" and "\<forall>x \<in> set xs. e_text (fst x) = t \<and> e_seg (fst x) = seg"
  shows "let r = g_room (foldl gateway_step (gateway_start d) xs) sid in
     length (rs_tajweed r) \<le> 50 \<and> distinct (akeys (rs_tajweed r)) \<and>
     (\<forall>(k, a) \<in> set (rs_tajweed r). tt_id a = k \<and> annotation_ok t seg a) \<and>
     (\<forall>p. rs_quran r = Some p \<longrightarrow> position_ok p) \<and>
     distinct (map ru_userId (list_hands r)) \<and> distinct (list_speakers r)"
proof -
  have "room_ok t seg (g_room (foldl gateway_step (gateway_start d) xs) sid)"
    using room_inv_run [OF assms] by (rule room_inv_room)
  then show ?thesis
    using hands.one_each unfolding room_ok_def Let_def tajweed_live_max_def list_speakers_def by simp
qed

theorem rooms_stay_within_bounds_witness:
  "let r = g_room (demo_run (joins ''1'' ''i'')) ''s'' in
     length (rs_tajweed r) \<le> 50 \<and> distinct (akeys (rs_tajweed r)) \<and>
     (\<forall>(k, a) \<in> set (rs_tajweed r). tt_id a = k \<and> annotation_ok small_text unit_segmenter a) \<and>
     (\<forall>p. rs_quran r = Some p \<longrightarrow> position_ok p) \<and>
     distinct (map ru_userId (list_hands r)) \<and> distinct (list_speakers r)"
  unfolding demo_run_def
  by (rule rooms_stay_within_bounds) (auto simp: demo_db_def empty_db_def hifz_ok_def demo_env_def)

text \<open>A chat row is what a member of the room sent: the chat table changes only by one row
  appended, the row of a chat packet from a socket in that session's room, whose body is the
  trimmed text of one to two thousand characters, or whose voice note is a stored file's address,
  and only the host posts while the chat is locked.\<close>

theorem chat_rows_are_sent_by_members:
  assumes "db_chat (g_db (gateway_step g (e, sv, m))) \<noteq> db_chat (g_db g)"
  shows "\<exists>c p. m = Packet c p \<and> chat_grows g e c p (gateway_step g (e, sv, m))"
proof -
  obtain c p where m: "m = Packet c p"
    using assms by (cases m) (simp_all add: quiet_db)
  have "db_chat (g_db (on_packet e g c p)) \<noteq> db_chat (g_db g)" using assms m by simp
  then obtain sk u st where "sock g c = Some sk" and
    h: "on_packet e g c p = handle e (put_sock c (sk\<lparr>sk_packets := st\<rparr>) g) c p"
    using on_packet_cases [of e g c p] by auto
  moreover have "chat_grows (put_sock c (sk\<lparr>sk_packets := st\<rparr>) g) e c p (on_packet e g c p)"
    using handle_chat [of e "put_sock c (sk\<lparr>sk_packets := st\<rparr>) g" c p] assms m h by simp
  ultimately show ?thesis using m by (auto simp: chat_grows_def acting_role_def)
qed

theorem chat_rows_are_sent_by_members_witness:
  "\<exists>c p. Packet ''1'' (ChatSend ''s'' '' hi '') = Packet c p \<and>
     chat_grows (demo_run (joins ''1'' ''a'')) demo_env c p (gateway_step (demo_run (joins ''1'' ''a''))
       (demo_env, demo_services, Packet ''1'' (ChatSend ''s'' '' hi '')))"
  by (rule chat_rows_are_sent_by_members) code_simp

end
