(* ===== verification/RoomEdges.thy ===== *)
theory RoomEdges
  imports RoomStage
begin

text \<open>
  Edge cases of the gateway where what the code does is not what its comments say: who holds a
  presence entry up, what a socket may do before its account is checked, and the per-socket flags
  that a second join overwrites.
\<close>

lemma depart_shadow: "foldl (depart c True u) g sids = g"
  by (induction sids) (simp_all add: depart_def)

lemma depart_kept:
  assumes "user_still_in_room g sid u c"
  shows "g_room (foldl (depart c False u) g sids) sid = g_room g sid"
  using assms
proof (induction sids arbitrary: g)
  case (Cons s sids)
  have "g_room (depart c False u g s) sid = g_room g sid"
    using Cons.prems by (cases "s = sid") (auto simp: depart_def)
  moreover have "user_still_in_room (depart c False u g s) sid u c"
    using Cons.prems by (simp add: depart_def user_still_in_room_def)
  ultimately show ?case using Cons.IH by simp
qed simp

lemma still_in_room:
  assumes "sock g r = Some rk" and "r \<noteq> c" and "sid \<in> set (sk_rooms rk)"
    and "map_option jwt_sub (sk_user rk) = Some u"
  shows "user_still_in_room (g\<lparr>g_socks := adel c (g_socks g)\<rparr>) sid u c"
proof -
  have "(r, rk) \<in> set (adel c (g_socks g))"
    using map_of_SomeD [of "adel c (g_socks g)" r rk] assms(1,2) by (simp add: sock_def adel_lookup)
  then show ?thesis using assms by (auto simp: user_still_in_room_def list_ex_iff intro!: bexI)
qed

text \<open>A recorder keeps its instructor's ghost in the room. The recorder's token carries the
  instructor's user id, and the recorder's socket counts as another live socket of that user: if
  the instructor's socket goes first, and then the recorder's, the room is left exactly as it was,
  the instructor's presence entry included, whoever else of them is gone.\<close>

theorem recorder_leaves_a_ghost:
  assumes "sock g c = Some sk" and "sk_user sk = Some u"
    and "sock g r = Some rk" and "r \<noteq> c" and "sk_shadow rk" and "sid \<in> set (sk_rooms rk)"
    and "sk_user rk = Some v" and "jwt_sub v = jwt_sub u"
  shows "g_room (on_disconnect (on_disconnect g c) r) sid = g_room g sid"
proof -
  let ?g = "g\<lparr>g_socks := adel c (g_socks g)\<rparr>"
  have still: "user_still_in_room ?g sid (jwt_sub u) c"
    by (rule still_in_room [OF assms(3,4,6)]) (simp add: assms)
  have kept: "g_room (on_disconnect g c) sid = g_room g sid"
    using depart_kept [OF still] assms(1,2)
    by (cases "sk_shadow sk") (simp_all add: on_disconnect_def Let_def depart_shadow)
  have "g_room (on_disconnect h r) = g_room h" if "sock h r = Some rk" for h
    using that assms(5,7) by (simp add: on_disconnect_def Let_def depart_shadow)
  moreover have "sock (on_disconnect g c) r = Some rk"
  proof -
    have "g_socks (foldl (depart c b i) h sids) = g_socks h" for b i h sids
      by (induction sids arbitrary: h) (simp_all add: depart_def)
    then show ?thesis
      using assms(1-4) by (simp add: on_disconnect_def Let_def sock_def adel_lookup)
  qed
  ultimately show ?thesis using kept by simp
qed

theorem recorder_leaves_a_ghost_witness:
  "let g = demo_run (joins ''1'' ''i'' @ joins ''2'' ''rec'');
       h = on_disconnect (on_disconnect g ''1'') ''2''
   in g_socks h = [] \<and> g_room h ''s'' = g_room g ''s'' \<and>
      ''i'' \<in> ru_userId ` set (list_presence (g_room g ''s''))"
proof -
  let ?g = "demo_run (joins ''1'' ''i'' @ joins ''2'' ''rec'')"
  let ?v = "\<lambda>c. map_option (\<lambda>sk. (sk_user sk, sk_shadow sk, sk_rooms sk)) (sock ?g c)"
  have "?v ''1'' = Some (Some (demo_user ''i'' INSTRUCTOR), False, [''1'', ''s'', ''s::staff''])"
    "?v ''2'' = Some (Some demo_recorder, True, [''2'', ''s'', ''s::staff''])"
    by code_simp+
  then obtain sk rk where
    i: "sock ?g ''1'' = Some sk" "sk_user sk = Some (demo_user ''i'' INSTRUCTOR)"
    and r: "sock ?g ''2'' = Some rk" "sk_shadow rk" "''s'' \<in> set (sk_rooms rk)" "sk_user rk = Some demo_recorder"
    by auto
  have "g_room (on_disconnect (on_disconnect ?g ''1'') ''2'') ''s'' = g_room ?g ''s''"
    by (rule recorder_leaves_a_ghost [OF i r(1) _ r(2-4)]) (simp_all add: demo_recorder_def demo_user_def)
  moreover have "g_socks (on_disconnect (on_disconnect ?g ''1'') ''2'') = []" by code_simp
  moreover have "''i'' \<in> ru_userId ` set (list_presence (g_room ?g ''s''))" by code_simp
  ultimately show ?thesis by (simp add: Let_def)
qed

text \<open>The host acts before the account check: a socket with an instructor's valid token locks
  the chat of a session the instructor owns with its first packet, sent right after connecting,
  whatever the account check would find (a disabled account, an unverified address, or no
  account), since only joining waits for it.\<close>

theorem host_acts_before_the_account_check:
  assumes "sock g c = None" and "sv_verify sv tok = Some u"
    and "jwt_preview u = None" and "jwt_recorder u = None" and "jwt_role u = INSTRUCTOR"
    and "session_course (g_db g) sid = Some (s, co)" and "co_instructorId co = Some (jwt_sub u)"
  shows "is_chat_locked (g_room (foldl gateway_step g
     [(e, sv, Connect c (Some tok)), (e, sv, Packet c (ChatLock sid True))]) sid)"
  using assms
  by (simp add: on_connect_def on_packet_def with_user_def recorder_filter_def packet_limit_def Let_def
      on_chat_lock_def as_owner_def owned_session_def is_chat_locked_def set_chat_lock_def)

text \<open>The services of the class with the instructor's account disabled.\<close>

definition disabled_services :: services where
  "disabled_services = demo_services
     \<lparr>sv_account := (\<lambda>_. Some \<lparr>acc_status = DISABLED, acc_emailVerified = True\<rparr>)\<rparr>"

theorem host_acts_before_the_account_check_witness:
  "is_chat_locked (g_room (foldl gateway_step (gateway_start demo_db)
     [(demo_env, disabled_services, Connect ''1'' (Some ''i'')),
      (demo_env, disabled_services, Packet ''1'' (ChatLock ''s'' True))]) ''s'')"
proof -
  have "session_course demo_db ''s'' \<noteq> None" by code_simp
  then obtain s co where sc: "session_course demo_db ''s'' = Some (s, co)" by auto
  have "map_option (\<lambda>(s, co). co_instructorId co) (session_course demo_db ''s'') = Some (Some ''i'')"
    by code_simp
  then have "co_instructorId co = Some ''i''" using sc by simp
  then show ?thesis
    using sc
    by (intro host_acts_before_the_account_check [where u = "demo_user ''i'' INSTRUCTOR" and s = s and co = co])
      (simp_all add: gateway_start_def sock_def disabled_services_def demo_services_def demo_user_def)
qed

text \<open>The shadow flag belongs to the socket, not to the room: an admin who teaches \<open>s\<close> and then
  observes \<open>s2\<close> on the same socket stays in the presence of \<open>s\<close> when the socket goes.\<close>

definition admin_trail :: "message list" where
  "admin_trail = [Connect ''1'' (Some ''adm''), Account ''1'', Packet ''1'' (RoomJoin ''s'' True),
     Packet ''1'' (RoomJoin ''s2'' False), Disconnect ''1'']"

lemma second_join_leaves_a_ghost:
  "g_socks (demo_run admin_trail) = [] \<and>
   map ru_userId (list_presence (g_room (demo_run admin_trail) ''s'')) = [''adm'']"
  by code_simp

text \<open>Leaving a session's room does not leave its staff room.\<close>

lemma leave_keeps_the_staff_room:
  "map_option sk_rooms (sock (demo_run (joins ''1'' ''i'' @ [Packet ''1'' (RoomLeave ''s'')])) ''1'')
     = Some [''1'', ''s::staff'']"
  by code_simp

text \<open>The mushaf's position is clamped to a surah, but not to the ayahs the surah has.\<close>

lemma ayah_has_no_upper_bound: "clamp_position (Some 1) (Some 1000) = \<lparr>qp_surah = 1, qp_ayah = 1000\<rparr>"
  by code_simp

end
