(* ===== verification/RoomBuzzer.thy ===== *)
theory RoomBuzzer
  imports RoomEdges
begin

text \<open>
  The buzzer round over whole runs of the gateway, with each handler run to completion: an open
  question always has its timer, every question that is opened is closed once, and a win is paid
  for a closed question. What interleaved answers do is in \<open>BuzzerRace\<close>.
\<close>

section \<open>What the log says of a session's rounds\<close>

fun opens :: "string \<Rightarrow> target \<times> event \<Rightarrow> bool" where
  "opens sid (t, EvQuizOpened s q) \<longleftrightarrow> s = sid"
| "opens sid _ \<longleftrightarrow> False"

fun closes :: "string \<Rightarrow> target \<times> event \<Rightarrow> bool" where
  "closes sid (t, EvQuizClosed s q) \<longleftrightarrow> s = sid"
| "closes sid _ \<longleftrightarrow> False"

definition opened :: "string \<Rightarrow> gateway \<Rightarrow> nat" where
  "opened sid g = length (filter (opens sid) (g_out g))"

definition closed :: "string \<Rightarrow> gateway \<Rightarrow> nat" where
  "closed sid g = length (filter (closes sid) (g_out g))"

definition buzzer_wins :: "string \<Rightarrow> ledger_entry list \<Rightarrow> nat" where
  "buzzer_wins qid l = length (filter (\<lambda>e. le_reason e = BUZZER_WIN \<and> le_refId e = Some qid) l)"

fun closes_question :: "string \<Rightarrow> target \<times> event \<Rightarrow> bool" where
  "closes_question qid (t, EvQuizClosed s q) \<longleftrightarrow> q = qid"
| "closes_question qid _ \<longleftrightarrow> False"

definition question_closed :: "string \<Rightarrow> gateway \<Rightarrow> nat" where
  "question_closed qid g = length (filter (closes_question qid) (g_out g))"

definition open_question :: "room_state \<Rightarrow> string option" where
  "open_question r =
     (case rs_buzzer r of None \<Rightarrow> None
      | Some b \<Rightarrow> if bz_phase b = QUESTION_OPEN then map_option qpub_questionId (bz_question b) else None)"

definition round_ok :: "gateway \<Rightarrow> string \<Rightarrow> bool" where
  "round_ok g sid \<longleftrightarrow>
     g_timers g sid = open_question (g_room g sid) \<and>
     (question_open (g_room g sid) \<longrightarrow> open_question (g_room g sid) \<noteq> None) \<and>
     opened sid g = closed sid g + (if question_open (g_room g sid) then 1 else 0) \<and>
     (\<forall>b. rs_buzzer (g_room g sid) = Some b \<longrightarrow> bz_phase b = WINNER \<longrightarrow>
        (\<exists>w. bz_winner b = Some w \<and> ru_userId w \<in> set (bz_eligibleUserIds b)))"

definition paid_ok :: "gateway \<Rightarrow> bool" where
  "paid_ok g \<longleftrightarrow> (\<forall>q. buzzer_wins q (ps_ledger (g_points g)) \<le> question_closed q g)"

definition buzzer_inv :: "gateway \<Rightarrow> bool" where
  "buzzer_inv g \<longleftrightarrow> (\<forall>sid. round_ok g sid) \<and> paid_ok g"

section \<open>Frames\<close>

text \<open>A step that leaves the buzzer, the timers, the ledger and the quiz events alone.\<close>

fun quiz_event :: "event \<Rightarrow> bool" where
  "quiz_event (EvQuizOpened _ _) = True"
| "quiz_event (EvQuizClosed _ _) = True"
| "quiz_event _ = False"

definition quiz_log :: "gateway \<Rightarrow> (target \<times> event) list" where
  "quiz_log g = filter (\<lambda>p. quiz_event (snd p)) (g_out g)"

definition buzzer_view :: "gateway \<Rightarrow> (target \<times> event) list \<times> (string \<Rightarrow> buzzer_state option) \<times>
  (string \<rightharpoonup> string) \<times> ledger_entry list" where
  "buzzer_view g = (quiz_log g, (\<lambda>sid. rs_buzzer (g_room g sid)), g_timers g, ps_ledger (g_points g))"

lemma opens_quiz: "opens sid p \<Longrightarrow> quiz_event (snd p)"
  by (cases "(sid, p)" rule: opens.cases) auto

lemma closes_quiz: "closes sid p \<Longrightarrow> quiz_event (snd p)"
  by (cases "(sid, p)" rule: closes.cases) auto

lemma closes_question_quiz: "closes_question q p \<Longrightarrow> quiz_event (snd p)"
  by (cases "(q, p)" rule: closes_question.cases) auto

lemma filter_quiz: "(\<And>p. P p \<Longrightarrow> quiz_event (snd p)) \<Longrightarrow> filter P (g_out g) = filter P (quiz_log g)"
  unfolding quiz_log_def filter_filter by (rule filter_cong) auto

lemma counts_log:
  "opened sid g = length (filter (opens sid) (quiz_log g))"
  "closed sid g = length (filter (closes sid) (quiz_log g))"
  "question_closed q g = length (filter (closes_question q) (quiz_log g))"
  unfolding opened_def closed_def question_closed_def
  using filter_quiz [of "opens sid" g, OF opens_quiz] filter_quiz [of "closes sid" g, OF closes_quiz]
    filter_quiz [of "closes_question q" g, OF closes_question_quiz]
  by simp_all

lemma buzzer_inv_view:
  assumes "buzzer_view h = buzzer_view g"
  shows "buzzer_inv h = buzzer_inv g"
proof -
  have "rs_buzzer (g_room h s) = rs_buzzer (g_room g s)" for s
    using assms by (simp add: buzzer_view_def fun_eq_iff)
  then show ?thesis
    using assms
    by (simp add: buzzer_view_def buzzer_inv_def round_ok_def paid_ok_def counts_log open_question_def
        question_open_def)
qed

lemma quiz_log_frame [simp]:
  "quiz_log (emit t ev g) = quiz_log g @ (if quiz_event ev then [(t, ev)] else [])"
  "quiz_log (fail c code m g) = quiz_log g"
  "quiz_log (upd_room sid f g) = quiz_log g" "quiz_log (put_sock c sk g) = quiz_log g"
  "quiz_log (clear_timer sid g) = quiz_log g"
  "quiz_log (send_tajweed_temporary now t sid g) = quiz_log g"
  "quiz_log (answer_record e c u q i g) = quiz_log g"
  "quiz_log (g\<lparr>g_db := d\<rparr>) = quiz_log g" "quiz_log (g\<lparr>g_socks := s\<rparr>) = quiz_log g"
  "quiz_log (g\<lparr>g_timers := tm\<rparr>) = quiz_log g" "quiz_log (g\<lparr>g_points := p\<rparr>) = quiz_log g"
  by (simp_all add: quiz_log_def)

lemma quiz_log_award [simp]: "quiz_log (answer_award e sid u q c g) = quiz_log g"
  by (simp add: answer_award_def Let_def split: option.splits prod.splits)

lemma buzzer_kept [simp]:
  "rs_buzzer (add_presence r u) = rs_buzzer r" "rs_buzzer (remove_presence r i) = rs_buzzer r"
  "rs_buzzer (raise_hand r u) = rs_buzzer r" "rs_buzzer (lower_hand r i) = rs_buzzer r"
  "rs_buzzer (clear_hands r) = rs_buzzer r" "rs_buzzer (set_chat_lock r b) = rs_buzzer r"
  "rs_buzzer (set_view r v) = rs_buzzer r" "rs_buzzer (set_theme r v) = rs_buzzer r"
  "rs_buzzer (set_quran_pos r p) = rs_buzzer r"
  "rs_buzzer (fst (set_tajweed_temporary r a)) = rs_buzzer r"
  "rs_buzzer (clear_tajweed_temporary r x) = rs_buzzer r"
  "rs_buzzer (fst (list_tajweed_temporary n r)) = rs_buzzer r"
  "rs_buzzer (set_tajweed_pointing r ps) = rs_buzzer r"
  "rs_buzzer (grant_mic r i) = rs_buzzer r" "rs_buzzer (revoke_mic r i) = rs_buzzer r"
  "rs_buzzer (fst (mark_buzzer_answered r i)) = rs_buzzer r"
  "rs_buzzer (clear_buzzer_answered r) = rs_buzzer r"
  "rs_buzzer (set_buzzer_state r st) = Some st"
  by (simp_all add: room_ops set_tajweed_temporary_def list_tajweed_temporary_def
      mark_buzzer_answered_def Let_def split: option.splits)

section \<open>The invariant\<close>

text \<open>Every packet but the two of a round leaves the round's view alone.\<close>

fun round_packet :: "packet \<Rightarrow> bool" where
  "round_packet (BuzzerStart _ _) = True"
| "round_packet (QuizAnswer _ _ _) = True"
| "round_packet _ = False"

lemma view_frame [simp]:
  "\<not> quiz_event ev \<Longrightarrow> buzzer_view (emit t ev g) = buzzer_view g"
  "buzzer_view (fail c code m g) = buzzer_view g"
  "buzzer_view (put_sock c sk g) = buzzer_view g"
  "rs_buzzer (f (g_room g sid)) = rs_buzzer (g_room g sid) \<Longrightarrow> buzzer_view (upd_room sid f g) = buzzer_view g"
  "buzzer_view (send_tajweed_temporary now t sid g) = buzzer_view g"
  "buzzer_view (g\<lparr>g_db := d\<rparr>) = buzzer_view g"
  "buzzer_view (g\<lparr>g_socks := s\<rparr>) = buzzer_view g"
  by (simp_all add: buzzer_view_def fun_eq_iff)

lemma view_removed [simp]: "buzzer_view (remove_departed u sid g) = buzzer_view g"
  by (simp add: remove_departed_def broadcast_defs)

lemma view_post [simp]: "buzzer_view (post_chat e c sid sk u b a g) = buzzer_view g"
  by (simp add: post_chat_def Let_def)

lemma view_record [simp]: "buzzer_view (answer_record e c u q i g) = buzzer_view g"
  by (simp add: answer_record_def Let_def split: option.splits)

lemma view_enter [simp]: "buzzer_view (enter_room e c sk u sid co g) = buzzer_view g"
  by (auto simp: enter_room_def send_room_state_def broadcast_defs Let_def split: option.splits)

lemma view_depart [simp]: "buzzer_view (foldl (depart c sh u) g sids) = buzzer_view g"
  by (induction sids arbitrary: g) (simp_all add: depart_def)

lemma view_handle:
  assumes "\<not> round_packet p"
  shows "buzzer_view (handle e g c p) = buzzer_view g"
  using assms
  by (cases p)
    (auto simp: handlers broadcast_defs Let_def case_prod_beta split: option.splits sum.splits
      intro!: as_owner_pres [where P = "\<lambda>h. buzzer_view h = buzzer_view g"]
        with_user_pres [where P = "\<lambda>h. buzzer_view h = buzzer_view g"])

lemma award_ledger [simp]: "ps_ledger (award up s x) = ps_ledger s @ [x]"
  by (simp add: award_def bump_projection_def)

lemma leaderboard_ledger [simp]: "ps_ledger (fst (leaderboard rd wr z nm s c)) = ps_ledger s"
  by (simp add: leaderboard_def rebuild_projection_def rebuild_write_def Let_def split: option.splits prod.splits)

text \<open>Opening and closing a round, and the win, in terms of the view.\<close>

lemma award_wins:
  "buzzer_wins q' (ps_ledger (g_points (answer_award e sid u q c g)))
     \<le> buzzer_wins q' (ps_ledger (g_points g)) + (if q' = qq_id q then 1 else 0)"
proof (cases "c = None \<or> c = Some []")
  case True
  then show ?thesis by (auto simp: answer_award_def)
next
  case False
  then obtain c' where c: "c = Some c'" "c' \<noteq> []" by auto
  have "ps_ledger (g_points (answer_award e sid u q c g)) = ps_ledger (g_points g) @
     [\<lparr>le_studentId = jwt_sub u, le_courseId = c', le_delta = qq_points q,
       le_reason = BUZZER_WIN, le_refId = Some (qq_id q)\<rparr>]"
    using c by (simp add: answer_award_def Let_def case_prod_beta)
  then show ?thesis by (auto simp: buzzer_wins_def)
qed

lemma counts_simps:
  "opened s (emit t ev g) = opened s g + (if opens s (t, ev) then 1 else 0)"
  "closed s (emit t ev g) = closed s g + (if closes s (t, ev) then 1 else 0)"
  "question_closed q (emit t ev g) = question_closed q g + (if closes_question q (t, ev) then 1 else 0)"
  "opened s (upd_room sid f g) = opened s g" "closed s (upd_room sid f g) = closed s g"
  "question_closed q (upd_room sid f g) = question_closed q g"
  "opened s (clear_timer sid g) = opened s g" "closed s (clear_timer sid g) = closed s g"
  "question_closed q (clear_timer sid g) = question_closed q g"
  "opened s (g\<lparr>g_timers := tm\<rparr>) = opened s g" "closed s (g\<lparr>g_timers := tm\<rparr>) = closed s g"
  "question_closed q (g\<lparr>g_timers := tm\<rparr>) = question_closed q g"
  "opened s (answer_award e sid u qq c g) = opened s g"
  "closed s (answer_award e sid u qq c g) = closed s g"
  "question_closed q (answer_award e sid u qq c g) = question_closed q g"
  by (simp_all add: opened_def closed_def question_closed_def)
    (simp_all add: answer_award_def Let_def split: option.splits prod.splits)

lemma buzzer_inv_win:
  assumes inv: "buzzer_inv g" and st: "rs_buzzer (g_room g sid) = Some b" "bz_phase b = QUESTION_OPEN"
    and el: "jwt_sub u \<in> set (bz_eligibleUserIds b)"
  shows "buzzer_inv (answer_win e sid sk u q co b g)"
proof -
  have rounds: "round_ok g s" for s using inv by (simp add: buzzer_inv_def)
  have "round_ok (answer_win e sid sk u q co b g) s" for s
  proof (cases "s = sid")
    case True
    then show ?thesis
      using rounds [of sid] st el
      by (simp add: round_ok_def answer_win_def Let_def counts_simps open_question_def question_open_def
          winner_state_def room_user_of_def)
  next
    case False
    then show ?thesis using rounds [of s] by (simp add: round_ok_def answer_win_def Let_def counts_simps)
  qed
  moreover have "buzzer_wins q' (ps_ledger (g_points (answer_win e sid sk u q co b g)))
      \<le> question_closed q' (answer_win e sid sk u q co b g)" for q'
  proof -
    have "buzzer_wins q' (ps_ledger (g_points g)) \<le> question_closed q' g"
      using inv by (simp add: buzzer_inv_def paid_ok_def)
    then show ?thesis
      using award_wins [of q' e sid u q co "upd_room sid (\<lambda>r. set_buzzer_state r (winner_state sk u b)) (clear_timer sid g)"]
      by (auto simp: answer_win_def Let_def counts_simps split: if_splits)
  qed
  ultimately show ?thesis by (simp add: buzzer_inv_def paid_ok_def)
qed

lemmas buzzer_inv_frame [simp] =
  view_frame [THEN buzzer_inv_view] view_record [THEN buzzer_inv_view] view_depart [THEN buzzer_inv_view]

lemma buzzer_inv_start: "buzzer_inv g \<Longrightarrow> buzzer_inv (on_buzzer_start e g c sid qid)"
  unfolding on_buzzer_start_def
proof (rule as_owner_pres [where P = buzzer_inv])
  fix sk u s co
  assume inv: "buzzer_inv g"
  let ?el = "filter (\<lambda>u. ru_role u = STUDENT) (list_presence (g_room g sid))"
  have rounds: "round_ok g s" for s using inv by (simp add: buzzer_inv_def)
  have start: "buzzer_inv
      (let pq = public_question (e_now e) q;
           st = \<lparr>bz_phase = QUESTION_OPEN, bz_eligibleUserIds = map ru_userId ?el,
                 bz_question = Some pq, bz_winner = None\<rparr>;
           g1 = upd_room sid (\<lambda>r. set_buzzer_state (clear_buzzer_answered r) st) g;
           g2 = emit (ToRoom sid) (EvQuizOpened sid pq) (emit (ToRoom sid) (EvBuzzerState sid st) g1);
           g3 = clear_timer sid g2
       in g3\<lparr>g_timers := (g_timers g3)(sid \<mapsto> qq_id q)\<rparr>)"
    if "\<not> question_open (g_room g sid)" for q
  proof -
    have "round_ok
      (let pq = public_question (e_now e) q;
           st = \<lparr>bz_phase = QUESTION_OPEN, bz_eligibleUserIds = map ru_userId ?el,
                 bz_question = Some pq, bz_winner = None\<rparr>;
           g1 = upd_room sid (\<lambda>r. set_buzzer_state (clear_buzzer_answered r) st) g;
           g2 = emit (ToRoom sid) (EvQuizOpened sid pq) (emit (ToRoom sid) (EvBuzzerState sid st) g1);
           g3 = clear_timer sid g2
       in g3\<lparr>g_timers := (g_timers g3)(sid \<mapsto> qq_id q)\<rparr>) s" for s
      using rounds [of s] that
      by (auto simp: round_ok_def Let_def counts_simps open_question_def question_open_def public_question_def)
    then show ?thesis
      using inv by (auto simp: buzzer_inv_def paid_ok_def Let_def counts_simps)
  qed
  have closed: "\<not> question_open (g_room g sid)"
    if "map_option bz_phase (get_buzzer_state (g_room g sid)) \<noteq> Some QUESTION_OPEN"
    using that by (simp add: question_open_def get_buzzer_state_def)
  show "buzzer_inv
     (if map_option bz_phase (get_buzzer_state (g_room g sid)) = Some QUESTION_OPEN
      then fail c ''BUZZER_BUSY'' ''A question is already open'' g
      else let eligible = ?el in
        if eligible = [] then fail c ''NO_STUDENTS'' ''No students in the room to quiz'' g
        else (case question_quiz (g_db g) qid of
          None \<Rightarrow> fail c ''BAD_QUESTION'' ''Question not in this class'' g
        | Some (q, qz) \<Rightarrow>
            if \<not> belongs_here (g_db g) s qz
            then fail c ''BAD_QUESTION'' ''Question not in this class'' g
            else
              let pq = public_question (e_now e) q;
                  st = \<lparr>bz_phase = QUESTION_OPEN, bz_eligibleUserIds = map ru_userId eligible,
                        bz_question = Some pq, bz_winner = None\<rparr>;
                  g1 = upd_room sid (\<lambda>r. set_buzzer_state (clear_buzzer_answered r) st) g;
                  g2 = emit (ToRoom sid) (EvQuizOpened sid pq) (emit (ToRoom sid) (EvBuzzerState sid st) g1);
                  g3 = clear_timer sid g2
              in g3\<lparr>g_timers := (g_timers g3)(sid \<mapsto> qq_id q)\<rparr>))"
    using inv start closed by (auto simp: Let_def split: option.splits)
qed simp_all

lemma buzzer_inv_answer: "buzzer_inv g \<Longrightarrow> buzzer_inv (on_quiz_answer e g c sid qid i)"
  unfolding on_quiz_answer_def
proof (rule with_user_pres [where P = buzzer_inv])
  fix sk :: socket and u :: jwt_payload
  assume inv: "buzzer_inv g"
  let ?g = "upd_room sid (\<lambda>_. fst (mark_buzzer_answered (g_room g sid) (jwt_sub u))) g"
  have marked: "buzzer_inv ?g" using inv by simp
  have win: "buzzer_inv (answer_win e sid sk u q co b (answer_record e c u q i ?g))"
    if "answer_check (g_room g sid) u qid = None" "rs_buzzer (g_room g sid) = Some b"
      "bz_phase b = QUESTION_OPEN" for q co b
    using marked that
    by (intro buzzer_inv_win)
      (auto simp: answer_check_def get_buzzer_state_def split: if_splits)
  show "buzzer_inv (if \<not> in_room sk sid then fail c ''NOT_IN_ROOM'' ''Join the room first'' g
       else if jwt_role u \<noteq> STUDENT then g
       else (case answer_check (g_room g sid) u qid of
               Some (code, msg) \<Rightarrow> fail c code msg g
             | None \<Rightarrow>
                 let (r1, first) = mark_buzzer_answered (g_room g sid) (jwt_sub u);
                     g1 = upd_room sid (\<lambda>_. r1) g
                 in if \<not> first then fail c ''ALREADY_ANSWERED'' ''One attempt per question'' g1
                    else (case question_quiz (g_db g1) qid of
                            None \<Rightarrow> g1
                          | Some (q, qz) \<Rightarrow>
                              let courseId = quiz_course (g_db g1) qz;
                                  g2 = answer_record e c u q i g1
                              in if \<not> answer_correct q i then g2
                                 else (case get_buzzer_state (g_room g2 sid) of
                                         None \<Rightarrow> g2
                                       | Some latest \<Rightarrow>
                                           if bz_phase latest \<noteq> QUESTION_OPEN then g2
                                           else answer_win e sid sk u q courseId latest g2))))"
    using inv marked win
    by (auto simp: Let_def case_prod_beta get_buzzer_state_def split: option.splits)
qed simp_all

lemma timer_closes:
  assumes "buzzer_inv g" and "g_timers g sid = Some q"
  obtains b where "rs_buzzer (g_room g sid) = Some b" "bz_phase b = QUESTION_OPEN"
    "map_option qpub_questionId (bz_question b) = Some q"
    "on_timer g sid =
      emit (ToRoom sid) (EvQuizClosed sid q)
        (emit (ToRoom sid) (EvBuzzerState sid \<lparr>bz_phase = TIMEOUT, bz_eligibleUserIds = bz_eligibleUserIds b,
              bz_question = bz_question b, bz_winner = None\<rparr>)
          (upd_room sid (\<lambda>r. set_buzzer_state r \<lparr>bz_phase = TIMEOUT,
              bz_eligibleUserIds = bz_eligibleUserIds b, bz_question = bz_question b, bz_winner = None\<rparr>)
            (clear_timer sid g)))"
proof -
  have "open_question (g_room g sid) = Some q"
    using assms by (simp add: buzzer_inv_def round_ok_def)
  then obtain b where "rs_buzzer (g_room g sid) = Some b" "bz_phase b = QUESTION_OPEN"
    "map_option qpub_questionId (bz_question b) = Some q"
    by (auto simp: open_question_def split: option.splits if_splits)
  then show thesis
    using assms(2)
    by (intro that) (simp_all add: on_timer_def timeout_buzzer_def get_buzzer_state_def clear_timer_def Let_def)
qed

lemma buzzer_inv_timer:
  assumes inv: "buzzer_inv g"
  shows "buzzer_inv (on_timer g sid)"
proof (cases "g_timers g sid")
  case None
  then show ?thesis using inv by (simp add: on_timer_def)
next
  case (Some q)
  obtain b where b: "rs_buzzer (g_room g sid) = Some b" "bz_phase b = QUESTION_OPEN"
    "map_option qpub_questionId (bz_question b) = Some q"
    and h: "on_timer g sid =
      emit (ToRoom sid) (EvQuizClosed sid q)
        (emit (ToRoom sid) (EvBuzzerState sid \<lparr>bz_phase = TIMEOUT, bz_eligibleUserIds = bz_eligibleUserIds b,
              bz_question = bz_question b, bz_winner = None\<rparr>)
          (upd_room sid (\<lambda>r. set_buzzer_state r \<lparr>bz_phase = TIMEOUT,
              bz_eligibleUserIds = bz_eligibleUserIds b, bz_question = bz_question b, bz_winner = None\<rparr>)
            (clear_timer sid g)))"
    using timer_closes [OF inv Some] by blast
  have rounds: "round_ok g s" for s using inv by (simp add: buzzer_inv_def)
  have "round_ok (on_timer g sid) s" for s
    using rounds [of s] b unfolding h
    by (cases "s = sid") (simp_all add: round_ok_def counts_simps open_question_def question_open_def)
  moreover have "paid_ok (on_timer g sid)"
    using inv unfolding h by (simp add: buzzer_inv_def paid_ok_def counts_simps le_SucI)
  ultimately show ?thesis by (simp add: buzzer_inv_def)
qed

interpretation rounds: invariant_system gateway_step buzzer_inv
proof unfold_locales
  fix g and x :: "env \<times> services \<times> message"
  assume inv: "buzzer_inv g"
  obtain e sv m where x: "x = (e, sv, m)" by (cases x)
  have handled: "buzzer_inv (handle e h c p)" if "buzzer_inv h" for h c p
  proof (cases "round_packet p")
    case True
    then show ?thesis using that by (cases p) (simp_all add: buzzer_inv_start buzzer_inv_answer)
  next
    case False
    then show ?thesis using that buzzer_inv_view [OF view_handle [OF False]] by simp
  qed
  have packet: "buzzer_inv (on_packet e g c p)" for c p
    using on_packet_cases [of e g c p] inv handled by auto
  have account: "buzzer_inv (on_account f g c)" for f c
    unfolding on_account_def
    by (rule with_user_pres [where P = buzzer_inv]) (use inv in \<open>auto split: option.splits\<close>)
  have gone: "buzzer_inv (on_disconnect g c)" for c
    using inv by (auto simp: on_disconnect_def Let_def split: option.splits)
  show "buzzer_inv (gateway_step g x)"
    using inv unfolding x
    by (cases m)
      (auto simp: packet account gone buzzer_inv_timer on_connect_def split: option.splits)
qed

lemma buzzer_inv_begin: "buzzer_inv (gateway_start d)"
  by (simp add: buzzer_inv_def round_ok_def paid_ok_def gateway_start_def empty_room_def opened_def
      closed_def question_closed_def open_question_def question_open_def buzzer_wins_def points_start_def)

section \<open>Properties\<close>

text \<open>A round: a student and the instructor join, and the instructor opens the question.\<close>

definition round_trail :: "message list" where
  "round_trail = joins ''1'' ''a'' @ joins ''2'' ''i'' @ [Packet ''2'' (BuzzerStart ''s'' ''q'')]"

lemma round_run: "buzzer_inv (foldl gateway_step (gateway_start d) xs)"
  by (rule rounds.inv_run) (rule buzzer_inv_begin)

text \<open>C5: The rounds of a session are told to the class in pairs: after any run, a question was
  closed as often as one was opened, one fewer while a question is open; the winner on the board is
  one of the students the round was opened for; and a question's wins are never paid more often
  than it was closed.\<close>

theorem buzzer_rounds_pair_up:
  "let g = foldl gateway_step (gateway_start d) xs in
     opened sid g = closed sid g + (if question_open (g_room g sid) then 1 else 0) \<and>
     (\<forall>b. rs_buzzer (g_room g sid) = Some b \<longrightarrow> bz_phase b = WINNER \<longrightarrow>
        (\<exists>w. bz_winner b = Some w \<and> ru_userId w \<in> set (bz_eligibleUserIds b))) \<and>
     buzzer_wins q (ps_ledger (g_points g)) \<le> question_closed q g"
  using round_run [of d xs] unfolding buzzer_inv_def round_ok_def paid_ok_def Let_def by blast

theorem buzzer_rounds_pair_up_witness:
  "let g = demo_run (round_trail @ [Packet ''1'' (QuizAnswer ''s'' ''q'' 1)]) in
     \<exists>b w. rs_buzzer (g_room g ''s'') = Some b \<and> bz_phase b = WINNER \<and> bz_winner b = Some w \<and>
       ru_userId w \<in> set (bz_eligibleUserIds b)"
proof -
  let ?g = "demo_run (round_trail @ [Packet ''1'' (QuizAnswer ''s'' ''q'' 1)])"
  have "map_option bz_phase (rs_buzzer (g_room ?g ''s'')) = Some WINNER" by code_simp
  then obtain b where b: "rs_buzzer (g_room ?g ''s'') = Some b" "bz_phase b = WINNER" by auto
  have "\<exists>w. bz_winner b = Some w \<and> ru_userId w \<in> set (bz_eligibleUserIds b)"
    using b
      buzzer_rounds_pair_up [of demo_db
        "map (\<lambda>m. (demo_env, demo_services, m)) (round_trail @ [Packet ''1'' (QuizAnswer ''s'' ''q'' 1)])" "''s''" "[]"]
    unfolding demo_run_def Let_def by blast
  then show ?thesis using b unfolding Let_def by blast
qed

text \<open>C6: An open question always ends: in every reachable state in which a question is open its
  timer is pending, and when it fires the question is closed, the class is told once, and nobody is
  paid.\<close>

theorem open_question_times_out:
  assumes "g = foldl gateway_step (gateway_start d) xs" and "question_open (g_room g sid)"
  shows "g_timers g sid \<noteq> None \<and>
    \<not> question_open (g_room (gateway_step g (e, sv, Timer sid)) sid) \<and>
    closed sid (gateway_step g (e, sv, Timer sid)) = closed sid g + 1 \<and>
    g_points (gateway_step g (e, sv, Timer sid)) = g_points g"
proof (intro conjI)
  have inv: "buzzer_inv g" unfolding assms(1) by (rule round_run)
  then show t: "g_timers g sid \<noteq> None" using assms(2) by (simp add: buzzer_inv_def round_ok_def)
  then obtain q where q: "g_timers g sid = Some q" by auto
  note closes = timer_closes [OF inv q]
  show "\<not> question_open (g_room (gateway_step g (e, sv, Timer sid)) sid)"
    by (rule closes) (simp add: question_open_def)
  show "closed sid (gateway_step g (e, sv, Timer sid)) = closed sid g + 1"
    by (rule closes) (simp add: counts_simps)
  show "g_points (gateway_step g (e, sv, Timer sid)) = g_points g"
    by (rule closes) simp
qed

theorem open_question_times_out_witness:
  "closed ''s'' (gateway_step (demo_run round_trail) (demo_env, demo_services, Timer ''s''))
     = closed ''s'' (demo_run round_trail) + 1"
proof -
  have "question_open (g_room (demo_run round_trail) ''s'')" by code_simp
  then show ?thesis using open_question_times_out [OF demo_run_def] by blast
qed

end
