(* ===== verification/BuzzerRace.thy ===== *)
theory BuzzerRace
  imports RoomBuzzer
begin

text \<open>
  \<open>onQuizAnswer\<close> with its awaits: between two of them another answer may run. The handler
  is cut into the pieces between its awaits (the award, with the leaderboard it sends, is one
  piece); run without interruption the pieces are the handler, and two correct answers can be
  interleaved so that both win.
\<close>

section \<open>The handler in pieces\<close>

record answerer =
  an_cid :: string
  an_sk :: socket
  an_user :: jwt_payload
  an_index :: int

datatype answer_pc =
    AStart
  | AChecked
  | AMarked
  | AFound question_row "string option"
  | ARecorded question_row "string option"
  | ALatest question_row "string option" buzzer_state
  | ASet question_row "string option" buzzer_state
  | AAwarded question_row buzzer_state
  | ADone

fun answer_step :: "env \<Rightarrow> string \<Rightarrow> string \<Rightarrow> answerer \<Rightarrow> answer_pc \<times> gateway \<Rightarrow> answer_pc \<times> gateway" where
  "answer_step e sid qid a (AStart, g) =
     (if \<not> in_room (an_sk a) sid then (ADone, fail (an_cid a) ''NOT_IN_ROOM'' ''Join the room first'' g)
      else if jwt_role (an_user a) \<noteq> STUDENT then (ADone, g)
      else (case answer_check (g_room g sid) (an_user a) qid of
              Some (code, msg) \<Rightarrow> (ADone, fail (an_cid a) code msg g)
            | None \<Rightarrow> (AChecked, g)))"
| "answer_step e sid qid a (AChecked, g) =
     (let (r1, first) = mark_buzzer_answered (g_room g sid) (jwt_sub (an_user a));
          g1 = upd_room sid (\<lambda>_. r1) g
      in if \<not> first then (ADone, fail (an_cid a) ''ALREADY_ANSWERED'' ''One attempt per question'' g1)
         else (AMarked, g1))"
| "answer_step e sid qid a (AMarked, g) =
     (case question_quiz (g_db g) qid of
        None \<Rightarrow> (ADone, g)
      | Some (q, qz) \<Rightarrow> (AFound q (quiz_course (g_db g) qz), g))"
| "answer_step e sid qid a (AFound q c, g) =
     (let g1 = answer_record e (an_cid a) (an_user a) q (an_index a) g
      in if \<not> answer_correct q (an_index a) then (ADone, g1) else (ARecorded q c, g1))"
| "answer_step e sid qid a (ARecorded q c, g) =
     (case get_buzzer_state (g_room g sid) of
        None \<Rightarrow> (ADone, g)
      | Some latest \<Rightarrow> if bz_phase latest \<noteq> QUESTION_OPEN then (ADone, g) else (ALatest q c latest, g))"
| "answer_step e sid qid a (ALatest q c latest, g) =
     (ASet q c latest,
      upd_room sid (\<lambda>r. set_buzzer_state r (winner_state (an_sk a) (an_user a) latest)) (clear_timer sid g))"
| "answer_step e sid qid a (ASet q c latest, g) = (AAwarded q latest, answer_award e sid (an_user a) q c g)"
| "answer_step e sid qid a (AAwarded q latest, g) =
     (ADone,
      emit (ToRoom sid) (EvQuizClosed sid (qq_id q))
        (emit (ToRoom sid) (EvBuzzerState sid (winner_state (an_sk a) (an_user a) latest)) g))"
| "answer_step e sid qid a (ADone, g) = (ADone, g)"

text \<open>Two answers under way, and a schedule of their pieces: \<open>True\<close> runs one of the first.\<close>

fun race :: "env \<Rightarrow> string \<Rightarrow> string \<Rightarrow> answerer \<Rightarrow> answerer \<Rightarrow> bool list \<Rightarrow>
  answer_pc \<times> answer_pc \<times> gateway \<Rightarrow> answer_pc \<times> answer_pc \<times> gateway" where
  "race e sid qid a b [] s = s"
| "race e sid qid a b (True # ss) (p, p', g) =
     (case answer_step e sid qid a (p, g) of (q, h) \<Rightarrow> race e sid qid a b ss (q, p', h))"
| "race e sid qid a b (False # ss) (p, p', g) =
     (case answer_step e sid qid b (p', g) of (q, h) \<Rightarrow> race e sid qid a b ss (p, q, h))"

lemma race_append: "race e sid qid a b (xs @ ys) s = race e sid qid a b ys (race e sid qid a b xs s)"
proof (induction xs arbitrary: s)
  case (Cons x xs)
  obtain p p' g where "s = (p, p', g)" by (cases s)
  then show ?case
    using Cons.IH
    by (cases x; cases "answer_step e sid qid a (p, g)"; cases "answer_step e sid qid b (p', g)") simp_all
qed simp

text \<open>Alone, the pieces are the handler.\<close>

lemma answer_alone:
  assumes "sock g (an_cid a) = Some (an_sk a)" and "sk_user (an_sk a) = Some (an_user a)"
  shows "(answer_step e sid qid a ^^ 8) (AStart, g) =
     (ADone, on_quiz_answer e g (an_cid a) sid qid (an_index a))"
proof -
  have eight: "8 = Suc (Suc (Suc (Suc (Suc (Suc (Suc (Suc 0)))))))" by simp
  show ?thesis
    unfolding eight on_quiz_answer_def with_user_def
    by (auto simp: assms funpow_Suc_right case_prod_beta Let_def answer_win_def
        simp del: funpow.simps split: option.splits)
qed

section \<open>The race\<close>

definition may_win :: "gateway \<Rightarrow> string \<Rightarrow> string \<Rightarrow> question_row \<Rightarrow> answerer \<Rightarrow> bool" where
  "may_win g sid qid q a \<longleftrightarrow>
     in_room (an_sk a) sid \<and> jwt_role (an_user a) = STUDENT \<and>
     answer_check (g_room g sid) (an_user a) qid = None \<and>
     jwt_sub (an_user a) \<notin> set (rs_answered (g_room g sid)) \<and> answer_correct q (an_index a)"

text \<open>Both pass the second look at the state before either writes it.\<close>

definition double_win :: "bool list" where
  "double_win = replicate 5 True @ replicate 5 False @ replicate 3 True @ replicate 3 False"

lemma same_tables_course: "same_tables d d' \<Longrightarrow> quiz_course d' qz = quiz_course d qz"
proof -
  assume "same_tables d d'"
  then obtain a b where d': "d' = d\<lparr>db_answers := a, db_chat := b\<rparr>" unfolding same_tables_def by blast
  then have "find_session d' = find_session d" "find_section d' = find_section d"
    by (simp_all add: fun_eq_iff find_session_def find_section_def)
  then show ?thesis by (simp add: quiz_course_def cong: option.case_cong)
qed

text \<open>The five pieces up to the second look, from any state.\<close>

lemma reaches_latest:
  assumes "may_win g sid qid q a" and "question_quiz (g_db g) qid = Some (q, qz)"
    and "get_buzzer_state (g_room g sid) = Some st"
  shows "(answer_step e sid qid a ^^ 5) (AStart, g) =
     (ALatest q (quiz_course (g_db g) qz) st,
      answer_record e (an_cid a) (an_user a) q (an_index a)
        (upd_room sid (\<lambda>_. fst (mark_buzzer_answered (g_room g sid) (jwt_sub (an_user a)))) g))"
proof -
  have five: "5 = Suc (Suc (Suc (Suc (Suc 0))))" by simp
  have st: "bz_phase st = QUESTION_OPEN" "rs_buzzer (g_room g sid) = Some st"
    using assms by (auto simp: may_win_def answer_check_def get_buzzer_state_def split: if_splits)
  show ?thesis
    using assms st unfolding five may_win_def
    by (simp add: funpow_Suc_right case_prod_beta Let_def get_buzzer_state_def mark_buzzer_answered_def
        del: funpow.simps)
qed

lemma race_first:
  "(answer_step e sid qid a ^^ n) (p, g) = (q, h) \<Longrightarrow>
     race e sid qid a b (replicate n True) (p, p', g) = (q, p', h)"
  by (induction n arbitrary: p g) (auto simp: funpow_Suc_right split: prod.splits simp del: funpow.simps)

lemma race_second:
  "(answer_step e sid qid b ^^ n) (p', g) = (q, h) \<Longrightarrow>
     race e sid qid a b (replicate n False) (p, p', g) = (p, q, h)"
proof (induction n arbitrary: p' g)
  case (Suc n)
  obtain p2 g2 where "answer_step e sid qid b (p', g) = (p2, g2)" by (cases "answer_step e sid qid b (p', g)")
  then show ?case using Suc by (simp add: funpow_Suc_right del: funpow.simps)
qed simp

lemma wins_from_latest:
  "(answer_step e sid qid a ^^ 3) (ALatest q c st, g) =
     (ADone, answer_win e sid (an_sk a) (an_user a) q c st g)"
  by (simp add: eval_nat_numeral answer_win_def Let_def)

lemma wins_pays:
  assumes "c = Some c'" and "c' \<noteq> []"
  shows "ps_ledger (g_points (answer_win e sid sk u q c st g)) = ps_ledger (g_points g) @
     [\<lparr>le_studentId = jwt_sub u, le_courseId = c', le_delta = qq_points q,
       le_reason = BUZZER_WIN, le_refId = Some (qq_id q)\<rparr>]"
  using assms by (simp add: answer_win_def answer_award_def Let_def case_prod_beta)

text \<open>Two students who answer an open question correctly at the same time can both win: with
  both answers past their second look at the state before either writes it, both are paid the
  stake of the same question, and the later write replaces the first winner on the board.\<close>

theorem concurrent_answers_both_win:
  assumes "may_win g sid qid q a" and "may_win g sid qid q b"
    and "jwt_sub (an_user a) \<noteq> jwt_sub (an_user b)"
    and "question_quiz (g_db g) qid = Some (q, qz)"
    and "quiz_course (g_db g) qz = Some c" and "c \<noteq> []"
  shows "case race e sid qid a b double_win (AStart, AStart, g) of (p, p', h) \<Rightarrow>
     p = ADone \<and> p' = ADone \<and>
     ps_ledger (g_points h) = ps_ledger (g_points g) @
       map (\<lambda>x. \<lparr>le_studentId = jwt_sub (an_user x), le_courseId = c, le_delta = qq_points q,
              le_reason = BUZZER_WIN, le_refId = Some (qq_id q)\<rparr>) [a, b] \<and>
     Option.bind (rs_buzzer (g_room h sid)) bz_winner = Some (room_user_of (an_sk b) (an_user b))"
proof -
  obtain st where st: "get_buzzer_state (g_room g sid) = Some st"
    using assms(1) by (auto simp: may_win_def answer_check_def split: option.splits)
  let ?mark = "\<lambda>x g. upd_room sid (\<lambda>_. fst (mark_buzzer_answered (g_room g sid) (jwt_sub (an_user x)))) g"
  let ?entry = "\<lambda>x g. answer_record e (an_cid x) (an_user x) q (an_index x) (?mark x g)"
  let ?win = "\<lambda>x g. answer_win e sid (an_sk x) (an_user x) q (Some c) st g"
  have tables: "same_tables (g_db g) (g_db (?entry a g))" by (rule answer_record_db) simp
  have quiz: "question_quiz (g_db (?entry a g)) qid = Some (q, qz)" "quiz_course (g_db (?entry a g)) qz = Some c"
    using assms(4,5) same_tables_find(7) [OF tables] same_tables_course [OF tables, of qz] by simp_all
  have state: "get_buzzer_state (g_room (?entry a g) sid) = Some st"
    using st by (simp add: get_buzzer_state_def)
  have second: "may_win (?entry a g) sid qid q b"
    using assms(2,3)
    by (auto simp: may_win_def answer_check_def get_buzzer_state_def mark_buzzer_answered_def sadd_def)
  have r1: "race e sid qid a b (replicate 5 True) (AStart, AStart, g) = (ALatest q (Some c) st, AStart, ?entry a g)"
    by (rule race_first) (simp only: reaches_latest [OF assms(1,4) st] assms(5))
  have r2: "race e sid qid a b (replicate 5 False) (ALatest q (Some c) st, AStart, ?entry a g)
      = (ALatest q (Some c) st, ALatest q (Some c) st, ?entry b (?entry a g))"
    by (rule race_second) (simp only: reaches_latest [OF second quiz(1) state] quiz(2))
  have r3: "race e sid qid a b (replicate 3 True) (ALatest q (Some c) st, p', h) = (ADone, p', ?win a h)" for p' h
    by (rule race_first) (rule wins_from_latest)
  have r4: "race e sid qid a b (replicate 3 False) (p, ALatest q (Some c) st, h) = (p, ADone, ?win b h)" for p h
    by (rule race_second) (rule wins_from_latest)
  have "race e sid qid a b double_win (AStart, AStart, g) = (ADone, ADone, ?win b (?win a (?entry b (?entry a g))))"
    unfolding double_win_def race_append r1 r2 r3 r4 ..
  then show ?thesis
    by (simp add: wins_pays [OF refl assms(6)] winner_state_def)
qed

text \<open>Two students and the instructor, with the question open.\<close>

definition contest :: gateway where
  "contest = demo_run (joins ''1'' ''a'' @ joins ''3'' ''b'' @ joins ''2'' ''i'' @
     [Packet ''2'' (BuzzerStart ''s'' ''q'')])"

definition contestant :: "string \<Rightarrow> answerer" where
  "contestant c = \<lparr>an_cid = c, an_sk = the (sock contest c), an_user = the (sk_user (the (sock contest c))),
     an_index = 1\<rparr>"

theorem concurrent_answers_both_win_witness:
  "case race demo_env ''s'' ''q'' (contestant ''1'') (contestant ''3'') double_win (AStart, AStart, contest) of
     (p, p', h) \<Rightarrow>
       p = ADone \<and> p' = ADone \<and>
       ps_ledger (g_points h) = ps_ledger (g_points contest) @
         map (\<lambda>x. \<lparr>le_studentId = jwt_sub (an_user x), le_courseId = ''c'',
                le_delta = qq_points (hd (db_questions demo_db)),
                le_reason = BUZZER_WIN, le_refId = Some (qq_id (hd (db_questions demo_db)))\<rparr>)
           [contestant ''1'', contestant ''3''] \<and>
       Option.bind (rs_buzzer (g_room h ''s'')) bz_winner =
         Some (room_user_of (an_sk (contestant ''3'')) (an_user (contestant ''3'')))"
proof (rule concurrent_answers_both_win)
  let ?q = "hd (db_questions demo_db)" and ?qz = "hd (db_quizzes demo_db)"
  show "may_win contest ''s'' ''q'' ?q (contestant ''1'')" by code_simp
  show "may_win contest ''s'' ''q'' ?q (contestant ''3'')" by code_simp
  show "jwt_sub (an_user (contestant ''1'')) \<noteq> jwt_sub (an_user (contestant ''3''))" by code_simp
  show "question_quiz (g_db contest) ''q'' = Some (?q, ?qz)" by code_simp
  show "quiz_course (g_db contest) ?qz = Some ''c''" by code_simp
qed simp

end
