(* ===== verification/Courses.thy ===== *)
theory Courses
  imports Database
begin

text \<open>
  \<open>src/courses/courses.service.ts\<close>: who may act on a course. Every service that changes
  coursework asks one of these; the rest of the course service is not modelled yet.
\<close>

definition assert_can_manage_course :: "db \<Rightarrow> jwt_payload \<Rightarrow> string \<Rightarrow> unit result" where
  "assert_can_manage_course d user courseId =
     (case find_course d courseId of
        None \<Rightarrow> Inl (NotFound ''Course not found'')
      | Some course \<Rightarrow>
          let isOwningAdmin =
                (jwt_role user = ORG_ADMIN \<and>
                 (case jwt_organizationId user of None \<Rightarrow> False
                  | Some oid \<Rightarrow> oid \<noteq> [] \<and> co_organizationId course = Some oid))
          in if isOwningAdmin \<or> co_instructorId course = Some (jwt_sub user) then Inr ()
             else Inl (Forbidden ''Not your course''))"

definition assert_course_owner :: "db \<Rightarrow> string \<Rightarrow> string \<Rightarrow> unit result" where
  "assert_course_owner d instructorId courseId =
     (case find_course d courseId of
        None \<Rightarrow> Inl (NotFound ''Course not found'')
      | Some course \<Rightarrow>
          if co_instructorId course \<noteq> Some instructorId then Inl (Forbidden ''Not your course'') else Inr ())"

text \<open>\<open>assertOrgCourse\<close>: a course outside the organization is not found.\<close>

definition assert_org_course :: "db \<Rightarrow> string \<Rightarrow> string \<Rightarrow> unit result" where
  "assert_org_course d orgId courseId =
     (case find_course d courseId of
        None \<Rightarrow> Inl (NotFound ''Course not found'')
      | Some course \<Rightarrow>
          if co_organizationId course \<noteq> Some orgId then Inl (NotFound ''Course not found'') else Inr ())"

text \<open>\<open>getCourseFor\<close>: another organization's course is not found; an instructor teaches the
  course or one of its batches, the courses whose parent it is.\<close>

definition get_course_for :: "db \<Rightarrow> (string \<times> string) list \<Rightarrow> jwt_payload \<Rightarrow> string \<Rightarrow> course_row result" where
  "get_course_for d batches user i =
     (case find_course d i of
        None \<Rightarrow> Inl (NotFound ''Course not found'')
      | Some c \<Rightarrow>
          if jwt_organizationId user = None \<or> jwt_organizationId user = Some [] \<or> co_organizationId c \<noteq> jwt_organizationId user
          then Inl (NotFound ''Course not found'')
          else if jwt_role user = INSTRUCTOR \<and> co_instructorId c \<noteq> Some (jwt_sub user) \<and>
                  \<not> list_ex (\<lambda>b. co_instructorId b = Some (jwt_sub user) \<and> (co_id b, co_id c) \<in> set batches) (db_courses d)
          then Inl (Forbidden ''This course is not assigned to you'')
          else Inr c)"

section \<open>What an authorisation check promises its callers\<close>

text \<open>A check reads the database and says yes only to a user with a tie to an existing course.\<close>

locale course_gate =
  fixes check :: "db \<Rightarrow> 'u \<Rightarrow> string \<Rightarrow> unit result"
    and tie :: "'u \<Rightarrow> course_row \<Rightarrow> bool"
  assumes check_tied: "check d u c = Inr () \<Longrightarrow> \<exists>row. find_course d c = Some row \<and> tie u row"
    and tied_check: "find_course d c = Some row \<Longrightarrow> tie u row \<Longrightarrow> check d u c = Inr ()"
begin

lemma exact: "check d u c = Inr () \<longleftrightarrow> (\<exists>row. find_course d c = Some row \<and> tie u row)"
  using check_tied tied_check by blast

lemma same_course: "find_course d' c = find_course d c \<Longrightarrow> (check d' u c = Inr ()) = (check d u c = Inr ())"
  by (simp add: exact)

end

definition manages :: "jwt_payload \<Rightarrow> course_row \<Rightarrow> bool" where
  "manages u c \<longleftrightarrow>
     co_instructorId c = Some (jwt_sub u) \<or>
     (jwt_role u = ORG_ADMIN \<and> jwt_organizationId u \<noteq> None \<and> jwt_organizationId u \<noteq> Some [] \<and>
      co_organizationId c = jwt_organizationId u)"

interpretation manager: course_gate assert_can_manage_course manages
  by unfold_locales
    (auto simp: assert_can_manage_course_def manages_def Let_def split: option.splits if_splits)

interpretation owner: course_gate assert_course_owner "\<lambda>i c. co_instructorId c = Some i"
  by unfold_locales (auto simp: assert_course_owner_def split: option.splits if_splits)

interpretation org_course: course_gate assert_org_course "\<lambda>i c. co_organizationId c = Some i"
  by unfold_locales (auto simp: assert_org_course_def split: option.splits if_splits)

end
