(* ===== verification/Quiz.thy ===== *)
theory Quiz
  imports Courses RoomGateway
begin

text \<open>
  \<open>src/quiz/quiz.service.ts\<close>: authoring, reading, answering and marking quizzes over HTTP. The
  state is the database and the points service. Answering runs in a transaction: the answer row
  and the award are there together or not at all. The order of rows a query leaves open is the
  table's.
\<close>

section \<open>Requests\<close>

record quiz_question_dto =
  qd_body :: string
  qd_options :: "string list"
  qd_correctIndex :: int
  qd_timeLimitSec :: "int option"
  qd_points :: "int option"

record quiz_dto =
  qo_sectionId :: "string option"
  qo_sessionId :: "string option"
  qo_courseId :: "string option"
  qo_type :: quiz_type
  qo_questions :: "quiz_question_dto list"

text \<open>What the validation pipe lets through.\<close>

definition question_dto_ok :: "quiz_question_dto \<Rightarrow> bool" where
  "question_dto_ok q \<longleftrightarrow>
     3 \<le> length (qd_body q) \<and> length (qd_body q) \<le> 2000 \<and>
     2 \<le> length (qd_options q) \<and> length (qd_options q) \<le> 6 \<and>
     list_all (\<lambda>s. length s \<le> 500) (qd_options q) \<and> 0 \<le> qd_correctIndex q \<and>
     (case qd_timeLimitSec q of None \<Rightarrow> True | Some t \<Rightarrow> 5 \<le> t \<and> t \<le> 600) \<and>
     (case qd_points q of None \<Rightarrow> True | Some t \<Rightarrow> 1 \<le> t \<and> t \<le> 1000)"

definition quiz_dto_ok :: "quiz_dto \<Rightarrow> bool" where
  "quiz_dto_ok dto \<longleftrightarrow>
     1 \<le> length (qo_questions dto) \<and> length (qo_questions dto) \<le> 50 \<and>
     list_all question_dto_ok (qo_questions dto)"

section \<open>Helpers\<close>

text \<open>An id that is absent or empty is falsy.\<close>

definition given :: "string option \<Rightarrow> string option" where
  "given x = (case x of Some s \<Rightarrow> if s = [] then None else Some s | None \<Rightarrow> None)"

text \<open>One branch of \<open>resolveCourseId\<close>: an id that is given must exist.\<close>

definition resolve_one :: "string option \<Rightarrow> (string \<Rightarrow> 'r option) \<Rightarrow> ('r \<Rightarrow> string) \<Rightarrow> string \<Rightarrow> string option result" where
  "resolve_one i findRow courseOf msg =
     (case given i of
        None \<Rightarrow> Inr None
      | Some x \<Rightarrow> (case findRow x of None \<Rightarrow> Inl (NotFound msg) | Some r \<Rightarrow> Inr (Some (courseOf r))))"

definition resolve_course_id :: "db \<Rightarrow> quiz_dto \<Rightarrow> string result" where
  "resolve_course_id d dto =
     (if given (qo_sectionId dto) = None \<and> given (qo_sessionId dto) = None \<and> given (qo_courseId dto) = None
      then Inl (BadRequest ''sectionId, sessionId or courseId is required'')
      else
        rbind (resolve_one (qo_sectionId dto) (find_section d) se_courseId ''Section not found'') (\<lambda>fromSection.
        rbind (resolve_one (qo_sessionId dto) (find_session d) ls_courseId ''Session not found'') (\<lambda>fromSession.
        rbind (resolve_one (qo_courseId dto) (find_course d) co_id ''Course not found'') (\<lambda>fromCourse.
          let ids = List.map_filter given [fromSection, fromSession, fromCourse] in
          if length (remdups ids) > 1
          then Inl (BadRequest ''section, session and course must belong to the same course'')
          else (case fromCourse of
                  Some c \<Rightarrow> Inr c
                | None \<Rightarrow> (case fromSection of
                    Some c \<Rightarrow> Inr c
                  | None \<Rightarrow> (case fromSession of Some c \<Rightarrow> Inr c | None \<Rightarrow> Inl (Internal ''unreachable''))))))))"

definition course_id_of :: "db \<Rightarrow> quiz_row \<Rightarrow> string result" where
  "course_id_of d qz =
     (case Option.bind (given (qz_sectionId qz)) (find_section d) of
        Some s \<Rightarrow> Inr (se_courseId s)
      | None \<Rightarrow>
          (case Option.bind (given (qz_sessionId qz)) (find_session d) of
             Some s \<Rightarrow> Inr (ls_courseId s)
           | None \<Rightarrow> Inl (NotFound ''Quiz has no resolvable course'')))"

definition assert_enrolled :: "db \<Rightarrow> string \<Rightarrow> string \<Rightarrow> unit result" where
  "assert_enrolled d studentId courseId =
     guard_or (enrolled d courseId studentId) (Forbidden ''Not enrolled'')"

definition quiz_questions :: "db \<Rightarrow> string \<Rightarrow> question_row list" where
  "quiz_questions d quizId = filter (\<lambda>q. qq_quizId q = quizId) (db_questions d)"

section \<open>Operations\<close>

text \<open>The ids of the quiz and of its questions, and the time, are inputs. An id that is present
  must refer to a row when the quiz is stored (an empty one does not).\<close>

definition question_row_of :: "string \<Rightarrow> string \<times> quiz_question_dto \<Rightarrow> question_row" where
  "question_row_of quizId = (\<lambda>(i, q).
     \<lparr>qq_id = i, qq_quizId = quizId, qq_body = qd_body q, qq_options = qd_options q,
      qq_correctIndex = qd_correctIndex q,
      qq_timeLimitSec = (case qd_timeLimitSec q of Some t \<Rightarrow> t | None \<Rightarrow> 60),
      qq_points = (case qd_points q of Some p \<Rightarrow> p | None \<Rightarrow> 25)\<rparr>)"

definition refers :: "string option \<Rightarrow> (string \<Rightarrow> 'r option) \<Rightarrow> bool" where
  "refers i findRow = (case i of None \<Rightarrow> True | Some x \<Rightarrow> findRow x \<noteq> None)"

text \<open>The first question whose answer key points past its options.\<close>

definition key_out_of_range :: "quiz_question_dto list \<Rightarrow> http_error option" where
  "key_out_of_range qs =
     map_option (\<lambda>(i, q). BadRequest (''questions['' @ dec i @ ''].correctIndex is out of range''))
       (find (\<lambda>(i, q). qd_correctIndex q \<ge> int (length (qd_options q))) (enumerate 0 qs))"

definition quiz_create ::
  "string \<Rightarrow> string list \<Rightarrow> int \<Rightarrow> db \<Rightarrow> jwt_payload \<Rightarrow> quiz_dto \<Rightarrow> (db \<times> quiz_row \<times> question_row list) result"
where
  "quiz_create quizId questionIds now d user dto =
     rbind (resolve_course_id d dto) (\<lambda>courseId.
     rbind (assert_can_manage_course d user courseId) (\<lambda>_.
     rbind (case key_out_of_range (qo_questions dto) of Some e \<Rightarrow> Inl e | None \<Rightarrow> Inr ()) (\<lambda>_.
     rbind (guard_or (refers (qo_sectionId dto) (find_section d) \<and> refers (qo_sessionId dto) (find_session d))
              (Internal ''foreign key'')) (\<lambda>_.
       let qz = \<lparr>qz_id = quizId, qz_sectionId = qo_sectionId dto, qz_sessionId = qo_sessionId dto,
                 qz_courseId = Some courseId, qz_type = qo_type dto, qz_createdAt = now\<rparr>;
           qs = map (question_row_of quizId) (zip questionIds (qo_questions dto))
       in Inr (d\<lparr>db_quizzes := db_quizzes d @ [qz], db_questions := db_questions d @ qs\<rparr>, qz, qs)))))"

definition with_questions :: "db \<Rightarrow> quiz_row list \<Rightarrow> (quiz_row \<times> question_row list) list" where
  "with_questions d qzs = map (\<lambda>z. (z, quiz_questions d (qz_id z))) qzs"

definition list_for_session :: "db \<Rightarrow> jwt_payload \<Rightarrow> string \<Rightarrow> (quiz_row \<times> question_row list) list result" where
  "list_for_session d user sessionId =
     rbind (from_option (NotFound ''Session not found'') (find_session d sessionId)) (\<lambda>s.
     rbind (assert_can_manage_course d user (ls_courseId s)) (\<lambda>_.
       Inr (with_questions d (sort_key qz_createdAt
         (filter (\<lambda>z. qz_sessionId z = Some sessionId \<or> qz_courseId z = Some (ls_courseId s)) (db_quizzes d))))))"

definition list_for_course :: "db \<Rightarrow> jwt_payload \<Rightarrow> string \<Rightarrow> (quiz_row \<times> question_row list) list result" where
  "list_for_course d user courseId =
     rbind (assert_can_manage_course d user courseId) (\<lambda>_.
       Inr (with_questions d (sort_key (\<lambda>z. - qz_createdAt z)
         (filter (\<lambda>z. qz_courseId z = Some courseId \<and> qz_type z = BUZZER) (db_quizzes d)))))"

definition remove_question :: "db \<Rightarrow> string \<Rightarrow> string \<Rightarrow> db" where
  "remove_question d questionId quizId =
     (let d1 = d\<lparr>db_answers := filter (\<lambda>a. qa_questionId a \<noteq> questionId) (db_answers d)\<rparr>;
          d2 = d1\<lparr>db_questions := filter (\<lambda>q. qq_id q \<noteq> questionId) (db_questions d1)\<rparr>
      in if quiz_questions d2 quizId = []
         then d2\<lparr>db_quizzes := filter (\<lambda>z. qz_id z \<noteq> quizId) (db_quizzes d2)\<rparr> else d2)"

definition delete_question :: "db \<Rightarrow> jwt_payload \<Rightarrow> string \<Rightarrow> db result" where
  "delete_question d user questionId =
     rbind (from_option (NotFound ''Question not found'') (question_quiz d questionId)) (\<lambda>(q, qz).
     rbind (from_option (NotFound ''Question not found'')
              (given (case qz_courseId qz of Some c \<Rightarrow> Some c
                 | None \<Rightarrow> map_option ls_courseId (Option.bind (given (qz_sessionId qz)) (find_session d)))))
       (\<lambda>courseId.
     rbind (assert_can_manage_course d user courseId) (\<lambda>_. Inr (remove_question d questionId (qz_id qz)))))"

text \<open>A student is sent the questions without \<open>correctIndex\<close>.\<close>

record student_question =
  sq_id :: string
  sq_quizId :: string
  sq_body :: string
  sq_options :: "string list"
  sq_timeLimitSec :: int
  sq_points :: int

definition strip_key :: "question_row \<Rightarrow> student_question" where
  "strip_key q = \<lparr>sq_id = qq_id q, sq_quizId = qq_quizId q, sq_body = qq_body q, sq_options = qq_options q,
     sq_timeLimitSec = qq_timeLimitSec q, sq_points = qq_points q\<rparr>"

datatype quiz_view = ManagerView quiz_row "question_row list" | StudentView quiz_row "student_question list"

definition quiz_get :: "db \<Rightarrow> jwt_payload \<Rightarrow> string \<Rightarrow> quiz_view result" where
  "quiz_get d user i =
     rbind (from_option (NotFound ''Quiz not found'') (find_quiz d i)) (\<lambda>qz.
     rbind (course_id_of d qz) (\<lambda>courseId.
       if jwt_role user \<noteq> STUDENT
       then rbind (assert_can_manage_course d user courseId) (\<lambda>_. Inr (ManagerView qz (quiz_questions d i)))
       else rbind (assert_enrolled d (jwt_sub user) courseId) (\<lambda>_.
              Inr (StudentView qz (map strip_key (quiz_questions d i))))))"

text \<open>\<open>up\<close> says whether Redis takes the projection's bump.\<close>

definition quiz_answer ::
  "bool \<Rightarrow> int \<Rightarrow> db \<times> points_state \<Rightarrow> jwt_payload \<Rightarrow> string \<Rightarrow> int \<Rightarrow> ((db \<times> points_state) \<times> bool \<times> int) result"
where
  "quiz_answer up now s user questionId answerIndex =
     rbind (from_option (NotFound ''Question not found'') (question_quiz (fst s) questionId)) (\<lambda>(q, qz).
     rbind (guard_or (\<not> answerIndex \<ge> int (length (qq_options q))) (BadRequest ''answerIndex is out of range'')) (\<lambda>_.
     rbind (course_id_of (fst s) qz) (\<lambda>courseId.
     rbind (assert_enrolled (fst s) (jwt_sub user) courseId) (\<lambda>_.
       let isCorrect = (answerIndex = qq_correctIndex q) in
       (case create_answer (fst s) \<lparr>qa_questionId = questionId, qa_studentId = jwt_sub user,
                qa_answerIndex = answerIndex, qa_isCorrect = isCorrect, qa_receivedAt = now\<rparr> of
          None \<Rightarrow> Inl (Conflict ''Already answered'')
        | Some d \<Rightarrow>
            let ps = (if isCorrect
                      then award up (snd s) \<lparr>le_studentId = jwt_sub user, le_courseId = courseId,
                             le_delta = points_quiz_correct, le_reason = QUIZ_CORRECT,
                             le_refId = Some questionId\<rparr>
                      else snd s)
            in Inr ((d, ps), isCorrect, if isCorrect then points_quiz_correct else 0))))))"

record question_results =
  qr_questionId :: string
  qr_body :: string
  qr_correctIndex :: int
  qr_totalAnswers :: nat
  qr_correctCount :: nat
  qr_answers :: "(user_row option \<times> int \<times> bool \<times> int) list"

definition quiz_results :: "db \<Rightarrow> jwt_payload \<Rightarrow> string \<Rightarrow> question_results list result" where
  "quiz_results d user quizId =
     rbind (from_option (NotFound ''Quiz not found'') (find_quiz d quizId)) (\<lambda>qz.
     rbind (course_id_of d qz) (\<lambda>courseId.
     rbind (assert_can_manage_course d user courseId) (\<lambda>_.
       Inr (map (\<lambda>q.
         let answers = sort_key qa_receivedAt (filter (\<lambda>a. qa_questionId a = qq_id q) (db_answers d))
         in \<lparr>qr_questionId = qq_id q, qr_body = qq_body q, qr_correctIndex = qq_correctIndex q,
             qr_totalAnswers = length answers, qr_correctCount = length (filter qa_isCorrect answers),
             qr_answers = map (\<lambda>a. (find_user d (qa_studentId a), qa_answerIndex a, qa_isCorrect a,
               qa_receivedAt a)) answers\<rparr>) (quiz_questions d quizId)))))"

section \<open>Lemmas\<close>

lemma find_enumerate: "find (\<lambda>(i, q). P q) (enumerate n qs) = None \<longleftrightarrow> list_all (\<lambda>q. \<not> P q) qs"
  by (induction qs arbitrary: n) auto

lemma key_in_range:
  "key_out_of_range qs = None \<longleftrightarrow> list_all (\<lambda>q. qd_correctIndex q < int (length (qd_options q))) qs"
  using find_enumerate [of "\<lambda>q. qd_correctIndex q \<ge> int (length (qd_options q))" 0 qs]
  by (simp add: key_out_of_range_def not_le)

lemma given_Some: "given i = Some x \<longleftrightarrow> i = Some x \<and> x \<noteq> []"
  by (auto simp: given_def split: option.splits)

lemma resolve_oneD:
  assumes "resolve_one i f g msg = Inr r"
  shows "r = (case given i of None \<Rightarrow> None | Some x \<Rightarrow> map_option g (f x))"
    and "given i = Some x \<Longrightarrow> f x \<noteq> None"
  using assms by (auto simp: resolve_one_def split: option.splits)

text \<open>Course ids are never empty: they are generated.\<close>

definition ids_ok :: "db \<Rightarrow> bool" where
  "ids_ok d \<longleftrightarrow>
     list_all (\<lambda>r. co_id r \<noteq> []) (db_courses d) \<and> list_all (\<lambda>r. se_courseId r \<noteq> []) (db_sections d) \<and>
     list_all (\<lambda>r. ls_courseId r \<noteq> []) (db_sessions d)"

lemma ids_okD:
  assumes "ids_ok d"
  shows "find_section d x = Some se \<Longrightarrow> se_courseId se \<noteq> []"
    and "find_session d y = Some ls \<Longrightarrow> ls_courseId ls \<noteq> []"
    and "find_course d z = Some co \<Longrightarrow> co_id co \<noteq> []"
  using assms find_sessionD [of d y ls] find_courseD [of d z co]
  by (auto simp: ids_ok_def list_all_iff find_section_def find_Some_iff)

lemma same_id: "length (remdups xs) \<le> 1 \<Longrightarrow> x \<in> set xs \<Longrightarrow> y \<in> set xs \<Longrightarrow> x = y"
proof -
  assume "length (remdups xs) \<le> 1" "x \<in> set xs" "y \<in> set xs"
  then have "card (set xs) \<le> 1" by (simp add: length_remdups_card_conv)
  then show "x = y" using \<open>x \<in> set xs\<close> \<open>y \<in> set xs\<close> by (simp add: card_le_Suc0_iff_eq)
qed

text \<open>Whatever a quiz is attached to belongs to the course it is filed under.\<close>

lemma resolve_course_idD:
  assumes r: "resolve_course_id d dto = Inr c" and ok: "ids_ok d"
  shows "given (qo_sectionId dto) = Some x \<Longrightarrow> find_section d x = Some se \<Longrightarrow> se_courseId se = c"
    and "given (qo_sessionId dto) = Some x \<Longrightarrow> find_session d x = Some ls \<Longrightarrow> ls_courseId ls = c"
    and "given (qo_courseId dto) = Some x \<Longrightarrow> c = x"
    and "c \<noteq> []"
proof -
  let ?last = "\<lambda>a b e. if length (remdups (List.map_filter given [a, b, e])) > 1
      then Inl (BadRequest ''section, session and course must belong to the same course'')
      else (case e of Some c \<Rightarrow> Inr c
            | None \<Rightarrow> (case a of Some c \<Rightarrow> Inr c
              | None \<Rightarrow> (case b of Some c \<Rightarrow> Inr c | None \<Rightarrow> Inl (Internal ''unreachable''))))"
  have "rbind (resolve_one (qo_sectionId dto) (find_section d) se_courseId ''Section not found'') (\<lambda>a.
      rbind (resolve_one (qo_sessionId dto) (find_session d) ls_courseId ''Session not found'') (\<lambda>b.
      rbind (resolve_one (qo_courseId dto) (find_course d) co_id ''Course not found'') (\<lambda>e. ?last a b e))) = Inr c"
    using r unfolding resolve_course_id_def Let_def by (simp split: if_split_asm)
  then obtain a b e where
    a: "resolve_one (qo_sectionId dto) (find_section d) se_courseId ''Section not found'' = Inr a" and
    b: "resolve_one (qo_sessionId dto) (find_session d) ls_courseId ''Session not found'' = Inr b" and
    e: "resolve_one (qo_courseId dto) (find_course d) co_id ''Course not found'' = Inr e" and
    l: "?last a b e = Inr c"
    by (simp only: rbind_Inr_iff) blast
  from l have one: "length (remdups (List.map_filter given [a, b, e])) \<le> 1"
    by (simp split: if_split_asm)
  from l have c: "Some c \<in> {a, b, e}"
    by (simp split: if_split_asm option.splits)
  have full: "r \<noteq> Some []" if "r \<in> {a, b, e}" for r
    using that resolve_oneD(1) [OF a] resolve_oneD(1) [OF b] resolve_oneD(1) [OF e] ids_okD [OF ok]
    by (auto split: option.splits dest!: sym [where s = "Some []"])
  have ids: "set (List.map_filter given [a, b, e]) = {x. Some x \<in> {a, b, e}}"
    using full by (auto simp: List.map_filter_def given_def split: option.splits)
  have same: "Some x \<in> {a, b, e} \<Longrightarrow> x = c" for x
    using same_id [OF one] c unfolding ids by blast
  show "se_courseId se = c" if "given (qo_sectionId dto) = Some x" "find_section d x = Some se"
    using same [of "se_courseId se"] resolve_oneD(1) [OF a] that by simp
  show "ls_courseId ls = c" if "given (qo_sessionId dto) = Some x" "find_session d x = Some ls"
    using same [of "ls_courseId ls"] resolve_oneD(1) [OF b] that by simp
  show "c = x" if g: "given (qo_courseId dto) = Some x"
  proof -
    obtain row where "find_course d x = Some row" using resolve_oneD(2) [OF e g] by auto
    then show ?thesis using same [of x] resolve_oneD(1) [OF e] g by (auto dest: find_courseD)
  qed
  show "c \<noteq> []" using c full by auto
qed

section \<open>Paying for answers\<close>

definition quiz_paid :: "string \<Rightarrow> string \<Rightarrow> ledger_entry list \<Rightarrow> nat" where
  "quiz_paid student question l =
     length (filter (\<lambda>e. le_reason e = QUIZ_CORRECT \<and> le_studentId e = student \<and> le_refId e = Some question) l)"

datatype quiz_op = Answer bool int jwt_payload string int | DeleteQuestion jwt_payload string

fun quiz_step :: "db \<times> points_state \<Rightarrow> quiz_op \<Rightarrow> db \<times> points_state" where
  "quiz_step s (Answer up now u q i) = (case quiz_answer up now s u q i of Inl _ \<Rightarrow> s | Inr (s', _) \<Rightarrow> s')"
| "quiz_step s (DeleteQuestion u q) = (case delete_question (fst s) u q of Inl _ \<Rightarrow> s | Inr d \<Rightarrow> (d, snd s))"

definition paid_inv :: "db \<times> points_state \<Rightarrow> bool" where
  "paid_inv s \<longleftrightarrow>
     answers_unique (fst s) \<and>
     (\<forall>a \<in> set (db_answers (fst s)).
        quiz_paid (qa_studentId a) (qa_questionId a) (ps_ledger (snd s)) = (if qa_isCorrect a then 1 else 0)) \<and>
     (\<forall>u q. quiz_paid u q (ps_ledger (snd s)) \<le> 1) \<and>
     (\<forall>u q. quiz_paid u q (ps_ledger (snd s)) \<noteq> 0 \<longrightarrow> find_question (fst s) q \<noteq> None \<longrightarrow>
        (\<exists>a \<in> set (db_answers (fst s)). qa_studentId a = u \<and> qa_questionId a = q))"

lemma award_ledger' [simp]: "ps_ledger (award up s x) = ps_ledger s @ [x]"
  by (simp add: award_def bump_projection_def)

lemma quiz_answerD:
  assumes "quiz_answer up now s u q i = Inr (s', c, p)"
  obtains row qz course d where "question_quiz (fst s) q = Some (row, qz)" "i < int (length (qq_options row))"
    "course_id_of (fst s) qz = Inr course" "enrolled (fst s) course (jwt_sub u)" "c = (i = qq_correctIndex row)"
    "p = (if c then points_quiz_correct else 0)"
    "create_answer (fst s) \<lparr>qa_questionId = q, qa_studentId = jwt_sub u, qa_answerIndex = i,
       qa_isCorrect = c, qa_receivedAt = now\<rparr> = Some d"
    "s' = (d, if c then award up (snd s) \<lparr>le_studentId = jwt_sub u, le_courseId = course,
       le_delta = points_quiz_correct, le_reason = QUIZ_CORRECT, le_refId = Some q\<rparr> else snd s)"
  using assms
  by (auto simp: quiz_answer_def assert_enrolled_def res Let_def split: option.splits prod.splits)

lemma quiz_paid_snoc:
  "quiz_paid u q (l @ [e]) =
     quiz_paid u q l + (if le_reason e = QUIZ_CORRECT \<and> le_studentId e = u \<and> le_refId e = Some q then 1 else 0)"
  by (simp add: quiz_paid_def)

lemma paid_answer:
  assumes inv: "paid_inv s" and ok: "quiz_answer up now s u q i = Inr (s', c, p)"
  shows "paid_inv s'"
proof -
  obtain row qz course d where q: "question_quiz (fst s) q = Some (row, qz)" and
    d: "create_answer (fst s) \<lparr>qa_questionId = q, qa_studentId = jwt_sub u, qa_answerIndex = i,
       qa_isCorrect = c, qa_receivedAt = now\<rparr> = Some d" and
    s': "s' = (d, if c then award up (snd s) \<lparr>le_studentId = jwt_sub u, le_courseId = course,
       le_delta = points_quiz_correct, le_reason = QUIZ_CORRECT, le_refId = Some q\<rparr> else snd s)"
    using quiz_answerD [OF ok] by metis
  let ?a = "\<lparr>qa_questionId = q, qa_studentId = jwt_sub u, qa_answerIndex = i, qa_isCorrect = c, qa_receivedAt = now\<rparr>"
  have rows: "db_answers d = db_answers (fst s) @ [?a]" "find_question d = find_question (fst s)"
    and new: "\<not> (\<exists>a \<in> set (db_answers (fst s)). qa_questionId a = q \<and> qa_studentId a = jwt_sub u)"
    using d by (auto simp: create_answer_def list_ex_iff find_question_def fun_eq_iff split: if_splits)
  have "find_question (fst s) q \<noteq> None" using q by (auto simp: question_quiz_def bind_eq_Some_conv)
  then have zero: "quiz_paid (jwt_sub u) q (ps_ledger (snd s)) = 0"
    using inv new unfolding paid_inv_def by blast
  have paid: "quiz_paid x y (ps_ledger (snd s')) =
      quiz_paid x y (ps_ledger (snd s)) + (if c \<and> x = jwt_sub u \<and> y = q then 1 else 0)" for x y
    by (auto simp: s' quiz_paid_snoc)
  have row1: "fst s' = d" by (simp add: s')
  show ?thesis
    using inv create_answer_unique [OF d] zero new
    unfolding paid_inv_def paid row1 rows by auto
qed

lemma find_removed:
  assumes "find_question (remove_question d q z) x = Some y"
  shows "x \<noteq> q \<and> (\<exists>y. find_question d x = Some y)"
proof -
  have "db_questions (remove_question d q z) = filter (\<lambda>x. qq_id x \<noteq> q) (db_questions d)"
    by (simp add: remove_question_def Let_def)
  then have "y \<in> set (db_questions d)" "qq_id y = x" "x \<noteq> q"
    using find_questionD [OF assms] by auto
  then have "find_question d x \<noteq> None" by (auto simp: find_question_def find_None_iff)
  then show ?thesis using \<open>x \<noteq> q\<close> by blast
qed

lemma answers_removed: "db_answers (remove_question d q z) = filter (\<lambda>a. qa_questionId a \<noteq> q) (db_answers d)"
  by (simp add: remove_question_def Let_def)

lemma paid_remove:
  assumes "paid_inv (d, ps)"
  shows "paid_inv (remove_question d q z, ps)"
proof -
  have "answers_unique (remove_question d q z)"
    using assms by (auto simp: paid_inv_def answers_unique_def answers_removed distinct_map inj_on_def)
  moreover have "\<exists>a \<in> set (db_answers (remove_question d q z)). qa_studentId a = u \<and> qa_questionId a = x"
    if "quiz_paid u x (ps_ledger ps) \<noteq> 0" "find_question (remove_question d q z) x \<noteq> None" for u x
  proof -
    have "\<exists>y. find_question (remove_question d q z) x = Some y" using that(2) by blast
    then have x: "x \<noteq> q" "find_question d x \<noteq> None" using find_removed by fast+
    then have "\<exists>a \<in> set (db_answers d). qa_studentId a = u \<and> qa_questionId a = x"
      using assms that(1) by (simp add: paid_inv_def)
    then show ?thesis using x(1) by (auto simp: answers_removed)
  qed
  ultimately show ?thesis using assms by (simp add: paid_inv_def answers_removed)
qed

lemma delete_questionD:
  "delete_question d u q = Inr d' \<Longrightarrow> \<exists>z. d' = remove_question d q z"
  by (auto simp: delete_question_def res split: prod.splits)

interpretation paying: invariant_system quiz_step paid_inv
proof unfold_locales
  fix s x
  assume "paid_inv s"
  then show "paid_inv (quiz_step s x)"
    by (cases x; cases s)
      (auto split: sum.splits prod.splits intro: paid_answer dest!: delete_questionD intro!: paid_remove)
qed

section \<open>What a student can learn\<close>

text \<open>The database with every answer key blanked out.\<close>

definition blank_keys :: "db \<Rightarrow> db" where
  "blank_keys d = d\<lparr>db_questions := map (\<lambda>q. q\<lparr>qq_correctIndex := 0\<rparr>) (db_questions d)\<rparr>"

lemma blank_tables [simp]:
  "find_quiz (blank_keys d) = find_quiz d" "find_section (blank_keys d) = find_section d"
  "find_session (blank_keys d) = find_session d" "find_course (blank_keys d) = find_course d"
  "enrolled (blank_keys d) = enrolled d"
  by (simp_all add: blank_keys_def fun_eq_iff find_quiz_def find_section_def find_session_def
      find_course_def enrolled_def)

lemma blank_course [simp]: "course_id_of (blank_keys d) qz = course_id_of d qz"
  by (simp add: course_id_of_def cong: option.case_cong)

lemma blank_strip [simp]: "map strip_key (quiz_questions (blank_keys d) i) = map strip_key (quiz_questions d i)"
  by (simp add: quiz_questions_def blank_keys_def filter_map comp_def strip_key_def)

lemma blank_get: "jwt_role u = STUDENT \<Longrightarrow> quiz_get (blank_keys d) u i = quiz_get d u i"
  by (simp add: quiz_get_def assert_enrolled_def)

section \<open>Rows by id\<close>

lemma distinct_zip_fst: "distinct xs \<Longrightarrow> distinct (map fst (zip xs ys))"
  by (simp add: map_fst_zip_take distinct_take)

section \<open>Properties\<close>

text \<open>A course with a section, its instructor, a student and a section quiz of one question.\<close>

definition quiz_user :: "string \<Rightarrow> role \<Rightarrow> jwt_payload" where
  "quiz_user i r = \<lparr>jwt_sub = i, jwt_role = r, jwt_name = i, jwt_email = i, jwt_organizationId = None,
     jwt_emailVerified = True, jwt_isSuperAdmin = False, jwt_recorder = None, jwt_preview = None\<rparr>"

definition quiz_db :: db where
  "quiz_db = empty_db\<lparr>
     db_courses := [\<lparr>co_id = ''c'', co_instructorId = Some ''i'', co_organizationId = None, co_pluginKeys = None\<rparr>],
     db_sections := [\<lparr>se_id = ''x'', se_courseId = ''c''\<rparr>],
     db_sessions := [\<lparr>ls_id = ''s'', ls_courseId = ''c'', ls_status = LIVE, ls_livekitRoom = ''s''\<rparr>],
     db_enrollments := [\<lparr>en_courseId = ''c'', en_studentId = ''a''\<rparr>],
     db_quizzes := [\<lparr>qz_id = ''z'', qz_sectionId = Some ''x'', qz_sessionId = None, qz_courseId = Some ''c'',
       qz_type = SECTION_QUIZ, qz_createdAt = 0\<rparr>],
     db_questions := [\<lparr>qq_id = ''q'', qq_quizId = ''z'', qq_body = ''?'', qq_options = [''y'', ''n''],
       qq_correctIndex = 1, qq_timeLimitSec = 60, qq_points = 25\<rparr>]\<rparr>"

definition demo_quiz :: quiz_dto where
  "demo_quiz = \<lparr>qo_sectionId = None, qo_sessionId = Some ''s'', qo_courseId = None, qo_type = BUZZER,
     qo_questions = [\<lparr>qd_body = ''1+1?'', qd_options = [''1'', ''2''], qd_correctIndex = 1,
       qd_timeLimitSec = None, qd_points = None\<rparr>]\<rparr>"

text \<open>C28: A student is paid for a quiz question exactly as often as it is answered right, and once
  at most: after any sequence of answers and deletions, the ledger holds at most one quiz award per
  student and question, every stored answer has its award if it is correct and none if it is not,
  and no student has two answers to a question.\<close>

theorem quiz_awards_match_answers:
  assumes "db_answers d = []" and "\<forall>u q. quiz_paid u q (ps_ledger ps) = 0"
  shows "let s = foldl quiz_step (d, ps) ops in
     answers_unique (fst s) \<and> quiz_paid u q (ps_ledger (snd s)) \<le> 1 \<and>
     (\<forall>a \<in> set (db_answers (fst s)).
        quiz_paid (qa_studentId a) (qa_questionId a) (ps_ledger (snd s)) = (if qa_isCorrect a then 1 else 0))"
proof -
  have "paid_inv (d, ps)" using assms by (simp add: paid_inv_def answers_unique_def)
  then have "paid_inv (foldl quiz_step (d, ps) ops)" by (rule paying.inv_run)
  then show ?thesis unfolding paid_inv_def Let_def by blast
qed

theorem quiz_awards_match_answers_witness:
  "let s = foldl quiz_step (quiz_db, points_start)
       [Answer True 1 (quiz_user ''a'' STUDENT) ''q'' 1, Answer True 2 (quiz_user ''a'' STUDENT) ''q'' 1]
   in answers_unique (fst s) \<and> quiz_paid ''a'' ''q'' (ps_ledger (snd s)) \<le> 1 \<and>
     (\<forall>a \<in> set (db_answers (fst s)).
        quiz_paid (qa_studentId a) (qa_questionId a) (ps_ledger (snd s)) = (if qa_isCorrect a then 1 else 0))"
  by (rule quiz_awards_match_answers) (simp_all add: quiz_db_def empty_db_def points_start_def quiz_paid_def)

text \<open>What a student is sent of a quiz does not depend on the answer keys: on two databases that
  differ in nothing but the keys of their questions, the same request of a student gets the same
  reply, error or quiz.\<close>

theorem students_never_see_answer_keys:
  assumes "blank_keys d = blank_keys d'" and "jwt_role u = STUDENT"
  shows "quiz_get d u i = quiz_get d' u i"
  using blank_get [OF assms(2), of d i] blank_get [OF assms(2), of d' i] assms(1) by simp

theorem students_never_see_answer_keys_witness:
  "quiz_get quiz_db (quiz_user ''a'' STUDENT) ''z'' = quiz_get (blank_keys quiz_db) (quiz_user ''a'' STUDENT) ''z'' \<and>
   (case quiz_get quiz_db (quiz_user ''a'' STUDENT) ''z'' of Inr _ \<Rightarrow> True | Inl _ \<Rightarrow> False)"
proof
  show "quiz_get quiz_db (quiz_user ''a'' STUDENT) ''z'' = quiz_get (blank_keys quiz_db) (quiz_user ''a'' STUDENT) ''z''"
    by (rule students_never_see_answer_keys) (simp_all add: blank_keys_def quiz_db_def quiz_user_def)
  show "case quiz_get quiz_db (quiz_user ''a'' STUDENT) ''z'' of Inr _ \<Rightarrow> True | Inl _ \<Rightarrow> False"
    by code_simp
qed

text \<open>A quiz that is created can be played: its author manages the course it is filed under,
  every question's key points at one of its options, and the buzzer of the session it is attached
  to, or of any session of its course, accepts its questions.\<close>

theorem created_quiz_is_playable:
  assumes "quiz_create i ids now d u dto = Inr (d', qz, qs)" and "ids_ok d"
    and "list_all question_dto_ok (qo_questions dto)"
  shows "\<exists>c. qz_courseId qz = Some c \<and> assert_can_manage_course d u c = Inr () \<and>
     (\<forall>q \<in> set qs. answer_correct q (qq_correctIndex q)) \<and>
     (\<forall>s \<in> set (db_sessions d). ls_courseId s = c \<or> Some (ls_id s) = given (qo_sessionId dto) \<longrightarrow>
        belongs_here d' s qz)"
proof -
  obtain c where r: "resolve_course_id d dto = Inr c" and m: "assert_can_manage_course d u c = Inr ()"
    and k: "key_out_of_range (qo_questions dto) = None"
    and qz: "qz_courseId qz = Some c" "qz_sessionId qz = qo_sessionId dto"
    and qs: "qs = map (question_row_of i) (zip ids (qo_questions dto))"
    using assms(1) by (auto simp: quiz_create_def res Let_def split: option.splits)
  have "answer_correct q (qq_correctIndex q)" if q: "q \<in> set qs" for q
  proof -
    obtain j x where "q = question_row_of i (j, x)" "x \<in> set (qo_questions dto)"
      using q unfolding qs by (auto dest: set_zip_rightD)
    then show ?thesis
      using k assms(3) unfolding key_in_range
      by (auto simp: question_row_of_def answer_correct_def question_dto_ok_def list_all_iff)
  qed
  moreover have "belongs_here d' s qz" if "ls_courseId s = c \<or> Some (ls_id s) = given (qo_sessionId dto)" for s
    using that qz by (auto simp: belongs_here_def Let_def dest!: sym [where s = "Some (ls_id s)"] simp: given_Some)
  ultimately show ?thesis using m qz by blast
qed

theorem created_quiz_is_playable_witness:
  "\<exists>c. qz_courseId (fst (snd (projr (quiz_create ''z2'' [''q2''] 5 quiz_db (quiz_user ''i'' INSTRUCTOR) demo_quiz))))
     = Some c \<and> assert_can_manage_course quiz_db (quiz_user ''i'' INSTRUCTOR) c = Inr ()"
proof -
  let ?r = "quiz_create ''z2'' [''q2''] 5 quiz_db (quiz_user ''i'' INSTRUCTOR) demo_quiz"
  have "case ?r of Inr _ \<Rightarrow> True | Inl _ \<Rightarrow> False" by code_simp
  then obtain d' qz qs where r: "?r = Inr (d', qz, qs)" by (auto split: sum.splits)
  have "ids_ok quiz_db" "list_all question_dto_ok (qo_questions demo_quiz)" by code_simp+
  then show ?thesis using created_quiz_is_playable [OF r] r by auto
qed

text \<open>Finding: A quiz of a course's bank, attached to the course alone, can be created but never
  reached over HTTP again: reading it, answering it and reading its results all report that it has
  no course, to its own author and to the course's students, since the course it was filed under
  is not looked at.\<close>

theorem bank_quiz_is_unreachable:
  assumes "quiz_create i ids now d u dto = Inr (d', qz, qs)"
    and "given (qo_sectionId dto) = None" and "given (qo_sessionId dto) = None"
    and "find_quiz d i = None" and "q \<in> set qs" and "find_question d (qq_id q) = None"
    and "0 \<le> k" and "k < int (length (qq_options q))" and "distinct ids"
  shows "quiz_get d' v i = Inl (NotFound ''Quiz has no resolvable course'') \<and>
     quiz_results d' v i = Inl (NotFound ''Quiz has no resolvable course'') \<and>
     quiz_answer up now' (d', ps) v (qq_id q) k = Inl (NotFound ''Quiz has no resolvable course'')"
proof -
  have stored: "d' = d\<lparr>db_quizzes := db_quizzes d @ [qz], db_questions := db_questions d @ qs\<rparr>"
    and qz: "qz_id qz = i" "qz_sectionId qz = qo_sectionId dto" "qz_sessionId qz = qo_sessionId dto"
    and qs: "qs = map (question_row_of i) (zip ids (qo_questions dto))"
    using assms(1) by (auto simp: quiz_create_def res Let_def split: option.splits)
  have quiz: "find_quiz d' i = Some qz"
    using assms(4) qz(1) by (simp add: stored find_quiz_def find_append)
  have "distinct (map qq_id qs)"
    using assms(9) unfolding qs by (simp add: comp_def question_row_of_def case_prod_beta distinct_zip_fst)
  then have "find (\<lambda>r. qq_id r = qq_id q) qs = Some q" using assms(5) by (rule find_by_key)
  then have question: "find_question d' (qq_id q) = Some q"
    using assms(6) by (simp add: stored find_question_def find_append)
  have "qq_quizId q = i" using assms(5) by (auto simp: qs question_row_of_def)
  then have pair: "question_quiz d' (qq_id q) = Some (q, qz)"
    using quiz question by (simp add: question_quiz_def)
  have "course_id_of d' qz = Inl (NotFound ''Quiz has no resolvable course'')"
    using assms(2,3) qz by (simp add: course_id_of_def)
  then show ?thesis
    using quiz pair assms(8)
    by (simp add: quiz_get_def quiz_results_def quiz_answer_def from_option_def guard_or_def)
qed

text \<open>The same quiz for the course's bank.\<close>

definition bank_quiz :: quiz_dto where
  "bank_quiz = demo_quiz\<lparr>qo_sessionId := None, qo_courseId := Some ''c''\<rparr>"

theorem bank_quiz_is_unreachable_witness:
  "case quiz_create ''z2'' [''q2''] 5 quiz_db (quiz_user ''i'' INSTRUCTOR) bank_quiz of
     Inl _ \<Rightarrow> False
   | Inr (d', qz, qs) \<Rightarrow>
       quiz_get d' (quiz_user ''i'' INSTRUCTOR) ''z2'' = Inl (NotFound ''Quiz has no resolvable course'')"
proof -
  let ?r = "quiz_create ''z2'' [''q2''] 5 quiz_db (quiz_user ''i'' INSTRUCTOR) bank_quiz"
  let ?q = "question_row_of ''z2'' (''q2'', hd (qo_questions demo_quiz))"
  have "case ?r of Inr (_, _, qs) \<Rightarrow> qs = [?q] | Inl _ \<Rightarrow> False" by code_simp
  then obtain d' qz where r: "?r = Inr (d', qz, [?q])" by (auto split: sum.splits prod.splits)
  have facts: "given (qo_sectionId bank_quiz) = None" "given (qo_sessionId bank_quiz) = None"
    "find_quiz quiz_db ''z2'' = None" "find_question quiz_db (qq_id ?q) = None" "1 < int (length (qq_options ?q))"
    by code_simp+
  have "quiz_get d' (quiz_user ''i'' INSTRUCTOR) ''z2'' = Inl (NotFound ''Quiz has no resolvable course'')"
    using bank_quiz_is_unreachable [OF r facts(1-3) _ facts(4) _ facts(5)] by simp
  then show ?thesis by (simp add: r)
qed

end
