(* ===== verification/AuthCache.thy ===== *)
theory AuthCache
  imports Identity
begin

text \<open>
  \<open>src/auth/auth-cache.service.ts\<close>: the account check that runs on every request, read
  through a Redis key with a 60 second life and dropped explicitly when an account changes.
  The cache is a map from user ids to a state and the second at which the key expires; whether
  Redis answers a read or a write is an input of each call. The method's three awaits are three
  definitions, so that the atomic call and its interleavings share one model.
\<close>

section \<open>The service\<close>

type_synonym auth_cache = "string \<rightharpoonup> account_state \<times> int"
type_synonym accounts = "string \<rightharpoonup> account_state"

definition ttl_seconds :: int where
  "ttl_seconds = 60"

text \<open>\<open>redis.get\<close>: an expired key is absent; a failing read is caught and treated as a miss.\<close>

definition read_cache :: "bool \<Rightarrow> int \<Rightarrow> auth_cache \<Rightarrow> string \<Rightarrow> account_state option" where
  "read_cache up now c uid =
     (if \<not> up then None
      else case c uid of None \<Rightarrow> None | Some (a, e) \<Rightarrow> if now < e then Some a else None)"

text \<open>\<open>redis.set ... 'EX' 60\<close>: best effort.\<close>

definition write_cache :: "bool \<Rightarrow> int \<Rightarrow> auth_cache \<Rightarrow> string \<Rightarrow> account_state \<Rightarrow> auth_cache" where
  "write_cache up now c uid a = (if up then c(uid \<mapsto> (a, now + ttl_seconds)) else c)"

definition get_state ::
  "bool \<Rightarrow> bool \<Rightarrow> int \<Rightarrow> accounts \<Rightarrow> auth_cache \<Rightarrow> string \<Rightarrow> auth_cache \<times> account_state option"
where
  "get_state rd wr now db c uid =
     (case read_cache rd now c uid of
        Some a \<Rightarrow> (c, Some a)
      | None \<Rightarrow>
          (case db uid of
             None \<Rightarrow> (c, None)
           | Some a \<Rightarrow> (write_cache wr now c uid a, Some a)))"

definition invalidate :: "bool \<Rightarrow> auth_cache \<Rightarrow> string \<Rightarrow> auth_cache" where
  "invalidate up c uid = (if up then c(uid := None) else c)"

section \<open>Coherence of atomic calls\<close>

text \<open>
  The callers that change an account (\<open>setUserStatus\<close>, \<open>verifyUserEmail\<close>,
  \<open>resetPassword\<close> and their kin) update the row and then invalidate the key.
\<close>

record acct_sys =
  as_db :: accounts
  as_cache :: auth_cache
  as_now :: int

datatype acct_op =
    GetState string bool bool
  | ChangeAccount string account_state bool
  | Wait nat

fun acct_step :: "acct_sys \<Rightarrow> acct_op \<Rightarrow> acct_sys" where
  "acct_step s (GetState uid rd wr) =
     s\<lparr>as_cache := fst (get_state rd wr (as_now s) (as_db s) (as_cache s) uid)\<rparr>"
| "acct_step s (ChangeAccount uid a up) =
     s\<lparr>as_db := (as_db s)(uid \<mapsto> a), as_cache := invalidate up (as_cache s) uid\<rparr>"
| "acct_step s (Wait n) = s\<lparr>as_now := as_now s + int n\<rparr>"

fun redis_reachable :: "acct_op \<Rightarrow> bool" where
  "redis_reachable (ChangeAccount _ _ up) = up"
| "redis_reachable _ = True"

definition coherent_from :: "int \<Rightarrow> acct_sys \<Rightarrow> bool" where
  "coherent_from t s \<longleftrightarrow>
     (\<forall>uid a e. as_cache s uid = Some (a, e) \<longrightarrow> t < e \<longrightarrow> as_db s uid = Some a)"

lemma coherent_from_get:
  assumes "coherent_from t s" and "t \<le> as_now s"
  shows "snd (get_state rd wr (as_now s) (as_db s) (as_cache s) uid) = as_db s uid"
  using assms
  by (auto simp: get_state_def read_cache_def coherent_from_def split: option.splits)

lemma coherent_from_step:
  assumes "coherent_from t s" and "redis_reachable op"
  shows "coherent_from t (acct_step s op)"
  using assms
  by (cases op)
    (auto simp: get_state_def read_cache_def write_cache_def coherent_from_def invalidate_def
      split: option.splits if_splits)

lemma acct_step_now: "as_now s \<le> as_now (acct_step s op)"
  by (cases op) auto

definition acct_inv :: "int \<Rightarrow> acct_sys \<Rightarrow> bool" where
  "acct_inv t s \<longleftrightarrow> coherent_from t s \<and> t \<le> as_now s"

definition guarded_step :: "acct_sys \<Rightarrow> acct_op \<Rightarrow> acct_sys" where
  "guarded_step s op = (if redis_reachable op then acct_step s op else s)"

interpretation cache_run: invariant_system guarded_step "acct_inv t" for t
  by unfold_locales
    (auto simp: acct_inv_def guarded_step_def coherent_from_step
      intro: order_trans [OF _ acct_step_now])

lemma guarded_run: "list_all redis_reachable ops \<Longrightarrow> foldl guarded_step s ops = foldl acct_step s ops"
  by (induction ops arbitrary: s) (auto simp: guarded_step_def)

lemma acct_run_coherent:
  assumes "coherent_from t s" and "t \<le> as_now s" and "list_all redis_reachable ops"
  defines "s' \<equiv> foldl acct_step s ops"
  shows "snd (get_state rd wr (as_now s') (as_db s') (as_cache s') uid) = as_db s' uid"
proof -
  have "acct_inv t (foldl guarded_step s ops)"
    using assms(1,2) by (intro cache_run.inv_run) (simp add: acct_inv_def)
  then have "coherent_from t s'" and "t \<le> as_now s'"
    using assms(3) by (simp_all add: s'_def guarded_run acct_inv_def)
  then show ?thesis by (rule coherent_from_get)
qed

section \<open>Bounded staleness\<close>

text \<open>Every key expires within 60 seconds of the moment it is looked at.\<close>

definition fresh_keys :: "acct_sys \<Rightarrow> bool" where
  "fresh_keys s \<longleftrightarrow> (\<forall>uid a e. as_cache s uid = Some (a, e) \<longrightarrow> e \<le> as_now s + ttl_seconds)"

interpretation cache_ttl: invariant_system acct_step fresh_keys
proof unfold_locales
  fix s op
  assume "fresh_keys s"
  then show "fresh_keys (acct_step s op)"
    by (cases op)
      (fastforce simp: fresh_keys_def get_state_def read_cache_def write_cache_def invalidate_def
        split: option.splits if_splits)+
qed

lemma fresh_coherent: "fresh_keys s \<Longrightarrow> coherent_from (as_now s + ttl_seconds) s"
  by (force simp: fresh_keys_def coherent_from_def)

section \<open>Interleavings\<close>

text \<open>
  Between its awaits another request may run. A reader goes through \<open>read_cache\<close>, the row and
  \<open>write_cache\<close>; a writer updates the row, then invalidates. Redis is up throughout.
\<close>

datatype reader_pc = RStart | RMissed | RFetched account_state | RDone "account_state option"
datatype writer_pc = WStart account_state | WUpdated | WDone

record cache_race =
  cr_db :: accounts
  cr_cache :: auth_cache
  cr_reader :: reader_pc
  cr_writer :: writer_pc

inductive race_step :: "int \<Rightarrow> string \<Rightarrow> cache_race \<Rightarrow> cache_race \<Rightarrow> bool" for now uid where
  hit: "cr_reader s = RStart \<Longrightarrow> read_cache True now (cr_cache s) uid = Some a \<Longrightarrow>
     race_step now uid s (s\<lparr>cr_reader := RDone (Some a)\<rparr>)"
| miss: "cr_reader s = RStart \<Longrightarrow> read_cache True now (cr_cache s) uid = None \<Longrightarrow>
     race_step now uid s (s\<lparr>cr_reader := RMissed\<rparr>)"
| absent: "cr_reader s = RMissed \<Longrightarrow> cr_db s uid = None \<Longrightarrow>
     race_step now uid s (s\<lparr>cr_reader := RDone None\<rparr>)"
| fetch: "cr_reader s = RMissed \<Longrightarrow> cr_db s uid = Some a \<Longrightarrow>
     race_step now uid s (s\<lparr>cr_reader := RFetched a\<rparr>)"
| store: "cr_reader s = RFetched a \<Longrightarrow>
     race_step now uid s
       (s\<lparr>cr_cache := write_cache True now (cr_cache s) uid a, cr_reader := RDone (Some a)\<rparr>)"
| update: "cr_writer s = WStart a \<Longrightarrow>
     race_step now uid s (s\<lparr>cr_db := (cr_db s)(uid \<mapsto> a), cr_writer := WUpdated\<rparr>)"
| drop: "cr_writer s = WUpdated \<Longrightarrow>
     race_step now uid s (s\<lparr>cr_cache := invalidate True (cr_cache s) uid, cr_writer := WDone\<rparr>)"

inductive race_steps :: "int \<Rightarrow> string \<Rightarrow> cache_race \<Rightarrow> cache_race \<Rightarrow> bool" for now uid where
  refl: "race_steps now uid s s"
| trans: "race_step now uid s t \<Longrightarrow> race_steps now uid t u \<Longrightarrow> race_steps now uid s u"

definition race_start :: "account_state \<Rightarrow> account_state \<Rightarrow> string \<Rightarrow> cache_race" where
  "race_start old new uid =
     \<lparr>cr_db = [uid \<mapsto> old], cr_cache = (\<lambda>_. None), cr_reader = RStart, cr_writer = WStart new\<rparr>"

text \<open>The reader alone, run to its end, is the atomic method.\<close>

lemma reader_alone:
  "\<exists>s'. race_steps now uid s s' \<and>
     cr_reader s' = RDone (snd (get_state True True now (cr_db s) (cr_cache s) uid)) \<and>
     cr_cache s' = fst (get_state True True now (cr_db s) (cr_cache s) uid)"
  if start: "cr_reader s = RStart"
proof (cases "read_cache True now (cr_cache s) uid")
  case (Some a)
  have "race_steps now uid s (s\<lparr>cr_reader := RDone (Some a)\<rparr>)"
    by (rule race_steps.trans [OF race_step.hit [OF start Some] race_steps.refl])
  with Some show ?thesis by (auto simp: get_state_def)
next
  case None
  note m = race_step.miss [OF start None]
  show ?thesis
  proof (cases "cr_db s uid")
    case None': None
    have "race_steps now uid s (s\<lparr>cr_reader := RDone None\<rparr>)"
      using race_steps.trans [OF m race_steps.trans [OF race_step.absent race_steps.refl]] None'
      by simp
    with None None' show ?thesis by (auto simp: get_state_def)
  next
    case (Some a)
    have "race_steps now uid s
      (s\<lparr>cr_cache := write_cache True now (cr_cache s) uid a, cr_reader := RDone (Some a)\<rparr>)"
      using race_steps.trans [OF m race_steps.trans [OF race_step.fetch
          race_steps.trans [OF race_step.store race_steps.refl]]] Some
      by simp
    with None Some show ?thesis by (auto simp: get_state_def)
  qed
qed

section \<open>Properties\<close>

definition acct_start :: "accounts \<Rightarrow> int \<Rightarrow> acct_sys" where
  "acct_start db now = \<lparr>as_db = db, as_cache = (\<lambda>_. None), as_now = now\<rparr>"

lemma acct_start_invs: "coherent_from t (acct_start db now)" "fresh_keys (acct_start db now)"
  by (simp_all add: acct_start_def coherent_from_def fresh_keys_def)

text \<open>While every invalidation reaches Redis, after any sequence of account checks, account
  changes and waits run to completion one after another, a check returns the account as the
  database holds it: disabling or verifying takes effect on the next request.\<close>

theorem account_gate_coherent:
  assumes "list_all redis_reachable ops"
  shows "let s = foldl acct_step (acct_start db now) ops
    in snd (get_state rd wr (as_now s) (as_db s) (as_cache s) uid) = as_db s uid"
proof -
  have "now \<le> as_now (acct_start db now)" by (simp add: acct_start_def)
  from acct_run_coherent [OF acct_start_invs(1) this assms] show ?thesis by (simp add: Let_def)
qed

theorem account_gate_coherent_witness:
  "let s = foldl acct_step
       (acct_start [''u'' \<mapsto> \<lparr>acc_status = ACTIVE, acc_emailVerified = True\<rparr>] 0)
       [GetState ''u'' True True,
        ChangeAccount ''u'' \<lparr>acc_status = DISABLED, acc_emailVerified = True\<rparr> True]
   in snd (get_state True True (as_now s) (as_db s) (as_cache s) ''u'') = as_db s ''u''"
  by (rule account_gate_coherent) simp

text \<open>Whatever happened before (failed invalidations included), once 60 seconds have
  passed in which every account change was invalidated, checks agree with the database again: a
  stale permission never outlives the key's life.\<close>

theorem stale_account_expires:
  assumes "s = foldl acct_step (acct_start db now) ops"
    and "s' = foldl acct_step s ops'" and "list_all redis_reachable ops'"
    and "as_now s + ttl_seconds \<le> as_now s'"
  shows "snd (get_state rd wr (as_now s') (as_db s') (as_cache s') uid) = as_db s' uid"
proof -
  let ?t = "as_now s + ttl_seconds"
  have "coherent_from ?t s"
    unfolding assms(1) by (intro fresh_coherent cache_ttl.inv_run acct_start_invs)
  moreover have "foldl guarded_step s ops' = s'"
    using assms(2,3) by (simp add: guarded_run)
  moreover have "coherent_from ?t (foldl acct_step s ops')"
    using calculation(1) assms(3)
    by (induction ops' arbitrary: s rule: rev_induct) (auto simp: coherent_from_step)
  ultimately have "coherent_from ?t s'" using assms(2) by simp
  then show ?thesis using assms(4) by (rule coherent_from_get)
qed

theorem stale_account_expires_witness:
  "snd (get_state True True 60 [''u'' \<mapsto> \<lparr>acc_status = DISABLED, acc_emailVerified = True\<rparr>]
      [''u'' \<mapsto> (\<lparr>acc_status = ACTIVE, acc_emailVerified = True\<rparr>, 60)] ''u'')
    = Some \<lparr>acc_status = DISABLED, acc_emailVerified = True\<rparr>"
proof -
  let ?on = "\<lparr>acc_status = ACTIVE, acc_emailVerified = True\<rparr>"
  let ?off = "\<lparr>acc_status = DISABLED, acc_emailVerified = True\<rparr>"
  let ?ops = "[GetState ''u'' True True, ChangeAccount ''u'' ?off False]"
  have s: "\<lparr>as_db = [''u'' \<mapsto> ?off], as_cache = [''u'' \<mapsto> (?on, 60)], as_now = 0\<rparr>
      = foldl acct_step (acct_start [''u'' \<mapsto> ?on] 0) ?ops"
    by (simp add: acct_start_def get_state_def read_cache_def write_cache_def invalidate_def
        ttl_seconds_def)
  have s': "\<lparr>as_db = [''u'' \<mapsto> ?off], as_cache = [''u'' \<mapsto> (?on, 60)], as_now = 60\<rparr>
      = foldl acct_step \<lparr>as_db = [''u'' \<mapsto> ?off], as_cache = [''u'' \<mapsto> (?on, 60)], as_now = 0\<rparr>
          [Wait 60]"
    by simp
  show ?thesis
    using stale_account_expires [OF s s', of True True "''u''"] by (simp add: ttl_seconds_def)
qed

text \<open>Finding: The gate is not immediate under concurrency: a check that fetched the row before an
  account change may store it after the change was invalidated, and checks then keep answering with
  the old state, here still one second before the key expires.\<close>

theorem stale_store_after_invalidate:
  "\<exists>s'. race_steps now uid (race_start old new uid) s' \<and>
     cr_writer s' = WDone \<and> cr_db s' uid = Some new \<and>
     snd (get_state True True (now + 59) (cr_db s') (cr_cache s') uid) = Some old"
proof -
  let ?s0 = "race_start old new uid"
  let ?s1 = "?s0\<lparr>cr_reader := RMissed\<rparr>"
  let ?s2 = "?s1\<lparr>cr_reader := RFetched old\<rparr>"
  let ?s3 = "?s2\<lparr>cr_db := (cr_db ?s2)(uid \<mapsto> new), cr_writer := WUpdated\<rparr>"
  let ?s4 = "?s3\<lparr>cr_cache := invalidate True (cr_cache ?s3) uid, cr_writer := WDone\<rparr>"
  let ?s5 = "?s4\<lparr>cr_cache := write_cache True now (cr_cache ?s4) uid old, cr_reader := RDone (Some old)\<rparr>"
  have "race_step now uid ?s0 ?s1"
    by (rule race_step.miss) (simp_all add: race_start_def read_cache_def)
  moreover have "race_step now uid ?s1 ?s2"
    by (rule race_step.fetch) (simp_all add: race_start_def)
  moreover have "race_step now uid ?s2 ?s3"
    by (rule race_step.update) (simp add: race_start_def)
  moreover have "race_step now uid ?s3 ?s4" by (rule race_step.drop) simp
  moreover have "race_step now uid ?s4 ?s5" by (rule race_step.store) simp
  ultimately have "race_steps now uid ?s0 ?s5" by (meson race_steps.intros)
  moreover have "snd (get_state True True (now + 59) (cr_db ?s5) (cr_cache ?s5) uid) = Some old"
    by (simp add: get_state_def read_cache_def write_cache_def ttl_seconds_def)
  ultimately show ?thesis by (intro exI [of _ ?s5]) simp
qed

end
