(* ===== verification/Guards.thy ===== *)
theory Guards
  imports AuthCache Plugins JsText
begin

text \<open>
  The HTTP guards: the token and account gate (\<open>src/auth/jwt-auth.guard.ts\<close>), the role
  gate, the pack gate, the platform-admin gate and its step-up. A route's decorators are a record;
  Nest's execution context contributes whether the request is HTTP at all.
\<close>

section \<open>Token and account gate\<close>

record route_meta =
  rt_http :: bool
  rt_public :: bool
  rt_allowRecorder :: bool
  rt_allowUnverified :: bool

text \<open>\<open>const [scheme, token] = header?.split(' ') ?? []\<close> with \<open>undefined\<close> as \<open>None\<close>.\<close>

definition bearer_token :: "string option \<Rightarrow> string option" where
  "bearer_token header =
     (case header of None \<Rightarrow> None
      | Some h \<Rightarrow>
          (case js_split (CHR '' '') h of
             scheme # token # _ \<Rightarrow>
               (if scheme \<noteq> ''Bearer'' \<or> token = [] then None else Some token)
           | _ \<Rightarrow> None))"

text \<open>\<open>Inr None\<close>: let through without an identity; \<open>Inr (Some u)\<close>: let through as \<open>u\<close>.\<close>

definition jwt_can_activate ::
  "route_meta \<Rightarrow> string option \<Rightarrow> (string \<Rightarrow> jwt_payload option) \<Rightarrow> (string \<Rightarrow> account_state option)
    \<Rightarrow> jwt_payload option result"
where
  "jwt_can_activate rt header verify account =
     (if \<not> rt_http rt then Inr None
      else if rt_public rt then Inr None
      else case bearer_token header of
        None \<Rightarrow> Inl (Unauthorized ''Missing bearer token'')
      | Some token \<Rightarrow>
          (case verify token of
             None \<Rightarrow> Inl (Unauthorized ''Invalid or expired token'')
           | Some p \<Rightarrow>
               if jwt_recorder p \<noteq> None \<and> \<not> rt_allowRecorder rt
               then Inl (Unauthorized ''Recorder tokens cannot be used here'')
               else if jwt_preview p \<noteq> None
               then Inl (Unauthorized ''Preview tokens cannot be used for API requests'')
               else (case account (jwt_sub p) of
                       None \<Rightarrow> Inl (Unauthorized ''This account has been disabled'')
                     | Some a \<Rightarrow>
                         if acc_status a = DISABLED
                         then Inl (Unauthorized ''This account has been disabled'')
                         else if \<not> acc_emailVerified a \<and> \<not> rt_allowUnverified rt
                            \<and> jwt_recorder p = None
                         then Inl (Forbidden ''Email not verified'')
                         else Inr (Some (p\<lparr>jwt_emailVerified := acc_emailVerified a\<rparr>)))))"

section \<open>Role, pack and platform-admin gates\<close>

definition roles_can_activate :: "bool \<Rightarrow> role list option \<Rightarrow> jwt_payload option \<Rightarrow> bool result" where
  "roles_can_activate http required user =
     (if \<not> http then Inr True
      else case required of
        None \<Rightarrow> Inr True
      | Some [] \<Rightarrow> Inr True
      | Some rs \<Rightarrow>
          (case user of
             None \<Rightarrow> Inl (Forbidden ''Insufficient role'')
           | Some u \<Rightarrow> if jwt_role u \<in> set rs then Inr True
                       else Inl (Forbidden ''Insufficient role'')))"

definition plugin_can_activate ::
  "org_plugins \<Rightarrow> bool \<Rightarrow> string option \<Rightarrow> jwt_payload option \<Rightarrow> bool result"
where
  "plugin_can_activate rows http key user =
     (if \<not> http then Inr True
      else case key of
        None \<Rightarrow> Inr True
      | Some k \<Rightarrow>
          if k = [] then Inr True
          else if is_enabled rows (Option.bind user jwt_organizationId) k then Inr True
          else Inl (Forbidden (''This feature requires the '' @ k @ '' add-on'')))"

definition platform_admin_email :: string where
  "platform_admin_email = ''mr.nekan123@gmail.com''"

definition ascii_lower :: "char \<Rightarrow> char" where
  "ascii_lower c =
     (if 65 \<le> (of_char c :: nat) \<and> (of_char c :: nat) \<le> 90 then char_of ((of_char c :: nat) + 32) else c)"

definition is_configured_platform_admin_email :: "string option \<Rightarrow> bool" where
  "is_configured_platform_admin_email email =
     (case email of None \<Rightarrow> False | Some e \<Rightarrow> map ascii_lower (trim e) = platform_admin_email)"

text \<open>The user row the guard reads: e-mail and the super-admin flag.\<close>

definition super_admin_can_activate ::
  "bool \<Rightarrow> jwt_payload option \<Rightarrow> (string \<Rightarrow> (string \<times> bool) option) \<Rightarrow> bool result"
where
  "super_admin_can_activate http user row =
     (if \<not> http then Inr True
      else case user of
        None \<Rightarrow> Inl (Forbidden ''Not authorized'')
      | Some u \<Rightarrow>
          if jwt_sub u = [] then Inl (Forbidden ''Not authorized'')
          else (case row (jwt_sub u) of
                  None \<Rightarrow> Inl (Forbidden ''Platform admin access required'')
                | Some (email, flag) \<Rightarrow>
                    if flag \<and> is_configured_platform_admin_email (Some email) then Inr True
                    else Inl (Forbidden ''Platform admin access required'')))"

record step_up_claims =
  su_su :: string
  su_purpose :: string
  su_iat :: "int option"

definition default_max_age :: int where
  "default_max_age = 30 * 60"

definition step_up_can_activate ::
  "bool \<Rightarrow> string option \<Rightarrow> (string \<Rightarrow> step_up_claims option) \<Rightarrow> jwt_payload option
    \<Rightarrow> int option \<Rightarrow> int \<Rightarrow> bool result"
where
  "step_up_can_activate http token verify user maxAge now_ms =
     (if \<not> http then Inr True
      else case token of
        None \<Rightarrow> Inl (Unauthorized ''STEP_UP_REQUIRED'')
      | Some t \<Rightarrow>
          if t = [] then Inl (Unauthorized ''STEP_UP_REQUIRED'')
          else (case verify t of
                  None \<Rightarrow> Inl (Unauthorized ''STEP_UP_REQUIRED'')
                | Some c \<Rightarrow>
                    if su_purpose c \<noteq> ''admin-stepup'' \<or> Some (su_su c) \<noteq> map_option jwt_sub user
                    then Inl (Unauthorized ''STEP_UP_REQUIRED'')
                    else if now_ms div 1000 - (case su_iat c of None \<Rightarrow> 0 | Some i \<Rightarrow> i)
                        > (case maxAge of None \<Rightarrow> default_max_age | Some m \<Rightarrow> m)
                    then Inl (Unauthorized ''STEP_UP_REQUIRED'')
                    else Inr True))"

section \<open>Properties\<close>

text \<open>The token gate lets a request through as a user exactly when a well-formed bearer
  token verifies, is no preview token, is a recorder token only on a route that opts in, and names
  an account that exists, is active, and is verified unless the route or the recorder claim waives
  it; the identity carries the account's current verification flag.\<close>

theorem jwt_gate_exact:
  "jwt_can_activate rt header verify account = Inr (Some u) \<longleftrightarrow>
     rt_http rt \<and> \<not> rt_public rt \<and>
     (\<exists>token p a. bearer_token header = Some token \<and> verify token = Some p \<and>
        (jwt_recorder p = None \<or> rt_allowRecorder rt) \<and> jwt_preview p = None \<and>
        account (jwt_sub p) = Some a \<and> acc_status a = ACTIVE \<and>
        (acc_emailVerified a \<or> rt_allowUnverified rt \<or> jwt_recorder p \<noteq> None) \<and>
        u = p\<lparr>jwt_emailVerified := acc_emailVerified a\<rparr>)"
  by (auto simp: jwt_can_activate_def split: option.splits intro: user_status.exhaust)

definition gate_student :: jwt_payload where
  "gate_student = \<lparr>jwt_sub = ''u1'', jwt_role = STUDENT, jwt_name = ''n'', jwt_email = ''e'',
     jwt_organizationId = None, jwt_emailVerified = False, jwt_isSuperAdmin = False,
     jwt_recorder = None, jwt_preview = None\<rparr>"

theorem jwt_gate_exact_witness:
  "jwt_can_activate \<lparr>rt_http = True, rt_public = False, rt_allowRecorder = False, rt_allowUnverified = False\<rparr>
     (Some ''Bearer tok'') (\<lambda>t. if t = ''tok'' then Some gate_student else None)
     (\<lambda>i. if i = ''u1'' then Some \<lparr>acc_status = ACTIVE, acc_emailVerified = True\<rparr> else None) =
   Inr (Some (gate_student\<lparr>jwt_emailVerified := True\<rparr>))"
proof -
  have "bearer_token (Some ''Bearer tok'') = Some ''tok''" by code_simp
  then show ?thesis by (simp add: jwt_gate_exact) (simp add: gate_student_def)
qed

end
