(* ===== verification/Calendar.thy ===== *)
theory Calendar
  imports JsText
begin

text \<open>
  What the schedule uses of the language's dates: the proleptic Gregorian calendar behind
  \<open>Date.UTC\<close> and the \<open>getUTC...\<close> methods, and the local fields \<open>Intl\<close> gives for a time
  zone. A zone is its offset from UTC, in milliseconds, at each instant. The calendar counts from
  1 March, in cycles of 400, 100, 4 and 1 years.
\<close>

definition day_ms :: int where
  "day_ms = 86400000"

type_synonym zone = "int \<Rightarrow> int"

section \<open>Days and dates\<close>

text \<open>The date of the day \<open>n\<close> days after 1 January 1970.\<close>

definition civil_of :: "int \<Rightarrow> int \<times> int \<times> int" where
  "civil_of n =
     (let z = n + 719468;
          a = z div 146097; r = z mod 146097;
          b = min 3 (r div 36524); r1 = r - 36524 * b;
          c = r1 div 1461; r2 = r1 mod 1461;
          e = min 3 (r2 div 365); doy = r2 - 365 * e;
          mp = (5 * doy + 2) div 153;
          d = doy - (153 * mp + 2) div 5 + 1;
          m = (if mp < 10 then mp + 3 else mp - 9)
      in (400 * a + 100 * b + 4 * c + e + (if m \<le> 2 then 1 else 0), m, d))"

definition days_of :: "int \<Rightarrow> int \<Rightarrow> int \<Rightarrow> int" where
  "days_of y m d =
     (let y' = (if m \<le> 2 then y - 1 else y); mp = (m + 9) mod 12
      in 365 * y' + y' div 4 - y' div 100 + y' div 400 + (153 * mp + 2) div 5 + d - 1 - 719468)"

lemma div_bounds: "0 < k \<Longrightarrow> k * (x div k) \<le> x \<and> x < k * (x div k) + k" for x k :: int
proof -
  assume "0 < k"
  then have "x = k * (x div k) + x mod k" "0 \<le> x mod k" "x mod k < k" by simp_all
  then show ?thesis by linarith
qed

lemma cycle_bounds:
  fixes z :: int
  defines "r \<equiv> z mod 146097"
  defines "b \<equiv> min 3 (r div 36524)"
  defines "r1 \<equiv> r - 36524 * b"
  defines "c \<equiv> r1 div 1461"
  defines "r2 \<equiv> r1 mod 1461"
  defines "e \<equiv> min 3 (r2 div 365)"
  defines "doy \<equiv> r2 - 365 * e"
  shows "0 \<le> b" "b \<le> 3" "0 \<le> c" "c \<le> 24" "0 \<le> e" "e \<le> 3" "0 \<le> doy" "doy \<le> 365"
    and "z = 146097 * (z div 146097) + 36524 * b + 1461 * c + 365 * e + doy"
proof -
  have r: "0 \<le> r" "r < 146097" by (simp_all add: r_def)
  have q: "0 \<le> r div 36524" using r by (simp add: pos_imp_zdiv_nonneg_iff)
  show b: "0 \<le> b" "b \<le> 3" using q by (auto simp: b_def)
  have r1: "0 \<le> r1" "r1 \<le> 36524"
    using r div_bounds [of 36524 r] unfolding r1_def b_def min_def by (auto split: if_splits)
  show c: "0 \<le> c" "c \<le> 24"
    using r1 div_bounds [of 1461 r1] unfolding c_def by (simp_all add: pos_imp_zdiv_nonneg_iff)
  have r2: "0 \<le> r2" "r2 < 1461" by (simp_all add: r2_def)
  have "0 \<le> r2 div 365" using r2 by (simp add: pos_imp_zdiv_nonneg_iff)
  then show e: "0 \<le> e" "e \<le> 3" by (auto simp: e_def)
  show "0 \<le> doy" "doy \<le> 365"
    using r2 div_bounds [of 365 r2] unfolding doy_def e_def min_def by (auto split: if_splits)
  have "r1 = 1461 * c + r2" by (simp add: c_def r2_def)
  moreover have "z = 146097 * (z div 146097) + r" by (simp add: r_def)
  ultimately show "z = 146097 * (z div 146097) + 36524 * b + 1461 * c + 365 * e + doy"
    by (simp add: doy_def r1_def)
qed

lemma year_days:
  fixes a b c e :: int
  assumes "0 \<le> b" "b \<le> 3" "0 \<le> c" "c \<le> 24" "0 \<le> e" "e \<le> 3"
  defines "y \<equiv> 400 * a + 100 * b + 4 * c + e"
  shows "365 * y + y div 4 - y div 100 + y div 400 = 146097 * a + 36524 * b + 1461 * c + 365 * e"
proof -
  have split: "(k * x + s) div k = x" if "0 \<le> s" "s < k" for k x s :: int
    using that by (simp add: div_pos_pos_trivial)
  have "y = 4 * (100 * a + 25 * b + c) + e" by (simp add: y_def)
  then have "y div 4 = 100 * a + 25 * b + c" using split [of e 4] assms(5,6) by simp
  moreover have "y div 100 = 4 * a + b"
  proof -
    have "y = 100 * (4 * a + b) + (4 * c + e)" by (simp add: y_def)
    then show ?thesis using split [of "4 * c + e" 100] assms(3-6) by simp
  qed
  moreover have "y div 400 = a"
  proof -
    have "y = 400 * a + (100 * b + 4 * c + e)" by (simp add: y_def)
    then show ?thesis using split [of "100 * b + 4 * c + e" 400] assms(1-6) by simp
  qed
  ultimately show ?thesis by (simp add: y_def)
qed

lemma month_days:
  fixes doy :: int
  assumes "0 \<le> doy" "doy \<le> 365"
  defines "mp \<equiv> (5 * doy + 2) div 153"
  defines "m \<equiv> (if mp < 10 then mp + 3 else mp - 9)"
  shows "1 \<le> m" "m \<le> 12" "(m + 9) mod 12 = mp"
    and "1 \<le> doy - (153 * mp + 2) div 5 + 1" "doy - (153 * mp + 2) div 5 + 1 \<le> 31"
proof -
  have bounds: "153 * mp \<le> 5 * doy + 2" "5 * doy + 2 < 153 * mp + 153"
    using div_bounds [of 153 "5 * doy + 2"] by (simp_all add: mp_def)
  then have mp: "0 \<le> mp" "mp \<le> 11" using assms(1,2) by linarith+
  then show "1 \<le> m" "m \<le> 12" unfolding m_def by simp_all
  show "(m + 9) mod 12 = mp"
  proof (cases "mp < 10")
    case True
    then have "m + 9 = mp + 12" by (simp add: m_def)
    then show ?thesis using mp by (simp add: mod_pos_pos_trivial)
  next
    case False
    then show ?thesis using mp by (simp add: m_def mod_pos_pos_trivial)
  qed
  show "1 \<le> doy - (153 * mp + 2) div 5 + 1" "doy - (153 * mp + 2) div 5 + 1 \<le> 31"
    using bounds div_bounds [of 5 "153 * mp + 2"] by linarith+
qed

lemma days_of_civil:
  "days_of (fst (civil_of n)) (fst (snd (civil_of n))) (snd (snd (civil_of n))) = n"
  and civil_month: "1 \<le> fst (snd (civil_of n))" "fst (snd (civil_of n)) \<le> 12"
  and civil_day: "1 \<le> snd (snd (civil_of n))" "snd (snd (civil_of n)) \<le> 31"
proof -
  define z where "z = n + 719468"
  define b where "b = min 3 (z mod 146097 div 36524)"
  define r1 where "r1 = z mod 146097 - 36524 * b"
  define c where "c = r1 div 1461"
  define e where "e = min 3 (r1 mod 1461 div 365)"
  define doy where "doy = r1 mod 1461 - 365 * e"
  define mp where "mp = (5 * doy + 2) div 153"
  define m where "m = (if mp < 10 then mp + 3 else mp - 9)"
  define d where "d = doy - (153 * mp + 2) div 5 + 1"
  define y where "y = 400 * (z div 146097) + 100 * b + 4 * c + e"
  note bounds = cycle_bounds [of z, folded b_def, folded r1_def, folded c_def, folded e_def, folded doy_def]
  note month = month_days [OF bounds(7,8), folded mp_def, folded m_def d_def]
  have civil: "civil_of n = (y + (if m \<le> 2 then 1 else 0), m, d)"
    by (simp only: civil_of_def Let_def z_def b_def r1_def c_def e_def doy_def mp_def m_def d_def y_def)
  have "365 * y + y div 4 - y div 100 + y div 400 = z - doy"
    using year_days [OF bounds(1-6), of "z div 146097", folded y_def] bounds(9) by simp
  then show "days_of (fst (civil_of n)) (fst (snd (civil_of n))) (snd (snd (civil_of n))) = n"
    using month(3) by (simp add: civil days_of_def Let_def d_def z_def)
  show "1 \<le> fst (snd (civil_of n))" "fst (snd (civil_of n)) \<le> 12"
    "1 \<le> snd (snd (civil_of n))" "snd (snd (civil_of n)) \<le> 31"
    using month(1,2,4,5) by (simp_all add: civil)
qed

lemma civil_inject: "civil_of m = civil_of n \<longleftrightarrow> m = n"
  using days_of_civil by metis

text \<open>From 1970 on the year has its four digits.\<close>

lemma days_of_mono_year:
  fixes y :: int
  assumes "y \<le> 1968" "1 \<le> m" "m \<le> 12" "d \<le> 31"
  shows "days_of y m d < 0"
proof -
  define y' where "y' = (if m \<le> 2 then y - 1 else y)"
  have y': "y' \<le> 1968" using assms(1) by (simp add: y'_def)
  have "0 \<le> (m + 9) mod 12" "(m + 9) mod 12 < 12" by simp_all
  then have "(153 * ((m + 9) mod 12) + 2) div 5 \<le> 337"
    using div_bounds [of 5 "153 * ((m + 9) mod 12) + 2"] by linarith
  moreover have "365 * y' + y' div 4 - y' div 100 + y' div 400 \<le> 718800"
    using y' div_bounds [of 4 y'] div_bounds [of 100 y'] div_bounds [of 400 y'] by linarith
  ultimately show ?thesis
    using assms(4) by (simp add: days_of_def Let_def y'_def [symmetric])
qed

lemma civil_year: "0 \<le> n \<Longrightarrow> 1969 \<le> fst (civil_of n)"
  using days_of_mono_year [OF _ civil_month civil_day(2), of "fst (civil_of n)" n n] days_of_civil [of n]
  by (cases "fst (civil_of n) \<le> 1968") auto

section \<open>Instants\<close>

record parts =
  pt_year :: int
  pt_month :: int
  pt_day :: int
  pt_hour :: int
  pt_minute :: int
  pt_second :: int

text \<open>The fields of an instant on a clock that shows UTC.\<close>

definition parts_of :: "int \<Rightarrow> parts" where
  "parts_of t =
     (let (y, m, d) = civil_of (t div day_ms); s = t mod day_ms
      in \<lparr>pt_year = y, pt_month = m, pt_day = d, pt_hour = s div 3600000,
          pt_minute = s div 60000 mod 60, pt_second = s div 1000 mod 60\<rparr>)"

text \<open>\<open>Date.UTC\<close>, with the month from 1; a year from 0 to 99 means the twentieth century.\<close>

definition date_utc :: "int \<Rightarrow> int \<Rightarrow> int \<Rightarrow> int \<Rightarrow> int \<Rightarrow> int \<Rightarrow> int" where
  "date_utc y mo d hh mm ss =
     days_of (if 0 \<le> y \<and> y \<le> 99 then 1900 + y else y) mo d * day_ms + hh * 3600000 + mm * 60000 + ss * 1000"

lemma time_of_day:
  fixes s :: int
  assumes "0 \<le> s"
  shows "s div 3600000 * 3600000 + s div 60000 mod 60 * 60000 + s div 1000 mod 60 * 1000 = s - s mod 1000"
proof -
  have a: "s div 60000 = s div 1000 div 60" "s div 3600000 = s div 1000 div 60 div 60"
    using assms by (simp_all add: zdiv_zmult2_eq [symmetric])
  define q where "q = s div 1000"
  have "q = 60 * (q div 60) + q mod 60" "q div 60 = 60 * (q div 60 div 60) + q div 60 mod 60" by simp_all
  moreover have "s = 1000 * q + s mod 1000" by (simp add: q_def)
  ultimately show ?thesis unfolding a q_def [symmetric] by linarith
qed

text \<open>From 1970 on, \<open>Date.UTC\<close> of the fields gives the instant back, to the second.\<close>

lemma date_utc_parts:
  assumes "0 \<le> t"
  shows "date_utc (pt_year (parts_of t)) (pt_month (parts_of t)) (pt_day (parts_of t))
     (pt_hour (parts_of t)) (pt_minute (parts_of t)) (pt_second (parts_of t)) = t - t mod 1000"
proof -
  have n: "0 \<le> t div day_ms" using assms by (simp add: day_ms_def pos_imp_zdiv_nonneg_iff)
  have year: "\<not> (0 \<le> fst (civil_of (t div day_ms)) \<and> fst (civil_of (t div day_ms)) \<le> 99)"
    using civil_year [OF n] by simp
  obtain y m d where c: "civil_of (t div day_ms) = (y, m, d)" by (metis prod_cases3)
  have days: "days_of y m d = t div day_ms" using days_of_civil [of "t div day_ms"] by (simp only: c fst_conv snd_conv)
  have y: "(0 \<le> y \<and> y \<le> 99) = False" using year unfolding c fst_conv by blast
  define s where "s = t mod day_ms"
  have s: "0 \<le> s" by (simp add: s_def day_ms_def)
  have mod: "s mod 1000 = t mod 1000" 
    unfolding s_def day_ms_def by (rule mod_mod_cancel) simp
  have fields: "pt_year (parts_of t) = y" "pt_month (parts_of t) = m" "pt_day (parts_of t) = d"
    "pt_hour (parts_of t) = s div 3600000" "pt_minute (parts_of t) = s div 60000 mod 60"
    "pt_second (parts_of t) = s div 1000 mod 60"
    by (simp_all only: parts_of_def c Let_def prod.case parts.select_convs s_def)
  have "date_utc y m d (s div 3600000) (s div 60000 mod 60) (s div 1000 mod 60) =
      t div day_ms * day_ms + (s - s mod 1000)"
    unfolding date_utc_def y if_False days using time_of_day [OF s] by linarith
  then show ?thesis
    unfolding fields mod using div_mult_mod_eq [of t day_ms] unfolding s_def by linarith
qed

end
