(* ===== verification/Schedule.thy ===== *)
theory Schedule
  imports Calendar
begin

text \<open>
  \<open>src/sessions/session-schedule.ts\<close>: a program's weekly cadence, its concrete meetings and
  the window in which today's meeting can be joined. \<open>Intl\<close> is represented by the zone's
  offset function; a value of unknown JSON shape arrives as what \<open>Number\<close> makes of it
  (\<open>None\<close> is \<open>NaN\<close>) and a non-string as \<open>None\<close>.
\<close>

record course_schedule =
  sc_startDate :: "int option"
  sc_durationWeeks :: "int option"
  sc_meetingDays :: "rat option list option"
  sc_meetingTime :: "string option"
  sc_meetingTimesByDay :: "(rat option \<times> string option) list option"
  sc_timezone :: "zone option"

record occurrence =
  oc_dateKey :: string
  oc_scheduledAt :: int

record join_window =
  jw_current :: "occurrence option"
  jw_next :: "occurrence option"
  jw_joinableNow :: bool

section \<open>Wall clocks\<close>

definition parts_in_tz :: "int \<Rightarrow> zone \<Rightarrow> parts" where
  "parts_in_tz t tz = parts_of (t + tz t)"

definition tz_offset_ms :: "int \<Rightarrow> zone \<Rightarrow> int" where
  "tz_offset_ms t tz =
     (let p = parts_in_tz t tz
      in date_utc (pt_year p) (pt_month p) (pt_day p) (pt_hour p) (pt_minute p) (pt_second p) - t)"

definition zoned_wall_time_to_utc :: "int \<Rightarrow> int \<Rightarrow> int \<Rightarrow> int \<Rightarrow> int \<Rightarrow> zone \<Rightarrow> int" where
  "zoned_wall_time_to_utc y mo d hh mm tz =
     (let guess = date_utc y mo d hh mm 0 in guess - tz_offset_ms guess tz)"

definition pad :: "int \<Rightarrow> string" where
  "pad n = (if n < 10 then ''0'' @ int_text n else int_text n)"

definition date_key :: "int \<Rightarrow> int \<Rightarrow> int \<Rightarrow> string" where
  "date_key y mo d = int_text y @ ''-'' @ pad mo @ ''-'' @ pad d"

section \<open>Parsing\<close>

text \<open>\<open>/^([01]\d|2[0-3]):([0-5]\d)$/\<close>\<close>

definition digit_value :: "char \<Rightarrow> int" where
  "digit_value c = int (of_char c - 48)"

definition hhmm_shape :: "char \<Rightarrow> char \<Rightarrow> char \<Rightarrow> char \<Rightarrow> char \<Rightarrow> bool" where
  "hhmm_shape a b c d e \<longleftrightarrow>
     ((a \<in> {CHR ''0'', CHR ''1''} \<and> digit b) \<or>
      (a = CHR ''2'' \<and> b \<in> {CHR ''0'', CHR ''1'', CHR ''2'', CHR ''3''})) \<and>
     c = CHR '':'' \<and> (digit d \<and> digit_value d \<le> 5) \<and> digit e"

definition parse_hhmm :: "string \<Rightarrow> (int \<times> int) option" where
  "parse_hhmm s =
     (case s of
        [a, b, c, d, e] \<Rightarrow>
          if hhmm_shape a b c d e
          then Some (10 * digit_value a + digit_value b, 10 * digit_value d + digit_value e)
          else None
      | _ \<Rightarrow> None)"

definition add_time :: "(int, int \<times> int) amap \<Rightarrow> rat option \<times> string option \<Rightarrow> (int, int \<times> int) amap" where
  "add_time out kv =
     (case kv of
        (Some k, Some v) \<Rightarrow>
          if of_int \<lfloor>k\<rfloor> = k \<and> \<not> k < 0 \<and> \<not> k > 6
          then (case parse_hhmm v of Some t \<Rightarrow> aput \<lfloor>k\<rfloor> t out | None \<Rightarrow> out)
          else out
      | _ \<Rightarrow> out)"

definition parse_times_by_day :: "(rat option \<times> string option) list option \<Rightarrow> (int, int \<times> int) amap" where
  "parse_times_by_day raw = (case raw of None \<Rightarrow> [] | Some kvs \<Rightarrow> foldl add_time [] kvs)"

section \<open>Occurrences\<close>

definition meeting_days :: "course_schedule \<Rightarrow> rat list" where
  "meeting_days s = (case sc_meetingDays s of None \<Rightarrow> [] | Some ds \<Rightarrow> List.map_filter id ds)"

text \<open>\<open>getUTCDay\<close> of the day \<open>n\<close> days after 1 January 1970, a Thursday.\<close>

definition weekday :: "int \<Rightarrow> int" where
  "weekday n = (n + 4) mod 7"

definition occurrence_at :: "zone \<Rightarrow> (int, int \<times> int) amap \<Rightarrow> int \<times> int \<Rightarrow> int \<Rightarrow> occurrence" where
  "occurrence_at tz perDay general dt =
     (let (y, mo, d) = civil_of (dt div day_ms);
          (hh, mm) = (case map_of perDay (weekday (dt div day_ms)) of Some t \<Rightarrow> t | None \<Rightarrow> general)
      in \<lparr>oc_dateKey = date_key y mo d, oc_scheduledAt = zoned_wall_time_to_utc y mo d hh mm tz\<rparr>)"

definition run_days :: "zone \<Rightarrow> int \<Rightarrow> int \<Rightarrow> int list" where
  "run_days tz startDate weeks =
     (let p = parts_in_tz startDate tz;
          base = date_utc (pt_year p) (pt_month p) (pt_day p) 0 0 0
      in map (\<lambda>i. base + int i * day_ms) [0..<nat (weeks * 7)])"

definition list_occurrences :: "course_schedule \<Rightarrow> occurrence list" where
  "list_occurrences s =
     (case (sc_startDate s, sc_durationWeeks s, sc_meetingTime s, sc_timezone s) of
        (Some startDate, Some weeks, Some time, Some tz) \<Rightarrow>
          if weeks = 0 \<or> time = [] \<or> meeting_days s = [] then []
          else (case parse_hhmm time of
                  None \<Rightarrow> []
                | Some general \<Rightarrow>
                    map (occurrence_at tz (parse_times_by_day (sc_meetingTimesByDay s)) general)
                      (filter (\<lambda>dt. of_int (weekday (dt div day_ms)) \<in> set (meeting_days s))
                        (run_days tz startDate weeks)))
      | _ \<Rightarrow> [])"

definition today_key :: "zone \<Rightarrow> int \<Rightarrow> string" where
  "today_key tz now = (let p = parts_in_tz now tz in date_key (pt_year p) (pt_month p) (pt_day p))"

definition resolve_join_window :: "course_schedule \<Rightarrow> int \<Rightarrow> join_window" where
  "resolve_join_window s now =
     (let occurrences = list_occurrences s in
      case sc_timezone s of
        None \<Rightarrow> \<lparr>jw_current = None, jw_next = None, jw_joinableNow = False\<rparr>
      | Some tz \<Rightarrow>
          if occurrences = [] then \<lparr>jw_current = None, jw_next = None, jw_joinableNow = False\<rparr>
          else
            let current = find (\<lambda>o'. oc_dateKey o' = today_key tz now) occurrences;
                next = find (\<lambda>o'. oc_scheduledAt o' > now) occurrences
            in \<lparr>jw_current = current, jw_next = next, jw_joinableNow = (current \<noteq> None)\<rparr>)"

text \<open>A zone \<open>Intl\<close> does not know makes \<open>todayDateKey\<close> fall back to UTC.\<close>

definition today_date_key :: "zone option \<Rightarrow> int \<Rightarrow> string" where
  "today_date_key tz now =
     (case tz of Some z \<Rightarrow> today_key z now | None \<Rightarrow> (let (y, m, d) = civil_of (now div day_ms) in date_key y m d))"

section \<open>Zones\<close>

text \<open>What the time-zone database guarantees: offsets of whole seconds, less than a day. Instants
  are from 3 January 1970 on, so every local date is in 1970 or later.\<close>

definition zone_ok :: "zone \<Rightarrow> bool" where
  "zone_ok tz \<longleftrightarrow> (\<forall>t. - day_ms < tz t \<and> tz t < day_ms \<and> tz t mod 1000 = 0)"

definition modern :: "int \<Rightarrow> bool" where
  "modern t \<longleftrightarrow> 2 * day_ms \<le> t"

lemma local_positive:
  assumes "zone_ok tz" and "day_ms \<le> t"
  shows "0 \<le> t + tz t"
proof -
  have "- day_ms < tz t" using assms by (simp add: zone_ok_def)
  then show ?thesis using assms(2) by linarith
qed

lemma tz_offset:
  assumes "zone_ok tz" and "day_ms \<le> t" and "t mod 1000 = 0"
  shows "tz_offset_ms t tz = tz t"
proof -
  have "(t + tz t) mod 1000 = 0" using assms by (simp add: zone_ok_def mod_add_eq [symmetric])
  then show ?thesis
    using date_utc_parts [OF local_positive [OF assms(1,2)]] by (simp add: tz_offset_ms_def parts_in_tz_def Let_def)
qed

section \<open>Wall times\<close>

text \<open>The fields of a wall time.\<close>

lemma split_time:
  fixes n hh mm :: int
  assumes "0 \<le> hh" "hh < 24" "0 \<le> mm" "mm < 60"
  defines "t \<equiv> n * day_ms + hh * 3600000 + mm * 60000"
  shows "t div day_ms = n" "t mod day_ms = hh * 3600000 + mm * 60000"
    "(hh * 3600000 + mm * 60000) div 3600000 = hh" "(hh * 3600000 + mm * 60000) div 60000 mod 60 = mm"
    "(hh * 3600000 + mm * 60000) div 1000 mod 60 = 0"
proof -
  have s: "0 \<le> hh * 3600000 + mm * 60000" "hh * 3600000 + mm * 60000 < day_ms"
    using assms by (simp_all add: day_ms_def)
  have t: "t = day_ms * n + (hh * 3600000 + mm * 60000)" by (simp add: t_def)
  show "t div day_ms = n" "t mod day_ms = hh * 3600000 + mm * 60000"
    unfolding t using s by (simp_all add: div_pos_pos_trivial mod_pos_pos_trivial day_ms_def)
  have "hh * 3600000 + mm * 60000 = 3600000 * hh + mm * 60000" by simp
  then show "(hh * 3600000 + mm * 60000) div 3600000 = hh"
    using assms by (simp add: div_pos_pos_trivial)
  have "hh * 3600000 + mm * 60000 = 60000 * (60 * hh + mm)" by simp
  then have "(hh * 3600000 + mm * 60000) div 60000 = 60 * hh + mm" by simp
  then show "(hh * 3600000 + mm * 60000) div 60000 mod 60 = mm"
    using assms by (simp add: mod_pos_pos_trivial)
  have "hh * 3600000 + mm * 60000 = 1000 * (60 * (60 * hh + mm))" by simp
  then have "(hh * 3600000 + mm * 60000) div 1000 = 60 * (60 * hh + mm)" by simp
  then show "(hh * 3600000 + mm * 60000) div 1000 mod 60 = 0" by simp
qed

lemma date_utc_day:
  assumes "civil_of n = (y, mo, d)" and "0 \<le> n"
  shows "date_utc y mo d hh mm 0 = n * day_ms + hh * 3600000 + mm * 60000"
proof -
  have old: "(0 \<le> y \<and> y \<le> 99) = False" using civil_year [OF assms(2)] unfolding assms(1) by auto
  have days: "days_of y mo d = n" using days_of_civil [of n] unfolding assms(1) by simp
  show ?thesis unfolding date_utc_def old if_False days by simp
qed

lemma parts_of_wall:
  assumes "civil_of n = (y, mo, d)" and "0 \<le> hh" "hh < 24" "0 \<le> mm" "mm < 60"
  shows "parts_of (n * day_ms + hh * 3600000 + mm * 60000) =
     \<lparr>pt_year = y, pt_month = mo, pt_day = d, pt_hour = hh, pt_minute = mm, pt_second = 0\<rparr>"
  unfolding parts_of_def Let_def split_time [OF assms(2-5)] assms(1) by simp

text \<open>The probe reads the offset at the guess, not at the result.\<close>

lemma wall_time:
  assumes "zone_ok tz" and "1 \<le> n" and "civil_of n = (y, mo, d)" and "0 \<le> hh" "0 \<le> mm"
  defines "g \<equiv> n * day_ms + hh * 3600000 + mm * 60000"
  shows "zoned_wall_time_to_utc y mo d hh mm tz = g - tz g"
proof -
  have "day_ms \<le> g" using assms(2,4,5) by (simp add: g_def day_ms_def)
  moreover have "g mod 1000 = 0"
  proof -
    have "g = 1000 * (n * 86400 + hh * 3600 + mm * 60)" by (simp add: g_def day_ms_def)
    then show ?thesis by simp
  qed
  moreover have "0 \<le> n" using assms(2) by simp
  ultimately show ?thesis
    using date_utc_day [OF assms(3)] tz_offset [OF assms(1)]
    by (simp add: zoned_wall_time_to_utc_def Let_def g_def)
qed

section \<open>Date keys\<close>

lemma pad_digits:
  assumes "0 \<le> n" "n < 100"
  shows "pad n = [char_of (48 + nat n div 10), char_of (48 + nat n mod 10)]"
proof (cases "n < 10")
  case True
  then have n: "nat n < 10" "nat n div 10 = 0" "nat n mod 10 = nat n" using assms by simp_all
  have zero: "char_of (48 :: nat) = CHR ''0''" by code_simp
  show ?thesis
    using True assms by (simp add: pad_def int_text_def dec.simps [of "nat n"] n zero)
next
  case False
  then have "nat n div 10 < 10" "\<not> nat n < 10" using assms by simp_all
  then show ?thesis
    using False assms
    by (simp add: pad_def int_text_def dec.simps [of "nat n"] dec.simps [of "nat n div 10"])
qed

lemma pad_inject:
  assumes "0 \<le> m" "m < 100" "0 \<le> n" "n < 100" "pad m = pad n"
  shows "m = n"
proof -
  have code: "of_char (char_of (48 + k) :: char) = 48 + k" if "k < 10" for k :: nat
    using that by (simp add: of_char_of)
  have "nat m div 10 < 10" "nat n div 10 < 10" using assms by auto
  then have "nat m div 10 = nat n div 10" "nat m mod 10 = nat n mod 10"
    using assms(5) code [of "nat m div 10"] code [of "nat n div 10"] code [of "nat m mod 10"] code [of "nat n mod 10"]
    unfolding pad_digits [OF assms(1,2)] pad_digits [OF assms(3,4)] by (metis list.inject add_left_cancel mod_less_divisor zero_less_numeral)+
  then have "nat m = nat n" by (metis div_mult_mod_eq)
  then show ?thesis using assms by simp
qed

definition key_of :: "int \<Rightarrow> string" where
  "key_of n = (let (y, mo, d) = civil_of n in date_key y mo d)"

lemma key_inject:
  assumes "0 \<le> m" "0 \<le> n" "key_of m = key_of n"
  shows "m = n"
proof -
  obtain y mo d y' mo' d' where c: "civil_of m = (y, mo, d)" "civil_of n = (y', mo', d')"
    by (metis prod_cases3)
  have range: "0 \<le> mo" "mo < 100" "0 \<le> d" "d < 100" "0 \<le> mo'" "mo' < 100" "0 \<le> d'" "d' < 100"
    using civil_month [of m] civil_day [of m] civil_month [of n] civil_day [of n] unfolding c by auto
  have year: "0 \<le> y" "0 \<le> y'" using civil_year [OF assms(1)] civil_year [OF assms(2)] unfolding c by auto
  have "length (pad x) = 2" if "0 \<le> x" "x < 100" for x using that by (simp add: pad_digits)
  then have "length (''-'' @ pad mo @ ''-'' @ pad d) = length (''-'' @ pad mo' @ ''-'' @ pad d')"
    "length (pad mo) = length (pad mo')"
    using range by simp_all
  then have "int_text y = int_text y'" "pad mo = pad mo'" "pad d = pad d'"
    using assms(3) unfolding key_of_def c date_key_def Let_def prod.case
    by (simp_all add: append_eq_append_conv)
  then have "y = y'" "mo = mo'" "d = d'"
    using year range pad_inject by (simp_all add: int_text_def)
  then show ?thesis using c civil_inject by metis
qed

section \<open>The run of a program\<close>

text \<open>A schedule that is filled in: the program's first local day, its length, days and times.\<close>

definition scheduled :: "course_schedule \<Rightarrow> zone \<Rightarrow> int \<Rightarrow> int \<Rightarrow> int \<times> int \<Rightarrow> bool" where
  "scheduled s tz start weeks general \<longleftrightarrow>
     sc_startDate s = Some start \<and> sc_durationWeeks s = Some weeks \<and> sc_timezone s = Some tz \<and>
     weeks > 0 \<and> meeting_days s \<noteq> [] \<and>
     (\<exists>time. sc_meetingTime s = Some time \<and> parse_hhmm time = Some general) \<and>
     zone_ok tz \<and> modern start"

definition local_day :: "zone \<Rightarrow> int \<Rightarrow> int" where
  "local_day tz t = (t + tz t) div day_ms"

definition meets_on :: "course_schedule \<Rightarrow> int \<Rightarrow> bool" where
  "meets_on s n \<longleftrightarrow> of_int (weekday n) \<in> set (meeting_days s)"

definition meeting_at :: "course_schedule \<Rightarrow> zone \<Rightarrow> int \<times> int \<Rightarrow> int \<Rightarrow> occurrence" where
  "meeting_at s tz general n = occurrence_at tz (parse_times_by_day (sc_meetingTimesByDay s)) general (n * day_ms)"

lemma local_day_pos:
  assumes "zone_ok tz" and "modern t"
  shows "1 \<le> local_day tz t" "0 \<le> local_day tz t"
proof -
  have "- day_ms < tz t" "2 * day_ms \<le> t" using assms by (simp_all add: zone_ok_def modern_def)
  then have "day_ms \<le> t + tz t" by linarith
  then have "day_ms div day_ms \<le> (t + tz t) div day_ms" by (rule zdiv_mono1) (simp add: day_ms_def)
  then show "1 \<le> local_day tz t" "0 \<le> local_day tz t" by (simp_all add: local_day_def day_ms_def)
qed

lemma run_days_from:
  assumes "zone_ok tz" and "modern start"
  shows "run_days tz start weeks = map (\<lambda>i. (local_day tz start + int i) * day_ms) [0..<nat (weeks * 7)]"
proof -
  obtain y mo d where c: "civil_of (local_day tz start) = (y, mo, d)" by (metis prod_cases3)
  have "date_utc y mo d 0 0 0 = local_day tz start * day_ms"
    using date_utc_day [OF c local_day_pos(2) [OF assms], of 0 0] by simp
  then show ?thesis
    using c by (simp add: run_days_def parts_in_tz_def parts_of_def local_day_def Let_def distrib_right)
qed

lemma list_occurrences_days:
  assumes "scheduled s tz start weeks general"
  shows "list_occurrences s = map (meeting_at s tz general)
     (filter (meets_on s) (map (\<lambda>i. local_day tz start + int i) [0..<nat (weeks * 7)]))"
proof -
  have z: "zone_ok tz" "modern start" using assms by (simp_all add: scheduled_def)
  obtain time where t: "sc_meetingTime s = Some time" "parse_hhmm time = Some general" "time \<noteq> []"
  proof -
    obtain time where t: "sc_meetingTime s = Some time" "parse_hhmm time = Some general"
      using assms by (auto simp: scheduled_def)
    have "parse_hhmm [] = None" by (simp add: parse_hhmm_def)
    then have "time \<noteq> []" using t(2) by auto
    then show thesis using t that by blast
  qed
  have d: "n * day_ms div day_ms = n" for n by (simp add: day_ms_def)
  have run: "run_days tz start weeks =
      map (\<lambda>n. n * day_ms) (map (\<lambda>i. local_day tz start + int i) [0..<nat (weeks * 7)])"
    unfolding run_days_from [OF z] by simp
  have "list_occurrences s = map (occurrence_at tz (parse_times_by_day (sc_meetingTimesByDay s)) general)
      (filter (\<lambda>dt. of_int (weekday (dt div day_ms)) \<in> set (meeting_days s)) (run_days tz start weeks))"
    using assms t by (simp add: list_occurrences_def scheduled_def)
  then show ?thesis
    unfolding run filter_map map_map comp_def d meets_on_def meeting_at_def by simp
qed

lemma meeting_key: "oc_dateKey (meeting_at s tz general n) = key_of n"
  by (simp add: meeting_at_def occurrence_at_def key_of_def day_ms_def Let_def case_prod_beta)

lemma today_key_of: "today_key tz now = key_of (local_day tz now)"
  by (simp add: today_key_def key_of_def parts_in_tz_def parts_of_def local_day_def Let_def case_prod_beta)

text \<open>Seven days in a row are each day of the week once.\<close>

lemma week_count:
  "length (filter (\<lambda>i. P ((f + int i) mod 7)) [0..<7]) = card {d \<in> {0..<7}. P d}"
proof -
  let ?g = "\<lambda>i. (f + int i) mod 7"
  have inj: "inj_on ?g {0..<7}"
  proof (rule inj_onI)
    fix i j :: nat
    assume "i \<in> {0..<7}" "j \<in> {0..<7}" and same: "?g i = ?g j"
    then have "int i mod 7 = int i" "int j mod 7 = int j" by simp_all
    moreover have "(?g i - f) mod 7 = (?g j - f) mod 7" using same by simp
    ultimately show "i = j" by (simp add: mod_diff_left_eq)
  qed
  have "?g ` {0..<7} \<subseteq> {0..<7}" by auto
  moreover have "card (?g ` {0..<7}) = card {0..<7 :: int}" using inj by (simp add: card_image)
  ultimately have all: "?g ` {0..<7} = {0..<7}" by (intro card_subset_eq) simp_all
  have "{d \<in> ?g ` {0..<7}. P d} = ?g ` {i \<in> {0..<7}. P (?g i)}" by blast
  then have "{d \<in> {0..<7}. P d} = ?g ` {i \<in> {0..<7}. P (?g i)}" unfolding all .
  moreover have "card (?g ` {i \<in> {0..<7}. P (?g i)}) = card {i \<in> {0..<7}. P (?g i)}"
    by (rule card_image) (rule inj_on_subset [OF inj], auto)
  moreover have "length (filter (\<lambda>i. P (?g i)) [0..<7]) = card {i \<in> {0..<7}. P (?g i)}"
    by (simp add: distinct_length_filter Collect_conj_eq Int_commute atLeast_upt lessThan_atLeast0)
      (simp add: atLeast0LessThan lessThan_def)
  ultimately show ?thesis by simp
qed

lemma weeks_count:
  "length (filter (\<lambda>i. P ((f + int i) mod 7)) [0..<w * 7]) = w * card {d \<in> {0..<7}. P d}"
proof (induction w arbitrary: f)
  case (Suc w)
  have split: "[0..<Suc w * 7] = [0..<7] @ map (\<lambda>i. i + 7) [0..<w * 7]"
    by (simp add: upt_add_eq_append [of 0 7 "w * 7", simplified] map_add_upt add.commute)
  have shift: "(f + int (i + 7)) mod 7 = (f + int i) mod 7" for i
    by (simp only: of_nat_add of_nat_numeral add.assoc [symmetric] mod_add_self2)
  show ?case
    unfolding split filter_append length_append filter_map comp_def length_map shift week_count Suc.IH by simp
qed simp

lemma parse_hhmm_range: "parse_hhmm time = Some (hh, mm) \<Longrightarrow> 0 \<le> hh \<and> 0 \<le> mm"
  by (auto simp: parse_hhmm_def digit_value_def split: list.splits if_splits)

text \<open>Without per-day times the meetings are in order, as long as the zone moves by less than a day.\<close>

definition meeting_instant :: "zone \<Rightarrow> int \<times> int \<Rightarrow> int \<Rightarrow> int" where
  "meeting_instant tz general n =
     (let g = n * day_ms + fst general * 3600000 + snd general * 60000 in g - tz g)"

lemma meeting_instant_at:
  assumes "scheduled s tz start weeks general" and "sc_meetingTimesByDay s = None" and "1 \<le> n"
  shows "oc_scheduledAt (meeting_at s tz general n) = meeting_instant tz general n"
proof -
  obtain y mo d where c: "civil_of n = (y, mo, d)" by (metis prod_cases3)
  obtain hh mm where g: "general = (hh, mm)" by (cases general)
  have "zone_ok tz" "0 \<le> hh" "0 \<le> mm" using assms(1) by (auto simp: scheduled_def g dest: parse_hhmm_range)
  then have "zoned_wall_time_to_utc y mo d hh mm tz =
      n * day_ms + hh * 3600000 + mm * 60000 - tz (n * day_ms + hh * 3600000 + mm * 60000)"
    using wall_time [OF _ assms(3) c] by blast
  moreover have "n * day_ms div day_ms = n" by (simp add: day_ms_def)
  ultimately show ?thesis
    using c assms(2)
    by (simp add: meeting_at_def occurrence_at_def parse_times_by_day_def meeting_instant_def g Let_def)
qed

lemma meeting_instant_mono:
  assumes "\<forall>t u. tz u - tz t < day_ms" and "m < n"
  shows "meeting_instant tz general m < meeting_instant tz general n"
proof -
  have "m * day_ms + day_ms \<le> n * day_ms" using assms(2) by (simp add: day_ms_def)
  then show ?thesis using assms(1) by (simp add: meeting_instant_def Let_def) (smt (verit) assms(1))
qed

lemma find_sorted:
  fixes now :: int
  assumes "sorted_wrt (\<lambda>x y. f x < f y) xs"
  shows "case find (\<lambda>x. now < f x) xs of
       None \<Rightarrow> \<forall>x \<in> set xs. f x \<le> now
     | Some y \<Rightarrow> y \<in> set xs \<and> now < f y \<and> (\<forall>x \<in> set xs. now < f x \<longrightarrow> f y \<le> f x)"
  using assms by (induction xs) (auto split: option.splits)

section \<open>Properties\<close>

text \<open>A class on Sundays and Tuesdays at nine, New York time, from 3 March 2024, for two weeks.\<close>

definition zone_step :: "int \<Rightarrow> int \<Rightarrow> int \<Rightarrow> zone" where
  "zone_step T a b = (\<lambda>t. if t < T then a else b)"

definition new_york :: zone where
  "new_york = zone_step 1710054000000 (- 18000000) (- 14400000)"

definition sunday_class :: course_schedule where
  "sunday_class = \<lparr>sc_startDate = Some 1709474400000, sc_durationWeeks = Some 2,
     sc_meetingDays = Some [Some 0, Some 2], sc_meetingTime = Some ''09:00'',
     sc_meetingTimesByDay = None, sc_timezone = Some new_york\<rparr>"

lemma zone_step_ok:
  "- day_ms < a \<Longrightarrow> a < day_ms \<Longrightarrow> a mod 1000 = 0 \<Longrightarrow> - day_ms < b \<Longrightarrow> b < day_ms \<Longrightarrow> b mod 1000 = 0 \<Longrightarrow>
     zone_ok (zone_step T a b)"
  by (simp add: zone_ok_def zone_step_def)

lemma sunday_class_scheduled: "scheduled sunday_class new_york 1709474400000 2 (9, 0)"
proof -
  have "zone_ok new_york" unfolding new_york_def by (rule zone_step_ok) (simp_all add: day_ms_def)
  moreover have "parse_hhmm ''09:00'' = Some (9, 0)" by code_simp
  ultimately show ?thesis
    by (simp add: scheduled_def sunday_class_def meeting_days_def List.map_filter_def modern_def day_ms_def)
qed

text \<open>A program meets every week on each of its meeting days, and never twice on a day: over
  its run the meetings are as many as the weeks times the weekdays named, whatever the zone and
  the weekday the program starts on, and their room keys are all different.\<close>

theorem program_meets_every_week:
  assumes "scheduled s tz start weeks general"
  shows "int (length (list_occurrences s)) = weeks * int (card {d \<in> {0..<7 :: int}. of_int d \<in> set (meeting_days s)}) \<and>
    distinct (map oc_dateKey (list_occurrences s))"
proof (intro conjI)
  have z: "zone_ok tz" "modern start" "weeks > 0" using assms by (simp_all add: scheduled_def)
  let ?f = "local_day tz start"
  have "length (list_occurrences s) =
      length (filter (\<lambda>i. of_int (((?f + 4) + int i) mod 7) \<in> set (meeting_days s)) [0..<nat weeks * 7])"
    unfolding list_occurrences_days [OF assms] length_map filter_map comp_def meets_on_def weekday_def
    using z(3) by (simp add: nat_mult_distrib add.commute add.left_commute)
  then have "length (list_occurrences s) = nat weeks * card {d \<in> {0..<7 :: int}. of_int d \<in> set (meeting_days s)}"
    using weeks_count [of "\<lambda>d. of_int d \<in> set (meeting_days s)" "?f + 4" "nat weeks"] by simp
  then show "int (length (list_occurrences s)) = weeks * int (card {d \<in> {0..<7 :: int}. of_int d \<in> set (meeting_days s)})"
    using z(3) by simp
  have "inj_on key_of (set (filter (meets_on s) (map (\<lambda>i. ?f + int i) [0..<nat (weeks * 7)])))"
    using local_day_pos(2) [OF z(1,2)] by (intro inj_onI) (auto intro: key_inject)
  moreover have "distinct (map (\<lambda>i. ?f + int i) [0..<nat (weeks * 7)])" by (simp add: distinct_map inj_on_def)
  ultimately show "distinct (map oc_dateKey (list_occurrences s))"
    unfolding list_occurrences_days [OF assms] map_map comp_def meeting_key by (simp add: distinct_map)
qed

theorem program_meets_every_week_witness:
  "int (length (list_occurrences sunday_class)) = 4"
proof -
  have "{d \<in> {0..<7 :: int}. of_int d \<in> set (meeting_days sunday_class)} = {0, 2}"
    by (auto simp: sunday_class_def meeting_days_def List.map_filter_def)
  then show ?thesis using program_meets_every_week [OF sunday_class_scheduled] by simp
qed

text \<open>C32: A class can be joined exactly on the local calendar days the program meets: all of such a
  day, in the program's own zone, and no other time.\<close>

theorem joinable_exactly_on_meeting_days:
  assumes "scheduled s tz start weeks general" and "modern now"
  shows "jw_joinableNow (resolve_join_window s now) \<longleftrightarrow>
     local_day tz start \<le> local_day tz now \<and> local_day tz now < local_day tz start + 7 * weeks \<and>
     of_int (weekday (local_day tz now)) \<in> set (meeting_days s)"
proof -
  have z: "zone_ok tz" "modern start" "weeks > 0" "sc_timezone s = Some tz" using assms(1) by (simp_all add: scheduled_def)
  let ?f = "local_day tz start" and ?t = "local_day tz now"
  have pos: "0 \<le> ?f" "0 \<le> ?t" using local_day_pos(2) z(1,2) assms(2) by blast+
  have days: "set (map (\<lambda>i. ?f + int i) [0..<nat (weeks * 7)]) = {n. ?f \<le> n \<and> n < ?f + 7 * weeks}"
  proof -
    have "n \<in> (\<lambda>i. ?f + int i) ` {0..<nat (weeks * 7)}" if "?f \<le> n" "n < ?f + 7 * weeks" for n
      using that by (intro image_eqI [where x = "nat (n - ?f)"]) auto
    then show ?thesis by (auto simp: nat_less_iff)
  qed
  have "jw_joinableNow (resolve_join_window s now) \<longleftrightarrow> (\<exists>x \<in> set (list_occurrences s). oc_dateKey x = today_key tz now)"
    using z(4) find_None_iff [of "\<lambda>x. oc_dateKey x = today_key tz now" "list_occurrences s"]
    by (auto simp: resolve_join_window_def Let_def simp del: not_None_eq)
  also have "\<dots> \<longleftrightarrow> (\<exists>n \<in> {n. ?f \<le> n \<and> n < ?f + 7 * weeks}. meets_on s n \<and> key_of n = key_of ?t)"
    unfolding list_occurrences_days [OF assms(1)] today_key_of days [symmetric] by (auto simp: meeting_key)
  also have "\<dots> \<longleftrightarrow> ?f \<le> ?t \<and> ?t < ?f + 7 * weeks \<and> meets_on s ?t"
  proof -
    have "n = ?t" if "?f \<le> n" "key_of n = key_of ?t" for n
      using pos that by (intro key_inject) auto
    then show ?thesis by blast
  qed
  finally show ?thesis by (simp add: meets_on_def)
qed

theorem joinable_exactly_on_meeting_days_witness:
  "jw_joinableNow (resolve_join_window sunday_class 1709500000000)"
proof -
  have "modern 1709500000000" by (simp add: modern_def day_ms_def)
  moreover have "local_day new_york 1709500000000 = 19785" "local_day new_york 1709474400000 = 19785"
    "weekday 19785 = 0" by code_simp+
  ultimately show ?thesis
    using joinable_exactly_on_meeting_days [OF sunday_class_scheduled, of 1709500000000]
    by (simp add: sunday_class_def meeting_days_def List.map_filter_def)
qed

text \<open>The next meeting that is offered is the soonest one still to come: in a program without
  per-day times, in a zone whose offset never moves by a day, no meeting lies between now and it,
  and none is offered only when none is left.\<close>

theorem next_meeting_is_the_soonest:
  assumes "scheduled s tz start weeks general" and "sc_meetingTimesByDay s = None"
    and "\<forall>t u. tz u - tz t < day_ms"
  shows "case jw_next (resolve_join_window s now) of
       None \<Rightarrow> \<forall>x \<in> set (list_occurrences s). oc_scheduledAt x \<le> now
     | Some y \<Rightarrow> y \<in> set (list_occurrences s) \<and> now < oc_scheduledAt y \<and>
         (\<forall>x \<in> set (list_occurrences s). now < oc_scheduledAt x \<longrightarrow> oc_scheduledAt y \<le> oc_scheduledAt x)"
proof -
  have z: "zone_ok tz" "modern start" "sc_timezone s = Some tz" using assms(1) by (simp_all add: scheduled_def)
  let ?f = "local_day tz start"
  let ?ns = "filter (meets_on s) (map (\<lambda>i. ?f + int i) [0..<nat (weeks * 7)])"
  have "1 \<le> n" if "n \<in> set ?ns" for n using local_day_pos(1) [OF z(1,2)] that by auto
  then have at: "oc_scheduledAt (meeting_at s tz general n) = meeting_instant tz general n" if "n \<in> set ?ns" for n
    using meeting_instant_at [OF assms(1,2)] that by blast
  have "sorted_wrt (<) ?ns" by (intro sorted_wrt_filter) (simp add: sorted_wrt_map sorted_wrt_iff_nth_less)
  then have "sorted_wrt (\<lambda>x y. oc_scheduledAt x < oc_scheduledAt y) (list_occurrences s)"
    unfolding list_occurrences_days [OF assms(1)] sorted_wrt_map
    by (rule sorted_wrt_mono_rel [rotated]) (simp add: at meeting_instant_mono [OF assms(3)])
  from find_sorted [OF this, of now] show ?thesis
    using z(3) by (simp add: resolve_join_window_def Let_def split: if_splits option.splits)
qed

theorem next_meeting_is_the_soonest_witness:
  "case jw_next (resolve_join_window sunday_class 1709500000000) of
       None \<Rightarrow> \<forall>x \<in> set (list_occurrences sunday_class). oc_scheduledAt x \<le> 1709500000000
     | Some y \<Rightarrow> y \<in> set (list_occurrences sunday_class) \<and> 1709500000000 < oc_scheduledAt y \<and>
         (\<forall>x \<in> set (list_occurrences sunday_class).
            1709500000000 < oc_scheduledAt x \<longrightarrow> oc_scheduledAt y \<le> oc_scheduledAt x)"
  by (rule next_meeting_is_the_soonest [OF sunday_class_scheduled])
    (simp_all add: sunday_class_def new_york_def zone_step_def day_ms_def)

text \<open>Finding: The offset probe misses more than the repeated hour: in a zone west of Greenwich whose
  clock moves, every wall time in the hours after the move that are as many as the zone is behind
  UTC is turned into an instant that shows another wall time, off by the move.\<close>

theorem probe_misses_wall_times_after_a_shift:
  assumes "zone_ok (zone_step T a b)" and "1 \<le> n" and "civil_of n = (y, mo, d)" and "0 \<le> hh" and "0 \<le> mm"
    and "n * day_ms + hh * 3600000 + mm * 60000 < T"
    and "T \<le> n * day_ms + hh * 3600000 + mm * 60000 - a"
  shows "parts_in_tz (zoned_wall_time_to_utc y mo d hh mm (zone_step T a b)) (zone_step T a b) =
     parts_of (n * day_ms + hh * 3600000 + mm * 60000 + (b - a))"
proof -
  let ?g = "n * day_ms + hh * 3600000 + mm * 60000"
  have "zoned_wall_time_to_utc y mo d hh mm (zone_step T a b) = ?g - zone_step T a b ?g"
    using wall_time [OF assms(1-3) assms(4,5)] .
  also have "\<dots> = ?g - a" using assms(6) by (simp add: zone_step_def)
  finally have r: "zoned_wall_time_to_utc y mo d hh mm (zone_step T a b) = ?g - a" .
  have "zone_step T a b (?g - a) = b" using assms(7) by (simp add: zone_step_def)
  moreover have "?g - a + b = ?g + (b - a)" by simp
  ultimately show ?thesis unfolding r parts_in_tz_def by metis
qed

text \<open>Half past three on the Sunday the clocks went forward is scheduled for half past four.\<close>

theorem probe_misses_wall_times_after_a_shift_witness:
  "parts_in_tz (zoned_wall_time_to_utc 2024 3 10 3 30 new_york) new_york =
     \<lparr>pt_year = 2024, pt_month = 3, pt_day = 10, pt_hour = 4, pt_minute = 30, pt_second = 0\<rparr>"
proof -
  have "zone_ok (zone_step 1710054000000 (- 18000000) (- 14400000))" by (rule zone_step_ok) (simp_all add: day_ms_def)
  moreover have "civil_of 19792 = (2024, 3, 10)" by code_simp
  ultimately have "parts_in_tz (zoned_wall_time_to_utc 2024 3 10 3 30 new_york) new_york =
      parts_of (19792 * day_ms + 3 * 3600000 + 30 * 60000 + (- 14400000 - (- 18000000)))"
    unfolding new_york_def
    by (intro probe_misses_wall_times_after_a_shift) (simp_all add: day_ms_def)
  also have "\<dots> = \<lparr>pt_year = 2024, pt_month = 3, pt_day = 10, pt_hour = 4, pt_minute = 30, pt_second = 0\<rparr>"
    by code_simp
  finally show ?thesis .
qed

text \<open>Away from a shift the conversion is right: when the zone's offset at the instant found is
  the one the probe read, the instant shows exactly the wall time asked for.\<close>

theorem wall_time_is_kept:
  assumes "zone_ok tz" and "1 \<le> n" and "civil_of n = (y, mo, d)"
    and "0 \<le> hh" and "hh < 24" and "0 \<le> mm" and "mm < 60"
    and "let g = n * day_ms + hh * 3600000 + mm * 60000 in tz (g - tz g) = tz g"
  shows "parts_in_tz (zoned_wall_time_to_utc y mo d hh mm tz) tz =
     \<lparr>pt_year = y, pt_month = mo, pt_day = d, pt_hour = hh, pt_minute = mm, pt_second = 0\<rparr>"
  using wall_time [OF assms(1-4,6)] parts_of_wall [OF assms(3-7)] assms(8)
  by (simp add: parts_in_tz_def Let_def)

theorem wall_time_is_kept_witness:
  "parts_in_tz (zoned_wall_time_to_utc 2024 3 5 9 0 new_york) new_york =
     \<lparr>pt_year = 2024, pt_month = 3, pt_day = 5, pt_hour = 9, pt_minute = 0, pt_second = 0\<rparr>"
proof -
  have "zone_ok new_york" unfolding new_york_def by (rule zone_step_ok) (simp_all add: day_ms_def)
  moreover have "civil_of 19787 = (2024, 3, 5)" by code_simp
  ultimately show ?thesis
    by (intro wall_time_is_kept [where n = 19787])
      (simp_all add: new_york_def zone_step_def day_ms_def)
qed

end
