(* ===== verification/CalendarIcs.thy ===== *)
theory CalendarIcs
  imports Schedule
begin

text \<open>
  \<open>src/courses/calendar-ics.ts\<close>: a course's weekly cadence as an iCalendar file. Lines are lists of
  code points. The stamps of the years 1000 to 9999 are exact; the code reads a date key by columns,
  which a longer year would shift. The clock of \<open>DTSTAMP\<close> is an argument.
\<close>

section \<open>Stamps and escapes\<close>

definition ics_days :: "string list" where
  "ics_days = [''SU'', ''MO'', ''TU'', ''WE'', ''TH'', ''FR'', ''SA'']"

definition duration_min :: int where
  "duration_min = 60"

definition date_stamp :: "parts \<Rightarrow> string" where
  "date_stamp p = int_text (pt_year p) @ pad (pt_month p) @ pad (pt_day p)"

definition utc_stamp :: "int \<Rightarrow> string" where
  "utc_stamp d =
     (let p = parts_of d
      in date_stamp p @ ''T'' @ pad (pt_hour p) @ pad (pt_minute p) @ pad (pt_second p) @ ''Z'')"

text \<open>\<open>+dateKey.slice(i, j)\<close> on the digits of a key.\<close>

definition key_field :: "string \<Rightarrow> nat \<Rightarrow> nat \<Rightarrow> int" where
  "key_field k i j = int (undec (take (j - i) (drop i k)))"

definition local_stamp :: "string \<Rightarrow> int \<Rightarrow> int \<Rightarrow> int \<Rightarrow> string" where
  "local_stamp dateKey hh mm addMin =
     (let base = date_utc (key_field dateKey 0 4) (key_field dateKey 5 7) (key_field dateKey 8 10) hh mm 0;
          p = parts_of (base + addMin * 60000)
      in date_stamp p @ ''T'' @ pad (pt_hour p) @ pad (pt_minute p) @ ''00'')"

definition js_replace :: "nat \<Rightarrow> codepoints \<Rightarrow> codepoints \<Rightarrow> codepoints" where
  "js_replace c r s = concat (map (\<lambda>x. if x = c then r else [x]) s)"

text \<open>A backslash is 92, a semicolon 59, a comma 44 and a line feed 10.\<close>

definition esc :: "codepoints \<Rightarrow> codepoints" where
  "esc s = js_replace 10 [92, 110] (js_replace 44 [92, 44] (js_replace 59 [92, 59] (js_replace 92 [92, 92] s)))"

section \<open>The file\<close>

record ics_course =
  ic_id :: string
  ic_title :: codepoints
  ic_schedule :: course_schedule
  ic_timezone :: string
  ic_scheduleUpdatedAt :: "int option"

definition byday :: "rat list \<Rightarrow> string" where
  "byday days =
     concat (map (\<lambda>(i, d). (if i = 0 then [] else '','') @
         (if of_int \<lfloor>d\<rfloor> = d \<and> 0 \<le> d \<and> d \<le> 6 then ics_days ! nat \<lfloor>d\<rfloor> else []))
       (enumerate 0 days))"

definition ics_lines ::
  "ics_course \<Rightarrow> string \<Rightarrow> int \<Rightarrow> occurrence list \<Rightarrow> int \<times> int \<Rightarrow> codepoints list"
where
  "ics_lines course host now occ t =
     (let hh = fst t; mm = snd t;
          firstKey = oc_dateKey (hd occ);
          until = utc_stamp (oc_scheduledAt (last occ));
          seq = (case ic_scheduleUpdatedAt course of None \<Rightarrow> 0 | Some ms \<Rightarrow> ms div 1000)
      in
      [codes ''BEGIN:VCALENDAR'', codes ''VERSION:2.0'', codes ''PRODID:-//livetich//class//EN'',
       codes ''CALSCALE:GREGORIAN'', codes ''METHOD:PUBLISH'', codes ''BEGIN:VEVENT'',
       codes (''UID:course-'' @ ic_id course @ ''@'' @ host),
       codes (''SEQUENCE:'' @ int_text seq),
       codes (''DTSTAMP:'' @ utc_stamp now),
       codes (''DTSTART;TZID='' @ ic_timezone course @ '':'' @ local_stamp firstKey hh mm 0),
       codes (''DTEND;TZID='' @ ic_timezone course @ '':'' @ local_stamp firstKey hh mm duration_min),
       codes (''RRULE:FREQ=WEEKLY;BYDAY='' @ byday (meeting_days (ic_schedule course)) @ '';UNTIL='' @ until),
       codes ''SUMMARY:'' @ esc (ic_title course),
       codes ''DESCRIPTION:'' @ esc (codes ''Live class on livetich '' @ [8212] @ codes '' '' @ ic_title course),
       codes ''BEGIN:VALARM'', codes ''TRIGGER:-PT15M'', codes ''ACTION:DISPLAY'',
       codes ''DESCRIPTION:'' @ esc (ic_title course @ codes '' starts in 15 minutes''),
       codes ''END:VALARM'', codes ''END:VEVENT'', codes ''END:VCALENDAR''])"

text \<open>With an occurrence the meeting time has been read as \<open>HH:MM\<close>, so \<open>split(':').map(Number)\<close>
  gives the same hour and minute.\<close>

definition build_course_ics :: "ics_course \<Rightarrow> string \<Rightarrow> int \<Rightarrow> codepoints list option" where
  "build_course_ics course host now =
     (let occ = list_occurrences (ic_schedule course) in
      case (sc_meetingTime (ic_schedule course), sc_timezone (ic_schedule course)) of
        (Some time, Some tz) \<Rightarrow>
          if occ = [] \<or> time = [] then None
          else map_option (ics_lines course host now occ) (parse_hhmm time)
      | _ \<Rightarrow> None)"

definition crlf :: "codepoints list \<Rightarrow> codepoints" where
  "crlf ls = concat (map (\<lambda>l. l @ [13, 10]) ls)"

section \<open>Lemmas\<close>

definition esc1 :: "nat \<Rightarrow> codepoints" where
  "esc1 x = (if x = 92 then [92, 92] else if x = 59 then [92, 59] else if x = 44 then [92, 44]
     else if x = 10 then [92, 110] else [x])"

lemma js_replace_append [simp]: "js_replace c r (s @ t) = js_replace c r s @ js_replace c r t"
  by (simp add: js_replace_def)

lemma esc_esc1: "esc s = concat (map esc1 s)"
  by (induction s) (auto simp: esc_def esc1_def js_replace_def)

text \<open>How a calendar reads a text value.\<close>

fun unesc :: "codepoints \<Rightarrow> codepoints" where
  "unesc [] = []"
| "unesc [x] = [x]"
| "unesc (x # y # s) =
     (if x = 92 then (if y = 110 \<or> y = 78 then 10 else y) # unesc s else x # unesc (y # s))"

lemma unesc_plain: "x \<noteq> 92 \<Longrightarrow> unesc (x # s) = x # unesc s"
  by (cases s) simp_all

lemma unesc_esc1: "unesc (esc1 x @ s) = x # unesc s"
  by (simp add: esc1_def unesc_plain)

section \<open>Properties\<close>

text \<open>a title cannot break the calendar file. A calendar that reads the escaped text gets the title
  back, and the escaped text has no line feed, so it stays in its own line.
\<close>

theorem escaped_text_reads_back:
  "unesc (esc s) = s \<and> 10 \<notin> set (esc s)"
proof
  show "unesc (esc s) = s" unfolding esc_esc1 by (induction s) (simp_all add: unesc_esc1)
  show "10 \<notin> set (esc s)" unfolding esc_esc1 by (induction s) (auto simp: esc1_def)
qed

text \<open>A class on Sundays at two in the afternoon and Tuesdays at nine; nine is the general time.\<close>

definition afternoon_class :: ics_course where
  "afternoon_class = \<lparr>ic_id = ''c1'', ic_title = codes ''T'',
     ic_schedule = sunday_class\<lparr>sc_meetingTimesByDay := Some [(Some 0, Some ''14:00'')]\<rparr>,
     ic_timezone = ''America/New_York'', ic_scheduleUpdatedAt = None\<rparr>"

lemma afternoon_class_scheduled: "scheduled (ic_schedule afternoon_class) new_york 1709474400000 2 (9, 0)"
  using sunday_class_scheduled by (simp add: scheduled_def meeting_days_def afternoon_class_def)

lemma afternoon_class_first:
  "\<exists>rest. list_occurrences (ic_schedule afternoon_class) =
     \<lparr>oc_dateKey = ''2024-03-03'', oc_scheduledAt = 1709492400000\<rparr> # rest"
proof -
  let ?s = "ic_schedule afternoon_class"
  have day: "local_day new_york 1709474400000 = 19785" by code_simp
  have meets: "meets_on ?s 19785"
    by (simp add: meets_on_def weekday_def meeting_days_def afternoon_class_def sunday_class_def List.map_filter_def)
  have times: "sc_meetingTimesByDay ?s = Some [(Some 0, Some ''14:00'')]" by (simp add: afternoon_class_def)
  have perDay: "parse_times_by_day (Some [(Some 0, Some ''14:00'')]) = [(0, (14, 0))]"
  proof -
    have "parse_hhmm ''14:00'' = Some (14, 0)" by code_simp
    then show ?thesis by (simp add: parse_times_by_day_def add_time_def)
  qed
  have first: "meeting_at ?s new_york (9, 0) 19785 = \<lparr>oc_dateKey = ''2024-03-03'', oc_scheduledAt = 1709492400000\<rparr>"
    unfolding meeting_at_def times perDay by code_simp
  have "[0..<nat (2 * 7)] = 0 # [1..<nat (2 * 7)]" by (simp add: upt_conv_Cons)
  then show ?thesis
    unfolding list_occurrences_days [OF afternoon_class_scheduled] day using meets first by simp
qed

text \<open>
  Finding: the file ignores the times of single days. The first meeting of this class is on Sunday 3 March
  2024 at 14:00 in New York (19:00 UTC), and the calendar event starts at 09:00.
\<close>

theorem calendar_misses_the_times_of_single_days:
  "map oc_scheduledAt (take 1 (list_occurrences (ic_schedule afternoon_class))) = [1709492400000] \<and>
   map_option (\<lambda>ls. ls ! 9) (build_course_ics afternoon_class ''livetich.com'' 0) =
     Some (codes ''DTSTART;TZID=America/New_York:20240303T090000'')"
proof -
  obtain rest where rest: "list_occurrences (ic_schedule afternoon_class) =
     \<lparr>oc_dateKey = ''2024-03-03'', oc_scheduledAt = 1709492400000\<rparr> # rest"
    using afternoon_class_first by blast
  have hhmm: "parse_hhmm ''09:00'' = Some (9, 0)" by code_simp
  have stamp: "local_stamp ''2024-03-03'' 9 0 0 = ''20240303T090000''" by code_simp
  have zone: "sc_meetingTime (ic_schedule afternoon_class) = Some ''09:00''"
    "sc_timezone (ic_schedule afternoon_class) = Some new_york" "ic_timezone afternoon_class = ''America/New_York''"
    by (simp_all add: afternoon_class_def sunday_class_def)
  show ?thesis unfolding build_course_ics_def
    by (simp add: rest hhmm stamp zone ics_lines_def Let_def)
qed

end
