(* ===== verification/Tunnel.thy ===== *)
theory Tunnel
  imports JsText
begin

text \<open>
  \<open>src/tunnel/tunnel.service.ts\<close>: the forwarded ports of a session and the HTTP requests that
  wait for an answer through a tunnel. The maps are insertion-ordered; a timer is a number, armed
  or not. Express' response objects are names, and what is done to them is the log; whether a call
  on one throws is an input.
\<close>

section \<open>State\<close>

record active_port =
  ap_sessionId :: string
  ap_port :: int
  ap_label :: "string option"
  ap_targetUrl :: string
  ap_hostSocketId :: string
  ap_hostUserId :: string
  ap_registeredAt :: int

record port_info =
  fp_port :: int
  fp_label :: "string option"
  fp_targetUrl :: string
  fp_previewUrl :: string
  fp_registeredAt :: int

type_synonym headers = "(string \<times> string list) list"

record pending_request =
  pq_reqId :: string
  pq_res :: string
  pq_timer :: nat
  pq_headersSent :: bool

datatype res_call =
    Registered string
  | Headers string int headers
  | Chunk string "nat list"
  | Ended string
  | Json string int string string

record tunnel =
  tn_ports :: "(string, active_port) amap"
  tn_pending :: "(string, pending_request) amap"
  tn_timers :: "(nat, string) amap"
  tn_nextTimer :: nat
  tn_log :: "res_call list"

definition tunnel_start :: tunnel where
  "tunnel_start = \<lparr>tn_ports = [], tn_pending = [], tn_timers = [], tn_nextTimer = 0, tn_log = []\<rparr>"

definition respond :: "res_call \<Rightarrow> tunnel \<Rightarrow> tunnel" where
  "respond c t = t\<lparr>tn_log := tn_log t @ [c]\<rparr>"

section \<open>Ports\<close>

definition port_key :: "string \<Rightarrow> int \<Rightarrow> string" where
  "port_key sessionId port = sessionId @ '':'' @ int_text port"

text \<open>The process environment; \<open>rehost base host\<close> is the URL \<open>base\<close> with its host name
  replaced, its path \<open>/\<close> and neither query nor fragment.\<close>

record preview_env =
  pe_domain :: "string option"
  pe_baseUrl :: "string option"
  pe_port :: "string option"

definition strip_dots :: "string \<Rightarrow> string" where
  "strip_dots s = rev (dropWhile (\<lambda>c. c = CHR ''.'') (rev (dropWhile (\<lambda>c. c = CHR ''.'') s)))"

definition nonempty :: "string option \<Rightarrow> string option" where
  "nonempty x = (case x of Some s \<Rightarrow> if s = [] then None else Some s | None \<Rightarrow> None)"

definition preview_url :: "(string \<Rightarrow> string \<Rightarrow> string) \<Rightarrow> preview_env \<Rightarrow> string \<Rightarrow> int \<Rightarrow> string" where
  "preview_url rehost e sessionId port =
     (let sessionHost = sessionId @ ''-'' @ int_text port in
      case nonempty (map_option (\<lambda>s. strip_dots (trim s)) (pe_domain e)) of
        Some configuredDomain \<Rightarrow> ''https://'' @ sessionHost @ ''.'' @ configuredDomain @ ''/''
      | None \<Rightarrow>
          (case nonempty (map_option trim (pe_baseUrl e)) of
             Some base \<Rightarrow> rehost base (sessionHost @ ''.localhost'')
           | None \<Rightarrow> ''http://'' @ sessionHost @ ''.localhost:'' @
               (case pe_port e of Some p \<Rightarrow> p | None \<Rightarrow> ''3000'') @ ''/''))"

definition info_of :: "(string \<Rightarrow> string \<Rightarrow> string) \<Rightarrow> preview_env \<Rightarrow> active_port \<Rightarrow> port_info" where
  "info_of rehost e p = \<lparr>fp_port = ap_port p, fp_label = ap_label p, fp_targetUrl = ap_targetUrl p,
     fp_previewUrl = preview_url rehost e (ap_sessionId p) (ap_port p), fp_registeredAt = ap_registeredAt p\<rparr>"

definition register_port ::
  "(string \<Rightarrow> string \<Rightarrow> string) \<Rightarrow> preview_env \<Rightarrow> int \<Rightarrow> tunnel \<Rightarrow> string \<Rightarrow> int \<Rightarrow> string option \<Rightarrow>
    string \<Rightarrow> string \<Rightarrow> tunnel \<times> port_info"
where
  "register_port rehost e now t sessionId port label hostSocketId hostUserId =
     (let info = \<lparr>ap_sessionId = sessionId, ap_port = port, ap_label = label,
                   ap_targetUrl = ''http://localhost:'' @ int_text port, ap_hostSocketId = hostSocketId,
                   ap_hostUserId = hostUserId, ap_registeredAt = now\<rparr>
      in (t\<lparr>tn_ports := aput (port_key sessionId port) info (tn_ports t)\<rparr>, info_of rehost e info))"

definition unregister_port :: "tunnel \<Rightarrow> string \<Rightarrow> int \<Rightarrow> tunnel \<times> bool" where
  "unregister_port t sessionId port =
     (let key = port_key sessionId port
      in (t\<lparr>tn_ports := adel key (tn_ports t)\<rparr>, key \<in> set (akeys (tn_ports t))))"

definition get_ports_for_session ::
  "(string \<Rightarrow> string \<Rightarrow> string) \<Rightarrow> preview_env \<Rightarrow> tunnel \<Rightarrow> string \<Rightarrow> port_info list"
where
  "get_ports_for_session rehost e t sessionId =
     map (info_of rehost e) (filter (\<lambda>p. ap_sessionId p = sessionId) (avals (tn_ports t)))"

definition get_host_socket_for_port :: "tunnel \<Rightarrow> string \<Rightarrow> int \<Rightarrow> string option" where
  "get_host_socket_for_port t sessionId port =
     map_option ap_hostSocketId (map_of (tn_ports t) (port_key sessionId port))"

definition cleanup_socket_ports :: "tunnel \<Rightarrow> string \<Rightarrow> tunnel \<times> (string \<times> int) list" where
  "cleanup_socket_ports t socketId =
     (t\<lparr>tn_ports := filter (\<lambda>(k, p). ap_hostSocketId p \<noteq> socketId) (tn_ports t)\<rparr>,
      map (\<lambda>p. (ap_sessionId p, ap_port p)) (filter (\<lambda>p. ap_hostSocketId p = socketId) (avals (tn_ports t))))"

section \<open>Requests\<close>

definition register_pending_request :: "tunnel \<Rightarrow> string \<Rightarrow> string \<Rightarrow> tunnel" where
  "register_pending_request t reqId res =
     respond (Registered res)
       (t\<lparr>tn_timers := aput (tn_nextTimer t) reqId (tn_timers t), tn_nextTimer := Suc (tn_nextTimer t),
          tn_pending := aput reqId \<lparr>pq_reqId = reqId, pq_res = res, pq_timer = tn_nextTimer t,
            pq_headersSent = False\<rparr> (tn_pending t)\<rparr>)"

definition lower_char :: "char \<Rightarrow> char" where
  "lower_char c = (if 65 \<le> (of_char c :: nat) \<and> (of_char c :: nat) \<le> 90 then char_of ((of_char c :: nat) + 32) else c)"

definition dropped_headers :: "string list" where
  "dropped_headers = [''x-frame-options'', ''frame-ancestors'', ''transfer-encoding'', ''connection'', ''keep-alive'']"

definition sanitize :: "headers \<Rightarrow> headers" where
  "sanitize hs = filter (\<lambda>(k, v). map lower_char k \<notin> set dropped_headers) hs"

text \<open>\<open>throws\<close> says whether Express rejects a header: the log then shows none.\<close>

definition handle_response_headers :: "bool \<Rightarrow> tunnel \<Rightarrow> string \<Rightarrow> int \<Rightarrow> headers \<Rightarrow> tunnel \<times> bool" where
  "handle_response_headers throws t reqId statusCode hs =
     (case map_of (tn_pending t) reqId of
        None \<Rightarrow> (t, False)
      | Some p \<Rightarrow>
          if pq_headersSent p then (t, False)
          else
            let t' = t\<lparr>tn_pending := aput reqId (p\<lparr>pq_headersSent := True\<rparr>) (tn_pending t)\<rparr>
            in if throws then (t', False) else (respond (Headers (pq_res p) statusCode (sanitize hs)) t', True))"

text \<open>\<open>decode\<close> is the chunk's bytes, from base 64 or UTF-8.\<close>

definition handle_response_chunk ::
  "(bool \<Rightarrow> string \<Rightarrow> nat list) \<Rightarrow> bool \<Rightarrow> tunnel \<Rightarrow> string \<Rightarrow> string \<Rightarrow> bool \<Rightarrow> tunnel \<times> bool"
where
  "handle_response_chunk decode throws t reqId chunk isBase64 =
     (case map_of (tn_pending t) reqId of
        None \<Rightarrow> (t, False)
      | Some p \<Rightarrow> if throws then (t, False) else (respond (Chunk (pq_res p) (decode isBase64 chunk)) t, True))"

definition settle :: "tunnel \<Rightarrow> string \<Rightarrow> pending_request \<Rightarrow> tunnel" where
  "settle t reqId p = t\<lparr>tn_timers := adel (pq_timer p) (tn_timers t), tn_pending := adel reqId (tn_pending t)\<rparr>"

definition handle_response_end :: "bool \<Rightarrow> tunnel \<Rightarrow> string \<Rightarrow> tunnel" where
  "handle_response_end throws t reqId =
     (case map_of (tn_pending t) reqId of
        None \<Rightarrow> t
      | Some p \<Rightarrow> (let t' = settle t reqId p in if throws then t' else respond (Ended (pq_res p)) t'))"

definition finish :: "bool \<Rightarrow> pending_request \<Rightarrow> int \<Rightarrow> string \<Rightarrow> string \<Rightarrow> tunnel \<Rightarrow> tunnel" where
  "finish throws p code error message t =
     (if throws then t
      else if \<not> pq_headersSent p then respond (Json (pq_res p) code error message) t
      else respond (Ended (pq_res p)) t)"

definition handle_response_error :: "bool \<Rightarrow> tunnel \<Rightarrow> string \<Rightarrow> string \<Rightarrow> tunnel" where
  "handle_response_error throws t reqId message =
     (case map_of (tn_pending t) reqId of
        None \<Rightarrow> t
      | Some p \<Rightarrow> finish throws p 502 ''TUNNEL_ERROR'' (''Forwarded host error: '' @ message) (settle t reqId p))"

definition abort_request :: "tunnel \<Rightarrow> string \<Rightarrow> tunnel" where
  "abort_request t reqId = (case map_of (tn_pending t) reqId of None \<Rightarrow> t | Some p \<Rightarrow> settle t reqId p)"

text \<open>A timer fires once, and only if it is still armed.\<close>

definition handle_timeout :: "bool \<Rightarrow> tunnel \<Rightarrow> nat \<Rightarrow> tunnel" where
  "handle_timeout throws t timer =
     (case map_of (tn_timers t) timer of
        None \<Rightarrow> t
      | Some reqId \<Rightarrow>
          let t1 = t\<lparr>tn_timers := adel timer (tn_timers t)\<rparr> in
          (case map_of (tn_pending t1) reqId of
             None \<Rightarrow> t1
           | Some p \<Rightarrow> finish throws p 504 ''GATEWAY_TIMEOUT''
               ''The forwarded localhost server timed out responding.''
               (t1\<lparr>tn_pending := adel reqId (tn_pending t1)\<rparr>)))"

section \<open>Ports as a table\<close>

text \<open>What the gateway and the proxy rely on: a table of owners in which an entry affects no other
  session or port.\<close>

locale owner_table =
  fixes reg :: "'s \<Rightarrow> string \<Rightarrow> int \<Rightarrow> string \<Rightarrow> 's"
    and unreg :: "'s \<Rightarrow> string \<Rightarrow> int \<Rightarrow> 's"
    and drop_owner :: "'s \<Rightarrow> string \<Rightarrow> 's"
    and owner_of :: "'s \<Rightarrow> string \<Rightarrow> int \<Rightarrow> string option"
    and ok :: "'s \<Rightarrow> bool"
  assumes ok_reg: "ok s \<Longrightarrow> ok (reg s i n c)"
    and ok_unreg: "ok s \<Longrightarrow> ok (unreg s i n)"
    and ok_drop: "ok s \<Longrightarrow> ok (drop_owner s c)"
    and owner_reg: "ok s \<Longrightarrow> 0 \<le> n \<Longrightarrow> 0 \<le> m \<Longrightarrow>
      owner_of (reg s i n c) j m = (if i = j \<and> n = m then Some c else owner_of s j m)"
    and owner_unreg: "ok s \<Longrightarrow> 0 \<le> n \<Longrightarrow> 0 \<le> m \<Longrightarrow>
      owner_of (unreg s i n) j m = (if i = j \<and> n = m then None else owner_of s j m)"
    and owner_drop: "ok s \<Longrightarrow> owner_of (drop_owner s c) j m = (if owner_of s j m = Some c then None else owner_of s j m)"
begin

lemma takeover: "ok s \<Longrightarrow> 0 \<le> n \<Longrightarrow> owner_of (reg (reg s i n c) i n c') i n = Some c'"
  by (simp add: owner_reg ok_reg)

lemma gone: "ok s \<Longrightarrow> 0 \<le> n \<Longrightarrow> owner_of (drop_owner (reg s i n c) c) i n = None"
  by (simp add: owner_drop owner_reg ok_reg)

end

lemma port_key_inject: "0 \<le> m \<Longrightarrow> 0 \<le> n \<Longrightarrow> port_key i m = port_key j n \<longleftrightarrow> i = j \<and> m = n"
  using append_sep_digits [of i "CHR '':''" "nat m" j "nat n"]
  by (auto simp: port_key_def int_text_def digit_def)

definition ports_ok :: "tunnel \<Rightarrow> bool" where
  "ports_ok t \<longleftrightarrow> distinct (akeys (tn_ports t))"

interpretation ports: owner_table
  "\<lambda>t i n c. fst (register_port rehost e now t i n label c uid)" "\<lambda>t i n. fst (unregister_port t i n)"
  "\<lambda>t c. fst (cleanup_socket_ports t c)" get_host_socket_for_port ports_ok
  by unfold_locales
    (auto simp: register_port_def unregister_port_def cleanup_socket_ports_def get_host_socket_for_port_def
      ports_ok_def Let_def amap port_key_inject filter_keys_distinct map_of_filter_snd
      simp del: distinct_map split: option.splits dest: eq_key_imp_eq_value)

lemma aput_memberD: "x \<in> set (aput k v m) \<Longrightarrow> x = (k, v) \<or> x \<in> set m"
  by (induction m) (auto split: if_splits)

section \<open>Requests are answered once\<close>

fun completes :: "string \<Rightarrow> res_call \<Rightarrow> bool" where
  "completes r (Ended x) \<longleftrightarrow> x = r"
| "completes r (Json x _ _ _) \<longleftrightarrow> x = r"
| "completes r _ \<longleftrightarrow> False"

fun sends_headers :: "string \<Rightarrow> res_call \<Rightarrow> bool" where
  "sends_headers r (Headers x _ _) \<longleftrightarrow> x = r"
| "sends_headers r _ \<longleftrightarrow> False"

definition calls :: "(res_call \<Rightarrow> bool) \<Rightarrow> tunnel \<Rightarrow> nat" where
  "calls P t = length (filter P (tn_log t))"

definition waiting :: "(pending_request \<Rightarrow> bool) \<Rightarrow> tunnel \<Rightarrow> nat" where
  "waiting P t = vcount P (tn_pending t)"

definition requests_ok :: "tunnel \<Rightarrow> bool" where
  "requests_ok t \<longleftrightarrow>
     distinct (akeys (tn_pending t)) \<and>
     (\<forall>(k, p) \<in> set (tn_pending t). map_of (tn_timers t) (pq_timer p) = Some k) \<and>
     (\<forall>(n, k) \<in> set (tn_timers t). n < tn_nextTimer t) \<and>
     (\<forall>r. calls (completes r) t + waiting (\<lambda>p. pq_res p = r) t \<le> calls (\<lambda>c. c = Registered r) t) \<and>
     (\<forall>r. calls (sends_headers r) t + waiting (\<lambda>p. pq_res p = r \<and> \<not> pq_headersSent p) t
        \<le> calls (\<lambda>c. c = Registered r) t)"

lemma calls_respond [simp]: "calls P (respond c t) = calls P t + (if P c then 1 else 0)"
  by (simp add: calls_def respond_def)

datatype tunnel_op =
    Pend string string
  | RespHeaders bool string int headers
  | RespChunk bool string string bool
  | RespEnd bool string
  | RespError bool string string
  | Abort string
  | Fire bool nat

fun tunnel_step :: "(bool \<Rightarrow> string \<Rightarrow> nat list) \<Rightarrow> tunnel \<Rightarrow> tunnel_op \<Rightarrow> tunnel" where
  "tunnel_step dec8 t (Pend k r) = register_pending_request t k r"
| "tunnel_step dec8 t (RespHeaders b k c hs) = fst (handle_response_headers b t k c hs)"
| "tunnel_step dec8 t (RespChunk b k s b64) = fst (handle_response_chunk dec8 b t k s b64)"
| "tunnel_step dec8 t (RespEnd b k) = handle_response_end b t k"
| "tunnel_step dec8 t (RespError b k m) = handle_response_error b t k m"
| "tunnel_step dec8 t (Abort k) = abort_request t k"
| "tunnel_step dec8 t (Fire b n) = handle_timeout b t n"

lemma requests_okI:
  assumes "requests_ok t"
    and "distinct (akeys (tn_pending t'))"
    and "\<And>k p. (k, p) \<in> set (tn_pending t') \<Longrightarrow> map_of (tn_timers t') (pq_timer p) = Some k"
    and "\<And>n k. (n, k) \<in> set (tn_timers t') \<Longrightarrow> n < tn_nextTimer t'"
    and "\<And>r. calls (completes r) t' + waiting (\<lambda>p. pq_res p = r) t' + calls (\<lambda>c. c = Registered r) t \<le>
      calls (completes r) t + waiting (\<lambda>p. pq_res p = r) t + calls (\<lambda>c. c = Registered r) t'"
    and "\<And>r. calls (sends_headers r) t' + waiting (\<lambda>p. pq_res p = r \<and> \<not> pq_headersSent p) t' +
        calls (\<lambda>c. c = Registered r) t \<le>
      calls (sends_headers r) t + waiting (\<lambda>p. pq_res p = r \<and> \<not> pq_headersSent p) t + calls (\<lambda>c. c = Registered r) t'"
  shows "requests_ok t'"
proof -
  have "calls (completes r) t' + waiting (\<lambda>p. pq_res p = r) t' \<le> calls (\<lambda>c. c = Registered r) t'"
    "calls (sends_headers r) t' + waiting (\<lambda>p. pq_res p = r \<and> \<not> pq_headersSent p) t' \<le> calls (\<lambda>c. c = Registered r) t'" for r
  proof -
    have "calls (completes r) t + waiting (\<lambda>p. pq_res p = r) t \<le> calls (\<lambda>c. c = Registered r) t"
      "calls (sends_headers r) t + waiting (\<lambda>p. pq_res p = r \<and> \<not> pq_headersSent p) t \<le> calls (\<lambda>c. c = Registered r) t"
      using assms(1) unfolding requests_ok_def by blast+
    then show "calls (completes r) t' + waiting (\<lambda>p. pq_res p = r) t' \<le> calls (\<lambda>c. c = Registered r) t'"
      "calls (sends_headers r) t' + waiting (\<lambda>p. pq_res p = r \<and> \<not> pq_headersSent p) t' \<le> calls (\<lambda>c. c = Registered r) t'"
      using assms(5) [of r] assms(6) [of r] by linarith+
  qed
  then show ?thesis using assms(2-4) unfolding requests_ok_def by blast
qed

lemma calls_same [simp]:
  "calls P (t\<lparr>tn_pending := x\<rparr>) = calls P t" "calls P (t\<lparr>tn_timers := y\<rparr>) = calls P t"
  "calls P (t\<lparr>tn_timers := y, tn_pending := x\<rparr>) = calls P t"
  "calls P (t\<lparr>tn_timers := y, tn_nextTimer := n\<rparr>) = calls P t"
  "calls P (t\<lparr>tn_timers := y, tn_nextTimer := n, tn_pending := x\<rparr>) = calls P t"
  by (simp_all add: calls_def)

lemma respond_same [simp]:
  "tn_pending (respond c t) = tn_pending t" "tn_timers (respond c t) = tn_timers t"
  "tn_nextTimer (respond c t) = tn_nextTimer t" "waiting P (respond c t) = waiting P t"
  by (simp_all add: respond_def waiting_def)

text \<open>Taking a request out, answered or not.\<close>

lemma requests_ok_take:
  assumes ok: "requests_ok t" and p: "map_of (tn_pending t) k = Some p"
    and t': "tn_pending t' = adel k (tn_pending t)" "tn_timers t' = adel n (tn_timers t)"
      "tn_nextTimer t' = tn_nextTimer t" "map_of (tn_timers t) n = Some k"
    and c: "\<And>r. calls (completes r) t' \<le> calls (completes r) t + (if pq_res p = r then 1 else 0)"
      "\<And>r. calls (sends_headers r) t' = calls (sends_headers r) t"
      "\<And>r. calls (\<lambda>c. c = Registered r) t' = calls (\<lambda>c. c = Registered r) t"
  shows "requests_ok t'"
proof (rule requests_okI [OF ok])
  have dist: "distinct (akeys (tn_pending t))" using ok by (simp add: requests_ok_def)
  then show "distinct (akeys (tn_pending t'))" by (simp add: t' adel_distinct)
  show "map_of (tn_timers t') (pq_timer q) = Some k'" if "(k', q) \<in> set (tn_pending t')" for k' q
  proof -
    have q: "k' \<noteq> k" "(k', q) \<in> set (tn_pending t)" using that by (auto simp: t' AList.delete_eq)
    then have "map_of (tn_timers t) (pq_timer q) = Some k'" using ok by (auto simp: requests_ok_def)
    then show ?thesis using t'(4) q(1) by (auto simp: t'(2) adel_lookup)
  qed
  show "m < tn_nextTimer t'" if "(m, k') \<in> set (tn_timers t')" for m k'
    using that ok by (auto simp: t' AList.delete_eq requests_ok_def)
  show "calls (completes r) t' + waiting (\<lambda>p. pq_res p = r) t' + calls (\<lambda>c. c = Registered r) t \<le>
      calls (completes r) t + waiting (\<lambda>p. pq_res p = r) t + calls (\<lambda>c. c = Registered r) t'" for r
    using c [of r] vcount_adel [OF dist p, of "\<lambda>p. pq_res p = r"] by (simp add: waiting_def t')
  show "calls (sends_headers r) t' + waiting (\<lambda>p. pq_res p = r \<and> \<not> pq_headersSent p) t' +
        calls (\<lambda>c. c = Registered r) t \<le>
      calls (sends_headers r) t + waiting (\<lambda>p. pq_res p = r \<and> \<not> pq_headersSent p) t + calls (\<lambda>c. c = Registered r) t'" for r
    using c [of r] vcount_adel_le [of "\<lambda>p. pq_res p = r \<and> \<not> pq_headersSent p" k "tn_pending t"]
    by (simp add: waiting_def t')
qed

lemma requests_ok_timer:
  "requests_ok t \<Longrightarrow> map_of (tn_pending t) k = Some p \<Longrightarrow> map_of (tn_timers t) (pq_timer p) = Some k"
  by (auto simp: requests_ok_def dest!: map_of_SomeD)

lemma requests_ok_register: "requests_ok t \<Longrightarrow> requests_ok (register_pending_request t k r)"
proof -
  assume ok: "requests_ok t"
  let ?p = "\<lparr>pq_reqId = k, pq_res = r, pq_timer = tn_nextTimer t, pq_headersSent = False\<rparr>"
  let ?t = "register_pending_request t k r"
  have dist: "distinct (akeys (tn_pending t))" using ok by (simp add: requests_ok_def)
  have old: "pq_timer q < tn_nextTimer t" if "(k', q) \<in> set (tn_pending t)" for k' q
    using ok that by (auto simp: requests_ok_def dest!: map_of_SomeD)
  have f: "tn_pending ?t = aput k ?p (tn_pending t)" "tn_timers ?t = aput (tn_nextTimer t) k (tn_timers t)"
    "tn_nextTimer ?t = Suc (tn_nextTimer t)"
    by (simp_all add: register_pending_request_def)
  have pend: "set (aput k ?p (tn_pending t)) = insert (k, ?p) {x \<in> set (tn_pending t). fst x \<noteq> k}"
    using dist by (rule aput_set)
  show "requests_ok ?t"
  proof (rule requests_okI [OF ok])
    show "distinct (akeys (tn_pending ?t))" using dist by (simp add: f aput_distinct)
    show "map_of (tn_timers ?t) (pq_timer q) = Some k'" if "(k', q) \<in> set (tn_pending ?t)" for k' q
      using that ok old [of k' q] unfolding f pend by (auto simp: aput_lookup requests_ok_def)
    show "m < tn_nextTimer ?t" if "(m, k') \<in> set (tn_timers ?t)" for m k'
      using that ok unfolding f requests_ok_def by (auto dest!: aput_memberD intro: less_SucI)
    have c: "calls P ?t = calls P t + (if P (Registered r) then 1 else 0)" for P
      by (simp add: register_pending_request_def)
    have w: "waiting P ?t \<le> waiting P t + (if P ?p then 1 else 0)" for P
      using vcount_aput [OF dist] vcount_adel_le [of P k "tn_pending t"] by (simp add: waiting_def f)
    show "calls (completes x) ?t + waiting (\<lambda>p. pq_res p = x) ?t + calls (\<lambda>c. c = Registered x) t \<le>
        calls (completes x) t + waiting (\<lambda>p. pq_res p = x) t + calls (\<lambda>c. c = Registered x) ?t" for x
      using w [of "\<lambda>p. pq_res p = x"] by (simp add: c)
    show "calls (sends_headers x) ?t + waiting (\<lambda>p. pq_res p = x \<and> \<not> pq_headersSent p) ?t +
          calls (\<lambda>c. c = Registered x) t \<le>
        calls (sends_headers x) t + waiting (\<lambda>p. pq_res p = x \<and> \<not> pq_headersSent p) t +
          calls (\<lambda>c. c = Registered x) ?t" for x
      using w [of "\<lambda>p. pq_res p = x \<and> \<not> pq_headersSent p"] by (simp add: c)
  qed
qed

lemma requests_ok_headers: "requests_ok t \<Longrightarrow> requests_ok (fst (handle_response_headers b t k code hs))"
proof (cases "\<exists>p. map_of (tn_pending t) k = Some p \<and> \<not> pq_headersSent p")
  case False
  then show "requests_ok t \<Longrightarrow> requests_ok (fst (handle_response_headers b t k code hs))"
    by (auto simp: handle_response_headers_def split: option.splits)
next
  case True
  then obtain p where p: "map_of (tn_pending t) k = Some p" "\<not> pq_headersSent p" by auto
  assume ok: "requests_ok t"
  let ?p = "p\<lparr>pq_headersSent := True\<rparr>" and ?t = "fst (handle_response_headers b t k code hs)"
  have dist: "distinct (akeys (tn_pending t))" using ok by (simp add: requests_ok_def)
  have f: "tn_pending ?t = aput k ?p (tn_pending t)" "tn_timers ?t = tn_timers t" "tn_nextTimer ?t = tn_nextTimer t"
    using p by (simp_all add: handle_response_headers_def Let_def)
  have pend: "set (aput k ?p (tn_pending t)) = insert (k, ?p) {x \<in> set (tn_pending t). fst x \<noteq> k}"
    using dist by (rule aput_set)
  have c: "calls (completes r) ?t = calls (completes r) t"
    "calls (\<lambda>c. c = Registered r) ?t = calls (\<lambda>c. c = Registered r) t"
    "calls (sends_headers r) ?t \<le> calls (sends_headers r) t + (if pq_res p = r then 1 else 0)" for r
    using p by (simp_all add: handle_response_headers_def Let_def)
  have w: "waiting P ?t + (if P p then 1 else 0) = waiting P t + (if P ?p then 1 else 0)" for P
    using vcount_aput [OF dist, of P k ?p] vcount_adel [OF dist p(1), of P] by (simp add: waiting_def f)
  show "requests_ok ?t"
  proof (rule requests_okI [OF ok])
    show "distinct (akeys (tn_pending ?t))" using dist by (simp add: f aput_distinct)
    show "map_of (tn_timers ?t) (pq_timer q) = Some k'" if "(k', q) \<in> set (tn_pending ?t)" for k' q
      using that ok requests_ok_timer [OF ok p(1)] unfolding f pend by (auto simp: requests_ok_def)
    show "m < tn_nextTimer ?t" if "(m, k') \<in> set (tn_timers ?t)" for m k'
      using that ok unfolding f requests_ok_def by auto
    show "calls (completes r) ?t + waiting (\<lambda>p. pq_res p = r) ?t + calls (\<lambda>c. c = Registered r) t \<le>
        calls (completes r) t + waiting (\<lambda>p. pq_res p = r) t + calls (\<lambda>c. c = Registered r) ?t" for r
      using w [of "\<lambda>p. pq_res p = r"] by (simp add: c split: if_splits)
    show "calls (sends_headers r) ?t + waiting (\<lambda>p. pq_res p = r \<and> \<not> pq_headersSent p) ?t +
          calls (\<lambda>c. c = Registered r) t \<le>
        calls (sends_headers r) t + waiting (\<lambda>p. pq_res p = r \<and> \<not> pq_headersSent p) t +
          calls (\<lambda>c. c = Registered r) ?t" for r
      using w [of "\<lambda>p. pq_res p = r \<and> \<not> pq_headersSent p"] c(3) [of r] p(2) by (simp add: c(2) split: if_splits)
  qed
qed

lemma settle_fields [simp]:
  "tn_pending (settle t k p) = adel k (tn_pending t)" "tn_timers (settle t k p) = adel (pq_timer p) (tn_timers t)"
  "tn_nextTimer (settle t k p) = tn_nextTimer t" "calls P (settle t k p) = calls P t"
  by (simp_all add: settle_def)

lemma finish_fields [simp]:
  "tn_pending (finish b p c er m t) = tn_pending t" "tn_timers (finish b p c er m t) = tn_timers t"
  "tn_nextTimer (finish b p c er m t) = tn_nextTimer t"
  by (simp_all add: finish_def)

lemma finish_calls:
  "calls (completes r) (finish b p c er m t) \<le> Suc (calls (completes r) t)"
  "pq_res p \<noteq> r \<Longrightarrow> calls (completes r) (finish b p c er m t) = calls (completes r) t"
  "calls (sends_headers r) (finish b p c er m t) = calls (sends_headers r) t"
  "calls (\<lambda>c. c = Registered r) (finish b p c er m t) = calls (\<lambda>c. c = Registered r) t"
  by (simp_all add: finish_def)

interpretation requests: invariant_system "tunnel_step dec8" requests_ok
proof unfold_locales
  fix t x
  assume ok: "requests_ok t"
  have log: "requests_ok (respond (Chunk r bs) t)" for r bs
    by (rule requests_okI [OF ok]) (use ok in \<open>auto simp: requests_ok_def\<close>)
  have fin: "requests_ok (handle_response_end b t k)" "requests_ok (handle_response_error b t k m)"
    "requests_ok (abort_request t k)" for b k m
  proof -
    have out: "requests_ok t'" if p: "map_of (tn_pending t) k = Some p"
      and t': "t' \<in> {settle t k p, respond (Ended (pq_res p)) (settle t k p),
        finish b p c er m' (settle t k p)}" for t' p c er m'
      by (rule requests_ok_take [OF ok p, where n = "pq_timer p"])
        (use t' requests_ok_timer [OF ok p] finish_calls(1) [of _ b p c er m' "settle t k p"]
          in \<open>auto simp: finish_calls(2-4)\<close>)
    have "requests_ok (settle t k p)" "requests_ok (respond (Ended (pq_res p)) (settle t k p))"
      "requests_ok (finish b p c er m' (settle t k p))" if "map_of (tn_pending t) k = Some p" for p c er m'
      using out [OF that] by blast+
    then show "requests_ok (handle_response_end b t k)" "requests_ok (handle_response_error b t k m)"
      "requests_ok (abort_request t k)"
      by (auto simp: ok handle_response_end_def handle_response_error_def abort_request_def Let_def
          split: option.splits)
  qed
  have fire: "requests_ok (handle_timeout b t n)" for b n
  proof (cases "map_of (tn_timers t) n")
    case None
    then show ?thesis using ok by (simp add: handle_timeout_def)
  next
    case (Some k)
    show ?thesis
    proof (cases "map_of (tn_pending t) k")
      case None
      have "requests_ok (t\<lparr>tn_timers := adel n (tn_timers t)\<rparr>)"
      proof (rule requests_okI [OF ok])
        show "map_of (tn_timers (t\<lparr>tn_timers := adel n (tn_timers t)\<rparr>)) (pq_timer q) = Some k'"
          if "(k', q) \<in> set (tn_pending (t\<lparr>tn_timers := adel n (tn_timers t)\<rparr>))" for k' q
        proof -
          have "k' \<noteq> k" using that None by (auto simp: map_of_eq_None_iff image_iff)
          then show ?thesis using that ok Some by (auto simp: requests_ok_def adel_lookup)
        qed
      qed (use ok in \<open>auto simp: requests_ok_def AList.delete_eq waiting_def\<close>)
      then show ?thesis using Some None by (simp add: handle_timeout_def Let_def)
    next
      case p: (Some p)
      show ?thesis
        by (rule requests_ok_take [OF ok p, where n = n])
          (use Some p finish_calls(1) [of _ b p 504 "''GATEWAY_TIMEOUT''"
              "''The forwarded localhost server timed out responding.''"
              "t\<lparr>tn_timers := adel n (tn_timers t), tn_pending := adel k (tn_pending t)\<rparr>"]
            in \<open>auto simp: handle_timeout_def Let_def finish_calls(2-4)\<close>)
    qed
  qed
  show "requests_ok (tunnel_step dec8 t x)"
    by (cases x)
      (auto simp: ok requests_ok_register requests_ok_headers fin fire handle_response_chunk_def log split: option.splits)
qed

section \<open>Properties\<close>

lemma requests_start: "requests_ok tunnel_start"
  by (simp add: requests_ok_def tunnel_start_def calls_def waiting_def)

text \<open>A forwarded request is answered at most once, whatever the tunnel's host, the client's
  abort and the time-out do and in whatever order: after any run, the answers completed on a
  response object and the requests still waiting on it are no more than the times it was handed to
  the service, and the same holds of the headers sent on it.\<close>

theorem tunnel_requests_answered_once:
  "let t = foldl (tunnel_step dec8) tunnel_start ops in
     calls (completes r) t + waiting (\<lambda>p. pq_res p = r) t \<le> calls (\<lambda>c. c = Registered r) t \<and>
     calls (sends_headers r) t \<le> calls (\<lambda>c. c = Registered r) t"
proof -
  have "requests_ok (foldl (tunnel_step dec8) tunnel_start ops)"
    by (rule requests.inv_run) (rule requests_start)
  then show ?thesis unfolding requests_ok_def Let_def by (meson add_leD1)
qed

text \<open>A request never hangs: in every reachable state each waiting request has an armed timer,
  and when it fires, with Express accepting the answer, the request is out of the table and its
  response is completed.\<close>

theorem tunnel_requests_time_out:
  assumes "t = foldl (tunnel_step dec8) tunnel_start ops" and "map_of (tn_pending t) k = Some p"
  shows "map_of (tn_timers t) (pq_timer p) = Some k \<and>
     map_of (tn_pending (handle_timeout False t (pq_timer p))) k = None \<and>
     calls (completes (pq_res p)) (handle_timeout False t (pq_timer p)) = calls (completes (pq_res p)) t + 1"
proof -
  have "requests_ok t" unfolding assms(1) by (rule requests.inv_run) (rule requests_start)
  then have timer: "map_of (tn_timers t) (pq_timer p) = Some k" using assms(2) by (rule requests_ok_timer)
  then show ?thesis
    using assms(2) by (simp add: handle_timeout_def Let_def adel_lookup) (simp add: finish_def)
qed

definition no_bytes :: "bool \<Rightarrow> string \<Rightarrow> nat list" where
  "no_bytes b s = []"

theorem tunnel_requests_time_out_witness:
  "calls (completes ''res'') (handle_timeout False (foldl (tunnel_step no_bytes) tunnel_start [Pend ''k'' ''res'']) 0) = 1"
proof -
  let ?t = "foldl (tunnel_step no_bytes) tunnel_start [Pend ''k'' ''res'']"
  have "map_of (tn_pending ?t) ''k'' =
      Some \<lparr>pq_reqId = ''k'', pq_res = ''res'', pq_timer = 0, pq_headersSent = False\<rparr>"
    "calls (completes ''res'') ?t = 0"
    by code_simp+
  then show ?thesis using tunnel_requests_time_out [OF refl, of no_bytes "[Pend ''k'' ''res'']"] by fastforce
qed

text \<open>Ports of different sessions do not meet, and a departed host keeps none: registering or
  dropping a port changes the host of that session's port and no other, the last to register it
  owns it, and after a host's socket is cleaned up it owns no port.\<close>

theorem tunnel_ports_are_separate:
  assumes "ports_ok t" and "0 \<le> n" and "0 \<le> m"
  shows "get_host_socket_for_port (fst (register_port rehost e now t i n label c uid)) j m =
      (if i = j \<and> n = m then Some c else get_host_socket_for_port t j m) \<and>
    get_host_socket_for_port (fst (unregister_port t i n)) j m =
      (if i = j \<and> n = m then None else get_host_socket_for_port t j m) \<and>
    get_host_socket_for_port (fst (cleanup_socket_ports t c)) j m \<noteq> Some c"
  using ports.owner_reg [OF assms] ports.owner_unreg [OF assms] ports.owner_drop [OF assms(1)] by simp

theorem tunnel_ports_are_separate_witness:
  "get_host_socket_for_port
     (fst (register_port (\<lambda>b h. b) \<lparr>pe_domain = None, pe_baseUrl = None, pe_port = None\<rparr> 0 tunnel_start
       ''s1'' 3000 None ''sock'' ''u'')) ''s'' 13000 = None"
proof -
  have "ports_ok tunnel_start" by (simp add: ports_ok_def tunnel_start_def)
  from tunnel_ports_are_separate [OF this, of 3000 13000 "\<lambda>b h. b"
      "\<lparr>pe_domain = None, pe_baseUrl = None, pe_port = None\<rparr>" 0 "''s1''" None "''sock''" "''u''" "''s''"]
  show ?thesis by (simp add: get_host_socket_for_port_def tunnel_start_def)
qed

end
