(* ===== verification/Terminal.thy ===== *)
theory Terminal
  imports Identity
begin

text \<open>
  \<open>src/terminal/terminal.service.ts\<close>: the live terminals of the sessions. The nested maps are
  insertion-ordered; \<open>utf8\<close> is the decoding of a binary chunk. A terminal's backlog holds code
  units, as JavaScript's \<open>length\<close> and \<open>slice\<close> count them.
\<close>

section \<open>State\<close>

datatype writable_mode = INSTRUCTOR_ONLY | OPEN_TO_ALL | DELEGATED

record terminal_info =
  ti_terminalId :: string
  ti_name :: string
  ti_cols :: int
  ti_rows :: int
  ti_interactive :: bool
  ti_sandboxed :: bool
  ti_writableBy :: writable_mode
  ti_delegatedUserIds :: "string list option"

record active_terminal =
  at_info :: terminal_info
  at_hostSocketId :: string
  at_hostUserId :: string
  at_backlog :: string

type_synonym terminals = "(string, (string, active_terminal) amap) amap"

definition max_backlog :: nat where
  "max_backlog = 64 * 1024"

definition lookup_terminal :: "terminals \<Rightarrow> string \<Rightarrow> string \<Rightarrow> active_terminal option" where
  "lookup_terminal s sid tid = Option.bind (map_of s sid) (\<lambda>m. map_of m tid)"

section \<open>Operations\<close>

definition open_terminal :: "terminals \<Rightarrow> string \<Rightarrow> terminal_info \<Rightarrow> string \<Rightarrow> string \<Rightarrow> terminals" where
  "open_terminal s sid info hostSocketId hostUserId =
     (let m = (case map_of s sid of None \<Rightarrow> [] | Some m \<Rightarrow> m)
      in aput sid (aput (ti_terminalId info)
           \<lparr>at_info = info, at_hostSocketId = hostSocketId, at_hostUserId = hostUserId, at_backlog = []\<rparr> m) s)"

text \<open>A change of one terminal in place.\<close>

definition change_terminal ::
  "terminals \<Rightarrow> string \<Rightarrow> string \<Rightarrow> (active_terminal \<Rightarrow> active_terminal) \<Rightarrow> terminals"
where
  "change_terminal s sid tid f =
     (case map_of s sid of None \<Rightarrow> s
      | Some m \<Rightarrow> (case map_of m tid of None \<Rightarrow> s | Some t \<Rightarrow> aput sid (aput tid (f t) m) s))"

datatype chunk = Text string | Bytes "nat list"

definition last_n :: "nat \<Rightarrow> 'a list \<Rightarrow> 'a list" where
  "last_n n xs = drop (length xs - n) xs"

definition chunk_text :: "(nat list \<Rightarrow> string) \<Rightarrow> chunk \<Rightarrow> string" where
  "chunk_text utf8 c = (case c of Text t \<Rightarrow> t | Bytes b \<Rightarrow> utf8 b)"

definition append_data :: "(nat list \<Rightarrow> string) \<Rightarrow> terminals \<Rightarrow> string \<Rightarrow> string \<Rightarrow> chunk \<Rightarrow> terminals" where
  "append_data utf8 s sid tid c =
     change_terminal s sid tid (\<lambda>t.
       let b = at_backlog t @ chunk_text utf8 c
       in t\<lparr>at_backlog := (if length b > max_backlog then last_n max_backlog b else b)\<rparr>)"

definition resize_terminal :: "terminals \<Rightarrow> string \<Rightarrow> string \<Rightarrow> int \<Rightarrow> int \<Rightarrow> terminals" where
  "resize_terminal s sid tid cols rows =
     change_terminal s sid tid (\<lambda>t. t\<lparr>at_info := (at_info t)\<lparr>ti_cols := cols, ti_rows := rows\<rparr>\<rparr>)"

definition update_permission ::
  "terminals \<Rightarrow> string \<Rightarrow> string \<Rightarrow> writable_mode \<Rightarrow> string list option \<Rightarrow> terminals"
where
  "update_permission s sid tid mode ids =
     change_terminal s sid tid
       (\<lambda>t. t\<lparr>at_info := (at_info t)\<lparr>ti_writableBy := mode, ti_delegatedUserIds := ids\<rparr>\<rparr>)"

definition close_terminal :: "terminals \<Rightarrow> string \<Rightarrow> string \<Rightarrow> terminals" where
  "close_terminal s sid tid =
     (case map_of s sid of None \<Rightarrow> s
      | Some m \<Rightarrow> (let m' = adel tid m in if m' = [] then adel sid s else aput sid m' s))"

definition get_terminals_for_session :: "terminals \<Rightarrow> string \<Rightarrow> (terminal_info \<times> string) list" where
  "get_terminals_for_session s sid =
     (case map_of s sid of None \<Rightarrow> [] | Some m \<Rightarrow> map (\<lambda>t. (at_info t, at_backlog t)) (avals m))"

definition get_host_socket_id :: "terminals \<Rightarrow> string \<Rightarrow> string \<Rightarrow> string option" where
  "get_host_socket_id s sid tid = map_option at_hostSocketId (lookup_terminal s sid tid)"

definition is_sandboxed :: "terminals \<Rightarrow> string \<Rightarrow> string \<Rightarrow> bool" where
  "is_sandboxed s sid tid \<longleftrightarrow> map_option (\<lambda>t. ti_sandboxed (at_info t)) (lookup_terminal s sid tid) = Some True"

definition is_host_socket :: "terminals \<Rightarrow> string \<Rightarrow> string \<Rightarrow> string \<Rightarrow> bool" where
  "is_host_socket s sid tid socketId \<longleftrightarrow> get_host_socket_id s sid tid = Some socketId"

definition can_send_stdin :: "terminals \<Rightarrow> string \<Rightarrow> string \<Rightarrow> jwt_payload \<Rightarrow> string \<Rightarrow> bool" where
  "can_send_stdin s sid tid user socketId =
     (case lookup_terminal s sid tid of
        None \<Rightarrow> False
      | Some t \<Rightarrow>
          if \<not> ti_interactive (at_info t) then False
          else if ti_sandboxed (at_info t)
          then (if jwt_role user = INSTRUCTOR \<or> jwt_role user = ORG_ADMIN then True
                else if ti_writableBy (at_info t) = OPEN_TO_ALL then True
                else if ti_writableBy (at_info t) = DELEGATED
                then (case ti_delegatedUserIds (at_info t) of None \<Rightarrow> False | Some ids \<Rightarrow> jwt_sub user \<in> set ids)
                else False)
          else at_hostUserId t = jwt_sub user \<and> at_hostSocketId t = socketId)"

definition cleanup_socket :: "terminals \<Rightarrow> string \<Rightarrow> terminals \<times> (string \<times> string) list" where
  "cleanup_socket s socketId =
     (filter (\<lambda>(sid, m). m \<noteq> [])
        (map (\<lambda>(sid, m). (sid, filter (\<lambda>(tid, t). at_hostSocketId t \<noteq> socketId) m)) s),
      concat (map (\<lambda>(sid, m). map (\<lambda>(tid, t). (sid, tid)) (filter (\<lambda>(tid, t). at_hostSocketId t = socketId) m)) s))"

definition cleanup_session :: "terminals \<Rightarrow> string \<Rightarrow> terminals" where
  "cleanup_session s sid = adel sid s"

section \<open>Steps\<close>

datatype term_op =
    OpenTerminal string terminal_info string string
  | Data string string chunk
  | Resize string string int int
  | Permission string string writable_mode "string list option"
  | Close string string
  | HostGone string
  | SessionGone string

fun term_step :: "(nat list \<Rightarrow> string) \<Rightarrow> terminals \<Rightarrow> term_op \<Rightarrow> terminals" where
  "term_step utf8 s (OpenTerminal sid i c u) = open_terminal s sid i c u"
| "term_step utf8 s (Data sid tid ch) = append_data utf8 s sid tid ch"
| "term_step utf8 s (Resize sid tid c r) = resize_terminal s sid tid c r"
| "term_step utf8 s (Permission sid tid m ids) = update_permission s sid tid m ids"
| "term_step utf8 s (Close sid tid) = close_terminal s sid tid"
| "term_step utf8 s (HostGone c) = fst (cleanup_socket s c)"
| "term_step utf8 s (SessionGone sid) = cleanup_session s sid"

text \<open>The table is well formed: no session without a terminal, no terminal twice.\<close>

definition terminals_ok :: "terminals \<Rightarrow> bool" where
  "terminals_ok s \<longleftrightarrow> distinct (akeys s) \<and> (\<forall>(sid, m) \<in> set s. m \<noteq> [] \<and> distinct (akeys m))"

lemma terminals_okD: "terminals_ok s \<Longrightarrow> map_of s sid = Some m \<Longrightarrow> m \<noteq> [] \<and> distinct (akeys m)"
  by (auto simp: terminals_ok_def dest!: map_of_SomeD)

lemma aput_nonempty [simp]: "aput k v m \<noteq> []"
  by (cases m) auto

lemma terminals_ok_put:
  "terminals_ok s \<Longrightarrow> m \<noteq> [] \<Longrightarrow> distinct (akeys m) \<Longrightarrow> terminals_ok (aput sid m s)"
  by (auto simp: terminals_ok_def aput_set adel_distinct aput_distinct simp del: distinct_map)

lemma terminals_ok_del: "terminals_ok s \<Longrightarrow> terminals_ok (adel sid s)"
  by (auto simp: terminals_ok_def adel_set adel_distinct simp del: distinct_map)

lemma terminals_ok_change: "terminals_ok s \<Longrightarrow> terminals_ok (change_terminal s sid tid f)"
  by (auto simp: change_terminal_def aput_distinct terminals_okD simp del: distinct_map
      intro!: terminals_ok_put split: option.splits)

lemma terminals_ok_cleanup: "terminals_ok s \<Longrightarrow> terminals_ok (fst (cleanup_socket s c))"
proof -
  assume ok: "terminals_ok s"
  let ?f = "\<lambda>(sid :: string, m). (sid, filter (\<lambda>(tid :: string, t). at_hostSocketId t \<noteq> c) m)"
  have "akeys (map ?f s) = akeys s" by (simp add: case_prod_beta comp_def)
  then have "distinct (akeys (map ?f s))" using ok unfolding terminals_ok_def by (simp only:)
  then show ?thesis
    using ok unfolding terminals_ok_def cleanup_socket_def fst_conv
    by (auto simp del: distinct_map intro!: filter_keys_distinct)
qed

interpretation terms: invariant_system "term_step utf8" terminals_ok
proof unfold_locales
  fix s x
  assume ok: "terminals_ok s"
  have "terminals_ok (open_terminal s sid i c u)" for sid i c u
    using ok
    by (auto simp: open_terminal_def Let_def aput_distinct terminals_okD simp del: distinct_map
        intro!: terminals_ok_put split: option.splits)
  moreover have "terminals_ok (close_terminal s sid tid)" for sid tid
    using ok
    by (auto simp: close_terminal_def Let_def adel_distinct terminals_okD terminals_ok_del simp del: distinct_map
        intro!: terminals_ok_put split: option.splits)
  ultimately show "terminals_ok (term_step utf8 s x)"
    using ok
    by (cases x)
      (simp_all add: append_data_def resize_terminal_def update_permission_def terminals_ok_change
        terminals_ok_cleanup cleanup_session_def terminals_ok_del)
qed

section \<open>The backlog as a window on the history\<close>

text \<open>What a terminal printed since it was opened, or \<open>None\<close> while it is not: the specification
  keeps all of it.\<close>

type_synonym history = "string \<Rightarrow> string \<Rightarrow> (string \<times> string) option"

fun history_step :: "(nat list \<Rightarrow> string) \<Rightarrow> history \<Rightarrow> term_op \<Rightarrow> history" where
  "history_step utf8 h (OpenTerminal sid i c u) =
     (\<lambda>a b. if a = sid \<and> b = ti_terminalId i then Some (c, []) else h a b)"
| "history_step utf8 h (Data sid tid ch) =
     (\<lambda>a b. if a = sid \<and> b = tid then map_option (\<lambda>(c, out). (c, out @ chunk_text utf8 ch)) (h a b) else h a b)"
| "history_step utf8 h (Resize sid tid c r) = h"
| "history_step utf8 h (Permission sid tid m ids) = h"
| "history_step utf8 h (Close sid tid) = (\<lambda>a b. if a = sid \<and> b = tid then None else h a b)"
| "history_step utf8 h (HostGone c) =
     (\<lambda>a b. case h a b of Some (c', out) \<Rightarrow> if c' = c then None else h a b | None \<Rightarrow> None)"
| "history_step utf8 h (SessionGone sid) = (\<lambda>a b. if a = sid then None else h a b)"

definition shows_window :: "terminals \<Rightarrow> history \<Rightarrow> bool" where
  "shows_window s h \<longleftrightarrow>
     terminals_ok s \<and>
     (\<forall>sid tid. map_option (\<lambda>t. (at_hostSocketId t, at_backlog t)) (lookup_terminal s sid tid) =
        map_option (\<lambda>(c, out). (c, last_n max_backlog out)) (h sid tid))"

lemma last_n_rev: "last_n n xs = rev (take n (rev xs))"
  by (simp add: last_n_def take_rev)

lemma last_n_append: "last_n n (last_n n xs @ ys) = last_n n (xs @ ys)"
  by (simp add: last_n_rev min_def)

lemma last_n_short: "length xs \<le> n \<Longrightarrow> last_n n xs = xs"
  by (simp add: last_n_def)

lemma lookup_put:
  "lookup_terminal (aput sid m s) a b = (if a = sid then map_of m b else lookup_terminal s a b)"
  by (simp add: lookup_terminal_def aput_lookup)

lemma lookup_change:
  "lookup_terminal (change_terminal s sid tid f) a b =
     (if a = sid \<and> b = tid then map_option f (lookup_terminal s a b) else lookup_terminal s a b)"
  by (auto simp: change_terminal_def lookup_put lookup_terminal_def aput_lookup split: option.splits)

lemma lookup_open:
  "lookup_terminal (open_terminal s sid i c u) a b =
     (if a = sid \<and> b = ti_terminalId i
      then Some \<lparr>at_info = i, at_hostSocketId = c, at_hostUserId = u, at_backlog = []\<rparr> else lookup_terminal s a b)"
  by (auto simp: open_terminal_def Let_def lookup_put lookup_terminal_def aput_lookup split: option.splits)

lemma lookup_close:
  "lookup_terminal (close_terminal s sid tid) a b =
     (if a = sid \<and> b = tid then None else lookup_terminal s a b)"
proof (cases "map_of s sid")
  case (Some m)
  have "map_of m b = None" if "adel tid m = []" "b \<noteq> tid"
    using adel_lookup [of tid m b] that by simp
  then show ?thesis
    using Some by (auto simp: close_terminal_def Let_def lookup_terminal_def aput_lookup adel_lookup)
qed (simp add: close_terminal_def lookup_terminal_def)

lemma lookup_cleanup:
  assumes ok: "terminals_ok s"
  shows "lookup_terminal (fst (cleanup_socket s c)) a b =
     (case lookup_terminal s a b of None \<Rightarrow> None | Some t \<Rightarrow> if at_hostSocketId t = c then None else Some t)"
proof -
  let ?g = "\<lambda>m. filter (\<lambda>(tid :: string, t). at_hostSocketId t \<noteq> c) m"
  let ?s = "map (\<lambda>(sid, m). (sid, ?g m)) s"
  have keys: "akeys ?s = akeys s" by (simp add: case_prod_beta comp_def)
  have at: "map_of ?s a = map_option ?g (map_of s a)" by (induction s) auto
  have "map_of (filter (\<lambda>(sid, m). m \<noteq> []) ?s) a =
      (case map_of ?s a of Some m \<Rightarrow> if m \<noteq> [] then Some m else None | None \<Rightarrow> None)"
    using ok unfolding terminals_ok_def by (intro map_of_filter_snd) (simp only: keys)
  then have step: "map_of (fst (cleanup_socket s c)) a =
      (case map_of s a of Some m \<Rightarrow> if ?g m \<noteq> [] then Some (?g m) else None | None \<Rightarrow> None)"
    unfolding cleanup_socket_def fst_conv at by (simp split: option.splits)
  show ?thesis
  proof (cases "map_of s a")
    case None
    then show ?thesis using step by (simp add: lookup_terminal_def)
  next
    case (Some m)
    have "map_of (?g m) b = (case map_of m b of Some t \<Rightarrow> if at_hostSocketId t \<noteq> c then Some t else None | None \<Rightarrow> None)"
      using terminals_okD [OF ok Some] by (intro map_of_filter_snd) simp
    moreover have "lookup_terminal (fst (cleanup_socket s c)) a b = map_of (?g m) b"
      using step Some by (cases "?g m = []") (simp_all add: lookup_terminal_def)
    ultimately show ?thesis using Some by (simp add: lookup_terminal_def split: option.splits)
  qed
qed

lemma lookup_gone: "lookup_terminal (cleanup_session s sid) a b = (if a = sid then None else lookup_terminal s a b)"
  by (simp add: cleanup_session_def lookup_terminal_def adel_lookup)

lemma append_window:
  "max_backlog < length (last_n max_backlog out) + length t \<Longrightarrow>
     last_n max_backlog (last_n max_backlog out @ t) = last_n max_backlog (out @ t)"
  "\<not> max_backlog < length (last_n max_backlog out) + length t \<Longrightarrow>
     last_n max_backlog out @ t = last_n max_backlog (out @ t)"
  using last_n_append [of max_backlog out t] last_n_short [of "last_n max_backlog out @ t" max_backlog] by auto

lemma shows_step:
  assumes "shows_window s h"
  shows "shows_window (term_step utf8 s x) (history_step utf8 h x)"
proof -
  have ok: "terminals_ok s" using assms by (simp add: shows_window_def)
  have at: "map_option (\<lambda>t. (at_hostSocketId t, at_backlog t)) (lookup_terminal s sid tid) =
        map_option (\<lambda>(c, out). (c, last_n max_backlog out)) (h sid tid)" for sid tid
    using assms by (simp add: shows_window_def)
  have "map_option (\<lambda>t. (at_hostSocketId t, at_backlog t)) (lookup_terminal (term_step utf8 s x) sid tid) =
        map_option (\<lambda>(c, out). (c, last_n max_backlog out)) (history_step utf8 h x sid tid)" for sid tid
    using at [of sid tid]
    by (cases x; cases "lookup_terminal s sid tid"; cases "h sid tid")
      (auto simp: lookup_open lookup_close lookup_gone lookup_cleanup [OF ok] append_data_def
        resize_terminal_def update_permission_def lookup_change Let_def append_window last_n_short split: if_splits)
  then show ?thesis using terms.inv_step [OF ok] by (simp add: shows_window_def)
qed

section \<open>Properties\<close>

definition ascii_text :: "nat list \<Rightarrow> string" where
  "ascii_text = map char_of"

definition demo_terminal :: "bool \<Rightarrow> terminal_info" where
  "demo_terminal boxed = \<lparr>ti_terminalId = ''t'', ti_name = ''sh'', ti_cols = 80, ti_rows = 24,
     ti_interactive = True, ti_sandboxed = boxed, ti_writableBy = OPEN_TO_ALL, ti_delegatedUserIds = None\<rparr>"

text \<open>The backlog of a terminal is the end of everything it printed: after any sequence of
  operations, an open terminal's backlog is the last 65536 code units (all of it, if shorter) of
  what was appended since it was last opened, its owner is the socket that opened it last, and a
  terminal that was closed, or whose host or session is gone, is not in the table.\<close>

theorem backlog_is_the_end_of_the_output:
  "let s = foldl (term_step utf8) [] ops; h = foldl (history_step utf8) (\<lambda>_ _. None) ops in
     map_option (\<lambda>t. (at_hostSocketId t, at_backlog t)) (lookup_terminal s sid tid) =
       map_option (\<lambda>(c, out). (c, last_n (64 * 1024) out)) (h sid tid)"
proof -
  have "shows_window s h \<Longrightarrow> shows_window (foldl (term_step utf8) s ops) (foldl (history_step utf8) h ops)" for s h
    by (induction ops arbitrary: s h) (simp_all add: shows_step)
  moreover have "shows_window [] (\<lambda>_ _. None)"
    by (simp add: shows_window_def terminals_ok_def lookup_terminal_def)
  ultimately show ?thesis by (simp add: shows_window_def max_backlog_def)
qed

text \<open>A shell that is not sandboxed takes input from nobody but the person and the very socket
  that host it, and a sandboxed one from staff, from everybody while it is open, and from the
  students named while it is delegated; a terminal that is not interactive takes none.\<close>

theorem stdin_only_from_the_permitted:
  assumes "can_send_stdin s sid tid u c"
  shows "\<exists>t. lookup_terminal s sid tid = Some t \<and> ti_interactive (at_info t) \<and>
     (if ti_sandboxed (at_info t)
      then jwt_role u \<noteq> STUDENT \<or> ti_writableBy (at_info t) = OPEN_TO_ALL \<or>
        (ti_writableBy (at_info t) = DELEGATED \<and>
          (\<exists>ids. ti_delegatedUserIds (at_info t) = Some ids \<and> jwt_sub u \<in> set ids))
      else at_hostUserId t = jwt_sub u \<and> is_host_socket s sid tid c)"
  using assms
  by (auto simp: can_send_stdin_def is_host_socket_def get_host_socket_id_def
      split: option.splits if_splits)

definition term_user :: "string \<Rightarrow> role \<Rightarrow> jwt_payload" where
  "term_user i r = \<lparr>jwt_sub = i, jwt_role = r, jwt_name = i, jwt_email = i, jwt_organizationId = None,
     jwt_emailVerified = True, jwt_isSuperAdmin = False, jwt_recorder = None, jwt_preview = None\<rparr>"

theorem stdin_only_from_the_permitted_witness:
  "\<exists>t. lookup_terminal (open_terminal [] ''s'' (demo_terminal False) ''c'' ''i'') ''s'' ''t'' = Some t \<and>
     at_hostUserId t = ''i''"
proof -
  have "can_send_stdin (open_terminal [] ''s'' (demo_terminal False) ''c'' ''i'') ''s'' ''t'' (term_user ''i'' INSTRUCTOR) ''c''"
    by code_simp
  from stdin_only_from_the_permitted [OF this] show ?thesis
    by (auto simp: open_terminal_def demo_terminal_def lookup_terminal_def term_user_def Let_def split: if_splits)
qed

end
