(* ===== verification/RepoName.thy ===== *)
theory RepoName
  imports JsText
begin

text \<open>
  \<open>src/coding/git/repo-name.util.ts\<close>: the names of the students' private repositories. Text is
  a list of code points. The Unicode functions the code calls (\<open>normalize('NFKD')\<close>, the classes
  \<open>Letter\<close> and \<open>Number\<close>, \<open>toLowerCase\<close>) are a parameter; ASCII is one instance.
\<close>

section \<open>Text\<close>

record unicode =
  uc_nfkd :: "codepoints \<Rightarrow> codepoints"
  uc_word :: "nat \<Rightarrow> bool"
  uc_lower :: "codepoints \<Rightarrow> codepoints"

definition dash :: nat where
  "dash = 45"

text \<open>\<open>replace(/[^\p{Letter}\p{Number}]+/gu, '-')\<close>: each maximal run becomes one dash.\<close>

fun replace_runs :: "(nat \<Rightarrow> bool) \<Rightarrow> bool \<Rightarrow> codepoints \<Rightarrow> codepoints" where
  "replace_runs w run [] = []"
| "replace_runs w run (c # cs) =
     (if w c then c # replace_runs w False cs
      else if run then replace_runs w True cs
      else dash # replace_runs w True cs)"

text \<open>\<open>replace(/-+/g, '-')\<close>\<close>

fun squeeze :: "codepoints \<Rightarrow> codepoints" where
  "squeeze [] = []"
| "squeeze [c] = [c]"
| "squeeze (c # d # cs) = (if c = dash \<and> d = dash then squeeze (d # cs) else c # squeeze (d # cs))"

text \<open>\<open>replace(/^-|-$/g, '')\<close>: one dash at each end.\<close>

definition strip_dash :: "codepoints \<Rightarrow> codepoints" where
  "strip_dash s =
     (let s1 = (case s of c # cs \<Rightarrow> if c = dash then cs else s | [] \<Rightarrow> [])
      in if s1 \<noteq> [] \<and> last s1 = dash then butlast s1 else s1)"

definition slug_part :: "unicode \<Rightarrow> codepoints \<Rightarrow> codepoints" where
  "slug_part u v = uc_lower u (strip_dash (squeeze (replace_runs (uc_word u) False (uc_nfkd u v))))"

section \<open>Names\<close>

definition max_repo_name :: nat where
  "max_repo_name = 100"

datatype repo_name_error =
    ProgramNeedsCode
  | CohortNeedsCode
  | NoNumber
  | TooLong codepoints
  | CompetitionNeedsCode
  | NoEntrantNumber
  | CompetitionTooLong codepoints

text \<open>The enrolment number as it arrives: any number, \<open>None\<close> for null, undefined or \<open>NaN\<close>.\<close>

record repo_name_parts =
  rn_programCode :: "codepoints option"
  rn_cohortCode :: "codepoints option"
  rn_enrollmentNo :: "rat option"

definition positive_int :: "rat option \<Rightarrow> nat option" where
  "positive_int n =
     (case n of None \<Rightarrow> None | Some r \<Rightarrow> if of_int \<lfloor>r\<rfloor> = r \<and> r > 0 then Some (nat \<lfloor>r\<rfloor>) else None)"

definition or_empty :: "codepoints option \<Rightarrow> codepoints" where
  "or_empty x = (case x of None \<Rightarrow> [] | Some s \<Rightarrow> s)"

text \<open>The length GitHub counts is JavaScript's, in UTF-16 units: a code point above the basic plane
  counts twice.\<close>

definition utf16_length :: "codepoints \<Rightarrow> nat" where
  "utf16_length s = sum_list (map (\<lambda>c. if c > 65535 then 2 else 1) s)"

definition repository_name :: "unicode \<Rightarrow> repo_name_parts \<Rightarrow> repo_name_error + codepoints" where
  "repository_name u parts =
     (let program = slug_part u (or_empty (rn_programCode parts));
          cohort = slug_part u (or_empty (rn_cohortCode parts))
      in if program = [] then Inl ProgramNeedsCode
         else if cohort = [] then Inl CohortNeedsCode
         else (case positive_int (rn_enrollmentNo parts) of
                 None \<Rightarrow> Inl NoNumber
               | Some no \<Rightarrow>
                   let name = program @ codes ''-'' @ cohort @ codes ''-enr'' @ codes (dec no) in
                   if utf16_length name > max_repo_name then Inl (TooLong name) else Inr name))"

definition competition_repository_name ::
  "unicode \<Rightarrow> codepoints option \<Rightarrow> rat option \<Rightarrow> repo_name_error + codepoints"
where
  "competition_repository_name u competitionCode enrollmentNo =
     (let code = slug_part u (or_empty competitionCode) in
      if code = [] then Inl CompetitionNeedsCode
      else (case positive_int enrollmentNo of
              None \<Rightarrow> Inl NoEntrantNumber
            | Some no \<Rightarrow>
                let name = codes ''cmp-'' @ code @ codes ''-enr'' @ codes (dec no) in
                if utf16_length name > max_repo_name then Inl (CompetitionTooLong name) else Inr name))"

section \<open>Lemmas\<close>

text \<open>The digits at the end of a name are its number.\<close>

lemma number_at_end:
  assumes "x @ codes ''r'' @ codes (dec m) = y @ codes ''r'' @ codes (dec n)"
  shows "x = y \<and> m = n"
proof -
  let ?d = "\<lambda>c :: nat. 48 \<le> c \<and> c \<le> 57"
  have digits: "takeWhile ?d (rev (z @ codes ''r'' @ codes (dec k))) = rev (codes (dec k))" for z k
  proof -
    have "\<forall>c \<in> set (rev (codes (dec k))). ?d c"
      using dec_digits [of k] by (auto simp: codes_def list_all_iff digit_def)
    then have "takeWhile ?d (rev (codes (dec k)) @ rev (codes ''r'') @ rev z) =
        rev (codes (dec k)) @ takeWhile ?d (rev (codes ''r'') @ rev z)"
      by (intro takeWhile_append2) blast
    moreover have "takeWhile ?d (rev (codes ''r'') @ rev z) = []" by (simp add: codes_def)
    ultimately show ?thesis by simp
  qed
  have "rev (codes (dec m)) = rev (codes (dec n))" using digits [of x m] digits [of y n] assms by simp
  then have "dec m = dec n" by (simp add: codes_inject)
  then show ?thesis using assms by simp
qed

lemma repository_nameD:
  assumes "repository_name u p = Inr name"
  obtains no where "positive_int (rn_enrollmentNo p) = Some no"
    "name = slug_part u (or_empty (rn_programCode p)) @ codes ''-'' @ slug_part u (or_empty (rn_cohortCode p)) @
       codes ''-enr'' @ codes (dec no)"
    "utf16_length name \<le> max_repo_name"
  using assms by (auto simp: repository_name_def Let_def split: if_splits option.splits)

lemma split_at_dash:
  assumes "a @ dash # b = c @ dash # d" "dash \<notin> set a" "dash \<notin> set c"
  shows "a = c \<and> b = d"
  using assms
proof (induction a arbitrary: c)
  case Nil
  then show ?case by (cases c) auto
next
  case (Cons x a)
  then show ?case by (cases c) auto
qed

text \<open>The slug of a program and of a cohort, joined as the name joins them.\<close>

definition placement :: "unicode \<Rightarrow> repo_name_parts \<Rightarrow> codepoints" where
  "placement u p =
     slug_part u (or_empty (rn_programCode p)) @ codes ''-'' @ slug_part u (or_empty (rn_cohortCode p))"

lemma repository_name_ends:
  assumes "repository_name u p = Inr name"
  obtains no where "positive_int (rn_enrollmentNo p) = Some no"
    "name = (placement u p @ codes ''-en'') @ codes ''r'' @ codes (dec no)"
  using assms by (auto simp: placement_def codes_def elim!: repository_nameD)

lemma same_name_same_place:
  assumes "repository_name u p = Inr name" "repository_name u q = Inr name"
  shows "placement u p = placement u q"
    "positive_int (rn_enrollmentNo p) = positive_int (rn_enrollmentNo q)"
proof -
  obtain m where m: "positive_int (rn_enrollmentNo p) = Some m"
    "name = (placement u p @ codes ''-en'') @ codes ''r'' @ codes (dec m)"
    using assms(1) by (rule repository_name_ends)
  obtain n where n: "positive_int (rn_enrollmentNo q) = Some n"
    "name = (placement u q @ codes ''-en'') @ codes ''r'' @ codes (dec n)"
    using assms(2) by (rule repository_name_ends)
  have "placement u p @ codes ''-en'' = placement u q @ codes ''-en'' \<and> m = n"
    by (rule number_at_end) (use m(2) n(2) in simp)
  then show "placement u p = placement u q"
    "positive_int (rn_enrollmentNo p) = positive_int (rn_enrollmentNo q)"
    using m(1) n(1) by auto
qed

section \<open>Properties\<close>

text \<open>ASCII, as an instance of the Unicode parameter.\<close>

definition ascii :: unicode where
  "ascii = \<lparr>uc_nfkd = (\<lambda>s. s),
     uc_word = (\<lambda>c. 48 \<le> c \<and> c \<le> 57 \<or> 65 \<le> c \<and> c \<le> 90 \<or> 97 \<le> c \<and> c \<le> 122),
     uc_lower = map (\<lambda>c. if 65 \<le> c \<and> c \<le> 90 then c + 32 else c)\<rparr>"

definition repo_parts :: "string \<Rightarrow> string \<Rightarrow> int \<Rightarrow> repo_name_parts" where
  "repo_parts program cohort no =
     \<lparr>rn_programCode = Some (codes program), rn_cohortCode = Some (codes cohort),
      rn_enrollmentNo = Some (of_int no)\<rparr>"

lemma slug_examples:
  "slug_part ascii (codes ''FE'') = codes ''fe''" "slug_part ascii (codes ''fe'') = codes ''fe''"
  "slug_part ascii (codes ''SEP26'') = codes ''sep26''" "slug_part ascii (codes ''Sep26!'') = codes ''sep26''"
  "slug_part ascii (codes ''a-b'') = codes ''a-b''" "slug_part ascii (codes ''b-c'') = codes ''b-c''"
  "slug_part ascii (codes ''a'') = codes ''a''" "slug_part ascii (codes ''c'') = codes ''c''"
  "slug_part ascii (codes ''CMP'') = codes ''cmp''" "slug_part ascii (codes ''final'') = codes ''final''"
  by (simp_all add: slug_part_def ascii_def codes_def dash_def strip_dash_def)

lemma number_examples: "codes (dec 1042) = codes ''1042''" "codes (dec 7) = codes ''7''"
  by (simp_all add: dec.simps codes_def)

lemma positive_int_of_int: "no > 0 \<Longrightarrow> positive_int (Some (of_int no)) = Some (nat no)"
  by (simp add: positive_int_def)

lemma competition_name_example:
  assumes "slug_part ascii (codes co) = codes co'" "co' \<noteq> []" "no > 0" "codes (dec (nat no)) = codes d"
    "utf16_length (codes (''cmp-'' @ co' @ ''-enr'' @ d)) \<le> max_repo_name"
  shows "competition_repository_name ascii (Some (codes co)) (Some (of_int no)) =
    Inr (codes (''cmp-'' @ co' @ ''-enr'' @ d))"
  using assms
  by (simp add: competition_repository_name_def or_empty_def positive_int_of_int Let_def codes_def
      del: append_Cons)

lemma repository_name_example:
  assumes "slug_part ascii (codes pr) = codes pr'" "slug_part ascii (codes co) = codes co'"
    "pr' \<noteq> []" "co' \<noteq> []" "no > 0" "codes (dec (nat no)) = codes d"
    "utf16_length (codes (pr' @ ''-'' @ co' @ ''-enr'' @ d)) \<le> max_repo_name"
  shows "repository_name ascii (repo_parts pr co no) = Inr (codes (pr' @ ''-'' @ co' @ ''-enr'' @ d))"
  using assms
  by (simp add: repository_name_def repo_parts_def or_empty_def positive_int_of_int Let_def codes_def
      del: append_Cons)

lemmas name_examples = utf16_length_def codes_def max_repo_name_def

lemma the_names:
  "repository_name ascii (repo_parts ''FE'' ''SEP26'' 1042) = Inr (codes ''fe-sep26-enr1042'')"
  "repository_name ascii (repo_parts ''fe'' ''Sep26!'' 1042) = Inr (codes ''fe-sep26-enr1042'')"
  "repository_name ascii (repo_parts ''a-b'' ''c'' 7) = Inr (codes ''a-b-c-enr7'')"
  "repository_name ascii (repo_parts ''a'' ''b-c'' 7) = Inr (codes ''a-b-c-enr7'')"
  "repository_name ascii (repo_parts ''CMP'' ''final'' 7) = Inr (codes ''cmp-final-enr7'')"
  using repository_name_example [of "''FE''" "''fe''" "''SEP26''" "''sep26''" 1042 "''1042''"]
    repository_name_example [of "''fe''" "''fe''" "''Sep26!''" "''sep26''" 1042 "''1042''"]
    repository_name_example [of "''a-b''" "''a-b''" "''c''" "''c''" 7 "''7''"]
    repository_name_example [of "''a''" "''a''" "''b-c''" "''b-c''" 7 "''7''"]
    repository_name_example [of "''CMP''" "''cmp''" "''final''" "''final''" 7 "''7''"]
  by (simp_all only: slug_examples number_examples nat_numeral)
    (simp_all add: name_examples)

lemma the_competition_name:
  "competition_repository_name ascii (Some (codes ''final'')) (Some 7) = Inr (codes ''cmp-final-enr7'')"
  using competition_name_example [of "''final''" "''final''" 7 "''7''"]
  by (simp only: slug_examples number_examples nat_numeral) (simp add: name_examples)

text \<open>a repository name identifies its enrolment. Two sets of parts that get the same name have the
  same enrolment number, and, where the program codes have no inner dash, the same program and the
  same cohort slug.
\<close>

theorem repository_name_identifies:
  assumes "repository_name u p = Inr name" "repository_name u q = Inr name"
    and "dash \<notin> set (slug_part u (or_empty (rn_programCode p)))"
    and "dash \<notin> set (slug_part u (or_empty (rn_programCode q)))"
  shows "positive_int (rn_enrollmentNo p) = positive_int (rn_enrollmentNo q) \<and>
    slug_part u (or_empty (rn_programCode p)) = slug_part u (or_empty (rn_programCode q)) \<and>
    slug_part u (or_empty (rn_cohortCode p)) = slug_part u (or_empty (rn_cohortCode q))"
proof -
  have "placement u p = placement u q"
    "positive_int (rn_enrollmentNo p) = positive_int (rn_enrollmentNo q)"
    using same_name_same_place assms(1,2) by blast+
  moreover from this(1) have "slug_part u (or_empty (rn_programCode p)) @ dash # slug_part u (or_empty (rn_cohortCode p)) =
      slug_part u (or_empty (rn_programCode q)) @ dash # slug_part u (or_empty (rn_cohortCode q))"
    by (simp add: placement_def codes_def dash_def)
  ultimately show ?thesis using split_at_dash assms(3,4) by blast
qed

theorem repository_name_identifies_witness:
  "let p = repo_parts ''FE'' ''SEP26'' 1042; q = repo_parts ''fe'' ''Sep26!'' 1042 in
   repository_name ascii p = Inr (codes ''fe-sep26-enr1042'') \<and>
   slug_part ascii (or_empty (rn_cohortCode p)) = slug_part ascii (or_empty (rn_cohortCode q))"
proof -
  let ?p = "repo_parts ''FE'' ''SEP26'' 1042" and ?q = "repo_parts ''fe'' ''Sep26!'' 1042"
  have "dash \<notin> set (codes ''fe'')" by (simp add: codes_def dash_def)
  then have d: "dash \<notin> set (slug_part ascii (or_empty (rn_programCode ?p)))"
    "dash \<notin> set (slug_part ascii (or_empty (rn_programCode ?q)))"
    by (simp_all add: repo_parts_def or_empty_def slug_examples)
  show ?thesis using repository_name_identifies [OF the_names(1,2) d] the_names(1) by (simp add: Let_def)
qed

text \<open>
  Finding: with a dash inside a code, the names are ambiguous. The program \<open>a-b\<close> with the cohort \<open>c\<close>
  and the program \<open>a\<close> with the cohort \<open>b-c\<close> give two different enrolments with the same number the
  same repository, and a program called \<open>cmp\<close> shares its names with the competitions.
\<close>

theorem dashed_codes_collide:
  "repository_name ascii (repo_parts ''a-b'' ''c'' 7) = repository_name ascii (repo_parts ''a'' ''b-c'' 7) \<and>
   repository_name ascii (repo_parts ''a'' ''b-c'' 7) = Inr (codes ''a-b-c-enr7'') \<and>
   repository_name ascii (repo_parts ''CMP'' ''final'' 7) =
     competition_repository_name ascii (Some (codes ''final'')) (Some 7)"
  by (simp only: the_names the_competition_name)

end
