(* ===== verification/Coding.thy ===== *)
theory Coding
  imports Database "HOL-Library.Multiset"
begin

text \<open>
  The coding plugin's live bridge (\<open>src/coding/coding-live.service.ts\<close>) and the rule for what
  a student may see of an AI review (\<open>src/coding/ai-visibility.ts\<close>): the rows they read, the
  points board of a session, and the proof that an unreleased AI verdict reaches neither the student
  nor the room. \<open>orderBy student.name\<close> uses the database's collation, a parameter of which
  only matters that it reorders the rows.
\<close>

section \<open>Rows\<close>

datatype coding_assignment_status = CA_DRAFT | CA_LIVE | CA_CLOSED

datatype coding_submission_status =
    SUBMITTED | UNDER_REVIEW | AI_REVIEWED | NEEDS_REVIEW | PASSED | FAILED | RETURNED

datatype ai_confidence = AI_LOW | AI_MEDIUM | AI_HIGH

record coding_assignment =
  ca_id :: string
  ca_courseId :: string
  ca_sessionId :: "string option"
  ca_status :: coding_assignment_status
  ca_title :: string
  ca_language :: "string option"
  ca_dueAt :: "int option"
  ca_showAiToStudents :: bool
  ca_requirements :: nat

record ai_review =
  ar_createdAt :: int
  ar_confidence :: "ai_confidence option"
  ar_summary :: string

text \<open>What \<open>AiRedactable\<close> asks of a submission; a field that is absent is \<open>None\<close>, a
  null \<open>Some None\<close>. The submission rows extend it.\<close>

record ai_redactable =
  rd_provisionalScore :: "int option option"
  rd_reviews :: "ai_review list option"

record coding_submission = ai_redactable +
  cs_id :: string
  cs_assignmentId :: string
  cs_studentId :: string
  cs_attemptNumber :: int
  cs_workspaceId :: "string option"
  cs_commitSha :: "string option"
  cs_status :: coding_submission_status
  cs_finalScore :: "int option"

record coding_db =
  cd_assignments :: "coding_assignment list"
  cd_submissions :: "coding_submission list"

definition provisional :: "('a) ai_redactable_scheme \<Rightarrow> int option" where
  "provisional s = (case rd_provisionalScore s of None \<Rightarrow> None | Some x \<Rightarrow> x)"

section \<open>What a student may see\<close>

definition without_ai :: "'a ai_redactable_scheme \<Rightarrow> 'a ai_redactable_scheme" where
  "without_ai submission =
     submission\<lparr>rd_provisionalScore := Some None,
       rd_reviews := (case rd_reviews submission of None \<Rightarrow> None | Some _ \<Rightarrow> Some [])\<rparr>"

definition for_student :: "'a ai_redactable_scheme \<Rightarrow> bool \<Rightarrow> bool \<Rightarrow> 'a ai_redactable_scheme" where
  "for_student submission showAiToStudents isOwner =
     (if \<not> isOwner \<or> showAiToStudents then submission else without_ai submission)"

definition board_score :: "int option \<Rightarrow> int option \<Rightarrow> bool \<Rightarrow> int option" where
  "board_score finalScore provisionalScore showAiToStudents =
     (if finalScore \<noteq> None then finalScore
      else if showAiToStudents then provisionalScore else None)"

section \<open>The live bridge\<close>

text \<open>The status of an entry: \<open>None\<close> is \<open>CODING\<close>, no attempt yet.\<close>

record point_entry =
  pe_studentId :: string
  pe_name :: string
  pe_status :: "coding_submission_status option"
  pe_score :: "int option"

datatype coding_event =
    CodingTask string string string "string option" nat "int option"
  | CodingPoints string string "point_entry list"
  | CodingSubmission string string string string string int coding_submission_status
      "int option" "int option" "ai_confidence option"

datatype coding_emit = ToSession string coding_event | ToSessionStaff string coding_event

definition find_assignment :: "coding_db \<Rightarrow> string \<Rightarrow> coding_assignment option" where
  "find_assignment c i = find (\<lambda>a. ca_id a = i) (cd_assignments c)"

definition find_submission :: "coding_db \<Rightarrow> string \<Rightarrow> coding_submission option" where
  "find_submission c i = find (\<lambda>s. cs_id s = i) (cd_submissions c)"

text \<open>A string that is \<open>null\<close> or empty is falsy.\<close>

definition truthy :: "string option \<Rightarrow> string option" where
  "truthy x = (case x of None \<Rightarrow> None | Some s \<Rightarrow> if s = [] then None else Some s)"

type_synonym roster = "(string \<times> string) list"

text \<open>The enrolled students, with the user row each enrolment requires, in the database's order of
  names.\<close>

definition roster_of :: "db \<Rightarrow> (roster \<Rightarrow> roster) \<Rightarrow> string \<Rightarrow> roster" where
  "roster_of d byName courseId =
     byName (map (\<lambda>e. (en_studentId e, case find_user d (en_studentId e) of None \<Rightarrow> [] | Some u \<Rightarrow> us_name u))
       (filter (\<lambda>e. en_courseId e = courseId) (db_enrollments d)))"

definition attempts_desc :: "coding_db \<Rightarrow> string \<Rightarrow> coding_submission list" where
  "attempts_desc c assignmentId =
     sort_key (\<lambda>s. - cs_attemptNumber s) (filter (\<lambda>s. cs_assignmentId s = assignmentId) (cd_submissions c))"

text \<open>\<open>for (const s of subs) if (!latest.has(s.studentId)) latest.set(s.studentId, s)\<close>\<close>

definition latest_of :: "coding_submission list \<Rightarrow> (string, coding_submission) amap" where
  "latest_of subs =
     foldl (\<lambda>m s. if map_of m (cs_studentId s) = None then aput (cs_studentId s) s m else m) [] subs"

definition point_entry_of ::
  "(string, coding_submission) amap \<Rightarrow> bool \<Rightarrow> string \<times> string \<Rightarrow> point_entry"
where
  "point_entry_of latest showAi e =
     (let s = map_of latest (fst e) in
      \<lparr>pe_studentId = fst e, pe_name = snd e, pe_status = map_option cs_status s,
       pe_score = (case s of None \<Rightarrow> None
                   | Some s \<Rightarrow> board_score (cs_finalScore s) (provisional s) showAi)\<rparr>)"

definition score_key :: "point_entry \<Rightarrow> int" where
  "score_key x = (case pe_score x of None \<Rightarrow> -1 | Some v \<Rightarrow> v)"

text \<open>\<open>Array.prototype.sort\<close> is stable, and so is \<open>sort_key\<close>.\<close>

definition broadcast_points ::
  "db \<Rightarrow> coding_db \<Rightarrow> (roster \<Rightarrow> roster) \<Rightarrow> string \<Rightarrow> coding_emit list"
where
  "broadcast_points d c byName assignmentId =
     (case find_assignment c assignmentId of
        None \<Rightarrow> []
      | Some a \<Rightarrow>
          (case truthy (ca_sessionId a) of
             None \<Rightarrow> []
           | Some sessionId \<Rightarrow>
               let latest = latest_of (attempts_desc c assignmentId);
                   entries = sort_key (\<lambda>x. - score_key x)
                     (map (point_entry_of latest (ca_showAiToStudents a)) (roster_of d byName (ca_courseId a)))
               in [ToSession sessionId (CodingPoints sessionId (ca_id a) entries)]))"

definition broadcast_task ::
  "db \<Rightarrow> coding_db \<Rightarrow> (roster \<Rightarrow> roster) \<Rightarrow> string \<Rightarrow> coding_emit list"
where
  "broadcast_task d c byName assignmentId =
     (case find_assignment c assignmentId of
        None \<Rightarrow> []
      | Some a \<Rightarrow>
          (case truthy (ca_sessionId a) of
             None \<Rightarrow> []
           | Some sessionId \<Rightarrow>
               if ca_status a \<noteq> CA_LIVE then []
               else ToSession sessionId
                      (CodingTask sessionId (ca_id a) (ca_title a) (ca_language a) (ca_requirements a) (ca_dueAt a))
                    # broadcast_points d c byName (ca_id a)))"

definition broadcast_review :: "db \<Rightarrow> coding_db \<Rightarrow> string \<Rightarrow> coding_emit list" where
  "broadcast_review d c submissionId =
     (case find_submission c submissionId of
        None \<Rightarrow> []
      | Some s \<Rightarrow>
          (case Option.bind (find_assignment c (cs_assignmentId s)) (\<lambda>a. truthy (ca_sessionId a)) of
             None \<Rightarrow> []
           | Some sessionId \<Rightarrow>
               let reviews = take 1 (sort_key (\<lambda>r. - ar_createdAt r)
                     (case rd_reviews s of None \<Rightarrow> [] | Some rs \<Rightarrow> rs));
                   name = (case find_user d (cs_studentId s) of None \<Rightarrow> [] | Some u \<Rightarrow> us_name u)
               in [ToSessionStaff sessionId
                     (CodingSubmission sessionId (cs_id s) (cs_assignmentId s) (cs_studentId s) name
                        (cs_attemptNumber s) (cs_status s) (provisional s) (cs_finalScore s)
                        (case reviews of [] \<Rightarrow> None | r # _ \<Rightarrow> ar_confidence r))]))"

text \<open>The two run under \<open>Promise.all\<close>; they go to different rooms, so their order is not
  observable there.\<close>

definition broadcast_submission_update ::
  "db \<Rightarrow> coding_db \<Rightarrow> (roster \<Rightarrow> roster) \<Rightarrow> string \<Rightarrow> coding_emit list"
where
  "broadcast_submission_update d c byName submissionId =
     (case find_submission c submissionId of
        None \<Rightarrow> []
      | Some s \<Rightarrow> broadcast_points d c byName (cs_assignmentId s) @ broadcast_review d c submissionId)"

section \<open>Lemmas\<close>

lemma latest_lookup: "map_of (latest_of subs) sid = find (\<lambda>s. cs_studentId s = sid) subs"
proof -
  have "map_of (foldl (\<lambda>m s. if map_of m (cs_studentId s) = None then aput (cs_studentId s) s m else m) m subs) sid =
      (case map_of m sid of Some s \<Rightarrow> Some s | None \<Rightarrow> find (\<lambda>s. cs_studentId s = sid) subs)" for m
    by (induction subs arbitrary: m) (auto simp: amap split: option.splits)
  then show ?thesis by (simp add: latest_of_def)
qed

lemma find_sort_key_max:
  assumes "s \<in> set xs" "P s" "\<And>t. t \<in> set xs \<Longrightarrow> P t \<Longrightarrow> t \<noteq> s \<Longrightarrow> f s < (f t :: int)"
  shows "find P (sort_key f xs) = Some s"
proof -
  obtain i where i: "i < length (sort_key f xs)" "P (sort_key f xs ! i)"
    "\<And>j. j < i \<Longrightarrow> \<not> P (sort_key f xs ! j)" "find P (sort_key f xs) = Some (sort_key f xs ! i)"
  proof -
    have "find P (sort_key f xs) \<noteq> None" using assms(1,2) by (auto simp: find_None_iff)
    then obtain t where "find P (sort_key f xs) = Some t" by blast
    then show thesis using that by (auto simp: find_Some_iff)
  qed
  obtain k where k: "k < length (sort_key f xs)" "sort_key f xs ! k = s"
    using assms(1) by (metis in_set_conv_nth set_sort)
  have "i \<le> k" using i(3) k(2) assms(2) by (meson not_le)
  moreover have "sorted (map f (sort_key f xs))" by simp
  ultimately have "f (sort_key f xs ! i) \<le> f s"
    using i(1) k sorted_nth_mono [of "map f (sort_key f xs)" i k] by simp
  moreover have "sort_key f xs ! i \<in> set xs" using i(1) nth_mem by (metis set_sort)
  ultimately have "sort_key f xs ! i = s" using assms(3) i(2) by (metis not_le)
  then show ?thesis using i(4) by simp
qed

text \<open>The database's key: one row per assignment, student and attempt.\<close>

definition attempts_keyed :: "coding_db \<Rightarrow> bool" where
  "attempts_keyed c \<longleftrightarrow>
     distinct (map (\<lambda>s. (cs_assignmentId s, cs_studentId s, cs_attemptNumber s)) (cd_submissions c))"

definition is_latest :: "coding_db \<Rightarrow> string \<Rightarrow> string \<Rightarrow> coding_submission \<Rightarrow> bool" where
  "is_latest c assignmentId studentId s \<longleftrightarrow>
     s \<in> set (cd_submissions c) \<and> cs_assignmentId s = assignmentId \<and> cs_studentId s = studentId \<and>
     list_all (\<lambda>t. cs_assignmentId t = assignmentId \<and> cs_studentId t = studentId
       \<longrightarrow> cs_attemptNumber t \<le> cs_attemptNumber s) (cd_submissions c)"

lemma latest_attempt:
  assumes "attempts_keyed c" "is_latest c a sid s"
  shows "map_of (latest_of (attempts_desc c a)) sid = Some s"
proof -
  have "- cs_attemptNumber s < - cs_attemptNumber t"
    if t: "t \<in> set (filter (\<lambda>s. cs_assignmentId s = a) (cd_submissions c))" "cs_studentId t = sid" "t \<noteq> s" for t
  proof -
    have "cs_attemptNumber t \<le> cs_attemptNumber s"
      using assms(2) t by (auto simp: is_latest_def list_all_iff)
    moreover have "cs_attemptNumber t \<noteq> cs_attemptNumber s"
      using assms t by (auto simp: attempts_keyed_def is_latest_def distinct_map dest!: inj_onD)
    ultimately show ?thesis by simp
  qed
  then show ?thesis unfolding latest_lookup attempts_desc_def
    using assms(2) by (intro find_sort_key_max) (auto simp: is_latest_def)
qed

text \<open>Scrubbing the AI's output from every submission.\<close>

definition scrub :: "coding_db \<Rightarrow> coding_db" where
  "scrub c = c\<lparr>cd_submissions := map without_ai (cd_submissions c)\<rparr>"

lemma without_ai_fields [simp]:
  "cs_id (without_ai s) = cs_id s" "cs_assignmentId (without_ai s) = cs_assignmentId s"
  "cs_studentId (without_ai s) = cs_studentId s" "cs_attemptNumber (without_ai s) = cs_attemptNumber s"
  "cs_status (without_ai s) = cs_status s" "cs_finalScore (without_ai s) = cs_finalScore s"
  by (simp_all add: without_ai_def)

lemma without_ai_provisional: "provisional (without_ai s) = None"
  by (simp add: without_ai_def provisional_def)

lemma map_sort_key:
  assumes "\<And>x. k (f x) = (k' x :: int)"
  shows "map f (sort_key k' xs) = sort_key k (map f xs)"
proof -
  have "map f (insort_key k' x ys) = insort_key k (f x) (map f ys)" for x ys
    by (induction ys) (simp_all add: assms)
  then show ?thesis by (induction xs) simp_all
qed

lemma find_map_same:
  assumes "\<And>x. P (f x) = P' x"
  shows "find P (map f xs) = map_option f (find P' xs)"
  using assms by (induction xs) auto

lemma attempts_scrub: "attempts_desc (scrub c) a = map without_ai (attempts_desc c a)"
  by (simp add: attempts_desc_def scrub_def filter_map o_def
      map_sort_key [where k' = "\<lambda>s. - cs_attemptNumber s" and k = "\<lambda>s. - cs_attemptNumber s"])

lemma latest_scrub:
  "map_of (latest_of (map without_ai subs)) sid = map_option without_ai (map_of (latest_of subs) sid)"
  unfolding latest_lookup by (rule find_map_same) simp

lemma entry_scrub:
  "point_entry_of (latest_of (map without_ai subs)) False = point_entry_of (latest_of subs) False"
  by (rule ext) (simp add: point_entry_of_def Let_def latest_scrub board_score_def option.map_comp o_def
      split: option.split)

lemma points_scrub:
  assumes "\<And>a. find_assignment c aid = Some a \<Longrightarrow> \<not> ca_showAiToStudents a"
  shows "broadcast_points d (scrub c) byName aid = broadcast_points d c byName aid"
proof -
  have "find_assignment (scrub c) aid = find_assignment c aid"
    by (simp add: find_assignment_def scrub_def)
  then show ?thesis
    using assms by (auto simp: broadcast_points_def attempts_scrub entry_scrub Let_def split: option.split)
qed

section \<open>Properties\<close>

text \<open>the points board shows the class as it stands. One entry per enrolment of the task's course,
  best score first and students without a score last, each with the status and score of the
  student's latest attempt.
\<close>

theorem points_board_is_the_class:
  assumes "find_assignment c aid = Some a" "truthy (ca_sessionId a) = Some sid"
    and "\<And>r. mset (byName r) = mset r" "attempts_keyed c"
  shows "\<exists>entries. broadcast_points d c byName aid = [ToSession sid (CodingPoints sid aid entries)] \<and>
    mset (map pe_studentId entries) =
      mset (map en_studentId (filter (\<lambda>e. en_courseId e = ca_courseId a) (db_enrollments d))) \<and>
    sorted_wrt (\<ge>) (map score_key entries) \<and>
    (\<forall>e \<in> set entries. \<forall>s. is_latest c aid (pe_studentId e) s \<longrightarrow>
       pe_status e = Some (cs_status s) \<and>
       pe_score e = board_score (cs_finalScore s) (provisional s) (ca_showAiToStudents a))"
proof -
  let ?entries = "map (point_entry_of (latest_of (attempts_desc c aid)) (ca_showAiToStudents a))
    (roster_of d byName (ca_courseId a))"
  have id: "ca_id a = aid" using assms(1) by (auto simp: find_assignment_def find_Some_iff)
  have "mset (map pe_studentId (sort_key (\<lambda>x. - score_key x) ?entries)) = mset (map pe_studentId ?entries)"
    by (metis mset_map mset_sort)
  also have "\<dots> = image_mset fst (mset (roster_of d byName (ca_courseId a)))"
    by (simp add: point_entry_of_def Let_def multiset.map_comp o_def)
  also have "\<dots> = mset (map en_studentId (filter (\<lambda>e. en_courseId e = ca_courseId a) (db_enrollments d)))"
    by (simp add: roster_of_def assms(3) multiset.map_comp o_def)
  finally have roster: "mset (map pe_studentId (sort_key (\<lambda>x. - score_key x) ?entries)) =
    mset (map en_studentId (filter (\<lambda>e. en_courseId e = ca_courseId a) (db_enrollments d)))" .
  have "sorted (map (\<lambda>x. - score_key x) (sort_key (\<lambda>x. - score_key x) ?entries))" by simp
  then have "sorted_wrt (\<ge>) (map score_key (sort_key (\<lambda>x. - score_key x) ?entries))"
    by (simp add: sorted_wrt_map)
  moreover have "pe_status e = Some (cs_status s) \<and>
      pe_score e = board_score (cs_finalScore s) (provisional s) (ca_showAiToStudents a)"
    if "e \<in> set (sort_key (\<lambda>x. - score_key x) ?entries)" "is_latest c aid (pe_studentId e) s" for e s
    using that latest_attempt [OF assms(4)] by (auto simp: point_entry_of_def Let_def)
  ultimately show ?thesis
    using assms(1,2) id roster by (auto simp: broadcast_points_def Let_def)
qed

text \<open>Other output of the AI for each submission: any score, and any reviews where the row has them.\<close>

definition with_ai :: "(coding_submission \<Rightarrow> int option option) \<Rightarrow> (coding_submission \<Rightarrow> ai_review list) \<Rightarrow> coding_submission \<Rightarrow> coding_submission" where
  "with_ai score reviews s =
     s\<lparr>rd_provisionalScore := score s, rd_reviews := map_option (\<lambda>_. reviews s) (rd_reviews s)\<rparr>"

lemma without_with_ai: "without_ai (with_ai score reviews s) = without_ai s"
  by (simp add: without_ai_def with_ai_def split: option.split)

text \<open>
  C30: what the AI wrote stays with the instructor until it is released. While the task's flag is off,
  let the AI have given any other scores and written any other reviews: the points board of the room is
  the same, and each submission gives its student the same view.
\<close>

theorem unreleased_ai_is_not_shown:
  assumes "find_assignment c aid = Some a" "\<not> ca_showAiToStudents a"
  shows "broadcast_points d (c\<lparr>cd_submissions := map (with_ai score reviews) (cd_submissions c)\<rparr>) byName aid =
      broadcast_points d c byName aid \<and>
    (\<forall>s \<in> set (cd_submissions c). for_student (with_ai score reviews s) (ca_showAiToStudents a) True =
      for_student s (ca_showAiToStudents a) True)"
proof -
  let ?c = "c\<lparr>cd_submissions := map (with_ai score reviews) (cd_submissions c)\<rparr>"
  have same: "scrub ?c = scrub c" by (simp add: scrub_def comp_def without_with_ai)
  have "broadcast_points d ?c byName aid = broadcast_points d (scrub ?c) byName aid"
    using assms by (intro points_scrub [symmetric]) (auto simp: find_assignment_def)
  also have "\<dots> = broadcast_points d c byName aid"
    unfolding same using assms by (intro points_scrub) (auto simp: find_assignment_def)
  finally show ?thesis using assms(2) by (simp add: for_student_def without_with_ai)
qed

section \<open>Witnesses\<close>

definition demo_task :: coding_assignment where
  "demo_task = \<lparr>ca_id = ''a1'', ca_courseId = ''c1'', ca_sessionId = Some ''s1'', ca_status = CA_LIVE,
     ca_title = ''T'', ca_language = None, ca_dueAt = None, ca_showAiToStudents = False,
     ca_requirements = 2\<rparr>"

definition demo_attempt :: "string \<Rightarrow> string \<Rightarrow> int \<Rightarrow> int option \<Rightarrow> int option \<Rightarrow> coding_submission" where
  "demo_attempt i sid n ai final =
     \<lparr>rd_provisionalScore = Some ai, rd_reviews = Some [], cs_id = i, cs_assignmentId = ''a1'',
      cs_studentId = sid, cs_attemptNumber = n, cs_workspaceId = None, cs_commitSha = None, cs_status = AI_REVIEWED,
      cs_finalScore = final\<rparr>"

definition demo_coding :: "int option \<Rightarrow> coding_db" where
  "demo_coding ai = \<lparr>cd_assignments = [demo_task],
     cd_submissions = [demo_attempt ''x1'' ''u1'' 1 ai (Some 40), demo_attempt ''x2'' ''u1'' 2 ai None,
       demo_attempt ''x3'' ''u2'' 1 ai (Some 70)]\<rparr>"

definition demo_class :: db where
  "demo_class = empty_db\<lparr>db_enrollments :=
     [\<lparr>en_courseId = ''c1'', en_studentId = ''u1''\<rparr>, \<lparr>en_courseId = ''c1'', en_studentId = ''u2''\<rparr>,
      \<lparr>en_courseId = ''c2'', en_studentId = ''u3''\<rparr>]\<rparr>"

theorem points_board_is_the_class_witness:
  "\<exists>entries. broadcast_points demo_class (demo_coding (Some 90)) (\<lambda>r. r) ''a1'' =
      [ToSession ''s1'' (CodingPoints ''s1'' ''a1'' entries)] \<and>
    mset (map pe_studentId entries) = {#''u1'', ''u2''#}"
proof -
  have "find_assignment (demo_coding (Some 90)) ''a1'' = Some demo_task" by code_simp
  moreover have "truthy (ca_sessionId demo_task) = Some ''s1''" by code_simp
  moreover have "attempts_keyed (demo_coding (Some 90))" unfolding attempts_keyed_def by code_simp
  moreover have "map en_studentId (filter (\<lambda>e. en_courseId e = ca_courseId demo_task) (db_enrollments demo_class))
      = [''u1'', ''u2'']" by code_simp
  ultimately show ?thesis
    using points_board_is_the_class [of "demo_coding (Some 90)" "''a1''" demo_task "''s1''" "\<lambda>r. r" demo_class]
    by auto
qed

theorem unreleased_ai_is_not_shown_witness:
  "broadcast_points demo_class (demo_coding (Some 90)) (\<lambda>r. r) ''a1'' =
     broadcast_points demo_class (demo_coding (Some 10)) (\<lambda>r. r) ''a1'' \<and>
   demo_coding (Some 90) \<noteq> demo_coding (Some 10)"
proof -
  have "(demo_coding (Some 10))\<lparr>cd_submissions := map (with_ai (\<lambda>_. Some (Some 90)) (\<lambda>_. [])) (cd_submissions (demo_coding (Some 10)))\<rparr> =
      demo_coding (Some 90)"
    by (simp add: demo_coding_def demo_attempt_def with_ai_def)
  moreover have "find_assignment (demo_coding (Some 10)) ''a1'' = Some demo_task" by code_simp
  moreover have "demo_coding (Some 90) \<noteq> demo_coding (Some 10)" by (simp add: demo_coding_def demo_attempt_def)
  ultimately show ?thesis
    using unreleased_ai_is_not_shown [of "demo_coding (Some 10)" "''a1''" demo_task demo_class "\<lambda>_. Some (Some 90)" "\<lambda>_. []" "\<lambda>r. r"]
    by (simp add: demo_task_def)
qed

end
