(* ===== verification/CommitRef.thy ===== *)
theory CommitRef
  imports Coding JsText
begin

text \<open>
  \<open>src/coding/git/commit-ref.ts\<close>: from a submission to the repository and commit that hold its
  code, and the commit it is compared with. The rows of the GitHub side of the schema, the
  resolution, and the proof that it never leaves the student, the assignment or the institution of
  the submission.
\<close>

section \<open>Rows\<close>

datatype connection_status = ACTIVE | SUSPENDED | REVOKED

record workspace_row =
  wk_id :: string
  wk_courseId :: string
  wk_repositoryFullName :: "string option"

record batch_row =
  bt_id :: string
  bt_organizationId :: "string option"
  bt_parentCourseId :: "string option"

record connection_row =
  gc_organizationId :: string
  gc_installationId :: string
  gc_organizationLogin :: string
  gc_status :: connection_status

record git_config_row =
  gp_courseId :: string
  gp_templateRepositoryName :: "string option"
  gp_defaultBranch :: string

record git_db =
  gd_coding :: coding_db
  gd_workspaces :: "workspace_row list"
  gd_courses :: "batch_row list"
  gd_connections :: "connection_row list"
  gd_configs :: "git_config_row list"

record commit_ref =
  cr_installationId :: string
  cr_owner :: string
  cr_repo :: string
  cr_fullName :: string
  cr_sha :: string
  cr_previousSha :: "string option"
  cr_attemptNumber :: int
  cr_orgLogin :: string
  cr_templateRepo :: "string option"
  cr_templateBranch :: string

section \<open>Resolution\<close>

text \<open>The submission's workspace with the course it hangs off, a required relation.\<close>

definition submission_workspace :: "git_db \<Rightarrow> coding_submission \<Rightarrow> (workspace_row \<times> batch_row) option" where
  "submission_workspace g s =
     Option.bind (cs_workspaceId s) (\<lambda>i.
     Option.bind (find (\<lambda>w. wk_id w = i) (gd_workspaces g)) (\<lambda>w.
     map_option (Pair w) (find (\<lambda>b. bt_id b = wk_courseId w) (gd_courses g))))"

definition earlier_attempts :: "git_db \<Rightarrow> coding_submission \<Rightarrow> coding_submission list" where
  "earlier_attempts g s =
     filter (\<lambda>t. cs_assignmentId t = cs_assignmentId s \<and> cs_studentId t = cs_studentId s \<and>
       cs_attemptNumber t < cs_attemptNumber s \<and> cs_commitSha t \<noteq> None)
     (cd_submissions (gd_coding g))"

text \<open>\<open>findFirst\<close> over the earlier attempts that have a commit, newest first.\<close>

definition previous_attempt :: "git_db \<Rightarrow> coding_submission \<Rightarrow> coding_submission option" where
  "previous_attempt g s =
     (case sort_key (\<lambda>t. - cs_attemptNumber t) (earlier_attempts g s) of
        [] \<Rightarrow> None | t # _ \<Rightarrow> Some t)"

definition template_of :: "git_db \<Rightarrow> string option \<Rightarrow> string option \<times> string" where
  "template_of g programId =
     (case Option.bind (truthy programId) (\<lambda>p. find (\<lambda>x. gp_courseId x = p) (gd_configs g)) of
        None \<Rightarrow> (None, ''main'')
      | Some config \<Rightarrow>
          (case truthy (gp_templateRepositoryName config) of
             None \<Rightarrow> (None, ''main'')
           | Some r \<Rightarrow> (Some r, if gp_defaultBranch config = [] then ''main'' else gp_defaultBranch config)))"

text \<open>The first component lists the ids the caller is warned about.\<close>

definition resolve_commit_ref :: "git_db \<Rightarrow> string \<Rightarrow> string list \<times> commit_ref option" where
  "resolve_commit_ref g submissionId =
     (case find_submission (gd_coding g) submissionId of
        None \<Rightarrow> ([], None)
      | Some submission \<Rightarrow>
     (case truthy (cs_commitSha submission) of
        None \<Rightarrow> ([], None)
      | Some sha \<Rightarrow>
     (case submission_workspace g submission of
        None \<Rightarrow> ([], None)
      | Some (workspace, course) \<Rightarrow>
     (case truthy (wk_repositoryFullName workspace) of
        None \<Rightarrow> ([], None)
      | Some fullName \<Rightarrow>
     (case truthy (bt_organizationId course) of
        None \<Rightarrow> ([], None)
      | Some orgId \<Rightarrow>
     (case find (\<lambda>k. gc_organizationId k = orgId) (gd_connections g) of
        None \<Rightarrow> ([submissionId], None)
      | Some connection \<Rightarrow>
          if gc_status connection \<noteq> ACTIVE then ([submissionId], None)
          else
            (case js_split (CHR ''/'') fullName of
               owner # repo # _ \<Rightarrow>
                 if owner = [] \<or> repo = [] then ([], None)
                 else
                   let template = template_of g (bt_parentCourseId course) in
                   ([], Some \<lparr>cr_installationId = gc_installationId connection, cr_owner = owner, cr_repo = repo,
                      cr_fullName = fullName, cr_sha = sha,
                      cr_previousSha = Option.bind (previous_attempt g submission) cs_commitSha,
                      cr_attemptNumber = cs_attemptNumber submission,
                      cr_orgLogin = gc_organizationLogin connection,
                      cr_templateRepo = fst template, cr_templateBranch = snd template\<rparr>)
             | _ \<Rightarrow> ([], None))))))))"

section \<open>Lemmas\<close>

lemma truthy_Some: "truthy x = Some s \<longleftrightarrow> x = Some s \<and> s \<noteq> []"
  by (auto simp: truthy_def split: option.splits if_splits)

lemma resolved:
  assumes "resolve_commit_ref g i = (ws, Some ref)"
  obtains s w b org k owner repo rest where
    "find_submission (gd_coding g) i = Some s" "cs_commitSha s = Some (cr_sha ref)"
    "submission_workspace g s = Some (w, b)" "wk_repositoryFullName w = Some (cr_fullName ref)"
    "bt_organizationId b = Some org" "find (\<lambda>k. gc_organizationId k = org) (gd_connections g) = Some k"
    "gc_status k = ACTIVE" "js_split (CHR ''/'') (cr_fullName ref) = owner # repo # rest"
    "ref = \<lparr>cr_installationId = gc_installationId k, cr_owner = owner, cr_repo = repo,
       cr_fullName = cr_fullName ref, cr_sha = cr_sha ref,
       cr_previousSha = Option.bind (previous_attempt g s) cs_commitSha,
       cr_attemptNumber = cs_attemptNumber s, cr_orgLogin = gc_organizationLogin k,
       cr_templateRepo = fst (template_of g (bt_parentCourseId b)),
       cr_templateBranch = snd (template_of g (bt_parentCourseId b))\<rparr>"
proof -
  note d = assms [unfolded resolve_commit_ref_def]
  obtain s where s: "find_submission (gd_coding g) i = Some s" using d by (auto split: option.splits)
  note d = d [unfolded s option.case]
  obtain sha where sha: "truthy (cs_commitSha s) = Some sha" using d by (cases "truthy (cs_commitSha s)") auto
  note d = d [unfolded sha option.case]
  obtain w b where w: "submission_workspace g s = Some (w, b)"
    using d by (cases "submission_workspace g s") auto
  note d = d [unfolded w option.case prod.case]
  obtain nm where nm: "truthy (wk_repositoryFullName w) = Some nm"
    using d by (cases "truthy (wk_repositoryFullName w)") auto
  note d = d [unfolded nm option.case]
  obtain org where org: "truthy (bt_organizationId b) = Some org"
    using d by (cases "truthy (bt_organizationId b)") auto
  note d = d [unfolded org option.case]
  obtain k where k: "find (\<lambda>k. gc_organizationId k = org) (gd_connections g) = Some k"
    using d by (cases "find (\<lambda>k. gc_organizationId k = org) (gd_connections g)") auto
  note d = d [unfolded k option.case]
  have act: "gc_status k = ACTIVE" using d by (cases "gc_status k = ACTIVE") auto
  obtain owner repo rest where sp: "js_split (CHR ''/'') nm = owner # repo # rest"
    using d act by (cases "js_split (CHR ''/'') nm"; cases "tl (js_split (CHR ''/'') nm)") auto
  have ref: "ref = \<lparr>cr_installationId = gc_installationId k, cr_owner = owner, cr_repo = repo,
       cr_fullName = nm, cr_sha = sha,
       cr_previousSha = Option.bind (previous_attempt g s) cs_commitSha,
       cr_attemptNumber = cs_attemptNumber s, cr_orgLogin = gc_organizationLogin k,
       cr_templateRepo = fst (template_of g (bt_parentCourseId b)),
       cr_templateBranch = snd (template_of g (bt_parentCourseId b))\<rparr>"
    using d act sp by (auto simp: Let_def split: if_splits)
  show thesis
    by (rule that [OF s _ w _ _ k act, of owner repo rest])
      (use sha nm org sp in \<open>simp_all add: ref truthy_Some\<close>)
qed

lemma head_is_max:
  assumes "sort_key (\<lambda>t. - f t :: int) xs = x # ys" "t \<in> set xs"
  shows "f t \<le> f x"
proof -
  have "sorted (map (\<lambda>t. - f t) (x # ys))" using assms(1) by (metis sorted_sort_key)
  moreover have "t \<in> set (x # ys)" using assms by (metis set_sort)
  ultimately show ?thesis by auto
qed

text \<open>The attempt before: the same student and assignment, the newest that has a commit.\<close>

lemma previous_attempt_is_the_one_before:
  assumes "previous_attempt g s = Some t"
  shows "t \<in> set (cd_submissions (gd_coding g))" "cs_assignmentId t = cs_assignmentId s"
    "cs_studentId t = cs_studentId s" "cs_attemptNumber t < cs_attemptNumber s" "cs_commitSha t \<noteq> None"
    and "r \<in> set (cd_submissions (gd_coding g)) \<Longrightarrow> cs_assignmentId r = cs_assignmentId s \<Longrightarrow>
      cs_studentId r = cs_studentId s \<Longrightarrow> cs_attemptNumber r < cs_attemptNumber s \<Longrightarrow>
      cs_commitSha r \<noteq> None \<Longrightarrow> cs_attemptNumber r \<le> cs_attemptNumber t"
proof -
  obtain ys where ys: "sort_key (\<lambda>t. - cs_attemptNumber t) (earlier_attempts g s) = t # ys"
    using assms unfolding previous_attempt_def
    by (cases "sort_key (\<lambda>t. - cs_attemptNumber t) (earlier_attempts g s)") simp_all
  then have "t \<in> set (earlier_attempts g s)" by (metis list.set_intros(1) set_sort)
  then show "t \<in> set (cd_submissions (gd_coding g))" "cs_assignmentId t = cs_assignmentId s"
    "cs_studentId t = cs_studentId s" "cs_attemptNumber t < cs_attemptNumber s" "cs_commitSha t \<noteq> None"
    by (simp_all add: earlier_attempts_def)
  show "cs_attemptNumber r \<le> cs_attemptNumber t"
    if "r \<in> set (cd_submissions (gd_coding g))" "cs_assignmentId r = cs_assignmentId s"
      "cs_studentId r = cs_studentId s" "cs_attemptNumber r < cs_attemptNumber s" "cs_commitSha r \<noteq> None"
    using head_is_max [OF ys] that by (simp add: earlier_attempts_def)
qed

section \<open>Properties\<close>

text \<open>
  C31: the code that is read for a submission is the submission's. The commit is the one it was
  pinned to, the repository is the one of its own workspace, the installation is an active
  connection of the organization of that workspace's course, and the commit it is compared with is
  of the same student and the same assignment, from the newest earlier attempt that has one.
\<close>

theorem commit_ref_stays_with_the_submission:
  assumes "resolve_commit_ref g i = (ws, Some ref)"
  shows "\<exists>s w b k. find_submission (gd_coding g) i = Some s \<and> cs_commitSha s = Some (cr_sha ref) \<and>
    submission_workspace g s = Some (w, b) \<and> wk_repositoryFullName w = Some (cr_fullName ref) \<and>
    k \<in> set (gd_connections g) \<and> bt_organizationId b = Some (gc_organizationId k) \<and> gc_status k = ACTIVE \<and>
    cr_installationId ref = gc_installationId k \<and> cr_orgLogin ref = gc_organizationLogin k \<and>
    (\<forall>p. cr_previousSha ref = Some p \<longrightarrow>
      (\<exists>t \<in> set (cd_submissions (gd_coding g)). cs_commitSha t = Some p \<and>
         cs_assignmentId t = cs_assignmentId s \<and> cs_studentId t = cs_studentId s \<and>
         cs_attemptNumber t < cs_attemptNumber s \<and>
         (\<forall>r \<in> set (cd_submissions (gd_coding g)). cs_assignmentId r = cs_assignmentId s \<and>
            cs_studentId r = cs_studentId s \<and> cs_attemptNumber r < cs_attemptNumber s \<and>
            cs_commitSha r \<noteq> None \<longrightarrow> cs_attemptNumber r \<le> cs_attemptNumber t)))"
proof -
  obtain s w b org k owner repo rest where r:
    "find_submission (gd_coding g) i = Some s" "cs_commitSha s = Some (cr_sha ref)"
    "submission_workspace g s = Some (w, b)" "wk_repositoryFullName w = Some (cr_fullName ref)"
    "bt_organizationId b = Some org" "find (\<lambda>k. gc_organizationId k = org) (gd_connections g) = Some k"
    "gc_status k = ACTIVE" and ref: "ref = \<lparr>cr_installationId = gc_installationId k, cr_owner = owner,
       cr_repo = repo, cr_fullName = cr_fullName ref, cr_sha = cr_sha ref,
       cr_previousSha = Option.bind (previous_attempt g s) cs_commitSha,
       cr_attemptNumber = cs_attemptNumber s, cr_orgLogin = gc_organizationLogin k,
       cr_templateRepo = fst (template_of g (bt_parentCourseId b)),
       cr_templateBranch = snd (template_of g (bt_parentCourseId b))\<rparr>"
    using assms by (rule resolved) blast
  have k: "k \<in> set (gd_connections g)" "gc_organizationId k = org"
    using r(6) by (auto simp: find_Some_iff)
  have prev: "cr_previousSha ref = Option.bind (previous_attempt g s) cs_commitSha"
    "cr_installationId ref = gc_installationId k" "cr_orgLogin ref = gc_organizationLogin k"
    by (subst ref, simp)+
  have earlier: "\<exists>t \<in> set (cd_submissions (gd_coding g)). cs_commitSha t = Some p \<and>
      cs_assignmentId t = cs_assignmentId s \<and> cs_studentId t = cs_studentId s \<and>
      cs_attemptNumber t < cs_attemptNumber s \<and>
      (\<forall>r \<in> set (cd_submissions (gd_coding g)). cs_assignmentId r = cs_assignmentId s \<and>
         cs_studentId r = cs_studentId s \<and> cs_attemptNumber r < cs_attemptNumber s \<and>
         cs_commitSha r \<noteq> None \<longrightarrow> cs_attemptNumber r \<le> cs_attemptNumber t)"
    if p: "cr_previousSha ref = Some p" for p
  proof -
    obtain t where t: "previous_attempt g s = Some t" "cs_commitSha t = Some p"
      using p prev(1) by (auto simp: bind_eq_Some_conv)
    show ?thesis
      by (intro bexI [of _ t] conjI ballI impI)
        (simp_all add: t(2) previous_attempt_is_the_one_before [OF t(1)])
  qed
  show ?thesis
    using r(1-5,7) k prev(2,3) earlier
    by (intro exI [of _ s] exI [of _ w] exI [of _ b] exI [of _ k] conjI) simp_all
qed

definition demo_git :: git_db where
  "demo_git = \<lparr>gd_coding = (demo_coding None)\<lparr>cd_submissions := map (\<lambda>(i, n, sha).
       (demo_attempt i ''u1'' n None None)\<lparr>cs_workspaceId := Some ''w1'', cs_commitSha := sha\<rparr>)
       [(''x1'', 1, Some ''aaa''), (''x2'', 2, None), (''x3'', 3, Some ''ccc'')]\<rparr>,
     gd_workspaces = [\<lparr>wk_id = ''w1'', wk_courseId = ''b1'', wk_repositoryFullName = Some ''org/fe-enr1''\<rparr>],
     gd_courses = [\<lparr>bt_id = ''b1'', bt_organizationId = Some ''o1'', bt_parentCourseId = Some ''p1''\<rparr>],
     gd_connections = [\<lparr>gc_organizationId = ''o1'', gc_installationId = ''77'',
       gc_organizationLogin = ''org'', gc_status = ACTIVE\<rparr>],
     gd_configs = [\<lparr>gp_courseId = ''p1'', gp_templateRepositoryName = Some ''start'', gp_defaultBranch = []\<rparr>]\<rparr>"

definition demo_ref :: commit_ref where
  "demo_ref = \<lparr>cr_installationId = ''77'', cr_owner = ''org'', cr_repo = ''fe-enr1'',
     cr_fullName = ''org/fe-enr1'', cr_sha = ''ccc'', cr_previousSha = Some ''aaa'', cr_attemptNumber = 3,
     cr_orgLogin = ''org'', cr_templateRepo = Some ''start'', cr_templateBranch = ''main''\<rparr>"

theorem commit_ref_stays_with_the_submission_witness:
  "resolve_commit_ref demo_git ''x3'' = ([], Some demo_ref) \<and>
   (\<exists>t \<in> set (cd_submissions (gd_coding demo_git)). cs_commitSha t = Some ''aaa'' \<and> cs_studentId t = ''u1'')"
proof -
  have r: "resolve_commit_ref demo_git ''x3'' = ([], Some demo_ref)" by code_simp
  moreover have "cr_previousSha demo_ref = Some ''aaa''" by (simp add: demo_ref_def)
  moreover have "map_option cs_studentId (find_submission (gd_coding demo_git) ''x3'') = Some ''u1''" by code_simp
  ultimately show ?thesis using commit_ref_stays_with_the_submission [OF r] by auto
qed

end
