(* ===== verification/StudentStats.thy ===== *)
theory StudentStats
  imports Database Points
begin

text \<open>
  \<open>src/performance/student-stats.ts\<close>: the figures of a set of students over the courses a
  filter selects. Seven grouped queries are folded into one map; the theorem says that the map
  holds, for every student asked about, the counts of the rows themselves. Writing to a student who
  is not in the map is a \<open>TypeError\<close> in the code and \<open>None\<close> here.
\<close>

section \<open>Rows\<close>

record attendance_row =
  at_sessionId :: string
  at_studentId :: string

record assignment_row =
  am_id :: string
  am_courseId :: string

record submission_row =
  sb_assignmentId :: string
  sb_studentId :: string

record stats_db =
  sd_db :: db
  sd_ledger :: "ledger_entry list"
  sd_attendance :: "attendance_row list"
  sd_assignments :: "assignment_row list"
  sd_submissions :: "submission_row list"

record student_stat =
  st_points :: int
  st_interactions :: nat
  st_attended :: nat
  st_held :: nat
  st_assignmentsSubmitted :: nat
  st_assignmentsTotal :: nat

definition no_stat :: student_stat where
  "no_stat = \<lparr>st_points = 0, st_interactions = 0, st_attended = 0, st_held = 0,
     st_assignmentsSubmitted = 0, st_assignmentsTotal = 0\<rparr>"

section \<open>Queries\<close>

text \<open>\<open>courseWhere\<close> as a predicate on course ids, and the relation filters that reach it.\<close>

definition session_in :: "stats_db \<Rightarrow> (string \<Rightarrow> bool) \<Rightarrow> string \<Rightarrow> bool" where
  "session_in d courseWhere sid =
     (case find_session (sd_db d) sid of None \<Rightarrow> False | Some s \<Rightarrow> courseWhere (ls_courseId s))"

definition question_in :: "stats_db \<Rightarrow> (string \<Rightarrow> bool) \<Rightarrow> string \<Rightarrow> bool" where
  "question_in d courseWhere qid =
     (case question_quiz (sd_db d) qid of
        None \<Rightarrow> False
      | Some (q, z) \<Rightarrow> (case qz_sessionId z of None \<Rightarrow> False | Some sid \<Rightarrow> session_in d courseWhere sid))"

definition assignment_in :: "stats_db \<Rightarrow> (string \<Rightarrow> bool) \<Rightarrow> string \<Rightarrow> bool" where
  "assignment_in d courseWhere aid =
     (case find (\<lambda>a. am_id a = aid) (sd_assignments d) of None \<Rightarrow> False | Some a \<Rightarrow> courseWhere (am_courseId a))"

text \<open>The keys of the rows each query counts.\<close>

definition chat_keys :: "stats_db \<Rightarrow> (string \<Rightarrow> bool) \<Rightarrow> string list" where
  "chat_keys d w = map cm_userId (filter (\<lambda>m. session_in d w (cm_sessionId m)) (db_chat (sd_db d)))"

definition answer_keys :: "stats_db \<Rightarrow> (string \<Rightarrow> bool) \<Rightarrow> string list" where
  "answer_keys d w = map qa_studentId (filter (\<lambda>a. question_in d w (qa_questionId a)) (db_answers (sd_db d)))"

definition attendance_keys :: "stats_db \<Rightarrow> (string \<Rightarrow> bool) \<Rightarrow> string list" where
  "attendance_keys d w = map at_studentId (filter (\<lambda>a. session_in d w (at_sessionId a)) (sd_attendance d))"

definition submission_keys :: "stats_db \<Rightarrow> (string \<Rightarrow> bool) \<Rightarrow> string list" where
  "submission_keys d w = map sb_studentId (filter (\<lambda>s. assignment_in d w (sb_assignmentId s)) (sd_submissions d))"

definition held_count :: "stats_db \<Rightarrow> (string \<Rightarrow> bool) \<Rightarrow> nat" where
  "held_count d w = length (filter (\<lambda>s. ls_status s = ENDED \<and> w (ls_courseId s)) (db_sessions (sd_db d)))"

text \<open>\<open>groupBy\<close> with a count, and with a sum, over the rows whose key is in the list.\<close>

definition group_count :: "string list \<Rightarrow> string list \<Rightarrow> (string \<times> nat) list" where
  "group_count ids keys = map (\<lambda>k. (k, count_list keys k)) (remdups (filter (\<lambda>k. k \<in> set ids) keys))"

definition points_of :: "stats_db \<Rightarrow> (string \<Rightarrow> bool) \<Rightarrow> string \<Rightarrow> int" where
  "points_of d w k = sum_list (map le_delta (filter (\<lambda>e. le_studentId e = k \<and> w (le_courseId e)) (sd_ledger d)))"

definition group_points :: "stats_db \<Rightarrow> (string \<Rightarrow> bool) \<Rightarrow> string list \<Rightarrow> (string \<times> int) list" where
  "group_points d w ids =
     map (\<lambda>k. (k, points_of d w k))
       (remdups (filter (\<lambda>k. k \<in> set ids) (map le_studentId (filter (\<lambda>e. w (le_courseId e)) (sd_ledger d)))))"

definition course_assignment_counts :: "stats_db \<Rightarrow> (string \<Rightarrow> bool) \<Rightarrow> (string \<times> nat) list" where
  "course_assignment_counts d w =
     (let cs = filter w (map am_courseId (sd_assignments d)) in map (\<lambda>c. (c, count_list cs c)) (remdups cs))"

section \<open>Folding\<close>

type_synonym stats = "(string, student_stat) amap"

text \<open>\<open>stats.get(k)!\<close> and a write to the object it returns.\<close>

definition write_stat :: "string \<Rightarrow> (student_stat \<Rightarrow> student_stat) \<Rightarrow> stats \<Rightarrow> stats option" where
  "write_stat k f m = map_option (\<lambda>v. aput k (f v) m) (map_of m k)"

fun write_all :: "('a \<Rightarrow> student_stat \<Rightarrow> student_stat) \<Rightarrow> (string \<times> 'a) list \<Rightarrow> stats \<Rightarrow> stats option" where
  "write_all f [] m = Some m"
| "write_all f ((k, a) # rows) m = Option.bind (write_stat k (f a) m) (write_all f rows)"

definition assignments_total :: "(string \<times> nat) list \<Rightarrow> string list \<Rightarrow> nat" where
  "assignments_total perCourse cids =
     sum_list (map (\<lambda>c. case map_of perCourse c of None \<Rightarrow> 0 | Some n \<Rightarrow> n) cids)"

definition aggregate_student_stats ::
  "stats_db \<Rightarrow> (string \<times> string list) list \<Rightarrow> (string \<Rightarrow> bool) \<Rightarrow> stats option"
where
  "aggregate_student_stats d students courseWhere =
     (if students = [] then Some []
      else
        let ids = map fst students;
            stats = foldl (\<lambda>m i. aput i no_stat m) [] ids;
            held = held_count d courseWhere;
            perCourse = course_assignment_counts d courseWhere
        in
        Option.bind (write_all (\<lambda>p s. s\<lparr>st_points := p\<rparr>) (group_points d courseWhere ids) stats) (\<lambda>stats.
        Option.bind (write_all (\<lambda>n s. s\<lparr>st_interactions := st_interactions s + n\<rparr>)
          (group_count ids (chat_keys d courseWhere)) stats) (\<lambda>stats.
        Option.bind (write_all (\<lambda>n s. s\<lparr>st_interactions := st_interactions s + n\<rparr>)
          (group_count ids (answer_keys d courseWhere)) stats) (\<lambda>stats.
        Option.bind (write_all (\<lambda>n s. s\<lparr>st_attended := n\<rparr>)
          (group_count ids (attendance_keys d courseWhere)) stats) (\<lambda>stats.
        let stats = map (\<lambda>(k, s). (k, s\<lparr>st_held := held\<rparr>)) stats in
        Option.bind (write_all (\<lambda>n s. s\<lparr>st_assignmentsSubmitted := n\<rparr>)
          (group_count ids (submission_keys d courseWhere)) stats) (\<lambda>stats.
        write_all (\<lambda>cids s. s\<lparr>st_assignmentsTotal := assignments_total perCourse cids\<rparr>)
          students stats))))))"

section \<open>Lemmas\<close>

text \<open>Writing rows with distinct, known keys changes each of them once.\<close>

definition written :: "('a \<Rightarrow> student_stat \<Rightarrow> student_stat) \<Rightarrow> (string \<times> 'a) list \<Rightarrow> string \<Rightarrow> student_stat \<Rightarrow> student_stat"
where
  "written f rows k v = (case map_of rows k of None \<Rightarrow> v | Some a \<Rightarrow> f a v)"

lemma write_all_written:
  assumes "distinct (map fst rows)" "fst ` set rows \<subseteq> fst ` set m"
  shows "\<exists>m'. write_all f rows m = Some m' \<and> fst ` set m' = fst ` set m \<and>
    (\<forall>k. map_of m' k = map_option (written f rows k) (map_of m k))"
  using assms
proof (induction rows arbitrary: m)
  case Nil
  then show ?case by (simp add: written_def option.map_ident)
next
  case (Cons r rows)
  obtain k a where r: "r = (k, a)" by (cases r)
  then obtain v where v: "map_of m k = Some v" using Cons.prems(2)
    by (metis fst_conv image_insert insert_subset list.simps(15) map_of_eq_None_iff option.exhaust)
  let ?m = "aput k (f a v) m"
  have keys: "fst ` set ?m = fst ` set m"
    using aput_keys [of k "f a v" m] Cons.prems(2) r by auto
  obtain m' where m': "write_all f rows ?m = Some m'" "fst ` set m' = fst ` set ?m"
    "\<forall>j. map_of m' j = map_option (written f rows j) (map_of ?m j)"
    using Cons.IH [of ?m] Cons.prems keys by auto
  have "map_of rows k = None" using Cons.prems(1) r by (simp add: map_of_eq_None_iff)
  then have "map_of m' j = map_option (written f (r # rows) j) (map_of m j)" for j
    using m'(3) v r by (cases "map_of m j") (auto simp: amap written_def)
  then show ?case using m' keys v r by (auto simp: write_stat_def)
qed

lemma group_count_lookup:
  "map_of (group_count ids keys) k = (if k \<in> set ids \<and> k \<in> set keys then Some (count_list keys k) else None)"
  by (auto simp: group_count_def map_of_map_restrict restrict_map_def)

lemma group_count_keys: "distinct (map fst (group_count ids keys))" "fst ` set (group_count ids keys) \<subseteq> set ids"
  by (auto simp: group_count_def o_def)

lemma group_points_keys: "distinct (map fst (group_points d w ids))" "fst ` set (group_points d w ids) \<subseteq> set ids"
  by (auto simp: group_points_def o_def)

lemma no_rows_no_points:
  assumes "k \<notin> set (map le_studentId (filter (\<lambda>e. w (le_courseId e)) (sd_ledger d)))"
  shows "points_of d w k = 0"
proof -
  have "filter (\<lambda>e. le_studentId e = k \<and> w (le_courseId e)) (sd_ledger d) = []"
    using assms by (auto simp: filter_empty_conv)
  then show ?thesis by (simp add: points_of_def)
qed

lemma group_points_lookup:
  "k \<in> set ids \<Longrightarrow> (case map_of (group_points d w ids) k of None \<Rightarrow> 0 | Some p \<Rightarrow> p) = points_of d w k"
  using no_rows_no_points [of k w d]
  by (auto simp: group_points_def map_of_map_restrict restrict_map_def)

lemma fresh_stats:
  "map_of (foldl (\<lambda>m i. aput i no_stat m) m ids) k = (if k \<in> set ids then Some no_stat else map_of m k)"
  "fst ` set (foldl (\<lambda>m i. aput i no_stat m) m ids) = set ids \<union> fst ` set m"
proof -
  show "map_of (foldl (\<lambda>m i. aput i no_stat m) m ids) k = (if k \<in> set ids then Some no_stat else map_of m k)"
    by (induction ids arbitrary: m) (auto simp: amap)
  have keys: "fst ` set (aput i no_stat m) = insert i (fst ` set m)" for i m
    using aput_keys [of i no_stat m] by simp
  show "fst ` set (foldl (\<lambda>m i. aput i no_stat m) m ids) = set ids \<union> fst ` set m"
  proof (induction ids arbitrary: m)
    case (Cons i ids)
    then show ?case using keys [of i m] by simp
  qed simp
qed

lemma group_count_written:
  assumes "k \<in> set ids"
  shows "st_attended v = 0 \<Longrightarrow> written (\<lambda>n s. s\<lparr>st_attended := n\<rparr>) (group_count ids keys) k v =
      v\<lparr>st_attended := count_list keys k\<rparr>"
    "st_assignmentsSubmitted v = 0 \<Longrightarrow> written (\<lambda>n s. s\<lparr>st_assignmentsSubmitted := n\<rparr>) (group_count ids keys) k v =
      v\<lparr>st_assignmentsSubmitted := count_list keys k\<rparr>"
    "written (\<lambda>n s. s\<lparr>st_interactions := st_interactions s + n\<rparr>) (group_count ids keys) k v =
      v\<lparr>st_interactions := st_interactions v + count_list keys k\<rparr>"
  using assms by (auto simp: written_def group_count_lookup count_list_0_iff)

lemma points_written:
  assumes "k \<in> set ids" "st_points v = 0"
  shows "written (\<lambda>p s. s\<lparr>st_points := p\<rparr>) (group_points d w ids) k v = v\<lparr>st_points := points_of d w k\<rparr>"
  using group_points_lookup [OF assms(1), of d w] assms(2) by (auto simp: written_def split: option.splits)

lemma students_written:
  assumes "distinct (map fst students)" "(i, cids) \<in> set students"
  shows "written f students i v = f cids v"
  using assms by (simp add: written_def map_of_is_SomeI)

lemma per_course_total:
  "assignments_total (course_assignment_counts d w) cids =
     sum_list (map (\<lambda>c. if w c then count_list (map am_courseId (sd_assignments d)) c else 0) cids)"
proof -
  have c: "count_list (filter w cs) c = (if w c then count_list cs c else 0)" for cs and c :: string
    by (induction cs) auto
  have "(case map_of (course_assignment_counts d w) c of None \<Rightarrow> 0 | Some n \<Rightarrow> n) =
      (if w c then count_list (map am_courseId (sd_assignments d)) c else 0)" for c
    by (auto simp: course_assignment_counts_def Let_def map_of_map_restrict restrict_map_def c count_list_0_iff)
  then show ?thesis by (simp add: assignments_total_def)
qed

text \<open>What the rows say of one student.\<close>

definition stat_of_rows :: "stats_db \<Rightarrow> (string \<Rightarrow> bool) \<Rightarrow> string \<Rightarrow> string list \<Rightarrow> student_stat" where
  "stat_of_rows d w i cids =
     \<lparr>st_points = points_of d w i,
      st_interactions = count_list (chat_keys d w) i + count_list (answer_keys d w) i,
      st_attended = count_list (attendance_keys d w) i, st_held = held_count d w,
      st_assignmentsSubmitted = count_list (submission_keys d w) i,
      st_assignmentsTotal =
        sum_list (map (\<lambda>c. if w c then count_list (map am_courseId (sd_assignments d)) c else 0) cids)\<rparr>"

text \<open>A map that holds exactly the students asked about, each with a given value.\<close>

definition holds :: "stats \<Rightarrow> string list \<Rightarrow> (string \<Rightarrow> student_stat) \<Rightarrow> bool" where
  "holds m ids V \<longleftrightarrow> fst ` set m = set ids \<and> list_all (\<lambda>i. map_of m i = Some (V i)) ids"

lemma holds_fresh: "holds (foldl (\<lambda>m i. aput i no_stat m) [] ids) ids (\<lambda>_. no_stat)"
  by (simp add: holds_def fresh_stats list_all_iff)

lemma holds_held: "holds m ids V \<Longrightarrow> holds (map (\<lambda>(k, s). (k, s\<lparr>st_held := n\<rparr>)) m) ids (\<lambda>i. V i\<lparr>st_held := n\<rparr>)"
  by (force simp: holds_def list_all_iff map_of_map)

lemma holds_write:
  assumes "holds m ids V" "distinct (map fst rows)" "fst ` set rows \<subseteq> set ids"
  shows "\<exists>m'. write_all f rows m = Some m' \<and> holds m' ids (\<lambda>i. written f rows i (V i))"
  using write_all_written [of rows m f] assms by (auto simp: holds_def list_all_iff)

lemmas holds_count = holds_write [OF _ group_count_keys]
lemmas holds_points = holds_write [OF _ group_points_keys]

section \<open>Properties\<close>

text \<open>the aggregated figures are the figures of the rows. The fold over the grouped queries always
  returns a map, its keys are the students asked about, and each of them gets the points, the
  interactions, the attendance and the assignment counts of its own rows in the selected courses.
\<close>

theorem stats_are_the_rows:
  assumes "distinct (map fst students)"
  shows "\<exists>m. aggregate_student_stats d students w = Some m \<and> set (akeys m) = fst ` set students \<and>
    (\<forall>(i, cids) \<in> set students. map_of m i = Some (stat_of_rows d w i cids))"
proof (cases "students = []")
  case True
  then show ?thesis by (simp add: aggregate_student_stats_def)
next
  case False
  let ?ids = "map fst students" and ?add = "\<lambda>n s. s\<lparr>st_interactions := st_interactions s + n\<rparr>"
  let ?tot = "\<lambda>cids s. s\<lparr>st_assignmentsTotal := assignments_total (course_assignment_counts d w) cids\<rparr>"
  let ?V1 = "\<lambda>i. written (\<lambda>p s. s\<lparr>st_points := p\<rparr>) (group_points d w ?ids) i no_stat"
  let ?V2 = "\<lambda>i. written ?add (group_count ?ids (chat_keys d w)) i (?V1 i)"
  let ?V3 = "\<lambda>i. written ?add (group_count ?ids (answer_keys d w)) i (?V2 i)"
  let ?V4 = "\<lambda>i. written (\<lambda>n s. s\<lparr>st_attended := n\<rparr>) (group_count ?ids (attendance_keys d w)) i (?V3 i)"
  let ?V6 = "\<lambda>i. written (\<lambda>n s. s\<lparr>st_assignmentsSubmitted := n\<rparr>) (group_count ?ids (submission_keys d w)) i
    (?V4 i\<lparr>st_held := held_count d w\<rparr>)"
  obtain m1 where m1: "write_all (\<lambda>p s. s\<lparr>st_points := p\<rparr>) (group_points d w ?ids)
      (foldl (\<lambda>m i. aput i no_stat m) [] ?ids) = Some m1" "holds m1 ?ids ?V1"
    using holds_points [OF holds_fresh] by blast
  obtain m2 where m2: "write_all ?add (group_count ?ids (chat_keys d w)) m1 = Some m2" "holds m2 ?ids ?V2"
    using holds_count [OF m1(2)] by blast
  obtain m3 where m3: "write_all ?add (group_count ?ids (answer_keys d w)) m2 = Some m3" "holds m3 ?ids ?V3"
    using holds_count [OF m2(2)] by blast
  obtain m4 where m4: "write_all (\<lambda>n s. s\<lparr>st_attended := n\<rparr>) (group_count ?ids (attendance_keys d w)) m3 = Some m4"
    "holds m4 ?ids ?V4"
    using holds_count [OF m3(2)] by blast
  obtain m6 where m6: "write_all (\<lambda>n s. s\<lparr>st_assignmentsSubmitted := n\<rparr>) (group_count ?ids (submission_keys d w))
      (map (\<lambda>(k, s). (k, s\<lparr>st_held := held_count d w\<rparr>)) m4) = Some m6" "holds m6 ?ids ?V6"
    using holds_count [OF holds_held [OF m4(2)]] by blast
  obtain m7 where m7: "write_all ?tot students m6 = Some m7" "holds m7 ?ids (\<lambda>i. written ?tot students i (?V6 i))"
    using holds_write [OF m6(2) assms] by auto
  have "aggregate_student_stats d students w = Some m7"
    using False by (simp add: aggregate_student_stats_def Let_def m1(1) m2(1) m3(1) m4(1) m6(1) m7(1) del: foldl_map)
  moreover have "map_of m7 i = Some (stat_of_rows d w i cids)" if "(i, cids) \<in> set students" for i cids
  proof -
    have i: "i \<in> set ?ids" using that by force
    have "map_of m7 i = Some (written ?tot students i (?V6 i))"
      using m7(2) i unfolding holds_def list_all_iff by blast
    then show ?thesis
      by (simp add: students_written [OF assms that] group_count_written [OF i]
          points_written [OF i] per_course_total stat_of_rows_def no_stat_def)
  qed
  ultimately show ?thesis using m7(2) by (auto simp: holds_def)
qed

definition demo_stats :: stats_db where
  "demo_stats = \<lparr>sd_db = empty_db\<lparr>
       db_sessions := [\<lparr>ls_id = ''s1'', ls_courseId = ''c1'', ls_status = ENDED, ls_livekitRoom = ''r''\<rparr>],
       db_chat := [\<lparr>cm_id = ''m1'', cm_sessionId = ''s1'', cm_userId = ''u1'', cm_body = ''hi'',
         cm_audioUrl = None, cm_createdAt = 1\<rparr>]\<rparr>,
     sd_ledger = [\<lparr>le_studentId = ''u1'', le_courseId = ''c1'', le_delta = 10, le_reason = QUIZ_CORRECT,
       le_refId = None\<rparr>],
     sd_attendance = [\<lparr>at_sessionId = ''s1'', at_studentId = ''u1''\<rparr>],
     sd_assignments = [\<lparr>am_id = ''a1'', am_courseId = ''c1''\<rparr>, \<lparr>am_id = ''a2'', am_courseId = ''c2''\<rparr>],
     sd_submissions = [\<lparr>sb_assignmentId = ''a1'', sb_studentId = ''u1''\<rparr>]\<rparr>"

theorem stats_are_the_rows_witness:
  "\<exists>m. aggregate_student_stats demo_stats [(''u1'', [''c1'', ''c2'']), (''u2'', [])] (\<lambda>c. c = ''c1'') = Some m \<and>
     map_of m ''u1'' = Some \<lparr>st_points = 10, st_interactions = 1, st_attended = 1, st_held = 1,
       st_assignmentsSubmitted = 1, st_assignmentsTotal = 1\<rparr>"
proof -
  have "stat_of_rows demo_stats (\<lambda>c. c = ''c1'') ''u1'' [''c1'', ''c2''] =
      \<lparr>st_points = 10, st_interactions = 1, st_attended = 1, st_held = 1,
       st_assignmentsSubmitted = 1, st_assignmentsTotal = 1\<rparr>"
    by (simp add: stat_of_rows_def demo_stats_def empty_db_def points_of_def chat_keys_def answer_keys_def
        attendance_keys_def submission_keys_def held_count_def session_in_def find_session_def assignment_in_def)
  then show ?thesis
    using stats_are_the_rows [of "[(''u1'', [''c1'', ''c2'']), (''u2'', [])]" demo_stats "\<lambda>c. c = ''c1''"]
    by auto
qed

end
