(* ===== verification/Recordings.thy ===== *)
theory Recordings
  imports RoomState Database
begin

text \<open>
  The recordings of live classes: \<open>src/recordings/recordings.service.ts\<close>,
  \<open>src/recordings/recordings-reconciler.service.ts\<close>,
  \<open>src/recordings/recorder-token.service.ts\<close> and the webhook's reading of LiveKit's report
  (\<open>src/recordings/livekit-webhook.controller.ts\<close>,
  \<open>describe\<close> in \<open>src/recordings/recording-egress.service.ts\<close>). LiveKit and the bucket are
  outside: what a call to them returns is an argument, an error as \<open>Inl\<close>. Starting is cut in three
  where it waits: the checks, the row, and LiveKit's answer.
\<close>

section \<open>Rows\<close>

datatype recording_status = STARTING | RECORDING | PROCESSING | READY | FAILED

record recording_row =
  rg_id :: string
  rg_sessionId :: string
  rg_courseId :: string
  rg_organizationId :: string
  rg_startedById :: string
  rg_status :: recording_status
  rg_egressId :: "string option"
  rg_storageKey :: "string option"
  rg_sizeBytes :: "int option"
  rg_durationSec :: "int option"
  rg_error :: "string option"
  rg_shareToken :: "string option"
  rg_shareExpiresAt :: "int option"
  rg_createdAt :: int
  rg_readyAt :: "int option"

record rec_org =
  og_id :: string
  og_name :: string
  og_storageQuotaBytes :: "int option"
  og_recordingRetentionDays :: "int option"
  og_maxRecordingMinutes :: "int option"
  og_recordingQuality :: "string option"

text \<open>The tables, the events sent to rooms (session and whether it records), and the keys the
  bucket was asked to delete, in order.\<close>

record rec_state =
  rv_db :: db
  rv_orgs :: "rec_org list"
  rv_rows :: "recording_row list"
  rv_sent :: "(string \<times> bool) list"
  rv_purged :: "string list"

definition find_rec_org :: "rec_state \<Rightarrow> string \<Rightarrow> rec_org option" where
  "find_rec_org s i = find (\<lambda>g. og_id g = i) (rv_orgs s)"

definition rec_with_id :: "rec_state \<Rightarrow> string \<Rightarrow> recording_row option" where
  "rec_with_id s i = find (\<lambda>r. rg_id r = i) (rv_rows s)"

text \<open>\<open>update\<close> by id: \<open>Inl\<close> when the row is gone, or when the change repeats an egress id or a
  share token, which are unique columns.\<close>

definition clashes :: "recording_row list \<Rightarrow> recording_row \<Rightarrow> bool" where
  "clashes rows r \<longleftrightarrow>
     list_ex (\<lambda>x. rg_id x \<noteq> rg_id r \<and>
       (rg_egressId r \<noteq> None \<and> rg_egressId x = rg_egressId r \<or>
        rg_shareToken r \<noteq> None \<and> rg_shareToken x = rg_shareToken r)) rows"

definition update_rec :: "string \<Rightarrow> (recording_row \<Rightarrow> recording_row) \<Rightarrow> rec_state \<Rightarrow> http_error + rec_state" where
  "update_rec i f s =
     (case rec_with_id s i of
        None \<Rightarrow> Inl (Internal ''P2025'')
      | Some r \<Rightarrow>
          if clashes (rv_rows s) (f r) then Inl (Internal ''P2002'')
          else Inr (s\<lparr>rv_rows := map (\<lambda>x. if rg_id x = i then f x else x) (rv_rows s)\<rparr>))"

definition running :: "recording_status \<Rightarrow> bool" where
  "running st \<longleftrightarrow> st = STARTING \<or> st = RECORDING"

definition rec_emit :: "string \<Rightarrow> bool \<Rightarrow> rec_state \<Rightarrow> rec_state" where
  "rec_emit sid b s = s\<lparr>rv_sent := rv_sent s @ [(sid, b)]\<rparr>"

section \<open>Where LiveKit can reach the app\<close>

type_synonym config = "string \<Rightarrow> string option"

text \<open>\<open>||\<close> on configuration values: an empty one is passed over.\<close>

definition conf_or :: "config \<Rightarrow> string list \<Rightarrow> string option" where
  "conf_or c ks = List.find (\<lambda>v. v \<noteq> []) (List.map_filter c ks)"

definition strip_slashes :: "string \<Rightarrow> string" where
  "strip_slashes s = rev (dropWhile (\<lambda>c. c = CHR ''/'') (rev s))"

fun has_sub :: "string \<Rightarrow> string \<Rightarrow> bool" where
  "has_sub p [] \<longleftrightarrow> p = []"
| "has_sub p (c # s) \<longleftrightarrow> take (length p) (c # s) = p \<or> has_sub p s"

fun replace_first :: "string \<Rightarrow> string \<Rightarrow> string \<Rightarrow> string" where
  "replace_first p r [] = (if p = [] then r else [])"
| "replace_first p r (c # s) =
     (if take (length p) (c # s) = p then r @ drop (length p) (c # s) else c # replace_first p r s)"

datatype url_key = WEB_URL | API_PUBLIC_URL

definition key_name :: "url_key \<Rightarrow> string" where
  "key_name k = (case k of WEB_URL \<Rightarrow> ''WEB_URL'' | API_PUBLIC_URL \<Rightarrow> ''API_PUBLIC_URL'')"

definition falsy :: "string option \<Rightarrow> bool" where
  "falsy x \<longleftrightarrow> x = None \<or> x = Some []"

definition configured_url :: "config \<Rightarrow> url_key \<Rightarrow> string option" where
  "configured_url c k =
     (let raw = map_option strip_slashes (c (key_name k)) in
      if \<not> falsy raw then raw
      else
        (case k of
           API_PUBLIC_URL \<Rightarrow>
             Some (strip_slashes
               (case conf_or c [''API_PUBLIC_URL'', ''API_URL'', ''NEXT_PUBLIC_API_URL''] of
                  Some u \<Rightarrow> u
                | None \<Rightarrow>
                    (case conf_or c [''API_DOMAIN''] of
                       Some dm \<Rightarrow> ''https://'' @ dm
                     | None \<Rightarrow> ''https://api.livetich.com'')))
         | WEB_URL \<Rightarrow>
             Some (strip_slashes
               (case conf_or c [''WEB_ORIGIN''] of
                  Some u \<Rightarrow> u
                | None \<Rightarrow>
                    (case conf_or c [''APP_DOMAIN''] of
                       Some dm \<Rightarrow> ''https://'' @ dm
                     | None \<Rightarrow> ''https://livetich.com'')))))"

definition normalized_url :: "url_key \<Rightarrow> string \<Rightarrow> string" where
  "normalized_url k raw =
     (let r1 = (if k = WEB_URL \<and> has_sub ''app.livetich.com'' raw
                then replace_first ''app.livetich.com'' ''livetich.com'' raw else raw);
          r2 = (if k = API_PUBLIC_URL \<and> has_sub ''app.livetich.com'' r1
                then replace_first ''app.livetich.com'' ''api.livetich.com'' r1 else r1)
      in if has_sub ''livetich.nekan.dev'' r2
         then (if k = API_PUBLIC_URL then ''https://api.livetich.com'' else ''https://livetich.com'')
         else r2)"

text \<open>\<open>/^https?:\/\/(localhost|127\.0\.0\.1|\[::1\])(:\d+)?$/i\<close>\<close>

definition lower :: "string \<Rightarrow> string" where
  "lower s = map (\<lambda>c. if 65 \<le> (of_char c :: nat) \<and> (of_char c :: nat) \<le> 90 then char_of ((of_char c :: nat) + 32) else c) s"

definition port_suffix :: "string \<Rightarrow> bool" where
  "port_suffix s \<longleftrightarrow>
     (case s of [] \<Rightarrow> True
      | c # ds \<Rightarrow> c = CHR '':'' \<and> ds \<noteq> [] \<and> list_all (\<lambda>d. d \<in> set ''0123456789'') ds)"

definition is_local_url :: "string \<Rightarrow> bool" where
  "is_local_url raw \<longleftrightarrow>
     list_ex (\<lambda>p. take (length p) (lower raw) = p \<and> port_suffix (drop (length p) (lower raw)))
       [''http://localhost'', ''https://localhost'', ''http://127.0.0.1'', ''https://127.0.0.1'',
        ''http://[::1]'', ''https://[::1]'']"

text \<open>The probe: the HTTP status of the answer, \<open>None\<close> when the request failed or timed out.\<close>

definition public_url :: "config \<Rightarrow> (string \<Rightarrow> nat option) \<Rightarrow> url_key \<Rightarrow> string option" where
  "public_url c probe k =
     (let conf = configured_url c k;
          conf' = (if falsy conf then conf else map_option (normalized_url k) conf)
      in case conf' of
           None \<Rightarrow> None
         | Some raw \<Rightarrow>
             if raw = [] then None
             else if is_local_url raw then None
             else (case probe raw of
                     Some status \<Rightarrow> if status \<ge> 500 then None else Some raw
                   | None \<Rightarrow>
                       if take 8 raw = ''https://'' \<and> \<not> has_sub ''localhost'' (lower raw)
                          \<and> \<not> has_sub ''127.0.0.1'' raw
                       then Some raw else None))"

definition camera_only_allowed :: "config \<Rightarrow> bool" where
  "camera_only_allowed c \<longleftrightarrow>
     lower (trim (case c ''RECORDING_ALLOW_CAMERA_ONLY'' of None \<Rightarrow> [] | Some v \<Rightarrow> v)) = ''true''"

section \<open>Staff operations\<close>

definition assert_staff :: "jwt_payload \<Rightarrow> string result" where
  "assert_staff user =
     (if jwt_role user \<noteq> INSTRUCTOR \<and> jwt_role user \<noteq> ORG_ADMIN
      then Inl (Forbidden ''Only staff can manage recordings'')
      else case jwt_organizationId user of
        None \<Rightarrow> Inl (Forbidden ''No active workspace'')
      | Some oid \<Rightarrow> if oid = [] then Inl (Forbidden ''No active workspace'') else Inr oid)"

record rec_usage =
  us_usedBytes :: int
  us_quotaBytes :: "int option"
  us_nearLimit :: bool
  us_full :: bool

definition bytes_of :: "recording_row list \<Rightarrow> int" where
  "bytes_of rows = sum_list (List.map_filter rg_sizeBytes rows)"

text \<open>\<open>QUOTA_WARNING_RATIO\<close> is 0.85, taken exactly.\<close>

definition rec_usage_of :: "rec_state \<Rightarrow> string \<Rightarrow> rec_usage" where
  "rec_usage_of s orgId =
     (let used = bytes_of (filter (\<lambda>r. rg_organizationId r = orgId) (rv_rows s));
          quota = Option.bind (find_rec_org s orgId) og_storageQuotaBytes
      in \<lparr>us_usedBytes = used, us_quotaBytes = quota,
          us_nearLimit = (case quota of None \<Rightarrow> False | Some q \<Rightarrow> 100 * used \<ge> 85 * q),
          us_full = (case quota of None \<Rightarrow> False | Some q \<Rightarrow> used \<ge> q)\<rparr>)"

text \<open>The checks of \<open>start\<close>. \<open>reach\<close> holds the reachable bases of the web app and the API, and
  \<open>publisher\<close> LiveKit's answer to whether anybody publishes in the room.\<close>

definition start_checks ::
  "rec_state \<Rightarrow> jwt_payload \<Rightarrow> string \<Rightarrow> string option \<times> string option \<Rightarrow> bool \<Rightarrow> http_error + bool
    \<Rightarrow> (string \<times> session_row \<times> bool) result"
where
  "start_checks s user sessionId reach cameraOnly publisher =
     rbind (assert_staff user) (\<lambda>organizationId.
     rbind (from_option (NotFound ''Session not found'') (session_course (rv_db s) sessionId)) (\<lambda>(session, course).
     rbind (guard_or (co_organizationId course = Some organizationId)
       (Forbidden ''That class belongs to another workspace'')) (\<lambda>_.
     rbind (guard_or (ls_status session = LIVE) (BadRequest ''The class is not live'')) (\<lambda>_.
     rbind (guard_or (\<not> list_ex (\<lambda>r. rg_sessionId r = sessionId \<and> running (rg_status r)) (rv_rows s))
       (BadRequest ''This class is already recording'')) (\<lambda>_.
     let films_page = (fst reach \<noteq> None \<and> snd reach \<noteq> None) in
     rbind (guard_or (films_page \<or> cameraOnly) (BadRequest ''Recording the class needs public URLs'')) (\<lambda>_.
     rbind (if films_page then Inr True else publisher) (\<lambda>publishes.
     rbind (guard_or publishes (BadRequest ''there is nothing to record yet'')) (\<lambda>_.
     rbind (guard_or (\<not> us_full (rec_usage_of s organizationId))
       (BadRequest ''This workspace has used all of its recording storage'')) (\<lambda>_.
     Inr (organizationId, session, films_page))))))))))"

definition new_recording :: "string \<Rightarrow> int \<Rightarrow> string \<Rightarrow> session_row \<Rightarrow> string \<Rightarrow> recording_row" where
  "new_recording i now organizationId session uid =
     \<lparr>rg_id = i, rg_sessionId = ls_id session, rg_courseId = ls_courseId session,
      rg_organizationId = organizationId, rg_startedById = uid, rg_status = STARTING,
      rg_egressId = None, rg_storageKey = None, rg_sizeBytes = None, rg_durationSec = None,
      rg_error = None, rg_shareToken = None, rg_shareExpiresAt = None, rg_createdAt = now,
      rg_readyAt = None\<rparr>"

definition start_create :: "string \<Rightarrow> int \<Rightarrow> string \<Rightarrow> session_row \<Rightarrow> string \<Rightarrow> rec_state \<Rightarrow> rec_state" where
  "start_create i now organizationId session uid s =
     s\<lparr>rv_rows := rv_rows s @ [new_recording i now organizationId session uid]\<rparr>"

definition storage_key :: "string \<Rightarrow> string \<Rightarrow> string" where
  "storage_key organizationId recordingId = ''recordings/'' @ organizationId @ ''/'' @ recordingId @ ''.mp4''"

definition legacy_manifest_key :: "string \<Rightarrow> string \<Rightarrow> string" where
  "legacy_manifest_key organizationId egressId = ''recordings/'' @ organizationId @ ''/'' @ egressId @ ''.json''"

text \<open>The rest of \<open>start\<close>: what minting the token and starting the egress gave, an error message or
  the egress id. An error of the update itself is caught in the same way.\<close>

definition start_finish :: "rec_state \<Rightarrow> string \<Rightarrow> string \<Rightarrow> string \<Rightarrow> string + string \<Rightarrow> rec_state \<times> unit result" where
  "start_finish s i organizationId sessionId egress =
     (let failed = (\<lambda>msg. case update_rec i (\<lambda>r. r\<lparr>rg_status := FAILED, rg_error := Some msg\<rparr>) s of
                      Inl e \<Rightarrow> (s, Inl e) | Inr s' \<Rightarrow> (s', Inl (Internal msg)))
      in case egress of
           Inl msg \<Rightarrow> failed msg
         | Inr egressId \<Rightarrow>
             (case update_rec i (\<lambda>r. r\<lparr>rg_egressId := Some egressId,
                     rg_storageKey := Some (storage_key organizationId i), rg_status := RECORDING\<rparr>) s of
                Inl e \<Rightarrow> failed ''could not update''
              | Inr s' \<Rightarrow> (rec_emit sessionId True s', Inr ())))"

definition start_recording ::
  "rec_state \<Rightarrow> jwt_payload \<Rightarrow> string \<Rightarrow> string option \<times> string option \<Rightarrow> bool \<Rightarrow> http_error + bool
    \<Rightarrow> string \<Rightarrow> int \<Rightarrow> string + string \<Rightarrow> rec_state \<times> unit result"
where
  "start_recording s user sessionId reach cameraOnly publisher i now egress =
     (case start_checks s user sessionId reach cameraOnly publisher of
        Inl e \<Rightarrow> (s, Inl e)
      | Inr (organizationId, session, _) \<Rightarrow>
          start_finish (start_create i now organizationId session (jwt_sub user) s) i organizationId
            (ls_id session) egress)"

text \<open>\<open>stopped\<close> is LiveKit's answer to the stop request.\<close>

definition stop_recording :: "rec_state \<Rightarrow> jwt_payload \<Rightarrow> string \<Rightarrow> http_error + unit \<Rightarrow> rec_state \<times> unit result" where
  "stop_recording s user sessionId stopped =
     (case assert_staff user of
        Inl e \<Rightarrow> (s, Inl e)
      | Inr organizationId \<Rightarrow>
          (case find (\<lambda>r. rg_sessionId r = sessionId \<and> rg_organizationId r = organizationId
                \<and> running (rg_status r)) (rv_rows s) of
             None \<Rightarrow> (s, Inl (NotFound ''Nothing is recording''))
           | Some r \<Rightarrow>
               (case (if falsy (rg_egressId r) then Inr () else stopped) of
                  Inl e \<Rightarrow> (s, Inl e)
                | Inr _ \<Rightarrow>
                    (case update_rec (rg_id r) (\<lambda>x. x\<lparr>rg_status := PROCESSING\<rparr>) s of
                       Inl e \<Rightarrow> (s, Inl e)
                     | Inr s' \<Rightarrow> (rec_emit sessionId False s', Inr ())))))"

definition own_recording :: "rec_state \<Rightarrow> string \<Rightarrow> string \<Rightarrow> recording_row option" where
  "own_recording s organizationId i =
     find (\<lambda>r. rg_id r = i \<and> rg_organizationId r = organizationId) (rv_rows s)"

text \<open>The status card: LiveKit configured, the microphone (\<open>None\<close> when LiveKit could not say), and
  the newest recording.\<close>

record status_card =
  st_available :: bool
  st_micLive :: bool
  st_recording :: "recording_row option"
  st_last :: "recording_row option"

definition status_for :: "rec_state \<Rightarrow> jwt_payload \<Rightarrow> string \<Rightarrow> bool \<Rightarrow> bool option \<Rightarrow> status_card result" where
  "status_for s user sessionId configured mic =
     rbind (assert_staff user) (\<lambda>organizationId.
       let newest = (case sort_key (\<lambda>r. - rg_createdAt r)
              (filter (\<lambda>r. rg_sessionId r = sessionId \<and> rg_organizationId r = organizationId) (rv_rows s)) of
              [] \<Rightarrow> None | r # _ \<Rightarrow> Some r);
           asks = (configured \<and> find_session (rv_db s) sessionId \<noteq> None)
       in Inr \<lparr>st_available = configured,
               st_micLive = (if asks then (case mic of None \<Rightarrow> True | Some b \<Rightarrow> b) else True),
               st_recording = (case newest of None \<Rightarrow> None
                 | Some r \<Rightarrow> if running (rg_status r) then Some r else None),
               st_last = newest\<rparr>)"

definition list_recordings :: "rec_state \<Rightarrow> jwt_payload \<Rightarrow> (rec_usage \<times> recording_row list) result" where
  "list_recordings s user =
     rbind (assert_staff user) (\<lambda>organizationId.
       Inr (rec_usage_of s organizationId,
            sort_key (\<lambda>r. - rg_createdAt r) (filter (\<lambda>r. rg_organizationId r = organizationId) (rv_rows s))))"

text \<open>A signed address: the key, its life in seconds and the file name of a download.\<close>

type_synonym signed = "string \<times> int \<times> string option"

definition playback_url :: "rec_state \<Rightarrow> jwt_payload \<Rightarrow> string \<Rightarrow> signed result" where
  "playback_url s user i =
     rbind (assert_staff user) (\<lambda>organizationId.
       case own_recording s organizationId i of
         None \<Rightarrow> Inl (NotFound ''That recording is not ready'')
       | Some r \<Rightarrow>
           if falsy (rg_storageKey r) \<or> rg_status r \<noteq> READY
           then Inl (NotFound ''That recording is not ready'')
           else Inr (the (rg_storageKey r), 3600, None))"

definition forbidden_in_names :: "char list" where
  "forbidden_in_names = [CHR ''/'', CHR 0x5C, CHR ''?'', CHR ''%'', CHR ''*'', CHR '':'', CHR ''|'', CHR 0x22, CHR ''<'', CHR ''>'']"

definition download_name :: "string \<Rightarrow> string \<Rightarrow> string" where
  "download_name title date =
     map (\<lambda>c. if c \<in> set forbidden_in_names then CHR ''-'' else c) (title @ '' '' @ date @ ''.mp4'')"

text \<open>\<open>toISOString().slice(0, 10)\<close> of the creation date is an argument.\<close>

definition download_url :: "rec_state \<Rightarrow> jwt_payload \<Rightarrow> string \<Rightarrow> (string \<Rightarrow> string) \<Rightarrow> (int \<Rightarrow> string) \<Rightarrow> signed result" where
  "download_url s user i courseTitle isoDate =
     rbind (assert_staff user) (\<lambda>organizationId.
       case own_recording s organizationId i of
         None \<Rightarrow> Inl (NotFound ''That recording is not ready'')
       | Some r \<Rightarrow>
           if falsy (rg_storageKey r) \<or> rg_status r \<noteq> READY
           then Inl (NotFound ''That recording is not ready'')
           else Inr (the (rg_storageKey r), 3600,
                     Some (download_name (courseTitle (rg_courseId r)) (isoDate (rg_createdAt r)))))"

definition share :: "rec_state \<Rightarrow> jwt_payload \<Rightarrow> string \<Rightarrow> int option \<Rightarrow> string \<Rightarrow> int \<Rightarrow> rec_state \<times> unit result" where
  "share s user i expiresInDays token now =
     (case assert_staff user of
        Inl e \<Rightarrow> (s, Inl e)
      | Inr organizationId \<Rightarrow>
          (case own_recording s organizationId i of
             None \<Rightarrow> (s, Inl (NotFound ''Recording not found''))
           | Some r \<Rightarrow>
               if rg_status r \<noteq> READY then (s, Inl (BadRequest ''That recording is not ready to share''))
               else (case update_rec i (\<lambda>x. x\<lparr>rg_shareToken := Some token,
                         rg_shareExpiresAt := map_option (\<lambda>d. now + d * 24 * 60 * 60 * 1000) expiresInDays\<rparr>) s of
                       Inl e \<Rightarrow> (s, Inl e) | Inr s' \<Rightarrow> (s', Inr ()))))"

definition unshare :: "rec_state \<Rightarrow> jwt_payload \<Rightarrow> string \<Rightarrow> rec_state \<times> unit result" where
  "unshare s user i =
     (case assert_staff user of
        Inl e \<Rightarrow> (s, Inl e)
      | Inr organizationId \<Rightarrow>
          if own_recording s organizationId i = None then (s, Inl (NotFound ''Recording not found''))
          else (s\<lparr>rv_rows := map (\<lambda>r. if rg_id r = i \<and> rg_organizationId r = organizationId
                   then r\<lparr>rg_shareToken := None, rg_shareExpiresAt := None\<rparr> else r) (rv_rows s)\<rparr>, Inr ()))"

text \<open>What somebody without an account gets: the recording's id, the key and the life of its address.\<close>

definition by_shared_token :: "rec_state \<Rightarrow> string \<Rightarrow> int \<Rightarrow> (recording_row \<times> string \<times> int) result" where
  "by_shared_token s token now =
     (case find (\<lambda>r. rg_shareToken r = Some token) (rv_rows s) of
        None \<Rightarrow> Inl (NotFound ''That link is not valid'')
      | Some r \<Rightarrow>
          if rg_status r \<noteq> READY \<or> falsy (rg_storageKey r) then Inl (NotFound ''That link is not valid'')
          else if (case rg_shareExpiresAt r of None \<Rightarrow> False | Some t \<Rightarrow> t < now)
          then Inl (NotFound ''That link has expired'')
          else Inr (r, the (rg_storageKey r), 21600))"

section \<open>Deletion and retention\<close>

definition purge :: "recording_row \<Rightarrow> rec_state \<Rightarrow> rec_state" where
  "purge r s = s\<lparr>rv_purged := rv_purged s @
     (case rg_storageKey r of None \<Rightarrow> [] | Some k \<Rightarrow> if k = [] then [] else [k]) @
     (case rg_egressId r of None \<Rightarrow> []
      | Some e \<Rightarrow> if e = [] then [] else [legacy_manifest_key (rg_organizationId r) e])\<rparr>"

definition drop_rec :: "string \<Rightarrow> rec_state \<Rightarrow> rec_state" where
  "drop_rec i s = s\<lparr>rv_rows := filter (\<lambda>r. rg_id r \<noteq> i) (rv_rows s)\<rparr>"

definition remove_recording :: "rec_state \<Rightarrow> jwt_payload \<Rightarrow> string \<Rightarrow> rec_state \<times> unit result" where
  "remove_recording s user i =
     (case assert_staff user of
        Inl e \<Rightarrow> (s, Inl e)
      | Inr organizationId \<Rightarrow>
          (case own_recording s organizationId i of
             None \<Rightarrow> (s, Inl (NotFound ''Recording not found''))
           | Some r \<Rightarrow>
               if running (rg_status r) then (s, Inl (BadRequest ''Stop the recording before deleting it''))
               else (drop_rec i (purge r s), Inr ())))"

definition expired :: "int \<Rightarrow> rec_org \<Rightarrow> int \<Rightarrow> recording_row \<Rightarrow> bool" where
  "expired now g days r \<longleftrightarrow>
     rg_organizationId r = og_id g \<and> rg_createdAt r < now - days * 24 * 60 * 60 * 1000 \<and>
     \<not> running (rg_status r)"

text \<open>One workspace of the sweep, with the count so far; once the limit is reached the loop is left.\<close>

definition sweep_org :: "int \<Rightarrow> int \<Rightarrow> rec_state \<times> int \<times> bool \<Rightarrow> rec_org \<Rightarrow> rec_state \<times> int \<times> bool" where
  "sweep_org now limit acc g =
     (case acc of (s, deleted, left) \<Rightarrow>
        if left then acc
        else (case og_recordingRetentionDays g of
                None \<Rightarrow> acc
              | Some days \<Rightarrow>
                  if days \<le> 0 then acc
                  else
                    let old = take (nat (max 1 (limit - deleted))) (filter (expired now g days) (rv_rows s));
                        s' = foldl (\<lambda>s r. drop_rec (rg_id r) (purge r s)) s old;
                        deleted' = deleted + int (length old)
                    in (s', deleted', deleted' \<ge> limit)))"

definition sweep_expired_recordings :: "rec_state \<Rightarrow> int \<Rightarrow> int \<Rightarrow> rec_state \<times> int" where
  "sweep_expired_recordings s now limit =
     (case foldl (sweep_org now limit) (s, 0, False) (rv_orgs s) of (s', deleted, _) \<Rightarrow> (s', deleted))"

section \<open>LiveKit's report\<close>

datatype egress_status =
    EGRESS_STARTING | EGRESS_ACTIVE | EGRESS_ENDING | EGRESS_COMPLETE | EGRESS_FAILED
  | EGRESS_ABORTED | EGRESS_LIMIT_REACHED

record egress_info =
  ei_egressId :: string
  ei_status :: egress_status
  ei_size :: "int option"
  ei_duration :: "int option"
  ei_startedAt :: int
  ei_endedAt :: int
  ei_error :: string

definition egress_finished :: "egress_status \<Rightarrow> bool" where
  "egress_finished st \<longleftrightarrow>
     st = EGRESS_COMPLETE \<or> st = EGRESS_FAILED \<or> st = EGRESS_ABORTED \<or> st = EGRESS_LIMIT_REACHED"

text \<open>\<open>Math.round(ns / 1e9)\<close>\<close>

definition seconds :: "int \<Rightarrow> int" where
  "seconds ns = (ns + 500000000) div 1000000000"

record egress_result =
  er_egressId :: string
  er_complete :: bool
  er_sizeBytes :: "int option"
  er_durationSec :: "int option"
  er_error :: "string option"

definition describe :: "egress_info \<Rightarrow> bool \<times> egress_result" where
  "describe info =
     (egress_finished (ei_status info),
      \<lparr>er_egressId = ei_egressId info, er_complete = (ei_status info = EGRESS_COMPLETE),
       er_sizeBytes = ei_size info,
       er_durationSec =
         (case ei_duration info of
            Some d \<Rightarrow> Some (seconds d)
          | None \<Rightarrow> if ei_startedAt info \<noteq> 0 \<and> ei_endedAt info \<noteq> 0
                    then Some (seconds (ei_endedAt info - ei_startedAt info)) else None),
       er_error =
         (if ei_error info \<noteq> [] then Some (ei_error info)
          else if ei_status info = EGRESS_ABORTED then Some ''LiveKit aborted the recording'' else None)\<rparr>)"

text \<open>\<open>bucket\<close> is what asking the bucket for an object's size answers.\<close>

definition apply_egress_result ::
  "(string \<Rightarrow> int option) \<Rightarrow> int \<Rightarrow> egress_result \<Rightarrow> rec_state \<Rightarrow> http_error + rec_state"
where
  "apply_egress_result bucket now e s =
     (case find (\<lambda>r. rg_egressId r = Some (er_egressId e)) (rv_rows s) of
        None \<Rightarrow> Inr s
      | Some r \<Rightarrow>
          if \<not> er_complete e
          then update_rec (rg_id r) (\<lambda>x. x\<lparr>rg_status := FAILED, rg_error := Some (case er_error e of
                 Some m \<Rightarrow> m | None \<Rightarrow> ''LiveKit reported the recording failed'')\<rparr>) s
          else
            let size = (case er_sizeBytes e of
                          Some n \<Rightarrow> Some n
                        | None \<Rightarrow> if falsy (rg_storageKey r) then None else bucket (the (rg_storageKey r)))
            in update_rec (rg_id r) (\<lambda>x. x\<lparr>rg_status := READY, rg_readyAt := Some now, rg_sizeBytes := size,
                 rg_durationSec := er_durationSec e, rg_error := None\<rparr>) s)"

text \<open>The webhook, its signature verified: only the end or an update of an egress is looked at, and
  only when it is over.\<close>

definition webhook ::
  "(string \<Rightarrow> int option) \<Rightarrow> int \<Rightarrow> string \<Rightarrow> egress_info option \<Rightarrow> rec_state \<Rightarrow> http_error + rec_state"
where
  "webhook bucket now event info s =
     (if event \<noteq> ''egress_ended'' \<and> event \<noteq> ''egress_updated'' then Inr s
      else case info of
        None \<Rightarrow> Inr s
      | Some i \<Rightarrow>
          if ei_egressId i = [] \<or> \<not> egress_finished (ei_status i) then Inr s
          else apply_egress_result bucket now
                 \<lparr>er_egressId = ei_egressId i, er_complete = (ei_status i = EGRESS_COMPLETE),
                  er_sizeBytes = ei_size i, er_durationSec = map_option seconds (ei_duration i),
                  er_error = (if ei_error i = [] then None else Some (ei_error i))\<rparr> s)"

section \<open>The reconciler\<close>

definition settle_ms :: int where "settle_ms = 60000"

definition abandon_ms :: int where "abandon_ms = 6 * 60 * 60 * 1000"

text \<open>What LiveKit answers in one tick: to stopping an egress (whether it accepted) and to listing one
  (\<open>Inl\<close>: the call failed; \<open>Inr None\<close>: LiveKit does not know it).\<close>

record livekit =
  lk_stop :: "string \<Rightarrow> bool"
  lk_list :: "string \<Rightarrow> unit + egress_info option"

text \<open>An error inside the loops is logged and the row left for the next tick.\<close>

definition keep_going :: "rec_state \<Rightarrow> http_error + rec_state \<Rightarrow> rec_state" where
  "keep_going s r = (case r of Inl _ \<Rightarrow> s | Inr s' \<Rightarrow> s')"

definition stop_row :: "livekit \<Rightarrow> rec_state \<Rightarrow> recording_row \<Rightarrow> rec_state" where
  "stop_row lk s r =
     (case rg_egressId r of
        None \<Rightarrow> s
      | Some e \<Rightarrow>
          if e = [] \<or> \<not> lk_stop lk e then s
          else keep_going s (update_rec (rg_id r) (\<lambda>x. x\<lparr>rg_status := PROCESSING\<rparr>) s))"

definition stop_ended_classes :: "livekit \<Rightarrow> rec_state \<Rightarrow> rec_state" where
  "stop_ended_classes lk s =
     foldl (stop_row lk) s (take 25 (filter (\<lambda>r. running (rg_status r) \<and>
       map_option ls_status (find_session (rv_db s) (rg_sessionId r)) = Some ENDED) (rv_rows s)))"

definition stop_overrunning :: "livekit \<Rightarrow> int \<Rightarrow> rec_state \<Rightarrow> rec_state" where
  "stop_overrunning lk now s =
     foldl (\<lambda>s' r.
         case Option.bind (find_rec_org s (rg_organizationId r)) og_maxRecordingMinutes of
           None \<Rightarrow> s'
         | Some cap \<Rightarrow> if cap \<le> 0 \<or> now - rg_createdAt r < cap * 60000 then s' else stop_row lk s' r)
       s (take 25 (filter (\<lambda>r. running (rg_status r) \<and>
            Option.bind (find_rec_org s (rg_organizationId r)) og_maxRecordingMinutes \<noteq> None) (rv_rows s)))"

definition fail_rec :: "string \<Rightarrow> string \<Rightarrow> rec_state \<Rightarrow> rec_state" where
  "fail_rec i msg s = keep_going s (update_rec i (\<lambda>x. x\<lparr>rg_status := FAILED, rg_error := Some msg\<rparr>) s)"

definition unsettled :: "int \<Rightarrow> recording_row \<Rightarrow> bool" where
  "unsettled now r \<longleftrightarrow>
     (rg_status r = STARTING \<or> rg_status r = RECORDING \<or> rg_status r = PROCESSING) \<and>
     rg_createdAt r < now - settle_ms"

definition reconcile_row ::
  "livekit \<Rightarrow> (string \<Rightarrow> int option) \<Rightarrow> int \<Rightarrow> rec_state \<Rightarrow> recording_row \<Rightarrow> rec_state"
where
  "reconcile_row lk bucket now s r =
     (if falsy (rg_egressId r) then fail_rec (rg_id r) ''Recording never started'' s
      else
        let e = the (rg_egressId r) in
        case lk_list lk e of
          Inl _ \<Rightarrow> s
        | Inr None \<Rightarrow>
            if now - rg_createdAt r > abandon_ms
            then fail_rec (rg_id r) ''LiveKit has no record of this recording'' s else s
        | Inr (Some info) \<Rightarrow>
            if fst (describe info)
            then keep_going s (apply_egress_result bucket now ((snd (describe info))\<lparr>er_egressId := e\<rparr>) s)
            else s)"

definition reconcile ::
  "bool \<Rightarrow> livekit \<Rightarrow> (string \<Rightarrow> int option) \<Rightarrow> int \<Rightarrow> rec_state \<Rightarrow> rec_state"
where
  "reconcile configured lk bucket now s =
     (if \<not> configured then s
      else
        let s1 = stop_overrunning lk now (stop_ended_classes lk s)
        in foldl (reconcile_row lk bucket now) s1 (take 25 (filter (unsettled now) (rv_rows s1))))"

section \<open>The recorder's credential and context\<close>

definition mint_recorder :: "jwt_payload \<Rightarrow> string \<Rightarrow> string \<Rightarrow> jwt_payload" where
  "mint_recorder user sessionId recordingId =
     user\<lparr>jwt_isSuperAdmin := False,
       jwt_recorder := Some \<lparr>rc_sessionId = sessionId, rc_recordingId = recordingId\<rparr>,
       jwt_preview := None\<rparr>"

definition verify_recorder :: "jwt_payload option \<Rightarrow> string \<Rightarrow> jwt_payload result" where
  "verify_recorder payload sessionId =
     (case payload of
        None \<Rightarrow> Inl (Unauthorized ''Invalid or expired recorder token'')
      | Some p \<Rightarrow>
          if map_option rc_sessionId (jwt_recorder p) = Some sessionId then Inr p
          else Inl (Unauthorized ''This token is not for this session''))"

record recorder_context =
  cx_room :: string
  cx_courseId :: string
  cx_me :: "string \<times> string \<times> role"
  cx_teaching :: bool
  cx_view :: string
  cx_packs :: "bool \<times> bool \<times> bool \<times> bool"
  cx_participant :: "string \<times> bool"

definition recorder_context_of :: "rec_state \<Rightarrow> (string \<Rightarrow> room_state) \<Rightarrow> jwt_payload \<Rightarrow> string \<Rightarrow> recorder_context result" where
  "recorder_context_of s rooms user sessionId =
     (case jwt_recorder user of
        None \<Rightarrow> Inl (Forbidden ''Not a recorder for this session'')
      | Some claim \<Rightarrow>
          if rc_sessionId claim \<noteq> sessionId then Inl (Forbidden ''Not a recorder for this session'')
          else (case session_course (rv_db s) sessionId of
                  None \<Rightarrow> Inl (NotFound ''Session not found'')
                | Some (session, course) \<Rightarrow>
                    let on = is_enabled (db_orgPlugins (rv_db s)) (co_organizationId course)
                    in Inr \<lparr>cx_room = ls_livekitRoom session, cx_courseId = ls_courseId session,
                         cx_me = (jwt_sub user, jwt_name user, jwt_role user), cx_teaching = False,
                         cx_view = get_view (rooms sessionId),
                         cx_packs = (on plugin_islamic_education, on plugin_code_instruction,
                           on plugin_maths_sciences, on plugin_test_prep),
                         cx_participant = (''recorder-'' @ rc_recordingId claim, True)\<rparr>))"

end
