(* ===== verification/RecordingRuns.thy ===== *)
theory RecordingRuns
  imports Recordings
begin

text \<open>
  Runs of the recordings service: every operation as a step (with the row of a start and LiveKit's
  answer to it as separate steps, whatever comes between), the invariant of the table, and what
  follows for share links, workspaces, retention and the reconciler.
\<close>

section \<open>The table\<close>

definition rec_row_ok :: "recording_row \<Rightarrow> bool" where
  "rec_row_ok r \<longleftrightarrow>
     (rg_storageKey r = map_option (\<lambda>_. storage_key (rg_organizationId r) (rg_id r)) (rg_egressId r)) \<and>
     (rg_status r = RECORDING \<or> rg_status r = READY \<longrightarrow> rg_egressId r \<noteq> None)"

definition rec_ok :: "rec_state \<Rightarrow> bool" where
  "rec_ok s \<longleftrightarrow>
     distinct (map rg_id (rv_rows s)) \<and> list_all rec_row_ok (rv_rows s) \<and>
     list_all (\<lambda>r. \<not> clashes (rv_rows s) r) (rv_rows s)"

lemma rec_with_idD: "rec_with_id s i = Some r \<Longrightarrow> r \<in> set (rv_rows s) \<and> rg_id r = i"
  by (auto simp: rec_with_id_def find_Some_iff)

lemma same_rec:
  assumes "rec_ok s" "x \<in> set (rv_rows s)" "y \<in> set (rv_rows s)" "rg_id x = rg_id y"
  shows "x = y"
  using assms by (auto simp: rec_ok_def distinct_map dest: inj_onD)

lemma rec_with_idI:
  assumes "rec_ok s" "r \<in> set (rv_rows s)"
  shows "rec_with_id s (rg_id r) = Some r"
proof -
  obtain x where "rec_with_id s (rg_id r) = Some x"
    using assms(2) by (cases "rec_with_id s (rg_id r)") (auto simp: rec_with_id_def find_None_iff)
  then show ?thesis using rec_with_idD same_rec [OF assms(1)] assms(2) by metis
qed

lemma no_clash:
  assumes "rec_ok s" "r \<in> set (rv_rows s)" "rg_egressId r' = rg_egressId r" "rg_shareToken r' = rg_shareToken r"
    "rg_id r' = rg_id r"
  shows "\<not> clashes (rv_rows s) r'"
proof -
  have "\<not> clashes (rv_rows s) r" using assms(1,2) by (auto simp: rec_ok_def list_all_iff)
  then show ?thesis using assms(3-5) by (simp add: clashes_def)
qed

lemma by_egress:
  assumes "rec_ok s" "x \<in> set (rv_rows s)" "y \<in> set (rv_rows s)" "rg_egressId x = Some e" "rg_egressId y = Some e"
  shows "x = y"
proof -
  have "\<not> clashes (rv_rows s) x" using assms(1,2) by (auto simp: rec_ok_def list_all_iff)
  then have "rg_id x = rg_id y" using assms(3-5) by (auto simp: clashes_def list_ex_iff)
  then show ?thesis using same_rec assms(1-3) by blast
qed

lemma by_token:
  assumes "rec_ok s" "x \<in> set (rv_rows s)" "y \<in> set (rv_rows s)" "rg_shareToken x = Some t" "rg_shareToken y = Some t"
  shows "x = y"
proof -
  have "\<not> clashes (rv_rows s) x" using assms(1,2) by (auto simp: rec_ok_def list_all_iff)
  then have "rg_id x = rg_id y" using assms(3-5) by (auto simp: clashes_def list_ex_iff)
  then show ?thesis using same_rec assms(1-3) by blast
qed

lemma rec_ok_map:
  assumes "rec_ok s" "\<And>x. rg_id (g x) = rg_id x" "\<And>x. x \<in> set (rv_rows s) \<Longrightarrow> rec_row_ok (g x)"
    "\<And>x. x \<in> set (rv_rows s) \<Longrightarrow> \<not> clashes (map g (rv_rows s)) (g x)"
    "rv_rows s' = map g (rv_rows s)"
  shows "rec_ok s'"
  using assms by (simp add: rec_ok_def list.pred_map o_def) (simp add: list_all_iff)

text \<open>An update changes the row with the id, if there is one, and no other.\<close>

lemma update_recD:
  assumes "update_rec i f s = Inr s'"
  obtains r where "rec_with_id s i = Some r" "\<not> clashes (rv_rows s) (f r)"
    "s' = s\<lparr>rv_rows := map (\<lambda>x. if rg_id x = i then f x else x) (rv_rows s)\<rparr>"
  using assms by (auto simp: update_rec_def split: option.splits if_splits)

lemma update_rec_lookup:
  assumes "update_rec i f s = Inr s'" "\<And>r. rg_id (f r) = rg_id r"
  shows "rec_with_id s' j = (if j = i then map_option f (rec_with_id s i) else rec_with_id s j)"
proof -
  have "find (\<lambda>r. rg_id r = j) (map (\<lambda>x. if rg_id x = i then f x else x) rows) =
      (if j = i then map_option f (find (\<lambda>r. rg_id r = i) rows) else find (\<lambda>r. rg_id r = j) rows)" for rows
    by (induction rows) (auto simp: assms(2))
  then show ?thesis using assms(1) by (auto simp: rec_with_id_def elim!: update_recD)
qed

lemma update_rec_ok:
  assumes "rec_ok s" "update_rec i f s = Inr s'" "\<And>r. rg_id (f r) = rg_id r"
    "\<And>r. rec_with_id s i = Some r \<Longrightarrow> rec_row_ok (f r)"
  shows "rec_ok s'"
proof -
  obtain r where r: "rec_with_id s i = Some r" "\<not> clashes (rv_rows s) (f r)"
    "s' = s\<lparr>rv_rows := map (\<lambda>x. if rg_id x = i then f x else x) (rv_rows s)\<rparr>"
    using assms(2) by (rule update_recD)
  let ?g = "\<lambda>x. if rg_id x = i then f x else x"
  have ids: "rg_id (?g x) = rg_id x" for x by (simp add: assms(3))
  have the_row: "x = r" if "x \<in> set (rv_rows s)" "rg_id x = i" for x
    using rec_with_idD [OF r(1)] same_rec [OF assms(1)] that by blast
  have "\<not> clashes (map ?g (rv_rows s)) (?g x)" if x: "x \<in> set (rv_rows s)" for x
  proof
    assume "clashes (map ?g (rv_rows s)) (?g x)"
    then obtain y where y: "y \<in> set (rv_rows s)" "rg_id y \<noteq> rg_id x"
      "rg_egressId (?g x) \<noteq> None \<and> rg_egressId (?g y) = rg_egressId (?g x) \<or>
       rg_shareToken (?g x) \<noteq> None \<and> rg_shareToken (?g y) = rg_shareToken (?g x)"
      by (auto simp: clashes_def list_ex_iff assms(3) split: if_splits)
    have "\<not> clashes (rv_rows s) x" using assms(1) x by (auto simp: rec_ok_def list_all_iff)
    then show False
      using y x r(2) the_row [of x] the_row [of y] assms(3)
      by (cases "rg_id x = i"; cases "rg_id y = i") (auto simp: clashes_def list_ex_iff)
  qed
  moreover have "rec_row_ok (?g x)" if "x \<in> set (rv_rows s)" for x
    using that assms(1) assms(4) [OF r(1)] the_row by (auto simp: rec_ok_def list_all_iff)
  ultimately show ?thesis using ids r(3) by (intro rec_ok_map [OF assms(1), of ?g]) simp_all
qed

lemma rec_ok_filter: "rec_ok s \<Longrightarrow> rv_rows s' = filter P (rv_rows s) \<Longrightarrow> rec_ok s'"
  by (auto simp: rec_ok_def list_all_iff clashes_def list_ex_iff distinct_map_filter)

lemma rec_ok_emit [simp]: "rec_ok (rec_emit sid b s) = rec_ok s"
  by (simp add: rec_ok_def rec_emit_def)

lemma rec_ok_same: "rec_ok s \<Longrightarrow> rv_rows s' = rv_rows s \<Longrightarrow> rec_ok s'"
  by (simp add: rec_ok_def)

section \<open>Steps\<close>

datatype rec_op =
    CreateRow string int string session_row string
  | EgressAnswer string "string + string"
  | StopCall jwt_payload string "http_error + unit"
  | ShareCall jwt_payload string "int option" string int
  | UnshareCall jwt_payload string
  | RemoveCall jwt_payload string
  | Sweep int int
  | Webhook "string \<Rightarrow> int option" int string "egress_info option"
  | Reconcile bool livekit "string \<Rightarrow> int option" int

text \<open>An id the database generates is new. The second half of a start works on the row of the first.\<close>

fun rec_step :: "rec_state \<Rightarrow> rec_op \<Rightarrow> rec_state" where
  "rec_step s (CreateRow i now org session uid) =
     (if rec_with_id s i \<noteq> None then s else start_create i now org session uid s)"
| "rec_step s (EgressAnswer i egress) =
     (case rec_with_id s i of None \<Rightarrow> s
      | Some r \<Rightarrow> fst (start_finish s i (rg_organizationId r) (rg_sessionId r) egress))"
| "rec_step s (StopCall user sid stopped) = fst (stop_recording s user sid stopped)"
| "rec_step s (ShareCall user i days token now) = fst (share s user i days token now)"
| "rec_step s (UnshareCall user i) = fst (unshare s user i)"
| "rec_step s (RemoveCall user i) = fst (remove_recording s user i)"
| "rec_step s (Sweep now limit) = fst (sweep_expired_recordings s now limit)"
| "rec_step s (Webhook bucket now event info) = keep_going s (webhook bucket now event info s)"
| "rec_step s (Reconcile configured lk bucket now) = reconcile configured lk bucket now s"

lemma rec_ok_create: "rec_ok s \<Longrightarrow> rec_with_id s i = None \<Longrightarrow> rec_ok (start_create i now org session uid s)"
  by (auto simp: rec_ok_def start_create_def new_recording_def rec_row_ok_def clashes_def list_all_iff
      list_ex_iff rec_with_id_def find_None_iff)

lemma rec_ok_finish:
  assumes ok: "rec_ok s" and i: "rec_with_id s i = Some r" and org: "org = rg_organizationId r"
  shows "rec_ok (fst (start_finish s i org sid egress))"
proof -
  have fail: "rec_ok s'" if "update_rec i (\<lambda>r. r\<lparr>rg_status := FAILED, rg_error := Some msg\<rparr>) s = Inr s'" for msg s'
    using update_rec_ok [OF ok that] rec_with_idD ok by (fastforce simp: rec_ok_def list_all_iff rec_row_ok_def)
  have go: "rec_ok s'" if "update_rec i (\<lambda>r. r\<lparr>rg_egressId := Some e, rg_storageKey := Some (storage_key org i),
      rg_status := RECORDING\<rparr>) s = Inr s'" for e s'
    using update_rec_ok [OF ok that] i org rec_with_idD [OF i] by (auto simp: rec_row_ok_def)
  show ?thesis
    using ok fail go by (auto simp: start_finish_def Let_def split: sum.splits)
qed

text \<open>Updates that keep the id, the egress and the key.\<close>

lemma rec_ok_touch:
  assumes "rec_ok s" "update_rec i f s = Inr s'"
    "\<And>r. rg_id (f r) = rg_id r" "\<And>r. rg_egressId (f r) = rg_egressId r" "\<And>r. rg_storageKey (f r) = rg_storageKey r"
    "\<And>r. rg_organizationId (f r) = rg_organizationId r"
    "\<And>r. rec_with_id s i = Some r \<Longrightarrow> rg_status (f r) = RECORDING \<or> rg_status (f r) = READY \<Longrightarrow> rg_egressId r \<noteq> None"
  shows "rec_ok s'"
proof (rule update_rec_ok [OF assms(1,2,3)])
  fix r assume r: "rec_with_id s i = Some r"
  then have "rec_row_ok r" using rec_with_idD assms(1) by (auto simp: rec_ok_def list_all_iff)
  then show "rec_row_ok (f r)" using assms(3-6) assms(7) [OF r] by (simp add: rec_row_ok_def)
qed

lemma rec_ok_stop: "rec_ok s \<Longrightarrow> rec_ok (fst (stop_recording s user sid stopped))"
  by (auto simp: stop_recording_def elim: rec_ok_touch split: sum.splits option.splits)

lemma own_recordingD: "own_recording s org i = Some r \<Longrightarrow> r \<in> set (rv_rows s) \<and> rg_id r = i \<and> rg_organizationId r = org"
  by (auto simp: own_recording_def find_Some_iff)

lemma own_with_id: "rec_ok s \<Longrightarrow> own_recording s org i = Some r \<Longrightarrow> rec_with_id s i = Some r"
  using own_recordingD rec_with_idI by metis

lemma rec_ok_share:
  assumes "rec_ok s"
  shows "rec_ok (fst (share s user i days token now))"
proof -
  have "rec_ok s'" if "own_recording s org i = Some r" "rg_status r = READY"
    "update_rec i (\<lambda>x. x\<lparr>rg_shareToken := Some token, rg_shareExpiresAt := ex\<rparr>) s = Inr s'" for org r s' ex
  proof (rule rec_ok_touch [OF assms that(3)])
    fix x assume x: "rec_with_id s i = Some x"
    then have "x = r" using own_with_id [OF assms that(1)] by simp
    then show "rg_egressId x \<noteq> None"
      using that(2) rec_with_idD [OF x] assms by (auto simp: rec_ok_def list_all_iff rec_row_ok_def)
  qed simp_all
  then show ?thesis using assms by (auto simp: share_def split: sum.splits option.splits)
qed

lemma rec_ok_unshare: "rec_ok s \<Longrightarrow> rec_ok (fst (unshare s user i))"
proof -
  assume ok: "rec_ok s"
  have "rec_ok (s\<lparr>rv_rows := map (\<lambda>r. if rg_id r = i \<and> rg_organizationId r = org
      then r\<lparr>rg_shareToken := None, rg_shareExpiresAt := None\<rparr> else r) (rv_rows s)\<rparr>)" for org
  proof -
    define g :: "recording_row \<Rightarrow> recording_row" where "g r = (if rg_id r = i \<and> rg_organizationId r = org
      then r\<lparr>rg_shareToken := None, rg_shareExpiresAt := None\<rparr> else r)" for r
    have g: "rg_id (g r) = rg_id r" "rg_egressId (g r) = rg_egressId r" "rec_row_ok (g r) = rec_row_ok r"
      "rg_shareToken (g r) = None \<or> rg_shareToken (g r) = rg_shareToken r" for r
      by (auto simp: rec_row_ok_def g_def)
    have "\<not> clashes (map g (rv_rows s)) (g r)" if "r \<in> set (rv_rows s)" for r
    proof -
      have "\<not> clashes (rv_rows s) r" using ok that by (auto simp: rec_ok_def list_all_iff)
      then show ?thesis using g(1,2,4) unfolding clashes_def list_ex_iff set_map bex_simps by metis
    qed
    then have "rec_ok (s\<lparr>rv_rows := map g (rv_rows s)\<rparr>)"
      using g(1,3) ok by (intro rec_ok_map [OF ok, of g]) (auto simp: rec_ok_def list_all_iff)
    then show ?thesis by (simp add: g_def [abs_def])
  qed
  then show ?thesis using ok by (auto simp: unshare_def split: sum.splits)
qed

lemma purge_rows [simp]: "rv_rows (purge r s) = rv_rows s" "rv_orgs (purge r s) = rv_orgs s"
  by (simp_all add: purge_def)

lemma drop_rec_rows [simp]: "rv_rows (drop_rec i s) = filter (\<lambda>r. rg_id r \<noteq> i) (rv_rows s)" "rv_orgs (drop_rec i s) = rv_orgs s"
  by (simp_all add: drop_rec_def)

lemma rec_ok_remove: "rec_ok s \<Longrightarrow> rec_ok (fst (remove_recording s user i))"
  by (auto simp: remove_recording_def intro: rec_ok_filter split: sum.splits option.splits)

lemma dropped_rows:
  "rv_rows (foldl (\<lambda>s r. drop_rec (rg_id r) (purge r s)) s old) = filter (\<lambda>r. rg_id r \<notin> rg_id ` set old) (rv_rows s)"
  by (induction old arbitrary: s) (auto simp: intro: filter_cong)

text \<open>What the sweep has done by some point: \<open>deleted\<close> rows are gone, each of them past its own
  workspace's window and not being made.\<close>

definition past_retention :: "int \<Rightarrow> rec_org list \<Rightarrow> recording_row \<Rightarrow> bool" where
  "past_retention now orgs r \<longleftrightarrow>
     (\<exists>g \<in> set orgs. \<exists>days. og_recordingRetentionDays g = Some days \<and> days > 0 \<and>
        rg_organizationId r = og_id g \<and> rg_createdAt r < now - days * 24 * 60 * 60 * 1000 \<and>
        \<not> running (rg_status r))"

definition swept :: "int \<Rightarrow> rec_state \<Rightarrow> rec_state \<times> int \<times> bool \<Rightarrow> bool" where
  "swept now s acc \<longleftrightarrow>
     (case acc of (s', deleted, left) \<Rightarrow>
        rec_ok s' \<and> rv_orgs s' = rv_orgs s \<and>
        (\<exists>P. rv_rows s' = filter P (rv_rows s) \<and>
           (\<forall>r \<in> set (rv_rows s). \<not> P r \<longrightarrow> past_retention now (rv_orgs s) r)) \<and>
        deleted = int (length (rv_rows s)) - int (length (rv_rows s')))"

lemma drop_count:
  assumes "distinct (map rg_id rows)" "set old \<subseteq> set rows" "distinct old"
  shows "length (filter (\<lambda>r. rg_id r \<notin> rg_id ` set old) rows) + length old = length rows"
proof -
  have inj: "inj_on rg_id (set rows)" and d: "distinct rows" using assms(1) by (simp_all add: distinct_map)
  have "filter (\<lambda>r. rg_id r \<notin> rg_id ` set old) rows = filter (\<lambda>r. r \<notin> set old) rows"
    using assms(2) inj by (intro filter_cong) (auto simp: inj_on_def)
  then have "length (filter (\<lambda>r. rg_id r \<notin> rg_id ` set old) rows) = card (set rows - set old)"
    using d by (simp add: distinct_length_filter set_diff_eq Int_def conj_commute)
  moreover have "card (set rows - set old) = length rows - length old" "length old \<le> length rows"
    using assms(2,3) d by (simp_all add: card_Diff_subset distinct_card card_mono flip: distinct_card)
  ultimately show ?thesis by simp
qed

lemma orgs_kept: "rv_orgs (foldl (\<lambda>s r. drop_rec (rg_id r) (purge r s)) s old) = rv_orgs s"
  by (induction old arbitrary: s) simp_all

lemma swept_org:
  assumes acc: "swept now s (s1, n, b)" and g: "g \<in> set (rv_orgs s)"
  shows "swept now s (sweep_org now limit (s1, n, b) g)"
proof (cases "b \<or> (case og_recordingRetentionDays g of None \<Rightarrow> True | Some d \<Rightarrow> d \<le> 0)")
  case True
  then show ?thesis using acc by (auto simp: sweep_org_def split: option.splits)
next
  case False
  then obtain days where days: "og_recordingRetentionDays g = Some days" "days > 0" "\<not> b" by (auto split: option.splits)
  let ?old = "take (nat (max 1 (limit - n))) (filter (expired now g days) (rv_rows s1))"
  let ?s' = "foldl (\<lambda>s r. drop_rec (rg_id r) (purge r s)) s1 ?old"
  obtain P where P: "rv_rows s1 = filter P (rv_rows s)" "\<forall>r \<in> set (rv_rows s). \<not> P r \<longrightarrow> past_retention now (rv_orgs s) r"
    and ok: "rec_ok s1" "rv_orgs s1 = rv_orgs s" "n = int (length (rv_rows s)) - int (length (rv_rows s1))"
    using acc by (auto simp: swept_def)
  have old: "set ?old \<subseteq> set (rv_rows s1)" "\<forall>r \<in> set ?old. expired now g days r"
    by (auto dest!: in_set_takeD)
  have dist: "distinct (map rg_id (rv_rows s1))" using ok(1) by (simp add: rec_ok_def)
  then have "distinct ?old" by (simp add: distinct_map distinct_take)
  then have count: "length (rv_rows ?s') + length ?old = length (rv_rows s1)"
    unfolding dropped_rows using drop_count [OF dist old(1)] by blast
  have "past_retention now (rv_orgs s) r" if r: "r \<in> set (rv_rows s)" "P r" "rg_id r \<in> rg_id ` set ?old" for r
  proof -
    obtain x where x: "x \<in> set ?old" "rg_id x = rg_id r" using r(3) by auto
    then have "x = r" using same_rec [OF ok(1)] old(1) r(1,2) P(1) by auto
    then have "expired now g days r" using old(2) x(1) by blast
    then show ?thesis unfolding expired_def past_retention_def using g days by blast
  qed
  then have "\<exists>Q. rv_rows ?s' = filter Q (rv_rows s) \<and> (\<forall>r \<in> set (rv_rows s). \<not> Q r \<longrightarrow> past_retention now (rv_orgs s) r)"
    unfolding dropped_rows P(1) filter_filter using P(2) by (intro exI conjI) (rule refl, blast)
  moreover have "rec_ok ?s'" using ok(1) dropped_rows by (rule rec_ok_filter)
  ultimately show ?thesis
    using days count ok by (simp add: swept_def sweep_org_def Let_def orgs_kept)
qed

lemma swept_all:
  assumes "swept now s acc" "set gs \<subseteq> set (rv_orgs s)"
  shows "swept now s (foldl (sweep_org now limit) acc gs)"
  using assms
proof (induction gs arbitrary: acc)
  case (Cons g gs)
  then show ?case using swept_org [of now s _ _ _ g limit] by (cases acc) simp
qed simp

lemma swept_end:
  assumes "rec_ok s" "sweep_expired_recordings s now limit = (s', n)"
  shows "\<exists>b. swept now s (s', n, b)"
proof -
  have "swept now s (s, 0, False)"
    using assms(1) by (auto simp: swept_def intro: exI [of _ "\<lambda>_. True"])
  then have "swept now s (foldl (sweep_org now limit) (s, 0, False) (rv_orgs s))" by (rule swept_all) simp
  then show ?thesis using assms(2) by (auto simp: sweep_expired_recordings_def split: prod.splits)
qed

lemma rec_ok_sweep: "rec_ok s \<Longrightarrow> rec_ok (fst (sweep_expired_recordings s now limit))"
  using swept_end [of s now limit] by (cases "sweep_expired_recordings s now limit") (auto simp: swept_def)

text \<open>The limit: with at least one deletion allowed, the count never passes it.\<close>

lemma sweep_count:
  assumes "limit \<ge> 1" "n \<le> limit" "\<not> b \<longrightarrow> n < limit"
  shows "case sweep_org now limit (s, n, b) g of (_, n', b') \<Rightarrow> n' \<le> limit \<and> (\<not> b' \<longrightarrow> n' < limit)"
proof (cases "b \<or> (case og_recordingRetentionDays g of None \<Rightarrow> True | Some d \<Rightarrow> d \<le> 0)")
  case True
  then show ?thesis using assms by (auto simp: sweep_org_def split: option.splits)
next
  case False
  then obtain days where days: "og_recordingRetentionDays g = Some days" "days > 0" "\<not> b" by (auto split: option.splits)
  define old where "old = take (nat (max 1 (limit - n))) (filter (expired now g days) (rv_rows s))"
  have "int (length old) \<le> limit - n" using assms days(3) by (simp add: old_def max_def)
  then show ?thesis using days by (auto simp: sweep_org_def Let_def old_def [symmetric])
qed

lemma sweep_counts:
  assumes "limit \<ge> 1" "case acc of (_, n, b) \<Rightarrow> n \<le> limit \<and> (\<not> b \<longrightarrow> n < limit)"
  shows "case foldl (sweep_org now limit) acc gs of (_, n, b) \<Rightarrow> n \<le> limit \<and> (\<not> b \<longrightarrow> n < limit)"
  using assms(2)
proof (induction gs arbitrary: acc)
  case (Cons g gs)
  then show ?case using sweep_count [OF assms(1)] by (cases acc) simp
qed simp

lemma rec_ok_apply:
  assumes ok: "rec_ok s" and ap: "apply_egress_result bucket now e s = Inr s'"
  shows "rec_ok s'"
proof (cases "find (\<lambda>r. rg_egressId r = Some (er_egressId e)) (rv_rows s)")
  case None
  then show ?thesis using assms by (simp add: apply_egress_result_def)
next
  case (Some r)
  then have r: "r \<in> set (rv_rows s)" "rg_egressId r = Some (er_egressId e)" by (auto simp: find_Some_iff)
  then have "rg_egressId x \<noteq> None" if "rec_with_id s (rg_id r) = Some x" for x
    using rec_with_idI [OF ok r(1)] that by simp
  then show ?thesis
    using ap Some by (auto simp: apply_egress_result_def Let_def split: if_splits intro: rec_ok_touch [OF ok])
qed

lemma rec_ok_keep: "rec_ok s \<Longrightarrow> (\<And>s'. r = Inr s' \<Longrightarrow> rec_ok s') \<Longrightarrow> rec_ok (keep_going s r)"
  by (simp add: keep_going_def split: sum.splits)

lemma rec_ok_stop_row: "rec_ok s \<Longrightarrow> rec_ok (stop_row lk s r)"
  by (auto simp: stop_row_def split: option.splits intro!: rec_ok_keep elim: rec_ok_touch)

lemma rec_ok_fail: "rec_ok s \<Longrightarrow> rec_ok (fail_rec i msg s)"
  by (auto simp: fail_rec_def intro!: rec_ok_keep elim: rec_ok_touch)

lemma rec_ok_webhook: "rec_ok s \<Longrightarrow> webhook bucket now event info s = Inr s' \<Longrightarrow> rec_ok s'"
  by (auto simp: webhook_def split: if_splits option.splits dest: rec_ok_apply)

lemma rec_ok_reconcile_row: "rec_ok s \<Longrightarrow> rec_ok (reconcile_row lk bucket now s r)"
  by (auto simp: reconcile_row_def Let_def split: sum.splits option.splits
      intro!: rec_ok_keep rec_ok_fail dest: rec_ok_apply)

lemma rec_ok_foldl: "rec_ok s \<Longrightarrow> (\<And>s x. rec_ok s \<Longrightarrow> rec_ok (f s x)) \<Longrightarrow> rec_ok (foldl f s xs)"
  by (induction xs arbitrary: s) auto

lemma rec_ok_stop_ended: "rec_ok s \<Longrightarrow> rec_ok (stop_ended_classes lk s)"
  unfolding stop_ended_classes_def by (rule rec_ok_foldl) (simp_all add: rec_ok_stop_row)

lemma rec_ok_overrunning: "rec_ok s \<Longrightarrow> rec_ok (stop_overrunning lk now s)"
  unfolding stop_overrunning_def by (rule rec_ok_foldl) (auto simp: rec_ok_stop_row split: option.splits)

lemma rec_ok_reconcile: "rec_ok s \<Longrightarrow> rec_ok (reconcile c lk bucket now s)"
  by (auto simp: reconcile_def Let_def
      intro!: rec_ok_foldl rec_ok_reconcile_row rec_ok_overrunning rec_ok_stop_ended)

interpretation recordings: invariant_system rec_step rec_ok
proof
  fix s e
  assume "rec_ok s"
  then show "rec_ok (rec_step s e)"
    by (cases e) (auto simp: rec_ok_create rec_ok_finish rec_ok_stop rec_ok_share rec_ok_unshare rec_ok_remove
        rec_ok_sweep rec_ok_reconcile split: option.split intro!: rec_ok_keep elim: rec_ok_webhook)
qed

definition rec_start :: "db \<Rightarrow> rec_org list \<Rightarrow> rec_state" where
  "rec_start d orgs = \<lparr>rv_db = d, rv_orgs = orgs, rv_rows = [], rv_sent = [], rv_purged = []\<rparr>"

lemma rec_run: "rec_ok (foldl rec_step (rec_start d orgs) ops)"
  by (rule recordings.inv_run) (simp add: rec_ok_def rec_start_def)

section \<open>The reconciler settles what it looks at\<close>

lemma update_rec_works:
  assumes "rec_ok s" "rec_with_id s i = Some r" "rg_id (f r) = rg_id r" "rg_egressId (f r) = rg_egressId r"
    "rg_shareToken (f r) = rg_shareToken r"
  obtains s' where "update_rec i f s = Inr s'"
  using assms no_clash [OF assms(1), of r "f r"] rec_with_idD [OF assms(2)] by (simp add: update_rec_def)

text \<open>One row of the reconciler: it changes the row with its id alone, and not the row's egress.\<close>

lemma keep_update:
  assumes "rec_ok s" "rec_with_id s i = Some y" "\<And>r. rg_id (f r) = rg_id r" "\<And>r. rg_egressId (f r) = rg_egressId r"
    "\<And>r. rg_shareToken (f r) = rg_shareToken r"
  shows "rec_with_id (keep_going s (update_rec i f s)) j = (if j = i then Some (f y) else rec_with_id s j)"
proof -
  obtain s' where s': "update_rec i f s = Inr s'"
    using update_rec_works [OF assms(1,2)] assms(3-5) by blast
  then show ?thesis using update_rec_lookup [OF s' assms(3), of j] assms(2) by (simp add: keep_going_def)
qed

lemma apply_lookup:
  assumes ok: "rec_ok s" and y: "rec_with_id s i = Some y" "rg_egressId y = Some (er_egressId e)"
  shows "\<exists>y'. (\<forall>j. rec_with_id (keep_going s (apply_egress_result bucket now e s)) j =
      (if j = i then Some y' else rec_with_id s j)) \<and> rg_egressId y' = rg_egressId y \<and>
      (rg_status y' = READY \<or> rg_status y' = FAILED)"
proof -
  have mem: "y \<in> set (rv_rows s)" "rg_id y = i" using rec_with_idD [OF y(1)] by auto
  obtain x where x: "find (\<lambda>r. rg_egressId r = Some (er_egressId e)) (rv_rows s) = Some x"
    using mem(1) y(2) by (cases "find (\<lambda>r. rg_egressId r = Some (er_egressId e)) (rv_rows s)") (auto simp: find_None_iff)
  have "x \<in> set (rv_rows s)" "rg_egressId x = Some (er_egressId e)" using x by (auto simp: find_Some_iff)
  then have "x = y" using by_egress [OF ok] mem(1) y(2) by blast
  then show ?thesis
    using keep_update [OF ok y(1)] x mem(2) by (simp add: apply_egress_result_def Let_def)
qed

definition definite :: "livekit \<Rightarrow> recording_row \<Rightarrow> bool" where
  "definite lk r \<longleftrightarrow>
     falsy (rg_egressId r) \<or>
     (case lk_list lk (the (rg_egressId r)) of
        Inl _ \<Rightarrow> False
      | Inr None \<Rightarrow> True
      | Inr (Some info) \<Rightarrow> egress_finished (ei_status info))"

lemma reconcile_row_lookup:
  assumes ok: "rec_ok s" and y: "rec_with_id s (rg_id x) = Some y" "rg_egressId y = rg_egressId x"
  shows "\<exists>y'. (\<forall>j. rec_with_id (reconcile_row lk bucket now s x) j = (if j = rg_id x then Some y' else rec_with_id s j)) \<and>
     rg_egressId y' = rg_egressId x \<and>
     (definite lk x \<and> now - rg_createdAt x > abandon_ms \<longrightarrow> rg_status y' = READY \<or> rg_status y' = FAILED)"
proof -
  have fail: "rec_with_id (fail_rec (rg_id x) msg s) j =
      (if j = rg_id x then Some (y\<lparr>rg_status := FAILED, rg_error := Some msg\<rparr>) else rec_with_id s j)" for msg j
    unfolding fail_rec_def using keep_update [OF ok y(1)] by simp
  have stay: ?thesis if "reconcile_row lk bucket now s x = s" "\<not> (definite lk x \<and> now - rg_createdAt x > abandon_ms)"
    using that y by (intro exI [of _ y]) auto
  show ?thesis
  proof (cases "falsy (rg_egressId x)")
    case True
    then show ?thesis using fail y(2) by (auto simp: reconcile_row_def)
  next
    case False
    then obtain e where e: "rg_egressId x = Some e" by (auto simp: falsy_def)
    note app = apply_lookup [OF ok y(1), where bucket = bucket and now = now]
    show ?thesis
    proof (cases "lk_list lk e")
      case (Inl u)
      then show ?thesis using False e by (intro stay) (auto simp: reconcile_row_def definite_def)
    next
      case (Inr a)
      then show ?thesis
      proof (cases a)
        case None
        then have "reconcile_row lk bucket now s x =
            (if now - rg_createdAt x > abandon_ms then fail_rec (rg_id x) ''LiveKit has no record of this recording'' s else s)"
          using False e Inr by (simp add: reconcile_row_def)
        then show ?thesis using fail y(2) stay by (cases "now - rg_createdAt x > abandon_ms") auto
      next
        case (Some info)
        show ?thesis
        proof (cases "egress_finished (ei_status info)")
          case True
          define res where "res = snd (describe info)\<lparr>er_egressId := e\<rparr>"
          have row: "reconcile_row lk bucket now s x = keep_going s (apply_egress_result bucket now res s)"
            using True False e Inr Some by (simp add: reconcile_row_def res_def) (simp add: describe_def)
          have "er_egressId res = e" by (simp add: res_def)
          then obtain y' where "\<forall>j. rec_with_id (reconcile_row lk bucket now s x) j = (if j = rg_id x then Some y' else rec_with_id s j)"
            "rg_egressId y' = rg_egressId y" "rg_status y' = READY \<or> rg_status y' = FAILED"
            unfolding row using app [of res] e y(2) by metis
          then show ?thesis using y(2) by (intro exI [of _ y']) simp
        next
          case unfinished: False
          then show ?thesis using False e Inr Some by (intro stay) (auto simp: reconcile_row_def definite_def describe_def)
        qed
      qed
    qed
  qed
qed

lemma reconcile_rows_lookup:
  assumes "rec_ok s" "distinct (map rg_id xs)"
    "\<And>x. x \<in> set xs \<Longrightarrow> \<exists>y. rec_with_id s (rg_id x) = Some y \<and> rg_egressId y = rg_egressId x"
    "x \<in> set xs" "definite lk x" "now - rg_createdAt x > abandon_ms"
  shows "\<exists>y. rec_with_id (foldl (reconcile_row lk bucket now) s xs) (rg_id x) = Some y \<and>
    (rg_status y = READY \<or> rg_status y = FAILED)"
proof -
  have others: "rec_with_id (foldl (reconcile_row lk bucket now) t ys) j = rec_with_id t j"
    if "rec_ok t" "j \<notin> rg_id ` set ys" "distinct (map rg_id ys)"
      "\<And>x. x \<in> set ys \<Longrightarrow> \<exists>y. rec_with_id t (rg_id x) = Some y \<and> rg_egressId y = rg_egressId x" for t ys j
    using that
  proof (induction ys arbitrary: t)
    case (Cons z ys)
    obtain y where y: "rec_with_id t (rg_id z) = Some y" "rg_egressId y = rg_egressId z" using Cons.prems(4) by auto
    let ?t = "reconcile_row lk bucket now t z"
    have look: "rec_with_id ?t k = rec_with_id t k" if "k \<noteq> rg_id z" for k
      using reconcile_row_lookup [OF Cons.prems(1) y, of lk bucket now] that by metis
    have rest: "\<exists>y. rec_with_id ?t (rg_id u) = Some y \<and> rg_egressId y = rg_egressId u" if "u \<in> set ys" for u
    proof -
      have "rg_id u \<noteq> rg_id z" using Cons.prems(3) that by (auto simp: image_iff)
      then show ?thesis using look Cons.prems(4) that by simp
    qed
    have "rec_with_id (foldl (reconcile_row lk bucket now) ?t ys) j = rec_with_id ?t j"
      using Cons.prems(1-3) rest by (intro Cons.IH) (simp_all add: rec_ok_reconcile_row)
    then show ?case using look Cons.prems(2) by simp
  qed simp
  show ?thesis using assms
  proof (induction xs arbitrary: s)
    case (Cons z zs)
    obtain y where y: "rec_with_id s (rg_id z) = Some y" "rg_egressId y = rg_egressId z" using Cons.prems(3) by auto
    let ?t = "reconcile_row lk bucket now s z"
    obtain y' where y': "\<forall>j. rec_with_id ?t j = (if j = rg_id z then Some y' else rec_with_id s j)"
      "definite lk z \<and> now - rg_createdAt z > abandon_ms \<longrightarrow> rg_status y' = READY \<or> rg_status y' = FAILED"
      using reconcile_row_lookup [OF Cons.prems(1) y, of lk bucket now] by blast
    have ok: "rec_ok ?t" using Cons.prems(1) by (rule rec_ok_reconcile_row)
    have rest: "\<exists>y. rec_with_id ?t (rg_id u) = Some y \<and> rg_egressId y = rg_egressId u" if "u \<in> set zs" for u
    proof -
      have "rg_id u \<noteq> rg_id z" using Cons.prems(2) that by (auto simp: image_iff)
      then show ?thesis using y'(1) Cons.prems(3) that by simp
    qed
    show ?case
    proof (cases "x = z")
      case True
      then have "rec_with_id (foldl (reconcile_row lk bucket now) ?t zs) (rg_id x) = rec_with_id ?t (rg_id x)"
        using others [OF ok _ _ rest, of "rg_id x"] Cons.prems(2) by auto
      then show ?thesis using y' True Cons.prems(5,6) by simp
    next
      case False
      then show ?thesis using Cons.IH [OF ok _ rest] Cons.prems by simp
    qed
  qed simp
qed

text \<open>Stopping the recordings of ended and overrunning classes moves running rows to processing and
  touches nothing else the reconciler then looks at.\<close>

definition still :: "recording_row \<Rightarrow> recording_row \<Rightarrow> bool" where
  "still x y \<longleftrightarrow> rg_id y = rg_id x \<and> rg_egressId y = rg_egressId x \<and> rg_createdAt y = rg_createdAt x \<and>
     (rg_status y = rg_status x \<or> running (rg_status x) \<and> rg_status y = PROCESSING)"

definition kept :: "rec_state \<Rightarrow> rec_state \<Rightarrow> bool" where
  "kept s t \<longleftrightarrow> list_all2 still (rv_rows s) (rv_rows t)"

lemma kept_refl: "kept s s"
  by (simp add: kept_def still_def list_all2_refl)

lemma kept_stop_row:
  assumes ok: "rec_ok s" and k: "kept s t" and r: "r \<in> set (rv_rows s)" "running (rg_status r)"
  shows "kept s (stop_row lk t r)"
proof -
  have "list_all2 still (rv_rows s) (map (\<lambda>x. if rg_id x = rg_id r then x\<lparr>rg_status := PROCESSING\<rparr> else x) (rv_rows t))"
    using k unfolding kept_def list_all2_map2
  proof (rule list.rel_mono_strong)
    fix x y
    assume x: "x \<in> set (rv_rows s)" and s: "still x y"
    have "x = r" if "rg_id y = rg_id r" using same_rec [OF ok x r(1)] s that by (simp add: still_def)
    then show "still x (if rg_id y = rg_id r then y\<lparr>rg_status := PROCESSING\<rparr> else y)"
      using s r(2) by (auto simp: still_def)
  qed
  then show ?thesis
    using k by (auto simp: stop_row_def kept_def keep_going_def update_rec_def split: option.split)
qed

lemma kept_foldl:
  assumes "kept s t" "\<And>t r. r \<in> set rs \<Longrightarrow> kept s t \<Longrightarrow> kept s (f t r)"
  shows "kept s (foldl f t rs)"
  using assms by (induction rs arbitrary: t) auto

lemma kept_trans: "kept s t \<Longrightarrow> kept t u \<Longrightarrow> kept s u"
  unfolding kept_def by (rule list_all2_trans) (auto simp: still_def running_def)

lemma kept_stops:
  assumes "rec_ok s"
  shows "kept s (stop_overrunning lk now (stop_ended_classes lk s))"
proof (rule kept_trans [of _ "stop_ended_classes lk s"])
  show "kept s (stop_ended_classes lk s)"
    unfolding stop_ended_classes_def
    by (rule kept_foldl [OF kept_refl]) (auto dest!: in_set_takeD intro: kept_stop_row [OF assms])
  show "kept (stop_ended_classes lk s) (stop_overrunning lk now (stop_ended_classes lk s))"
    unfolding stop_overrunning_def
    by (rule kept_foldl [OF kept_refl])
      (auto dest!: in_set_takeD intro: kept_stop_row [OF rec_ok_stop_ended [OF assms]] split: option.split)
qed

lemma kept_unsettled:
  assumes "kept s t"
  shows "length (filter (unsettled now) (rv_rows t)) = length (filter (unsettled now) (rv_rows s))"
  using assms unfolding kept_def
  by (induction rule: list_all2_induct) (auto simp: still_def unsettled_def running_def)

lemma kept_row:
  assumes "kept s t" "r \<in> set (rv_rows s)"
  obtains y where "y \<in> set (rv_rows t)" "still r y"
proof -
  obtain i where "i < length (rv_rows s)" "r = rv_rows s ! i" using assms(2) by (auto simp: in_set_conv_nth)
  then show ?thesis using assms(1) by (intro that [of "rv_rows t ! i"]) (auto simp: kept_def list_all2_conv_all_nth)
qed

lemma reconcile_settles:
  assumes ok: "rec_ok s" and r: "r \<in> set (rv_rows s)" "unsettled now r" "definite lk r" "now - rg_createdAt r > abandon_ms"
    and few: "length (filter (unsettled now) (rv_rows s)) \<le> 25"
  shows "\<exists>y. rec_with_id (reconcile True lk bucket now s) (rg_id r) = Some y \<and> (rg_status y = READY \<or> rg_status y = FAILED)"
proof -
  let ?t = "stop_overrunning lk now (stop_ended_classes lk s)"
  let ?xs = "filter (unsettled now) (rv_rows ?t)"
  have ok': "rec_ok ?t" using ok by (intro rec_ok_overrunning rec_ok_stop_ended)
  have k: "kept s ?t" using ok by (rule kept_stops)
  obtain y where y: "y \<in> set (rv_rows ?t)" "still r y" using kept_row [OF k r(1)] .
  have u: "y \<in> set ?xs" using y r(2) by (auto simp: still_def unsettled_def running_def)
  have d: "definite lk y" "now - rg_createdAt y > abandon_ms" "rg_id y = rg_id r" using y(2) r(3,4) by (simp_all add: still_def definite_def)
  have dist: "distinct (map rg_id ?xs)" using ok' by (simp add: rec_ok_def distinct_map_filter)
  have rows: "\<exists>z. rec_with_id ?t (rg_id x) = Some z \<and> rg_egressId z = rg_egressId x" if "x \<in> set ?xs" for x
    using rec_with_idI [OF ok', of x] that by simp
  have "reconcile True lk bucket now s = foldl (reconcile_row lk bucket now) ?t ?xs"
    using few kept_unsettled [OF k, of now] by (simp add: reconcile_def Let_def)
  then show ?thesis using reconcile_rows_lookup [OF ok' dist rows u d(1,2)] d(3) by simp
qed

end
