(* ===== verification/RecordingLaws.thy ===== *)
theory RecordingLaws
  imports RecordingRuns
begin

text \<open>
  What the runs of the recordings service give: one recording at a time, workspaces that cannot reach
  one another's recordings, share links, retention, and the reconciler that settles every row.
\<close>

section \<open>One recording at a time\<close>

definition one_running :: "rec_state \<Rightarrow> bool" where
  "one_running s \<longleftrightarrow>
     (\<forall>x \<in> set (rv_rows s). \<forall>y \<in> set (rv_rows s).
        running (rg_status x) \<and> running (rg_status y) \<and> rg_sessionId x = rg_sessionId y \<longrightarrow> x = y)"

text \<open>Every row of the second table is one of the first, of the same class, and runs only if that did.\<close>

definition tame :: "rec_state \<Rightarrow> rec_state \<Rightarrow> bool" where
  "tame s t \<longleftrightarrow>
     (\<forall>y \<in> set (rv_rows t). \<exists>x \<in> set (rv_rows s). rg_id x = rg_id y \<and> rg_sessionId x = rg_sessionId y \<and>
        (running (rg_status y) \<longrightarrow> running (rg_status x)))"

lemma tame_refl [simp]: "tame s s"
  by (auto simp: tame_def)

lemma tame_trans: "tame s t \<Longrightarrow> tame t u \<Longrightarrow> tame s u"
  unfolding tame_def by metis

lemma tame_one_running: "one_running s \<Longrightarrow> tame s t \<Longrightarrow> rec_ok t \<Longrightarrow> one_running t"
  unfolding one_running_def tame_def by (metis same_rec)

lemma tame_sub: "set (rv_rows t) \<subseteq> set (rv_rows s) \<Longrightarrow> tame s t"
  unfolding tame_def by blast

lemma tame_emit [simp]: "tame s (rec_emit sid b t) = tame s t"
  by (simp add: tame_def rec_emit_def)

lemma tame_map:
  assumes "rv_rows t = map g (rv_rows s)"
    "\<And>x. rg_id (g x) = rg_id x \<and> rg_sessionId (g x) = rg_sessionId x \<and> (running (rg_status (g x)) \<longrightarrow> running (rg_status x))"
  shows "tame s t"
  unfolding tame_def assms(1) using assms(2) by auto

lemma tame_update:
  assumes "update_rec i f s = Inr t"
    "\<And>x. rg_id (f x) = rg_id x \<and> rg_sessionId (f x) = rg_sessionId x \<and> (running (rg_status (f x)) \<longrightarrow> running (rg_status x))"
  shows "tame s t"
proof -
  have "rv_rows t = map (\<lambda>x. if rg_id x = i then f x else x) (rv_rows s)"
    using assms(1) by (auto elim: update_recD)
  then show ?thesis by (rule tame_map) (use assms(2) in auto)
qed

lemma tame_keep: "(\<And>t. r = Inr t \<Longrightarrow> tame s t) \<Longrightarrow> tame s (keep_going s r)"
  by (simp add: keep_going_def split: sum.split)

lemma tame_apply: "apply_egress_result bucket now e s = Inr t \<Longrightarrow> tame s t"
  by (auto simp: apply_egress_result_def Let_def running_def elim!: tame_update split: option.splits if_splits)

lemma tame_webhook: "webhook bucket now event info s = Inr t \<Longrightarrow> tame s t"
  by (auto simp: webhook_def split: if_splits option.splits dest: tame_apply)

lemma tame_stop_row: "tame s (stop_row lk s r)"
  by (auto simp: stop_row_def running_def intro!: tame_keep elim!: tame_update split: option.splits)

lemma tame_reconcile_row: "tame s (reconcile_row lk bucket now s r)"
  by (auto simp: reconcile_row_def fail_rec_def Let_def running_def
      intro!: tame_keep elim!: tame_update dest: tame_apply split: sum.splits option.splits)

lemma tame_foldl: "(\<And>t r. tame t (f t r)) \<Longrightarrow> tame s (foldl f s rs)"
proof (induction rs arbitrary: s)
  case (Cons r rs)
  show ?case using Cons.IH [of "f s r"] Cons.prems tame_trans by fastforce
qed simp

lemma tame_reconcile: "tame s (reconcile configured lk bucket now s)"
proof -
  have "tame s (stop_ended_classes lk s)"
    unfolding stop_ended_classes_def by (rule tame_foldl) (rule tame_stop_row)
  moreover have "tame t (stop_overrunning lk now t)" for t
    unfolding stop_overrunning_def by (rule tame_foldl) (simp add: tame_stop_row split: option.split)
  moreover have "tame t (foldl (reconcile_row lk bucket now) t rs)" for t rs
    by (rule tame_foldl) (rule tame_reconcile_row)
  ultimately show ?thesis by (simp add: reconcile_def Let_def) (metis tame_trans)
qed

lemma tame_sweep: "rec_ok s \<Longrightarrow> tame s (fst (sweep_expired_recordings s now limit))"
  using swept_end [of s now limit]
  by (cases "sweep_expired_recordings s now limit") (auto simp: swept_def intro!: tame_sub)

fun starts_it :: "rec_op \<Rightarrow> bool" where
  "starts_it (CreateRow i now org session uid) = True"
| "starts_it (EgressAnswer i egress) = True"
| "starts_it op = False"

lemma tame_step: "rec_ok s \<Longrightarrow> \<not> starts_it op \<Longrightarrow> tame s (rec_step s op)"
proof (cases op)
  case (UnshareCall user i)
  have "tame s (s\<lparr>rv_rows := map (\<lambda>r. if rg_id r = i \<and> rg_organizationId r = org
      then r\<lparr>rg_shareToken := None, rg_shareExpiresAt := None\<rparr> else r) (rv_rows s)\<rparr>)" for org
    by (rule tame_map [where g = "\<lambda>r :: recording_row. if rg_id r = i \<and> rg_organizationId r = org
      then r\<lparr>rg_shareToken := None, rg_shareExpiresAt := None\<rparr> else r"]) simp_all
  then show ?thesis using UnshareCall by (simp add: unshare_def split: sum.split)
next
  case (Webhook bucket now event info)
  then show ?thesis by (auto intro!: tame_keep dest: tame_webhook)
qed (auto simp: stop_recording_def share_def remove_recording_def running_def tame_sweep tame_reconcile
    intro!: tame_sub elim!: tame_update split: sum.splits option.splits)

text \<open>A start made in one piece, between other operations.\<close>

lemma start_checksD:
  assumes "start_checks s user sid reach cam pub = Inr (org, session, p)"
  shows "assert_staff user = Inr org" "ls_id session = sid" "ls_status session = LIVE"
    "\<exists>c. session_course (rv_db s) sid = Some (session, c) \<and> co_organizationId c = Some org"
    "\<forall>r \<in> set (rv_rows s). rg_sessionId r = sid \<longrightarrow> \<not> running (rg_status r)" "\<not> us_full (rec_usage_of s org)"
proof -
  obtain se c where sc: "session_course (rv_db s) sid = Some (se, c)"
    using assms by (auto simp: start_checks_def res)
  then have "ls_id se = sid" by (auto dest!: session_courseD find_sessionD)
  moreover have "assert_staff user = Inr org \<and> se = session \<and> co_organizationId c = Some org \<and> ls_status session = LIVE \<and>
      (\<forall>r \<in> set (rv_rows s). rg_sessionId r = sid \<longrightarrow> \<not> running (rg_status r)) \<and> \<not> us_full (rec_usage_of s org)"
    using assms sc by (auto simp: start_checks_def res Let_def list_ex_iff)
  ultimately show "assert_staff user = Inr org" "ls_id session = sid" "ls_status session = LIVE"
    "\<exists>c. session_course (rv_db s) sid = Some (session, c) \<and> co_organizationId c = Some org"
    "\<forall>r \<in> set (rv_rows s). rg_sessionId r = sid \<longrightarrow> \<not> running (rg_status r)" "\<not> us_full (rec_usage_of s org)"
    using sc by auto
qed

definition serial_start ::
  "rec_state \<Rightarrow> jwt_payload \<Rightarrow> string \<Rightarrow> string option \<times> string option \<Rightarrow> bool \<Rightarrow> http_error + bool
    \<Rightarrow> string \<Rightarrow> int \<Rightarrow> string + string \<Rightarrow> rec_state"
where
  "serial_start s user sid reach cam pub i now egress =
     (if rec_with_id s i \<noteq> None then s else fst (start_recording s user sid reach cam pub i now egress))"

lemma created_row: "rec_with_id s i = None \<Longrightarrow>
    rec_with_id (start_create i now org session uid s) i = Some (new_recording i now org session uid)"
proof -
  have "find P xs = None \<Longrightarrow> P r \<Longrightarrow> find P (xs @ [r]) = Some r" for P xs and r :: recording_row
    by (induction xs) (auto split: if_splits)
  then show "rec_with_id s i = None \<Longrightarrow>
    rec_with_id (start_create i now org session uid s) i = Some (new_recording i now org session uid)"
    by (simp add: rec_with_id_def start_create_def new_recording_def)
qed

lemma tame_finish:
  assumes ok: "rec_ok s" and r: "rec_with_id s i = Some r" "running (rg_status r)"
  shows "tame s (fst (start_finish s i org sid egress))"
proof -
  have run: "tame s t" if u: "update_rec i f s = Inr t" and f: "\<And>x. rg_id (f x) = rg_id x \<and> rg_sessionId (f x) = rg_sessionId x"
    for f t
  proof -
    have t: "rv_rows t = map (\<lambda>x. if rg_id x = i then f x else x) (rv_rows s)" using u by (auto elim: update_recD)
    have "running (rg_status x)" if "x \<in> set (rv_rows s)" "rg_id x = i" for x
      using rec_with_idI [OF ok that(1)] r that(2) by simp
    then show ?thesis unfolding tame_def t using f by fastforce
  qed
  show ?thesis by (auto simp: start_finish_def Let_def intro!: run split: sum.split)
qed

lemma serial_start_one:
  assumes ok: "rec_ok s" and one: "one_running s"
  shows "rec_ok (serial_start s user sid reach cam pub i now egress) \<and> one_running (serial_start s user sid reach cam pub i now egress)"
proof (cases "rec_with_id s i \<noteq> None \<or> (\<exists>e. start_checks s user sid reach cam pub = Inl e)")
  case True
  then show ?thesis using assms by (auto simp: serial_start_def start_recording_def)
next
  case False
  then obtain org session p where c: "start_checks s user sid reach cam pub = Inr (org, session, p)" and new: "rec_with_id s i = None"
    by (cases "start_checks s user sid reach cam pub") auto
  let ?s = "start_create i now org session (jwt_sub user) s"
  let ?r = "new_recording i now org session (jwt_sub user)"
  have e: "serial_start s user sid reach cam pub i now egress = fst (start_finish ?s i org (ls_id session) egress)"
    using new c by (simp add: serial_start_def start_recording_def)
  have ok': "rec_ok ?s" using ok new by (rule rec_ok_create)
  have row: "rec_with_id ?s i = Some ?r" "rg_organizationId ?r = org" "running (rg_status ?r)" "rg_sessionId ?r = sid"
    using created_row [OF new] start_checksD(2) [OF c] by (simp_all add: new_recording_def running_def)
  have "one_running ?s"
    using one start_checksD(5) [OF c] row(4) by (auto simp: one_running_def start_create_def)
  moreover have "rec_ok (fst (start_finish ?s i org (ls_id session) egress))"
    using rec_ok_finish [OF ok' row(1)] row(2) by simp
  ultimately show ?thesis
    using tame_finish [OF ok' row(1,3)] tame_one_running e by metis
qed

text \<open>A run in which every start is made in one piece.\<close>

datatype serial_op =
    StartCall jwt_payload string "string option \<times> string option" bool "http_error + bool" string int "string + string"
  | OtherOp rec_op

fun serial_step :: "rec_state \<Rightarrow> serial_op \<Rightarrow> rec_state" where
  "serial_step s (StartCall user sid reach cam pub i now egress) = serial_start s user sid reach cam pub i now egress"
| "serial_step s (OtherOp op) = (if starts_it op then s else rec_step s op)"

interpretation serial: invariant_system serial_step "\<lambda>s. rec_ok s \<and> one_running s"
proof
  fix s e
  assume i: "rec_ok s \<and> one_running s"
  show "rec_ok (serial_step s e) \<and> one_running (serial_step s e)"
  proof (cases e)
    case (OtherOp op)
    then show ?thesis using i recordings.inv_step tame_step tame_one_running by (cases "starts_it op") auto
  qed (use i serial_start_one in auto)
qed

section \<open>Workspaces\<close>

text \<open>The person an operation is asked by; the other operations are the system's own.\<close>

fun asker :: "rec_op \<Rightarrow> jwt_payload option" where
  "asker (StopCall u sid stopped) = Some u"
| "asker (ShareCall u i days token now) = Some u"
| "asker (UnshareCall u i) = Some u"
| "asker (RemoveCall u i) = Some u"
| "asker op = None"

text \<open>The recordings somebody may touch: those of the workspace of a member of staff.\<close>

definition may_touch :: "jwt_payload \<Rightarrow> recording_row \<Rightarrow> bool" where
  "may_touch u r \<longleftrightarrow> jwt_role u \<noteq> STUDENT \<and> jwt_organizationId u = Some (rg_organizationId r)"

lemma staff_touch: "assert_staff u = Inr org \<Longrightarrow> may_touch u r \<longleftrightarrow> rg_organizationId r = org"
  by (auto simp: assert_staff_def may_touch_def split: if_splits option.splits)

lemma others_update:
  assumes "rec_ok s" "update_rec i f s = Inr t" "rec_with_id s i = Some r" "P r" "\<And>x. rg_organizationId (f x) = rg_organizationId x"
    "\<And>x y. rg_organizationId x = rg_organizationId y \<Longrightarrow> P x = P y"
  shows "filter (\<lambda>x. \<not> P x) (rv_rows t) = filter (\<lambda>x. \<not> P x) (rv_rows s)"
proof -
  have t: "rv_rows t = map (\<lambda>x. if rg_id x = i then f x else x) (rv_rows s)" using assms(2) by (auto elim: update_recD)
  have one: "P x" if "x \<in> set (rv_rows s)" "rg_id x = i" for x using rec_with_idI [OF assms(1) that(1)] that assms(3,4) by simp
  have "P (f x) = P x" for x by (rule assms(6)) (rule assms(5))
  then have "filter (\<lambda>x. \<not> P x) (map (\<lambda>x. if rg_id x = i then f x else x) xs) = filter (\<lambda>x. \<not> P x) xs"
    if "set xs \<subseteq> set (rv_rows s)" for xs
    using that one by (induction xs) auto
  then show ?thesis by (simp add: t)
qed

lemma others_kept:
  assumes ok: "rec_ok s" and u: "asker op = Some u"
  shows "filter (\<lambda>r. \<not> may_touch u r) (rv_rows (rec_step s op)) = filter (\<lambda>r. \<not> may_touch u r) (rv_rows s)"
proof (cases "assert_staff u")
  case (Inl e)
  then show ?thesis using u by (cases op) (auto simp: stop_recording_def share_def unshare_def remove_recording_def)
next
  case (Inr org)
  have mine: "may_touch u r \<longleftrightarrow> rg_organizationId r = org" for r by (rule staff_touch [OF Inr])
  have upd: "filter (\<lambda>r. rg_organizationId r \<noteq> org) (rv_rows t) = filter (\<lambda>r. rg_organizationId r \<noteq> org) (rv_rows s)"
    if "update_rec i f s = Inr t" "rec_with_id s i = Some r" "rg_organizationId r = org"
      "\<And>x. rg_organizationId (f x) = rg_organizationId x" for i f t r
    by (rule others_update [where P = "\<lambda>r. rg_organizationId r = org", OF ok that(1,2)]) (use that in auto)
  show ?thesis
  proof (cases op)
    case (StopCall v sid stopped)
    have "filter (\<lambda>r. rg_organizationId r \<noteq> org) (rv_rows t) = filter (\<lambda>r. rg_organizationId r \<noteq> org) (rv_rows s)"
      if f: "find (\<lambda>r. rg_sessionId r = sid \<and> rg_organizationId r = org \<and> running (rg_status r)) (rv_rows s) = Some r"
        and t: "update_rec (rg_id r) (\<lambda>x. x\<lparr>rg_status := PROCESSING\<rparr>) s = Inr t" for r t
    proof -
      have "r \<in> set (rv_rows s)" "rg_organizationId r = org" using f by (auto simp: find_Some_iff)
      then show ?thesis by (intro upd [OF t rec_with_idI [OF ok]]) auto
    qed
    then show ?thesis
      using StopCall u Inr by (auto simp: mine stop_recording_def rec_emit_def split: option.split sum.split)
  next
    case (ShareCall v i days token now)
    then show ?thesis
      using u Inr by (auto simp: mine share_def split: option.split sum.split
          intro!: upd dest: own_with_id [OF ok] own_recordingD)
  next
    case (UnshareCall v i)
    have "filter (\<lambda>r. rg_organizationId r \<noteq> org) (map (\<lambda>r. if rg_id r = i \<and> rg_organizationId r = org
        then r\<lparr>rg_shareToken := None, rg_shareExpiresAt := None\<rparr> else r) rows) = filter (\<lambda>r. rg_organizationId r \<noteq> org) rows"
      for rows :: "recording_row list"
      by (induction rows) auto
    then show ?thesis using UnshareCall u Inr by (simp add: mine unshare_def)
  next
    case (RemoveCall v i)
    have "filter (\<lambda>r. rg_id r \<noteq> i \<and> rg_organizationId r \<noteq> org) (rv_rows s) = filter (\<lambda>r. rg_organizationId r \<noteq> org) (rv_rows s)"
      if "own_recording s org i = Some r" for r
      using own_recordingD [OF that] same_rec [OF ok] by (intro filter_cong) auto
    then show ?thesis
      using RemoveCall u Inr by (auto simp: mine remove_recording_def drop_rec_def purge_def split: option.split)
  qed (use u in auto)
qed

section \<open>What a sweep leaves\<close>

lemma dropped_sub: "set (rv_rows (foldl (\<lambda>s r. drop_rec (rg_id r) (purge r s)) s old)) \<subseteq> set (rv_rows s)"
  by (auto simp: dropped_rows)

text \<open>A sweep that is not cut by the limit has emptied every workspace it passed.\<close>

definition clear_of :: "int \<Rightarrow> rec_org \<Rightarrow> rec_state \<Rightarrow> bool" where
  "clear_of now g s \<longleftrightarrow>
     (\<forall>days. og_recordingRetentionDays g = Some days \<and> days > 0 \<longrightarrow> \<not> list_ex (expired now g days) (rv_rows s))"

lemma clear_sub: "clear_of now g s \<Longrightarrow> set (rv_rows t) \<subseteq> set (rv_rows s) \<Longrightarrow> clear_of now g t"
  by (auto simp: clear_of_def list_ex_iff)

lemma sweep_org_clear:
  assumes "sweep_org now limit (s, n, b) g = (t, m, c)"
  shows "set (rv_rows t) \<subseteq> set (rv_rows s)" "(b \<longrightarrow> n \<ge> limit) \<Longrightarrow> (c \<longrightarrow> m \<ge> limit)"
    "(b \<longrightarrow> n \<ge> limit) \<Longrightarrow> m < limit \<Longrightarrow> clear_of now g t"
proof -
  define old where "old days = take (nat (max 1 (limit - n))) (filter (expired now g days) (rv_rows s))" for days
  show "set (rv_rows t) \<subseteq> set (rv_rows s)"
    using assms by (auto simp: sweep_org_def Let_def dropped_rows split: if_splits option.splits)
  show "(b \<longrightarrow> n \<ge> limit) \<Longrightarrow> (c \<longrightarrow> m \<ge> limit)"
    using assms by (auto simp: sweep_org_def Let_def split: if_splits option.splits)
  assume b: "b \<longrightarrow> n \<ge> limit" and m: "m < limit"
  show "clear_of now g t"
  proof (cases "b \<or> (case og_recordingRetentionDays g of None \<Rightarrow> True | Some d \<Rightarrow> d \<le> 0)")
    case True
    then show ?thesis using assms b m by (auto simp: sweep_org_def clear_of_def split: option.splits)
  next
    case False
    then obtain days where days: "og_recordingRetentionDays g = Some days" "days > 0" "\<not> b" by (auto split: option.splits)
    have t: "t = foldl (\<lambda>s r. drop_rec (rg_id r) (purge r s)) s (old days)" "m = n + int (length (old days))"
      using assms days by (simp_all add: sweep_org_def Let_def old_def)
    then have "length (old days) < nat (max 1 (limit - n))" using m by simp
    then have all: "old days = filter (expired now g days) (rv_rows s)" by (simp add: old_def)
    have "\<not> expired now g days r" if "r \<in> set (rv_rows t)" for r
      using that unfolding t(1) dropped_rows all by auto
    then show ?thesis using days by (auto simp: clear_of_def list_ex_iff)
  qed
qed

lemma sweep_grows: "fst (snd (foldl (sweep_org now limit) acc gs)) \<ge> fst (snd acc)"
proof (induction gs arbitrary: acc)
  case (Cons g gs)
  have "fst (snd (sweep_org now limit acc g)) \<ge> fst (snd acc)"
    by (auto simp: sweep_org_def Let_def split: prod.split option.split)
  then show ?case using Cons.IH [of "sweep_org now limit acc g"] by simp
qed simp

lemma sweep_clear:
  assumes "foldl (sweep_org now limit) acc gs = (t, m, c)" "snd (snd acc) \<longrightarrow> fst (snd acc) \<ge> limit" "m < limit"
  shows "set (rv_rows t) \<subseteq> set (rv_rows (fst acc)) \<and> (\<forall>g \<in> set gs. clear_of now g t)"
  using assms
proof (induction gs arbitrary: acc)
  case (Cons g gs)
  obtain s n b where acc: "acc = (s, n, b)" by (cases acc)
  obtain s1 n1 b1 where st: "sweep_org now limit (s, n, b) g = (s1, n1, b1)" by (cases "sweep_org now limit (s, n, b) g")
  note one = sweep_org_clear [OF st]
  have b1: "b1 \<longrightarrow> n1 \<ge> limit" using one(2) Cons.prems(2) acc by simp
  have ih: "set (rv_rows t) \<subseteq> set (rv_rows s1) \<and> (\<forall>g \<in> set gs. clear_of now g t)"
    using Cons.IH [of "(s1, n1, b1)"] Cons.prems(1,3) acc st b1 by simp
  have "n1 \<le> m" using sweep_grows [of "(s1, n1, b1)" now limit gs] Cons.prems(1) acc st by simp
  then have "clear_of now g s1" using one(3) Cons.prems(2,3) acc by simp
  then show ?case using ih one(1) acc clear_sub by fastforce
qed simp

section \<open>Properties\<close>

definition demo_staff :: jwt_payload where
  "demo_staff = \<lparr>jwt_sub = ''u'', jwt_role = INSTRUCTOR, jwt_name = ''N'', jwt_email = ''e'', jwt_organizationId = Some ''o'',
     jwt_emailVerified = True, jwt_isSuperAdmin = False, jwt_recorder = None, jwt_preview = None\<rparr>"

definition demo_live :: session_row where
  "demo_live = \<lparr>ls_id = ''c'', ls_courseId = ''k'', ls_status = LIVE, ls_livekitRoom = ''m''\<rparr>"

definition demo_rec_db :: db where
  "demo_rec_db = empty_db\<lparr>db_sessions := [demo_live],
     db_courses := [\<lparr>co_id = ''k'', co_instructorId = None, co_organizationId = Some ''o'', co_pluginKeys = None\<rparr>]\<rparr>"

definition demo_keeper :: rec_org where
  "demo_keeper = \<lparr>og_id = ''o'', og_name = ''O'', og_storageQuotaBytes = None, og_recordingRetentionDays = Some 1,
     og_maxRecordingMinutes = None, og_recordingQuality = None\<rparr>"

lemmas demo_recs = demo_staff_def demo_live_def demo_rec_db_def demo_keeper_def empty_db_def rec_start_def new_recording_def

text \<open>When every start runs in one piece, then whatever stops, webhooks, reconciliations, sweeps and
  deletions come between, a class never has two recordings running: any two running rows of the same
  class are the same row.\<close>

lemma one_recording_at_a_time:
  assumes "s = foldl serial_step (rec_start d orgs) ops" "x \<in> set (rv_rows s)" "y \<in> set (rv_rows s)"
    "running (rg_status x)" "running (rg_status y)" "rg_sessionId x = rg_sessionId y"
  shows "x = y"
proof -
  have "rec_ok s \<and> one_running s"
    unfolding assms(1) by (rule serial.inv_run) (simp add: rec_ok_def one_running_def rec_start_def)
  then show ?thesis using assms(2-6) by (auto simp: one_running_def)
qed

lemma one_recording_at_a_time_witness:
  "let s = foldl serial_step (rec_start demo_rec_db [])
       [StartCall demo_staff ''c'' (Some ''w'', Some ''a'') False (Inr False) ''r1'' 5 (Inr ''e1''),
        StartCall demo_staff ''c'' (Some ''w'', Some ''a'') False (Inr False) ''r2'' 6 (Inr ''e2'')] in
   map rg_id (rv_rows s) = [''r1''] \<and> hd (rv_rows s) = last (rv_rows s)"
proof -
  let ?s = "foldl serial_step (rec_start demo_rec_db [])
       [StartCall demo_staff ''c'' (Some ''w'', Some ''a'') False (Inr False) ''r1'' 5 (Inr ''e1''),
        StartCall demo_staff ''c'' (Some ''w'', Some ''a'') False (Inr False) ''r2'' 6 (Inr ''e2'')]"
  have r: "rv_rows ?s = [(new_recording ''r1'' 5 ''o'' demo_live ''u'')\<lparr>rg_egressId := Some ''e1'',
      rg_storageKey := Some (storage_key ''o'' ''r1''), rg_status := RECORDING\<rparr>]" by code_simp
  have "hd (rv_rows ?s) = last (rv_rows ?s)"
    by (rule one_recording_at_a_time [OF refl [of ?s]]) (simp_all only: r, simp_all add: running_def)
  then show ?thesis using r by (simp add: new_recording_def)
qed

text \<open>Nobody reaches a recording of another workspace: whatever stop, share, unshare or delete
  request a person sends, for whatever id, the recordings that are not of their own workspace are
  afterwards exactly the ones there were, and for somebody who is not staff that holds of every
  recording.\<close>

lemma recordings_stay_in_their_workspace:
  assumes "s = foldl rec_step (rec_start d orgs) ops" "asker op = Some u"
  shows "filter (\<lambda>r. \<not> (jwt_role u \<noteq> STUDENT \<and> jwt_organizationId u = Some (rg_organizationId r))) (rv_rows (rec_step s op)) =
    filter (\<lambda>r. \<not> (jwt_role u \<noteq> STUDENT \<and> jwt_organizationId u = Some (rg_organizationId r))) (rv_rows s)"
  using others_kept [OF rec_run assms(2)] unfolding assms(1) may_touch_def by simp

lemma recordings_stay_in_their_workspace_witness:
  "let s = rec_step (rec_start demo_rec_db []) (CreateRow ''r1'' 5 ''x'' demo_live ''v'') in
   filter (\<lambda>r. \<not> (jwt_role demo_staff \<noteq> STUDENT \<and> jwt_organizationId demo_staff = Some (rg_organizationId r)))
     (rv_rows (rec_step s (RemoveCall demo_staff ''r1''))) = [new_recording ''r1'' 5 ''x'' demo_live ''v'']"
proof -
  have s: "foldl rec_step (rec_start demo_rec_db []) [CreateRow ''r1'' 5 ''x'' demo_live ''v''] =
      (rec_start demo_rec_db [])\<lparr>rv_rows := [new_recording ''r1'' 5 ''x'' demo_live ''v'']\<rparr>"
    by (simp add: rec_with_id_def start_create_def rec_start_def)
  show ?thesis
    using recordings_stay_in_their_workspace [OF s [symmetric], of "RemoveCall demo_staff ''r1''" demo_staff] s
    by (simp add: demo_recs)
qed

text \<open>A share link opens one recording and no more: in any state the service reaches, a token that is
  answered belongs to a single recording, which is ready and whose link has not expired, the address
  given is that recording's own file under its own workspace, and once somebody of that workspace
  withdraws the link the token is refused at any time.\<close>

lemma share_link_opens_its_recording:
  assumes "s = foldl rec_step (rec_start d orgs) ops" "by_shared_token s token now = Inr (r, key, life)"
  shows "r \<in> set (rv_rows s) \<and> rg_status r = READY \<and> (\<forall>x \<in> set (rv_rows s). rg_shareToken x = Some token \<longleftrightarrow> x = r) \<and>
    (\<forall>t. rg_shareExpiresAt r = Some t \<longrightarrow> now \<le> t) \<and> key = storage_key (rg_organizationId r) (rg_id r) \<and>
    (\<forall>u later. assert_staff u = Inr (rg_organizationId r) \<longrightarrow>
       by_shared_token (fst (unshare s u (rg_id r))) token later = Inl (NotFound ''That link is not valid''))"
proof -
  have ok: "rec_ok s" unfolding assms(1) by (rule rec_run)
  have f: "find (\<lambda>r. rg_shareToken r = Some token) (rv_rows s) = Some r" and st: "rg_status r = READY"
    and key: "rg_storageKey r = Some key" and ex: "\<forall>t. rg_shareExpiresAt r = Some t \<longrightarrow> now \<le> t"
    using assms(2) by (auto simp: by_shared_token_def falsy_def split: option.splits if_splits)
  have r: "r \<in> set (rv_rows s)" "rg_shareToken r = Some token" using f by (auto simp: find_Some_iff)
  have uniq: "rg_shareToken x = Some token \<longleftrightarrow> x = r" if "x \<in> set (rv_rows s)" for x
    using by_token [OF ok that r(1)] r(2) by auto
  have "rec_row_ok r" using ok r(1) by (simp add: rec_ok_def list_all_iff)
  then have path: "key = storage_key (rg_organizationId r) (rg_id r)" using key by (cases "rg_egressId r") (simp_all add: rec_row_ok_def)
  have gone: "by_shared_token (fst (unshare s u (rg_id r))) token later = Inl (NotFound ''That link is not valid'')"
    if u: "assert_staff u = Inr (rg_organizationId r)" for u later
  proof -
    have own: "own_recording s (rg_organizationId r) (rg_id r) \<noteq> None"
      using r(1) by (auto simp: own_recording_def find_None_iff)
    have "find (\<lambda>x. rg_shareToken x = Some token) (rv_rows (fst (unshare s u (rg_id r)))) = None"
      using uniq own u by (auto simp: find_None_iff unshare_def)
    then show ?thesis by (simp add: by_shared_token_def)
  qed
  show ?thesis using r(1) st uniq ex path gone by blast
qed

lemma share_link_opens_its_recording_witness:
  "let r = (new_recording ''r1'' 5 ''o'' demo_live ''v'')\<lparr>rg_egressId := Some ''e1'', rg_status := READY,
     rg_storageKey := Some (storage_key ''o'' ''r1''), rg_readyAt := Some 9, rg_sizeBytes := Some 7,
     rg_shareToken := Some ''t'', rg_shareExpiresAt := Some 86400010\<rparr>;
     s = foldl rec_step (rec_start demo_rec_db []) [CreateRow ''r1'' 5 ''o'' demo_live ''v'', EgressAnswer ''r1'' (Inr ''e1''),
       Webhook (\<lambda>_. Some 7) 9 ''egress_ended'' (Some \<lparr>ei_egressId = ''e1'', ei_status = EGRESS_COMPLETE, ei_size = None,
         ei_duration = None, ei_startedAt = 0, ei_endedAt = 0, ei_error = []\<rparr>),
       ShareCall demo_staff ''r1'' (Some 1) ''t'' 10] in
   by_shared_token s ''t'' 11 = Inr (r, storage_key ''o'' ''r1'', 21600) \<and>
   by_shared_token (fst (unshare s demo_staff ''r1'')) ''t'' 11 = Inl (NotFound ''That link is not valid'')"
proof -
  let ?r = "(new_recording ''r1'' 5 ''o'' demo_live ''v'')\<lparr>rg_egressId := Some ''e1'', rg_status := READY,
     rg_storageKey := Some (storage_key ''o'' ''r1''), rg_readyAt := Some 9, rg_sizeBytes := Some 7,
     rg_shareToken := Some ''t'', rg_shareExpiresAt := Some 86400010\<rparr>"
  let ?s = "foldl rec_step (rec_start demo_rec_db []) [CreateRow ''r1'' 5 ''o'' demo_live ''v'', EgressAnswer ''r1'' (Inr ''e1''),
       Webhook (\<lambda>_. Some 7) 9 ''egress_ended'' (Some \<lparr>ei_egressId = ''e1'', ei_status = EGRESS_COMPLETE, ei_size = None,
         ei_duration = None, ei_startedAt = 0, ei_endedAt = 0, ei_error = []\<rparr>),
       ShareCall demo_staff ''r1'' (Some 1) ''t'' 10]"
  have t: "by_shared_token ?s ''t'' 11 = Inr (?r, storage_key ''o'' ''r1'', 21600)" by code_simp
  have "assert_staff demo_staff = Inr (rg_organizationId ?r)" "rg_id ?r = ''r1''"
    by (simp_all add: assert_staff_def demo_recs)
  then show ?thesis using share_link_opens_its_recording [OF refl t] t by (simp add: Let_def)
qed

text \<open>C27: Retention deletes what it should and nothing else: a sweep deletes at most its limit, reports
  exactly how many recordings it deleted, deletes only recordings that are past their own workspace's
  window and are not being made, and when it did not reach its limit no recording past its window is
  left.\<close>

lemma retention_sweep_is_exact:
  assumes "s = foldl rec_step (rec_start d orgs) ops" "sweep_expired_recordings s now limit = (t, n)" "limit \<ge> 1"
  shows "n \<le> limit \<and> n = int (length (rv_rows s)) - int (length (rv_rows t)) \<and>
    (\<forall>r \<in> set (rv_rows s). r \<in> set (rv_rows t) \<or> past_retention now (rv_orgs s) r) \<and>
    (n < limit \<longrightarrow> (\<forall>r \<in> set (rv_rows t). \<not> past_retention now (rv_orgs s) r))"
proof -
  have ok: "rec_ok s" unfolding assms(1) by (rule rec_run)
  obtain b where sw: "swept now s (t, n, b)" using swept_end [OF ok assms(2)] ..
  obtain c where f: "foldl (sweep_org now limit) (s, 0, False) (rv_orgs s) = (t, n, c)"
    using assms(2) by (auto simp: sweep_expired_recordings_def split: prod.splits)
  have "n \<le> limit" using sweep_counts [OF assms(3), of "(s, 0, False)" now "rv_orgs s"] assms(3) f by simp
  moreover have "\<not> past_retention now (rv_orgs s) r" if "n < limit" "r \<in> set (rv_rows t)" for r
  proof
    assume "past_retention now (rv_orgs s) r"
    then obtain g days where "g \<in> set (rv_orgs s)" "og_recordingRetentionDays g = Some days" "days > 0" "expired now g days r"
      by (auto simp: past_retention_def expired_def)
    then show False using sweep_clear [OF f] that by (auto simp: clear_of_def list_ex_iff)
  qed
  ultimately show ?thesis using sw by (auto simp: swept_def)
qed

lemma retention_sweep_is_exact_witness:
  "let s = foldl rec_step (rec_start demo_rec_db [demo_keeper]) [CreateRow ''r1'' 5 ''o'' demo_live ''v'', EgressAnswer ''r1'' (Inl ''no''),
      CreateRow ''r2'' 5 ''o'' demo_live ''v''];
    t = sweep_expired_recordings s 86400006 3 in
    snd t = 1 \<and> (\<forall>r \<in> set (rv_rows (fst t)). \<not> past_retention 86400006 (rv_orgs s) r)"
proof -
  let ?s = "foldl rec_step (rec_start demo_rec_db [demo_keeper]) [CreateRow ''r1'' 5 ''o'' demo_live ''v'', EgressAnswer ''r1'' (Inl ''no''),
      CreateRow ''r2'' 5 ''o'' demo_live ''v'']"
  let ?t = "sweep_expired_recordings ?s 86400006 3"
  have n: "snd ?t = 1" by code_simp
  have "?t = (fst ?t, snd ?t)" by simp
  from retention_sweep_is_exact [OF refl this] n show ?thesis by (simp add: Let_def)
qed

text \<open>C26: No recording stays in the making for ever: a recording older than the reconciler's patience,
  of which LiveKit gives any definite answer (it was never started there, LiveKit does not know it, or it
  is over), is ready or failed after one round of the reconciler, as long as no more rows wait than one
  round takes.\<close>

lemma recordings_settle:
  assumes "s = foldl rec_step (rec_start d orgs) ops" "r \<in> set (rv_rows s)" "unsettled now r" "definite lk r"
    "now - rg_createdAt r > abandon_ms" "length (filter (unsettled now) (rv_rows s)) \<le> 25"
  shows "\<exists>y. rec_with_id (reconcile True lk bucket now s) (rg_id r) = Some y \<and> (rg_status y = READY \<or> rg_status y = FAILED)"
  by (rule reconcile_settles [OF _ assms(2-6)]) (simp add: assms(1) rec_run)

lemma recordings_settle_witness:
  "let s = rec_step (rec_start demo_rec_db []) (CreateRow ''r1'' 5 ''o'' demo_live ''v'');
     lk = \<lparr>lk_stop = (\<lambda>_. False), lk_list = (\<lambda>_. Inl ())\<rparr> in
   \<exists>y. rec_with_id (reconcile True lk (\<lambda>_. None) 21600006 s) ''r1'' = Some y \<and> (rg_status y = READY \<or> rg_status y = FAILED)"
proof -
  have s: "foldl rec_step (rec_start demo_rec_db []) [CreateRow ''r1'' 5 ''o'' demo_live ''v''] =
      (rec_start demo_rec_db [])\<lparr>rv_rows := [new_recording ''r1'' 5 ''o'' demo_live ''v'']\<rparr>"
    by (simp add: rec_with_id_def start_create_def rec_start_def)
  show ?thesis
    using recordings_settle [OF s [symmetric], of "new_recording ''r1'' 5 ''o'' demo_live ''v''" 21600006
        "\<lparr>lk_stop = (\<lambda>_. False), lk_list = (\<lambda>_. Inl ())\<rparr>" "\<lambda>_. None"] s
    by (simp add: Let_def new_recording_def unsettled_def definite_def falsy_def abandon_ms_def settle_ms_def)
qed

text \<open>Two starts whose checks both pass before either has made its row leave two recordings of one class
  running.\<close>

lemma overlapping_starts_record_twice:
  "let s = rec_start demo_rec_db [] in
   start_checks s demo_staff ''c'' (Some ''w'', Some ''a'') False (Inr True) = Inr (''o'', demo_live, True) \<and>
   length (filter (\<lambda>r. running (rg_status r)) (rv_rows (start_create ''r2'' 6 ''o'' demo_live ''u''
     (start_create ''r1'' 5 ''o'' demo_live ''u'' s)))) = 2"
  by code_simp

end
