(* ===== verification/Doubles.thy ===== *)
theory Doubles
  imports Prelude
begin

text \<open>
  The double arithmetic behind the percentages of the services: a quotient of two counts, its multiple
  by 100, and \<open>Math.round\<close>. A double is kept as a fraction whose denominator is a power of
  two; \<open>fl\<close> rounds to 53 bits, ties to even. The quotients are far from the ends of the
  exponent range, so overflow and underflow do not occur.
\<close>

text \<open>How often \<open>p\<close> must be doubled to reach \<open>q\<close>.\<close>

function doublings :: "int \<Rightarrow> int \<Rightarrow> nat" where
  "doublings p q = (if p \<le> 0 \<or> q \<le> p then 0 else Suc (doublings (2 * p) q))"
  by pat_completeness auto
termination by (relation "measure (\<lambda>(p, q). nat (q - p))") auto

declare doublings.simps [simp del]

text \<open>The integer nearest to \<open>n / d\<close>, ties to even.\<close>

definition nearest :: "int \<Rightarrow> int \<Rightarrow> int" where
  "nearest n d = (let q = n div d; r = n mod d in
     if 2 * r < d \<or> (2 * r = d \<and> even q) then q else q + 1)"

definition fl :: "int \<times> int \<Rightarrow> int \<times> int" where
  "fl x = (case x of (p, q) \<Rightarrow> let k = doublings p (q * 4503599627370496) in (nearest (p * 2 ^ k) q, 2 ^ k))"

definition js_round :: "int \<times> int \<Rightarrow> int" where
  "js_round x = (case x of (m, d) \<Rightarrow> (2 * m + d) div (2 * d))"

definition quotient :: "int \<Rightarrow> int \<Rightarrow> int \<times> int" where
  "quotient p q = fl (p, q)"

definition scaled :: "int \<Rightarrow> int \<times> int \<Rightarrow> int \<times> int" where
  "scaled n x = (case x of (m, d) \<Rightarrow> fl (m * n, d))"

text \<open>\<open>Math.round((p / q) * 100)\<close> and \<open>Math.round(p / q)\<close>\<close>

definition percent :: "int \<Rightarrow> int \<Rightarrow> int" where
  "percent p q = js_round (scaled 100 (quotient p q))"

definition rounded :: "int \<Rightarrow> int \<Rightarrow> int" where
  "rounded p q = js_round (quotient p q)"

section \<open>Error bounds\<close>

lemma doublings_0 [simp]: "doublings 0 q = 0"
  by (subst doublings.simps) simp

lemma nearest_0 [simp]: "d \<ge> 0 \<Longrightarrow> nearest 0 d = 0"
  by (auto simp: nearest_def)

lemma real_div_mod: "real_of_int n = real_of_int d * real_of_int (n div d) + real_of_int (n mod d)"
  by (simp flip: of_int_mult of_int_add)

lemma doublings_reach: "p > 0 \<Longrightarrow> q \<le> p * 2 ^ doublings p q"
proof (induction p q rule: doublings.induct)
  case (1 p q)
  then show ?case by (subst doublings.simps) (auto simp: mult.assoc mult.left_commute)
qed

lemma nearest_close:
  assumes "d > 0"
  shows "\<bar>real_of_int (nearest n d) - real_of_int n / real_of_int d\<bar> \<le> 1 / 2"
proof -
  let ?r = "real_of_int (n mod d)" and ?d = "real_of_int d"
  have r: "?r / ?d \<ge> 0" "?r / ?d < 1" using assms by simp_all
  have e: "real_of_int n / ?d = real_of_int (n div d) + ?r / ?d"
    using assms real_div_mod [of n d] by (simp add: field_simps)
  have lo: "?r / ?d \<le> 1 / 2" if "2 * (n mod d) \<le> d"
  proof -
    have "2 * ?r \<le> ?d" using that by linarith
    then show ?thesis using assms by (simp add: field_simps)
  qed
  have hi: "?r / ?d \<ge> 1 / 2" if "d \<le> 2 * (n mod d)"
  proof -
    have "?d \<le> 2 * ?r" using that by linarith
    then show ?thesis using assms by (simp add: field_simps)
  qed
  show ?thesis
  proof (cases "nearest n d = n div d")
    case True
    then have "2 * (n mod d) \<le> d" by (auto simp: nearest_def Let_def split: if_splits)
    then show ?thesis unfolding e True abs_le_iff using lo r by linarith
  next
    case False
    then have n: "nearest n d = n div d + 1" "d \<le> 2 * (n mod d)" by (auto simp: nearest_def Let_def split: if_splits)
    then have "real_of_int (nearest n d) = real_of_int (n div d) + 1" by simp
    then show ?thesis unfolding e abs_le_iff using hi [OF n(2)] r by (intro conjI; linarith)
  qed
qed

abbreviation dval :: "int \<times> int \<Rightarrow> real" where
  "dval x \<equiv> real_of_int (fst x) / real_of_int (snd x)"

lemma fl_pos [simp]: "snd (fl x) > 0"
  by (simp add: fl_def Let_def split: prod.split)

lemma fl_close:
  assumes "snd x > 0" "fst x \<ge> 0"
  shows "\<bar>dval (fl x) - dval x\<bar> \<le> dval x / 9007199254740992"
proof (cases "fst x = 0")
  case True
  then show ?thesis using assms by (cases x) (simp add: fl_def)
next
  case False
  obtain p q where x: "x = (p, q)" by (cases x)
  let ?k = "doublings p (q * 4503599627370496)"
  have pos: "p > 0" "q > 0" using False assms x by simp_all
  have "real_of_int (q * 4503599627370496) \<le> real_of_int (p * 2 ^ ?k)"
    using doublings_reach [OF pos(1)] by (simp only: of_int_le_iff)
  then have "real_of_int q * 4503599627370496 \<le> real_of_int p * 2 ^ ?k" by simp
  then have small: "1 / 2 ^ ?k \<le> (real_of_int p / real_of_int q) / 4503599627370496" using pos by (simp add: field_simps)
  have near: "\<bar>real_of_int (nearest (p * 2 ^ ?k) q) - real_of_int (p * 2 ^ ?k) / real_of_int q\<bar> \<le> 1 / 2"
    using pos by (intro nearest_close)
  have "real_of_int (p * 2 ^ ?k) / real_of_int q / 2 ^ ?k = real_of_int p / real_of_int q" by simp
  moreover have "dval (fl x) = real_of_int (nearest (p * 2 ^ ?k) q) / 2 ^ ?k" by (simp add: x fl_def Let_def)
  ultimately have "dval (fl x) - dval x =
      (real_of_int (nearest (p * 2 ^ ?k) q) - real_of_int (p * 2 ^ ?k) / real_of_int q) / 2 ^ ?k"
    by (simp only: x fst_conv snd_conv diff_divide_distrib)
  then have "\<bar>dval (fl x) - dval x\<bar> = \<bar>real_of_int (nearest (p * 2 ^ ?k) q) - real_of_int (p * 2 ^ ?k) / real_of_int q\<bar> / 2 ^ ?k"
    by (simp only: abs_divide) simp
  also have "\<dots> \<le> (1 / 2) / 2 ^ ?k" using near by (intro divide_right_mono) simp_all
  also have "\<dots> \<le> (real_of_int p / real_of_int q) / 9007199254740992" using small by simp
  finally show ?thesis by (simp add: x)
qed

lemma js_round_close:
  assumes "snd x > 0"
  shows "\<bar>real_of_int (js_round x) - dval x\<bar> \<le> 1 / 2"
proof -
  obtain m d where x: "x = (m, d)" by (cases x)
  let ?n = "2 * m + d" and ?m = "real_of_int m" and ?d = "real_of_int d"
  let ?v = "real_of_int (?n div (2 * d))" and ?r = "real_of_int (?n mod (2 * d))"
  have d: "?d > 0" using assms x by simp
  have e: "2 * ?m + ?d = 2 * ?d * ?v + ?r" using real_div_mod [of ?n "2 * d"] by simp
  have "?n mod (2 * d) < 2 * d" "?n mod (2 * d) \<ge> 0" using assms x by simp_all
  then have r: "?r < 2 * ?d" "?r \<ge> 0" by linarith+
  have "2 * ?m + ?d < (2 * ?d) * ?v + 2 * ?d" using e r by linarith
  then have "?m / ?d - 1 / 2 \<le> ?v" using d by (simp add: field_simps)
  moreover have "(2 * ?d) * ?v \<le> 2 * ?m + ?d" using e r by linarith
  then have "?v \<le> ?m / ?d + 1 / 2" using d by (simp add: field_simps)
  moreover have "js_round x = ?n div (2 * d)" "dval x = ?m / ?d" by (simp_all add: x js_round_def)
  ultimately show ?thesis unfolding abs_le_iff by linarith
qed

lemma fl_nonneg: "snd x > 0 \<Longrightarrow> fst x \<ge> 0 \<Longrightarrow> fst (fl x) \<ge> 0"
  by (auto simp: fl_def nearest_def Let_def pos_imp_zdiv_nonneg_iff split: prod.split)

text \<open>A percentage is an integer nearest to the exact one (at an exact half, one of the two).\<close>

lemma percent_near:
  assumes "0 \<le> p" "p \<le> q" "q > 0"
  shows "\<bar>real_of_int (percent p q) - 100 * (real_of_int p / real_of_int q)\<bar> \<le> 1 / 2 + 1 / 2199023255552"
proof -
  let ?x = "real_of_int p / real_of_int q" and ?a = "dval (quotient p q)" and ?b = "dval (scaled 100 (quotient p q))"
  have x: "0 \<le> ?x" "?x \<le> 1" using assms by simp_all
  have a: "\<bar>?a - ?x\<bar> \<le> ?x / 9007199254740992" using fl_close [of "(p, q)"] assms by (simp add: quotient_def)
  have "\<bar>?b - 100 * ?a\<bar> \<le> 100 * ?a / 9007199254740992"
    using fl_close [of "(fst (quotient p q) * 100, snd (quotient p q))"] fl_nonneg [of "(p, q)"] assms
    by (simp add: scaled_def quotient_def case_prod_beta mult.commute)
  moreover have "\<bar>real_of_int (percent p q) - ?b\<bar> \<le> 1 / 2"
    unfolding percent_def by (rule js_round_close) (simp add: scaled_def case_prod_beta)
  moreover have "\<bar>b - 100 * a\<bar> \<le> 100 * a / 9007199254740992 \<Longrightarrow> \<bar>v - b\<bar> \<le> 1 / 2 \<Longrightarrow> \<bar>a - x\<bar> \<le> x / 9007199254740992 \<Longrightarrow>
      0 \<le> x \<Longrightarrow> x \<le> 1 \<Longrightarrow> \<bar>v - 100 * x\<bar> \<le> 1 / 2 + 1 / 2199023255552" for a b v x :: real
    unfolding abs_le_iff by (elim conjE, intro conjI; linarith)
  ultimately show ?thesis using a x by blast
qed

lemma percent_close:
  assumes "0 \<le> p" "p \<le> q" "q > 0" "q < 1099511627776"
  shows "2 * \<bar>percent p q * q - 100 * p\<bar> \<le> q"
proof -
  let ?p = "real_of_int p" and ?q = "real_of_int q" and ?v = "real_of_int (percent p q)"
  have q: "?q > 0" "?q < 1099511627776" using assms by simp_all
  have "\<bar>?v - 100 * (?p / ?q)\<bar> * ?q \<le> (1 / 2 + 1 / 2199023255552) * ?q"
    using percent_near [OF assms(1-3)] q by (intro mult_right_mono) simp_all
  moreover have "(1 / 2 + 1 / 2199023255552) * ?q < ?q / 2 + 1 / 2" using q by (simp add: distrib_right)
  moreover have "\<bar>?v - 100 * (?p / ?q)\<bar> * ?q = \<bar>?v * ?q - 100 * ?p\<bar>"
  proof -
    have "\<bar>?v - 100 * (?p / ?q)\<bar> * ?q = \<bar>(?v - 100 * (?p / ?q)) * ?q\<bar>" using q by (simp only: abs_mult abs_of_pos)
    also have "(?v - 100 * (?p / ?q)) * ?q = ?v * ?q - 100 * ?p" using q by (simp add: left_diff_distrib)
    finally show ?thesis .
  qed
  moreover have "real_of_int \<bar>percent p q * q - 100 * p\<bar> = \<bar>?v * ?q - 100 * ?p\<bar>" by simp
  moreover have "x \<le> y \<Longrightarrow> y < ?q / 2 + 1 / 2 \<Longrightarrow> x = z \<Longrightarrow> real_of_int w = z \<Longrightarrow> 2 * w \<le> q" for x y z w
    by linarith
  ultimately show ?thesis by blast
qed

lemma percent_zero [simp]: "q \<ge> 0 \<Longrightarrow> percent 0 q = 0"
  by (cases "q = 0") (simp_all add: percent_def quotient_def scaled_def fl_def js_round_def)

lemma percent_bounds:
  assumes "0 \<le> p" "p \<le> q" "q > 0" "q < 1099511627776"
  shows "0 \<le> percent p q \<and> percent p q \<le> 100"
proof -
  have "v \<le> 100" if "2 * \<bar>v * q - 100 * p\<bar> \<le> q" for v
  proof (rule ccontr)
    assume "\<not> v \<le> 100"
    then have "101 * q \<le> v * q" using assms(3) by (intro mult_right_mono) simp_all
    moreover have "x - 100 * p \<le> \<bar>x - 100 * p\<bar>" for x by simp
    ultimately have "q \<le> \<bar>v * q - 100 * p\<bar>" using assms(2) by (smt (verit))
    then show False using that assms(3) by simp
  qed
  moreover have "v \<ge> 0" if "2 * \<bar>v * q - 100 * p\<bar> \<le> q" for v
  proof (rule ccontr)
    assume "\<not> v \<ge> 0"
    then have "v * q \<le> (- 1) * q" using assms(3) by (intro mult_right_mono) simp_all
    then have "q \<le> \<bar>v * q - 100 * p\<bar>" using assms(1) by simp
    then show False using that assms(3) by simp
  qed
  ultimately show ?thesis using percent_close [OF assms] by blast
qed

end
