(* ===== verification/Exams.thy ===== *)
theory Exams
  imports Courses Doubles JsText
begin

text \<open>
  Timed exams: \<open>src/exams/exams.service.ts\<close> on its four tables. A question's id is generated by
  the database, so the operations that insert take the ids; \<open>now\<close> is the clock, which is also what
  the database stamps rows with. A score is \<open>percent\<close>, the double arithmetic of the code.
\<close>

section \<open>Rows\<close>

record exam_row =
  xm_id :: string
  xm_courseId :: string
  xm_title :: string
  xm_durationMinutes :: int
  xm_active :: bool
  xm_createdById :: string
  xm_createdAt :: int

record exam_question =
  xq_id :: string
  xq_examId :: string
  xq_body :: string
  xq_options :: "string list"
  xq_correctIndex :: int
  xq_topic :: "string option"
  xq_order :: nat

record exam_attempt =
  xa_id :: string
  xa_examId :: string
  xa_studentId :: string
  xa_startedAt :: int
  xa_submittedAt :: "int option"
  xa_score :: "int option"

record exam_answer =
  xw_attemptId :: string
  xw_questionId :: string
  xw_chosenIndex :: int

record exams =
  ex_db :: db
  ex_exams :: "exam_row list"
  ex_questions :: "exam_question list"
  ex_attempts :: "exam_attempt list"
  ex_answers :: "exam_answer list"

record question_dto =
  qd_body :: string
  qd_options :: "string list"
  qd_correctIndex :: int
  qd_topic :: "string option"

definition find_exam :: "exams \<Rightarrow> string \<Rightarrow> exam_row option" where
  "find_exam s i = find (\<lambda>e. xm_id e = i) (ex_exams s)"

definition find_attempt :: "exams \<Rightarrow> string \<Rightarrow> exam_attempt option" where
  "find_attempt s i = find (\<lambda>a. xa_id a = i) (ex_attempts s)"

definition questions_of :: "exams \<Rightarrow> string \<Rightarrow> exam_question list" where
  "questions_of s examId = filter (\<lambda>q. xq_examId q = examId) (ex_questions s)"

definition attempts_at :: "exams \<Rightarrow> string \<Rightarrow> exam_attempt list" where
  "attempts_at s examId = filter (\<lambda>a. xa_examId a = examId) (ex_attempts s)"

definition answers_in :: "exams \<Rightarrow> string \<Rightarrow> exam_answer list" where
  "answers_in s attemptId = filter (\<lambda>w. xw_attemptId w = attemptId) (ex_answers s)"

section \<open>Authoring\<close>

text \<open>The first question whose key is past its options is named, counted from one.\<close>

fun bad_question :: "nat \<Rightarrow> question_dto list \<Rightarrow> nat option" where
  "bad_question n [] = None"
| "bad_question n (q # qs) =
     (if qd_correctIndex q \<ge> int (length (qd_options q)) then Some n else bad_question (Suc n) qs)"

definition keys_in_range :: "question_dto list \<Rightarrow> unit result" where
  "keys_in_range qs =
     (case bad_question 1 qs of
        None \<Rightarrow> Inr ()
      | Some n \<Rightarrow> Inl (BadRequest (''Question '' @ int_text (int n) @ '': correctIndex is out of range'')))"

definition question_rows :: "string \<Rightarrow> string list \<Rightarrow> question_dto list \<Rightarrow> exam_question list" where
  "question_rows examId ids qs =
     map (\<lambda>(i, n, q). \<lparr>xq_id = i, xq_examId = examId, xq_body = qd_body q, xq_options = qd_options q,
          xq_correctIndex = qd_correctIndex q, xq_topic = qd_topic q, xq_order = n\<rparr>)
       (zip ids (zip [0..<length qs] qs))"

definition create_exam ::
  "exams \<Rightarrow> jwt_payload \<Rightarrow> string \<Rightarrow> string \<Rightarrow> int \<Rightarrow> question_dto list \<Rightarrow> string \<Rightarrow> string list \<Rightarrow> int
    \<Rightarrow> exams \<times> unit result"
where
  "create_exam s user courseId title duration qs i ids now =
     (case rbind (assert_can_manage_course (ex_db s) user courseId) (\<lambda>_. keys_in_range qs) of
        Inl e \<Rightarrow> (s, Inl e)
      | Inr _ \<Rightarrow>
          (s\<lparr>ex_exams := ex_exams s @ [\<lparr>xm_id = i, xm_courseId = courseId, xm_title = title,
               xm_durationMinutes = duration, xm_active = True, xm_createdById = jwt_sub user, xm_createdAt = now\<rparr>],
             ex_questions := ex_questions s @ question_rows i ids qs\<rparr>, Inr ()))"

definition course_exam :: "exams \<Rightarrow> string \<Rightarrow> string \<Rightarrow> exam_row option" where
  "course_exam s courseId examId =
     find (\<lambda>e. xm_id e = examId \<and> xm_courseId e = courseId) (ex_exams s)"

definition active_exam :: "exams \<Rightarrow> string \<Rightarrow> string \<Rightarrow> exam_row option" where
  "active_exam s courseId examId =
     find (\<lambda>e. xm_id e = examId \<and> xm_courseId e = courseId \<and> xm_active e) (ex_exams s)"

record exam_list_entry =
  xl_id :: string
  xl_title :: string
  xl_durationMinutes :: int
  xl_questionCount :: nat
  xl_submissions :: nat
  xl_averageScore :: "int option"

definition submitted_scores :: "exam_attempt list \<Rightarrow> int list" where
  "submitted_scores as = map (\<lambda>a. case xa_score a of None \<Rightarrow> 0 | Some n \<Rightarrow> n) (filter (\<lambda>a. xa_submittedAt a \<noteq> None) as)"

definition average_of :: "int list \<Rightarrow> int option" where
  "average_of scores = (if scores = [] then None else Some (rounded (sum_list scores) (int (length scores))))"

definition list_exams :: "exams \<Rightarrow> jwt_payload \<Rightarrow> string \<Rightarrow> exam_list_entry list result" where
  "list_exams s user courseId =
     rbind (assert_can_manage_course (ex_db s) user courseId) (\<lambda>_.
       Inr (map (\<lambda>e. let scores = submitted_scores (attempts_at s (xm_id e)) in
              \<lparr>xl_id = xm_id e, xl_title = xm_title e, xl_durationMinutes = xm_durationMinutes e,
               xl_questionCount = length (questions_of s (xm_id e)), xl_submissions = length scores,
               xl_averageScore = average_of scores\<rparr>)
            (sort_key (\<lambda>e. - xm_createdAt e) (filter (\<lambda>e. xm_courseId e = courseId \<and> xm_active e) (ex_exams s)))))"

record exam_form =
  xf_id :: string
  xf_title :: string
  xf_durationMinutes :: int
  xf_hasAttempts :: bool
  xf_questions :: "question_dto list"

definition ordered_questions :: "exams \<Rightarrow> string \<Rightarrow> exam_question list" where
  "ordered_questions s examId = sort_key xq_order (questions_of s examId)"

definition get_exam :: "exams \<Rightarrow> jwt_payload \<Rightarrow> string \<Rightarrow> string \<Rightarrow> exam_form result" where
  "get_exam s user courseId examId =
     rbind (assert_can_manage_course (ex_db s) user courseId) (\<lambda>_.
     rbind (from_option (NotFound ''Exam not found'') (active_exam s courseId examId)) (\<lambda>e.
       Inr \<lparr>xf_id = xm_id e, xf_title = xm_title e, xf_durationMinutes = xm_durationMinutes e,
            xf_hasAttempts = (attempts_at s examId \<noteq> []),
            xf_questions = map (\<lambda>q. \<lparr>qd_body = xq_body q, qd_options = xq_options q,
              qd_correctIndex = xq_correctIndex q, qd_topic = xq_topic q\<rparr>) (ordered_questions s examId)\<rparr>))"

text \<open>An omitted field is \<open>None\<close>.\<close>

definition update_exam ::
  "exams \<Rightarrow> jwt_payload \<Rightarrow> string \<Rightarrow> string \<Rightarrow> string option \<Rightarrow> int option \<Rightarrow> question_dto list option
    \<Rightarrow> string list \<Rightarrow> exams \<times> unit result"
where
  "update_exam s user courseId examId title duration qs ids =
     (let fields = (\<lambda>e. if xm_id e = examId
                         then e\<lparr>xm_title := (case title of None \<Rightarrow> xm_title e | Some t \<Rightarrow> t),
                                xm_durationMinutes := (case duration of None \<Rightarrow> xm_durationMinutes e | Some m \<Rightarrow> m)\<rparr>
                         else e)
      in case rbind (assert_can_manage_course (ex_db s) user courseId) (\<lambda>_.
              rbind (from_option (NotFound ''Exam not found'') (active_exam s courseId examId)) (\<lambda>_.
              case qs of
                None \<Rightarrow> Inr ()
              | Some new \<Rightarrow>
                  rbind (guard_or (attempts_at s examId = [])
                    (BadRequest ''Questions cannot change after students have attempted this exam'')) (\<lambda>_.
                  keys_in_range new))) of
           Inl e \<Rightarrow> (s, Inl e)
         | Inr _ \<Rightarrow>
             (s\<lparr>ex_exams := map fields (ex_exams s),
                ex_questions := (case qs of
                    None \<Rightarrow> ex_questions s
                  | Some new \<Rightarrow> filter (\<lambda>q. xq_examId q \<noteq> examId) (ex_questions s) @ question_rows examId ids new)\<rparr>,
              Inr ()))"

definition delete_exam :: "exams \<Rightarrow> jwt_payload \<Rightarrow> string \<Rightarrow> string \<Rightarrow> exams \<times> unit result" where
  "delete_exam s user courseId examId =
     (case rbind (assert_can_manage_course (ex_db s) user courseId) (\<lambda>_.
            from_option (NotFound ''Exam not found'') (course_exam s courseId examId)) of
        Inl e \<Rightarrow> (s, Inl e)
      | Inr _ \<Rightarrow> (s\<lparr>ex_exams := map (\<lambda>e. if xm_id e = examId then e\<lparr>xm_active := False\<rparr> else e) (ex_exams s)\<rparr>, Inr ()))"

section \<open>Results\<close>

definition topic_name :: "exam_question \<Rightarrow> string" where
  "topic_name q = (case xq_topic q of None \<Rightarrow> ''General'' | Some t \<Rightarrow> t)"

text \<open>One answer tallied into its topic: right and total. \<open>!topic\<close> also passes over the empty name.\<close>

definition tally :: "exam_question list \<Rightarrow> (string, nat \<times> nat) amap \<Rightarrow> exam_answer \<Rightarrow> (string, nat \<times> nat) amap" where
  "tally qs m w =
     (case map_of (map (\<lambda>q. (xq_id q, q)) qs) (xw_questionId w) of
        None \<Rightarrow> m
      | Some q \<Rightarrow>
          if topic_name q = [] then m
          else (case map_of m (topic_name q) of
                  None \<Rightarrow> m
                | Some (c, n) \<Rightarrow>
                    aput (topic_name q) (if xq_correctIndex q = xw_chosenIndex w then c + 1 else c, n + 1) m))"

definition topic_table :: "exam_question list \<Rightarrow> exam_answer list \<Rightarrow> (string, nat \<times> nat) amap" where
  "topic_table qs ws =
     foldl (tally qs)
       (foldl (\<lambda>m q. if map_of m (topic_name q) = None then aput (topic_name q) (0, 0) m else m) [] qs) ws"

record exam_results =
  xr_examTitle :: string
  xr_students :: "(string \<times> int option \<times> int option) list"
  xr_topics :: "(string \<times> int option \<times> nat) list"

definition exam_results_of :: "exams \<Rightarrow> jwt_payload \<Rightarrow> string \<Rightarrow> exam_results result" where
  "exam_results_of s user examId =
     rbind (from_option (NotFound ''Exam not found'') (find_exam s examId)) (\<lambda>e.
     rbind (assert_can_manage_course (ex_db s) user (xm_courseId e)) (\<lambda>_.
       let qs = questions_of s examId;
           as = sort_key (\<lambda>a. - the (xa_submittedAt a)) (filter (\<lambda>a. xa_submittedAt a \<noteq> None) (attempts_at s examId));
           m = topic_table qs (concat (map (\<lambda>a. answers_in s (xa_id a)) as))
       in Inr \<lparr>xr_examTitle = xm_title e,
               xr_students = map (\<lambda>a. (xa_studentId a, xa_score a, xa_submittedAt a)) as,
               xr_topics = map (\<lambda>(t, c, n). (t, if n \<noteq> 0 then Some (percent (int c) (int n)) else None, n)) m\<rparr>))"

section \<open>Sitting an exam\<close>

definition assert_exam_enrolled :: "db \<Rightarrow> jwt_payload \<Rightarrow> string \<Rightarrow> unit result" where
  "assert_exam_enrolled d user courseId =
     (if jwt_role user \<noteq> STUDENT then assert_can_manage_course d user courseId
      else guard_or (enrolled d courseId (jwt_sub user)) (Forbidden ''Not enrolled in this course''))"

text \<open>A student's attempts at an exam, newest first.\<close>

definition my_attempts :: "exams \<Rightarrow> string \<Rightarrow> string \<Rightarrow> exam_attempt list" where
  "my_attempts s examId studentId =
     sort_key (\<lambda>a. - xa_startedAt a) (filter (\<lambda>a. xa_studentId a = studentId) (attempts_at s examId))"

record available_exam =
  xv_id :: string
  xv_title :: string
  xv_durationMinutes :: int
  xv_questionCount :: nat
  xv_myAttempt :: "(string \<times> int option \<times> bool) option"

definition list_available :: "exams \<Rightarrow> jwt_payload \<Rightarrow> string \<Rightarrow> available_exam list result" where
  "list_available s user courseId =
     rbind (assert_exam_enrolled (ex_db s) user courseId) (\<lambda>_.
       Inr (map (\<lambda>e. \<lparr>xv_id = xm_id e, xv_title = xm_title e, xv_durationMinutes = xm_durationMinutes e,
              xv_questionCount = length (questions_of s (xm_id e)),
              xv_myAttempt = (case my_attempts s (xm_id e) (jwt_sub user) of
                  [] \<Rightarrow> None | a # _ \<Rightarrow> Some (xa_id a, xa_score a, xa_submittedAt a \<noteq> None))\<rparr>)
            (sort_key (\<lambda>e. - xm_createdAt e) (filter (\<lambda>e. xm_courseId e = courseId \<and> xm_active e) (ex_exams s)))))"

record reviewed_question =
  rw_id :: string
  rw_body :: string
  rw_options :: "string list"
  rw_correctIndex :: int
  rw_chosenIndex :: "int option"

record exam_review =
  rv_examTitle :: string
  rv_score :: "int option"
  rv_total :: nat
  rv_submittedAt :: "int option"
  rv_questions :: "reviewed_question list"

definition latest_submitted :: "exams \<Rightarrow> string \<Rightarrow> string \<Rightarrow> exam_attempt option" where
  "latest_submitted s examId studentId =
     (case sort_key (\<lambda>a. - the (xa_submittedAt a))
        (filter (\<lambda>a. xa_studentId a = studentId \<and> xa_submittedAt a \<noteq> None) (attempts_at s examId)) of
        [] \<Rightarrow> None | a # _ \<Rightarrow> Some a)"

definition get_review :: "exams \<Rightarrow> jwt_payload \<Rightarrow> string \<Rightarrow> exam_review result" where
  "get_review s user examId =
     (case (latest_submitted s examId (jwt_sub user), find_exam s examId) of
        (Some a, Some e) \<Rightarrow>
          Inr \<lparr>rv_examTitle = xm_title e, rv_score = xa_score a, rv_total = length (questions_of s examId),
               rv_submittedAt = xa_submittedAt a,
               rv_questions = map (\<lambda>q. \<lparr>rw_id = xq_id q, rw_body = xq_body q, rw_options = xq_options q,
                 rw_correctIndex = xq_correctIndex q,
                 rw_chosenIndex = map_of (map (\<lambda>w. (xw_questionId w, xw_chosenIndex w)) (answers_in s (xa_id a))) (xq_id q)\<rparr>)
                 (ordered_questions s examId)\<rparr>
      | _ \<Rightarrow> Inl (NotFound ''No submitted attempt to review''))"

text \<open>What a student sees of a question: the key is not selected.\<close>

record open_question =
  oq_id :: string
  oq_body :: string
  oq_options :: "string list"
  oq_topic :: "string option"

record exam_paper =
  pp_attemptId :: string
  pp_examId :: string
  pp_title :: string
  pp_durationMinutes :: int
  pp_deadline :: int
  pp_questions :: "open_question list"

definition open_attempt :: "exams \<Rightarrow> string \<Rightarrow> string \<Rightarrow> exam_attempt option" where
  "open_attempt s examId studentId =
     find (\<lambda>a. xa_submittedAt a = None) (my_attempts s examId studentId)"

definition already_sat :: "exams \<Rightarrow> string \<Rightarrow> string \<Rightarrow> bool" where
  "already_sat s examId studentId \<longleftrightarrow>
     list_ex (\<lambda>a. xa_studentId a = studentId \<and> xa_submittedAt a \<noteq> None) (attempts_at s examId)"

definition new_attempt :: "string \<Rightarrow> string \<Rightarrow> string \<Rightarrow> int \<Rightarrow> exam_attempt" where
  "new_attempt i examId studentId now =
     \<lparr>xa_id = i, xa_examId = examId, xa_studentId = studentId, xa_startedAt = now, xa_submittedAt = None, xa_score = None\<rparr>"

definition create_attempt :: "exam_attempt \<Rightarrow> exams \<Rightarrow> exams" where
  "create_attempt a s = s\<lparr>ex_attempts := ex_attempts s @ [a]\<rparr>"

definition deadline_of :: "exam_row \<Rightarrow> exam_attempt \<Rightarrow> int" where
  "deadline_of e a = xa_startedAt a + xm_durationMinutes e * 60000"

definition paper_of :: "exams \<Rightarrow> exam_row \<Rightarrow> exam_attempt \<Rightarrow> exam_paper" where
  "paper_of s e a =
     \<lparr>pp_attemptId = xa_id a, pp_examId = xm_id e, pp_title = xm_title e,
      pp_durationMinutes = xm_durationMinutes e, pp_deadline = deadline_of e a,
      pp_questions = map (\<lambda>q. \<lparr>oq_id = xq_id q, oq_body = xq_body q, oq_options = xq_options q, oq_topic = xq_topic q\<rparr>)
        (ordered_questions s (xm_id e))\<rparr>"

definition start_attempt :: "exams \<Rightarrow> jwt_payload \<Rightarrow> string \<Rightarrow> string \<Rightarrow> int \<Rightarrow> exams \<times> exam_paper result" where
  "start_attempt s user examId i now =
     (case find_exam s examId of
        None \<Rightarrow> (s, Inl (NotFound ''Exam not found''))
      | Some e \<Rightarrow>
          if \<not> xm_active e then (s, Inl (NotFound ''Exam not found''))
          else (case assert_exam_enrolled (ex_db s) user (xm_courseId e) of
                  Inl err \<Rightarrow> (s, Inl err)
                | Inr _ \<Rightarrow>
                    (case open_attempt s examId (jwt_sub user) of
                       Some a \<Rightarrow> (s, Inr (paper_of s e a))
                     | None \<Rightarrow>
                         if already_sat s examId (jwt_sub user)
                         then (s, Inl (Conflict ''You have already sat this exam''))
                         else let a = new_attempt i examId (jwt_sub user) now; s' = create_attempt a s
                              in (s', Inr (paper_of s' e a)))))"

section \<open>Marking\<close>

text \<open>The \<open>Map\<close> of answers to the exam's own questions: the last answer to a question counts.\<close>

definition chosen_answers :: "exam_question list \<Rightarrow> (string \<times> int) list \<Rightarrow> (string, int) amap" where
  "chosen_answers qs answers =
     foldl (\<lambda>m (qid, n). if list_ex (\<lambda>q. xq_id q = qid) qs then aput qid n m else m) [] answers"

definition key_of :: "exam_question list \<Rightarrow> string \<Rightarrow> int option" where
  "key_of qs qid = map_of (map (\<lambda>q. (xq_id q, xq_correctIndex q)) qs) qid"

definition count_correct :: "exam_question list \<Rightarrow> (string, int) amap \<Rightarrow> nat" where
  "count_correct qs chosen = length (filter (\<lambda>(qid, n). key_of qs qid = Some n) chosen)"

definition mark :: "nat \<Rightarrow> nat \<Rightarrow> int" where
  "mark correct num = (if num \<noteq> 0 then percent (int correct) (int num) else 0)"

record exam_outcome =
  xo_score :: int
  xo_correct :: nat
  xo_total :: nat
  xo_answered :: nat
  xo_expired :: bool

definition grace_ms :: int where "grace_ms = 60000"

definition submit :: "exams \<Rightarrow> jwt_payload \<Rightarrow> string \<Rightarrow> (string \<times> int) list \<Rightarrow> int \<Rightarrow> exams \<times> exam_outcome result" where
  "submit s user attemptId answers now =
     (case find_attempt s attemptId of
        None \<Rightarrow> (s, Inl (NotFound ''Attempt not found''))
      | Some a \<Rightarrow>
          if xa_studentId a \<noteq> jwt_sub user then (s, Inl (Forbidden ''Not your attempt''))
          else if xa_submittedAt a \<noteq> None then (s, Inl (BadRequest ''Attempt already submitted''))
          else (case find_exam s (xa_examId a) of
                  None \<Rightarrow> (s, Inl (NotFound ''Attempt not found''))
                | Some e \<Rightarrow>
                    let qs = questions_of s (xa_examId a);
                        chosen = chosen_answers qs answers;
                        expired = (now > deadline_of e a + grace_ms);
                        num = length qs;
                        correct = count_correct qs chosen;
                        score = (if expired then 0 else mark correct num);
                        rows = (if expired then []
                                else map (\<lambda>(qid, n). \<lparr>xw_attemptId = attemptId, xw_questionId = qid, xw_chosenIndex = n\<rparr>) chosen)
                    in (s\<lparr>ex_answers := filter (\<lambda>w. xw_attemptId w \<noteq> attemptId) (ex_answers s) @ rows,
                          ex_attempts := map (\<lambda>x. if xa_id x = attemptId
                            then x\<lparr>xa_submittedAt := Some now, xa_score := Some score\<rparr> else x) (ex_attempts s)\<rparr>,
                        Inr \<lparr>xo_score = score, xo_correct = (if expired then 0 else correct), xo_total = num,
                             xo_answered = (if expired then 0 else length chosen), xo_expired = expired\<rparr>)))"

end
