(* ===== verification/ExamRuns.thy ===== *)
theory ExamRuns
  imports Exams "HOL-Library.Multiset"
begin

text \<open>
  Runs of the exam service: one attempt for each student at an exam, frozen questions once somebody
  has begun, and scores that are the marks of the stored answers, which is what a review shows.
\<close>

section \<open>Counting right answers\<close>

lemma chosen_keys: "distinct (akeys (chosen_answers qs answers))"
proof -
  have "distinct (akeys (foldl (\<lambda>m (qid, n). if list_ex (\<lambda>q. xq_id q = qid) qs then aput qid n m else m) m answers))"
    if "distinct (akeys m)" for m
    using that by (induction answers arbitrary: m) (auto simp: aput_distinct)
  then show ?thesis by (simp add: chosen_answers_def)
qed

text \<open>The last answer given to a question is the one that counts.\<close>

lemma chosen_lookup:
  "map_of (chosen_answers qs answers) qid = (if list_ex (\<lambda>q. xq_id q = qid) qs then map_of (rev answers) qid else None)"
proof -
  have "map_of (foldl (\<lambda>m (qid, n). if list_ex (\<lambda>q. xq_id q = qid) qs then aput qid n m else m) m answers) qid =
      (if list_ex (\<lambda>q. xq_id q = qid) qs then (case map_of (rev answers) qid of None \<Rightarrow> map_of m qid | Some n \<Rightarrow> Some n)
       else map_of m qid)" for m
    by (induction answers arbitrary: m) (auto simp: aput_lookup map_add_def split: option.splits)
  then show ?thesis by (auto simp: chosen_answers_def split: option.splits)
qed

lemma length_card: "distinct (map f xs) \<Longrightarrow> length xs = card (f ` set xs)"
  by (metis distinct_card length_map set_map)

lemma key_of_Some: "distinct (map xq_id qs) \<Longrightarrow> key_of qs qid = Some n \<longleftrightarrow> (\<exists>q \<in> set qs. xq_id q = qid \<and> xq_correctIndex q = n)"
  unfolding key_of_def by (subst map_of_eq_Some_iff) (auto simp: o_def)

lemma count_correct_questions:
  assumes "distinct (map xq_id qs)" "distinct (akeys m)"
  shows "count_correct qs m = length (filter (\<lambda>q. map_of m (xq_id q) = Some (xq_correctIndex q)) qs)"
proof -
  have "count_correct qs m = card (fst ` set (filter (\<lambda>(qid, n). key_of qs qid = Some n) m))"
    unfolding count_correct_def by (rule length_card) (rule filter_keys_distinct [OF assms(2)])
  also have "fst ` set (filter (\<lambda>(qid, n). key_of qs qid = Some n) m) =
      xq_id ` set (filter (\<lambda>q. map_of m (xq_id q) = Some (xq_correctIndex q)) qs)"
    using assms by (force simp: key_of_Some image_iff)
  also have "card \<dots> = length (filter (\<lambda>q. map_of m (xq_id q) = Some (xq_correctIndex q)) qs)"
    using assms(1) by (intro length_card [symmetric]) (simp add: distinct_map_filter)
  finally show ?thesis .
qed

section \<open>The tables\<close>

definition recorded :: "exams \<Rightarrow> exam_attempt \<Rightarrow> (string, int) amap" where
  "recorded s a = map (\<lambda>w. (xw_questionId w, xw_chosenIndex w)) (answers_in s (xa_id a))"

definition marked :: "exams \<Rightarrow> exam_attempt \<Rightarrow> bool" where
  "marked s a \<longleftrightarrow>
     (case xa_submittedAt a of
        None \<Rightarrow> xa_score a = None \<and> answers_in s (xa_id a) = []
      | Some _ \<Rightarrow>
          distinct (akeys (recorded s a)) \<and>
          xa_score a = Some (mark (count_correct (questions_of s (xa_examId a)) (recorded s a))
            (length (questions_of s (xa_examId a)))))"

definition exams_ok :: "exams \<Rightarrow> bool" where
  "exams_ok s \<longleftrightarrow>
     distinct (map xm_id (ex_exams s)) \<and> distinct (map xq_id (ex_questions s)) \<and> distinct (map xa_id (ex_attempts s)) \<and>
     distinct (map (\<lambda>a. (xa_examId a, xa_studentId a)) (ex_attempts s)) \<and>
     (\<forall>a \<in> set (ex_attempts s). xa_examId a \<in> xm_id ` set (ex_exams s)) \<and>
     (\<forall>w \<in> set (ex_answers s). xw_attemptId w \<in> xa_id ` set (ex_attempts s)) \<and>
     (\<forall>a \<in> set (ex_attempts s). marked s a)"

lemma find_examD: "find_exam s i = Some e \<Longrightarrow> e \<in> set (ex_exams s) \<and> xm_id e = i"
  by (auto simp: find_exam_def find_Some_iff)

lemma find_attemptD: "find_attempt s i = Some a \<Longrightarrow> a \<in> set (ex_attempts s) \<and> xa_id a = i"
  by (auto simp: find_attempt_def find_Some_iff)

lemma same_attempt:
  "exams_ok s \<Longrightarrow> a \<in> set (ex_attempts s) \<Longrightarrow> b \<in> set (ex_attempts s) \<Longrightarrow> xa_id a = xa_id b \<Longrightarrow> a = b"
  by (auto simp: exams_ok_def distinct_map dest: inj_onD)


text \<open>What marks depend on.\<close>

lemma marked_cong:
  "questions_of t (xa_examId a) = questions_of s (xa_examId a) \<Longrightarrow> answers_in t (xa_id a) = answers_in s (xa_id a) \<Longrightarrow>
    marked t a = marked s a"
  by (simp add: marked_def recorded_def split: option.split)

lemma ok_frame:
  assumes ok: "exams_ok s" and ids: "map xm_id (ex_exams t) = map xm_id (ex_exams s)"
    and same: "ex_attempts t = ex_attempts s" "ex_answers t = ex_answers s" "distinct (map xq_id (ex_questions t))"
    and qs: "\<And>a. a \<in> set (ex_attempts s) \<Longrightarrow> questions_of t (xa_examId a) = questions_of s (xa_examId a)"
  shows "exams_ok t"
proof -
  have "xm_id ` set (ex_exams t) = xm_id ` set (ex_exams s)" using ids by (metis set_map)
  moreover have "marked t a = marked s a" if "a \<in> set (ex_attempts s)" for a
    using qs [OF that] by (rule marked_cong) (simp add: answers_in_def same)
  ultimately show ?thesis using ok ids same by (simp add: exams_ok_def)
qed

section \<open>Steps\<close>

datatype exam_op =
    CreateExam jwt_payload string string int "question_dto list" string "string list" int
  | UpdateExam jwt_payload string string "string option" "int option" "question_dto list option" "string list"
  | DeleteExam jwt_payload string string
  | StartAttempt jwt_payload string string int
  | Submit jwt_payload string "(string \<times> int) list" int

text \<open>The ids the database generates for new rows are new and different.\<close>

definition fresh_questions :: "exams \<Rightarrow> string list \<Rightarrow> bool" where
  "fresh_questions s ids \<longleftrightarrow> distinct ids \<and> set ids \<inter> xq_id ` set (ex_questions s) = {}"

fun exam_step :: "exams \<Rightarrow> exam_op \<Rightarrow> exams" where
  "exam_step s (CreateExam user courseId title duration qs i ids now) =
     (if fresh_questions s ids \<and> length ids = length qs \<and> i \<notin> xm_id ` set (ex_exams s)
      then fst (create_exam s user courseId title duration qs i ids now) else s)"
| "exam_step s (UpdateExam user courseId examId title duration qs ids) =
     (if fresh_questions s ids \<and> (case qs of None \<Rightarrow> True | Some l \<Rightarrow> length ids = length l)
      then fst (update_exam s user courseId examId title duration qs ids) else s)"
| "exam_step s (DeleteExam user courseId examId) = fst (delete_exam s user courseId examId)"
| "exam_step s (StartAttempt user examId i now) =
     (if i \<notin> xa_id ` set (ex_attempts s) then fst (start_attempt s user examId i now) else s)"
| "exam_step s (Submit user attemptId answers now) = fst (submit s user attemptId answers now)"

lemma question_row_ids:
  assumes "length ids = length qs"
  shows "map xq_id (question_rows i ids qs) = ids" "\<forall>q \<in> set (question_rows i ids qs). xq_examId q = i"
proof -
  have "map fst (zip ids (zip [0..<length qs] qs)) = ids" using assms by simp
  then show "map xq_id (question_rows i ids qs) = ids" by (simp add: question_rows_def o_def case_prod_beta fst_def [symmetric])
  show "\<forall>q \<in> set (question_rows i ids qs). xq_examId q = i" by (auto simp: question_rows_def)
qed

lemma questions_append:
  "\<forall>q \<in> set new. xq_examId q = i \<Longrightarrow> e \<noteq> i \<Longrightarrow> filter (\<lambda>q. xq_examId q = e) (qs @ new) = filter (\<lambda>q. xq_examId q = e) qs"
  by (auto simp: filter_empty_conv)

lemma ok_create:
  assumes ok: "exams_ok s" and f: "fresh_questions s ids" "length ids = length qs" "i \<notin> xm_id ` set (ex_exams s)"
  shows "exams_ok (fst (create_exam s user courseId title duration qs i ids now))"
proof -
  let ?t = "s\<lparr>ex_exams := ex_exams s @ [\<lparr>xm_id = i, xm_courseId = courseId, xm_title = title, xm_durationMinutes = duration,
      xm_active = True, xm_createdById = jwt_sub user, xm_createdAt = now\<rparr>], ex_questions := ex_questions s @ question_rows i ids qs\<rparr>"
  note rows = question_row_ids [OF f(2), of i]
  have "marked ?t a" if a: "a \<in> set (ex_attempts s)" for a
  proof -
    have "xa_examId a \<noteq> i" using ok a f(3) by (auto simp: exams_ok_def)
    then have "questions_of ?t (xa_examId a) = questions_of s (xa_examId a)"
      unfolding questions_of_def using questions_append [OF rows(2)] by simp
    then have "marked ?t a = marked s a" by (rule marked_cong) (simp add: answers_in_def)
    then show ?thesis using ok a by (simp add: exams_ok_def)
  qed
  moreover have "distinct (map xq_id (ex_questions s @ question_rows i ids qs))"
    using ok f(1) rows(1) by (simp add: exams_ok_def fresh_questions_def) (metis Int_commute set_map rows(1))
  ultimately have "exams_ok ?t" using ok f(3) by (auto simp: exams_ok_def)
  then show ?thesis using ok by (auto simp: create_exam_def split: sum.split)
qed

lemma ok_update:
  assumes ok: "exams_ok s" and f: "fresh_questions s ids" "\<And>l. qs = Some l \<Longrightarrow> length ids = length l"
  shows "exams_ok (fst (update_exam s user courseId examId title duration qs ids))"
proof (cases "snd (update_exam s user courseId examId title duration qs ids)")
  case (Inl e)
  then have "fst (update_exam s user courseId examId title duration qs ids) = s"
    by (auto simp: update_exam_def Let_def split: sum.splits)
  then show ?thesis using ok by simp
next
  case (Inr u)
  let ?t = "fst (update_exam s user courseId examId title duration qs ids)"
  have none: "attempts_at s examId = []" if "qs \<noteq> None"
    using Inr that by (auto simp: update_exam_def Let_def res split: sum.splits option.splits)
  have rows: "ex_questions ?t = (case qs of None \<Rightarrow> ex_questions s
      | Some new \<Rightarrow> filter (\<lambda>q. xq_examId q \<noteq> examId) (ex_questions s) @ question_rows examId ids new)"
    using Inr by (auto simp: update_exam_def Let_def split: sum.splits)
  show ?thesis
  proof (rule ok_frame [OF ok])
    show "map xm_id (ex_exams ?t) = map xm_id (ex_exams s)" "ex_attempts ?t = ex_attempts s" "ex_answers ?t = ex_answers s"
      by (auto simp: update_exam_def Let_def split: sum.split)
    show "distinct (map xq_id (ex_questions ?t))"
    proof (cases qs)
      case None
      then show ?thesis using rows ok by (simp add: exams_ok_def)
    next
      case (Some new)
      note new = question_row_ids [OF f(2) [OF Some], of examId]
      have "distinct (map xq_id (filter (\<lambda>q. xq_examId q \<noteq> examId) (ex_questions s)))"
        using ok by (simp add: exams_ok_def distinct_map_filter)
      moreover have "xq_id ` set (question_rows examId ids new) = set ids" using new(1) by (metis set_map)
      ultimately show ?thesis using rows Some new(1) f(1) by (auto simp: fresh_questions_def)
    qed
    fix a
    assume a: "a \<in> set (ex_attempts s)"
    show "questions_of ?t (xa_examId a) = questions_of s (xa_examId a)"
    proof (cases qs)
      case None
      then show ?thesis using rows by (simp add: questions_of_def)
    next
      case (Some new)
      have q: "ex_questions ?t = filter (\<lambda>q. xq_examId q \<noteq> examId) (ex_questions s) @ question_rows examId ids new"
        using rows Some by simp
      have "xa_examId a \<noteq> examId" using none Some a by (auto simp: attempts_at_def filter_empty_conv)
      moreover have "\<forall>q \<in> set (question_rows examId ids new). xq_examId q = examId"
        by (rule question_row_ids(2) [OF f(2) [OF Some]])
      ultimately show ?thesis unfolding questions_of_def q by (auto simp: filter_empty_conv intro: filter_cong)
    qed
  qed
qed

lemma ok_delete: "exams_ok s \<Longrightarrow> exams_ok (fst (delete_exam s user courseId examId))"
proof -
  assume ok: "exams_ok s"
  have "exams_ok (s\<lparr>ex_exams := map (\<lambda>e. if xm_id e = examId then e\<lparr>xm_active := False\<rparr> else e) (ex_exams s)\<rparr>)"
    by (rule ok_frame [OF ok]) (use ok in \<open>simp_all add: questions_of_def exams_ok_def o_def if_distrib cong: if_cong\<close>)
  then show ?thesis using ok by (simp add: delete_exam_def split: sum.split)
qed

lemma my_attempts_set: "set (my_attempts s e u) = {a \<in> set (ex_attempts s). xa_examId a = e \<and> xa_studentId a = u}"
  by (auto simp: my_attempts_def attempts_at_def)

text \<open>A student with no open attempt who has not sat the exam has no attempt at it.\<close>

lemma no_attempt:
  "open_attempt s e u = None \<Longrightarrow> \<not> already_sat s e u \<Longrightarrow> a \<in> set (ex_attempts s) \<Longrightarrow> (xa_examId a, xa_studentId a) \<noteq> (e, u)"
  by (auto simp: open_attempt_def already_sat_def find_None_iff my_attempts_set list_ex_iff attempts_at_def)

lemma ok_start:
  assumes ok: "exams_ok s" and i: "i \<notin> xa_id ` set (ex_attempts s)"
  shows "exams_ok (fst (start_attempt s user examId i now))"
proof -
  let ?a = "new_attempt i examId (jwt_sub user) now"
  let ?t = "create_attempt ?a s"
  have "exams_ok ?t" if e: "find_exam s examId = Some e" and none: "open_attempt s examId (jwt_sub user) = None" "\<not> already_sat s examId (jwt_sub user)" for e
  proof -
    have "marked ?t a = marked s a" for a by (rule marked_cong) (simp_all add: questions_of_def answers_in_def create_attempt_def)
    moreover have "answers_in s i = []" using ok i by (auto simp: exams_ok_def answers_in_def filter_empty_conv)
    then have "marked s ?a" by (simp add: marked_def new_attempt_def)
    moreover have "(examId, jwt_sub user) \<notin> (\<lambda>a. (xa_examId a, xa_studentId a)) ` set (ex_attempts s)"
    proof
      assume "(examId, jwt_sub user) \<in> (\<lambda>a. (xa_examId a, xa_studentId a)) ` set (ex_attempts s)"
      then obtain a where "a \<in> set (ex_attempts s)" "(xa_examId a, xa_studentId a) = (examId, jwt_sub user)" by (elim imageE) simp
      then show False using no_attempt [OF none] by blast
    qed
    ultimately show ?thesis
      using ok i find_examD [OF e] by (auto simp: exams_ok_def create_attempt_def new_attempt_def)
  qed
  then show ?thesis using ok by (simp add: start_attempt_def Let_def split: option.split sum.split)
qed

lemma mark_zero [simp]: "mark 0 n = 0"
  by (simp add: mark_def)

lemma count_nil [simp]: "count_correct qs [] = 0"
  by (simp add: count_correct_def)

lemma ok_submit:
  assumes ok: "exams_ok s"
  shows "exams_ok (fst (submit s user attemptId answers now))"
proof (cases "snd (submit s user attemptId answers now)")
  case (Inl e)
  then have "fst (submit s user attemptId answers now) = s"
    by (auto simp: submit_def Let_def split: option.splits if_splits)
  then show ?thesis using ok by simp
next
  case (Inr out)
  then obtain a e where a: "find_attempt s attemptId = Some a" and e: "find_exam s (xa_examId a) = Some e"
    and mine: "xa_studentId a = jwt_sub user" "xa_submittedAt a = None"
    by (auto simp: submit_def Let_def split: option.splits if_splits)
  let ?qs = "questions_of s (xa_examId a)"
  define m where "m = (if now > deadline_of e a + grace_ms then [] else chosen_answers ?qs answers)"
  define sc where "sc = mark (count_correct ?qs m) (length ?qs)"
  define g :: "exam_attempt \<Rightarrow> exam_attempt" where
    "g x = (if xa_id x = attemptId then x\<lparr>xa_submittedAt := Some now, xa_score := Some sc\<rparr> else x)" for x
  let ?rows = "map (\<lambda>(qid, n). \<lparr>xw_attemptId = attemptId, xw_questionId = qid, xw_chosenIndex = n\<rparr>) m"
  let ?t = "s\<lparr>ex_answers := filter (\<lambda>w. xw_attemptId w \<noteq> attemptId) (ex_answers s) @ ?rows, ex_attempts := map g (ex_attempts s)\<rparr>"
  have t: "fst (submit s user attemptId answers now) = ?t"
    using a e mine by (simp add: submit_def Let_def m_def sc_def g_def [abs_def])
  have keep: "xa_id (g x) = xa_id x" "xa_examId (g x) = xa_examId x" "xa_studentId (g x) = xa_studentId x" for x
    by (simp_all add: g_def)
  have "marked ?t (g x)" if x: "x \<in> set (ex_attempts s)" for x
  proof (cases "xa_id x = attemptId")
    case False
    have "filter (\<lambda>w. xw_attemptId w = xa_id x) ?rows = []" using False by (auto simp: filter_empty_conv)
    moreover have "filter (\<lambda>w. xw_attemptId w \<noteq> attemptId \<and> xw_attemptId w = xa_id x) ws = filter (\<lambda>w. xw_attemptId w = xa_id x) ws" for ws
      using False by (intro filter_cong) auto
    ultimately have "answers_in ?t (xa_id x) = answers_in s (xa_id x)"
      by (simp add: answers_in_def)
    moreover have "g x = x" using False by (simp add: g_def)
    moreover have "marked s x" using ok x by (simp add: exams_ok_def)
    ultimately show ?thesis using marked_cong [of ?t x s] by (simp add: questions_of_def)
  next
    case True
    then have "x = a" using same_attempt [OF ok x] find_attemptD [OF a] by simp
    moreover have "answers_in ?t attemptId = ?rows" by (simp add: answers_in_def filter_empty_conv) (simp add: filter_True split: prod.split)
    then have "recorded ?t (g x) = m" using True by (simp add: recorded_def keep o_def case_prod_beta)
    moreover have "distinct (akeys m)" by (simp add: m_def chosen_keys)
    moreover have "questions_of ?t e = questions_of s e" for e by (simp add: questions_of_def)
    ultimately show ?thesis using True by (simp add: marked_def keep) (simp add: g_def sc_def)
  qed
  moreover have "xa_id ` g ` set (ex_attempts s) = xa_id ` set (ex_attempts s)" by (simp add: image_image keep)
  ultimately show ?thesis
    unfolding t using ok find_attemptD [OF a] by (auto simp: exams_ok_def keep o_def)
qed

interpretation exams: invariant_system exam_step exams_ok
proof
  fix s e
  assume "exams_ok s"
  then show "exams_ok (exam_step s e)"
    by (cases e) (auto intro: ok_create ok_update ok_delete ok_start ok_submit)
qed

definition exams_start :: "db \<Rightarrow> exams" where
  "exams_start d = \<lparr>ex_db = d, ex_exams = [], ex_questions = [], ex_attempts = [], ex_answers = []\<rparr>"

lemma exams_run: "exams_ok (foldl exam_step (exams_start d) ops)"
  by (rule exams.inv_run) (simp add: exams_ok_def exams_start_def)

section \<open>Reviews\<close>

lemma latest_submittedD:
  "latest_submitted s e u = Some a \<Longrightarrow>
    a \<in> set (ex_attempts s) \<and> xa_examId a = e \<and> xa_studentId a = u \<and> xa_submittedAt a \<noteq> None"
proof -
  assume l: "latest_submitted s e u = Some a"
  let ?xs = "sort_key (\<lambda>a. - the (xa_submittedAt a)) (filter (\<lambda>a. xa_studentId a = u \<and> xa_submittedAt a \<noteq> None) (attempts_at s e))"
  obtain as where "?xs = a # as" using l by (auto simp: latest_submitted_def split: list.splits)
  then have "a \<in> set ?xs" by simp
  then show ?thesis by (simp add: attempts_at_def)
qed


lemma filter_sort_length: "length (filter P (sort_key f xs)) = length (filter P xs)"
proof -
  have "mset (filter P (sort_key f xs)) = mset (filter P xs)" by (simp only: mset_filter mset_sort)
  then show ?thesis by (rule mset_eq_length)
qed

text \<open>The right answers a review shows are the right answers that were stored.\<close>

lemma review_counts:
  assumes "distinct (map xq_id (ex_questions s))" "distinct (akeys (recorded s a))"
  shows "length (filter (\<lambda>q. map_of (recorded s a) (xq_id q) = Some (xq_correctIndex q)) (ordered_questions s e)) =
    count_correct (questions_of s e) (recorded s a)"
proof -
  have "distinct (map xq_id (questions_of s e))" using assms(1) by (simp add: questions_of_def distinct_map_filter)
  then show ?thesis unfolding ordered_questions_def filter_sort_length using count_correct_questions assms(2) by simp
qed

lemma count_correct_le: "distinct (map xq_id qs) \<Longrightarrow> distinct (akeys m) \<Longrightarrow> count_correct qs m \<le> length qs"
  by (simp add: count_correct_questions)

lemma mark_near:
  assumes "c \<le> n" "n < 1099511627776"
  shows "0 \<le> mark c n \<and> mark c n \<le> 100 \<and> 2 * \<bar>mark c n * int n - 100 * int c\<bar> \<le> int n"
  using percent_bounds [of "int c" "int n"] percent_close [of "int c" "int n"] assms by (simp add: mark_def)

lemma review_shows:
  assumes "get_review s user examId = Inr r"
  obtains a e where "latest_submitted s examId (jwt_sub user) = Some a" "find_exam s examId = Some e"
    "rv_score r = xa_score a" "rv_total r = length (questions_of s examId)"
    "length (filter (\<lambda>q. rw_chosenIndex q = Some (rw_correctIndex q)) (rv_questions r)) =
     length (filter (\<lambda>q. map_of (recorded s a) (xq_id q) = Some (xq_correctIndex q)) (ordered_questions s examId))"
  using assms by (auto simp: get_review_def recorded_def filter_map o_def split: option.splits)

lemma exams_okD:
  "exams_ok s \<Longrightarrow> distinct (map xq_id (ex_questions s))"
  "exams_ok s \<Longrightarrow> a \<in> set (ex_attempts s) \<Longrightarrow> marked s a"
  by (simp_all add: exams_ok_def)




section \<open>Submitting\<close>

lemma submit_cases:
  assumes "submit s user i answers now = (t, Inr out)"
  obtains a e where "find_attempt s i = Some a" "find_exam s (xa_examId a) = Some e" "xa_submittedAt a = None" "xa_studentId a = jwt_sub user"
    "xo_expired out \<longleftrightarrow> now > deadline_of e a + grace_ms" "xo_total out = length (questions_of s (xa_examId a))"
    "xo_correct out = (if xo_expired out then 0
       else count_correct (questions_of s (xa_examId a)) (chosen_answers (questions_of s (xa_examId a)) answers))"
    "xo_score out = mark (xo_correct out) (xo_total out)"
    "ex_attempts t = map (\<lambda>x. if xa_id x = i then x\<lparr>xa_submittedAt := Some now, xa_score := Some (xo_score out)\<rparr> else x) (ex_attempts s)"
proof -
  obtain a where a: "find_attempt s i = Some a" using assms by (cases "find_attempt s i") (simp_all add: submit_def)
  have c: "xa_studentId a = jwt_sub user" "xa_submittedAt a = None" using assms a by (simp_all add: submit_def split: if_splits)
  obtain e where e: "find_exam s (xa_examId a) = Some e"
    using assms a c by (cases "find_exam s (xa_examId a)") (simp_all add: submit_def)
  have u: "t = fst (submit s user i answers now)" "out = projr (snd (submit s user i answers now))" using assms by simp_all
  show ?thesis by (rule that [OF a e c(2,1)]) (simp_all add: u submit_def a c e Let_def)
qed

lemma find_attempt_map:
  assumes "\<And>x. xa_id (g x) = xa_id x"
  shows "find (\<lambda>a. xa_id a = i) (map g xs) = map_option g (find (\<lambda>a. xa_id a = i) xs)"
  using assms by (induction xs) simp_all

lemma resubmit_refused:
  assumes "submit s user i answers now = (t, Inr out)"
  shows "snd (submit t user i answers' later) = Inl (BadRequest ''Attempt already submitted'')"
proof -
  obtain a e where a: "find_attempt s i = Some a" "xa_studentId a = jwt_sub user"
    and t: "ex_attempts t = map (\<lambda>x. if xa_id x = i then x\<lparr>xa_submittedAt := Some now, xa_score := Some (xo_score out)\<rparr> else x) (ex_attempts s)"
    by (rule submit_cases [OF assms]) (rule that)
  have "find_attempt t i = map_option (\<lambda>x. if xa_id x = i then x\<lparr>xa_submittedAt := Some now, xa_score := Some (xo_score out)\<rparr> else x) (find_attempt s i)"
    unfolding find_attempt_def t by (rule find_attempt_map) simp
  then show ?thesis using a find_attemptD [OF a(1)] by (simp add: submit_def)
qed

section \<open>Properties\<close>

definition demo_teacher :: jwt_payload where
  "demo_teacher = \<lparr>jwt_sub = ''t'', jwt_role = INSTRUCTOR, jwt_name = ''T'', jwt_email = ''e'', jwt_organizationId = Some ''o'',
     jwt_emailVerified = True, jwt_isSuperAdmin = False, jwt_recorder = None, jwt_preview = None\<rparr>"

definition demo_pupil :: jwt_payload where
  "demo_pupil = demo_teacher\<lparr>jwt_sub := ''p'', jwt_role := STUDENT\<rparr>"

definition demo_school :: db where
  "demo_school = empty_db\<lparr>
     db_courses := [\<lparr>co_id = ''k'', co_instructorId = Some ''t'', co_organizationId = Some ''o'', co_pluginKeys = None\<rparr>],
     db_enrollments := [\<lparr>en_courseId = ''k'', en_studentId = ''p''\<rparr>]\<rparr>"

definition demo_paper :: "question_dto list" where
  "demo_paper = [\<lparr>qd_body = ''a'', qd_options = [''0'', ''1''], qd_correctIndex = 1, qd_topic = None\<rparr>,
     \<lparr>qd_body = ''b'', qd_options = [''0'', ''1''], qd_correctIndex = 0, qd_topic = None\<rparr>,
     \<lparr>qd_body = ''c'', qd_options = [''0'', ''1''], qd_correctIndex = 0, qd_topic = None\<rparr>]"

definition demo_sitting :: "exam_op list" where
  "demo_sitting = [CreateExam demo_teacher ''k'' ''E'' 10 demo_paper ''x'' [''q1'', ''q2'', ''q3''] 0,
     StartAttempt demo_pupil ''x'' ''a'' 5]"

definition demo_answers :: "(string \<times> int) list" where
  "demo_answers = [(''q1'', 0), (''q2'', 1), (''q1'', 1), (''zz'', 1), (''q3'', 0)]"

text \<open>C16: The score a student is shown is the one their shown answers deserve: in every state the service
  reaches, whatever was authored, edited, deleted or submitted before, a review's score is the nearest
  whole percentage of the reviewed questions whose chosen option is the key it shows, between 0 and
  100.\<close>

lemma review_score_is_what_it_shows:
  assumes "s = foldl exam_step (exams_start d) ops" "get_review s user examId = Inr r" "rv_total r < 1099511627776"
  shows "\<exists>sc. rv_score r = Some sc \<and> 0 \<le> sc \<and> sc \<le> 100 \<and> 2 * \<bar>sc * int (rv_total r) -
      100 * int (length (filter (\<lambda>q. rw_chosenIndex q = Some (rw_correctIndex q)) (rv_questions r)))\<bar> \<le> int (rv_total r)"
proof -
  have ok: "exams_ok s" unfolding assms(1) by (rule exams_run)
  obtain a e where l: "latest_submitted s examId (jwt_sub user) = Some a" and sc: "rv_score r = xa_score a"
    and n: "rv_total r = length (questions_of s examId)"
    and c: "length (filter (\<lambda>q. rw_chosenIndex q = Some (rw_correctIndex q)) (rv_questions r)) =
      length (filter (\<lambda>q. map_of (recorded s a) (xq_id q) = Some (xq_correctIndex q)) (ordered_questions s examId))"
    by (rule review_shows [OF assms(2)]) (rule that)
  note a = latest_submittedD [OF l]
  have m: "distinct (akeys (recorded s a))"
    "xa_score a = Some (mark (count_correct (questions_of s examId) (recorded s a)) (length (questions_of s examId)))"
    using exams_okD(2) [OF ok, of a] a by (auto simp: marked_def)
  have qs: "distinct (map xq_id (questions_of s examId))" using exams_okD(1) [OF ok] by (simp add: questions_of_def distinct_map_filter)
  show ?thesis
    using mark_near [OF count_correct_le [OF qs m(1)]] assms(3) n unfolding c review_counts [OF exams_okD(1) [OF ok] m(1)] sc m(2) by simp
qed

lemma review_score_is_what_it_shows_witness:
  "case get_review (foldl exam_step (exams_start demo_school) (demo_sitting @ [Submit demo_pupil ''a'' demo_answers 600005])) demo_pupil ''x'' of
     Inl _ \<Rightarrow> False
   | Inr r \<Rightarrow> rv_score r = Some 67 \<and> rv_total r = 3 \<and>
       (\<exists>sc. rv_score r = Some sc \<and> 0 \<le> sc \<and> sc \<le> 100 \<and> 2 * \<bar>sc * int (rv_total r) -
         100 * int (length (filter (\<lambda>q. rw_chosenIndex q = Some (rw_correctIndex q)) (rv_questions r)))\<bar> \<le> int (rv_total r))"
proof -
  let ?g = "get_review (foldl exam_step (exams_start demo_school) (demo_sitting @ [Submit demo_pupil ''a'' demo_answers 600005])) demo_pupil ''x''"
  have v: "case ?g of Inl _ \<Rightarrow> False | Inr r \<Rightarrow> rv_score r = Some 67 \<and> rv_total r = 3" by code_simp
  then obtain r where r: "?g = Inr r" "rv_score r = Some 67" "rv_total r = 3" by (auto split: sum.splits)
  show ?thesis using review_score_is_what_it_shows [OF refl r(1)] r by simp
qed



text \<open>C18: Marking is what it says: of a submission in time, exactly the exam's questions whose last given
  answer is the key are counted right, answers to anything else count for nothing, a submission more than
  a minute past the deadline is worth 0, and the attempt cannot be submitted again.\<close>

lemma submission_is_marked:
  assumes "s = foldl exam_step (exams_start d) ops" "submit s user i answers now = (t, Inr out)"
    "find_attempt s i = Some a" "find_exam s (xa_examId a) = Some e"
  shows "xo_correct out = (if now > xa_startedAt a + xm_durationMinutes e * 60000 + 60000 then 0
      else length (filter (\<lambda>q. map_of (rev answers) (xq_id q) = Some (xq_correctIndex q)) (questions_of s (xa_examId a)))) \<and>
    xo_score out = mark (xo_correct out) (length (questions_of s (xa_examId a))) \<and>
    snd (submit t user i answers' later) = Inl (BadRequest ''Attempt already submitted'')"
proof -
  have ok: "exams_ok s" unfolding assms(1) by (rule exams_run)
  let ?qs = "questions_of s (xa_examId a)"
  have qs: "distinct (map xq_id ?qs)" using exams_okD(1) [OF ok] by (simp add: questions_of_def distinct_map_filter)
  have "count_correct ?qs (chosen_answers ?qs answers) =
      length (filter (\<lambda>q. map_of (chosen_answers ?qs answers) (xq_id q) = Some (xq_correctIndex q)) ?qs)"
    by (rule count_correct_questions [OF qs chosen_keys])
  also have "filter (\<lambda>q. map_of (chosen_answers ?qs answers) (xq_id q) = Some (xq_correctIndex q)) ?qs =
      filter (\<lambda>q. map_of (rev answers) (xq_id q) = Some (xq_correctIndex q)) ?qs"
    by (rule filter_cong [OF refl]) (auto simp: chosen_lookup list_ex_iff)
  finally have "count_correct ?qs (chosen_answers ?qs answers) = length (filter (\<lambda>q. map_of (rev answers) (xq_id q) = Some (xq_correctIndex q)) ?qs)" .
  moreover have "(xo_expired out \<longleftrightarrow> now > xa_startedAt a + xm_durationMinutes e * 60000 + 60000) \<and> xo_total out = length ?qs \<and>
    xo_correct out = (if xo_expired out then 0 else count_correct ?qs (chosen_answers ?qs answers)) \<and>
    xo_score out = mark (xo_correct out) (xo_total out)"
    by (rule submit_cases [OF assms(2)]) (use assms(3,4) in \<open>simp add: deadline_of_def grace_ms_def\<close>)
  ultimately show ?thesis using resubmit_refused [OF assms(2)] by simp
qed

lemma submission_is_marked_witness:
  "let s = foldl exam_step (exams_start demo_school) demo_sitting; r = submit s demo_pupil ''a'' demo_answers 600005 in
   map_sum (\<lambda>_. ()) xo_correct (snd r) = Inr 2 \<and> snd (submit (fst r) demo_pupil ''a'' [] 600006) = Inl (BadRequest ''Attempt already submitted'')"
proof -
  let ?s = "foldl exam_step (exams_start demo_school) demo_sitting"
  let ?r = "submit ?s demo_pupil ''a'' demo_answers 600005"
  let ?a = "new_attempt ''a'' ''x'' ''p'' 5"
  have c: "map_sum (\<lambda>_. ()) xo_correct (snd ?r) = Inr 2" by code_simp
  then obtain out where o: "?r = (fst ?r, Inr out)" by (cases "snd ?r") (auto simp: prod_eq_iff)
  have a: "find_attempt ?s ''a'' = Some ?a" by code_simp
  have "find_exam ?s (xa_examId ?a) = Some \<lparr>xm_id = ''x'', xm_courseId = ''k'', xm_title = ''E'', xm_durationMinutes = 10,
     xm_active = True, xm_createdById = ''t'', xm_createdAt = 0\<rparr>" by code_simp
  from submission_is_marked [OF refl o a this, of "[]" 600006] c show ?thesis by (simp add: Let_def)
qed

text \<open>Two starts that both look for an attempt before either has made one give a student two attempts,
  and with them a second sitting after the key was read.\<close>

lemma overlapping_starts_give_two_attempts:
  assumes "open_attempt s examId u = None" "\<not> already_sat s examId u"
  shows "length (my_attempts (create_attempt (new_attempt j examId u now) (create_attempt (new_attempt i examId u now) s)) examId u) \<ge> 2"
  by (simp add: my_attempts_def attempts_at_def create_attempt_def new_attempt_def)

end
