(* ===== verification/Sessions.thy ===== *)
theory Sessions
  imports Courses Schedule
begin

text \<open>
  Classes: \<open>src/sessions/sessions.service.ts\<close>, with the token minting of
  \<open>src/sessions/livekit.service.ts\<close>. The rows extend those of \<open>Database\<close> with the columns
  only this service reads; \<open>class_db\<close> forgets them, and is the database the room gateway sees.
  LiveKit's credentials are configured. The assessment made at the end of a class is a call in a log.
\<close>

section \<open>Rows\<close>

record class_session = session_row +
  cs_sectionId :: "string option"
  cs_scheduledAt :: int
  cs_startedAt :: "int option"
  cs_endedAt :: "int option"

text \<open>\<open>cc_evict\<close> is the organization's setting, \<open>None\<close> without an organization.\<close>

record class_course = course_row +
  cc_title :: string
  cc_parentCourseId :: "string option"
  cc_schedule :: course_schedule
  cc_instant :: bool
  cc_evict :: "bool option"
  cc_brand :: "(string \<times> string option \<times> string option) option"

record class_attendance =
  ca_sessionId :: string
  ca_studentId :: string
  ca_joinedAt :: int

datatype class_event = RoomEnded | RoomClosed

record classes =
  cl_courses :: "class_course list"
  cl_sections :: "section_row list"
  cl_sessions :: "class_session list"
  cl_enrollments :: "enrollment_row list"
  cl_users :: "user_row list"
  cl_attendance :: "class_attendance list"
  cl_sent :: "(string \<times> class_event) list"
  cl_assessed :: "(string \<times> string \<times> string option \<times> bool) list"

definition class_db :: "classes \<Rightarrow> db" where
  "class_db s = empty_db\<lparr>db_courses := map course_row.truncate (cl_courses s), db_sections := cl_sections s,
     db_sessions := map session_row.truncate (cl_sessions s), db_enrollments := cl_enrollments s,
     db_users := cl_users s\<rparr>"

definition the_class :: "classes \<Rightarrow> string \<Rightarrow> class_session option" where
  "the_class s i = find (\<lambda>x. ls_id x = i) (cl_sessions s)"

definition the_course :: "classes \<Rightarrow> string \<Rightarrow> class_course option" where
  "the_course s i = find (\<lambda>c. co_id c = i) (cl_courses s)"

definition enrolled_in :: "classes \<Rightarrow> string \<Rightarrow> string \<Rightarrow> bool" where
  "enrolled_in s courseId studentId =
     list_ex (\<lambda>r. en_courseId r = courseId \<and> en_studentId r = studentId) (cl_enrollments s)"

definition set_class :: "string \<Rightarrow> (class_session \<Rightarrow> class_session) \<Rightarrow> classes \<Rightarrow> classes" where
  "set_class i f s = s\<lparr>cl_sessions := map (\<lambda>x. if ls_id x = i then f x else x) (cl_sessions s)\<rparr>"

definition class_emit :: "string \<Rightarrow> class_event \<Rightarrow> classes \<Rightarrow> classes" where
  "class_emit i ev s = s\<lparr>cl_sent := cl_sent s @ [(i, ev)]\<rparr>"

definition live_class :: "classes \<Rightarrow> string \<Rightarrow> class_session option" where
  "live_class s courseId = find (\<lambda>x. ls_courseId x = courseId \<and> ls_status x = LIVE) (cl_sessions s)"

definition live_child :: "classes \<Rightarrow> string \<Rightarrow> class_session option" where
  "live_child s courseId =
     find (\<lambda>x. ls_status x = LIVE \<and> Option.bind (the_course s (ls_courseId x)) cc_parentCourseId = Some courseId) (cl_sessions s)"

section \<open>Scheduling by hand\<close>

definition new_class :: "string \<Rightarrow> string \<Rightarrow> string option \<Rightarrow> int \<Rightarrow> string \<Rightarrow> class_session" where
  "new_class i courseId sectionId scheduledAt room =
     \<lparr>ls_id = i, ls_courseId = courseId, ls_status = SCHEDULED, ls_livekitRoom = room, cs_sectionId = sectionId,
      cs_scheduledAt = scheduledAt, cs_startedAt = None, cs_endedAt = None\<rparr>"

definition schedule_class ::
  "classes \<Rightarrow> string \<Rightarrow> string \<Rightarrow> string option \<Rightarrow> int \<Rightarrow> string \<Rightarrow> string \<Rightarrow> classes \<times> unit result"
where
  "schedule_class s instructorId courseId sectionId scheduledAt i uuid =
     (case rbind (assert_course_owner (class_db s) instructorId courseId) (\<lambda>_.
            guard_or (sectionId = None \<or> sectionId = Some [] \<or>
                list_ex (\<lambda>e. Some (se_id e) = sectionId \<and> se_courseId e = courseId) (cl_sections s))
              (NotFound ''Section not found in course'')) of
        Inl e \<Rightarrow> (s, Inl e)
      | Inr _ \<Rightarrow>
          (s\<lparr>cl_sessions := cl_sessions s @ [new_class i courseId sectionId scheduledAt (''session-'' @ uuid)]\<rparr>, Inr ()))"

definition list_for_course :: "classes \<Rightarrow> string \<Rightarrow> class_session list" where
  "list_for_course s courseId = sort_key (\<lambda>x. - cs_scheduledAt x) (filter (\<lambda>x. ls_courseId x = courseId) (cl_sessions s))"

text \<open>MySQL puts rows without a start last in a descending order.\<close>

definition browse :: "classes \<Rightarrow> class_session list" where
  "browse s =
     (let xs = sort_key cs_scheduledAt (filter (\<lambda>x. ls_status x = LIVE \<or> ls_status x = SCHEDULED) (cl_sessions s))
      in sort_key (\<lambda>x. - the (cs_startedAt x)) (filter (\<lambda>x. cs_startedAt x \<noteq> None) xs) @ filter (\<lambda>x. cs_startedAt x = None) xs)"

definition get_class :: "classes \<Rightarrow> string \<Rightarrow> class_session result" where
  "get_class s i = from_option (NotFound ''Session not found'') (the_class s i)"

section \<open>Opening and closing\<close>

definition with_course :: "classes \<Rightarrow> string \<Rightarrow> (class_session \<times> class_course) option" where
  "with_course s i = Option.bind (the_class s i) (\<lambda>x. map_option (Pair x) (the_course s (ls_courseId x)))"

definition get_owned :: "classes \<Rightarrow> string \<Rightarrow> string \<Rightarrow> class_session result" where
  "get_owned s instructorId i =
     rbind (from_option (NotFound ''Session not found'') (with_course s i)) (\<lambda>(x, c).
     rbind (guard_or (co_instructorId c = Some instructorId) (Forbidden ''Not your session'')) (\<lambda>_. Inr x))"

definition runs_class :: "jwt_payload \<Rightarrow> class_course \<Rightarrow> bool" where
  "runs_class user c \<longleftrightarrow>
     (jwt_role user = INSTRUCTOR \<and> co_instructorId c = Some (jwt_sub user)) \<or>
     (jwt_role user = ORG_ADMIN \<and> co_organizationId c = jwt_organizationId user)"

definition get_manageable :: "classes \<Rightarrow> jwt_payload \<Rightarrow> string \<Rightarrow> class_session result" where
  "get_manageable s user i =
     rbind (from_option (NotFound ''Session not found'') (with_course s i)) (\<lambda>(x, c).
     rbind (guard_or (runs_class user c) (Forbidden ''Not your session'')) (\<lambda>_. Inr x))"

definition start_class :: "classes \<Rightarrow> string \<Rightarrow> string \<Rightarrow> int \<Rightarrow> classes \<times> unit result" where
  "start_class s instructorId i now =
     (case get_owned s instructorId i of
        Inl e \<Rightarrow> (s, Inl e)
      | Inr x \<Rightarrow>
          if ls_status x \<noteq> SCHEDULED then (s, Inl (Conflict ''Cannot start this session''))
          else (set_class i (\<lambda>y. y\<lparr>ls_status := LIVE, cs_startedAt := Some now\<rparr>) s, Inr ()))"

definition end_class :: "classes \<Rightarrow> jwt_payload \<Rightarrow> string \<Rightarrow> int \<Rightarrow> classes \<times> unit result" where
  "end_class s user i now =
     (case get_manageable s user i of
        Inl e \<Rightarrow> (s, Inl e)
      | Inr x \<Rightarrow>
          if ls_status x \<noteq> LIVE then (s, Inl (Conflict ''Cannot end this session''))
          else
            let s1 = set_class i (\<lambda>y. y\<lparr>ls_status := ENDED, cs_endedAt := Some now\<rparr>) s;
                c = the_course s (ls_courseId x);
                released = (case c of None \<Rightarrow> True | Some k \<Rightarrow> cc_instant k);
                s2 = s1\<lparr>cl_assessed := cl_assessed s1 @ [(i, ls_courseId x, cs_sectionId x, released)]\<rparr>;
                s3 = class_emit i RoomEnded s2
            in (if Option.bind c cc_evict = Some True then class_emit i RoomClosed s3 else s3, Inr ()))"

section \<open>Joining a course's class\<close>

text \<open>The cohort somebody means when they open a program.\<close>

definition target_course :: "classes \<Rightarrow> jwt_payload \<Rightarrow> class_course \<Rightarrow> class_course result" where
  "target_course s user c =
     (case jwt_role user of
        STUDENT \<Rightarrow>
          if enrolled_in s (co_id c) (jwt_sub user) then Inr c
          else (case find (\<lambda>r. en_studentId r = jwt_sub user \<and>
                    Option.bind (the_course s (en_courseId r)) cc_parentCourseId = Some (co_id c)) (cl_enrollments s) of
                  None \<Rightarrow> Inl (Forbidden ''Not enrolled'')
                | Some r \<Rightarrow> from_option (Forbidden ''Not enrolled'') (the_course s (en_courseId r)))
      | INSTRUCTOR \<Rightarrow>
          if co_instructorId c = Some (jwt_sub user) then Inr c
          else from_option (Forbidden ''Not your course'')
            (find (\<lambda>k. cc_parentCourseId k = Some (co_id c) \<and> co_instructorId k = Some (jwt_sub user)) (cl_courses s))
      | ORG_ADMIN \<Rightarrow>
          Inr (case Option.bind (live_child s (co_id c)) (\<lambda>x. the_course s (ls_courseId x)) of
                 None \<Rightarrow> c | Some k \<Rightarrow> k))"

definition hosting :: "jwt_payload \<Rightarrow> bool \<Rightarrow> class_course \<Rightarrow> bool" where
  "hosting user teach c \<longleftrightarrow>
     (jwt_role user = INSTRUCTOR \<and> co_instructorId c = Some (jwt_sub user)) \<or>
     (jwt_role user = ORG_ADMIN \<and> co_organizationId c = jwt_organizationId user \<and> teach)"

definition room_of :: "string \<Rightarrow> string \<Rightarrow> string" where
  "room_of courseId dateKey = ''course-'' @ courseId @ ''-'' @ dateKey"

text \<open>\<open>upsert\<close> on the room's name.\<close>

definition ensure_class :: "classes \<Rightarrow> string \<Rightarrow> string \<Rightarrow> int \<Rightarrow> string \<Rightarrow> classes \<times> class_session" where
  "ensure_class s i courseId scheduledAt room =
     (case find (\<lambda>x. ls_livekitRoom x = room) (cl_sessions s) of
        Some x \<Rightarrow> (s, x)
      | None \<Rightarrow> let x = new_class i courseId None scheduledAt room in (s\<lparr>cl_sessions := cl_sessions s @ [x]\<rparr>, x))"

definition resolve_course_session ::
  "classes \<Rightarrow> jwt_payload \<Rightarrow> string \<Rightarrow> bool \<Rightarrow> string \<Rightarrow> int \<Rightarrow> classes \<times> string result"
where
  "resolve_course_session s user courseId teach i now =
     (case rbind (from_option (NotFound ''Course not found'') (the_course s courseId)) (target_course s user) of
        Inl e \<Rightarrow> (s, Inl e)
      | Inr c \<Rightarrow>
          let host = hosting user teach c;
              activeLive = live_class s (co_id c);
              window = resolve_join_window (cc_schedule c) now
          in if activeLive = None \<and> \<not> jw_joinableNow window \<and> \<not> host
             then (s, Inl (Conflict ''No live session scheduled right now''))
             else
               let dateKey = (case jw_current window of Some oc \<Rightarrow> oc_dateKey oc
                                | None \<Rightarrow> today_date_key (sc_timezone (cc_schedule c)) now);
                   scheduledAt = (case jw_current window of Some oc \<Rightarrow> oc_scheduledAt oc | None \<Rightarrow> now);
                   (s1, x) = (case activeLive of
                       Some x \<Rightarrow> (s, x)
                     | None \<Rightarrow> ensure_class s i (co_id c) scheduledAt (room_of (co_id c) dateKey));
                   reopen = (ls_status x = ENDED \<and> (jw_joinableNow window \<or> host));
                   s2 = (if reopen then set_class (ls_id x) (\<lambda>y. y\<lparr>ls_status := SCHEDULED, cs_endedAt := None\<rparr>) s1 else s1);
                   s3 = (if host \<and> (ls_status x = SCHEDULED \<or> reopen)
                         then set_class (ls_id x) (\<lambda>y. y\<lparr>ls_status := LIVE, cs_startedAt := Some now\<rparr>) s2 else s2)
               in (s3, Inr (ls_id x)))"

section \<open>What the course page shows\<close>

record class_button =
  cb_joinableNow :: bool
  cb_isLive :: bool
  cb_nextAt :: "int option"
  cb_activeBatch :: "(string \<times> string) option"

definition batch_of :: "classes \<Rightarrow> class_session \<Rightarrow> (string \<times> string) option" where
  "batch_of s x = map_option (\<lambda>c. (co_id c, cc_title c)) (the_course s (ls_courseId x))"

definition next_batch_class :: "classes \<Rightarrow> string \<Rightarrow> int \<Rightarrow> class_session option" where
  "next_batch_class s courseId now =
     (case sort_key cs_scheduledAt (filter (\<lambda>x. ls_status x = SCHEDULED \<and> cs_scheduledAt x \<ge> now \<and>
            Option.bind (the_course s (ls_courseId x)) cc_parentCourseId = Some courseId) (cl_sessions s)) of
        [] \<Rightarrow> None | x # _ \<Rightarrow> Some x)"

definition course_session_status :: "classes \<Rightarrow> string \<Rightarrow> int \<Rightarrow> class_button result" where
  "course_session_status s courseId now =
     (case the_course s courseId of
        None \<Rightarrow> Inl (NotFound ''Course not found'')
      | Some c \<Rightarrow>
          let own = live_class s courseId;
              child = (if own = None \<and> cc_parentCourseId c = None then live_child s courseId else None);
              active = (case own of Some x \<Rightarrow> Some x | None \<Rightarrow> child);
              batch = Option.bind child (batch_of s);
              window = resolve_join_window (cc_schedule c) now;
              today = Option.bind (jw_current window)
                (\<lambda>oc. find (\<lambda>x. ls_livekitRoom x = room_of courseId (oc_dateKey oc)) (cl_sessions s));
              isLive = (active \<noteq> None \<or> map_option ls_status today = Some LIVE);
              cur = (case active of
                  Some x \<Rightarrow> Some (cs_scheduledAt x)
                | None \<Rightarrow> map_option oc_scheduledAt (case jw_current window of Some oc \<Rightarrow> Some oc | None \<Rightarrow> jw_next window));
              nxt = (if cur = None \<and> cc_parentCourseId c = None then next_batch_class s courseId now else None)
          in Inr \<lparr>cb_joinableNow = (isLive \<or> jw_joinableNow window), cb_isLive = isLive,
                  cb_nextAt = (case nxt of Some x \<Rightarrow> Some (cs_scheduledAt x) | None \<Rightarrow> cur),
                  cb_activeBatch = (case batch of Some b \<Rightarrow> Some b | None \<Rightarrow> Option.bind nxt (batch_of s))\<rparr>)"

record course_card =
  cd_courseId :: string
  cd_courseTitle :: string
  cd_programTitle :: "string option"
  cd_brand :: "(string \<times> string option \<times> string option) option"
  cd_button :: class_button

definition describe_course :: "classes \<Rightarrow> string \<Rightarrow> int \<Rightarrow> course_card result" where
  "describe_course s courseId now =
     rbind (from_option (NotFound ''Course not found'') (the_course s courseId)) (\<lambda>c.
     rbind (course_session_status s courseId now) (\<lambda>b.
     Inr \<lparr>cd_courseId = co_id c, cd_courseTitle = cc_title c,
          cd_programTitle = map_option cc_title (Option.bind (cc_parentCourseId c) (the_course s)),
          cd_brand = cc_brand c, cd_button = b\<rparr>))"

section \<open>Join tokens\<close>

text \<open>What LiveKit is told to let the bearer do.\<close>

record join_grant =
  jg_identity :: string
  jg_name :: string
  jg_role :: role
  jg_room :: string
  jg_canPublish :: bool
  jg_canSubscribe :: bool
  jg_canPublishData :: bool
  jg_hidden :: bool

definition mint_join_token :: "string \<Rightarrow> string \<Rightarrow> string \<Rightarrow> role \<Rightarrow> bool \<Rightarrow> join_grant" where
  "mint_join_token room userId name r hidden =
     \<lparr>jg_identity = userId, jg_name = name, jg_role = r, jg_room = room, jg_canPublish = (\<not> hidden),
      jg_canSubscribe = True, jg_canPublishData = (\<not> hidden), jg_hidden = hidden\<rparr>"

definition attend :: "string \<Rightarrow> string \<Rightarrow> int \<Rightarrow> classes \<Rightarrow> classes" where
  "attend i studentId now s =
     (if list_ex (\<lambda>a. ca_sessionId a = i \<and> ca_studentId a = studentId) (cl_attendance s) then s
      else s\<lparr>cl_attendance := cl_attendance s @ [\<lparr>ca_sessionId = i, ca_studentId = studentId, ca_joinedAt = now\<rparr>]\<rparr>)"

definition join_token :: "classes \<Rightarrow> jwt_payload \<Rightarrow> string \<Rightarrow> bool \<Rightarrow> int \<Rightarrow> classes \<times> join_grant result" where
  "join_token s user i teach now =
     (case with_course s i of
        None \<Rightarrow> (s, Inl (NotFound ''Session not found''))
      | Some (x, c) \<Rightarrow>
          if ls_status x = ENDED then (s, Inl (Conflict ''Session has ended''))
          else if map_option rc_sessionId (jwt_recorder user) = Some i
          then (s, Inr (mint_join_token (ls_livekitRoom x) (''recorder-'' @ rc_recordingId (the (jwt_recorder user)))
                  ''Recording'' (jwt_role user) True))
          else
            let admin = (jwt_role user = ORG_ADMIN);
                grant = mint_join_token (ls_livekitRoom x) (jwt_sub user) (jwt_name user)
                  (if admin \<and> teach then INSTRUCTOR else jwt_role user) (admin \<and> \<not> teach)
            in if jwt_role user = INSTRUCTOR
               then (if co_instructorId c \<noteq> Some (jwt_sub user) then (s, Inl (Forbidden ''Not your session'')) else (s, Inr grant))
               else if admin
               then (if co_organizationId c \<noteq> jwt_organizationId user then (s, Inl (Forbidden ''Not your organization''))
                     else (s, Inr grant))
               else if \<not> enrolled_in s (co_id c) (jwt_sub user) then (s, Inl (Forbidden ''Not enrolled''))
               else (attend i (jwt_sub user) now s, Inr grant))"

section \<open>The attendance sheet\<close>

record sheet_row =
  sr_studentId :: string
  sr_name :: string
  sr_present :: bool
  sr_joinedAt :: "int option"

definition user_name :: "classes \<Rightarrow> string \<Rightarrow> string" where
  "user_name s i = (case find (\<lambda>u. us_id u = i) (cl_users s) of None \<Rightarrow> [] | Some u \<Rightarrow> us_name u)"

text \<open>\<open>le\<close> is the collation's order of names.\<close>

definition attendance_for_course ::
  "classes \<Rightarrow> jwt_payload \<Rightarrow> string \<Rightarrow> string option \<Rightarrow> (string \<Rightarrow> nat) \<Rightarrow> (class_session list \<times> string option \<times> sheet_row list) result"
where
  "attendance_for_course s user courseId sessionId collation =
     rbind (assert_can_manage_course (class_db s) user courseId) (\<lambda>_.
       let xs = list_for_course s courseId;
           selected = (case sessionId of
               Some i \<Rightarrow> if i = [] then (case xs of [] \<Rightarrow> None | x # _ \<Rightarrow> Some x) else find (\<lambda>x. ls_id x = i) xs
             | None \<Rightarrow> (case xs of [] \<Rightarrow> None | x # _ \<Rightarrow> Some x))
       in case selected of
            None \<Rightarrow> Inr (xs, None, [])
          | Some x \<Rightarrow>
              let joined = map (\<lambda>a. (ca_studentId a, ca_joinedAt a)) (filter (\<lambda>a. ca_sessionId a = ls_id x) (cl_attendance s))
              in Inr (xs, Some (ls_id x),
                   map (\<lambda>e. \<lparr>sr_studentId = en_studentId e, sr_name = user_name s (en_studentId e),
                        sr_present = (map_of joined (en_studentId e) \<noteq> None), sr_joinedAt = map_of joined (en_studentId e)\<rparr>)
                     (sort_key (\<lambda>e. collation (user_name s (en_studentId e)))
                       (filter (\<lambda>e. en_courseId e = courseId) (cl_enrollments s)))))"

end
