(* ===== verification/SessionRuns.thy ===== *)
theory SessionRuns
  imports Sessions RoomMembership
begin

text \<open>
  Runs of the class service: who opens and closes a class, where two people who join the same day
  meet, what the attendance sheet says, and how the tokens it mints agree with the room gateway.
\<close>

section \<open>Rows through the operations\<close>

lemma the_classD: "the_class s i = Some x \<Longrightarrow> x \<in> set (cl_sessions s) \<and> ls_id x = i"
  by (auto simp: the_class_def find_Some_iff)

lemma the_courseD: "the_course s i = Some c \<Longrightarrow> c \<in> set (cl_courses s) \<and> co_id c = i"
  by (auto simp: the_course_def find_Some_iff)

lemma with_courseD: "with_course s i = Some (x, c) \<Longrightarrow> the_class s i = Some x \<and> the_course s (ls_courseId x) = Some c"
  by (auto simp: with_course_def bind_eq_Some_conv)

lemma set_class_simps [simp]:
  "cl_courses (set_class i f s) = cl_courses s" "cl_enrollments (set_class i f s) = cl_enrollments s"
  "cl_attendance (set_class i f s) = cl_attendance s" "the_course (set_class i f s) k = the_course s k"
  by (simp_all add: set_class_def the_course_def)

lemma class_emit_simps [simp]:
  "cl_courses (class_emit i ev s) = cl_courses s" "cl_sessions (class_emit i ev s) = cl_sessions s"
  "cl_attendance (class_emit i ev s) = cl_attendance s" "cl_enrollments (class_emit i ev s) = cl_enrollments s"
  by (simp_all add: class_emit_def)

definition dashless :: "string \<Rightarrow> bool" where
  "dashless i \<longleftrightarrow> CHR ''-'' \<notin> set i"

text \<open>The room's name tells the course, as generated ids have no dash.\<close>

lemma room_of_inject:
  assumes "dashless a" "dashless b" "room_of a k = room_of b l"
  shows "a = b"
proof -
  have "takeWhile (\<lambda>c. c \<noteq> CHR ''-'') (i @ CHR ''-'' # r) = i" if "dashless i" for i r
    using that by (subst takeWhile_append2) (auto simp: dashless_def)
  then show ?thesis using assms by (auto simp: room_of_def) metis
qed

definition room_tells :: "class_session \<Rightarrow> bool" where
  "room_tells x \<longleftrightarrow> (\<exists>k. ls_livekitRoom x = room_of (ls_courseId x) k) \<or> (\<exists>u. ls_livekitRoom x = ''session-'' @ u)"

definition classes_ok :: "classes \<Rightarrow> bool" where
  "classes_ok s \<longleftrightarrow>
     (\<forall>c \<in> set (cl_courses s). dashless (co_id c)) \<and> distinct (map co_id (cl_courses s)) \<and>
     distinct (map ls_id (cl_sessions s)) \<and> distinct (map ls_livekitRoom (cl_sessions s)) \<and>
     (\<forall>x \<in> set (cl_sessions s). room_tells x \<and> ls_courseId x \<in> co_id ` set (cl_courses s))"

lemma same_class: "classes_ok s \<Longrightarrow> x \<in> set (cl_sessions s) \<Longrightarrow> y \<in> set (cl_sessions s) \<Longrightarrow> ls_id x = ls_id y \<Longrightarrow> x = y"
  by (auto simp: classes_ok_def distinct_map dest: inj_onD)

lemma same_room:
  "classes_ok s \<Longrightarrow> x \<in> set (cl_sessions s) \<Longrightarrow> y \<in> set (cl_sessions s) \<Longrightarrow> ls_livekitRoom x = ls_livekitRoom y \<Longrightarrow> x = y"
  by (auto simp: classes_ok_def distinct_map dest: inj_onD)

text \<open>Changes of a row that keep what identifies it.\<close>

definition plain :: "(class_session \<Rightarrow> class_session) \<Rightarrow> bool" where
  "plain f \<longleftrightarrow> (\<forall>x. ls_id (f x) = ls_id x \<and> ls_courseId (f x) = ls_courseId x \<and> ls_livekitRoom (f x) = ls_livekitRoom x)"

lemma plain_updates [simp]:
  "plain (\<lambda>y. y\<lparr>ls_status := st, cs_startedAt := t\<rparr>)" "plain (\<lambda>y. y\<lparr>ls_status := st, cs_endedAt := t\<rparr>)"
  by (simp_all add: plain_def)

lemma set_class_ok:
  assumes "classes_ok s" "plain f"
  shows "classes_ok (set_class i f s)"
proof -
  define g where "g x = (if ls_id x = i then f x else x)" for x
  have g: "ls_id (g x) = ls_id x" "ls_livekitRoom (g x) = ls_livekitRoom x" "ls_courseId (g x) = ls_courseId x" for x
    using assms(2) by (simp_all add: plain_def g_def)
  then have "room_tells (g x) = room_tells x" for x by (simp add: room_tells_def)
  moreover have "cl_sessions (set_class i f s) = map g (cl_sessions s)" by (simp add: set_class_def g_def)
  ultimately show ?thesis using assms(1) g by (simp add: classes_ok_def o_def)
qed

lemma classes_ok_same: "classes_ok s \<Longrightarrow> cl_courses t = cl_courses s \<Longrightarrow> cl_sessions t = cl_sessions s \<Longrightarrow> classes_ok t"
  by (simp add: classes_ok_def)

lemma add_class_ok:
  assumes "classes_ok s" "ls_id x \<notin> ls_id ` set (cl_sessions s)" "ls_livekitRoom x \<notin> ls_livekitRoom ` set (cl_sessions s)"
    "room_tells x" "ls_courseId x \<in> co_id ` set (cl_courses s)"
  shows "classes_ok (s\<lparr>cl_sessions := cl_sessions s @ [x]\<rparr>)"
  using assms by (auto simp: classes_ok_def)

lemma ensure_class_ok:
  assumes ok: "classes_ok s" and i: "i \<notin> ls_id ` set (cl_sessions s)" and c: "courseId \<in> co_id ` set (cl_courses s)"
    and e: "ensure_class s i courseId at' (room_of courseId k) = (t, x)"
  shows "classes_ok t \<and> x \<in> set (cl_sessions t) \<and> ls_livekitRoom x = room_of courseId k \<and> ls_courseId x = courseId \<and>
    cl_courses t = cl_courses s \<and> (x \<in> set (cl_sessions s) \<and> t = s \<or> ls_status x = SCHEDULED \<and> cl_sessions t = cl_sessions s @ [x])"
proof (cases "find (\<lambda>x. ls_livekitRoom x = room_of courseId k) (cl_sessions s)")
  case None
  then have "room_of courseId k \<notin> ls_livekitRoom ` set (cl_sessions s)" by (auto simp: find_None_iff)
  then have "classes_ok (s\<lparr>cl_sessions := cl_sessions s @ [new_class i courseId None at' (room_of courseId k)]\<rparr>)"
    using ok i c by (intro add_class_ok) (auto simp: new_class_def room_tells_def)
  then show ?thesis using e None by (auto simp: ensure_class_def Let_def new_class_def)
next
  case (Some y)
  then have y: "y \<in> set (cl_sessions s)" "ls_livekitRoom y = room_of courseId k" by (auto simp: find_Some_iff)
  then have tells: "room_tells y" "ls_courseId y \<in> co_id ` set (cl_courses s)" using ok by (auto simp: classes_ok_def)
  have dash: "dashless (ls_courseId y)" "dashless courseId" using ok c tells(2) by (auto simp: classes_ok_def)
  have "room_of courseId k \<noteq> ''session-'' @ u" for u by (simp add: room_of_def)
  then obtain l where "ls_livekitRoom y = room_of (ls_courseId y) l" using tells(1) y(2) by (metis room_tells_def)
  then have "ls_courseId y = courseId" using room_of_inject [OF dash, of l k] y(2) by simp
  then show ?thesis using e Some ok y by (simp add: ensure_class_def)
qed

section \<open>Steps\<close>

datatype class_op =
    ScheduleOp string string "string option" int string string
  | StartOp string string int
  | EndOp jwt_payload string int
  | JoinOp jwt_payload string bool string int
  | TokenOp jwt_payload string bool int

definition fresh_class :: "classes \<Rightarrow> string \<Rightarrow> bool" where
  "fresh_class s i \<longleftrightarrow> i \<notin> ls_id ` set (cl_sessions s)"

fun class_step :: "classes \<Rightarrow> class_op \<Rightarrow> classes" where
  "class_step s (ScheduleOp u k sec at' i uuid) =
     (if fresh_class s i \<and> ''session-'' @ uuid \<notin> ls_livekitRoom ` set (cl_sessions s)
      then fst (schedule_class s u k sec at' i uuid) else s)"
| "class_step s (StartOp u i now) = fst (start_class s u i now)"
| "class_step s (EndOp u i now) = fst (end_class s u i now)"
| "class_step s (JoinOp u k teach i now) =
     (if fresh_class s i then fst (resolve_course_session s u k teach i now) else s)"
| "class_step s (TokenOp u i teach now) = fst (join_token s u i teach now)"

text \<open>A join is refused, or it is about a course \<open>c\<close> and a row \<open>x\<close> of that course.\<close>

lemma target_courseD:
  "target_course s u c = Inr k \<Longrightarrow> c \<in> set (cl_courses s) \<Longrightarrow> k \<in> set (cl_courses s)"
  by (auto simp: target_course_def res bind_eq_Some_conv dest!: the_courseD split: role.splits if_splits option.splits)
    (auto simp: find_Some_iff)

lemma live_classD: "live_class s k = Some x \<Longrightarrow> x \<in> set (cl_sessions s) \<and> ls_courseId x = k \<and> ls_status x = LIVE"
  by (auto simp: live_class_def find_Some_iff)

definition day_of :: "class_course \<Rightarrow> int \<Rightarrow> string" where
  "day_of c now = (case jw_current (resolve_join_window (cc_schedule c) now) of Some oc \<Rightarrow> oc_dateKey oc
     | None \<Rightarrow> today_date_key (sc_timezone (cc_schedule c)) now)"

definition joined_target :: "classes \<Rightarrow> jwt_payload \<Rightarrow> string \<Rightarrow> class_course result" where
  "joined_target s u k = rbind (from_option (NotFound ''Course not found'') (the_course s k)) (target_course s u)"

lemma joined_target_course: "joined_target s u k = Inr c \<Longrightarrow> c \<in> set (cl_courses s)"
  by (auto simp: joined_target_def res dest: target_courseD the_courseD)

lemma resolve_cases:
  assumes ok: "classes_ok s" and i: "fresh_class s i" and r: "resolve_course_session s u k teach i now = (t, Inr a)"
  obtains c s1 x where "joined_target s u k = Inr c" "classes_ok s1" "x \<in> set (cl_sessions s1)" "a = ls_id x" "ls_courseId x = co_id c"
    "cl_courses s1 = cl_courses s"
    "live_class s (co_id c) = Some x \<and> s1 = s \<or> live_class s (co_id c) = None \<and> ls_livekitRoom x = room_of (co_id c) (day_of c now) \<and>
       (x \<in> set (cl_sessions s) \<and> s1 = s \<or> ls_status x = SCHEDULED \<and> cl_sessions s1 = cl_sessions s @ [x])"
    "\<exists>b. let s2 = (if ls_status x = ENDED \<and> b then set_class (ls_id x) (\<lambda>y. y\<lparr>ls_status := SCHEDULED, cs_endedAt := None\<rparr>) s1 else s1)
         in (hosting u teach c \<longrightarrow> b) \<and> t = (if hosting u teach c \<and> (ls_status x = SCHEDULED \<or> ls_status x = ENDED \<and> b)
               then set_class (ls_id x) (\<lambda>y. y\<lparr>ls_status := LIVE, cs_startedAt := Some now\<rparr>) s2 else s2)"
proof -
  let ?w = "\<lambda>c. resolve_join_window (cc_schedule c) now"
  obtain c where c: "joined_target s u k = Inr c"
    using r by (cases "joined_target s u k") (auto simp: resolve_course_session_def joined_target_def)
  obtain s1 x where sx: "(case live_class s (co_id c) of Some x \<Rightarrow> (s, x)
      | None \<Rightarrow> ensure_class s i (co_id c) (case jw_current (?w c) of Some oc \<Rightarrow> oc_scheduledAt oc | None \<Rightarrow> now) (room_of (co_id c) (day_of c now))) = (s1, x)"
    by (cases "live_class s (co_id c)") (auto simp: prod_eq_iff)
  have step: "a = ls_id x \<and> t = (let b = jw_joinableNow (?w c) \<or> hosting u teach c;
      s2 = (if ls_status x = ENDED \<and> b then set_class (ls_id x) (\<lambda>y. y\<lparr>ls_status := SCHEDULED, cs_endedAt := None\<rparr>) s1 else s1)
    in (if hosting u teach c \<and> (ls_status x = SCHEDULED \<or> ls_status x = ENDED \<and> b)
               then set_class (ls_id x) (\<lambda>y. y\<lparr>ls_status := LIVE, cs_startedAt := Some now\<rparr>) s2 else s2))"
    using r sx c unfolding resolve_course_session_def joined_target_def day_of_def Let_def
    by (auto split: if_splits)
  show ?thesis
  proof (cases "live_class s (co_id c)")
    case None
    have e: "ensure_class s i (co_id c) (case jw_current (?w c) of Some oc \<Rightarrow> oc_scheduledAt oc | None \<Rightarrow> now) (room_of (co_id c) (day_of c now)) = (s1, x)"
      using sx None by simp
    have "co_id c \<in> co_id ` set (cl_courses s)" using joined_target_course [OF c] by simp
    note en = ensure_class_ok [OF ok i [unfolded fresh_class_def] this e]
    show ?thesis by (rule that [OF c, of s1 x]) (use en step None in \<open>auto simp: Let_def\<close>)
  next
    case (Some y)
    then have "s1 = s" "x = y" using sx by simp_all
    then show ?thesis using live_classD [OF Some] ok step Some by (intro that [OF c, of s x]) (auto simp: Let_def)
  qed
qed

section \<open>What the room gateway sees\<close>

lemma find_map_truncate:
  assumes "\<And>x. key (g x) = key' x"
  shows "find (\<lambda>y. key y = i) (map g xs) = map_option g (find (\<lambda>x. key' x = i) xs)"
  using assms by (induction xs) simp_all

lemma truncated [simp]:
  "ls_id (session_row.truncate x) = ls_id x" "ls_status (session_row.truncate x) = ls_status x"
  "ls_courseId (session_row.truncate x) = ls_courseId x" "ls_livekitRoom (session_row.truncate x) = ls_livekitRoom x"
  "co_id (course_row.truncate c) = co_id c" "co_instructorId (course_row.truncate c) = co_instructorId c"
  "co_organizationId (course_row.truncate c) = co_organizationId c"
  by (simp_all add: session_row.truncate_def course_row.truncate_def)

lemma class_db_course: "find_course (class_db s) k = map_option course_row.truncate (the_course s k)"
  by (simp add: find_course_def the_course_def class_db_def find_map_truncate [where key' = co_id])

lemma class_db_session: "find_session (class_db s) i = map_option session_row.truncate (the_class s i)"
  by (simp add: find_session_def the_class_def class_db_def find_map_truncate [where key' = ls_id])

lemma class_db_enrolled: "enrolled (class_db s) k u = enrolled_in s k u"
  by (simp add: enrolled_def enrolled_in_def class_db_def)

lemma class_db_session_course:
  "session_course (class_db s) i = map_option (\<lambda>(x, c). (session_row.truncate x, course_row.truncate c)) (with_course s i)"
  by (simp add: session_course_def with_course_def class_db_course class_db_session split: bind_splits)
    (auto simp: map_option_case split: option.split)

section \<open>The invariant\<close>

lemma start_classD:
  assumes "start_class s u i now = (t, r)"
  shows "t = s \<or> (\<exists>x c. the_class s i = Some x \<and> the_course s (ls_courseId x) = Some c \<and> co_instructorId c = Some u \<and>
    ls_status x = SCHEDULED \<and> t = set_class i (\<lambda>y. y\<lparr>ls_status := LIVE, cs_startedAt := Some now\<rparr>) s)"
  using assms by (auto simp: start_class_def get_owned_def res split: sum.splits if_splits dest!: with_courseD)

lemma end_classD:
  assumes "end_class s u i now = (t, r)"
  shows "t = s \<or> (\<exists>x c. the_class s i = Some x \<and> the_course s (ls_courseId x) = Some c \<and> runs_class u c \<and> ls_status x = LIVE \<and>
    cl_courses t = cl_courses s \<and>
    cl_sessions t = cl_sessions (set_class i (\<lambda>y. y\<lparr>ls_status := ENDED, cs_endedAt := Some now\<rparr>) s))"
  using assms by (auto simp: end_class_def get_manageable_def res Let_def split: sum.splits if_splits dest!: with_courseD)

lemma join_token_same:
  "cl_sessions (fst (join_token s u i teach now)) = cl_sessions s" "cl_courses (fst (join_token s u i teach now)) = cl_courses s"
  by (auto simp: join_token_def attend_def Let_def split: option.split)

lemma schedule_classD:
  assumes "schedule_class s u k sec at' i uuid = (t, r)"
  shows "t = s \<or> k \<in> co_id ` set (cl_courses s) \<and> t = s\<lparr>cl_sessions := cl_sessions s @ [new_class i k sec at' (''session-'' @ uuid)]\<rparr>"
  using assms by (auto simp: schedule_class_def assert_course_owner_def class_db_course res image_iff
      split: sum.splits option.splits if_splits dest!: the_courseD)

lemma resolve_ok:
  assumes ok: "classes_ok s" and i: "fresh_class s i"
  shows "classes_ok (fst (resolve_course_session s u k teach i now))"
proof (cases "snd (resolve_course_session s u k teach i now)")
  case (Inl e)
  then have "fst (resolve_course_session s u k teach i now) = s"
    by (auto simp: resolve_course_session_def Let_def split: sum.splits if_splits prod.splits)
  then show ?thesis using ok by simp
next
  case (Inr a)
  then have r: "resolve_course_session s u k teach i now = (fst (resolve_course_session s u k teach i now), Inr a)"
    by (simp add: prod_eq_iff)
  show ?thesis
    by (rule resolve_cases [OF ok i r]) (auto simp: Let_def intro!: set_class_ok)
qed

interpretation classes: invariant_system class_step classes_ok
proof
  fix s e
  assume ok: "classes_ok s"
  show "classes_ok (class_step s e)"
  proof (cases e)
    case (ScheduleOp u k sec at' i uuid)
    obtain t r where t: "schedule_class s u k sec at' i uuid = (t, r)" by fastforce
    show ?thesis
      using schedule_classD [OF t] ok t ScheduleOp
      by (auto simp: fresh_class_def new_class_def room_tells_def intro!: add_class_ok)
  next
    case (StartOp u i now)
    obtain t r where t: "start_class s u i now = (t, r)" by fastforce
    show ?thesis using start_classD [OF t] ok t StartOp by (auto intro: set_class_ok)
  next
    case (EndOp u i now)
    obtain t r where t: "end_class s u i now = (t, r)" by fastforce
    have "classes_ok (set_class i (\<lambda>y. y\<lparr>ls_status := ENDED, cs_endedAt := Some now\<rparr>) s)" using ok by (rule set_class_ok) simp
    then show ?thesis using end_classD [OF t] ok t EndOp by (auto intro: classes_ok_same)
  next
    case (JoinOp u k teach i now)
    then show ?thesis using ok resolve_ok by simp
  next
    case (TokenOp u i teach now)
    then show ?thesis using ok by (auto intro: classes_ok_same simp: join_token_same)
  qed
qed

definition classes_start :: "class_course list \<Rightarrow> section_row list \<Rightarrow> enrollment_row list \<Rightarrow> user_row list \<Rightarrow> classes" where
  "classes_start cs ss es us = \<lparr>cl_courses = cs, cl_sections = ss, cl_sessions = [], cl_enrollments = es, cl_users = us,
     cl_attendance = [], cl_sent = [], cl_assessed = []\<rparr>"

lemma classes_run: "\<forall>c \<in> set cs. dashless (co_id c) \<Longrightarrow> distinct (map co_id cs) \<Longrightarrow> classes_ok (foldl class_step (classes_start cs ss es us) ops)"
  by (rule classes.inv_run) (simp add: classes_ok_def classes_start_def)

section \<open>Lookups after a step\<close>

lemma the_classI: "classes_ok s \<Longrightarrow> x \<in> set (cl_sessions s) \<Longrightarrow> the_class s (ls_id x) = Some x"
proof -
  assume ok: "classes_ok s" and x: "x \<in> set (cl_sessions s)"
  obtain y where "the_class s (ls_id x) = Some y" using x by (cases "the_class s (ls_id x)") (auto simp: the_class_def find_None_iff)
  then show ?thesis using the_classD same_class [OF ok _ x] by metis
qed

lemma the_courseI: "classes_ok s \<Longrightarrow> c \<in> set (cl_courses s) \<Longrightarrow> the_course s (co_id c) = Some c"
proof -
  assume ok: "classes_ok s" and c: "c \<in> set (cl_courses s)"
  obtain k where k: "the_course s (co_id c) = Some k" using c by (cases "the_course s (co_id c)") (auto simp: the_course_def find_None_iff)
  have "inj_on co_id (set (cl_courses s))" using ok by (simp add: classes_ok_def distinct_map)
  then show ?thesis using the_courseD [OF k] k c by (auto dest: inj_onD)
qed

lemma the_class_set:
  assumes "plain f"
  shows "the_class (set_class i f s) j = (if j = i then map_option f (the_class s i) else the_class s j)"
proof -
  have "find (\<lambda>x. ls_id x = j) (map (\<lambda>x. if ls_id x = i then f x else x) xs) =
      (if j = i then map_option f (find (\<lambda>x. ls_id x = i) xs) else find (\<lambda>x. ls_id x = j) xs)" for xs
    using assms by (induction xs) (auto simp: plain_def)
  then show ?thesis by (simp add: the_class_def set_class_def)
qed

lemma the_class_add: "cl_sessions t = cl_sessions s @ [x] \<Longrightarrow> j \<noteq> ls_id x \<Longrightarrow> the_class t j = the_class s j"
proof -
  have "j \<noteq> ls_id x \<Longrightarrow> find (\<lambda>y. ls_id y = j) (xs @ [x]) = find (\<lambda>y. ls_id y = j) xs" for xs
    by (induction xs) auto
  then show "cl_sessions t = cl_sessions s @ [x] \<Longrightarrow> j \<noteq> ls_id x \<Longrightarrow> the_class t j = the_class s j"
    by (simp add: the_class_def)
qed

lemma the_class_same: "cl_sessions t = cl_sessions s \<Longrightarrow> the_class t i = the_class s i"
  by (simp add: the_class_def)

text \<open>Who opens a class, and who closes it.\<close>

fun opens :: "class_op \<Rightarrow> class_course \<Rightarrow> bool" where
  "opens (StartOp u i now) c \<longleftrightarrow> co_instructorId c = Some u"
| "opens (JoinOp u k teach i now) c \<longleftrightarrow> hosting u teach c"
| "opens op c \<longleftrightarrow> False"

fun closes :: "class_op \<Rightarrow> string \<Rightarrow> class_course \<Rightarrow> bool" where
  "closes (EndOp u i now) j c \<longleftrightarrow> i = j \<and> runs_class u c"
| "closes op j c \<longleftrightarrow> False"

definition status_of :: "classes \<Rightarrow> string \<Rightarrow> session_status option" where
  "status_of s j = map_option ls_status (the_class s j)"

definition turns :: "classes \<Rightarrow> class_op \<Rightarrow> classes \<Rightarrow> bool" where
  "turns s op t \<longleftrightarrow> (\<forall>j.
     (status_of s j \<noteq> Some LIVE \<and> status_of t j = Some LIVE \<longrightarrow>
        (\<exists>y c. the_class t j = Some y \<and> the_course s (ls_courseId y) = Some c \<and> opens op c)) \<and>
     (status_of s j = Some LIVE \<and> status_of t j \<noteq> Some LIVE \<longrightarrow>
        (\<exists>x c. the_class s j = Some x \<and> the_course s (ls_courseId x) = Some c \<and> closes op j c)))"

lemma turns_same: "cl_sessions t = cl_sessions s \<Longrightarrow> turns s op t"
proof -
  assume "cl_sessions t = cl_sessions s"
  then have "the_class t = the_class s" by (simp add: the_class_def fun_eq_iff)
  then show ?thesis unfolding turns_def status_of_def by auto
qed

text \<open>Only one row changes its status.\<close>

lemma turns_at:
  assumes "\<And>j. j \<noteq> i \<Longrightarrow> the_class t j = the_class s j"
    "status_of s i \<noteq> Some LIVE \<Longrightarrow> status_of t i = Some LIVE \<Longrightarrow> \<exists>y c. the_class t i = Some y \<and> the_course s (ls_courseId y) = Some c \<and> opens op c"
    "status_of s i = Some LIVE \<Longrightarrow> status_of t i \<noteq> Some LIVE \<Longrightarrow> \<exists>x c. the_class s i = Some x \<and> the_course s (ls_courseId x) = Some c \<and> closes op i c"
  shows "turns s op t"
  unfolding turns_def
proof (intro allI)
  fix j
  show "(status_of s j \<noteq> Some LIVE \<and> status_of t j = Some LIVE \<longrightarrow>
        (\<exists>y c. the_class t j = Some y \<and> the_course s (ls_courseId y) = Some c \<and> opens op c)) \<and>
     (status_of s j = Some LIVE \<and> status_of t j \<noteq> Some LIVE \<longrightarrow>
        (\<exists>x c. the_class s j = Some x \<and> the_course s (ls_courseId x) = Some c \<and> closes op j c))"
    using assms by (cases "j = i") (auto simp: status_of_def)
qed

lemma turns_join:
  assumes ok: "classes_ok s" and i: "fresh_class s i" and op: "op = JoinOp u k teach i now"
    and r: "resolve_course_session s u k teach i now = (t, Inr a)"
  shows "turns s op t"
proof (rule resolve_cases [OF ok i r])
  fix c s1 x
  assume c: "joined_target s u k = Inr c" and ok1: "classes_ok s1" and x: "x \<in> set (cl_sessions s1)" "ls_courseId x = co_id c"
    and row: "live_class s (co_id c) = Some x \<and> s1 = s \<or> live_class s (co_id c) = None \<and> ls_livekitRoom x = room_of (co_id c) (day_of c now) \<and>
       (x \<in> set (cl_sessions s) \<and> s1 = s \<or> ls_status x = SCHEDULED \<and> cl_sessions s1 = cl_sessions s @ [x])"
    and t: "\<exists>b. let s2 = (if ls_status x = ENDED \<and> b then set_class (ls_id x) (\<lambda>y. y\<lparr>ls_status := SCHEDULED, cs_endedAt := None\<rparr>) s1 else s1)
         in (hosting u teach c \<longrightarrow> b) \<and> t = (if hosting u teach c \<and> (ls_status x = SCHEDULED \<or> ls_status x = ENDED \<and> b)
               then set_class (ls_id x) (\<lambda>y. y\<lparr>ls_status := LIVE, cs_startedAt := Some now\<rparr>) s2 else s2)"
  have x1: "the_class s1 (ls_id x) = Some x" using the_classI [OF ok1 x(1)] .
  have c1: "the_course s (co_id c) = Some c" using the_courseI [OF ok joined_target_course [OF c]] .
  have s1: "the_class s1 j = the_class s j" if "j \<noteq> ls_id x" for j using row the_class_add that by blast
  have live: "status_of s (ls_id x) = Some LIVE \<longleftrightarrow> ls_status x = LIVE"
  proof (cases "s1 = s")
    case True
    then show ?thesis using x1 by (simp add: status_of_def)
  next
    case False
    then have new: "ls_status x = SCHEDULED" "cl_sessions s1 = cl_sessions s @ [x]" using row by blast+
    then have "ls_id x \<notin> ls_id ` set (cl_sessions s)" using ok1 by (auto simp: classes_ok_def)
    then have "the_class s (ls_id x) = None" unfolding the_class_def find_None_iff by (metis image_eqI)
    then show ?thesis using new by (simp add: status_of_def)
  qed
  show ?thesis
  proof (rule turns_at [of "ls_id x"])
    show "the_class t j = the_class s j" if "j \<noteq> ls_id x" for j
      using t that s1 by (auto simp: the_class_set Let_def)
    show "\<exists>y c. the_class t (ls_id x) = Some y \<and> the_course s (ls_courseId y) = Some c \<and> opens op c"
      if "status_of s (ls_id x) \<noteq> Some LIVE" "status_of t (ls_id x) = Some LIVE"
      using t that live x1 x(2) c1 by (auto simp: the_class_set Let_def status_of_def op split: if_splits)
    show "\<exists>x' c. the_class s (ls_id x) = Some x' \<and> the_course s (ls_courseId x') = Some c \<and> closes op (ls_id x) c"
      if "status_of s (ls_id x) = Some LIVE" "status_of t (ls_id x) \<noteq> Some LIVE"
      using t that live x1 by (auto simp: the_class_set Let_def status_of_def split: if_splits)
  qed
qed

lemma turns_step:
  assumes ok: "classes_ok s"
  shows "turns s op (class_step s op)"
proof (cases op)
  case (ScheduleOp u k sec at' i uuid)
  obtain t r where t: "schedule_class s u k sec at' i uuid = (t, r)" by fastforce
  have "turns s op t" if new: "fresh_class s i" and t': "t = s\<lparr>cl_sessions := cl_sessions s @ [new_class i k sec at' (''session-'' @ uuid)]\<rparr>"
  proof (rule turns_at [of i])
    show "the_class t j = the_class s j" if "j \<noteq> i" for j
      using the_class_add [of t s "new_class i k sec at' (''session-'' @ uuid)" j] that by (simp add: t' new_class_def)
    have none: "the_class s i = None" using new unfolding fresh_class_def the_class_def find_None_iff by (metis image_eqI)
    have "find (\<lambda>x. ls_id x = i) (xs @ [new_class i k sec at' r]) = Some (new_class i k sec at' r)"
      if "find (\<lambda>x. ls_id x = i) xs = None" for xs r
      using that by (induction xs) (auto simp: new_class_def split: if_splits)
    then have "the_class t i = Some (new_class i k sec at' (''session-'' @ uuid))"
      using none by (simp add: the_class_def t')
    then have "status_of t i = Some SCHEDULED" by (simp add: status_of_def new_class_def)
    then show "\<exists>y c. the_class t i = Some y \<and> the_course s (ls_courseId y) = Some c \<and> opens op c" if "status_of t i = Some LIVE"
      using that by simp
    show "\<exists>x c. the_class s i = Some x \<and> the_course s (ls_courseId x) = Some c \<and> closes op i c" if "status_of s i = Some LIVE"
      using that none by (simp add: status_of_def)
  qed
  then show ?thesis using schedule_classD [OF t] t ScheduleOp turns_same by auto
next
  case (StartOp u i now)
  obtain t r where t: "start_class s u i now = (t, r)" by fastforce
  have "turns s op t" if "the_class s i = Some x" "the_course s (ls_courseId x) = Some c" "co_instructorId c = Some u" "ls_status x = SCHEDULED"
    "t = set_class i (\<lambda>y. y\<lparr>ls_status := LIVE, cs_startedAt := Some now\<rparr>) s" for x c
    by (rule turns_at [of i]) (use that StartOp in \<open>simp_all add: the_class_set status_of_def\<close>)
  then show ?thesis using start_classD [OF t] t StartOp turns_same by auto
next
  case (EndOp u i now)
  obtain t r where t: "end_class s u i now = (t, r)" by fastforce
  have "turns s op t" if "the_class s i = Some x" "the_course s (ls_courseId x) = Some c" "runs_class u c" "ls_status x = LIVE"
    "cl_sessions t = cl_sessions (set_class i (\<lambda>y. y\<lparr>ls_status := ENDED, cs_endedAt := Some now\<rparr>) s)" for x c
    by (rule turns_at [of i]) (use that EndOp in \<open>simp_all add: the_class_same [OF that(5)] the_class_set status_of_def\<close>)
  then show ?thesis using end_classD [OF t] t EndOp turns_same by auto
next
  case (JoinOp u k teach i now)
  obtain t r where t: "resolve_course_session s u k teach i now = (t, r)" by fastforce
  show ?thesis
  proof (cases r)
    case (Inl e)
    then have "t = s" using t by (auto simp: resolve_course_session_def Let_def split: sum.splits if_splits prod.splits)
    then show ?thesis using JoinOp t turns_same by simp
  next
    case (Inr a)
    then show ?thesis using JoinOp t turns_join [OF ok _ JoinOp] turns_same by (cases "fresh_class s i") auto
  qed
qed (simp add: turns_same join_token_same)

section \<open>Attendance\<close>

definition present :: "classes \<Rightarrow> string \<Rightarrow> string \<Rightarrow> bool" where
  "present s i v \<longleftrightarrow> list_ex (\<lambda>a. ca_sessionId a = i \<and> ca_studentId a = v) (cl_attendance s)"

text \<open>A student takes a token for a class.\<close>

definition takes_token :: "classes \<Rightarrow> class_op \<Rightarrow> string \<Rightarrow> string \<Rightarrow> bool" where
  "takes_token s op i v \<longleftrightarrow>
     (\<exists>u teach now g. op = TokenOp u i teach now \<and> jwt_sub u = v \<and> jwt_role u = STUDENT \<and>
        map_option rc_sessionId (jwt_recorder u) \<noteq> Some i \<and> snd (join_token s u i teach now) = Inr g)"

lemma present_attend: "present (attend j v' now s) i v \<longleftrightarrow> present s i v \<or> (i = j \<and> v = v')"
  by (auto simp: attend_def present_def list_ex_iff)

lemma present_same: "cl_attendance t = cl_attendance s \<Longrightarrow> present t i v = present s i v"
  by (simp add: present_def)

lemma present_token:
  "present (fst (join_token s u j teach now)) i v \<longleftrightarrow>
     present s i v \<or> (i = j \<and> v = jwt_sub u \<and> jwt_role u = STUDENT \<and> map_option rc_sessionId (jwt_recorder u) \<noteq> Some j \<and>
       (\<exists>g. snd (join_token s u j teach now) = Inr g))"
  by (cases "jwt_role u") (auto simp: join_token_def Let_def present_attend split: option.split)

lemma present_step: "present (class_step s op) i v \<longleftrightarrow> present s i v \<or> takes_token s op i v"
proof (cases op)
  case (TokenOp u j teach now)
  then show ?thesis by (auto simp: present_token takes_token_def)
next
  case (ScheduleOp u k sec at' j uuid)
  then show ?thesis by (auto simp: takes_token_def schedule_class_def present_def split: sum.split)
next
  case (StartOp u j now)
  then show ?thesis by (auto simp: takes_token_def start_class_def present_def split: sum.split)
next
  case (EndOp u j now)
  then show ?thesis by (auto simp: takes_token_def end_class_def present_def Let_def split: sum.split)
next
  case (JoinOp u k teach j now)
  have e: "ensure_class s j a b c = (t, x) \<Longrightarrow> cl_attendance t = cl_attendance s" for a b c t x
    by (auto simp: ensure_class_def Let_def split: option.splits)
  have "cl_attendance (fst (resolve_course_session s u k teach j now)) = cl_attendance s"
    unfolding resolve_course_session_def Let_def by (auto dest: e split: sum.split option.splits prod.splits)
  then show ?thesis using JoinOp by (simp add: takes_token_def present_def)
qed

lemma present_run:
  "present (foldl class_step s ops) i v \<longleftrightarrow>
     present s i v \<or> (\<exists>pre op post. ops = pre @ op # post \<and> takes_token (foldl class_step s pre) op i v)"
proof (induction ops rule: rev_induct)
  case (snoc op ops)
  have "(\<exists>pre op' post. ops @ [op] = pre @ op' # post \<and> takes_token (foldl class_step s pre) op' i v) \<longleftrightarrow>
      (\<exists>pre op' post. ops = pre @ op' # post \<and> takes_token (foldl class_step s pre) op' i v) \<or> takes_token (foldl class_step s ops) op i v"
    (is "?l \<longleftrightarrow> ?r")
  proof
    assume ?l
    then obtain pre op' post where o: "ops @ [op] = pre @ op' # post" "takes_token (foldl class_step s pre) op' i v" by blast
    show ?r
    proof (cases post rule: rev_cases)
      case Nil
      then show ?thesis using o by simp
    next
      case (snoc p l)
      then have "ops = pre @ op' # p" using o(1) by simp
      then show ?thesis using o(2) by blast
    qed
  next
    assume ?r
    then show ?l
    proof
      assume "\<exists>pre op' post. ops = pre @ op' # post \<and> takes_token (foldl class_step s pre) op' i v"
      then obtain pre op' post where "ops = pre @ op' # post" "takes_token (foldl class_step s pre) op' i v" by blast
      then show ?l by (intro exI [of _ pre] exI [of _ op'] exI [of _ "post @ [op]"]) simp
    qed blast
  qed
  then show ?case using snoc by (simp add: present_step)
qed simp

lemma map_of_present: "map_of (map (\<lambda>a. (ca_studentId a, ca_joinedAt a)) (filter (\<lambda>a. ca_sessionId a = i) as)) v \<noteq> None \<longleftrightarrow>
    list_ex (\<lambda>a. ca_sessionId a = i \<and> ca_studentId a = v) as"
  by (induction as) auto

lemma sheet_rows:
  assumes "attendance_for_course s u k sid collation = Inr (xs, Some i, rows)" "r \<in> set rows"
  shows "sr_present r \<longleftrightarrow> present s i (sr_studentId r)"
  using assms unfolding attendance_for_course_def present_def Let_def map_of_present [symmetric]
  by (auto simp: res split: option.splits list.splits if_splits)

section \<open>Two people, one class\<close>

lemma live_classI:
  assumes "x \<in> set (cl_sessions s)" "ls_courseId x = k" "ls_status x = LIVE"
    "\<And>y. y \<in> set (cl_sessions s) \<Longrightarrow> ls_courseId y = k \<Longrightarrow> ls_status y = LIVE \<Longrightarrow> y = x"
  shows "live_class s k = Some x"
proof -
  obtain y where "live_class s k = Some y" using assms(1-3) by (cases "live_class s k") (auto simp: live_class_def find_None_iff)
  then show ?thesis using live_classD assms(4) by blast
qed

text \<open>Row \<open>a\<close> is where the course's people meet on the day: no other row of the course is live, and it is live
  or has the day's room.\<close>

definition meeting :: "classes \<Rightarrow> class_course \<Rightarrow> string \<Rightarrow> string \<Rightarrow> bool" where
  "meeting s c day a \<longleftrightarrow> c \<in> set (cl_courses s) \<and>
     (\<forall>y \<in> set (cl_sessions s). ls_courseId y = co_id c \<longrightarrow> ls_status y = LIVE \<longrightarrow> ls_id y = a) \<and>
     (\<exists>x. the_class s a = Some x \<and> ls_courseId x = co_id c \<and> (ls_status x = LIVE \<or> ls_livekitRoom x = room_of (co_id c) day))"

lemma joined_row:
  assumes ok: "classes_ok s" and i: "fresh_class s i" and r: "resolve_course_session s u k teach i now = (t, Inr a)"
    and c: "joined_target s u k = Inr c"
    and one: "\<And>x y. x \<in> set (cl_sessions s) \<Longrightarrow> y \<in> set (cl_sessions s) \<Longrightarrow> ls_courseId x = co_id c \<Longrightarrow> ls_courseId y = co_id c \<Longrightarrow>
      ls_status x = LIVE \<Longrightarrow> ls_status y = LIVE \<Longrightarrow> x = y"
  shows "meeting t c (day_of c now) a"
proof (rule resolve_cases [OF ok i r])
  fix c' s1 x
  assume c': "joined_target s u k = Inr c'" and ok1: "classes_ok s1" and x: "x \<in> set (cl_sessions s1)" "a = ls_id x" "ls_courseId x = co_id c'"
    and cs: "cl_courses s1 = cl_courses s"
    and row: "live_class s (co_id c') = Some x \<and> s1 = s \<or> live_class s (co_id c') = None \<and> ls_livekitRoom x = room_of (co_id c') (day_of c' now) \<and>
       (x \<in> set (cl_sessions s) \<and> s1 = s \<or> ls_status x = SCHEDULED \<and> cl_sessions s1 = cl_sessions s @ [x])"
    and t: "\<exists>b. let s2 = (if ls_status x = ENDED \<and> b then set_class (ls_id x) (\<lambda>y. y\<lparr>ls_status := SCHEDULED, cs_endedAt := None\<rparr>) s1 else s1)
         in (hosting u teach c' \<longrightarrow> b) \<and> t = (if hosting u teach c' \<and> (ls_status x = SCHEDULED \<or> ls_status x = ENDED \<and> b)
               then set_class (ls_id x) (\<lambda>y. y\<lparr>ls_status := LIVE, cs_startedAt := Some now\<rparr>) s2 else s2)"
  have cc: "c' = c" using c c' by simp
  have okt: "classes_ok t" using t ok1 by (auto simp: Let_def intro!: set_class_ok)
  have x1: "the_class s1 a = Some x" using the_classI [OF ok1 x(1)] x(2) by simp
  have live1: "y = x" if "y \<in> set (cl_sessions s1)" "ls_courseId y = co_id c" "ls_status y = LIVE" for y
  proof (cases "live_class s (co_id c)")
    case None
    then have "y \<notin> set (cl_sessions s)" using that(2,3) by (auto simp: live_class_def find_None_iff)
    then show ?thesis using that(1) row None cc by auto
  next
    case (Some z)
    then show ?thesis using row cc that one [of y z] live_classD [OF Some] by auto
  qed
  have "\<exists>y. the_class t a = Some y \<and> ls_id y = a \<and> ls_courseId y = ls_courseId x \<and> ls_livekitRoom y = ls_livekitRoom x \<and>
      (ls_status x = LIVE \<longrightarrow> ls_status y = LIVE)"
    using t x1 x(2) by (auto simp: Let_def the_class_set)
  then obtain z where z: "the_class t a = Some z" "ls_id z = a" "ls_courseId z = co_id c" "ls_livekitRoom z = ls_livekitRoom x"
    "ls_status x = LIVE \<longrightarrow> ls_status z = LIVE" using x(3) cc by auto
  have zt: "z \<in> set (cl_sessions t)" using the_classD [OF z(1)] by simp
  have rest: "the_class t j = the_class s1 j" if "j \<noteq> a" for j
    using t x(2) that by (auto simp: Let_def the_class_set)
  have only: "y = z" if "y \<in> set (cl_sessions t)" "ls_courseId y = co_id c" "ls_status y = LIVE" for y
  proof (rule ccontr)
    assume "y \<noteq> z"
    then have "ls_id y \<noteq> a" using same_class [OF okt that(1) zt] z(2) by auto
    then have "the_class s1 (ls_id y) = Some y" using rest the_classI [OF okt that(1)] by simp
    then have "y \<in> set (cl_sessions s1)" by (auto dest: the_classD)
    then show False using live1 that(2,3) \<open>ls_id y \<noteq> a\<close> x(2) by blast
  qed
  have "c \<in> set (cl_courses t)" using joined_target_course [OF c] t cs by (auto simp: Let_def)
  moreover have "ls_status z = LIVE \<or> ls_livekitRoom z = room_of (co_id c) (day_of c now)"
    using z(4,5) row cc by (auto dest: live_classD)
  ultimately show ?thesis unfolding meeting_def using z only by blast
qed

text \<open>The next one who joins on that day comes there, and it stays so.\<close>

lemma joins_there:
  assumes ok: "classes_ok s" and i: "fresh_class s i" and r: "resolve_course_session s u k teach i now = (t, Inr b)"
    and c: "joined_target s u k = Inr c" and m: "meeting s c (day_of c now) a"
  shows "b = a \<and> meeting t c (day_of c now) a"
proof -
  obtain x where x: "the_class s a = Some x" "ls_courseId x = co_id c" "ls_status x = LIVE \<or> ls_livekitRoom x = room_of (co_id c) (day_of c now)"
    and one: "\<And>y. y \<in> set (cl_sessions s) \<Longrightarrow> ls_courseId y = co_id c \<Longrightarrow> ls_status y = LIVE \<Longrightarrow> ls_id y = a"
    using m by (auto simp: meeting_def)
  have xs: "x \<in> set (cl_sessions s)" "ls_id x = a" using the_classD [OF x(1)] by simp_all
  have "b = a"
  proof (rule resolve_cases [OF ok i r])
    fix c' s1 y
    assume c': "joined_target s u k = Inr c'" and ok1: "classes_ok s1" and y: "y \<in> set (cl_sessions s1)" "b = ls_id y"
      and row: "live_class s (co_id c') = Some y \<and> s1 = s \<or> live_class s (co_id c') = None \<and> ls_livekitRoom y = room_of (co_id c') (day_of c' now) \<and>
         (y \<in> set (cl_sessions s) \<and> s1 = s \<or> ls_status y = SCHEDULED \<and> cl_sessions s1 = cl_sessions s @ [y])"
    have cc: "c' = c" using c c' by simp
    show "b = a"
    proof (cases "live_class s (co_id c)")
      case None
      then have "ls_status x \<noteq> LIVE" using xs x(2) by (auto simp: live_class_def find_None_iff)
      then have "ls_livekitRoom x = ls_livekitRoom y" using x(3) row None cc by auto
      moreover have "x \<in> set (cl_sessions s1)" using row xs(1) by auto
      ultimately show ?thesis using same_room [OF ok1 _ y(1)] xs(2) y(2) by blast
    next
      case (Some z)
      then show ?thesis using row cc one live_classD [OF Some] y(2) by auto
    qed
  qed
  moreover have "meeting t c (day_of c now) b"
    by (rule joined_row [OF ok i r c]) (metis one same_class [OF ok])
  ultimately show ?thesis by simp
qed

text \<open>A join of another course leaves it as it is.\<close>

lemma meeting_elsewhere:
  assumes m: "meeting s c day a" and okt: "classes_ok t" and cs: "cl_courses t = cl_courses s"
    and kept: "\<And>x. x \<in> set (cl_sessions s) \<Longrightarrow> ls_courseId x = co_id c \<Longrightarrow> x \<in> set (cl_sessions t)"
    and new: "\<And>x. x \<in> set (cl_sessions t) \<Longrightarrow> ls_courseId x = co_id c \<Longrightarrow> ls_status x = LIVE \<Longrightarrow> x \<in> set (cl_sessions s)"
  shows "meeting t c day a"
proof -
  obtain x where x: "the_class s a = Some x" "ls_courseId x = co_id c" "ls_status x = LIVE \<or> ls_livekitRoom x = room_of (co_id c) day"
    using m by (auto simp: meeting_def)
  have "x \<in> set (cl_sessions t)" "ls_id x = a" using kept x(2) the_classD [OF x(1)] by auto
  then have "the_class t a = Some x" using the_classI [OF okt] by auto
  then show ?thesis using m x new by (auto simp: meeting_def cs)
qed

lemma joins_elsewhere:
  assumes ok: "classes_ok s" and i: "fresh_class s i" and r: "resolve_course_session s u k teach i now = (t, Inr b)"
    and c': "joined_target s u k = Inr c'" "co_id c' \<noteq> co_id c" and m: "meeting s c day a"
  shows "meeting t c day a"
proof (rule resolve_cases [OF ok i r])
  fix k' s1 x
  assume k: "joined_target s u k = Inr k'" and ok1: "classes_ok s1" and x: "x \<in> set (cl_sessions s1)" "ls_courseId x = co_id k'"
    and cs: "cl_courses s1 = cl_courses s"
    and row: "live_class s (co_id k') = Some x \<and> s1 = s \<or> live_class s (co_id k') = None \<and> ls_livekitRoom x = room_of (co_id k') (day_of k' now) \<and>
       (x \<in> set (cl_sessions s) \<and> s1 = s \<or> ls_status x = SCHEDULED \<and> cl_sessions s1 = cl_sessions s @ [x])"
    and t: "\<exists>b. let s2 = (if ls_status x = ENDED \<and> b then set_class (ls_id x) (\<lambda>y. y\<lparr>ls_status := SCHEDULED, cs_endedAt := None\<rparr>) s1 else s1)
         in (hosting u teach k' \<longrightarrow> b) \<and> t = (if hosting u teach k' \<and> (ls_status x = SCHEDULED \<or> ls_status x = ENDED \<and> b)
               then set_class (ls_id x) (\<lambda>y. y\<lparr>ls_status := LIVE, cs_startedAt := Some now\<rparr>) s2 else s2)"
  have other: "ls_courseId x \<noteq> co_id c" using k c' x(2) by simp
  have m1: "meeting s1 c day a" by (rule meeting_elsewhere [OF m ok1 cs]) (use row other in auto)
  have set: "meeting (set_class (ls_id x) f q) c day a" if "plain f" "meeting q c day a" "classes_ok q"
    "\<forall>y \<in> set (cl_sessions q). ls_id y = ls_id x \<longrightarrow> ls_courseId y \<noteq> co_id c" for f q
    by (rule meeting_elsewhere [OF that(2) set_class_ok [OF that(3,1)]]) (use that(1,4) in \<open>auto simp: set_class_def plain_def\<close>)
  have mine: "\<forall>y \<in> set (cl_sessions s1). ls_id y = ls_id x \<longrightarrow> ls_courseId y \<noteq> co_id c"
    using same_class [OF ok1 _ x(1)] other by blast
  then have "\<forall>y \<in> set (cl_sessions (set_class (ls_id x) (\<lambda>y. y\<lparr>ls_status := SCHEDULED, cs_endedAt := None\<rparr>) s1)).
      ls_id y = ls_id x \<longrightarrow> ls_courseId y \<noteq> co_id c" by (auto simp: set_class_def)
  then show ?thesis using t m1 ok1 mine by (auto simp: Let_def intro!: set set_class_ok)
qed

text \<open>Operations that neither open nor close a class by hand, the joins among them on that day of the course.\<close>

fun gathers :: "class_course \<Rightarrow> string \<Rightarrow> class_op \<Rightarrow> bool" where
  "gathers c day (JoinOp u k teach i now) \<longleftrightarrow> day_of c now = day"
| "gathers c day (StartOp u i now) \<longleftrightarrow> False"
| "gathers c day (EndOp u i now) \<longleftrightarrow> False"
| "gathers c day op \<longleftrightarrow> True"

lemma meeting_step:
  assumes ok: "classes_ok s" and m: "meeting s c day a" and g: "gathers c day op"
  shows "meeting (class_step s op) c day a"
proof (cases op)
  case (ScheduleOp u k sec at' i uuid)
  obtain t r where t: "schedule_class s u k sec at' i uuid = (t, r)" by fastforce
  have okt: "classes_ok (class_step s op)" by (rule classes.inv_step [OF ok])
  show ?thesis by (rule meeting_elsewhere [OF m okt]) (use schedule_classD [OF t] t ScheduleOp in \<open>auto simp: new_class_def split: if_splits\<close>)
next
  case (JoinOp u k teach i now)
  show ?thesis
  proof (cases "snd (resolve_course_session s u k teach i now)")
    case (Inl e)
    then have "fst (resolve_course_session s u k teach i now) = s"
      by (auto simp: resolve_course_session_def Let_def split: sum.splits if_splits prod.splits)
    then show ?thesis using m JoinOp by simp
  next
    case (Inr b)
    let ?t = "fst (resolve_course_session s u k teach i now)"
    have r: "resolve_course_session s u k teach i now = (?t, Inr b)" using Inr by (simp add: prod_eq_iff)
    obtain c' where c': "joined_target s u k = Inr c'"
      using r by (cases "joined_target s u k") (auto simp: resolve_course_session_def joined_target_def)
    have same: "co_id c' = co_id c \<Longrightarrow> c' = c"
      using ok joined_target_course [OF c'] m unfolding classes_ok_def meeting_def distinct_map inj_on_def by blast
    show ?thesis
      using joins_there [OF ok _ r, of c a] joins_elsewhere [OF ok _ r c' _ m] c' same m g JoinOp by (cases "fresh_class s i") auto
  qed
next
  case (TokenOp u i teach now)
  then show ?thesis using m join_token_same [of s u i teach now] by (simp add: meeting_def the_class_def)
qed (use g in auto)

lemma meeting_run:
  "classes_ok s \<Longrightarrow> meeting s c day a \<Longrightarrow> list_all (gathers c day) ops \<Longrightarrow>
    classes_ok (foldl class_step s ops) \<and> meeting (foldl class_step s ops) c day a"
  by (induction ops arbitrary: s) (simp_all add: meeting_step classes.inv_step)

lemma resolve_keeps:
  "cl_courses (fst (resolve_course_session s u k teach i now)) = cl_courses s \<and>
   cl_enrollments (fst (resolve_course_session s u k teach i now)) = cl_enrollments s"
proof -
  have e: "ensure_class s i a b c = (t, x) \<Longrightarrow> cl_courses t = cl_courses s \<and> cl_enrollments t = cl_enrollments s" for a b c t x
    by (auto simp: ensure_class_def Let_def split: option.splits)
  show ?thesis
    unfolding resolve_course_session_def Let_def by (auto dest: e split: sum.split option.splits prod.splits)
qed

lemma student_target:
  "jwt_role v = STUDENT \<Longrightarrow> cl_courses t = cl_courses s \<and> cl_enrollments t = cl_enrollments s \<Longrightarrow>
    joined_target t v l = joined_target s v l"
proof -
  assume v: "jwt_role v = STUDENT" "cl_courses t = cl_courses s \<and> cl_enrollments t = cl_enrollments s"
  then have "the_course t = the_course s" by (simp add: fun_eq_iff the_course_def)
  then have "target_course t v = target_course s v"
    using v by (simp add: fun_eq_iff target_course_def enrolled_in_def cong: option.case_cong)
  then show ?thesis using v by (simp add: joined_target_def the_course_def)
qed

section \<open>Properties\<close>

definition class_teacher :: jwt_payload where
  "class_teacher = \<lparr>jwt_sub = ''t'', jwt_role = INSTRUCTOR, jwt_name = ''T'', jwt_email = ''e'', jwt_organizationId = Some ''o'',
     jwt_emailVerified = True, jwt_isSuperAdmin = False, jwt_recorder = None, jwt_preview = None\<rparr>"

definition class_pupil :: jwt_payload where
  "class_pupil = class_teacher\<lparr>jwt_sub := ''p'', jwt_role := STUDENT\<rparr>"

definition class_demo :: "class_course list" where
  "class_demo = [\<lparr>co_id = ''k'', co_instructorId = Some ''t'', co_organizationId = Some ''o'', co_pluginKeys = None, cc_title = ''K'',
     cc_parentCourseId = None, cc_schedule = \<lparr>sc_startDate = None, sc_durationWeeks = None, sc_meetingDays = None,
     sc_meetingTime = None, sc_meetingTimesByDay = None, sc_timezone = None\<rparr>, cc_instant = True, cc_evict = None, cc_brand = None\<rparr>]"

definition class_town :: classes where
  "class_town = classes_start class_demo [] [\<lparr>en_courseId = ''k'', en_studentId = ''p''\<rparr>] []"

lemma class_demo_ids: "\<forall>c \<in> set class_demo. dashless (co_id c)" "distinct (map co_id class_demo)"
  by (simp_all add: class_demo_def dashless_def)

text \<open>C8: A class is opened and closed by the people who run it: along any run, a class that was not live
  becomes live only by a start of the course's instructor or a join of somebody who hosts that course (its
  instructor, or an admin of its organization in teach mode), and a live class stops being live only when
  its instructor or an admin of its organization ends it.\<close>

lemma class_opens_and_closes_by_its_staff:
  assumes "\<forall>c \<in> set cs. dashless (co_id c)" "distinct (map co_id cs)" "s = foldl class_step (classes_start cs ss es us) ops"
  shows "(status_of s j \<noteq> Some LIVE \<and> status_of (class_step s op) j = Some LIVE \<longrightarrow>
      (\<exists>y c. the_class (class_step s op) j = Some y \<and> the_course s (ls_courseId y) = Some c \<and>
        ((\<exists>i now. op = StartOp (the (co_instructorId c)) i now \<and> co_instructorId c \<noteq> None) \<or>
         (\<exists>u k teach i now. op = JoinOp u k teach i now \<and> hosting u teach c)))) \<and>
    (status_of s j = Some LIVE \<and> status_of (class_step s op) j \<noteq> Some LIVE \<longrightarrow>
      (\<exists>x c u now. the_class s j = Some x \<and> the_course s (ls_courseId x) = Some c \<and> op = EndOp u j now \<and> runs_class u c))"
proof -
  have ok: "classes_ok s" unfolding assms(3) using assms(1,2) by (rule classes_run)
  have o: "opens op c \<longleftrightarrow> (\<exists>i now. op = StartOp (the (co_instructorId c)) i now \<and> co_instructorId c \<noteq> None) \<or>
      (\<exists>u k teach i now. op = JoinOp u k teach i now \<and> hosting u teach c)" for c by (cases op) auto
  have cl: "closes op j c \<longleftrightarrow> (\<exists>u now. op = EndOp u j now \<and> runs_class u c)" for c j by (cases op) auto
  show ?thesis using turns_step [OF ok, of op] unfolding turns_def o cl by blast
qed

lemma class_opens_and_closes_by_its_staff_witness:
  "let s = foldl class_step class_town [JoinOp class_teacher ''k'' False ''x'' 5] in
   status_of class_town ''x'' = None \<and> status_of s ''x'' = Some LIVE \<and>
   (\<exists>y c. the_class s ''x'' = Some y \<and> the_course class_town (ls_courseId y) = Some c \<and>
      (\<exists>u k teach i now. JoinOp class_teacher ''k'' False ''x'' 5 = JoinOp u k teach i now \<and> hosting u teach c))"
proof -
  have n: "status_of class_town ''x'' = None" "status_of (class_step class_town (JoinOp class_teacher ''k'' False ''x'' 5)) ''x'' = Some LIVE"
    by code_simp+
  have "class_town = foldl class_step (classes_start class_demo [] [\<lparr>en_courseId = ''k'', en_studentId = ''p''\<rparr>] []) []"
    by (simp add: class_town_def)
  from class_opens_and_closes_by_its_staff [OF class_demo_ids this, of "''x''" "JoinOp class_teacher ''k'' False ''x'' 5"] n
  show ?thesis by (simp add: Let_def)
qed

text \<open>C9: People who join a course on the same day meet: of two joins of a course on the same day of its time zone,
  between which nobody opens or closes a class by hand and all others who join do so on that day, the second is
  given the session of the first, whoever comes first and whether or not the host is there, unless the course had
  two classes live at once before the first.\<close>

theorem joins_meet_in_one_session:
  assumes "\<forall>c \<in> set cs. dashless (co_id c)" "distinct (map co_id cs)" "s = foldl class_step (classes_start cs ss es us) ops"
    "fresh_class s i" "joined_target s u k = Inr c" "resolve_course_session s u k teach i now = (s1, Inr a)"
    "t = foldl class_step s1 amid" "list_all (gathers c (day_of c now)) amid"
    "fresh_class t j" "joined_target t v l = Inr c" "resolve_course_session t v l lead j later = (w, Inr b)"
    "day_of c later = day_of c now"
    "\<And>x y. x \<in> set (cl_sessions s) \<Longrightarrow> y \<in> set (cl_sessions s) \<Longrightarrow> ls_courseId x = co_id c \<Longrightarrow> ls_courseId y = co_id c \<Longrightarrow>
      ls_status x = LIVE \<Longrightarrow> ls_status y = LIVE \<Longrightarrow> x = y"
  shows "a = b"
proof -
  have ok: "classes_ok s" unfolding assms(3) using assms(1,2) by (rule classes_run)
  have "classes_ok s1" using resolve_ok [OF ok assms(4), of u k teach now] assms(6) by simp
  then have "classes_ok t \<and> meeting t c (day_of c now) a"
    unfolding assms(7) using joined_row [OF ok assms(4,6,5,13)] assms(8) by (rule meeting_run)
  then show ?thesis using joins_there [OF _ assms(9,11,10), of a] assms(12) by simp
qed

lemma joins_meet_in_one_session_witness:
  "let t = fst (resolve_course_session class_town class_teacher ''k'' False ''x'' 5);
     t' = foldl class_step t [TokenOp class_teacher ''x'' False 6, JoinOp class_pupil ''k'' False ''z'' 6] in
   snd (resolve_course_session t' class_pupil ''k'' False ''y'' 7) = Inr ''x''"
proof -
  let ?r = "resolve_course_session class_town class_teacher ''k'' False ''x'' 5"
  let ?ops = "[TokenOp class_teacher ''x'' False 6, JoinOp class_pupil ''k'' False ''z'' 6]"
  let ?t = "foldl class_step (fst ?r) ?ops"
  let ?q = "resolve_course_session ?t class_pupil ''k'' False ''y'' 7"
  have s: "class_town = foldl class_step (classes_start class_demo [] [\<lparr>en_courseId = ''k'', en_studentId = ''p''\<rparr>] []) []"
    by (simp add: class_town_def)
  have r: "snd ?r = Inr ''x''" by code_simp
  have q: "map_sum (\<lambda>_. ()) (\<lambda>_. ()) (snd ?q) = Inr ()" by code_simp
  then obtain b where b: "snd ?q = Inr b" by (cases "snd ?q") auto
  have f: "fresh_class class_town ''x''" "fresh_class ?t ''y''" by code_simp+
  have j1: "joined_target class_town class_teacher ''k'' = Inr (hd class_demo)"
    by (simp add: joined_target_def target_course_def the_course_def class_town_def classes_start_def class_demo_def class_teacher_def from_option_def)
  have "joined_target class_town class_pupil ''k'' = Inr (hd class_demo)"
    by (simp add: joined_target_def target_course_def the_course_def class_town_def classes_start_def class_demo_def class_teacher_def
        class_pupil_def enrolled_in_def from_option_def)
  moreover have "cl_courses ?t = cl_courses class_town \<and> cl_enrollments ?t = cl_enrollments class_town"
    by (simp add: resolve_keeps join_token_def attend_def Let_def split: option.split)
  ultimately have j2: "joined_target ?t class_pupil ''k'' = Inr (hd class_demo)"
    using student_target [of class_pupil ?t class_town] by (simp add: class_pupil_def)
  have d: "day_of (hd class_demo) 7 = day_of (hd class_demo) 5" "day_of (hd class_demo) 6 = day_of (hd class_demo) 5" by code_simp+
  then have g: "list_all (gathers (hd class_demo) (day_of (hd class_demo) 5)) ?ops" by simp
  have "''x'' = b"
    by (rule joins_meet_in_one_session [OF class_demo_ids s f(1) j1 _ HOL.refl g f(2) j2 _ d(1)])
      (use r b in \<open>simp_all add: prod_eq_iff class_town_def classes_start_def\<close>)
  then show ?thesis using b by (simp add: Let_def)
qed

text \<open>Without a recorder's mark the token and the room agree, and a mark for another class is not read.\<close>

lemma unmarked_token:
  assumes "jwt_recorder u = None"
  shows "((\<exists>g. snd (join_token s u i teach now) = Inr g) \<longleftrightarrow>
      (\<exists>x c. session_course (class_db s) i = Some (x, c) \<and> ls_status x \<noteq> ENDED \<and> join_refusal (class_db s) u i c = None)) \<and>
    (\<forall>g. snd (join_token s u i teach now) = Inr g \<longrightarrow> jg_identity g = jwt_sub u \<and>
      jg_hidden g = (jwt_role u = ORG_ADMIN \<and> \<not> teach) \<and> jg_canPublish g = (\<not> jg_hidden g))"
proof (cases "with_course s i")
  case None
  then show ?thesis by (simp add: join_token_def class_db_session_course)
next
  case (Some p)
  obtain x c where p: "p = (x, c)" by (cases p)
  have "session_course (class_db s) i = Some (session_row.truncate x, course_row.truncate c)"
    using Some p by (simp add: class_db_session_course)
  then show ?thesis
    unfolding join_refusal_entitled using assms Some p
    by (cases "jwt_role u") (auto simp: join_token_def entitled_def class_db_enrolled mint_join_token_def)
qed

lemma other_mark_unread:
  "map_option rc_sessionId (jwt_recorder u) \<noteq> Some i \<Longrightarrow> join_token s (u\<lparr>jwt_recorder := None\<rparr>) i teach now = join_token s u i teach now"
  by (cases "with_course s i") (auto simp: join_token_def Let_def)

text \<open>C7: A class's token and its room agree: asking for a LiveKit token succeeds exactly when the class exists,
  has not ended, and the room gateway, on the same tables, lets that person in; but of a recorder's token that
  is shown for another class than the one it films the recorder's mark is not looked at, so it is given what its
  bearer would be let in for without the mark. The token of the recorder that films the class is its own and
  hidden; any other carries the person's own id, an admin who observes is hidden and publishes nothing, and
  everybody else may publish.\<close>

lemma token_agrees_with_the_room:
  "let films = (map_option rc_sessionId (jwt_recorder u) = Some i); v = (if films then u else u\<lparr>jwt_recorder := None\<rparr>) in
    ((\<exists>g. snd (join_token s u i teach now) = Inr g) \<longleftrightarrow>
      (\<exists>x c. session_course (class_db s) i = Some (x, c) \<and> ls_status x \<noteq> ENDED \<and> join_refusal (class_db s) v i c = None)) \<and>
    (\<forall>g. snd (join_token s u i teach now) = Inr g \<longrightarrow>
      jg_identity g = (if films then ''recorder-'' @ rc_recordingId (the (jwt_recorder u)) else jwt_sub u) \<and>
      jg_hidden g = (films \<or> jwt_role u = ORG_ADMIN \<and> \<not> teach) \<and> jg_canPublish g = (\<not> jg_hidden g))"
proof (cases "map_option rc_sessionId (jwt_recorder u) = Some i")
  case True
  then obtain r where r: "jwt_recorder u = Some r" "rc_sessionId r = i" by auto
  then have "join_refusal (class_db s) u i c = None" for c by (simp add: join_refusal_def)
  then show ?thesis using r
    by (cases "with_course s i") (auto simp: join_token_def class_db_session_course mint_join_token_def Let_def split: if_splits)
next
  case False
  then show ?thesis
    using unmarked_token [of "u\<lparr>jwt_recorder := None\<rparr>" s i teach now] False by (simp add: other_mark_unread Let_def del: map_option_eq_Some)
qed

lemma token_agrees_with_the_room_witness:
  "let s = fst (resolve_course_session class_town class_teacher ''k'' False ''x'' 5) in
   (\<exists>g. snd (join_token s class_pupil ''x'' False 6) = Inr g) \<and>
   (\<exists>x c. session_course (class_db s) ''x'' = Some (x, c) \<and> ls_status x \<noteq> ENDED \<and> join_refusal (class_db s) class_pupil ''x'' c = None)"
proof -
  let ?s = "fst (resolve_course_session class_town class_teacher ''k'' False ''x'' 5)"
  have "map_sum (\<lambda>_. ()) (\<lambda>_. ()) (snd (join_token ?s class_pupil ''x'' False 6)) = Inr ()" by code_simp
  then have "\<exists>g. snd (join_token ?s class_pupil ''x'' False 6) = Inr g" by (cases "snd (join_token ?s class_pupil ''x'' False 6)") auto
  moreover have n: "jwt_recorder class_pupil = None" by (simp add: class_pupil_def class_teacher_def)
  moreover have eq: "class_pupil\<lparr>jwt_recorder := None\<rparr> = class_pupil" using n by (cases class_pupil) simp
  ultimately show ?thesis
    using token_agrees_with_the_room [of class_pupil "''x''" ?s False 6] unfolding Let_def eq if_cancel by blast
qed

text \<open>A recorder's token is worth more than its one class: presented for another class of the
  instructor who pressed Record, it is answered with that instructor's own visible, publishing token,
  although the room gateway refuses it there.\<close>

lemma recorder_token_opens_other_classes:
  assumes "jwt_recorder u = Some r" "rc_sessionId r \<noteq> i" "jwt_role u = INSTRUCTOR"
    "session_course (class_db s) i = Some (x, c)" "ls_status x \<noteq> ENDED" "co_instructorId c = Some (jwt_sub u)"
  shows "(\<exists>g. snd (join_token s u i teach now) = Inr g \<and> jg_identity g = jwt_sub u \<and> jg_role g = INSTRUCTOR \<and>
      jg_canPublish g \<and> \<not> jg_hidden g) \<and>
    join_refusal (class_db s) u i c = Some ''Not the session this token films''"
proof -
  obtain y k where "with_course s i = Some (y, k)" "x = session_row.truncate y" "c = course_row.truncate k"
    using assms(4) by (auto simp: class_db_session_course)
  then show ?thesis using assms by (simp add: join_token_def mint_join_token_def join_refusal_def)
qed

lemma recorder_token_opens_other_classes_witness:
  "let s = fst (resolve_course_session class_town class_teacher ''k'' False ''x'' 5);
       u = class_teacher\<lparr>jwt_recorder := Some \<lparr>rc_sessionId = ''w'', rc_recordingId = ''r''\<rparr>\<rparr> in
   \<exists>g. snd (join_token s u ''x'' False 6) = Inr g \<and> jg_identity g = ''t'' \<and> jg_canPublish g"
proof -
  let ?s = "fst (resolve_course_session class_town class_teacher ''k'' False ''x'' 5)"
  let ?u = "class_teacher\<lparr>jwt_recorder := Some \<lparr>rc_sessionId = ''w'', rc_recordingId = ''r''\<rparr>\<rparr>"
  have m: "map_option (\<lambda>(x, c). (ls_status x, co_instructorId c)) (session_course (class_db ?s) ''x'') = Some (LIVE, Some ''t'')"
    by code_simp
  then obtain x c where xc: "session_course (class_db ?s) ''x'' = Some (x, c)" "ls_status x = LIVE" "co_instructorId c = Some ''t''"
    by auto
  show ?thesis
    using recorder_token_opens_other_classes [of ?u "\<lparr>rc_sessionId = ''w'', rc_recordingId = ''r''\<rparr>" "''x''" ?s x c False 6] xc
    by (auto simp: class_teacher_def)
qed

text \<open>C10: The attendance sheet is the record of who came: along any run, a student on a class's sheet is
  marked present exactly when that student at some point was given a token for that class; entering a
  course page, an instructor's or admin's token, or a recorder's leaves no mark.\<close>

lemma attendance_sheet_is_who_came:
  assumes "s = foldl class_step (classes_start cs ss es us) ops" "attendance_for_course s u k sid collation = Inr (xs, Some i, rows)"
    "r \<in> set rows"
  shows "sr_present r \<longleftrightarrow> (\<exists>pre v teach now post g. ops = pre @ TokenOp v i teach now # post \<and> jwt_sub v = sr_studentId r \<and>
      jwt_role v = STUDENT \<and> map_option rc_sessionId (jwt_recorder v) \<noteq> Some i \<and>
      snd (join_token (foldl class_step (classes_start cs ss es us) pre) v i teach now) = Inr g)"
proof -
  let ?s0 = "classes_start cs ss es us"
  have "sr_present r \<longleftrightarrow> (\<exists>pre op post. ops = pre @ op # post \<and> takes_token (foldl class_step ?s0 pre) op i (sr_studentId r))"
    unfolding sheet_rows [OF assms(2,3)] assms(1) present_run by (simp add: present_def classes_start_def)
  then show ?thesis unfolding takes_token_def by blast
qed

lemma attendance_sheet_is_who_came_witness:
  "let ops = [JoinOp class_teacher ''k'' False ''x'' 5, TokenOp class_pupil ''x'' False 6];
       s = foldl class_step class_town ops in
   (\<exists>xs rows r. attendance_for_course s class_teacher ''k'' None (\<lambda>_. 0) = Inr (xs, Some ''x'', rows) \<and> r \<in> set rows \<and> sr_present r \<and>
     (\<exists>pre v teach now post. ops = pre @ TokenOp v ''x'' teach now # post \<and> jwt_sub v = ''p''))"
proof -
  let ?ops = "[JoinOp class_teacher ''k'' False ''x'' 5, TokenOp class_pupil ''x'' False 6]"
  let ?s = "foldl class_step (classes_start class_demo [] [\<lparr>en_courseId = ''k'', en_studentId = ''p''\<rparr>] []) ?ops"
  have "map_sum (\<lambda>_. ()) (\<lambda>(xs, i, rows). (i, rows)) (attendance_for_course ?s class_teacher ''k'' None (\<lambda>_. 0)) =
      Inr (Some ''x'', [\<lparr>sr_studentId = ''p'', sr_name = [], sr_present = True, sr_joinedAt = Some 6\<rparr>])" by code_simp
  then obtain xs where a: "attendance_for_course ?s class_teacher ''k'' None (\<lambda>_. 0) =
      Inr (xs, Some ''x'', [\<lparr>sr_studentId = ''p'', sr_name = [], sr_present = True, sr_joinedAt = Some 6\<rparr>])"
    by (cases "attendance_for_course ?s class_teacher ''k'' None (\<lambda>_. 0)") auto
  let ?r = "\<lparr>sr_studentId = ''p'', sr_name = [], sr_present = True, sr_joinedAt = Some 6\<rparr>"
  have "\<exists>pre v teach now post. ?ops = pre @ TokenOp v ''x'' teach now # post \<and> jwt_sub v = ''p''"
  proof -
    have "sr_present ?r" "?r \<in> set [?r]" "sr_studentId ?r = ''p''" by simp_all
    then show ?thesis using attendance_sheet_is_who_came [OF refl a, of ?r] by metis
  qed
  then show ?thesis using a by (simp add: Let_def class_town_def)
qed

text \<open>An admin of any organization can reopen another organization's ended class of the day.\<close>

lemma foreign_admin_reopens:
  assumes "the_course s k = Some c" "jwt_role u = ORG_ADMIN" "live_child s k = None" "live_class s (co_id c) = None"
    "jw_current (resolve_join_window (cc_schedule c) now) = Some oc" "jw_joinableNow (resolve_join_window (cc_schedule c) now)"
    "find (\<lambda>x. ls_livekitRoom x = room_of (co_id c) (oc_dateKey oc)) (cl_sessions s) = Some x" "ls_status x = ENDED"
    "co_organizationId c \<noteq> jwt_organizationId u"
  shows "resolve_course_session s u k teach i now =
    (set_class (ls_id x) (\<lambda>y. y\<lparr>ls_status := SCHEDULED, cs_endedAt := None\<rparr>) s, Inr (ls_id x))"
proof -
  have "target_course s u c = Inr c" using assms(1-3) the_courseD [OF assms(1)] by (simp add: target_course_def)
  moreover have "\<not> hosting u teach c" using assms(2,9) by (auto simp: hosting_def)
  ultimately show ?thesis using assms by (simp add: resolve_course_session_def from_option_def ensure_class_def Let_def)
qed

text \<open>Starting a class by hand does not look for another one: two classes of a course can be live at once.\<close>

lemma two_classes_live:
  assumes "classes_ok s" "the_class s i = Some x" "the_course s (ls_courseId x) = Some c" "co_instructorId c = Some v"
    "ls_status x = SCHEDULED" "live_class s (ls_courseId x) = Some y" "t = fst (start_class s v i now)"
  shows "status_of t i = Some LIVE \<and> status_of t (ls_id y) = Some LIVE \<and> ls_id y \<noteq> i \<and> ls_courseId y = ls_courseId x"
proof -
  have y: "the_class s (ls_id y) = Some y" "ls_status y = LIVE" "ls_courseId y = ls_courseId x"
    using the_classI [OF assms(1), of y] live_classD [OF assms(6)] by simp_all
  then have "ls_id y \<noteq> i" using assms(2,5) by auto
  moreover have "t = set_class i (\<lambda>y. y\<lparr>ls_status := LIVE, cs_startedAt := Some now\<rparr>) s"
    using assms by (simp add: start_class_def get_owned_def with_course_def guard_or_def from_option_def)
  ultimately show ?thesis using y assms(2) by (simp add: status_of_def the_class_set)
qed

end
