(* ===== verification/Ledger.thy ===== *)
theory Ledger
  imports Points
begin

text \<open>
  What the services that pay points use of the points service: an award appends one entry. The
  sum of the entries of a kind then moves by the award alone, so paying the difference to what was
  already paid settles a debt exactly.
\<close>

text \<open>\<open>pointsLedger.aggregate\<close>: the sum of \<open>delta\<close> over the rows a filter selects; no row is 0.\<close>

definition delta_sum :: "(ledger_entry \<Rightarrow> bool) \<Rightarrow> ledger_entry list \<Rightarrow> int" where
  "delta_sum P l = sum_list (map le_delta (filter P l))"

lemma delta_sum_simps [simp]:
  "delta_sum P [] = 0"
  "delta_sum P (e # l) = (if P e then le_delta e else 0) + delta_sum P l"
  "delta_sum P (l @ m) = delta_sum P l + delta_sum P m"
  by (simp_all add: delta_sum_def)

lemma delta_sum_none: "(\<And>e. e \<in> set l \<Longrightarrow> \<not> P e) \<Longrightarrow> delta_sum P l = 0"
  by (simp add: delta_sum_def filter_empty_conv)

lemma delta_sum_cong: "(\<And>e. e \<in> set l \<Longrightarrow> P e = Q e) \<Longrightarrow> delta_sum P l = delta_sum Q l"
  by (simp add: delta_sum_def cong: filter_cong)

lemma delta_sum_split:
  "delta_sum P l = delta_sum (\<lambda>e. P e \<and> Q e) l + delta_sum (\<lambda>e. P e \<and> \<not> Q e) l"
  by (induction l) auto

lemma delta_sum_nonneg: "(\<And>e. e \<in> set l \<Longrightarrow> P e \<Longrightarrow> 0 \<le> le_delta e) \<Longrightarrow> 0 \<le> delta_sum P l"
  by (induction l) auto

lemma student_sum_delta: "student_sum l c sid = delta_sum (\<lambda>e. le_studentId e = sid \<and> le_courseId e = c) l"
  by (simp add: student_sum_def course_entries_def delta_sum_def conj_commute)

locale awarding =
  fixes pay :: "'s \<Rightarrow> ledger_entry \<Rightarrow> 's"
    and entries :: "'s \<Rightarrow> ledger_entry list"
  assumes pay_appends: "entries (pay s e) = entries s @ [e]"
begin

lemma paid: "delta_sum P (entries (pay s e)) = delta_sum P (entries s) + (if P e then le_delta e else 0)"
  by (simp add: pay_appends)

lemma settled: "P e \<Longrightarrow> le_delta e = g - delta_sum P (entries s) \<Longrightarrow> delta_sum P (entries (pay s e)) = g"
  by (simp add: paid)

lemma untouched: "\<not> P e \<Longrightarrow> delta_sum P (entries (pay s e)) = delta_sum P (entries s)"
  by (simp add: paid)

end

interpretation points: awarding "award up" ps_ledger for up
  by unfold_locales (simp add: award_def bump_projection_def)

end
