(* ===== verification/Assignments.thy ===== *)
theory Assignments
  imports StudentStats Courses Ledger
begin

text \<open>
  Coursework: \<open>src/assignments/assignments.service.ts\<close> on its tables, the points ledger and the
  object store. The rows extend those the statistics read. An omitted DTO field is \<open>None\<close>; the
  clock and generated ids are inputs. A date is its instant. Mail and the push to the instructor's
  panel are logs, in order; of a mail the receiver, the name and the work's title are kept.
\<close>

section \<open>Rows\<close>

record assignment = assignment_row +
  am_sectionId :: "string option"
  am_sessionId :: "string option"
  am_groupId :: "string option"
  am_title :: string
  am_instructions :: "string option"
  am_dueAt :: "int option"
  am_maxPoints :: "int option"
  am_createdById :: string
  am_createdAt :: int

record submission = submission_row +
  sb_id :: string
  sb_content :: "string option"
  sb_language :: "string option"
  sb_fileUrl :: "string option"
  sb_fileMimeType :: "string option"
  sb_submittedAt :: int
  sb_grade :: "int option"
  sb_feedback :: "string option"
  sb_gradedById :: "string option"
  sb_gradedAt :: "int option"

record group_row =
  gr_id :: string
  gr_courseId :: string
  gr_name :: string

record assignment_dto =
  ad_title :: string
  ad_instructions :: "string option"
  ad_dueAt :: "int option"
  ad_maxPoints :: "int option"
  ad_sectionId :: "string option"
  ad_sessionId :: "string option"
  ad_groupId :: "string option"

record posted_mail =
  pm_to :: string
  pm_name :: string
  pm_title :: string

record staff_push =
  sp_sessionId :: string
  sp_submissionId :: string
  sp_assignmentId :: string
  sp_assignmentTitle :: string
  sp_studentId :: string
  sp_studentName :: string
  sp_language :: "string option"
  sp_submittedAt :: int

text \<open>\<open>cw_batches\<close>: the courses that are batches of a program, with the program. \<open>cw_members\<close>:
  group and student. \<open>cw_emails\<close>: the e-mail column of the users. \<open>cw_blobs\<close>: the object store,
  a key's bytes.\<close>

record coursework =
  cw_db :: db
  cw_batches :: "(string \<times> string) list"
  cw_groups :: "group_row list"
  cw_members :: "(string \<times> string) list"
  cw_emails :: "(string \<times> string) list"
  cw_assignments :: "assignment list"
  cw_submissions :: "submission list"
  cw_points :: points_state
  cw_blobs :: "(string, string) amap"
  cw_mails :: "posted_mail list"
  cw_pushed :: "staff_push list"

definition find_assignment :: "coursework \<Rightarrow> string \<Rightarrow> assignment option" where
  "find_assignment s i = find (\<lambda>a. am_id a = i) (cw_assignments s)"

definition find_submission :: "coursework \<Rightarrow> string \<Rightarrow> submission option" where
  "find_submission s i = find (\<lambda>x. sb_id x = i) (cw_submissions s)"

definition find_group :: "coursework \<Rightarrow> string \<Rightarrow> group_row option" where
  "find_group s i = find (\<lambda>g. gr_id g = i) (cw_groups s)"

definition in_group :: "coursework \<Rightarrow> string \<Rightarrow> string \<Rightarrow> bool" where
  "in_group s g student = ((g, student) \<in> set (cw_members s))"

section \<open>Posting\<close>

text \<open>An optional reference of the request: absent and empty are not looked up. An empty one then
  breaks the foreign key of the insert.\<close>

definition referenced :: "string option \<Rightarrow> (string \<Rightarrow> bool) \<Rightarrow> string \<Rightarrow> unit result" where
  "referenced i present msg =
     (case i of None \<Rightarrow> Inr () | Some k \<Rightarrow> guard_or (k = [] \<or> present k) (NotFound msg))"

definition create_checks :: "coursework \<Rightarrow> jwt_payload \<Rightarrow> string \<Rightarrow> assignment_dto \<Rightarrow> unit result" where
  "create_checks s user courseId dto =
     rbind (assert_can_manage_course (cw_db s) user courseId) (\<lambda>_.
     rbind (referenced (ad_sectionId dto)
       (\<lambda>k. list_ex (\<lambda>e. se_id e = k \<and> se_courseId e = courseId) (db_sections (cw_db s)))
       ''Section not found in course'') (\<lambda>_.
     rbind (referenced (ad_groupId dto)
       (\<lambda>k. list_ex (\<lambda>g. gr_id g = k \<and> gr_courseId g = courseId) (cw_groups s))
       ''Group not found in course'') (\<lambda>_.
     rbind (referenced (ad_sessionId dto)
       (\<lambda>k. list_ex (\<lambda>x. ls_id x = k \<and> ls_courseId x = courseId) (db_sessions (cw_db s)))
       ''Session not found in course'') (\<lambda>_.
     guard_or (Some [] \<notin> {ad_sectionId dto, ad_groupId dto, ad_sessionId dto})
       (Internal ''Foreign key constraint violated'')))))"

definition new_assignment :: "jwt_payload \<Rightarrow> string \<Rightarrow> assignment_dto \<Rightarrow> string \<Rightarrow> int \<Rightarrow> assignment" where
  "new_assignment user courseId dto i now =
     \<lparr>am_id = i, am_courseId = courseId, am_sectionId = ad_sectionId dto, am_sessionId = ad_sessionId dto,
      am_groupId = ad_groupId dto, am_title = ad_title dto, am_instructions = ad_instructions dto,
      am_dueAt = ad_dueAt dto, am_maxPoints = ad_maxPoints dto, am_createdById = jwt_sub user, am_createdAt = now\<rparr>"

definition user_email :: "coursework \<Rightarrow> string \<Rightarrow> string" where
  "user_email s i = (case map_of (cw_emails s) i of None \<Rightarrow> [] | Some e \<Rightarrow> e)"

text \<open>The students the work is for: the enrolled ones, of the group when there is one.\<close>

definition posted_to :: "coursework \<Rightarrow> assignment \<Rightarrow> string list" where
  "posted_to s a =
     map en_studentId (filter (\<lambda>r. en_courseId r = am_courseId a \<and>
        (case am_groupId a of None \<Rightarrow> True | Some g \<Rightarrow> in_group s g (en_studentId r))) (db_enrollments (cw_db s)))"

definition posted_mails :: "coursework \<Rightarrow> assignment \<Rightarrow> posted_mail list" where
  "posted_mails s a =
     map (\<lambda>i. \<lparr>pm_to = user_email s i,
          pm_name = (case find_user (cw_db s) i of None \<Rightarrow> ''there'' | Some u \<Rightarrow> us_name u), pm_title = am_title a\<rparr>)
       (filter (\<lambda>i. user_email s i \<noteq> []) (posted_to s a))"

definition notify_assignment_posted :: "string \<Rightarrow> coursework \<Rightarrow> coursework" where
  "notify_assignment_posted i s =
     (case find_assignment s i of
        None \<Rightarrow> s
      | Some a \<Rightarrow> s\<lparr>cw_mails := cw_mails s @ posted_mails s a\<rparr>)"

definition create_assignment ::
  "coursework \<Rightarrow> jwt_payload \<Rightarrow> string \<Rightarrow> assignment_dto \<Rightarrow> string \<Rightarrow> int \<Rightarrow> coursework \<times> assignment result"
where
  "create_assignment s user courseId dto i now =
     (case create_checks s user courseId dto of
        Inl e \<Rightarrow> (s, Inl e)
      | Inr _ \<Rightarrow>
          let a = new_assignment user courseId dto i now
          in (notify_assignment_posted i (s\<lparr>cw_assignments := cw_assignments s @ [a]\<rparr>), Inr a))"

section \<open>Reading\<close>

text \<open>\<open>orderBy dueAt asc, createdAt desc\<close>: MySQL puts rows without a date first.\<close>

definition by_due :: "assignment list \<Rightarrow> assignment list" where
  "by_due as =
     (let xs = sort_key (\<lambda>a. - am_createdAt a) as
      in filter (\<lambda>a. am_dueAt a = None) xs @ sort_key (\<lambda>a. the (am_dueAt a)) (filter (\<lambda>a. am_dueAt a \<noteq> None) xs))"

text \<open>Work for everybody, or for a group the student is in.\<close>

definition for_student :: "coursework \<Rightarrow> string \<Rightarrow> assignment \<Rightarrow> bool" where
  "for_student s student a =
     (case am_groupId a of None \<Rightarrow> True | Some g \<Rightarrow> find_group s g \<noteq> None \<and> in_group s g student)"

definition submissions_of :: "coursework \<Rightarrow> string \<Rightarrow> submission list" where
  "submissions_of s i = filter (\<lambda>x. sb_assignmentId x = i) (cw_submissions s)"

definition submission_of :: "coursework \<Rightarrow> string \<Rightarrow> string \<Rightarrow> submission option" where
  "submission_of s i student =
     find (\<lambda>x. sb_assignmentId x = i \<and> sb_studentId x = student) (cw_submissions s)"

datatype coursework_list =
    ForStudent "(assignment \<times> submission option) list"
  | ForStaff "(assignment \<times> nat) list"

definition list_coursework :: "coursework \<Rightarrow> jwt_payload \<Rightarrow> string \<Rightarrow> coursework_list result" where
  "list_coursework s user courseId =
     rbind (get_course_for (cw_db s) (cw_batches s) user courseId) (\<lambda>_.
       let as = filter (\<lambda>a. am_courseId a = courseId) (cw_assignments s)
       in Inr (if jwt_role user = STUDENT
               then ForStudent (map (\<lambda>a. (a, submission_of s (am_id a) (jwt_sub user)))
                      (by_due (filter (for_student s (jwt_sub user)) as)))
               else ForStaff (map (\<lambda>a. (a, length (submissions_of s (am_id a)))) (by_due as))))"

record tracked_work =
  tw_work :: assignment
  tw_group :: "group_row option"
  tw_audienceCount :: nat
  tw_submittedCount :: nat
  tw_gradedCount :: nat
  tw_submitted :: "submission list"
  tw_missing :: "string list"

text \<open>The query orders the class by name in the database's collation; the model keeps the order of
  the rows.\<close>

definition class_roster :: "coursework \<Rightarrow> string \<Rightarrow> string list" where
  "class_roster s courseId = map en_studentId (filter (\<lambda>r. en_courseId r = courseId) (db_enrollments (cw_db s)))"

definition group_roster :: "coursework \<Rightarrow> string \<Rightarrow> string list" where
  "group_roster s g = map snd (filter (\<lambda>m. fst m = g) (cw_members s))"

definition audience_of :: "coursework \<Rightarrow> assignment \<Rightarrow> string list" where
  "audience_of s a =
     (case Option.bind (am_groupId a) (find_group s) of
        None \<Rightarrow> class_roster s (am_courseId a)
      | Some g \<Rightarrow> group_roster s (gr_id g))"

definition track :: "coursework \<Rightarrow> assignment \<Rightarrow> tracked_work" where
  "track s a =
     (let audience = audience_of s a;
          submitted = filter (\<lambda>x. sb_studentId x \<in> set audience)
            (sort_key (\<lambda>x. - sb_submittedAt x) (submissions_of s (am_id a)));
          missing = filter (\<lambda>i. i \<notin> sb_studentId ` set submitted) audience
      in \<lparr>tw_work = a, tw_group = Option.bind (am_groupId a) (find_group s), tw_audienceCount = length audience,
          tw_submittedCount = length submitted, tw_gradedCount = length (filter (\<lambda>x. sb_grade x \<noteq> None) submitted),
          tw_submitted = submitted, tw_missing = missing\<rparr>)"

definition course_tracking :: "coursework \<Rightarrow> jwt_payload \<Rightarrow> string \<Rightarrow> tracked_work list result" where
  "course_tracking s user courseId =
     rbind (assert_can_manage_course (cw_db s) user courseId) (\<lambda>_.
       Inr (map (track s) (by_due (filter (\<lambda>a. am_courseId a = courseId) (cw_assignments s)))))"

record my_assignment =
  ma_id :: string
  ma_title :: string
  ma_courseId :: string
  ma_sessionId :: "string option"
  ma_sessionLive :: bool
  ma_dueAt :: "int option"
  ma_submitted :: bool

definition session_live :: "coursework \<Rightarrow> assignment \<Rightarrow> bool" where
  "session_live s a = (map_option ls_status (Option.bind (am_sessionId a) (find_session (cw_db s))) = Some LIVE)"

definition my_assignments :: "coursework \<Rightarrow> jwt_payload \<Rightarrow> my_assignment list" where
  "my_assignments s user =
     map (\<lambda>a. \<lparr>ma_id = am_id a, ma_title = am_title a, ma_courseId = am_courseId a, ma_sessionId = am_sessionId a,
          ma_sessionLive = session_live s a, ma_dueAt = am_dueAt a,
          ma_submitted = (submission_of s (am_id a) (jwt_sub user) \<noteq> None)\<rparr>)
       (sort_key (\<lambda>a. - am_createdAt a)
         (filter (\<lambda>a. enrolled (cw_db s) (am_courseId a) (jwt_sub user) \<and> for_student s (jwt_sub user) a) (cw_assignments s)))"

section \<open>Handing in\<close>

definition assert_can_submit :: "coursework \<Rightarrow> jwt_payload \<Rightarrow> string \<Rightarrow> assignment result" where
  "assert_can_submit s user i =
     (case find_assignment s i of
        None \<Rightarrow> Inl (NotFound ''Assignment not found'')
      | Some a \<Rightarrow>
          if \<not> enrolled (cw_db s) (am_courseId a) (jwt_sub user)
          then Inl (Forbidden ''Not enrolled in this program'')
          else (case am_groupId a of
                  None \<Rightarrow> Inr a
                | Some g \<Rightarrow>
                    if g \<noteq> [] \<and> \<not> in_group s g (jwt_sub user)
                    then Inl (Forbidden ''This assignment is not assigned to you'') else Inr a))"

text \<open>\<open>upsert\<close> on assignment and student: the row is changed in place, or a blank one is inserted
  under the new id and written.\<close>

definition blank_submission :: "string \<Rightarrow> string \<Rightarrow> string \<Rightarrow> submission" where
  "blank_submission i assignmentId student =
     \<lparr>sb_assignmentId = assignmentId, sb_studentId = student, sb_id = i, sb_content = None, sb_language = None,
      sb_fileUrl = None, sb_fileMimeType = None, sb_submittedAt = 0, sb_grade = None, sb_feedback = None,
      sb_gradedById = None, sb_gradedAt = None\<rparr>"

definition write_submission :: "string \<Rightarrow> (submission \<Rightarrow> submission) \<Rightarrow> coursework \<Rightarrow> coursework" where
  "write_submission i f s = s\<lparr>cw_submissions := map (\<lambda>x. if sb_id x = i then f x else x) (cw_submissions s)\<rparr>"

definition upsert_submission ::
  "string \<Rightarrow> string \<Rightarrow> string \<Rightarrow> (submission \<Rightarrow> submission) \<Rightarrow> coursework \<Rightarrow> coursework \<times> submission"
where
  "upsert_submission assignmentId student i f s =
     (case submission_of s assignmentId student of
        Some x \<Rightarrow> (write_submission (sb_id x) f s, f x)
      | None \<Rightarrow>
          let x = f (blank_submission i assignmentId student) in (s\<lparr>cw_submissions := cw_submissions s @ [x]\<rparr>, x))"

definition text_data :: "string option \<Rightarrow> string option \<Rightarrow> string option \<Rightarrow> int \<Rightarrow> submission \<Rightarrow> submission" where
  "text_data content language fileUrl now x =
     x\<lparr>sb_content := content, sb_language := language, sb_fileUrl := fileUrl, sb_fileMimeType := None,
       sb_submittedAt := now, sb_grade := None, sb_feedback := None, sb_gradedById := None, sb_gradedAt := None\<rparr>"

definition has_text :: "string option \<Rightarrow> bool" where
  "has_text x = (case x of None \<Rightarrow> False | Some t \<Rightarrow> trim t \<noteq> [])"

definition push_submission :: "jwt_payload \<Rightarrow> string \<Rightarrow> submission \<Rightarrow> coursework \<Rightarrow> coursework" where
  "push_submission user assignmentId x s =
     (case find_assignment s assignmentId of
        None \<Rightarrow> s
      | Some a \<Rightarrow>
          (case am_sessionId a of
             None \<Rightarrow> s
           | Some sid \<Rightarrow>
               if sid = [] then s
               else s\<lparr>cw_pushed := cw_pushed s @ [\<lparr>sp_sessionId = sid, sp_submissionId = sb_id x,
                      sp_assignmentId = assignmentId, sp_assignmentTitle = am_title a, sp_studentId = jwt_sub user,
                      sp_studentName = jwt_name user, sp_language = sb_language x,
                      sp_submittedAt = sb_submittedAt x\<rparr>]\<rparr>))"

definition submit_text ::
  "coursework \<Rightarrow> jwt_payload \<Rightarrow> string \<Rightarrow> string option \<Rightarrow> string option \<Rightarrow> string option \<Rightarrow> string \<Rightarrow> int
    \<Rightarrow> coursework \<times> submission result"
where
  "submit_text s user assignmentId content fileUrl language i now =
     (case rbind (guard_or (has_text content \<or> has_text fileUrl)
              (BadRequest ''Provide submission text or a file link'')) (\<lambda>_.
            assert_can_submit s user assignmentId) of
        Inl e \<Rightarrow> (s, Inl e)
      | Inr _ \<Rightarrow>
          (case upsert_submission assignmentId (jwt_sub user) i (text_data content language fileUrl now) s of
             (s1, x) \<Rightarrow> (push_submission user assignmentId x s1, Inr x)))"

definition max_upload_bytes :: int where "max_upload_bytes = 30 * 1024 * 1024"

definition starts_with :: "string \<Rightarrow> string \<Rightarrow> bool" where
  "starts_with p t = (take (length p) t = p)"

definition allowed_upload :: "string \<Rightarrow> bool" where
  "allowed_upload mime \<longleftrightarrow>
     list_ex (\<lambda>p. starts_with p mime) [''audio/'', ''image/''] \<or> List.member [''application/pdf''] mime"

definition blob_key :: "string \<Rightarrow> string" where
  "blob_key i = ''submissions/'' @ i"

definition upload_data :: "string \<Rightarrow> int \<Rightarrow> submission \<Rightarrow> submission" where
  "upload_data mime now x =
     x\<lparr>sb_content := None, sb_fileUrl := Some [], sb_fileMimeType := Some mime, sb_submittedAt := now,
       sb_grade := None, sb_feedback := None, sb_gradedById := None, sb_gradedAt := None\<rparr>"

definition upload_checks ::
  "coursework \<Rightarrow> jwt_payload \<Rightarrow> string \<Rightarrow> (string \<times> string \<times> int) option \<Rightarrow> (string \<times> string) result"
where
  "upload_checks s user assignmentId file =
     (case file of
        None \<Rightarrow> Inl (BadRequest ''No file received'')
      | Some (bytes, mime, sz) \<Rightarrow>
          rbind (guard_or (allowed_upload mime) (BadRequest (''Unsupported file type: '' @ mime))) (\<lambda>_.
          rbind (guard_or (sz \<le> max_upload_bytes) (BadRequest ''File is larger than 30 MB'')) (\<lambda>_.
          rbind (assert_can_submit s user assignmentId) (\<lambda>_. Inr (bytes, mime)))))"

definition file_url :: "string \<Rightarrow> string" where
  "file_url i = ''/api/files/submission/'' @ i"

text \<open>The row, then the blob, then the row's address. \<open>up\<close>: the store takes the object; when it
  fails the row is left without an address.\<close>

definition upload_submission ::
  "bool \<Rightarrow> coursework \<Rightarrow> jwt_payload \<Rightarrow> string \<Rightarrow> (string \<times> string \<times> int) option \<Rightarrow> string \<Rightarrow> int
    \<Rightarrow> coursework \<times> submission result"
where
  "upload_submission up s user assignmentId file i now =
     (case upload_checks s user assignmentId file of
        Inl e \<Rightarrow> (s, Inl e)
      | Inr (bytes, mime) \<Rightarrow>
          (case upsert_submission assignmentId (jwt_sub user) i (upload_data mime now) s of
             (s1, x) \<Rightarrow>
               if \<not> up then (s1, Inl (Internal ''storage''))
               else (write_submission (sb_id x) (\<lambda>y. y\<lparr>sb_fileUrl := Some (file_url (sb_id x))\<rparr>)
                       (s1\<lparr>cw_blobs := aput (blob_key (sb_id x)) bytes (cw_blobs s1)\<rparr>),
                     Inr (x\<lparr>sb_fileUrl := Some (file_url (sb_id x))\<rparr>))))"

definition stream_submission_file :: "coursework \<Rightarrow> jwt_payload \<Rightarrow> string \<Rightarrow> (string \<times> string) result" where
  "stream_submission_file s user i =
     (case Option.bind (find_submission s i) (\<lambda>x. map_option (Pair x) (find_assignment s (sb_assignmentId x))) of
        None \<Rightarrow> Inl (NotFound ''No uploaded file for this submission'')
      | Some (x, a) \<Rightarrow>
          (case sb_fileMimeType x of
             None \<Rightarrow> Inl (NotFound ''No uploaded file for this submission'')
           | Some mime \<Rightarrow>
               if mime = [] then Inl (NotFound ''No uploaded file for this submission'')
               else
                 rbind (if sb_studentId x \<noteq> jwt_sub user
                        then assert_can_manage_course (cw_db s) user (am_courseId a) else Inr ()) (\<lambda>_.
                 rbind (from_option (NotFound ''File not found'') (map_of (cw_blobs s) (blob_key i))) (\<lambda>bytes.
                 Inr (bytes, mime)))))"

section \<open>Grading\<close>

definition get_manageable_work :: "coursework \<Rightarrow> jwt_payload \<Rightarrow> string \<Rightarrow> assignment result" where
  "get_manageable_work s user i =
     (case find_assignment s i of
        None \<Rightarrow> Inl (NotFound ''Assignment not found'')
      | Some a \<Rightarrow> rbind (assert_can_manage_course (cw_db s) user (am_courseId a)) (\<lambda>_. Inr a))"

definition list_submissions ::
  "coursework \<Rightarrow> jwt_payload \<Rightarrow> string \<Rightarrow> (assignment \<times> submission list \<times> nat) result"
where
  "list_submissions s user i =
     rbind (get_manageable_work s user i) (\<lambda>a.
       Inr (a, sort_key (\<lambda>x. - sb_submittedAt x) (submissions_of s i),
            (case am_groupId a of
               Some g \<Rightarrow> if g \<noteq> [] then length (group_roster s g)
                         else length (filter (\<lambda>r. en_courseId r = am_courseId a) (db_enrollments (cw_db s)))
             | None \<Rightarrow> length (filter (\<lambda>r. en_courseId r = am_courseId a) (db_enrollments (cw_db s))))))"

text \<open>What the ledger holds for one submission.\<close>

definition grade_points :: "string \<Rightarrow> string \<Rightarrow> string \<Rightarrow> ledger_entry \<Rightarrow> bool" where
  "grade_points student courseId i e \<longleftrightarrow>
     le_studentId e = student \<and> le_courseId e = courseId \<and> le_reason e = ASSIGNMENT_GRADED \<and> le_refId e = Some i"

text \<open>The reads of \<open>grade\<close>: the checks, and the difference to what was already awarded.\<close>

definition grade_read :: "coursework \<Rightarrow> jwt_payload \<Rightarrow> string \<Rightarrow> int \<Rightarrow> (string \<times> string \<times> int) result" where
  "grade_read s user i g =
     (case Option.bind (find_submission s i) (\<lambda>x. map_option (Pair x) (find_assignment s (sb_assignmentId x))) of
        None \<Rightarrow> Inl (NotFound ''Submission not found'')
      | Some (x, a) \<Rightarrow>
          rbind (get_manageable_work s user (sb_assignmentId x)) (\<lambda>_.
          rbind (case am_maxPoints a of
                   None \<Rightarrow> Inr ()
                 | Some m \<Rightarrow> guard_or (g \<le> m)
                     (BadRequest (''This assignment is out of '' @ int_text m @ '', so '' @ int_text g @ '' is too high.''))) (\<lambda>_.
          Inr (sb_studentId x, am_courseId a,
               g - delta_sum (grade_points (sb_studentId x) (am_courseId a) i) (ps_ledger (cw_points s))))))"

definition graded :: "jwt_payload \<Rightarrow> int \<Rightarrow> string option \<Rightarrow> int \<Rightarrow> submission \<Rightarrow> submission" where
  "graded user g feedback now x =
     x\<lparr>sb_grade := Some g, sb_feedback := (case feedback of None \<Rightarrow> sb_feedback x | Some f \<Rightarrow> Some f),
       sb_gradedById := Some (jwt_sub user), sb_gradedAt := Some now\<rparr>"

definition grade_entry :: "string \<Rightarrow> string \<Rightarrow> string \<Rightarrow> int \<Rightarrow> ledger_entry" where
  "grade_entry i student courseId delta =
     \<lparr>le_studentId = student, le_courseId = courseId, le_delta = delta, le_reason = ASSIGNMENT_GRADED, le_refId = Some i\<rparr>"

text \<open>The transaction.\<close>

definition grade_write ::
  "bool \<Rightarrow> coursework \<Rightarrow> jwt_payload \<Rightarrow> string \<Rightarrow> int \<Rightarrow> string option \<Rightarrow> int \<Rightarrow> string \<times> string \<times> int \<Rightarrow> coursework"
where
  "grade_write up s user i g feedback now r =
     (case r of (student, courseId, delta) \<Rightarrow>
        let s1 = write_submission i (graded user g feedback now) s
        in if delta \<noteq> 0 then s1\<lparr>cw_points := award up (cw_points s1) (grade_entry i student courseId delta)\<rparr> else s1)"

definition grade_submission ::
  "bool \<Rightarrow> coursework \<Rightarrow> jwt_payload \<Rightarrow> string \<Rightarrow> int \<Rightarrow> string option \<Rightarrow> int \<Rightarrow> coursework \<times> submission option result"
where
  "grade_submission up s user i g feedback now =
     (case grade_read s user i g of
        Inl e \<Rightarrow> (s, Inl e)
      | Inr r \<Rightarrow> let t = grade_write up s user i g feedback now r in (t, Inr (find_submission t i)))"

end
