(* ===== verification/AssignmentRuns.thy ===== *)
theory AssignmentRuns
  imports Assignments
begin

text \<open>
  Runs of the coursework service: one submission for each student and assignment, points that are
  the grade, and a tracking board that splits the audience.
\<close>

section \<open>Points of a submission\<close>

definition work_course :: "coursework \<Rightarrow> submission \<Rightarrow> string" where
  "work_course s x = (case find_assignment s (sb_assignmentId x) of None \<Rightarrow> [] | Some a \<Rightarrow> am_courseId a)"

definition work_max :: "coursework \<Rightarrow> submission \<Rightarrow> int option" where
  "work_max s x = Option.bind (find_assignment s (sb_assignmentId x)) am_maxPoints"

definition work_points :: "coursework \<Rightarrow> submission \<Rightarrow> int" where
  "work_points s x =
     delta_sum (grade_points (sb_studentId x) (work_course s x) (sb_id x)) (ps_ledger (cw_points s))"

text \<open>What a submission has earned is between 0 and the assignment's maximum, and it is the grade
  while there is one.\<close>

definition settled_work :: "coursework \<Rightarrow> submission \<Rightarrow> bool" where
  "settled_work s x \<longleftrightarrow>
     0 \<le> work_points s x \<and> work_points s x \<le> (case work_max s x of None \<Rightarrow> 1000 | Some m \<Rightarrow> m) \<and>
     (case sb_grade x of None \<Rightarrow> True | Some g \<Rightarrow> work_points s x = g)"

text \<open>A grade's entry is for the student and the course of its submission.\<close>

definition entry_owned :: "coursework \<Rightarrow> ledger_entry \<Rightarrow> bool" where
  "entry_owned s e \<longleftrightarrow> (le_reason e = ASSIGNMENT_GRADED \<longrightarrow>
     (\<exists>x \<in> set (cw_submissions s). le_refId e = Some (sb_id x) \<and> le_studentId e = sb_studentId x \<and> le_courseId e = work_course s x))"

definition work_key :: "submission \<Rightarrow> string \<times> string" where
  "work_key x = (sb_assignmentId x, sb_studentId x)"

definition coursework_ok :: "coursework \<Rightarrow> bool" where
  "coursework_ok s \<longleftrightarrow>
     distinct (map am_id (cw_assignments s)) \<and> distinct (map sb_id (cw_submissions s)) \<and>
     distinct (map work_key (cw_submissions s)) \<and>
     (\<forall>a \<in> set (cw_assignments s). case am_maxPoints a of None \<Rightarrow> True | Some m \<Rightarrow> 0 \<le> m) \<and>
     (\<forall>x \<in> set (cw_submissions s). find_assignment s (sb_assignmentId x) \<noteq> None \<and> settled_work s x) \<and>
     (\<forall>e \<in> set (ps_ledger (cw_points s)). entry_owned s e)"

lemma find_submissionD: "find_submission s i = Some x \<Longrightarrow> x \<in> set (cw_submissions s) \<and> sb_id x = i"
  by (auto simp: find_submission_def find_Some_iff)

lemma find_assignmentD: "find_assignment s i = Some a \<Longrightarrow> a \<in> set (cw_assignments s) \<and> am_id a = i"
  by (auto simp: find_assignment_def find_Some_iff)

lemma submission_ofD:
  "submission_of s i st = Some x \<Longrightarrow> x \<in> set (cw_submissions s) \<and> sb_assignmentId x = i \<and> sb_studentId x = st"
  by (auto simp: submission_of_def find_Some_iff)

lemma submission_of_None: "submission_of s i st = None \<longleftrightarrow> (i, st) \<notin> work_key ` set (cw_submissions s)"
  by (auto simp: submission_of_def find_None_iff work_key_def image_iff)

lemma same_submission:
  "coursework_ok s \<Longrightarrow> x \<in> set (cw_submissions s) \<Longrightarrow> y \<in> set (cw_submissions s) \<Longrightarrow> sb_id x = sb_id y \<Longrightarrow> x = y"
  by (auto simp: coursework_ok_def distinct_map dest: inj_onD)

lemma one_submission:
  assumes "coursework_ok s" "submission_of s (sb_assignmentId x) (sb_studentId x) = Some y" "x \<in> set (cw_submissions s)"
  shows "x = y"
proof -
  have "inj_on work_key (set (cw_submissions s))" using assms(1) by (simp add: coursework_ok_def distinct_map)
  moreover have "work_key x = work_key y" "y \<in> set (cw_submissions s)"
    using submission_ofD [OF assms(2)] by (auto simp: work_key_def)
  ultimately show ?thesis using assms(3) by (auto dest: inj_onD)
qed

section \<open>Frames\<close>

text \<open>An update of a row that keeps its keys.\<close>

definition keeps_keys :: "(submission \<Rightarrow> submission) \<Rightarrow> bool" where
  "keeps_keys f \<longleftrightarrow> (\<forall>x. sb_id (f x) = sb_id x \<and> work_key (f x) = work_key x)"

lemma keeps_keysD:
  "keeps_keys f \<Longrightarrow> sb_id (f x) = sb_id x"
  "keeps_keys f \<Longrightarrow> sb_assignmentId (f x) = sb_assignmentId x"
  "keeps_keys f \<Longrightarrow> sb_studentId (f x) = sb_studentId x"
  by (auto simp: keeps_keys_def work_key_def)

lemma updates_keep_keys [simp]:
  "keeps_keys (text_data content language fileUrl now)" "keeps_keys (upload_data mime now)"
  "keeps_keys (graded user g feedback now)" "keeps_keys (\<lambda>y. y\<lparr>sb_fileUrl := u\<rparr>)"
  by (auto simp: keeps_keys_def work_key_def text_data_def upload_data_def graded_def)

lemma write_rows: "cw_submissions (write_submission i f s) = map (\<lambda>x. if sb_id x = i then f x else x) (cw_submissions s)"
  by (simp add: write_submission_def)

lemma write_same [simp]:
  "cw_assignments (write_submission i f s) = cw_assignments s" "cw_points (write_submission i f s) = cw_points s"
  "cw_db (write_submission i f s) = cw_db s" "cw_members (write_submission i f s) = cw_members s"
  "cw_blobs (write_submission i f s) = cw_blobs s" "find_assignment (write_submission i f s) = find_assignment s"
  by (simp_all add: write_submission_def find_assignment_def fun_eq_iff)

lemma write_keys:
  assumes "keeps_keys f"
  shows "map sb_id (cw_submissions (write_submission i f s)) = map sb_id (cw_submissions s)"
    and "map work_key (cw_submissions (write_submission i f s)) = map work_key (cw_submissions s)"
  using assms by (auto simp: write_rows keeps_keys_def)

text \<open>The same row before and after.\<close>

definition same_row :: "submission \<Rightarrow> submission \<Rightarrow> bool" where
  "same_row x y \<longleftrightarrow> sb_id y = sb_id x \<and> sb_assignmentId y = sb_assignmentId x \<and> sb_studentId y = sb_studentId x"

lemma same_row_refl [simp]: "same_row x x"
  by (simp add: same_row_def)

lemma same_row_keeps: "keeps_keys f \<Longrightarrow> same_row x (f x)"
  by (simp add: same_row_def keeps_keysD)

text \<open>Every earlier row is still there; a row is an earlier one, perhaps with its grade taken off, or
  is new and blank.\<close>

definition carried :: "submission list \<Rightarrow> submission list \<Rightarrow> bool" where
  "carried xs ys \<longleftrightarrow> (\<forall>x \<in> set xs. \<exists>y \<in> set ys. same_row x y)"

definition comes_from :: "submission list \<Rightarrow> submission \<Rightarrow> bool" where
  "comes_from xs y \<longleftrightarrow> (\<exists>x \<in> set xs. same_row x y \<and> (sb_grade y = None \<or> sb_grade y = sb_grade x))"

lemma carried_more [simp]: "carried xs (xs @ zs)"
  unfolding carried_def by (metis UnI1 same_row_refl set_append)

lemma carried_same [simp]: "carried xs xs"
  using carried_more [of xs "[]"] by simp

lemma comes_from_same [simp]: "y \<in> set xs \<Longrightarrow> comes_from xs y"
  by (auto simp: comes_from_def intro: bexI [of _ y])

text \<open>What the points of a row depend on.\<close>

lemma row_points:
  assumes "same_row x y" and "find_assignment s (sb_assignmentId x) = Some a" "find_assignment t (sb_assignmentId x) = Some a"
    and "ps_ledger (cw_points t) = ps_ledger (cw_points s)"
  shows "work_course t y = work_course s x" "work_max t y = work_max s x" "work_points t y = work_points s x"
  using assms by (simp_all add: same_row_def work_points_def work_course_def work_max_def)

text \<open>A row that is new has earned nothing: no entry refers to it.\<close>

lemma new_row_points:
  assumes "\<forall>e \<in> set (ps_ledger (cw_points s)). entry_owned s e" "sb_id y \<notin> sb_id ` set (cw_submissions s)"
    and "ps_ledger (cw_points t) = ps_ledger (cw_points s)"
  shows "work_points t y = 0"
  unfolding work_points_def
proof (rule delta_sum_none)
  fix e
  assume "e \<in> set (ps_ledger (cw_points t))"
  then have "entry_owned s e" using assms(1,3) by simp
  then show "\<not> grade_points (sb_studentId y) (work_course t y) (sb_id y) e"
    using assms(2) by (auto simp: grade_points_def entry_owned_def)
qed

lemma ok_assignment: "coursework_ok s \<Longrightarrow> x \<in> set (cw_submissions s) \<Longrightarrow> \<exists>a. find_assignment s (sb_assignmentId x) = Some a"
  by (auto simp: coursework_ok_def)

lemma ok_settled: "coursework_ok s \<Longrightarrow> x \<in> set (cw_submissions s) \<Longrightarrow> settled_work s x"
  by (simp add: coursework_ok_def)

lemma settled_grade: "settled_work s x \<Longrightarrow> sb_grade x = Some g \<Longrightarrow> work_points s x = g"
  by (simp add: settled_work_def)

lemma ok_owned: "coursework_ok s \<Longrightarrow> e \<in> set (ps_ledger (cw_points s)) \<Longrightarrow> entry_owned s e"
  by (simp add: coursework_ok_def)

text \<open>A later state whose rows are the earlier ones, written on, and new blank ones.\<close>

definition written_on :: "coursework \<Rightarrow> coursework \<Rightarrow> bool" where
  "written_on s t \<longleftrightarrow>
     distinct (map am_id (cw_assignments t)) \<and>
     (\<forall>a \<in> set (cw_assignments t). case am_maxPoints a of None \<Rightarrow> True | Some m \<Rightarrow> 0 \<le> m) \<and>
     (\<forall>i a. find_assignment s i = Some a \<longrightarrow> find_assignment t i = Some a) \<and>
     ps_ledger (cw_points t) = ps_ledger (cw_points s) \<and>
     distinct (map sb_id (cw_submissions t)) \<and> distinct (map work_key (cw_submissions t)) \<and>
     carried (cw_submissions s) (cw_submissions t) \<and>
     (\<forall>y \<in> set (cw_submissions t).
        comes_from (cw_submissions s) y \<or>
        (sb_id y \<notin> sb_id ` set (cw_submissions s) \<and> sb_grade y = None \<and> find_assignment t (sb_assignmentId y) \<noteq> None))"

lemma written_onD:
  assumes "written_on s t"
  shows "\<And>a. a \<in> set (cw_assignments t) \<Longrightarrow> case am_maxPoints a of None \<Rightarrow> True | Some m \<Rightarrow> 0 \<le> m"
    and "\<And>i a. find_assignment s i = Some a \<Longrightarrow> find_assignment t i = Some a"
    and "ps_ledger (cw_points t) = ps_ledger (cw_points s)"
    and "\<And>x. x \<in> set (cw_submissions s) \<Longrightarrow> \<exists>y \<in> set (cw_submissions t). same_row x y"
    and "\<And>y. y \<in> set (cw_submissions t) \<Longrightarrow>
      (\<exists>x \<in> set (cw_submissions s). same_row x y \<and> (sb_grade y = None \<or> sb_grade y = sb_grade x)) \<or>
      (sb_id y \<notin> sb_id ` set (cw_submissions s) \<and> sb_grade y = None \<and> find_assignment t (sb_assignmentId y) \<noteq> None)"
  using assms by (simp_all add: written_on_def carried_def comes_from_def)

lemma owned_after:
  assumes before: "coursework_ok s" and w: "written_on s t" and e: "e \<in> set (ps_ledger (cw_points s))"
  shows "entry_owned t e"
proof -
  note kept = written_onD(2) [OF w] and ledger = written_onD(3) [OF w]
  have "\<exists>y \<in> set (cw_submissions t). le_refId e = Some (sb_id y) \<and> le_studentId e = sb_studentId y \<and> le_courseId e = work_course t y"
    if r: "le_reason e = ASSIGNMENT_GRADED"
  proof -
    obtain x where x: "x \<in> set (cw_submissions s)" "le_refId e = Some (sb_id x)" "le_studentId e = sb_studentId x"
        "le_courseId e = work_course s x" using ok_owned [OF before e] r by (auto simp: entry_owned_def)
    obtain y a where y: "y \<in> set (cw_submissions t)" "same_row x y" and a: "find_assignment s (sb_assignmentId x) = Some a"
      using written_onD(4) [OF w x(1)] ok_assignment [OF before x(1)] by blast
    have "work_course t y = work_course s x" by (rule row_points(1) [OF y(2) a kept [OF a] ledger])
    then show ?thesis using x y by (intro bexI [OF _ y(1)]) (simp add: same_row_def)
  qed
  then show ?thesis by (simp add: entry_owned_def)
qed

lemma settled_after:
  assumes before: "coursework_ok s" and w: "written_on s t" and y: "y \<in> set (cw_submissions t)"
  shows "find_assignment t (sb_assignmentId y) \<noteq> None \<and> settled_work t y"
proof (cases "\<exists>x \<in> set (cw_submissions s). same_row x y \<and> (sb_grade y = None \<or> sb_grade y = sb_grade x)")
  case True
  then obtain x where x: "x \<in> set (cw_submissions s)" "same_row x y" "sb_grade y = None \<or> sb_grade y = sb_grade x" by blast
  obtain a where a: "find_assignment s (sb_assignmentId x) = Some a" using ok_assignment [OF before x(1)] by blast
  note kept = written_onD(2) [OF w] and ledger = written_onD(3) [OF w]
  note same = row_points [OF x(2) a kept [OF a] ledger]
  have "settled_work t y" using ok_settled [OF before x(1)] x(3) by (auto simp: settled_work_def same split: option.splits)
  then show ?thesis using x(2) kept [OF a] by (simp add: same_row_def)
next
  case False
  then have y': "sb_id y \<notin> sb_id ` set (cw_submissions s)" "sb_grade y = None" "find_assignment t (sb_assignmentId y) \<noteq> None"
    using written_onD(5) [OF w y] by blast+
  obtain a where a: "find_assignment t (sb_assignmentId y) = Some a" using y'(3) by blast
  have "case work_max t y of None \<Rightarrow> True | Some m \<Rightarrow> 0 \<le> m"
    using written_onD(1) [OF w] find_assignmentD [OF a] a by (simp add: work_max_def)
  moreover have "work_points t y = 0" using before y'(1) written_onD(3) [OF w] by (intro new_row_points [of s]) (simp_all add: coursework_ok_def)
  ultimately show ?thesis using y'(2,3) by (simp add: settled_work_def split: option.splits)
qed

lemma ok_after:
  assumes "coursework_ok s" "written_on s t"
  shows "coursework_ok t"
  using settled_after [OF assms] owned_after [OF assms] assms(2) by (simp add: coursework_ok_def written_on_def)

lemma ok_write:
  assumes ok: "coursework_ok s" and f: "keeps_keys f" and g: "\<And>x. sb_grade (f x) = None \<or> sb_grade (f x) = sb_grade x"
  shows "coursework_ok (write_submission i f s)"
proof (rule ok_after [OF ok])
  have row: "same_row x (if sb_id x = i then f x else x)" for x by (simp add: same_row_keeps [OF f])
  have "\<exists>y \<in> set (cw_submissions (write_submission i f s)). same_row x y" if "x \<in> set (cw_submissions s)" for x
    using that row [of x] unfolding write_rows set_map by (intro bexI [OF _ imageI]) auto
  moreover have "\<exists>x \<in> set (cw_submissions s). same_row x y \<and> (sb_grade y = None \<or> sb_grade y = sb_grade x)"
    if y: "y \<in> set (cw_submissions (write_submission i f s))" for y
  proof -
    obtain x where "x \<in> set (cw_submissions s)" "y = (if sb_id x = i then f x else x)"
      using y unfolding write_rows by auto
    then show ?thesis using row [of x] g [of x] by (intro bexI [of _ x]) auto
  qed
  ultimately show "written_on s (write_submission i f s)"
    using ok write_keys [OF f, of i s] by (simp add: written_on_def coursework_ok_def carried_def comes_from_def)
qed

section \<open>Steps keep the tables\<close>

lemma ok_same:
  "cw_assignments t = cw_assignments s \<Longrightarrow> cw_submissions t = cw_submissions s \<Longrightarrow>
    ps_ledger (cw_points t) = ps_ledger (cw_points s) \<Longrightarrow> coursework_ok s \<Longrightarrow> coursework_ok t"
  by (rule ok_after [of s]) (auto simp: written_on_def coursework_ok_def find_assignment_def)

lemma can_submitD: "assert_can_submit s user i = Inr a \<Longrightarrow> find_assignment s i = Some a"
  by (auto simp: assert_can_submit_def split: option.splits if_splits)

lemma upsert_cases:
  assumes "upsert_submission i st new f s = (t, x)" "keeps_keys f"
  obtains (there) y where "submission_of s i st = Some y" "t = write_submission (sb_id y) f s" "x = f y"
  | (new) "submission_of s i st = None" "t = s\<lparr>cw_submissions := cw_submissions s @ [x]\<rparr>"
      "x = f (blank_submission new i st)" "sb_id x = new" "sb_assignmentId x = i" "sb_studentId x = st"
proof (cases "submission_of s i st")
  case None
  then have "x = f (blank_submission new i st)" "t = s\<lparr>cw_submissions := cw_submissions s @ [x]\<rparr>"
    using assms(1) by (simp_all add: upsert_submission_def Let_def) blast
  then show thesis using None assms(2) by (intro new) (simp_all add: keeps_keysD blank_submission_def)
next
  case (Some y)
  then show thesis using assms(1) by (intro there) (auto simp: upsert_submission_def)
qed

lemma ok_upsert:
  assumes ok: "coursework_ok s" and up: "upsert_submission i st new f s = (t, x)" and f: "keeps_keys f"
    and g: "\<And>x. sb_grade (f x) = None" and fresh: "new \<notin> sb_id ` set (cw_submissions s)"
    and a: "find_assignment s i \<noteq> None"
  shows "coursework_ok t" "x \<in> set (cw_submissions t)"
proof -
  have "coursework_ok t \<and> x \<in> set (cw_submissions t)"
    using up f
  proof (cases rule: upsert_cases)
    case (there y)
    then have "x \<in> set (cw_submissions t)" using submission_ofD [OF there(1)] by (auto simp: write_rows)
    then show ?thesis using there ok_write [OF ok f] g by simp
  next
    case new
    have "(i, st) \<notin> work_key ` set (cw_submissions s)" using new(1) by (simp add: submission_of_None)
    moreover have "work_key x = (i, st)" using new by (simp add: work_key_def)
    ultimately show ?thesis using ok_after [OF ok] ok new fresh a g [of "blank_submission new i st"]
      by (simp add: written_on_def coursework_ok_def find_assignment_def)
  qed
  then show "coursework_ok t" "x \<in> set (cw_submissions t)" by simp_all
qed

lemma ok_submit_text:
  assumes ok: "coursework_ok s" and fresh: "i \<notin> sb_id ` set (cw_submissions s)"
  shows "coursework_ok (fst (submit_text s user aid content fileUrl language i now))"
proof (cases "assert_can_submit s user aid")
  case (Inl e)
  then show ?thesis using ok by (simp add: submit_text_def split: sum.split) (auto simp: guard_or_def)
next
  case (Inr a)
  obtain t x where u: "upsert_submission aid (jwt_sub user) i (text_data content language fileUrl now) s = (t, x)" by fastforce
  have "coursework_ok t"
    using ok_upsert(1) [OF ok u] fresh can_submitD [OF Inr] by (simp add: text_data_def)
  then have "coursework_ok (push_submission user aid x t)"
    by (rule ok_same [rotated 3]) (auto simp: push_submission_def split: option.split)
  then show ?thesis using ok u by (auto simp: submit_text_def split: sum.split)
qed

lemma ok_upload:
  assumes ok: "coursework_ok s" and fresh: "i \<notin> sb_id ` set (cw_submissions s)"
  shows "coursework_ok (fst (upload_submission up s user aid file i now))"
proof (cases "upload_checks s user aid file")
  case (Inl e)
  then show ?thesis using ok by (simp add: upload_submission_def)
next
  case (Inr r)
  obtain bytes mime where r: "r = (bytes, mime)" by (cases r)
  have a: "find_assignment s aid \<noteq> None"
    using Inr can_submitD [of s user aid] by (fastforce simp: upload_checks_def res split: option.splits)
  obtain t x where u: "upsert_submission aid (jwt_sub user) i (upload_data mime now) s = (t, x)" by fastforce
  have t: "coursework_ok t" using ok_upsert(1) [OF ok u] fresh a by (simp add: upload_data_def)
  have "coursework_ok (t\<lparr>cw_blobs := b\<rparr>)" for b by (rule ok_same [OF _ _ _ t]) simp_all
  then have "coursework_ok (write_submission (sb_id x) (\<lambda>y. y\<lparr>sb_fileUrl := Some u\<rparr>) (t\<lparr>cw_blobs := b\<rparr>))" for b u
    by (rule ok_write) simp_all
  then show ?thesis using t u by (simp add: upload_submission_def Inr r)
qed

lemma ok_post:
  assumes ok: "coursework_ok s" and fresh: "i \<notin> am_id ` set (cw_assignments s)"
    and m: "case ad_maxPoints dto of None \<Rightarrow> True | Some m \<Rightarrow> 1 \<le> m \<and> m \<le> 1000"
  shows "coursework_ok (fst (create_assignment s user courseId dto i now))"
proof -
  let ?t = "s\<lparr>cw_assignments := cw_assignments s @ [new_assignment user courseId dto i now]\<rparr>"
  have "written_on s ?t"
    using ok fresh m
    by (auto simp: written_on_def coursework_ok_def find_assignment_def find_append new_assignment_def split: option.splits)
  then have "coursework_ok ?t" by (rule ok_after [OF ok])
  then have "coursework_ok (notify_assignment_posted i ?t)"
    by (rule ok_same [rotated 3]) (auto simp: notify_assignment_posted_def split: option.split)
  then show ?thesis using ok by (auto simp: create_assignment_def Let_def split: sum.split)
qed

text \<open>A grade: the row, and the entry for the difference.\<close>

lemma grade_readD:
  assumes "grade_read s user i g = Inr (st, c, d)"
  obtains x a where "find_submission s i = Some x" "find_assignment s (sb_assignmentId x) = Some a"
    "assert_can_manage_course (cw_db s) user c = Inr ()" "case am_maxPoints a of None \<Rightarrow> True | Some m \<Rightarrow> g \<le> m"
    "st = sb_studentId x" "c = am_courseId a" "d = g - work_points s x"
proof -
  obtain x a where x: "find_submission s i = Some x" "find_assignment s (sb_assignmentId x) = Some a"
    using assms by (auto simp: grade_read_def bind_eq_Some_conv split: option.splits)
  then have "sb_id x = i" using find_submissionD by blast
  then have "assert_can_manage_course (cw_db s) user (am_courseId a) = Inr ()"
      "case am_maxPoints a of None \<Rightarrow> True | Some m \<Rightarrow> g \<le> m" "st = sb_studentId x" "c = am_courseId a"
      "d = g - work_points s x"
    using assms x by (auto simp: grade_read_def get_manageable_work_def res work_points_def work_course_def split: option.splits)
  then show thesis using that [OF x] by simp
qed

text \<open>The entry of a grade is seen by no other submission.\<close>

lemma grade_entry_points [simp]: "grade_points st c i (grade_entry j st' c' d) \<longleftrightarrow> st' = st \<and> c' = c \<and> j = i"
  by (auto simp: grade_points_def grade_entry_def)

lemma grade_entry_delta [simp]: "le_delta (grade_entry j st c d) = d"
  by (simp add: grade_entry_def)

definition pay_grade :: "bool \<Rightarrow> string \<Rightarrow> string \<Rightarrow> string \<Rightarrow> int \<Rightarrow> coursework \<Rightarrow> coursework" where
  "pay_grade up i st c d s =
     (if d \<noteq> 0 then s\<lparr>cw_points := award up (cw_points s) (grade_entry i st c d)\<rparr> else s)"

lemma grade_write_pay: "grade_write up s user i g fb now (st, c, d) = pay_grade up i st c d (write_submission i (graded user g fb now) s)"
  by (simp add: grade_write_def pay_grade_def Let_def)

lemma pay_same [simp]:
  "cw_assignments (pay_grade up i st c d s) = cw_assignments s" "cw_submissions (pay_grade up i st c d s) = cw_submissions s"
  "find_assignment (pay_grade up i st c d s) = find_assignment s" "work_course (pay_grade up i st c d s) = work_course s"
  "work_max (pay_grade up i st c d s) = work_max s"
  by (simp_all add: pay_grade_def find_assignment_def work_course_def work_max_def fun_eq_iff)

lemma pay_sum:
  "delta_sum P (ps_ledger (cw_points (pay_grade up i st c d s))) =
     delta_sum P (ps_ledger (cw_points s)) + (if P (grade_entry i st c d) then d else 0)"
  by (simp add: pay_grade_def points.paid)

lemma pay_points:
  "work_points (pay_grade up i st c d s) x =
     work_points s x + (if sb_id x = i \<and> st = sb_studentId x \<and> c = work_course s x then d else 0)"
  by (simp add: work_points_def pay_sum)

lemma pay_ledger: "set (ps_ledger (cw_points (pay_grade up i st c d s))) \<subseteq> insert (grade_entry i st c d) (set (ps_ledger (cw_points s)))"
  by (auto simp: pay_grade_def points.pay_appends)

lemma grade_keys: "same_row x (graded user g fb now x)" "sb_grade (graded user g fb now x) = Some g"
  by (simp_all add: same_row_keeps) (simp add: graded_def)

lemma write_row_points [simp]:
  "work_points (write_submission i f s) = work_points s" "work_course (write_submission i f s) = work_course s"
  "work_max (write_submission i f s) = work_max s"
  by (simp_all add: fun_eq_iff work_points_def work_course_def work_max_def)

lemma same_row_points: "same_row x y \<Longrightarrow> work_points s y = work_points s x" "same_row x y \<Longrightarrow> work_course s y = work_course s x"
    "same_row x y \<Longrightarrow> work_max s y = work_max s x"
  by (simp_all add: same_row_def work_points_def work_course_def work_max_def)

lemma ok_grade:
  assumes ok: "coursework_ok s" and g: "0 \<le> g" "g \<le> 1000"
  shows "coursework_ok (fst (grade_submission up s user i g fb now))"
proof (cases "grade_read s user i g")
  case (Inl e)
  then show ?thesis using ok by (simp add: grade_submission_def)
next
  case (Inr r)
  obtain st c d where r: "r = (st, c, d)" by (cases r)
  obtain x a where x: "find_submission s i = Some x" "find_assignment s (sb_assignmentId x) = Some a"
      "case am_maxPoints a of None \<Rightarrow> True | Some m \<Rightarrow> g \<le> m" "st = sb_studentId x" "c = am_courseId a" "d = g - work_points s x"
    using grade_readD [OF Inr [unfolded r]] by metis
  have x': "x \<in> set (cw_submissions s)" "sb_id x = i" "c = work_course s x" using find_submissionD [OF x(1)] x(2,5) by (simp_all add: work_course_def)
  let ?w = "write_submission i (graded user g fb now) s" and ?f = "\<lambda>y. if sb_id y = i then graded user g fb now y else y"
  let ?t = "pay_grade up i st c d ?w"
  have settled: "settled_work ?t (?f y)" if y: "y \<in> set (cw_submissions s)" for y
  proof (cases "sb_id y = i")
    case True
    then have "y = x" using same_submission [OF ok y x'(1)] x'(2) by simp
    then have "work_points ?t (?f y) = g" using x' x(4,6) by (simp add: pay_points same_row_points [OF grade_keys(1)] grade_keys(1) [unfolded same_row_def])
    moreover have "work_max ?t (?f y) = am_maxPoints a" using \<open>y = x\<close> x'(2) x(2) by (simp add: same_row_points [OF grade_keys(1)] work_max_def [of s x])
    ultimately show ?thesis using g x(3) True by (simp add: settled_work_def grade_keys split: option.splits)
  next
    case False
    then show ?thesis using ok_settled [OF ok y] by (simp add: settled_work_def pay_points split: option.splits)
  qed
  have "\<exists>y \<in> set (cw_submissions ?t). same_row z y" if "z \<in> set (cw_submissions s)" for z
    using that unfolding pay_same write_rows set_map by (intro bexI [OF _ imageI [OF that]]) (simp add: grade_keys)
  then have owned: "entry_owned ?t e" if "entry_owned s e" for e
    using that unfolding entry_owned_def pay_same write_row_points by (metis same_row_def same_row_points(2))
  have mine: "entry_owned ?t (grade_entry i st c d)"
    unfolding entry_owned_def pay_same write_rows set_map
    by (intro impI bexI [OF _ imageI [OF x'(1)]])
      (simp add: x'(2,3) x(4) grade_entry_def same_row_points [OF grade_keys(1)] grade_keys(1) [unfolded same_row_def])
  have "\<forall>e \<in> set (ps_ledger (cw_points ?t)). entry_owned ?t e"
    using pay_ledger [of up i st c d ?w] owned mine ok_owned [OF ok] by auto
  moreover have "find_assignment s (sb_assignmentId y) \<noteq> None \<and> settled_work ?t y" if "y \<in> set (cw_submissions ?t)" for y
  proof -
    obtain z where z: "z \<in> set (cw_submissions s)" "y = ?f z" using \<open>y \<in> set (cw_submissions ?t)\<close> unfolding pay_same write_rows by auto
    show ?thesis using settled [OF z(1)] ok_assignment [OF ok z(1)] grade_keys(1) [of z user g fb now]
      unfolding z(2) by (simp add: same_row_def)
  qed
  ultimately have "coursework_ok ?t"
    using ok write_keys [of "graded user g fb now" i s] by (simp add: coursework_ok_def)
  then show ?thesis by (simp add: grade_submission_def Inr r grade_write_pay Let_def)
qed

section \<open>Runs\<close>

text \<open>The operations, with what the request pipes let through: a grade between 0 and 1000 and a
  maximum between 1 and 1000; generated ids are new. Other services pay points for other reasons and
  change the enrolments and the groups.\<close>

datatype work_op =
    PostWork jwt_payload string assignment_dto string int
  | HandIn jwt_payload string "string option" "string option" "string option" string int
  | Upload bool jwt_payload string "(string \<times> string \<times> int) option" string int
  | GradeWork bool jwt_payload string int "string option" int
  | OtherPoints bool ledger_entry
  | Roster "enrollment_row list" "(string \<times> string) list"

fun work_step :: "coursework \<Rightarrow> work_op \<Rightarrow> coursework" where
  "work_step s (PostWork user courseId dto i now) =
     (if i \<notin> am_id ` set (cw_assignments s) \<and> (case ad_maxPoints dto of None \<Rightarrow> True | Some m \<Rightarrow> 1 \<le> m \<and> m \<le> 1000)
      then fst (create_assignment s user courseId dto i now) else s)"
| "work_step s (HandIn user aid content fileUrl language i now) =
     (if i \<notin> sb_id ` set (cw_submissions s) then fst (submit_text s user aid content fileUrl language i now) else s)"
| "work_step s (Upload up user aid file i now) =
     (if i \<notin> sb_id ` set (cw_submissions s) then fst (upload_submission up s user aid file i now) else s)"
| "work_step s (GradeWork up user i g fb now) =
     (if 0 \<le> g \<and> g \<le> 1000 then fst (grade_submission up s user i g fb now) else s)"
| "work_step s (OtherPoints up e) =
     (if le_reason e \<noteq> ASSIGNMENT_GRADED then s\<lparr>cw_points := award up (cw_points s) e\<rparr> else s)"
| "work_step s (Roster es ms) = s\<lparr>cw_db := (cw_db s)\<lparr>db_enrollments := es\<rparr>, cw_members := ms\<rparr>"

lemma ok_other:
  assumes ok: "coursework_ok s" and e: "le_reason e \<noteq> ASSIGNMENT_GRADED"
  shows "coursework_ok (s\<lparr>cw_points := award up (cw_points s) e\<rparr>)"
proof -
  let ?t = "s\<lparr>cw_points := award up (cw_points s) e\<rparr>"
  have same: "find_assignment ?t = find_assignment s" "work_course ?t = work_course s" "work_max ?t = work_max s"
    by (simp_all add: fun_eq_iff find_assignment_def work_course_def work_max_def)
  have "work_points ?t = work_points s"
    using e by (simp add: fun_eq_iff work_points_def same points.untouched grade_points_def)
  then have "settled_work ?t = settled_work s" by (simp add: fun_eq_iff settled_work_def same split: option.split)
  moreover have "entry_owned ?t = entry_owned s" by (simp add: fun_eq_iff entry_owned_def same)
  moreover have "entry_owned s e" using e by (simp add: entry_owned_def)
  ultimately show ?thesis using ok by (simp add: coursework_ok_def same points.pay_appends ball_Un)
qed

interpretation coursework_run: invariant_system work_step coursework_ok
proof unfold_locales
  fix s op
  assume "coursework_ok s"
  then show "coursework_ok (work_step s op)"
    by (cases op) (auto simp: ok_post ok_submit_text ok_upload ok_grade ok_other intro: ok_same [of _ s])
qed

definition no_coursework :: "coursework \<Rightarrow> bool" where
  "no_coursework s \<longleftrightarrow> cw_assignments s = [] \<and> cw_submissions s = [] \<and> ps_ledger (cw_points s) = []"

lemma work_runs_ok: "no_coursework s \<Longrightarrow> coursework_ok (foldl work_step s ops)"
  by (rule coursework_run.inv_run) (simp add: no_coursework_def coursework_ok_def)

section \<open>Points and grades\<close>

definition student_work :: "coursework \<Rightarrow> string \<Rightarrow> string \<Rightarrow> submission list" where
  "student_work s st c = filter (\<lambda>x. sb_studentId x = st \<and> work_course s x = c) (cw_submissions s)"

definition graded_points :: "string \<Rightarrow> string \<Rightarrow> ledger_entry \<Rightarrow> bool" where
  "graded_points st c e \<longleftrightarrow> le_studentId e = st \<and> le_courseId e = c \<and> le_reason e = ASSIGNMENT_GRADED"

text \<open>One entry is counted for exactly one of the rows.\<close>

lemma entry_once:
  assumes "distinct (map sb_id xs)" and "P e \<Longrightarrow> \<exists>x \<in> set xs. le_refId e = Some (sb_id x)"
  shows "(\<Sum>x\<leftarrow>xs. if P e \<and> le_refId e = Some (sb_id x) then d else (0::int)) = (if P e then d else 0)"
proof (cases "P e")
  case True
  then obtain x where x: "x \<in> set xs" "le_refId e = Some (sb_id x)" using assms(2) by blast
  have "inj_on sb_id (set xs)" "distinct xs" using assms(1) by (simp_all add: distinct_map)
  then have "(\<Sum>y\<leftarrow>xs. if P e \<and> le_refId e = Some (sb_id y) then d else 0) = (\<Sum>y \<in> set xs. if y = x then d else 0)"
    unfolding sum_list_distinct_conv_sum_set [OF \<open>distinct xs\<close>] using x True by (intro sum.cong) (auto dest: inj_onD)
  then show ?thesis using x True by simp
qed simp

lemma sum_of_rows:
  assumes "distinct (map sb_id xs)" "\<And>e. e \<in> set l \<Longrightarrow> P e \<Longrightarrow> \<exists>x \<in> set xs. le_refId e = Some (sb_id x)"
  shows "delta_sum P l = (\<Sum>x\<leftarrow>xs. delta_sum (\<lambda>e. P e \<and> le_refId e = Some (sb_id x)) l)"
  using assms(2)
proof (induction l)
  case (Cons e l)
  have "(\<Sum>x\<leftarrow>xs. delta_sum (\<lambda>e. P e \<and> le_refId e = Some (sb_id x)) (e # l)) =
      (\<Sum>x\<leftarrow>xs. if P e \<and> le_refId e = Some (sb_id x) then le_delta e else 0) +
      (\<Sum>x\<leftarrow>xs. delta_sum (\<lambda>e. P e \<and> le_refId e = Some (sb_id x)) l)"
    by (simp add: sum_list_addf)
  then show ?case using Cons entry_once [OF assms(1), of P e "le_delta e"] by simp
qed simp

lemma coursework_total:
  assumes ok: "coursework_ok s"
  shows "delta_sum (graded_points st c) (ps_ledger (cw_points s)) = (\<Sum>x\<leftarrow>student_work s st c. work_points s x)"
proof -
  have "distinct (map sb_id (student_work s st c))"
    using ok by (simp add: student_work_def coursework_ok_def distinct_map_filter)
  moreover have "\<exists>x \<in> set (student_work s st c). le_refId e = Some (sb_id x)"
    if "e \<in> set (ps_ledger (cw_points s))" "graded_points st c e" for e
    using ok_owned [OF ok that(1)] that(2) by (auto simp: entry_owned_def graded_points_def student_work_def)
  ultimately have "delta_sum (graded_points st c) (ps_ledger (cw_points s)) =
      (\<Sum>x\<leftarrow>student_work s st c. delta_sum (\<lambda>e. graded_points st c e \<and> le_refId e = Some (sb_id x)) (ps_ledger (cw_points s)))"
    by (rule sum_of_rows)
  also have "\<dots> = (\<Sum>x\<leftarrow>student_work s st c. work_points s x)"
    by (rule arg_cong [where f = sum_list], rule map_cong)
      (auto simp: work_points_def student_work_def grade_points_def graded_points_def conj_assoc intro: delta_sum_cong)
  finally show ?thesis .
qed

section \<open>The tracking board\<close>

lemma length_filter_set:
  assumes "distinct xs" "distinct ys" "set ys \<subseteq> set xs"
  shows "length (filter (\<lambda>x. x \<notin> set ys) xs) + length ys = length xs"
proof -
  have "card (set xs - set ys) + card (set ys) = card (set xs)"
    using assms(3) by (metis card_mono card_Diff_subset finite_set le_add_diff_inverse2)
  moreover have "set (filter (\<lambda>x. x \<notin> set ys) xs) = set xs - set ys" by auto
  ultimately show ?thesis using assms(1,2) by (metis distinct_card distinct_filter)
qed

lemma students_once:
  assumes "coursework_ok s"
  shows "distinct (map sb_studentId (submissions_of s i))"
proof -
  have "distinct (map work_key (submissions_of s i))"
    using assms by (simp add: submissions_of_def coursework_ok_def distinct_map_filter)
  then show ?thesis
    unfolding distinct_map by (auto simp: inj_on_def work_key_def submissions_of_def)
qed

definition rosters_unique :: "coursework \<Rightarrow> bool" where
  "rosters_unique s \<longleftrightarrow>
     distinct (map (\<lambda>r. (en_courseId r, en_studentId r)) (db_enrollments (cw_db s))) \<and> distinct (cw_members s)"

lemma audience_distinct:
  assumes "rosters_unique s"
  shows "distinct (audience_of s a)"
proof -
  have "distinct (class_roster s c)" for c
  proof -
    have "distinct (map (\<lambda>r. (en_courseId r, en_studentId r)) (filter (\<lambda>r. en_courseId r = c) (db_enrollments (cw_db s))))"
      using assms by (simp add: rosters_unique_def distinct_map_filter)
    then show ?thesis unfolding class_roster_def distinct_map by (auto simp: inj_on_def)
  qed
  moreover have "distinct (group_roster s g)" for g
    using assms unfolding group_roster_def distinct_map rosters_unique_def by (auto simp: inj_on_def)
  ultimately show ?thesis by (simp add: audience_of_def split: option.split)
qed

lemma track_splits:
  assumes ok: "coursework_ok s" and u: "rosters_unique s"
  shows "let t = track s a; who = map sb_studentId (tw_submitted t) in
    set who \<union> set (tw_missing t) = set (audience_of s a) \<and> set who \<inter> set (tw_missing t) = {} \<and>
    distinct who \<and> tw_submittedCount t + length (tw_missing t) = tw_audienceCount t \<and> tw_gradedCount t \<le> tw_submittedCount t"
proof -
  let ?rows = "sort_key (\<lambda>x. - sb_submittedAt x) (submissions_of s (am_id a))"
  let ?sub = "filter (\<lambda>x. sb_studentId x \<in> set (audience_of s a)) ?rows"
  let ?who = "map sb_studentId ?sub"
  have "mset (map sb_studentId ?rows) = mset (map sb_studentId (submissions_of s (am_id a)))" by simp
  then have "distinct (map sb_studentId ?rows)" using students_once [OF ok] mset_eq_imp_distinct_iff by blast
  then have d: "distinct ?who" by (rule distinct_map_filter)
  have sub: "set ?who \<subseteq> set (audience_of s a)" by auto
  have "length (filter (\<lambda>i. i \<notin> set ?who) (audience_of s a)) + length ?who = length (audience_of s a)"
    by (rule length_filter_set [OF audience_distinct [OF u] d sub])
  moreover have "length (filter (\<lambda>x. sb_grade x \<noteq> None) ?sub) \<le> length ?sub" by (rule length_filter_le)
  ultimately show ?thesis using d sub by (auto simp: track_def Let_def)
qed

section \<open>A row that was just written\<close>

lemma written_found:
  assumes "distinct (map sb_id (cw_submissions s))" "y \<in> set (cw_submissions s)" "keeps_keys f"
  shows "find_submission (write_submission (sb_id y) f s) (sb_id y) = Some (f y)"
proof -
  have "distinct (map sb_id (cw_submissions (write_submission (sb_id y) f s)))"
    using assms(1) write_keys(1) [OF assms(3)] by simp
  moreover have "f y \<in> set (cw_submissions (write_submission (sb_id y) f s))"
    using assms(2) unfolding write_rows set_map by (intro image_eqI [of _ _ y]) simp_all
  ultimately show ?thesis using find_by_key [of sb_id _ "f y"] keeps_keysD(1) [OF assms(3)] by (simp add: find_submission_def)
qed

lemma upserted_row:
  assumes ok: "coursework_ok s" and u: "upsert_submission aid st i (upload_data mime now) s = (t, y)"
    and new: "i \<notin> sb_id ` set (cw_submissions s)" and a: "find_assignment s aid = Some a"
  shows "distinct (map sb_id (cw_submissions t))" "y \<in> set (cw_submissions t)" "sb_assignmentId y = aid"
    "sb_studentId y = st" "sb_fileMimeType y = Some mime" "cw_assignments t = cw_assignments s"
proof -
  have f: "keeps_keys (upload_data mime now)" by simp
  have ok': "coursework_ok t \<and> y \<in> set (cw_submissions t)"
    using ok_upsert [OF ok u f _ new] a by (simp add: upload_data_def)
  then show "distinct (map sb_id (cw_submissions t))" "y \<in> set (cw_submissions t)" by (simp_all add: coursework_ok_def)
  have "sb_assignmentId y = aid \<and> sb_studentId y = st \<and> sb_fileMimeType y = Some mime \<and> cw_assignments t = cw_assignments s"
    using u f
  proof (cases rule: upsert_cases)
    case (there z)
    then show ?thesis using submission_ofD [OF there(1)] by (simp add: upload_data_def)
  next
    case new
    then show ?thesis by (simp add: upload_data_def)
  qed
  then show "sb_assignmentId y = aid" "sb_studentId y = st" "sb_fileMimeType y = Some mime" "cw_assignments t = cw_assignments s"
    by simp_all
qed

section \<open>Properties\<close>

text \<open>A course with a student: the work is posted, handed in, graded twice.\<close>

definition work_teacher :: jwt_payload where
  "work_teacher = \<lparr>jwt_sub = ''t'', jwt_role = INSTRUCTOR, jwt_name = [], jwt_email = [], jwt_organizationId = Some ''o'',
     jwt_emailVerified = True, jwt_isSuperAdmin = False, jwt_recorder = None, jwt_preview = None\<rparr>"

definition work_student :: jwt_payload where
  "work_student = work_teacher\<lparr>jwt_sub := ''s'', jwt_role := STUDENT\<rparr>"

definition demo_work :: coursework where
  "demo_work = \<lparr>cw_db = empty_db\<lparr>db_courses := [\<lparr>co_id = ''c'', co_instructorId = Some ''t'', co_organizationId = Some ''o'',
       co_pluginKeys = None\<rparr>], db_enrollments := [\<lparr>en_courseId = ''c'', en_studentId = ''s''\<rparr>,
       \<lparr>en_courseId = ''c'', en_studentId = ''r''\<rparr>]\<rparr>,
     cw_batches = [], cw_groups = [], cw_members = [], cw_emails = [], cw_assignments = [], cw_submissions = [],
     cw_points = \<lparr>ps_ledger = [], ps_zset = (\<lambda>_. []), ps_built = (\<lambda>_. False)\<rparr>, cw_blobs = [], cw_mails = [], cw_pushed = []\<rparr>"

definition demo_graded :: "work_op list" where
  "demo_graded =
     [PostWork work_teacher ''c'' \<lparr>ad_title = ''Essay'', ad_instructions = None, ad_dueAt = None, ad_maxPoints = Some 10,
        ad_sectionId = None, ad_sessionId = None, ad_groupId = None\<rparr> ''a'' 1,
      HandIn work_student ''a'' (Some ''text'') None None ''x'' 2, GradeWork True work_teacher ''x'' 5 None 3,
      GradeWork True work_teacher ''x'' 7 None 4]"

text \<open>C19: After any run of the coursework service on new tables, what the ledger holds for a student's
  coursework in a course is the sum over the student's submissions there; each submission has earned
  between 0 and its assignment's maximum, and exactly its grade while it has one, however often it
  was graded or handed in again.\<close>

theorem coursework_points_are_the_grades:
  assumes "no_coursework s0" and "s = foldl work_step s0 ops"
  shows "delta_sum (graded_points st c) (ps_ledger (cw_points s)) = (\<Sum>x\<leftarrow>student_work s st c. work_points s x) \<and>
    (\<forall>x \<in> set (cw_submissions s). 0 \<le> work_points s x \<and>
       work_points s x \<le> (case work_max s x of None \<Rightarrow> 1000 | Some m \<Rightarrow> m) \<and>
       (\<forall>g. sb_grade x = Some g \<longrightarrow> work_points s x = g))"
proof -
  have ok: "coursework_ok s" using work_runs_ok [OF assms(1)] assms(2) by simp
  have "0 \<le> work_points s x \<and> work_points s x \<le> (case work_max s x of None \<Rightarrow> 1000 | Some m \<Rightarrow> m) \<and>
      (\<forall>g. sb_grade x = Some g \<longrightarrow> work_points s x = g)" if "x \<in> set (cw_submissions s)" for x
    using ok_settled [OF ok that] settled_grade [OF ok_settled [OF ok that]] by (simp add: settled_work_def)
  then show ?thesis using coursework_total [OF ok] by blast
qed

lemma coursework_points_are_the_grades_witness:
  "delta_sum (graded_points ''s'' ''c'') (ps_ledger (cw_points (foldl work_step demo_work demo_graded))) = 7 \<and>
   map sb_grade (cw_submissions (foldl work_step demo_work demo_graded)) = [Some 7]"
proof -
  let ?s = "foldl work_step demo_work demo_graded"
  have row: "map sb_grade (cw_submissions ?s) = [Some 7]" and "student_work ?s ''s'' ''c'' = cw_submissions ?s"
    by code_simp+
  moreover obtain x where x: "cw_submissions ?s = [x]" "sb_grade x = Some 7" using row by (auto simp: map_eq_Cons_conv)
  ultimately show ?thesis
    using coursework_points_are_the_grades [of demo_work ?s demo_graded "''s''" "''c''"] by (simp add: no_coursework_def demo_work_def)
qed

text \<open>In any state a run reaches, the tracking board splits each assignment's audience: every
  student of it is either among the submitted, once, or among the missing, and the counts add up.\<close>

theorem tracking_splits_the_audience:
  assumes "no_coursework s0" and "s = foldl work_step s0 ops" and "rosters_unique s"
    and "course_tracking s user c = Inr board" and "t \<in> set board"
  shows "let who = map sb_studentId (tw_submitted t) in
    set who \<union> set (tw_missing t) = set (audience_of s (tw_work t)) \<and> set who \<inter> set (tw_missing t) = {} \<and>
    distinct who \<and> tw_submittedCount t + length (tw_missing t) = tw_audienceCount t \<and> tw_gradedCount t \<le> tw_submittedCount t"
proof -
  have ok: "coursework_ok s" using work_runs_ok [OF assms(1)] assms(2) by simp
  obtain a where a: "t = track s a" using assms(4,5) by (auto simp: course_tracking_def res)
  then have "tw_work t = a" by (simp add: track_def Let_def)
  then show ?thesis using track_splits [OF ok assms(3), of a] a by (simp add: Let_def)
qed

lemma tracking_splits_the_audience_witness:
  "let board = course_tracking (foldl work_step demo_work demo_graded) work_teacher ''c'' in
   map_sum id (map (\<lambda>t. (tw_submittedCount t, tw_missing t, tw_audienceCount t, tw_gradedCount t))) board = Inr [(1, [''r''], 2, 1)] \<and>
   (\<forall>t \<in> set (projr board). tw_submittedCount t + length (tw_missing t) = tw_audienceCount t)"
proof -
  let ?s = "foldl work_step demo_work demo_graded"
  have v: "map_sum id (map (\<lambda>t. (tw_submittedCount t, tw_missing t, tw_audienceCount t, tw_gradedCount t)))
      (course_tracking ?s work_teacher ''c'') = Inr [(1, [''r''], 2, 1)]" and "rosters_unique ?s" by code_simp+
  moreover obtain b where b: "course_tracking ?s work_teacher ''c'' = Inr b" using v by (cases "course_tracking ?s work_teacher ''c''") auto
  ultimately have "\<forall>t \<in> set b. tw_submittedCount t + length (tw_missing t) = tw_audienceCount t"
    using tracking_splits_the_audience [of demo_work ?s demo_graded work_teacher "''c''" b]
    by (auto simp: no_coursework_def demo_work_def Let_def)
  then show ?thesis using v b by (simp add: Let_def)
qed

text \<open>C22: A blob handed in is streamed back with its type, to its owner and to those who manage the
  course, and to nobody else.\<close>

theorem uploaded_file_streams_back:
  assumes ok: "coursework_ok s" and new: "i \<notin> sb_id ` set (cw_submissions s)"
    and up: "upload_submission True s user aid (Some (bytes, mime, sz)) i now = (t, Inr x)"
  shows "stream_submission_file t v (sb_id x) =
    (if jwt_sub v = jwt_sub user then Inr (bytes, mime)
     else rbind (assert_can_manage_course (cw_db t) v (work_course t x)) (\<lambda>_. Inr (bytes, mime)))"
proof -
  have r: "upload_checks s user aid (Some (bytes, mime, sz)) = Inr (bytes, mime)"
    using up by (auto simp: upload_submission_def upload_checks_def res split: sum.splits)
  then obtain a where a: "find_assignment s aid = Some a" and mime: "mime \<noteq> []"
    using can_submitD [of s user aid] by (fastforce simp: upload_checks_def res allowed_upload_def starts_with_def)
  obtain t1 y where u: "upsert_submission aid (jwt_sub user) i (upload_data mime now) s = (t1, y)" by fastforce
  then have x: "x = y\<lparr>sb_fileUrl := Some (file_url (sb_id y))\<rparr>"
    and t: "t = write_submission (sb_id y) (\<lambda>z. z\<lparr>sb_fileUrl := Some (file_url (sb_id y))\<rparr>)
      (t1\<lparr>cw_blobs := aput (blob_key (sb_id y)) bytes (cw_blobs t1)\<rparr>)"
    using up r by (simp_all add: upload_submission_def)
  note row = upserted_row [OF ok u new a] a
  have "find_submission t (sb_id y) = Some x" unfolding t x using row by (simp add: written_found)
  moreover have "find_assignment t aid = Some a" using row unfolding t by (simp add: find_assignment_def)
  moreover have "map_of (cw_blobs t) (blob_key (sb_id y)) = Some bytes" by (simp add: t aput_lookup)
  ultimately show ?thesis using row mime by (simp add: stream_submission_file_def x work_course_def from_option_def)
qed

lemma uploaded_file_streams_back_witness:
  "\<exists>s t x. upload_submission True s work_student ''a'' (Some (''bytes'', ''audio/webm'', 5)) ''x'' 2 = (t, Inr x) \<and>
     stream_submission_file t work_student (sb_id x) = Inr (''bytes'', ''audio/webm'')"
proof -
  let ?s = "foldl work_step demo_work (take 1 demo_graded)"
  let ?u = "upload_submission True ?s work_student ''a'' (Some (''bytes'', ''audio/webm'', 5)) ''x'' 2"
  have "case snd ?u of Inl _ \<Rightarrow> False | Inr _ \<Rightarrow> True" by code_simp
  then obtain t x where u: "?u = (t, Inr x)" by (cases "?u", cases "snd ?u") auto
  have "coursework_ok ?s" by (rule work_runs_ok) (simp add: no_coursework_def demo_work_def)
  moreover have "''x'' \<notin> sb_id ` set (cw_submissions ?s)" by code_simp
  ultimately show ?thesis using uploaded_file_streams_back [OF _ _ u, of work_student] u by auto
qed

section \<open>Where grading and handing in meet\<close>

text \<open>Handing in again takes the grade off the row and leaves what it earned.\<close>

lemma resubmission_keeps_the_points:
  assumes "submission_of s aid (jwt_sub user) = Some y" "submit_text s user aid content url lang i now = (t, Inr x)"
  shows "sb_grade x = None \<and> sb_id x = sb_id y \<and> work_points t x = work_points s y"
proof -
  let ?w = "write_submission (sb_id y) (text_data content lang url now) s"
  have x: "x = text_data content lang url now y" and t: "t = push_submission user aid x ?w"
    using assms by (auto simp: submit_text_def upsert_submission_def split: sum.splits)
  have "cw_points t = cw_points s" "find_assignment t = find_assignment s"
    unfolding t by (simp_all add: push_submission_def find_assignment_def fun_eq_iff split: option.split)
  then show ?thesis by (simp add: x work_points_def work_course_def text_data_def)
qed

text \<open>The total is read before the transaction, so of two gradings that both read first the second
  adds its points to the first's.\<close>

lemma overlapping_grades_add_up:
  assumes ok: "coursework_ok s" and x: "find_submission s i = Some x"
    and r: "grade_read s u i g = Inr r" "grade_read s u' i g' = Inr r'"
  shows "work_points (grade_write up (grade_write up s u i g fb now r) u' i g' fb' now' r') x = g + g' - work_points s x"
proof -
  obtain st c d where p: "r = (st, c, d)" by (cases r)
  obtain st' c' d' where p': "r' = (st', c', d')" by (cases r')
  have "st = sb_studentId x \<and> c = work_course s x \<and> d = g - work_points s x"
    using r(1) unfolding p by (rule grade_readD) (use x in \<open>simp add: work_course_def\<close>)
  moreover have "st' = sb_studentId x \<and> c' = work_course s x \<and> d' = g' - work_points s x"
    using r(2) unfolding p' by (rule grade_readD) (use x in \<open>simp add: work_course_def\<close>)
  ultimately show ?thesis using find_submissionD [OF x] unfolding p p' by (simp add: grade_write_pay pay_points)
qed

text \<open>An upload leaves the language of an earlier text on the row.\<close>

lemma upload_keeps_the_language: "sb_language (upload_data mime now x) = sb_language x"
  by (simp add: upload_data_def)

end
