(* ===== verification/Assessment.thy ===== *)
theory Assessment
  imports Courses Ledger
begin

text \<open>
  The assessment at the end of a class: \<open>src/assessment/assessment.service.ts\<close>, its question and
  task banks, the attempts, the remediation they lead to, and the points. Generated ids and the clock
  are inputs; an omitted DTO field is \<open>None\<close>. The title of the class's section and its end, which views
  carry along, are left out, and students are named by their ids.
\<close>

section \<open>Rows\<close>

record bank_question =
  bq_id :: string
  bq_courseId :: string
  bq_sectionId :: string
  bq_body :: string
  bq_options :: "string list"
  bq_correctIndex :: int
  bq_active :: bool
  bq_createdById :: string
  bq_createdAt :: int

record bank_task =
  bt_id :: string
  bt_courseId :: string
  bt_sectionId :: string
  bt_title :: string
  bt_instructions :: "string option"
  bt_active :: bool
  bt_createdById :: string
  bt_createdAt :: int

record assessment =
  ae_id :: string
  ae_courseId :: string
  ae_sessionId :: string
  ae_sectionId :: "string option"
  ae_questionIds :: "string list"
  ae_released :: bool
  ae_createdAt :: int

record assessment_attempt =
  ak_id :: string
  ak_assessmentId :: string
  ak_studentId :: string
  ak_submittedAt :: "int option"
  ak_score :: "int option"
  ak_total :: "int option"

record assessment_response =
  ar_attemptId :: string
  ar_questionId :: string
  ar_answerIndex :: int
  ar_isCorrect :: bool

datatype remediation_status = PENDING | DONE

record remediation =
  rm_id :: string
  rm_studentId :: string
  rm_taskId :: string
  rm_attemptId :: string
  rm_sectionId :: string
  rm_status :: remediation_status
  rm_createdAt :: int
  rm_completedAt :: "int option"

text \<open>\<open>ay_instant\<close>: the courses' column \<open>instantClassAssessment\<close>, set unless it was changed.\<close>

record assessments =
  ay_db :: db
  ay_instant :: "(string, bool) amap"
  ay_questions :: "bank_question list"
  ay_tasks :: "bank_task list"
  ay_assessments :: "assessment list"
  ay_attempts :: "assessment_attempt list"
  ay_responses :: "assessment_response list"
  ay_remediations :: "remediation list"
  ay_points :: points_state

definition find_assessment :: "assessments \<Rightarrow> string \<Rightarrow> assessment option" where
  "find_assessment s i = find (\<lambda>a. ae_id a = i) (ay_assessments s)"

text \<open>\<open>orderBy sectionId, createdAt\<close>; sections are compared by id, the model's parameter \<open>rank\<close>.\<close>

definition bank_order :: "('a \<Rightarrow> int) \<Rightarrow> ('a \<Rightarrow> int) \<Rightarrow> 'a list \<Rightarrow> 'a list" where
  "bank_order rank created xs = sort_key rank (sort_key created xs)"

section \<open>Question bank\<close>

definition assert_section_in_course :: "db \<Rightarrow> string \<Rightarrow> string \<Rightarrow> unit result" where
  "assert_section_in_course d sectionId courseId =
     guard_or (list_ex (\<lambda>e. se_id e = sectionId \<and> se_courseId e = courseId) (db_sections d))
       (NotFound ''Section not found in course'')"

definition assert_correct_index :: "int \<Rightarrow> string list \<Rightarrow> unit result" where
  "assert_correct_index i options =
     (if i \<ge> int (length options) then Inl (BadRequest ''correctIndex is out of range for options'') else Inr ())"

definition list_questions :: "(string \<Rightarrow> int) \<Rightarrow> assessments \<Rightarrow> jwt_payload \<Rightarrow> string \<Rightarrow> bank_question list result" where
  "list_questions rank s user courseId =
     rbind (assert_can_manage_course (ay_db s) user courseId) (\<lambda>_.
       Inr (bank_order (\<lambda>q. rank (bq_sectionId q)) bq_createdAt
         (filter (\<lambda>q. bq_courseId q = courseId \<and> bq_active q) (ay_questions s))))"

definition bank_row ::
  "jwt_payload \<Rightarrow> string \<Rightarrow> string \<Rightarrow> string \<Rightarrow> int \<Rightarrow> string \<times> string list \<times> int \<Rightarrow> bank_question"
where
  "bank_row user courseId sectionId i now item =
     (case item of (body, options, k) \<Rightarrow>
        \<lparr>bq_id = i, bq_courseId = courseId, bq_sectionId = sectionId, bq_body = body, bq_options = options,
         bq_correctIndex = k, bq_active = True, bq_createdById = jwt_sub user, bq_createdAt = now\<rparr>)"

definition create_question ::
  "assessments \<Rightarrow> jwt_payload \<Rightarrow> string \<Rightarrow> string \<Rightarrow> string \<times> string list \<times> int \<Rightarrow> string \<Rightarrow> int
    \<Rightarrow> assessments \<times> bank_question result"
where
  "create_question s user courseId sectionId item i now =
     (case rbind (assert_can_manage_course (ay_db s) user courseId) (\<lambda>_.
            rbind (assert_section_in_course (ay_db s) sectionId courseId) (\<lambda>_.
            assert_correct_index (snd (snd item)) (fst (snd item)))) of
        Inl e \<Rightarrow> (s, Inl e)
      | Inr _ \<Rightarrow>
          let q = bank_row user courseId sectionId i now item
          in (s\<lparr>ay_questions := ay_questions s @ [q]\<rparr>, Inr q))"

definition course_question :: "assessments \<Rightarrow> string \<Rightarrow> string \<Rightarrow> bank_question option" where
  "course_question s courseId i = find (\<lambda>q. bq_id q = i \<and> bq_courseId q = courseId) (ay_questions s)"

definition set_question :: "string \<Rightarrow> (bank_question \<Rightarrow> bank_question) \<Rightarrow> assessments \<Rightarrow> assessments" where
  "set_question i f s = s\<lparr>ay_questions := map (\<lambda>q. if bq_id q = i then f q else q) (ay_questions s)\<rparr>"

definition set_or :: "'a option \<Rightarrow> 'a \<Rightarrow> 'a" where
  "set_or x old = (case x of None \<Rightarrow> old | Some v \<Rightarrow> v)"

definition update_question ::
  "assessments \<Rightarrow> jwt_payload \<Rightarrow> string \<Rightarrow> string \<Rightarrow> string option \<Rightarrow> string list option \<Rightarrow> int option \<Rightarrow> bool option
    \<Rightarrow> assessments \<times> unit result"
where
  "update_question s user courseId i body options k active =
     (case rbind (assert_can_manage_course (ay_db s) user courseId) (\<lambda>_.
            rbind (from_option (NotFound ''Question not found'') (course_question s courseId i)) (\<lambda>q.
            assert_correct_index (set_or k (bq_correctIndex q)) (set_or options (bq_options q)))) of
        Inl e \<Rightarrow> (s, Inl e)
      | Inr _ \<Rightarrow>
          (set_question i (\<lambda>q. q\<lparr>bq_body := set_or body (bq_body q), bq_options := set_or options (bq_options q),
             bq_correctIndex := set_or k (bq_correctIndex q), bq_active := set_or active (bq_active q)\<rparr>) s, Inr ()))"

definition delete_question :: "assessments \<Rightarrow> jwt_payload \<Rightarrow> string \<Rightarrow> string \<Rightarrow> assessments \<times> unit result" where
  "delete_question s user courseId i =
     (case rbind (assert_can_manage_course (ay_db s) user courseId) (\<lambda>_.
            from_option (NotFound ''Question not found'') (course_question s courseId i)) of
        Inl e \<Rightarrow> (s, Inl e)
      | Inr _ \<Rightarrow> (set_question i (\<lambda>q. q\<lparr>bq_active := False\<rparr>) s, Inr ()))"

text \<open>\<open>for (const q of items) assertCorrectIndex\<close>: the first that is out of range throws.\<close>

fun all_in_range :: "(string \<times> string list \<times> int) list \<Rightarrow> unit result" where
  "all_in_range [] = Inr ()"
| "all_in_range ((body, options, k) # items) = rbind (assert_correct_index k options) (\<lambda>_. all_in_range items)"

definition create_questions_batch ::
  "assessments \<Rightarrow> jwt_payload \<Rightarrow> string \<Rightarrow> string \<Rightarrow> (string \<times> string list \<times> int) list \<Rightarrow> string list \<Rightarrow> int
    \<Rightarrow> assessments \<times> nat result"
where
  "create_questions_batch s user courseId sectionId items ids now =
     (case rbind (assert_can_manage_course (ay_db s) user courseId) (\<lambda>_.
            rbind (assert_section_in_course (ay_db s) sectionId courseId) (\<lambda>_. all_in_range items)) of
        Inl e \<Rightarrow> (s, Inl e)
      | Inr _ \<Rightarrow>
          (s\<lparr>ay_questions := ay_questions s @ map (\<lambda>(i, item). bank_row user courseId sectionId i now item) (zip ids items)\<rparr>,
           Inr (length items)))"

section \<open>Task bank\<close>

definition list_tasks :: "(string \<Rightarrow> int) \<Rightarrow> assessments \<Rightarrow> jwt_payload \<Rightarrow> string \<Rightarrow> bank_task list result" where
  "list_tasks rank s user courseId =
     rbind (assert_can_manage_course (ay_db s) user courseId) (\<lambda>_.
       Inr (bank_order (\<lambda>t. rank (bt_sectionId t)) bt_createdAt
         (filter (\<lambda>t. bt_courseId t = courseId \<and> bt_active t) (ay_tasks s))))"

definition task_row :: "jwt_payload \<Rightarrow> string \<Rightarrow> string \<Rightarrow> string \<Rightarrow> int \<Rightarrow> string \<times> string option \<Rightarrow> bank_task" where
  "task_row user courseId sectionId i now item =
     (case item of (title, instructions) \<Rightarrow>
        \<lparr>bt_id = i, bt_courseId = courseId, bt_sectionId = sectionId, bt_title = title, bt_instructions = instructions,
         bt_active = True, bt_createdById = jwt_sub user, bt_createdAt = now\<rparr>)"

definition create_task ::
  "assessments \<Rightarrow> jwt_payload \<Rightarrow> string \<Rightarrow> string \<Rightarrow> string \<times> string option \<Rightarrow> string \<Rightarrow> int \<Rightarrow> assessments \<times> bank_task result"
where
  "create_task s user courseId sectionId item i now =
     (case rbind (assert_can_manage_course (ay_db s) user courseId) (\<lambda>_.
            assert_section_in_course (ay_db s) sectionId courseId) of
        Inl e \<Rightarrow> (s, Inl e)
      | Inr _ \<Rightarrow> let t = task_row user courseId sectionId i now item in (s\<lparr>ay_tasks := ay_tasks s @ [t]\<rparr>, Inr t))"

definition create_tasks_batch ::
  "assessments \<Rightarrow> jwt_payload \<Rightarrow> string \<Rightarrow> string \<Rightarrow> (string \<times> string option) list \<Rightarrow> string list \<Rightarrow> int
    \<Rightarrow> assessments \<times> nat result"
where
  "create_tasks_batch s user courseId sectionId items ids now =
     (case rbind (assert_can_manage_course (ay_db s) user courseId) (\<lambda>_.
            assert_section_in_course (ay_db s) sectionId courseId) of
        Inl e \<Rightarrow> (s, Inl e)
      | Inr _ \<Rightarrow>
          (s\<lparr>ay_tasks := ay_tasks s @ map (\<lambda>(i, item). task_row user courseId sectionId i now item) (zip ids items)\<rparr>,
           Inr (length items)))"

definition course_task :: "assessments \<Rightarrow> string \<Rightarrow> string \<Rightarrow> bank_task option" where
  "course_task s courseId i = find (\<lambda>t. bt_id t = i \<and> bt_courseId t = courseId) (ay_tasks s)"

definition set_task :: "string \<Rightarrow> (bank_task \<Rightarrow> bank_task) \<Rightarrow> assessments \<Rightarrow> assessments" where
  "set_task i f s = s\<lparr>ay_tasks := map (\<lambda>t. if bt_id t = i then f t else t) (ay_tasks s)\<rparr>"

definition change_task ::
  "assessments \<Rightarrow> jwt_payload \<Rightarrow> string \<Rightarrow> string \<Rightarrow> (bank_task \<Rightarrow> bank_task) \<Rightarrow> assessments \<times> unit result"
where
  "change_task s user courseId i f =
     (case rbind (assert_can_manage_course (ay_db s) user courseId) (\<lambda>_.
            from_option (NotFound ''Task not found'') (course_task s courseId i)) of
        Inl e \<Rightarrow> (s, Inl e)
      | Inr _ \<Rightarrow> (set_task i f s, Inr ()))"

definition update_task ::
  "assessments \<Rightarrow> jwt_payload \<Rightarrow> string \<Rightarrow> string \<Rightarrow> string option \<Rightarrow> string option \<Rightarrow> bool option \<Rightarrow> assessments \<times> unit result"
where
  "update_task s user courseId i title instructions active =
     change_task s user courseId i (\<lambda>t. t\<lparr>bt_title := set_or title (bt_title t),
       bt_instructions := (case instructions of None \<Rightarrow> bt_instructions t | Some x \<Rightarrow> Some x),
       bt_active := set_or active (bt_active t)\<rparr>)"

definition delete_task :: "assessments \<Rightarrow> jwt_payload \<Rightarrow> string \<Rightarrow> string \<Rightarrow> assessments \<times> unit result" where
  "delete_task s user courseId i = change_task s user courseId i (\<lambda>t. t\<lparr>bt_active := False\<rparr>)"

section \<open>Making and releasing\<close>

definition max_questions :: nat where "max_questions = 20"

definition bank_for :: "assessments \<Rightarrow> string \<Rightarrow> string option \<Rightarrow> string list" where
  "bank_for s courseId sectionId =
     map bq_id (take max_questions (sort_key bq_createdAt (filter (\<lambda>q. bq_courseId q = courseId \<and> bq_active q \<and>
       (case sectionId of None \<Rightarrow> True | Some e \<Rightarrow> e = [] \<or> bq_sectionId q = e)) (ay_questions s))))"

definition create_for_session ::
  "assessments \<Rightarrow> string \<Rightarrow> string \<Rightarrow> string option \<Rightarrow> bool \<Rightarrow> string \<Rightarrow> int \<Rightarrow> assessments \<times> string option"
where
  "create_for_session s sessionId courseId sectionId released i now =
     (case find (\<lambda>a. ae_sessionId a = sessionId) (ay_assessments s) of
        Some a \<Rightarrow> (s, Some (ae_id a))
      | None \<Rightarrow>
          let ids = bank_for s courseId sectionId
          in if ids = [] then (s, None)
             else (s\<lparr>ay_assessments := ay_assessments s @ [\<lparr>ae_id = i, ae_courseId = courseId, ae_sessionId = sessionId,
                      ae_sectionId = sectionId, ae_questionIds = ids, ae_released = released, ae_createdAt = now\<rparr>]\<rparr>,
                   Some i))"

definition instant_of :: "assessments \<Rightarrow> string \<Rightarrow> bool" where
  "instant_of s courseId = (case map_of (ay_instant s) courseId of None \<Rightarrow> True | Some b \<Rightarrow> b)"

definition get_settings :: "assessments \<Rightarrow> jwt_payload \<Rightarrow> string \<Rightarrow> bool result" where
  "get_settings s user courseId =
     rbind (assert_can_manage_course (ay_db s) user courseId) (\<lambda>_. Inr (instant_of s courseId))"

definition set_instant_assessment :: "assessments \<Rightarrow> jwt_payload \<Rightarrow> string \<Rightarrow> bool \<Rightarrow> assessments \<times> bool result" where
  "set_instant_assessment s user courseId instant =
     (case assert_can_manage_course (ay_db s) user courseId of
        Inl e \<Rightarrow> (s, Inl e)
      | Inr _ \<Rightarrow> (s\<lparr>ay_instant := aput courseId instant (ay_instant s)\<rparr>, Inr instant))"

definition list_held :: "assessments \<Rightarrow> jwt_payload \<Rightarrow> string \<Rightarrow> (string \<times> int \<times> nat) list result" where
  "list_held s user courseId =
     rbind (assert_can_manage_course (ay_db s) user courseId) (\<lambda>_.
       Inr (map (\<lambda>a. (ae_id a, ae_createdAt a, length (ae_questionIds a)))
         (sort_key (\<lambda>a. - ae_createdAt a) (filter (\<lambda>a. ae_courseId a = courseId \<and> \<not> ae_released a) (ay_assessments s)))))"

definition release :: "assessments \<Rightarrow> jwt_payload \<Rightarrow> string \<Rightarrow> assessments \<times> unit result" where
  "release s user i =
     (case find_assessment s i of
        None \<Rightarrow> (s, Inl (NotFound ''Assessment not found''))
      | Some a \<Rightarrow>
          (case assert_can_manage_course (ay_db s) user (ae_courseId a) of
             Inl e \<Rightarrow> (s, Inl e)
           | Inr _ \<Rightarrow>
               if ae_released a then (s, Inr ())
               else (s\<lparr>ay_assessments := map (\<lambda>x. if ae_id x = i then x\<lparr>ae_released := True\<rparr> else x) (ay_assessments s)\<rparr>, Inr ())))"

section \<open>The student's view\<close>

definition assert_taking :: "db \<Rightarrow> string \<Rightarrow> string \<Rightarrow> unit result" where
  "assert_taking d student courseId = guard_or (enrolled d courseId student) (Forbidden ''Not enrolled in this program'')"

definition attempt_of :: "assessments \<Rightarrow> string \<Rightarrow> string \<Rightarrow> assessment_attempt option" where
  "attempt_of s i student = find (\<lambda>k. ak_assessmentId k = i \<and> ak_studentId k = student) (ay_attempts s)"

record quiz_card =
  qc_id :: string
  qc_createdAt :: int
  qc_questionCount :: nat
  qc_attempt :: "(int option \<times> int option \<times> int option) option"

definition list_mine :: "assessments \<Rightarrow> jwt_payload \<Rightarrow> string \<Rightarrow> quiz_card list result" where
  "list_mine s user courseId =
     rbind (assert_taking (ay_db s) (jwt_sub user) courseId) (\<lambda>_.
       Inr (map (\<lambda>a. \<lparr>qc_id = ae_id a, qc_createdAt = ae_createdAt a, qc_questionCount = length (ae_questionIds a),
              qc_attempt = map_option (\<lambda>k. (ak_submittedAt k, ak_score k, ak_total k)) (attempt_of s (ae_id a) (jwt_sub user))\<rparr>)
            (sort_key (\<lambda>a. - ae_createdAt a) (filter (\<lambda>a. ae_courseId a = courseId \<and> ae_released a) (ay_assessments s)))))"

text \<open>The key and the student's answer are there once the attempt is in.\<close>

record shown_question =
  sq_id :: string
  sq_body :: string
  sq_options :: "string list"
  sq_key :: "(int \<times> int option) option"

record quiz_paper =
  qp_id :: string
  qp_submitted :: bool
  qp_score :: "int option"
  qp_total :: "int option"
  qp_questions :: "shown_question list"

definition question_by_id :: "assessments \<Rightarrow> string \<Rightarrow> bank_question option" where
  "question_by_id s i = find (\<lambda>q. bq_id q = i) (ay_questions s)"

definition responses_of :: "assessments \<Rightarrow> string \<Rightarrow> assessment_response list" where
  "responses_of s k = filter (\<lambda>r. ar_attemptId r = k) (ay_responses s)"

definition answer_in :: "assessment_response list \<Rightarrow> string \<Rightarrow> int option" where
  "answer_in rs i = map_of (rev (map (\<lambda>r. (ar_questionId r, ar_answerIndex r)) rs)) i"

definition open_assessment :: "assessments \<Rightarrow> jwt_payload \<Rightarrow> string \<Rightarrow> assessment result" where
  "open_assessment s user i =
     (case find_assessment s i of
        None \<Rightarrow> Inl (NotFound ''Assessment not found'')
      | Some a \<Rightarrow>
          if \<not> ae_released a then Inl (NotFound ''Assessment not found'')
          else rbind (assert_taking (ay_db s) (jwt_sub user) (ae_courseId a)) (\<lambda>_. Inr a))"

definition get_for_student :: "assessments \<Rightarrow> jwt_payload \<Rightarrow> string \<Rightarrow> quiz_paper result" where
  "get_for_student s user i =
     rbind (open_assessment s user i) (\<lambda>a.
       let ordered = List.map_filter (question_by_id s) (ae_questionIds a);
           mine = attempt_of s i (jwt_sub user);
           submitted = (Option.bind mine ak_submittedAt \<noteq> None);
           responses = (if submitted then responses_of s (ak_id (the mine)) else [])
       in Inr \<lparr>qp_id = ae_id a, qp_submitted = submitted, qp_score = Option.bind mine ak_score,
               qp_total = Option.bind mine ak_total,
               qp_questions = map (\<lambda>q. \<lparr>sq_id = bq_id q, sq_body = bq_body q, sq_options = bq_options q,
                 sq_key = (if submitted then Some (bq_correctIndex q, answer_in responses (bq_id q)) else None)\<rparr>) ordered\<rparr>)"

section \<open>Marking\<close>

text \<open>Answers to the assessment's own questions; the last answer to a question counts.\<close>

definition last_answers :: "string list \<Rightarrow> (string \<times> int) list \<Rightarrow> (string, int) amap" where
  "last_answers ids answers = foldl (\<lambda>m (i, n). if i \<in> set ids then aput i n m else m) [] answers"

record marking =
  mk_responses :: "(string \<times> int \<times> bool) list"
  mk_wrong :: "string list"
  mk_score :: nat

definition mark_question :: "(string, int) amap \<Rightarrow> marking \<Rightarrow> bank_question \<Rightarrow> marking" where
  "mark_question chosen m q =
     (case map_of chosen (bq_id q) of
        None \<Rightarrow> m\<lparr>mk_wrong := List.insert (bq_sectionId q) (mk_wrong m)\<rparr>
      | Some n \<Rightarrow>
          let isCorrect = (n = bq_correctIndex q);
              m' = (if isCorrect then m\<lparr>mk_score := mk_score m + 1\<rparr>
                    else m\<lparr>mk_wrong := List.insert (bq_sectionId q) (mk_wrong m)\<rparr>)
          in m'\<lparr>mk_responses := mk_responses m' @ [(bq_id q, n, isCorrect)]\<rparr>)"

definition mark_all :: "bank_question list \<Rightarrow> (string, int) amap \<Rightarrow> marking" where
  "mark_all qs chosen = foldl (mark_question chosen) \<lparr>mk_responses = [], mk_wrong = [], mk_score = 0\<rparr> qs"

definition asked :: "assessments \<Rightarrow> assessment \<Rightarrow> bank_question list" where
  "asked s a = filter (\<lambda>q. bq_id q \<in> set (ae_questionIds a)) (ay_questions s)"

text \<open>What \<open>submit\<close> reads before its transaction.\<close>

definition submit_read ::
  "assessments \<Rightarrow> jwt_payload \<Rightarrow> string \<Rightarrow> (string \<times> int) list \<Rightarrow> (assessment \<times> marking \<times> nat) result"
where
  "submit_read s user i answers =
     rbind (open_assessment s user i) (\<lambda>a.
     rbind (guard_or (Option.bind (attempt_of s i (jwt_sub user)) ak_submittedAt = None)
       (Forbidden ''You have already submitted this assessment'')) (\<lambda>_.
       let qs = asked s a in Inr (a, mark_all qs (last_answers (map bq_id qs) answers), length qs)))"

definition upsert_attempt ::
  "string \<Rightarrow> string \<Rightarrow> string \<Rightarrow> int \<Rightarrow> int \<Rightarrow> int \<Rightarrow> assessments \<Rightarrow> assessments \<times> string"
where
  "upsert_attempt assessmentId student i now score num s =
     (case attempt_of s assessmentId student of
        Some k \<Rightarrow>
          (s\<lparr>ay_attempts := map (\<lambda>x. if ak_id x = ak_id k
               then x\<lparr>ak_submittedAt := Some now, ak_score := Some score, ak_total := Some num\<rparr> else x) (ay_attempts s)\<rparr>,
           ak_id k)
      | None \<Rightarrow>
          (s\<lparr>ay_attempts := ay_attempts s @ [\<lparr>ak_id = i, ak_assessmentId = assessmentId, ak_studentId = student,
               ak_submittedAt = Some now, ak_score = Some score, ak_total = Some num\<rparr>]\<rparr>, i))"

definition response_rows :: "string \<Rightarrow> (string \<times> int \<times> bool) list \<Rightarrow> assessment_response list" where
  "response_rows k rs =
     map (\<lambda>(q, n, c). \<lparr>ar_attemptId = k, ar_questionId = q, ar_answerIndex = n, ar_isCorrect = c\<rparr>) rs"

definition response_key :: "assessment_response \<Rightarrow> string \<times> string" where
  "response_key r = (ar_attemptId r, ar_questionId r)"

definition quiz_entry :: "string \<Rightarrow> string \<Rightarrow> string \<Rightarrow> int \<Rightarrow> ledger_entry" where
  "quiz_entry k student courseId delta =
     \<lparr>le_studentId = student, le_courseId = courseId, le_delta = delta, le_reason = QUIZ_CORRECT, le_refId = Some k\<rparr>"

text \<open>The transaction; \<open>None\<close> when a response breaks the unique key on attempt and question, which
  rolls everything back.\<close>

definition submit_write ::
  "bool \<Rightarrow> assessments \<Rightarrow> jwt_payload \<Rightarrow> string \<Rightarrow> int \<Rightarrow> assessment \<times> marking \<times> nat \<Rightarrow> (assessments \<times> string) option"
where
  "submit_write up s user i now r =
     (case r of (a, m, num) \<Rightarrow>
        (case upsert_attempt (ae_id a) (jwt_sub user) i now (int (mk_score m)) (int num) s of
           (s1, k) \<Rightarrow>
             let rows = response_rows k (mk_responses m);
                 s2 = s1\<lparr>ay_responses := ay_responses s1 @ rows\<rparr>
             in if list_ex (\<lambda>r. response_key r \<in> response_key ` set (ay_responses s1)) rows then None
                else Some (if mk_score m > 0
                  then s2\<lparr>ay_points := award up (ay_points s2)
                         (quiz_entry k (jwt_sub user) (ae_courseId a) (int (mk_score m) * points_quiz_correct))\<rparr>
                  else s2, k)))"

section \<open>Remediation\<close>

definition missed_tasks :: "assessments \<Rightarrow> string \<Rightarrow> string list \<Rightarrow> bank_task list" where
  "missed_tasks s courseId sectionIds =
     filter (\<lambda>t. bt_courseId t = courseId \<and> bt_active t \<and> bt_sectionId t \<in> set sectionIds) (ay_tasks s)"

definition remediation_row :: "string \<Rightarrow> string \<Rightarrow> int \<Rightarrow> string \<times> bank_task \<Rightarrow> remediation" where
  "remediation_row student k now r =
     (case r of (i, t) \<Rightarrow>
        \<lparr>rm_id = i, rm_studentId = student, rm_taskId = bt_id t, rm_attemptId = k, rm_sectionId = bt_sectionId t,
         rm_status = PENDING, rm_createdAt = now, rm_completedAt = None\<rparr>)"

text \<open>\<open>createMany\<close> with \<open>skipDuplicates\<close> on attempt and task.\<close>

definition route_remediation ::
  "assessments \<Rightarrow> string \<Rightarrow> string \<Rightarrow> string \<Rightarrow> string list \<Rightarrow> string list \<Rightarrow> int \<Rightarrow> assessments \<times> (string \<times> string) list"
where
  "route_remediation s courseId student k sectionIds ids now =
     (if sectionIds = [] then (s, [])
      else
        let tasks = missed_tasks s courseId sectionIds;
            rows = filter (\<lambda>r. \<not> list_ex (\<lambda>x. rm_attemptId x = k \<and> rm_taskId x = rm_taskId r) (ay_remediations s))
              (map (remediation_row student k now) (zip ids tasks))
        in if tasks = [] then (s, [])
           else (s\<lparr>ay_remediations := ay_remediations s @ rows\<rparr>, map (\<lambda>t. (bt_id t, bt_title t)) tasks))"

record quiz_outcome =
  qo_score :: nat
  qo_total :: nat
  qo_assigned :: "(string \<times> string) list"

definition submit_quiz ::
  "bool \<Rightarrow> assessments \<Rightarrow> jwt_payload \<Rightarrow> string \<Rightarrow> (string \<times> int) list \<Rightarrow> string \<Rightarrow> string list \<Rightarrow> int
    \<Rightarrow> assessments \<times> quiz_outcome result"
where
  "submit_quiz up s user i answers k ids now =
     (case submit_read s user i answers of
        Inl e \<Rightarrow> (s, Inl e)
      | Inr (a, m, num) \<Rightarrow>
          (case submit_write up s user k now (a, m, num) of
             None \<Rightarrow> (s, Inl (Internal ''Unique constraint failed''))
           | Some (s1, k') \<Rightarrow>
               (case route_remediation s1 (ae_courseId a) (jwt_sub user) k' (mk_wrong m) ids now of
                  (s2, assigned) \<Rightarrow> (s2, Inr \<lparr>qo_score = mk_score m, qo_total = num, qo_assigned = assigned\<rparr>))))"

definition task_course :: "assessments \<Rightarrow> string \<Rightarrow> string option" where
  "task_course s i = map_option bt_courseId (find (\<lambda>t. bt_id t = i) (ay_tasks s))"

text \<open>\<open>orderBy status asc, createdAt desc\<close>: an enum sorts by its declaration, open tasks first.\<close>

definition list_my_remediation :: "assessments \<Rightarrow> jwt_payload \<Rightarrow> string \<Rightarrow> remediation list result" where
  "list_my_remediation s user courseId =
     rbind (assert_taking (ay_db s) (jwt_sub user) courseId) (\<lambda>_.
       Inr (sort_key (\<lambda>r. if rm_status r = PENDING then 0 else (1 :: nat)) (sort_key (\<lambda>r. - rm_createdAt r)
         (filter (\<lambda>r. rm_studentId r = jwt_sub user \<and> task_course s (rm_taskId r) = Some courseId) (ay_remediations s)))))"

definition mark_remediation_done :: "assessments \<Rightarrow> jwt_payload \<Rightarrow> string \<Rightarrow> int \<Rightarrow> assessments \<times> unit result" where
  "mark_remediation_done s user i now =
     (case find (\<lambda>r. rm_id r = i) (ay_remediations s) of
        None \<Rightarrow> (s, Inl (NotFound ''Remediation not found''))
      | Some r \<Rightarrow>
          if rm_studentId r \<noteq> jwt_sub user then (s, Inl (NotFound ''Remediation not found''))
          else (s\<lparr>ay_remediations := map (\<lambda>x. if rm_id x = i then x\<lparr>rm_status := DONE, rm_completedAt := Some now\<rparr> else x)
                 (ay_remediations s)\<rparr>, Inr ()))"

section \<open>The manager's results\<close>

record quiz_results =
  qr_id :: string
  qr_questionCount :: nat
  qr_enrolledCount :: nat
  qr_attempts :: "(string \<times> int option \<times> int option \<times> int option) list"

definition quiz_results_of :: "assessments \<Rightarrow> jwt_payload \<Rightarrow> string \<Rightarrow> quiz_results result" where
  "quiz_results_of s user i =
     rbind (from_option (NotFound ''Assessment not found'') (find_assessment s i)) (\<lambda>a.
     rbind (assert_can_manage_course (ay_db s) user (ae_courseId a)) (\<lambda>_.
       Inr \<lparr>qr_id = ae_id a, qr_questionCount = length (ae_questionIds a),
            qr_enrolledCount = length (filter (\<lambda>r. en_courseId r = ae_courseId a) (db_enrollments (ay_db s))),
            qr_attempts = map (\<lambda>k. (ak_studentId k, ak_score k, ak_total k, ak_submittedAt k))
              (sort_key (\<lambda>k. - the (ak_submittedAt k))
                (filter (\<lambda>k. ak_assessmentId k = i \<and> ak_submittedAt k \<noteq> None) (ay_attempts s)))\<rparr>))"

definition assert_course_access :: "db \<Rightarrow> jwt_payload \<Rightarrow> string \<Rightarrow> unit result" where
  "assert_course_access d user courseId =
     (if jwt_role user = STUDENT then assert_taking d (jwt_sub user) courseId
      else assert_can_manage_course d user courseId)"

end
