(* ===== verification/AssessmentRuns.thy ===== *)
theory AssessmentRuns
  imports Assessment
begin

text \<open>
  Runs of the assessment service: one marked attempt for each student and assessment, paid what it
  shows, keys hidden until it is in, and remediation for exactly what was missed.
\<close>

section \<open>Marking in closed form\<close>

definition right_answer :: "(string, int) amap \<Rightarrow> bank_question \<Rightarrow> bool" where
  "right_answer chosen q \<longleftrightarrow> map_of chosen (bq_id q) = Some (bq_correctIndex q)"

lemma mark_all_snoc: "mark_all (qs @ [q]) chosen = mark_question chosen (mark_all qs chosen) q"
  by (simp add: mark_all_def)

lemma mark_all_score: "mk_score (mark_all qs chosen) = length (filter (right_answer chosen) qs)"
  by (induction qs rule: rev_induct)
    (auto simp: mark_all_snoc mark_question_def right_answer_def Let_def split: option.split, simp add: mark_all_def)

lemma mark_all_wrong: "set (mk_wrong (mark_all qs chosen)) = bq_sectionId ` {q \<in> set qs. \<not> right_answer chosen q}"
proof (induction qs rule: rev_induct)
  case (snoc q qs)
  then show ?case by (auto simp: mark_all_snoc mark_question_def right_answer_def Let_def split: option.split)
qed (simp add: mark_all_def)

lemma mark_all_responses:
  "mk_responses (mark_all qs chosen) =
     map (\<lambda>q. (bq_id q, the (map_of chosen (bq_id q)), right_answer chosen q)) (filter (\<lambda>q. map_of chosen (bq_id q) \<noteq> None) qs)"
proof (induction qs rule: rev_induct)
  case (snoc q qs)
  then show ?case by (auto simp: mark_all_snoc mark_question_def right_answer_def Let_def split: option.split)
qed (simp add: mark_all_def)

text \<open>The loop's score is the number of right responses it records.\<close>

lemma mark_all_consistent: "mk_score (mark_all qs chosen) = length (filter (\<lambda>(q, n, c). c) (mk_responses (mark_all qs chosen)))"
  unfolding mark_all_score mark_all_responses
  by (simp add: filter_map o_def) (rule arg_cong [where f = length], rule filter_cong, auto simp: right_answer_def)

lemma mark_all_keys: "distinct (map bq_id qs) \<Longrightarrow> distinct (map fst (mk_responses (mark_all qs chosen)))"
  by (simp add: mark_all_responses o_def distinct_map_filter)

lemma distinct_paired: "distinct (map (\<lambda>r. (k, fst r)) rs) = distinct (map fst rs)"
  by (induction rs) (auto simp: image_iff)

lemma last_answers_lookup:
  "map_of (last_answers ids answers) i = (if i \<in> set ids then map_of (rev answers) i else None)"
proof -
  have "map_of (foldl (\<lambda>m (i, n). if i \<in> set ids then aput i n m else m) m answers) i =
      (if i \<in> set ids then (case map_of (rev answers) i of None \<Rightarrow> map_of m i | Some n \<Rightarrow> Some n) else map_of m i)" for m
    by (induction answers arbitrary: m) (auto simp: aput_lookup map_add_def split: option.splits)
  then show ?thesis by (auto simp: last_answers_def split: option.splits)
qed

section \<open>The tables\<close>

definition quiz_points :: "string \<Rightarrow> string \<Rightarrow> string \<Rightarrow> ledger_entry \<Rightarrow> bool" where
  "quiz_points student courseId k e \<longleftrightarrow>
     le_studentId e = student \<and> le_courseId e = courseId \<and> le_reason e = QUIZ_CORRECT \<and> le_refId e = Some k"

definition right_count :: "assessments \<Rightarrow> string \<Rightarrow> int" where
  "right_count s k = int (length (filter ar_isCorrect (responses_of s k)))"

definition attempt_paid :: "assessments \<Rightarrow> assessment_attempt \<Rightarrow> bool" where
  "attempt_paid s k \<longleftrightarrow>
     ak_submittedAt k \<noteq> None \<and> ak_score k = Some (right_count s (ak_id k)) \<and>
     (\<exists>a. find_assessment s (ak_assessmentId k) = Some a \<and> ae_released a \<and>
        delta_sum (quiz_points (ak_studentId k) (ae_courseId a) (ak_id k)) (ps_ledger (ay_points s)) =
          right_count s (ak_id k) * points_quiz_correct)"

definition attempt_key :: "assessment_attempt \<Rightarrow> string \<times> string" where
  "attempt_key k = (ak_assessmentId k, ak_studentId k)"

definition assessments_ok :: "assessments \<Rightarrow> bool" where
  "assessments_ok s \<longleftrightarrow>
     distinct (map bq_id (ay_questions s)) \<and> distinct (map ae_id (ay_assessments s)) \<and>
     distinct (map ae_sessionId (ay_assessments s)) \<and>
     distinct (map ak_id (ay_attempts s)) \<and> distinct (map attempt_key (ay_attempts s)) \<and>
     distinct (map response_key (ay_responses s)) \<and>
     (\<forall>k \<in> set (ay_attempts s). attempt_paid s k) \<and>
     ar_attemptId ` set (ay_responses s) \<subseteq> ak_id ` set (ay_attempts s) \<and>
     rm_attemptId ` set (ay_remediations s) \<subseteq> ak_id ` set (ay_attempts s)"

lemma attempt_ofD: "attempt_of s i st = Some k \<Longrightarrow> k \<in> set (ay_attempts s) \<and> attempt_key k = (i, st)"
  by (auto simp: attempt_of_def find_Some_iff attempt_key_def)

lemma attempt_of_None: "attempt_of s i st = None \<longleftrightarrow> (i, st) \<notin> attempt_key ` set (ay_attempts s)"
  by (auto simp: attempt_of_def find_None_iff attempt_key_def image_iff)

lemma find_assessmentD: "find_assessment s i = Some a \<Longrightarrow> a \<in> set (ay_assessments s) \<and> ae_id a = i"
  by (auto simp: find_assessment_def find_Some_iff)

text \<open>Nobody who has not submitted has a row.\<close>

lemma ok_no_attempt:
  assumes "assessments_ok s" "Option.bind (attempt_of s i st) ak_submittedAt = None"
  shows "attempt_of s i st = None"
proof (cases "attempt_of s i st")
  case (Some k)
  then have "attempt_paid s k" using attempt_ofD [OF Some] assms(1) by (simp add: assessments_ok_def)
  then show ?thesis using assms(2) Some by (simp add: attempt_paid_def)
qed simp

section \<open>Frames\<close>

text \<open>Assessments are only added and released, the rest of what attempts depend on stays.\<close>

definition keeps_attempts :: "assessments \<Rightarrow> assessments \<Rightarrow> bool" where
  "keeps_attempts s t \<longleftrightarrow>
     ay_attempts t = ay_attempts s \<and> ay_responses t = ay_responses s \<and> ps_ledger (ay_points t) = ps_ledger (ay_points s) \<and>
     (\<forall>i a. find_assessment s i = Some a \<longrightarrow> (\<exists>b. find_assessment t i = Some b \<and> ae_courseId b = ae_courseId a \<and>
        (ae_released a \<longrightarrow> ae_released b)))"

lemma paid_frame: "keeps_attempts s t \<Longrightarrow> attempt_paid s k \<Longrightarrow> attempt_paid t k"
  by (force simp: keeps_attempts_def attempt_paid_def right_count_def responses_of_def)

lemma quiz_frame:
  assumes "assessments_ok s" "keeps_attempts s t" "distinct (map bq_id (ay_questions t))" "distinct (map ae_id (ay_assessments t))"
    "distinct (map ae_sessionId (ay_assessments t))" "rm_attemptId ` set (ay_remediations t) \<subseteq> ak_id ` set (ay_attempts s)"
  shows "assessments_ok t"
proof -
  have "\<forall>k \<in> set (ay_attempts t). attempt_paid t k"
    using assms(1,2) paid_frame [OF assms(2)] by (auto simp: assessments_ok_def keeps_attempts_def)
  then show ?thesis using assms by (simp add: assessments_ok_def keeps_attempts_def)
qed

text \<open>A change of the banks or the settings alone.\<close>

lemma ok_banks:
  assumes "assessments_ok s" "ay_attempts t = ay_attempts s" "ay_responses t = ay_responses s" "ay_points t = ay_points s"
    "ay_assessments t = ay_assessments s" "ay_remediations t = ay_remediations s" "distinct (map bq_id (ay_questions t))"
  shows "assessments_ok t"
  by (rule quiz_frame [of s]) (use assms in \<open>simp_all add: keeps_attempts_def find_assessment_def assessments_ok_def\<close>)

lemma set_question_ids: "(\<And>q. bq_id (f q) = bq_id q) \<Longrightarrow> map bq_id (ay_questions (set_question i f s)) = map bq_id (ay_questions s)"
  by (auto simp: set_question_def)

lemma set_question_same [simp]:
  "ay_attempts (set_question i f s) = ay_attempts s" "ay_responses (set_question i f s) = ay_responses s"
  "ay_points (set_question i f s) = ay_points s" "ay_assessments (set_question i f s) = ay_assessments s"
  "ay_remediations (set_question i f s) = ay_remediations s"
  by (simp_all add: set_question_def)

section \<open>Submitting\<close>

lemma submit_readD:
  assumes "submit_read s user i answers = Inr (a, m, num)"
  shows "find_assessment s i = Some a" "ae_released a" "Option.bind (attempt_of s i (jwt_sub user)) ak_submittedAt = None"
    "enrolled (ay_db s) (ae_courseId a) (jwt_sub user)"
    "m = mark_all (asked s a) (last_answers (map bq_id (asked s a)) answers)" "num = length (asked s a)"
  using assms by (auto simp: submit_read_def open_assessment_def assert_taking_def res Let_def split: option.splits if_splits)

definition submitted_state :: "bool \<Rightarrow> assessments \<Rightarrow> jwt_payload \<Rightarrow> string \<Rightarrow> int \<Rightarrow> assessment \<Rightarrow> marking \<Rightarrow> nat \<Rightarrow> assessments" where
  "submitted_state up s user k now a m num =
     s\<lparr>ay_attempts := ay_attempts s @ [\<lparr>ak_id = k, ak_assessmentId = ae_id a, ak_studentId = jwt_sub user,
          ak_submittedAt = Some now, ak_score = Some (int (mk_score m)), ak_total = Some (int num)\<rparr>],
       ay_responses := ay_responses s @ response_rows k (mk_responses m),
       ay_points := (if mk_score m > 0
         then award up (ay_points s) (quiz_entry k (jwt_sub user) (ae_courseId a) (int (mk_score m) * points_quiz_correct))
         else ay_points s)\<rparr>"

lemma submit_write_new:
  assumes "attempt_of s (ae_id a) (jwt_sub user) = None" "submit_write up s user k now (a, m, num) = Some (t, k')"
  shows "t = submitted_state up s user k now a m num" "k' = k"
  using assms by (auto simp: submit_write_def upsert_attempt_def submitted_state_def Let_def split: if_splits)

lemma response_keys: "map response_key (response_rows k rs) = map (\<lambda>r. (k, fst r)) rs"
  by (auto simp: response_rows_def response_key_def)

lemma response_rows_attempt: "ar_attemptId ` set (response_rows k rs) \<subseteq> {k}"
  by (auto simp: response_rows_def)

lemma new_responses:
  assumes "k \<notin> ar_attemptId ` set (ay_responses s)"
  shows "responses_of (submitted_state up s user k now a m num) k' = (if k' = k then response_rows k (mk_responses m) else responses_of s k')"
proof -
  have "filter (\<lambda>r. ar_attemptId r = k) (response_rows k rs) = response_rows k rs" for rs by (simp add: response_rows_def filter_map o_def case_prod_beta)
  moreover have "filter (\<lambda>r. ar_attemptId r = k') (response_rows k rs) = []" if "k' \<noteq> k" for rs
    using that by (auto simp: response_rows_def filter_empty_conv)
  moreover have "filter (\<lambda>r. ar_attemptId r = k) (ay_responses s) = []" using assms by (auto simp: filter_empty_conv)
  ultimately show ?thesis by (simp add: responses_of_def submitted_state_def)
qed

lemma response_rows_right: "length (filter ar_isCorrect (response_rows k rs)) = length (filter (\<lambda>(q, n, c). c) rs)"
  by (induction rs) (auto simp: response_rows_def)

lemma quiz_entry_points: "quiz_points st c k (quiz_entry k' st' c' d) \<longleftrightarrow> st' = st \<and> c' = c \<and> k' = k"
  by (auto simp: quiz_points_def quiz_entry_def)

lemma submitted_points:
  "delta_sum P (ps_ledger (ay_points (submitted_state up s user k now a m num))) =
     delta_sum P (ps_ledger (ay_points s)) +
     (if P (quiz_entry k (jwt_sub user) (ae_courseId a) (int (mk_score m) * points_quiz_correct))
      then int (mk_score m) * points_quiz_correct else 0)"
  by (simp add: submitted_state_def points.paid quiz_entry_def)

lemma submitted_assessments [simp]:
  "find_assessment (submitted_state up s user k now a m num) = find_assessment s"
  "ay_remediations (submitted_state up s user k now a m num) = ay_remediations s"
  "ay_tasks (submitted_state up s user k now a m num) = ay_tasks s"
  by (simp_all add: submitted_state_def find_assessment_def fun_eq_iff)

text \<open>Ids the database generates are new: no row and no ledger entry carries them.\<close>

definition new_attempt_id :: "assessments \<Rightarrow> string \<Rightarrow> bool" where
  "new_attempt_id s k \<longleftrightarrow> k \<notin> ak_id ` set (ay_attempts s) \<and> Some k \<notin> le_refId ` set (ps_ledger (ay_points s))"

lemma asked_distinct: "assessments_ok s \<Longrightarrow> distinct (map bq_id (asked s a))"
  by (simp add: asked_def assessments_ok_def distinct_map_filter)

lemma paid_submitted:
  assumes ok: "assessments_ok s" and k: "new_attempt_id s k" and x: "x \<in> set (ay_attempts s)"
  shows "attempt_paid (submitted_state up s user k now a m num) x"
proof -
  have "ak_id x \<noteq> k" "k \<notin> ar_attemptId ` set (ay_responses s)"
    using k x ok by (auto simp: new_attempt_id_def assessments_ok_def)
  moreover have "attempt_paid s x" using ok x by (simp add: assessments_ok_def)
  ultimately show ?thesis
    by (auto simp: attempt_paid_def right_count_def new_responses submitted_points quiz_entry_points)
qed

lemma ok_submitted:
  assumes ok: "assessments_ok s" and k: "new_attempt_id s k"
    and r: "submit_read s user i answers = Inr (a, m, num)"
  shows "assessments_ok (submitted_state up s user k now a m num)" (is "assessments_ok ?t")
proof -
  note read = submit_readD [OF r]
  have fresh: "k \<notin> ak_id ` set (ay_attempts s)" "k \<notin> ar_attemptId ` set (ay_responses s)"
    using k ok by (auto simp: new_attempt_id_def assessments_ok_def)
  have i: "ae_id a = i" using find_assessmentD [OF read(1)] by simp
  have key: "(i, jwt_sub user) \<notin> attempt_key ` set (ay_attempts s)"
    using ok_no_attempt [OF ok read(3)] by (simp add: attempt_of_None)
  have score: "int (mk_score m) = right_count ?t k"
    unfolding right_count_def new_responses [OF fresh(2)] using mark_all_consistent by (simp add: read(5) response_rows_right)
  have "delta_sum (quiz_points (jwt_sub user) (ae_courseId a) k) (ps_ledger (ay_points s)) = 0"
    using k by (intro delta_sum_none) (force simp: quiz_points_def new_attempt_id_def)
  then have "attempt_paid ?t \<lparr>ak_id = k, ak_assessmentId = ae_id a, ak_studentId = jwt_sub user,
      ak_submittedAt = Some now, ak_score = Some (int (mk_score m)), ak_total = Some (int num)\<rparr>"
    using read(1,2) score i by (simp add: attempt_paid_def submitted_points quiz_entry_points)
  then have "\<forall>x \<in> set (ay_attempts ?t). attempt_paid ?t x"
    using paid_submitted [OF ok k] by (auto simp: submitted_state_def)
  moreover have "distinct (map response_key (response_rows k (mk_responses m)))"
    unfolding response_keys distinct_paired read(5) by (rule mark_all_keys) (rule asked_distinct [OF ok])
  then have "distinct (map response_key (ay_responses s @ response_rows k (mk_responses m)))"
    using ok fresh(2) by (auto simp: assessments_ok_def response_key_def response_rows_def)
  ultimately show ?thesis
    using ok fresh key i response_rows_attempt [of k "mk_responses m"]
    by (auto simp: assessments_ok_def submitted_state_def attempt_key_def)
qed

text \<open>Routing adds remediations of the attempt.\<close>

lemma route_rows:
  assumes "length ids \<ge> length (missed_tasks s c secs)" "k \<notin> rm_attemptId ` set (ay_remediations s)"
  shows "\<exists>rows. fst (route_remediation s c st k secs ids now) = s\<lparr>ay_remediations := ay_remediations s @ rows\<rparr> \<and>
    map rm_taskId rows = map bt_id (missed_tasks s c secs) \<and> (\<forall>r \<in> set rows. rm_attemptId r = k \<and> rm_studentId r = st)"
proof (cases "secs = [] \<or> missed_tasks s c secs = []")
  case True
  then have "missed_tasks s c secs = []" by (auto simp: missed_tasks_def)
  then show ?thesis by (intro exI [of _ "[]"]) (simp add: route_remediation_def Let_def)
next
  case False
  let ?rows = "map (remediation_row st k now) (zip ids (missed_tasks s c secs))"
  have "filter (\<lambda>r. \<not> list_ex (\<lambda>x. rm_attemptId x = k \<and> rm_taskId x = rm_taskId r) (ay_remediations s)) ?rows = ?rows"
    using assms(2) by (intro filter_True) (auto simp: list_ex_iff)
  moreover have "map rm_taskId ?rows = map bt_id (map snd (zip ids (missed_tasks s c secs)))"
    by (simp add: remediation_row_def case_prod_beta o_def)
  moreover have "map snd (zip ids (missed_tasks s c secs)) = missed_tasks s c secs"
    using assms(1) by (simp add: map_snd_zip_take)
  ultimately show ?thesis using False
    by (intro exI [of _ ?rows]) (auto simp: route_remediation_def Let_def remediation_row_def)
qed

lemma ok_remediations:
  "assessments_ok s \<Longrightarrow> rm_attemptId ` set rs \<subseteq> ak_id ` set (ay_attempts s) \<Longrightarrow> assessments_ok (s\<lparr>ay_remediations := rs\<rparr>)"
  by (rule quiz_frame [of s]) (simp_all add: keeps_attempts_def find_assessment_def assessments_ok_def)

text \<open>A submission either changes nothing or is its transaction followed by its routing.\<close>

lemma submit_quiz_cases:
  assumes ok: "assessments_ok s" and k: "new_attempt_id s k"
  obtains (refused) e where "submit_quiz up s user i answers k ids now = (s, Inl e)"
  | (taken) a m num where "submit_read s user i answers = Inr (a, m, num)"
      "fst (submit_quiz up s user i answers k ids now) =
         fst (route_remediation (submitted_state up s user k now a m num) (ae_courseId a) (jwt_sub user) k (mk_wrong m) ids now)"
      "map_sum id qo_score (snd (submit_quiz up s user i answers k ids now)) = Inr (mk_score m)"
proof (cases "submit_read s user i answers")
  case (Inl e)
  then show thesis by (intro refused) (simp add: submit_quiz_def)
next
  case (Inr r)
  obtain a m num where r: "r = (a, m, num)" by (cases r)
  note read = submit_readD [OF Inr [unfolded r]]
  have none: "attempt_of s (ae_id a) (jwt_sub user) = None"
    using ok_no_attempt [OF ok read(3)] find_assessmentD [OF read(1)] by simp
  show thesis
  proof (cases "submit_write up s user k now (a, m, num)")
    case None
    then show thesis using Inr r by (intro refused) (simp add: submit_quiz_def)
  next
    case (Some w)
    obtain t k' where w: "w = (t, k')" by (cases w)
    note new = submit_write_new [OF none Some [unfolded w]]
    show thesis
      by (rule taken [OF Inr [unfolded r]]) (simp_all add: submit_quiz_def Inr r Some w new split: prod.split)
  qed
qed

lemma ok_submit_quiz:
  assumes ok: "assessments_ok s" and k: "new_attempt_id s k" and n: "length (ay_tasks s) \<le> length ids"
  shows "assessments_ok (fst (submit_quiz up s user i answers k ids now))"
  using ok k
proof (cases rule: submit_quiz_cases [where up = up and user = user and i = i and answers = answers and ids = ids and now = now])
  case (refused e)
  then show ?thesis using ok by simp
next
  case (taken a m num)
  let ?t = "submitted_state up s user k now a m num"
  have t: "assessments_ok ?t" by (rule ok_submitted [OF ok k taken(1)])
  have "k \<notin> rm_attemptId ` set (ay_remediations ?t)" using k ok by (auto simp: new_attempt_id_def assessments_ok_def)
  moreover have "length (missed_tasks ?t (ae_courseId a) (mk_wrong m)) \<le> length ids"
    using n length_filter_le [of _ "ay_tasks ?t"] by (simp add: missed_tasks_def) (meson le_trans length_filter_le)
  ultimately obtain rows where rows: "fst (submit_quiz up s user i answers k ids now) = ?t\<lparr>ay_remediations := ay_remediations ?t @ rows\<rparr>"
      "\<forall>r \<in> set rows. rm_attemptId r = k"
    using route_rows [of ?t "ae_courseId a" "mk_wrong m" ids k "jwt_sub user" now] taken(2) by auto
  have "rm_attemptId ` set (ay_remediations ?t @ rows) \<subseteq> ak_id ` set (ay_attempts ?t)"
    using rows(2) ok by (auto simp: submitted_state_def assessments_ok_def)
  then show ?thesis unfolding rows(1) by (rule ok_remediations [OF t])
qed

section \<open>Runs\<close>

text \<open>Other services pay points that do not refer to an attempt, and change the enrolments.\<close>

datatype quiz_op =
    NewQuestion jwt_payload string string "string \<times> string list \<times> int" string int
  | EditQuestion jwt_payload string string "string option" "string list option" "int option" "bool option"
  | DropQuestion jwt_payload string string
  | NewQuestions jwt_payload string string "(string \<times> string list \<times> int) list" "string list" int
  | NewTask jwt_payload string string "string \<times> string option" string int
  | NewTasks jwt_payload string string "(string \<times> string option) list" "string list" int
  | EditTask jwt_payload string string "string option" "string option" "bool option"
  | DropTask jwt_payload string string
  | ClassEnded string string "string option" bool string int
  | SetInstant jwt_payload string bool
  | Release jwt_payload string
  | SubmitQuiz bool jwt_payload string "(string \<times> int) list" string "string list" int
  | TaskDone jwt_payload string int
  | OtherAward bool ledger_entry
  | Enrolments "enrollment_row list"

fun quiz_step :: "assessments \<Rightarrow> quiz_op \<Rightarrow> assessments" where
  "quiz_step s (NewQuestion user c e item i now) =
     (if i \<notin> bq_id ` set (ay_questions s) then fst (create_question s user c e item i now) else s)"
| "quiz_step s (EditQuestion user c i body options k active) = fst (update_question s user c i body options k active)"
| "quiz_step s (DropQuestion user c i) = fst (delete_question s user c i)"
| "quiz_step s (NewQuestions user c e items ids now) =
     (if distinct ids \<and> set ids \<inter> bq_id ` set (ay_questions s) = {} then fst (create_questions_batch s user c e items ids now) else s)"
| "quiz_step s (NewTask user c e item i now) = fst (create_task s user c e item i now)"
| "quiz_step s (NewTasks user c e items ids now) = fst (create_tasks_batch s user c e items ids now)"
| "quiz_step s (EditTask user c i title instructions active) = fst (update_task s user c i title instructions active)"
| "quiz_step s (DropTask user c i) = fst (delete_task s user c i)"
| "quiz_step s (ClassEnded sid c e released i now) =
     (if i \<notin> ae_id ` set (ay_assessments s) then fst (create_for_session s sid c e released i now) else s)"
| "quiz_step s (SetInstant user c b) = fst (set_instant_assessment s user c b)"
| "quiz_step s (Release user i) = fst (release s user i)"
| "quiz_step s (SubmitQuiz up user i answers k ids now) =
     (if new_attempt_id s k \<and> length (ay_tasks s) \<le> length ids then fst (submit_quiz up s user i answers k ids now) else s)"
| "quiz_step s (TaskDone user i now) = fst (mark_remediation_done s user i now)"
| "quiz_step s (OtherAward up e) =
     (if le_refId e \<notin> Some ` ak_id ` set (ay_attempts s) then s\<lparr>ay_points := award up (ay_points s) e\<rparr> else s)"
| "quiz_step s (Enrolments es) = s\<lparr>ay_db := (ay_db s)\<lparr>db_enrollments := es\<rparr>\<rparr>"

lemma ok_class_ended:
  assumes ok: "assessments_ok s" and i: "i \<notin> ae_id ` set (ay_assessments s)"
  shows "assessments_ok (fst (create_for_session s sid c e released i now))"
proof (cases "find (\<lambda>a. ae_sessionId a = sid) (ay_assessments s) = None \<and> bank_for s c e \<noteq> []")
  case True
  let ?t = "fst (create_for_session s sid c e released i now)"
  have "sid \<notin> ae_sessionId ` set (ay_assessments s)" using True by (auto simp: find_None_iff)
  then show ?thesis using True ok i
    by (intro quiz_frame [OF ok])
      (auto simp: keeps_attempts_def create_for_session_def Let_def find_assessment_def find_append assessments_ok_def)
next
  case False
  then have "fst (create_for_session s sid c e released i now) = s"
    by (auto simp: create_for_session_def Let_def split: option.split)
  then show ?thesis using ok by simp
qed

lemma find_assessment_release:
  "find (\<lambda>a. ae_id a = j) (map (\<lambda>x. if ae_id x = i then x\<lparr>ae_released := True\<rparr> else x) as) =
     map_option (\<lambda>x. if ae_id x = i then x\<lparr>ae_released := True\<rparr> else x) (find (\<lambda>a. ae_id a = j) as)"
  by (induction as) auto

lemma ok_release: "assessments_ok s \<Longrightarrow> assessments_ok (fst (release s user i))"
proof -
  assume ok: "assessments_ok s"
  let ?t = "s\<lparr>ay_assessments := map (\<lambda>x. if ae_id x = i then x\<lparr>ae_released := True\<rparr> else x) (ay_assessments s)\<rparr>"
  have ids: "map ae_id (ay_assessments ?t) = map ae_id (ay_assessments s)" "map ae_sessionId (ay_assessments ?t) = map ae_sessionId (ay_assessments s)"
    by auto
  have "keeps_attempts s ?t" by (simp add: keeps_attempts_def find_assessment_def find_assessment_release)
  then have "assessments_ok ?t"
  proof (rule quiz_frame [OF ok])
    show "distinct (map ae_id (ay_assessments ?t))" "distinct (map ae_sessionId (ay_assessments ?t))"
      unfolding ids using ok by (simp_all add: assessments_ok_def)
  qed (use ok in \<open>simp_all add: assessments_ok_def\<close>)
  then show ?thesis using ok by (simp add: release_def split: option.split sum.split)
qed

lemma ok_other_award:
  assumes ok: "assessments_ok s" and e: "le_refId e \<notin> Some ` ak_id ` set (ay_attempts s)"
  shows "assessments_ok (s\<lparr>ay_points := award up (ay_points s) e\<rparr>)"
proof -
  let ?t = "s\<lparr>ay_points := award up (ay_points s) e\<rparr>"
  have "attempt_paid ?t k" if k: "k \<in> set (ay_attempts s)" for k
  proof -
    have "\<not> quiz_points st c (ak_id k) e" for st c using e k by (auto simp: quiz_points_def)
    moreover have "attempt_paid s k" using ok k by (simp add: assessments_ok_def)
    ultimately show ?thesis
      by (auto simp: attempt_paid_def right_count_def responses_of_def find_assessment_def points.untouched)
  qed
  then show ?thesis using ok by (simp add: assessments_ok_def)
qed

lemma bank_ids: "map bq_id (map (\<lambda>(i, item). bank_row user c e i now item) (zip ids items)) = take (length items) ids"
  by (induction items ids rule: list_induct2') (auto simp: bank_row_def)

lemma distinct_map_append:
  "distinct (map f xs) \<Longrightarrow> distinct (map f ys) \<Longrightarrow> f ` set ys \<subseteq> A \<Longrightarrow> A \<inter> f ` set xs = {} \<Longrightarrow> distinct (map f (xs @ ys))"
  by auto

lemma ok_new_questions:
  assumes ok: "assessments_ok s" and ids: "distinct ids" "set ids \<inter> bq_id ` set (ay_questions s) = {}"
  shows "assessments_ok (fst (create_questions_batch s user c e items ids now))"
proof -
  let ?rows = "map (\<lambda>(i, item). bank_row user c e i now item) (zip ids items)"
  have "bq_id ` set ?rows \<subseteq> set ids" using bank_ids [of user c e now ids items] by (metis set_map set_take_subset)
  moreover have "distinct (map bq_id ?rows)" unfolding bank_ids using ids(1) by (rule distinct_take)
  ultimately have "distinct (map bq_id (ay_questions s @ ?rows))"
    using ok ids(2) by (intro distinct_map_append) (simp_all only: assessments_ok_def)
  then have "assessments_ok (s\<lparr>ay_questions := ay_questions s @ ?rows\<rparr>)" by (intro ok_banks [OF ok]) simp_all
  then show ?thesis using ok by (auto simp: create_questions_batch_def split: sum.split)
qed

lemma ok_set_question:
  assumes "assessments_ok s" "\<And>q. bq_id (f q) = bq_id q"
  shows "assessments_ok (set_question i f s)"
  by (rule ok_banks [of s]) (use assms set_question_ids [OF assms(2), of i s] in \<open>simp_all add: assessments_ok_def\<close>)

lemma ok_tasks: "assessments_ok s \<Longrightarrow> assessments_ok (s\<lparr>ay_tasks := ts\<rparr>)"
  by (rule ok_banks [of s]) (simp_all add: assessments_ok_def)

lemma ok_question_ops:
  "assessments_ok s \<Longrightarrow> i \<notin> bq_id ` set (ay_questions s) \<Longrightarrow> assessments_ok (fst (create_question s user c e item i now))"
  "assessments_ok s \<Longrightarrow> assessments_ok (fst (update_question s user c i body options k active))"
  "assessments_ok s \<Longrightarrow> assessments_ok (fst (delete_question s user c i))"
proof -
  assume ok: "assessments_ok s"
  show "assessments_ok (fst (update_question s user c i body options k active))"
    using ok by (auto simp: update_question_def ok_set_question split: sum.split)
  show "assessments_ok (fst (delete_question s user c i))"
    using ok by (auto simp: delete_question_def ok_set_question split: sum.split)
  assume i: "i \<notin> bq_id ` set (ay_questions s)"
  have "assessments_ok (s\<lparr>ay_questions := ay_questions s @ [bank_row user c e i now item]\<rparr>)"
    using ok i by (intro ok_banks [OF ok]) (simp_all add: assessments_ok_def bank_row_def case_prod_beta)
  then show "assessments_ok (fst (create_question s user c e item i now))"
    using ok by (auto simp: create_question_def Let_def split: sum.split)
qed

lemma ok_task_ops:
  assumes "assessments_ok s"
  shows "assessments_ok (fst (create_task s user c e item' i now))" "assessments_ok (fst (create_tasks_batch s user c e items ids now))"
    "assessments_ok (fst (change_task s user c i f))"
  using assms by (auto simp: create_task_def create_tasks_batch_def change_task_def set_task_def Let_def ok_tasks split: sum.split)

lemma ok_task_done:
  assumes ok: "assessments_ok s"
  shows "assessments_ok (fst (mark_remediation_done s user i now))"
proof -
  have "assessments_ok (s\<lparr>ay_remediations := map (\<lambda>x. if rm_id x = i then x\<lparr>rm_status := DONE, rm_completedAt := Some now\<rparr> else x)
      (ay_remediations s)\<rparr>)"
    using ok by (intro ok_remediations) (auto simp: assessments_ok_def)
  then show ?thesis using ok by (simp add: mark_remediation_done_def split: option.split)
qed

lemma ok_settings: "assessments_ok s \<Longrightarrow> assessments_ok (fst (set_instant_assessment s user c b))"
  using ok_banks [of s "s\<lparr>ay_instant := aput c b (ay_instant s)\<rparr>"]
  by (simp add: set_instant_assessment_def assessments_ok_def split: sum.split)

lemma ok_enrolments: "assessments_ok s \<Longrightarrow> assessments_ok (s\<lparr>ay_db := d\<rparr>)"
  by (rule ok_banks [of s]) (simp_all add: assessments_ok_def)

interpretation quiz_run: invariant_system quiz_step assessments_ok
proof unfold_locales
  fix s op
  assume "assessments_ok s"
  then show "assessments_ok (quiz_step s op)"
    by (cases op) (simp_all add: ok_question_ops ok_task_ops ok_new_questions ok_class_ended ok_release ok_submit_quiz
        ok_task_done ok_settings ok_other_award ok_enrolments update_task_def delete_task_def)
qed

definition no_assessments :: "assessments \<Rightarrow> bool" where
  "no_assessments s \<longleftrightarrow> ay_questions s = [] \<and> ay_assessments s = [] \<and> ay_attempts s = [] \<and> ay_responses s = [] \<and> ay_remediations s = []"

lemma quiz_runs_ok: "no_assessments s \<Longrightarrow> assessments_ok (foldl quiz_step s ops)"
  by (rule quiz_run.inv_run) (simp add: no_assessments_def assessments_ok_def)

section \<open>Keys\<close>

text \<open>The same tables with other keys.\<close>

definition rekey :: "(string \<Rightarrow> int) \<Rightarrow> assessments \<Rightarrow> assessments" where
  "rekey f s = s\<lparr>ay_questions := map (\<lambda>q. q\<lparr>bq_correctIndex := f (bq_id q)\<rparr>) (ay_questions s)\<rparr>"

lemma rekey_same [simp]:
  "ay_db (rekey f s) = ay_db s" "ay_assessments (rekey f s) = ay_assessments s" "find_assessment (rekey f s) = find_assessment s"
  "attempt_of (rekey f s) = attempt_of s" "open_assessment (rekey f s) = open_assessment s" "responses_of (rekey f s) = responses_of s"
  by (simp_all add: rekey_def find_assessment_def attempt_of_def open_assessment_def responses_of_def fun_eq_iff
      split: option.split)

lemma rekey_question: "question_by_id (rekey f s) i = map_option (\<lambda>q. q\<lparr>bq_correctIndex := f (bq_id q)\<rparr>) (question_by_id s i)"
proof -
  have "find (\<lambda>q. bq_id q = i) (map (\<lambda>q. q\<lparr>bq_correctIndex := f (bq_id q)\<rparr>) qs) =
      map_option (\<lambda>q. q\<lparr>bq_correctIndex := f (bq_id q)\<rparr>) (find (\<lambda>q. bq_id q = i) qs)" for qs
    by (induction qs) auto
  then show ?thesis by (simp add: question_by_id_def rekey_def)
qed

lemma map_map_filter: "map g (List.map_filter f xs) = List.map_filter (\<lambda>x. map_option g (f x)) xs"
  by (induction xs) (auto simp: List.map_filter_simps split: option.split)

lemma map_filter_rekey:
  "(\<And>q k. g (q\<lparr>bq_correctIndex := k\<rparr>) = g q) \<Longrightarrow>
    map g (List.map_filter (question_by_id (rekey f s)) is) = map g (List.map_filter (question_by_id s) is)"
  by (simp add: map_map_filter rekey_question option.map_comp o_def)

lemma hidden_paper:
  assumes "Option.bind (attempt_of s i (jwt_sub user)) ak_submittedAt = None"
  shows "get_for_student (rekey f s) user i = get_for_student s user i"
proof (cases "open_assessment s user i")
  case (Inr a)
  have "map (\<lambda>q. \<lparr>sq_id = bq_id q, sq_body = bq_body q, sq_options = bq_options q, sq_key = None\<rparr>)
        (List.map_filter (question_by_id (rekey f s)) (ae_questionIds a)) =
      map (\<lambda>q. \<lparr>sq_id = bq_id q, sq_body = bq_body q, sq_options = bq_options q, sq_key = None\<rparr>)
        (List.map_filter (question_by_id s) (ae_questionIds a))"
    by (rule map_filter_rekey) simp
  then show ?thesis using assms Inr by (simp add: get_for_student_def Let_def)
qed (simp add: get_for_student_def)

section \<open>What was missed\<close>

lemma marking_closed:
  assumes m: "m = mark_all (asked s a) (last_answers (map bq_id (asked s a)) answers)"
  shows "mk_score m = length (filter (\<lambda>q. map_of (rev answers) (bq_id q) = Some (bq_correctIndex q)) (asked s a))"
    and "set (missed_tasks u c (mk_wrong m)) = {w \<in> set (ay_tasks u). bt_courseId w = c \<and> bt_active w \<and>
      (\<exists>q \<in> set (asked s a). map_of (rev answers) (bq_id q) \<noteq> Some (bq_correctIndex q) \<and> bq_sectionId q = bt_sectionId w)}"
proof -
  have right: "right_answer (last_answers (map bq_id (asked s a)) answers) q \<longleftrightarrow>
      map_of (rev answers) (bq_id q) = Some (bq_correctIndex q)" if "q \<in> set (asked s a)" for q
    using that by (simp add: right_answer_def last_answers_lookup)
  then show "mk_score m = length (filter (\<lambda>q. map_of (rev answers) (bq_id q) = Some (bq_correctIndex q)) (asked s a))"
    by (simp add: m mark_all_score cong: filter_cong)
  have "set (mk_wrong m) = {bq_sectionId q |q. q \<in> set (asked s a) \<and> map_of (rev answers) (bq_id q) \<noteq> Some (bq_correctIndex q)}"
    unfolding m mark_all_wrong using right by auto
  then show "set (missed_tasks u c (mk_wrong m)) = {w \<in> set (ay_tasks u). bt_courseId w = c \<and> bt_active w \<and>
      (\<exists>q \<in> set (asked s a). map_of (rev answers) (bq_id q) \<noteq> Some (bq_correctIndex q) \<and> bq_sectionId q = bt_sectionId w)}"
    by (simp add: missed_tasks_def) metis
qed

section \<open>Properties\<close>

text \<open>A course with a question in each of two sections, a task for each.\<close>

definition quiz_teacher :: jwt_payload where
  "quiz_teacher = \<lparr>jwt_sub = ''t'', jwt_role = INSTRUCTOR, jwt_name = [], jwt_email = [], jwt_organizationId = Some ''o'',
     jwt_emailVerified = True, jwt_isSuperAdmin = False, jwt_recorder = None, jwt_preview = None\<rparr>"

definition quiz_pupil :: jwt_payload where
  "quiz_pupil = quiz_teacher\<lparr>jwt_sub := ''s'', jwt_role := STUDENT\<rparr>"

definition quiz_start :: assessments where
  "quiz_start = \<lparr>ay_db = empty_db\<lparr>db_courses := [\<lparr>co_id = ''c'', co_instructorId = Some ''t'', co_organizationId = Some ''o'',
       co_pluginKeys = None\<rparr>], db_sections := [\<lparr>se_id = ''e'', se_courseId = ''c''\<rparr>, \<lparr>se_id = ''f'', se_courseId = ''c''\<rparr>],
       db_enrollments := [\<lparr>en_courseId = ''c'', en_studentId = ''s''\<rparr>]\<rparr>,
     ay_instant = [], ay_questions = [], ay_tasks = [], ay_assessments = [], ay_attempts = [], ay_responses = [],
     ay_remediations = [], ay_points = \<lparr>ps_ledger = [], ps_zset = (\<lambda>_. []), ps_built = (\<lambda>_. False)\<rparr>\<rparr>"

definition quiz_made :: "quiz_op list" where
  "quiz_made = [NewQuestion quiz_teacher ''c'' ''e'' (''q'', [''0'', ''1''], 1) ''q1'' 1,
     NewQuestion quiz_teacher ''c'' ''f'' (''r'', [''0'', ''1''], 0) ''q2'' 2,
     NewTask quiz_teacher ''c'' ''e'' (''read'', None) ''k1'' 1, NewTask quiz_teacher ''c'' ''f'' (''listen'', None) ''k2'' 1,
     ClassEnded ''l'' ''c'' None False ''a'' 3, Release quiz_teacher ''a'']"

definition quiz_sat :: "quiz_op list" where
  "quiz_sat = quiz_made @ [SubmitQuiz True quiz_pupil ''a'' [(''q1'', 1), (''q2'', 1)] ''k'' [''m1'', ''m2''] 5]"

text \<open>C20: After any run of the assessment service on new tables, a student has at most one attempt at
  an assessment; every attempt is at a released one, its score is the number of right responses stored
  for it, and the ledger holds ten points for each of them, whatever else was asked, edited, released
  or paid.\<close>

theorem attempts_are_paid_what_they_show:
  assumes "no_assessments s0" and "s = foldl quiz_step s0 ops"
  shows "distinct (map attempt_key (ay_attempts s)) \<and>
    (\<forall>k \<in> set (ay_attempts s). ak_score k = Some (right_count s (ak_id k)) \<and>
       (\<exists>a. find_assessment s (ak_assessmentId k) = Some a \<and> ae_released a \<and>
          delta_sum (quiz_points (ak_studentId k) (ae_courseId a) (ak_id k)) (ps_ledger (ay_points s)) =
            10 * right_count s (ak_id k)))"
proof -
  have ok: "assessments_ok s" using quiz_runs_ok [OF assms(1)] assms(2) by simp
  then have "\<forall>k \<in> set (ay_attempts s). attempt_paid s k" by (simp add: assessments_ok_def)
  moreover have "distinct (map attempt_key (ay_attempts s))" using ok by (simp add: assessments_ok_def)
  ultimately show ?thesis by (simp add: attempt_paid_def points_quiz_correct_def mult.commute)
qed

lemma attempts_are_paid_what_they_show_witness:
  "map ak_score (ay_attempts (foldl quiz_step quiz_start quiz_sat)) = [Some 1] \<and>
   distinct (map attempt_key (ay_attempts (foldl quiz_step quiz_start quiz_sat))) \<and>
   delta_sum (quiz_points ''s'' ''c'' ''k'') (ps_ledger (ay_points (foldl quiz_step quiz_start quiz_sat))) = 10"
proof -
  let ?s = "foldl quiz_step quiz_start quiz_sat"
  have "map ak_score (ay_attempts ?s) = [Some 1]"
    and "delta_sum (quiz_points ''s'' ''c'' ''k'') (ps_ledger (ay_points ?s)) = 10" by code_simp+
  then show ?thesis
    using attempts_are_paid_what_they_show [of quiz_start ?s quiz_sat] by (simp add: no_assessments_def quiz_start_def)
qed

text \<open>C21: Until a student has submitted an assessment, no answer to the student about it depends on
  the keys: the paper and the list are the same over tables with any other keys. A held assessment
  does not exist for students: it is not in their list, whose cards are the course's released assessments,
  and asking for its paper or submitting it is answered as for one that is not there.\<close>

theorem keys_are_hidden_until_submitted:
  assumes "Option.bind (attempt_of s i (jwt_sub user)) ak_submittedAt = None"
  shows "get_for_student (rekey f s) user i = get_for_student s user i \<and>
    list_mine (rekey f s) user c = list_mine s user c \<and>
    (\<forall>cards. list_mine s user c = Inr cards \<longrightarrow>
       qc_id ` set cards = {ae_id a |a. a \<in> set (ay_assessments s) \<and> ae_courseId a = c \<and> ae_released a}) \<and>
    (\<forall>a. find_assessment s i = Some a \<and> \<not> ae_released a \<longrightarrow>
       get_for_student s user i = Inl (NotFound ''Assessment not found'') \<and>
       (\<forall>answers k ids now. submit_quiz up s user i answers k ids now = (s, Inl (NotFound ''Assessment not found''))))"
proof -
  have "list_mine (rekey f s) user c = list_mine s user c" by (simp add: list_mine_def)
  moreover have "qc_id ` set cards = {ae_id a |a. a \<in> set (ay_assessments s) \<and> ae_courseId a = c \<and> ae_released a}"
    if "list_mine s user c = Inr cards" for cards
    using that by (force simp: list_mine_def res image_iff)
  moreover have "open_assessment s user i = Inl (NotFound ''Assessment not found'')"
    if "find_assessment s i = Some a" "\<not> ae_released a" for a
    using that by (simp add: open_assessment_def)
  ultimately show ?thesis using hidden_paper [OF assms]
    by (auto simp: get_for_student_def submit_quiz_def submit_read_def)
qed

lemma keys_are_hidden_until_submitted_witness:
  "let s = foldl quiz_step quiz_start quiz_made; g = get_for_student (rekey (\<lambda>_. 0) s) quiz_pupil ''a'' in
   map_sum id (\<lambda>p. map sq_id (qp_questions p)) g = Inr [''q1'', ''q2''] \<and> g = get_for_student s quiz_pupil ''a''"
proof -
  let ?s = "foldl quiz_step quiz_start quiz_made"
  have "Option.bind (attempt_of ?s ''a'' (jwt_sub quiz_pupil)) ak_submittedAt = None"
    and "map_sum id (\<lambda>p. map sq_id (qp_questions p)) (get_for_student ?s quiz_pupil ''a'') = Inr [''q1'', ''q2'']" by code_simp+
  then show ?thesis using keys_are_hidden_until_submitted [of ?s "''a''" quiz_pupil "\<lambda>_. 0"] by (simp add: Let_def)
qed

text \<open>A submission that is taken assigns to the student exactly the active tasks of the course
  whose section has a question of the assessment that was not answered right, the last answer to a
  question being the one that counts; and it scores the others.\<close>

theorem remediation_is_what_was_missed:
  assumes "no_assessments s0" and "s = foldl quiz_step s0 ops" and "new_attempt_id s k" and "length (ay_tasks s) \<le> length ids"
    and "submit_quiz up s user i answers k ids now = (t, Inr out)" and "find_assessment s i = Some a"
  shows "let right = (\<lambda>q. map_of (rev answers) (bq_id q) = Some (bq_correctIndex q)) in
    qo_score out = length (filter right (asked s a)) \<and>
    rm_taskId ` {r \<in> set (ay_remediations t). rm_attemptId r = k} =
      bt_id ` {w \<in> set (ay_tasks s). bt_courseId w = ae_courseId a \<and> bt_active w \<and>
        (\<exists>q \<in> set (asked s a). \<not> right q \<and> bq_sectionId q = bt_sectionId w)} \<and>
    (\<forall>r \<in> set (ay_remediations t). rm_attemptId r = k \<longrightarrow> rm_studentId r = jwt_sub user)"
proof -
  have ok: "assessments_ok s" using quiz_runs_ok [OF assms(1)] assms(2) by simp
  have k: "k \<notin> rm_attemptId ` set (ay_remediations s)" using ok assms(3) by (auto simp: new_attempt_id_def assessments_ok_def)
  from ok assms(3) show ?thesis
  proof (cases rule: submit_quiz_cases [where up = up and user = user and i = i and answers = answers and ids = ids and now = now])
    case (refused e)
    then show ?thesis using assms(5) by simp
  next
    case (taken b m num)
    note read = submit_readD [OF taken(1)]
    have b: "b = a" using read(1) assms(6) by simp
    let ?u = "submitted_state up s user k now a m num"
    note closed = marking_closed [OF read(5) [unfolded b]]
    have "length (missed_tasks ?u (ae_courseId a) (mk_wrong m)) \<le> length ids"
      using assms(4) by (simp add: missed_tasks_def) (meson le_trans length_filter_le)
    then obtain rows where rows: "t = ?u\<lparr>ay_remediations := ay_remediations s @ rows\<rparr>"
        "map rm_taskId rows = map bt_id (missed_tasks ?u (ae_courseId a) (mk_wrong m))"
        "\<forall>r \<in> set rows. rm_attemptId r = k \<and> rm_studentId r = jwt_sub user"
      using route_rows [of ?u "ae_courseId a" "mk_wrong m" ids k "jwt_sub user" now] taken(2) k assms(5) b by auto
    have mine: "{r \<in> set (ay_remediations t). rm_attemptId r = k} = set rows" using rows(1,3) k by auto
    moreover have "rm_taskId ` set rows = bt_id ` set (missed_tasks ?u (ae_courseId a) (mk_wrong m))" using rows(2) by (metis set_map)
    moreover have "qo_score out = mk_score m" using taken(3) assms(5) by simp
    ultimately show ?thesis using rows(3) closed(1) closed(2) [of ?u] by (auto simp: Let_def)
  qed
qed

lemma remediation_is_what_was_missed_witness:
  "\<exists>s t out. submit_quiz True s quiz_pupil ''a'' [(''q1'', 1), (''q2'', 1)] ''k'' [''m1'', ''m2''] 5 = (t, Inr out) \<and>
     map rm_taskId (ay_remediations t) = [''k2''] \<and>
     (\<forall>r \<in> set (ay_remediations t). rm_attemptId r = ''k'' \<longrightarrow> rm_studentId r = ''s'')"
proof -
  let ?s = "foldl quiz_step quiz_start quiz_made"
  let ?r = "submit_quiz True ?s quiz_pupil ''a'' [(''q1'', 1), (''q2'', 1)] ''k'' [''m1'', ''m2''] 5"
  have v: "map_sum id qo_score (snd ?r) = Inr 1" "new_attempt_id ?s ''k''" "length (ay_tasks ?s) \<le> length [''m1'', ''m2'']"
    "map rm_taskId (ay_remediations (fst ?r)) = [''k2'']" by code_simp+
  obtain t out where r: "?r = (t, Inr out)" using v(1) by (cases ?r, cases "snd ?r") auto
  have "map_option ae_courseId (find_assessment ?s ''a'') = Some ''c''" by code_simp
  then obtain a where a: "find_assessment ?s ''a'' = Some a" by auto
  have "no_assessments quiz_start" "jwt_sub quiz_pupil = ''s''" by (simp_all add: no_assessments_def quiz_start_def quiz_pupil_def)
  then have "\<forall>x \<in> set (ay_remediations t). rm_attemptId x = ''k'' \<longrightarrow> rm_studentId x = ''s''"
    using remediation_is_what_was_missed [OF _ refl v(2,3) r a] by (simp add: Let_def)
  moreover have "map rm_taskId (ay_remediations t) = [''k2'']" using v(4) by (simp only: r fst_conv)
  ultimately have w: "?r = (t, Inr out) \<and> map rm_taskId (ay_remediations t) = [''k2''] \<and>
      (\<forall>r \<in> set (ay_remediations t). rm_attemptId r = ''k'' \<longrightarrow> rm_studentId r = ''s'')"
    by (intro conjI r)
  show ?thesis by (intro exI) (rule w)
qed

section \<open>What the schema and the comments promise\<close>

text \<open>Only the ids are frozen: a later change of a key is what a submitted paper shows, beside the
  score the old key gave.\<close>

lemma frozen_ids_not_keys:
  "map_sum id (\<lambda>p. (qp_score p, map (map_option fst \<circ> sq_key) (qp_questions p)))
     (get_for_student (foldl quiz_step quiz_start (quiz_sat @ [EditQuestion quiz_teacher ''c'' ''q1'' None None (Some 0) None])) quiz_pupil ''a'') =
   Inr (Some 1, [Some 0, Some 0])"
  by code_simp

text \<open>Two submissions that both look first and answer different questions are both taken: the
  second's score is shown, both are paid.\<close>

lemma overlapping_submissions_pay_twice:
  "let s = foldl quiz_step quiz_start quiz_made in
   (case (submit_read s quiz_pupil ''a'' [(''q1'', 1)], submit_read s quiz_pupil ''a'' [(''q2'', 0)]) of
      (Inr r, Inr r') \<Rightarrow>
        (case submit_write True s quiz_pupil ''k'' 5 r of
           Some (s1, _) \<Rightarrow> map_option (\<lambda>(s2, k). (map ak_score (ay_attempts s2),
               delta_sum (quiz_points ''s'' ''c'' ''k'') (ps_ledger (ay_points s2)))) (submit_write True s1 quiz_pupil ''k'' 5 r')
         | None \<Rightarrow> None)
    | _ \<Rightarrow> None) = Some ([Some 1], 20)"
  by code_simp

end
