(* ===== verification/Accounts.thy ===== *)
theory Accounts
  imports AuthCache Guards Database
begin

text \<open>
  Accounts, workspaces and the links that let people in: \<open>src/auth/auth.service.ts\<close>. Of the tables
  of \<open>Database\<close> it uses the courses, sessions, enrolments and entitlements; accounts, workspaces,
  memberships and invites have their full rows here. SHA-256 and bcrypt are a parameter, a salt and
  whatever is drawn at random are inputs, a signed token is its claims, and so is the clock. Whether the
  mail server takes a code and whether Redis answers are flags.
\<close>

section \<open>Rows\<close>

record org_account =
  og_id :: string
  og_name :: string
  og_slug :: string
  og_tagline :: "string option"
  og_primaryColor :: "string option"
  og_accentColor :: "string option"
  og_logoUrl :: "string option"
  og_evictOnInstructorLeave :: bool
  og_micRequiresRaisedHand :: bool
  og_preClassReminder :: bool
  og_reminderLeadMinutes :: int
  og_inviteLinkExpiryDays :: "int option"

record account =
  ac_id :: string
  ac_name :: string
  ac_email :: string
  ac_passwordHash :: string
  ac_role :: role
  ac_status :: user_status
  ac_isSuperAdmin :: bool
  ac_organizationId :: "string option"
  ac_emailVerified :: bool
  ac_reset :: "string option"
  ac_resetExpiresAt :: "int option"
  ac_otp :: "string option"
  ac_otpExpiresAt :: "int option"

record membership =
  mb_userId :: string
  mb_organizationId :: string
  mb_role :: role
  mb_status :: user_status

record invite =
  iv_id :: string
  iv_organizationId :: string
  iv_role :: role
  iv_courseId :: "string option"
  iv_token :: string
  iv_label :: "string option"
  iv_createdById :: string
  iv_maxUses :: "int option"
  iv_uses :: int
  iv_expiresAt :: "int option"
  iv_revokedAt :: "int option"
  iv_createdAt :: int

text \<open>What the mail server was asked to send: the address, the link's token or the code, the instant.\<close>

datatype auth_mail = ResetMail string string int | OtpMail string string int

record accounts_db =
  aw_db :: db
  aw_users :: "account list"
  aw_orgs :: "org_account list"
  aw_members :: "membership list"
  aw_invites :: "invite list"
  aw_cache :: auth_cache
  aw_mails :: "auth_mail list"

record crypto =
  cr_sha :: "string \<Rightarrow> string"
  cr_hash :: "string \<Rightarrow> string \<Rightarrow> string"
  cr_verify :: "string \<Rightarrow> string \<Rightarrow> bool"

definition find_account :: "accounts_db \<Rightarrow> string \<Rightarrow> account option" where
  "find_account s i = find (\<lambda>u. ac_id u = i) (aw_users s)"

definition account_by_email :: "accounts_db \<Rightarrow> string \<Rightarrow> account option" where
  "account_by_email s e = find (\<lambda>u. ac_email u = e) (aw_users s)"

definition find_member :: "accounts_db \<Rightarrow> string \<Rightarrow> string \<Rightarrow> membership option" where
  "find_member s i o' = find (\<lambda>m. mb_userId m = i \<and> mb_organizationId m = o') (aw_members s)"

definition invite_by_token :: "accounts_db \<Rightarrow> string \<Rightarrow> invite option" where
  "invite_by_token s t = find (\<lambda>v. iv_token v = t) (aw_invites s)"

definition set_account :: "string \<Rightarrow> (account \<Rightarrow> account) \<Rightarrow> accounts_db \<Rightarrow> accounts_db" where
  "set_account i f s = s\<lparr>aw_users := map (\<lambda>u. if ac_id u = i then f u else u) (aw_users s)\<rparr>"

definition drop_cached :: "bool \<Rightarrow> string \<Rightarrow> accounts_db \<Rightarrow> accounts_db" where
  "drop_cached up i s = s\<lparr>aw_cache := invalidate up (aw_cache s) i\<rparr>"

section \<open>Sessions\<close>

record auth_user =
  au_id :: string
  au_name :: string
  au_email :: string
  au_role :: role
  au_organizationId :: "string option"
  au_emailVerified :: bool

record auth_result =
  ar_accessToken :: jwt_payload
  ar_user :: auth_user

text \<open>\<open>toAuthResult\<close> on an account, with the role and the workspace the session acts in.\<close>

definition to_auth_result :: "account \<Rightarrow> role \<Rightarrow> string option \<Rightarrow> auth_result" where
  "to_auth_result u r o' =
     \<lparr>ar_accessToken = \<lparr>jwt_sub = ac_id u, jwt_role = r, jwt_name = ac_name u, jwt_email = ac_email u,
        jwt_organizationId = o', jwt_emailVerified = ac_emailVerified u,
        jwt_isSuperAdmin = (ac_isSuperAdmin u \<and> is_configured_platform_admin_email (Some (ac_email u))),
        jwt_recorder = None, jwt_preview = None\<rparr>,
      ar_user = \<lparr>au_id = ac_id u, au_name = ac_name u, au_email = ac_email u, au_role = r,
        au_organizationId = o', au_emailVerified = ac_emailVerified u\<rparr>\<rparr>"

definition own_session :: "account \<Rightarrow> auth_result" where
  "own_session u = to_auth_result u (ac_role u) (ac_organizationId u)"

section \<open>Passwords\<close>

definition reset_life :: int where
  "reset_life = 30 * 60 * 1000"

text \<open>The answer is the same whether or not there is an account; a mail that fails is only logged.\<close>

definition request_password_reset :: "crypto \<Rightarrow> accounts_db \<Rightarrow> string \<Rightarrow> string \<Rightarrow> int \<Rightarrow> accounts_db" where
  "request_password_reset cr s email token now =
     (case account_by_email s email of
        None \<Rightarrow> s
      | Some u \<Rightarrow>
          if ac_status u = DISABLED then s
          else
            let s1 = set_account (ac_id u) (\<lambda>v. v\<lparr>ac_reset := Some (cr_sha cr token), ac_resetExpiresAt := Some (now + reset_life)\<rparr>) s
            in s1\<lparr>aw_mails := aw_mails s1 @ [ResetMail (ac_email u) token now]\<rparr>)"

definition reset_holder :: "crypto \<Rightarrow> accounts_db \<Rightarrow> string \<Rightarrow> account option" where
  "reset_holder cr s token = find (\<lambda>u. ac_reset u = Some (cr_sha cr token)) (aw_users s)"

definition reset_password ::
  "crypto \<Rightarrow> accounts_db \<Rightarrow> string \<Rightarrow> string \<Rightarrow> string \<Rightarrow> int \<Rightarrow> bool \<Rightarrow> accounts_db \<times> unit result"
where
  "reset_password cr s token newPassword salt now up =
     (case reset_holder cr s token of
        None \<Rightarrow> (s, Inl (BadRequest ''This reset link is invalid or has expired''))
      | Some u \<Rightarrow>
          if (case ac_resetExpiresAt u of None \<Rightarrow> True | Some t \<Rightarrow> t < now)
          then (s, Inl (BadRequest ''This reset link is invalid or has expired''))
          else (drop_cached up (ac_id u) (set_account (ac_id u) (\<lambda>v. v\<lparr>ac_passwordHash := cr_hash cr newPassword salt,
                  ac_reset := None, ac_resetExpiresAt := None, ac_emailVerified := True, ac_otp := None, ac_otpExpiresAt := None\<rparr>) s),
                Inr ()))"

definition change_password ::
  "crypto \<Rightarrow> accounts_db \<Rightarrow> string \<Rightarrow> string \<Rightarrow> string \<Rightarrow> string \<Rightarrow> accounts_db \<times> unit result"
where
  "change_password cr s userId currentPassword newPassword salt =
     (case find_account s userId of
        None \<Rightarrow> (s, Inl (Unauthorized ''Not signed in''))
      | Some u \<Rightarrow>
          if \<not> cr_verify cr currentPassword (ac_passwordHash u) then (s, Inl (BadRequest ''Current password is incorrect''))
          else (set_account userId (\<lambda>v. v\<lparr>ac_passwordHash := cr_hash cr newPassword salt\<rparr>) s, Inr ()))"

definition login :: "crypto \<Rightarrow> accounts_db \<Rightarrow> string \<Rightarrow> string \<Rightarrow> auth_result result" where
  "login cr s email password =
     (case account_by_email s email of
        None \<Rightarrow> Inl (Unauthorized ''Invalid credentials'')
      | Some u \<Rightarrow>
          if \<not> cr_verify cr password (ac_passwordHash u) then Inl (Unauthorized ''Invalid credentials'')
          else if ac_status u = DISABLED then Inl (Forbidden ''This account has been disabled'')
          else Inr (own_session u))"

text \<open>The claims of the step-up token; the library adds the instant of issue.\<close>

definition admin_reauth :: "crypto \<Rightarrow> accounts_db \<Rightarrow> string \<Rightarrow> string \<Rightarrow> int \<Rightarrow> step_up_claims result" where
  "admin_reauth cr s userId password now =
     rbind (case find_account s userId of
              None \<Rightarrow> Inl (Forbidden ''Platform admin access required'')
            | Some u \<Rightarrow>
                if ac_isSuperAdmin u \<and> is_configured_platform_admin_email (Some (ac_email u)) then Inr u
                else Inl (Forbidden ''Platform admin access required'')) (\<lambda>u.
     rbind (guard_or (cr_verify cr password (ac_passwordHash u)) (Unauthorized ''Incorrect password'')) (\<lambda>_.
       Inr \<lparr>su_su = userId, su_purpose = ''admin-stepup'', su_iat = Some (now div 1000)\<rparr>))"

definition session_for :: "accounts_db \<Rightarrow> string \<Rightarrow> auth_result result" where
  "session_for s userId =
     rbind (from_option (Unauthorized ''Invalid credentials'') (find_account s userId)) (\<lambda>u.
     rbind (guard_or (ac_status u \<noteq> DISABLED) (Forbidden ''This account has been disabled'')) (\<lambda>_.
       Inr (own_session u)))"

section \<open>Verification of the address\<close>

text \<open>A code that cannot be mailed is an error, with status 503.\<close>

definition mail_failed :: http_error where
  "mail_failed = Internal ''Service Unavailable''"

definition otp_life :: int where
  "otp_life = 10 * 60 * 1000"

definition send_verification_otp ::
  "crypto \<Rightarrow> accounts_db \<Rightarrow> string \<Rightarrow> string \<Rightarrow> int \<Rightarrow> bool \<Rightarrow> accounts_db \<times> unit result"
where
  "send_verification_otp cr s userId code now sent =
     (case find_account s userId of
        None \<Rightarrow> (s, Inr ())
      | Some u \<Rightarrow>
          if ac_emailVerified u then (s, Inr ())
          else
            let s1 = set_account userId (\<lambda>v. v\<lparr>ac_otp := Some (cr_sha cr code), ac_otpExpiresAt := Some (now + otp_life)\<rparr>) s
            in (s1\<lparr>aw_mails := aw_mails s1 @ [OtpMail (ac_email u) code now]\<rparr>, if sent then Inr () else Inl mail_failed))"

definition otp_accepted :: "crypto \<Rightarrow> account \<Rightarrow> string \<Rightarrow> int \<Rightarrow> bool" where
  "otp_accepted cr u code now \<longleftrightarrow>
     ac_otp u = Some (cr_sha cr code) \<and> (case ac_otpExpiresAt u of None \<Rightarrow> False | Some t \<Rightarrow> \<not> t < now)"

definition verify_email ::
  "crypto \<Rightarrow> accounts_db \<Rightarrow> string \<Rightarrow> string \<Rightarrow> int \<Rightarrow> bool \<Rightarrow> accounts_db \<times> auth_result result"
where
  "verify_email cr s userId code now up =
     (case find_account s userId of
        None \<Rightarrow> (s, Inl (BadRequest ''Account not found''))
      | Some u \<Rightarrow>
          if ac_emailVerified u then (s, Inr (own_session u))
          else if \<not> otp_accepted cr u code now then (s, Inl (BadRequest ''That code is invalid or has expired''))
          else
            let f = (\<lambda>v. v\<lparr>ac_emailVerified := True, ac_otp := None, ac_otpExpiresAt := None\<rparr>)
            in (drop_cached up userId (set_account userId f s), Inr (own_session (f u))))"

section \<open>Invites and registration\<close>

definition assert_email_free :: "accounts_db \<Rightarrow> string \<Rightarrow> unit result" where
  "assert_email_free s email = guard_or (account_by_email s email = None) (Conflict ''Email already registered'')"

definition assert_invite_usable :: "invite option \<Rightarrow> int \<Rightarrow> invite result" where
  "assert_invite_usable x now =
     (case x of
        None \<Rightarrow> Inl (BadRequest ''This invite link is not valid'')
      | Some v \<Rightarrow>
          if iv_revokedAt v \<noteq> None \<or> iv_role v = ORG_ADMIN then Inl (BadRequest ''This invite link is not valid'')
          else if (case iv_expiresAt v of None \<Rightarrow> False | Some t \<Rightarrow> t < now) then Inl (BadRequest ''This invite link has expired'')
          else if (case iv_maxUses v of None \<Rightarrow> False | Some m \<Rightarrow> m \<le> iv_uses v) then Inl (BadRequest ''This invite link has been used up'')
          else Inr v)"

definition spend_use :: "string \<Rightarrow> accounts_db \<Rightarrow> accounts_db" where
  "spend_use i s = s\<lparr>aw_invites := map (\<lambda>v. if iv_id v = i then v\<lparr>iv_uses := iv_uses v + 1\<rparr> else v) (aw_invites s)\<rparr>"

definition add_member :: "string \<Rightarrow> string \<Rightarrow> role \<Rightarrow> accounts_db \<Rightarrow> accounts_db" where
  "add_member u o' r s =
     s\<lparr>aw_members := aw_members s @ [\<lparr>mb_userId = u, mb_organizationId = o', mb_role = r, mb_status = ACTIVE\<rparr>]\<rparr>"

definition enrol :: "string \<Rightarrow> string \<Rightarrow> accounts_db \<Rightarrow> accounts_db" where
  "enrol c u s = s\<lparr>aw_db := (aw_db s)\<lparr>db_enrollments := db_enrollments (aw_db s) @ [\<lparr>en_courseId = c, en_studentId = u\<rparr>]\<rparr>\<rparr>"

definition assign :: "string \<Rightarrow> string \<Rightarrow> accounts_db \<Rightarrow> accounts_db" where
  "assign c u s = s\<lparr>aw_db := (aw_db s)\<lparr>db_courses :=
     map (\<lambda>x. if co_id x = c then x\<lparr>co_instructorId := Some u\<rparr> else x) (db_courses (aw_db s))\<rparr>\<rparr>"

text \<open>Where a course's link lands the person who opens it, in a role; a course that is gone breaks the
  foreign key, or is the record an update does not find.\<close>

definition land :: "string option \<Rightarrow> role \<Rightarrow> string \<Rightarrow> accounts_db \<Rightarrow> accounts_db result" where
  "land courseId r u s =
     (if \<not> given courseId \<or> r = ORG_ADMIN then Inr s
      else if find_course (aw_db s) (the courseId) = None then Inl (Internal ''Course not found'')
      else Inr (if r = STUDENT then enrol (the courseId) u s else assign (the courseId) u s))"

definition new_account :: "string \<Rightarrow> string \<Rightarrow> string \<Rightarrow> string \<Rightarrow> role \<Rightarrow> string \<Rightarrow> account" where
  "new_account i name email passwordHash r o' =
     \<lparr>ac_id = i, ac_name = name, ac_email = email, ac_passwordHash = passwordHash, ac_role = r, ac_status = ACTIVE,
      ac_isSuperAdmin = False, ac_organizationId = Some o', ac_emailVerified = False, ac_reset = None,
      ac_resetExpiresAt = None, ac_otp = None, ac_otpExpiresAt = None\<rparr>"

text \<open>\<open>user.create\<close>: the id and the e-mail address are unique.\<close>

definition create_account :: "account \<Rightarrow> accounts_db \<Rightarrow> accounts_db result" where
  "create_account u s =
     (if list_ex (\<lambda>v. ac_id v = ac_id u \<or> ac_email v = ac_email u) (aw_users s)
      then Inl (Internal ''Unique constraint failed'') else Inr (s\<lparr>aw_users := aw_users s @ [u]\<rparr>))"

record register_dto =
  rd_name :: string
  rd_email :: string
  rd_password :: string
  rd_inviteToken :: string

text \<open>\<open>register\<close> reads and then writes; what it reads in the transaction is not locked, so
  another request can come between.\<close>

definition register_read :: "accounts_db \<Rightarrow> register_dto \<Rightarrow> int \<Rightarrow> invite result" where
  "register_read s dto now =
     rbind (assert_email_free s (rd_email dto)) (\<lambda>_. assert_invite_usable (invite_by_token s (rd_inviteToken dto)) now)"

definition register_rows :: "crypto \<Rightarrow> accounts_db \<Rightarrow> register_dto \<Rightarrow> invite \<Rightarrow> string \<Rightarrow> string \<Rightarrow> accounts_db result" where
  "register_rows cr s dto v userId salt =
     rbind (create_account (new_account userId (rd_name dto) (rd_email dto) (cr_hash cr (rd_password dto) salt)
              (iv_role v) (iv_organizationId v)) s) (\<lambda>s1.
     rbind (guard_or (list_ex (\<lambda>w. iv_id w = iv_id v) (aw_invites s)) (Internal ''Record to update not found'')) (\<lambda>_.
       land (iv_courseId v) (iv_role v) userId (spend_use (iv_id v) (add_member userId (iv_organizationId v) (iv_role v) s1))))"

definition with_otp :: "crypto \<Rightarrow> accounts_db \<Rightarrow> string \<Rightarrow> account \<Rightarrow> string \<Rightarrow> int \<Rightarrow> bool \<Rightarrow> accounts_db \<times> auth_result result" where
  "with_otp cr s userId u code now sent =
     (case send_verification_otp cr s userId code now sent of
        (s1, Inl e) \<Rightarrow> (s1, Inl e) | (s1, Inr _) \<Rightarrow> (s1, Inr (own_session u)))"

definition register_write ::
  "crypto \<Rightarrow> accounts_db \<Rightarrow> register_dto \<Rightarrow> invite \<Rightarrow> string \<Rightarrow> string \<Rightarrow> string \<Rightarrow> int \<Rightarrow> bool
    \<Rightarrow> accounts_db \<times> auth_result result"
where
  "register_write cr s dto v userId salt code now sent =
     (case register_rows cr s dto v userId salt of
        Inl e \<Rightarrow> (s, Inl e)
      | Inr s1 \<Rightarrow>
          with_otp cr s1 userId (new_account userId (rd_name dto) (rd_email dto) (cr_hash cr (rd_password dto) salt)
            (iv_role v) (iv_organizationId v)) code now sent)"

definition register ::
  "crypto \<Rightarrow> accounts_db \<Rightarrow> register_dto \<Rightarrow> string \<Rightarrow> string \<Rightarrow> string \<Rightarrow> int \<Rightarrow> bool \<Rightarrow> accounts_db \<times> auth_result result"
where
  "register cr s dto userId salt code now sent =
     (case register_read s dto now of
        Inl e \<Rightarrow> (s, Inl e) | Inr v \<Rightarrow> register_write cr s dto v userId salt code now sent)"

section \<open>Workspaces\<close>

text \<open>Lower case outside ASCII is Unicode's, a parameter; what is not a letter or a digit then becomes a dash.\<close>

definition slug_char :: "char \<Rightarrow> bool" where
  "slug_char c \<longleftrightarrow> (let n = of_char c :: nat in (97 \<le> n \<and> n \<le> 122) \<or> (48 \<le> n \<and> n \<le> 57))"

fun dash_runs :: "bool \<Rightarrow> string \<Rightarrow> string" where
  "dash_runs inRun [] = []"
| "dash_runs inRun (c # cs) =
     (if slug_char c then c # dash_runs False cs
      else if inRun then dash_runs True cs else CHR ''-'' # dash_runs True cs)"

definition trim_dashes :: "string \<Rightarrow> string" where
  "trim_dashes s = (let d = dropWhile (\<lambda>c. c = CHR ''-'') in rev (d (rev (d s))))"

definition slug_base :: "(string \<Rightarrow> string) \<Rightarrow> string \<Rightarrow> string" where
  "slug_base lower name =
     (let b = take 40 (trim_dashes (dash_runs False (trim (lower name)))) in if b = [] then ''org'' else b)"

fun base36 :: "nat \<Rightarrow> string" where
  "base36 n =
     (let d = (\<lambda>k. [char_of (if k < 10 then 48 + k else 87 + k)])
      in if n < 36 then d n else base36 (n div 36) @ d (n mod 36))"

declare base36.simps [simp del]

definition slug_taken :: "accounts_db \<Rightarrow> string \<Rightarrow> bool" where
  "slug_taken s x \<longleftrightarrow> list_ex (\<lambda>g. og_slug g = x) (aw_orgs s)"

definition numbered_slug :: "string \<Rightarrow> nat \<Rightarrow> string" where
  "numbered_slug base i = (if i = 0 then base else base @ ''-'' @ dec (i + 1))"

definition unique_slug :: "(string \<Rightarrow> string) \<Rightarrow> accounts_db \<Rightarrow> string \<Rightarrow> int \<Rightarrow> string" where
  "unique_slug lower s name now =
     (case find (\<lambda>x. \<not> slug_taken s x) (map (numbered_slug (slug_base lower name)) [0..<50]) of
        Some x \<Rightarrow> x | None \<Rightarrow> slug_base lower name @ ''-'' @ base36 (nat now))"

record org_dto =
  od_organizationName :: string
  od_tagline :: "string option"
  od_primaryColor :: "string option"
  od_accentColor :: "string option"
  od_logoUrl :: "string option"

definition new_org :: "string \<Rightarrow> string \<Rightarrow> org_dto \<Rightarrow> org_account" where
  "new_org i slug dto =
     \<lparr>og_id = i, og_name = od_organizationName dto, og_slug = slug, og_tagline = od_tagline dto,
      og_primaryColor = od_primaryColor dto, og_accentColor = od_accentColor dto, og_logoUrl = od_logoUrl dto,
      og_evictOnInstructorLeave = False, og_micRequiresRaisedHand = False, og_preClassReminder = False,
      og_reminderLeadMinutes = 30, og_inviteLinkExpiryDays = None\<rparr>"

definition create_org :: "org_account \<Rightarrow> accounts_db \<Rightarrow> accounts_db result" where
  "create_org g s =
     (if list_ex (\<lambda>h. og_id h = og_id g \<or> og_slug h = og_slug g) (aw_orgs s)
      then Inl (Internal ''Unique constraint failed'') else Inr (s\<lparr>aw_orgs := aw_orgs s @ [g]\<rparr>))"

definition enable_plugins :: "string \<Rightarrow> string list \<Rightarrow> accounts_db \<Rightarrow> accounts_db" where
  "enable_plugins o' keys s =
     s\<lparr>aw_db := (aw_db s)\<lparr>db_orgPlugins := db_orgPlugins (aw_db s) @
        filter (\<lambda>r. r \<notin> set (db_orgPlugins (aw_db s))) (map (Pair o') (filter is_valid_plugin_key (remdups keys)))\<rparr>\<rparr>"

record org_admin_dto = org_dto +
  od_name :: string
  od_email :: string
  od_password :: string
  od_pluginKeys :: "string list"

definition register_org_rows ::
  "crypto \<Rightarrow> accounts_db \<Rightarrow> org_admin_dto \<Rightarrow> string \<Rightarrow> string \<Rightarrow> string \<Rightarrow> string \<Rightarrow> accounts_db result"
where
  "register_org_rows cr s dto slug orgId userId salt =
     rbind (create_org (new_org orgId slug (org_dto.truncate dto)) s) (\<lambda>s1.
     rbind (create_account (new_account userId (od_name dto) (od_email dto) (cr_hash cr (od_password dto) salt) ORG_ADMIN orgId) s1) (\<lambda>s2.
       Inr (enable_plugins orgId (od_pluginKeys dto) (add_member userId orgId ORG_ADMIN s2))))"

definition register_organization ::
  "crypto \<Rightarrow> (string \<Rightarrow> string) \<Rightarrow> accounts_db \<Rightarrow> org_admin_dto \<Rightarrow> string \<Rightarrow> string \<Rightarrow> string \<Rightarrow> string \<Rightarrow> int \<Rightarrow> bool
    \<Rightarrow> accounts_db \<times> auth_result result"
where
  "register_organization cr lower s dto orgId userId salt code now sent =
     (case rbind (assert_email_free s (od_email dto)) (\<lambda>_.
            register_org_rows cr s dto (unique_slug lower s (od_organizationName dto) now) orgId userId salt) of
        Inl e \<Rightarrow> (s, Inl e)
      | Inr s1 \<Rightarrow>
          with_otp cr s1 userId (new_account userId (od_name dto) (od_email dto) (cr_hash cr (od_password dto) salt) ORG_ADMIN orgId)
            code now sent)"

definition list_workspaces :: "accounts_db \<Rightarrow> string \<Rightarrow> (string \<times> string \<times> role) list" where
  "list_workspaces s userId =
     concat (map (\<lambda>m. case find (\<lambda>g. og_id g = mb_organizationId m) (aw_orgs s) of None \<Rightarrow> []
                     | Some g \<Rightarrow> [(og_id g, og_name g, mb_role m)])
       (filter (\<lambda>m. mb_userId m = userId \<and> mb_status m = ACTIVE) (aw_members s)))"

definition switch_workspace :: "accounts_db \<Rightarrow> string \<Rightarrow> string \<Rightarrow> auth_result result" where
  "switch_workspace s userId organizationId =
     rbind (case find_member s userId organizationId of
              None \<Rightarrow> Inl (Forbidden ''You are not a member of that workspace'')
            | Some m \<Rightarrow> if mb_status m = ACTIVE then Inr m else Inl (Forbidden ''You are not a member of that workspace'')) (\<lambda>m.
     rbind (from_option (Unauthorized ''Account not found'') (find_account s userId)) (\<lambda>u.
       Inr (to_auth_result u (mb_role m) (Some (mb_organizationId m)))))"

text \<open>The rows of \<open>joinWorkspace\<close> for a member or a newcomer, whether the link gave anything, and the
  role the session has.\<close>

definition join_rows :: "accounts_db \<Rightarrow> string \<Rightarrow> invite \<Rightarrow> (accounts_db \<times> role) result" where
  "join_rows s userId v =
     (let existing = find_member s userId (iv_organizationId v);
          r = (case existing of None \<Rightarrow> iv_role v | Some m \<Rightarrow> mb_role m);
          s1 = (if existing = None then add_member userId (iv_organizationId v) (iv_role v) s else s);
          already = (given (iv_courseId v) \<and> r = STUDENT \<and> enrolled (aw_db s) (the (iv_courseId v)) userId);
          granted = (existing = None \<or> (given (iv_courseId v) \<and> r = STUDENT \<and> \<not> already))
      in if find_account s userId = None then Inl (Internal ''Foreign key constraint violated'')
         else rbind (if already then Inr s1 else land (iv_courseId v) r userId s1) (\<lambda>s2.
                Inr (if granted then spend_use (iv_id v) s2 else s2, r)))"

definition join_workspace :: "accounts_db \<Rightarrow> string \<Rightarrow> string \<Rightarrow> int \<Rightarrow> accounts_db \<times> auth_result result" where
  "join_workspace s userId inviteToken now =
     (case rbind (assert_invite_usable (invite_by_token s inviteToken) now) (\<lambda>v.
            rbind (join_rows s userId v) (\<lambda>x. Inr (v, x))) of
        Inl e \<Rightarrow> (s, Inl e)
      | Inr (v, s1, r) \<Rightarrow>
          (s1, rbind (from_option (Unauthorized ''Account not found'') (find_account s1 userId)) (\<lambda>u.
             Inr (to_auth_result u r (Some (iv_organizationId v))))))"

definition create_workspace ::
  "(string \<Rightarrow> string) \<Rightarrow> accounts_db \<Rightarrow> string \<Rightarrow> org_dto \<Rightarrow> string \<Rightarrow> int \<Rightarrow> accounts_db \<times> auth_result result"
where
  "create_workspace lower s userId dto orgId now =
     (case rbind (create_org (new_org orgId (unique_slug lower s (od_organizationName dto) now)
              (dto\<lparr>od_accentColor := None, od_logoUrl := None\<rparr>)) s) (\<lambda>s1.
            rbind (guard_or (find_account s userId \<noteq> None) (Internal ''Foreign key constraint violated'')) (\<lambda>_.
              Inr (add_member userId orgId ORG_ADMIN s1))) of
        Inl e \<Rightarrow> (s, Inl e)
      | Inr s1 \<Rightarrow>
          (s1, rbind (from_option (Unauthorized ''Account not found'') (find_account s1 userId)) (\<lambda>u.
             Inr (to_auth_result u ORG_ADMIN (Some orgId)))))"

section \<open>Narrower tokens\<close>

definition mint_realtime_token :: "jwt_payload \<Rightarrow> jwt_payload" where
  "mint_realtime_token user = user\<lparr>jwt_recorder := None, jwt_preview := None\<rparr>"

definition mint_preview_token :: "accounts_db \<Rightarrow> jwt_payload \<Rightarrow> string \<Rightarrow> nat \<Rightarrow> jwt_payload result" where
  "mint_preview_token s user sessionId port =
     rbind (case session_course (aw_db s) sessionId of
              None \<Rightarrow> Inl (BadRequest ''Session not found or ended'')
            | Some (x, c) \<Rightarrow> if ls_status x = ENDED then Inl (BadRequest ''Session not found or ended'') else Inr c) (\<lambda>c.
     rbind (case jwt_role user of
              INSTRUCTOR \<Rightarrow> guard_or (co_instructorId c = Some (jwt_sub user)) (Forbidden ''Not your session'')
            | ORG_ADMIN \<Rightarrow> guard_or (given (jwt_organizationId user) \<and> co_organizationId c = jwt_organizationId user)
                (Forbidden ''Not your organisation session'')
            | STUDENT \<Rightarrow> guard_or (enrolled (aw_db s) (co_id c) (jwt_sub user)) (Forbidden ''Not enrolled in course'')) (\<lambda>_.
       Inr (user\<lparr>jwt_recorder := None, jwt_preview := Some \<lparr>pv_sessionId = sessionId, pv_port = port\<rparr>\<rparr>)))"

end
