(* ===== verification/Workspaces.thy ===== *)
theory Workspaces
  imports Accounts StudentStats
begin

text \<open>
  A workspace's brand, settings, invites and members (\<open>src/organizations/organizations.service.ts\<close>),
  and what the platform's administrator does to accounts (\<open>src/admin/admin.service.ts\<close>). Rows are in
  the order of their creation. The audit trail, the usage figures of the AI and the counts of the
  overview are not modelled.
\<close>

section \<open>Brand and settings\<close>

definition find_workspace :: "accounts_db \<Rightarrow> string \<Rightarrow> org_account option" where
  "find_workspace s i = find (\<lambda>g. og_id g = i) (aw_orgs s)"

definition get_mine :: "accounts_db \<Rightarrow> string option \<Rightarrow> org_account option" where
  "get_mine s orgId = (if \<not> given orgId then None else find_workspace s (the orgId))"

definition set_workspace :: "string \<Rightarrow> (org_account \<Rightarrow> org_account) \<Rightarrow> accounts_db \<Rightarrow> accounts_db \<times> org_account result" where
  "set_workspace i f s =
     (case find_workspace s i of
        None \<Rightarrow> (s, Inl (Internal ''Record to update not found''))
      | Some g \<Rightarrow> (s\<lparr>aw_orgs := map (\<lambda>h. if og_id h = i then f h else h) (aw_orgs s)\<rparr>, Inr (f g)))"

text \<open>An absent field stays as it is.\<close>

definition or_keep :: "'a option \<Rightarrow> 'a \<Rightarrow> 'a" where
  "or_keep x stored = (case x of None \<Rightarrow> stored | Some v \<Rightarrow> v)"

record brand_dto =
  bd_name :: "string option"
  bd_tagline :: "string option"
  bd_primaryColor :: "string option"
  bd_accentColor :: "string option"
  bd_logoUrl :: "string option"

definition update_brand :: "accounts_db \<Rightarrow> string \<Rightarrow> brand_dto \<Rightarrow> accounts_db \<times> org_account result" where
  "update_brand s orgId dto =
     set_workspace orgId (\<lambda>g. g\<lparr>og_name := or_keep (bd_name dto) (og_name g),
       og_tagline := (if bd_tagline dto = None then og_tagline g else bd_tagline dto),
       og_primaryColor := (if bd_primaryColor dto = None then og_primaryColor g else bd_primaryColor dto),
       og_accentColor := (if bd_accentColor dto = None then og_accentColor g else bd_accentColor dto),
       og_logoUrl := (if bd_logoUrl dto = None then og_logoUrl g else bd_logoUrl dto)\<rparr>) s"

record settings_dto =
  sg_evictOnInstructorLeave :: "bool option"
  sg_micRequiresRaisedHand :: "bool option"
  sg_preClassReminder :: "bool option"
  sg_reminderLeadMinutes :: "int option"
  sg_inviteLinkExpiryDays :: "int option"

definition update_settings :: "accounts_db \<Rightarrow> string \<Rightarrow> settings_dto \<Rightarrow> accounts_db \<times> org_account result" where
  "update_settings s orgId dto =
     set_workspace orgId (\<lambda>g. g\<lparr>og_evictOnInstructorLeave := or_keep (sg_evictOnInstructorLeave dto) (og_evictOnInstructorLeave g),
       og_micRequiresRaisedHand := or_keep (sg_micRequiresRaisedHand dto) (og_micRequiresRaisedHand g),
       og_preClassReminder := or_keep (sg_preClassReminder dto) (og_preClassReminder g),
       og_reminderLeadMinutes := or_keep (sg_reminderLeadMinutes dto) (og_reminderLeadMinutes g),
       og_inviteLinkExpiryDays := (case sg_inviteLinkExpiryDays dto of None \<Rightarrow> og_inviteLinkExpiryDays g
         | Some d \<Rightarrow> if d > 0 then Some d else None)\<rparr>) s"

section \<open>Invites\<close>

record invite_dto =
  id_role :: role
  id_label :: "string option"
  id_courseId :: "string option"
  id_maxUses :: "int option"
  id_expiresAt :: "int option"

definition day_ms :: int where
  "day_ms = 24 * 60 * 60 * 1000"

definition invite_expiry :: "accounts_db \<Rightarrow> string \<Rightarrow> int option \<Rightarrow> int \<Rightarrow> int option" where
  "invite_expiry s orgId explicit now =
     (if explicit \<noteq> None then explicit
      else let days = (case Option.bind (find_workspace s orgId) og_inviteLinkExpiryDays of None \<Rightarrow> 0 | Some d \<Rightarrow> d)
           in if days > 0 then Some (now + days * day_ms) else None)"

definition create_invite ::
  "accounts_db \<Rightarrow> string \<Rightarrow> string \<Rightarrow> invite_dto \<Rightarrow> string \<Rightarrow> string \<Rightarrow> int \<Rightarrow> accounts_db \<times> invite result"
where
  "create_invite s orgId userId dto newId token now =
     (case rbind (guard_or (id_role dto \<in> {STUDENT, INSTRUCTOR}) (BadRequest ''Invite role must be STUDENT or INSTRUCTOR'')) (\<lambda>_.
            rbind (guard_or (\<not> given (id_courseId dto) \<or>
                list_ex (\<lambda>c. Some (co_id c) = id_courseId dto \<and> co_organizationId c = Some orgId) (db_courses (aw_db s)))
              (NotFound ''Program not found'')) (\<lambda>_.
            rbind (guard_or (id_courseId dto \<noteq> Some [] \<and> find_workspace s orgId \<noteq> None \<and> find_account s userId \<noteq> None)
              (Internal ''Foreign key constraint violated'')) (\<lambda>_.
            guard_or (\<not> list_ex (\<lambda>v. iv_id v = newId \<or> iv_token v = token) (aw_invites s)) (Internal ''Unique constraint failed'')))) of
        Inl e \<Rightarrow> (s, Inl e)
      | Inr _ \<Rightarrow>
          let v = \<lparr>iv_id = newId, iv_organizationId = orgId, iv_role = id_role dto, iv_courseId = id_courseId dto,
                iv_token = token, iv_label = id_label dto, iv_createdById = userId, iv_maxUses = id_maxUses dto, iv_uses = 0,
                iv_expiresAt = invite_expiry s orgId (id_expiresAt dto) now, iv_revokedAt = None, iv_createdAt = now\<rparr>
          in (s\<lparr>aw_invites := aw_invites s @ [v]\<rparr>, Inr v))"

datatype invite_status = InviteActive | InviteExpired | InviteUsedUp | InviteRevoked

definition status_of :: "invite \<Rightarrow> int \<Rightarrow> invite_status" where
  "status_of v now =
     (if iv_revokedAt v \<noteq> None then InviteRevoked
      else if (case iv_expiresAt v of None \<Rightarrow> False | Some t \<Rightarrow> t < now) then InviteExpired
      else if (case iv_maxUses v of None \<Rightarrow> False | Some m \<Rightarrow> m \<le> iv_uses v) then InviteUsedUp
      else InviteActive)"

text \<open>\<open>courseId\<close> absent: all links; empty: those of the workspace; else a program's.\<close>

definition list_invites :: "accounts_db \<Rightarrow> string \<Rightarrow> string option \<Rightarrow> int \<Rightarrow> (invite \<times> invite_status) list" where
  "list_invites s orgId courseId now =
     map (\<lambda>v. (v, status_of v now)) (sort_key (\<lambda>v. - iv_createdAt v)
       (filter (\<lambda>v. iv_organizationId v = orgId \<and> iv_revokedAt v = None \<and>
          (courseId = None \<or> iv_courseId v = (if courseId = Some [] then None else courseId))) (aw_invites s)))"

definition revoke_invite :: "accounts_db \<Rightarrow> string \<Rightarrow> string \<Rightarrow> int \<Rightarrow> accounts_db \<times> unit result" where
  "revoke_invite s orgId i now =
     (if \<not> list_ex (\<lambda>v. iv_id v = i \<and> iv_organizationId v = orgId) (aw_invites s) then (s, Inl (NotFound ''Invite not found''))
      else (s\<lparr>aw_invites := map (\<lambda>v. if iv_id v = i then v\<lparr>iv_revokedAt := Some now\<rparr> else v) (aw_invites s)\<rparr>, Inr ()))"

definition resolve_invite :: "accounts_db \<Rightarrow> string \<Rightarrow> int \<Rightarrow> (role \<times> org_account option \<times> course_row option) option" where
  "resolve_invite s token now =
     (case invite_by_token s token of
        None \<Rightarrow> None
      | Some v \<Rightarrow>
          if status_of v now \<noteq> InviteActive then None
          else Some (iv_role v, find_workspace s (iv_organizationId v), Option.bind (iv_courseId v) (find_course (aw_db s))))"

definition invite_standing :: "accounts_db \<Rightarrow> string \<Rightarrow> string \<Rightarrow> (string \<times> string) option" where
  "invite_standing s userId token =
     (case invite_by_token s token of
        None \<Rightarrow> None
      | Some v \<Rightarrow>
          if given (iv_courseId v) \<and> map_option mb_status (find_member s userId (iv_organizationId v)) = Some ACTIVE \<and>
             enrolled (aw_db s) (the (iv_courseId v)) userId
          then Some (the (iv_courseId v), iv_organizationId v) else None)"

section \<open>Members\<close>

definition active_in :: "accounts_db \<Rightarrow> string \<Rightarrow> role \<Rightarrow> string \<Rightarrow> bool" where
  "active_in s orgId r u \<longleftrightarrow>
     list_ex (\<lambda>m. mb_userId m = u \<and> mb_organizationId m = orgId \<and> mb_role m = r \<and> mb_status m = ACTIVE) (aw_members s)"

definition list_members :: "accounts_db \<Rightarrow> string \<Rightarrow> role \<Rightarrow> account list" where
  "list_members s orgId r = filter (\<lambda>u. active_in s orgId r (ac_id u)) (aw_users s)"

definition set_member_status ::
  "accounts_db \<Rightarrow> string \<Rightarrow> string \<Rightarrow> user_status \<Rightarrow> bool \<Rightarrow> accounts_db \<times> unit result"
where
  "set_member_status s orgId memberId status up =
     (case find_member s memberId orgId of
        None \<Rightarrow> (s, Inl (NotFound ''Member not found in your organization''))
      | Some m \<Rightarrow>
          if mb_role m = ORG_ADMIN then (s, Inl (BadRequest ''Admin accounts cannot be disabled here''))
          else (drop_cached up memberId (set_account memberId (\<lambda>u. u\<lparr>ac_status := status\<rparr>) s), Inr ()))"

definition course_ids_of :: "accounts_db \<Rightarrow> string \<Rightarrow> string list" where
  "course_ids_of s u = map en_courseId (filter (\<lambda>e. en_studentId e = u) (db_enrollments (aw_db s)))"

definition org_students :: "accounts_db \<Rightarrow> string \<Rightarrow> string option \<Rightarrow> account list" where
  "org_students s orgId courseId =
     filter (\<lambda>u. active_in s orgId STUDENT (ac_id u) \<and>
       (\<not> given courseId \<or> enrolled (aw_db s) (the courseId) (ac_id u))) (aw_users s)"

definition org_course_where :: "accounts_db \<Rightarrow> string \<Rightarrow> string option \<Rightarrow> string \<Rightarrow> bool" where
  "org_course_where s orgId courseId c \<longleftrightarrow>
     (\<not> given courseId \<or> Some c = courseId) \<and> Option.bind (find_course (aw_db s) c) co_organizationId = Some orgId"

text \<open>The figures come from \<open>aggregateStudentStats\<close> over the other tables \<open>d\<close>.\<close>

definition org_student_stats ::
  "stats_db \<Rightarrow> accounts_db \<Rightarrow> string \<Rightarrow> string option \<Rightarrow> (account \<times> string list \<times> student_stat) list option"
where
  "org_student_stats d s orgId courseId =
     (let students = org_students s orgId courseId in
      Option.bind (aggregate_student_stats (d\<lparr>sd_db := aw_db s\<rparr>) (map (\<lambda>u. (ac_id u, course_ids_of s (ac_id u))) students)
          (org_course_where s orgId courseId)) (\<lambda>stats.
        Some (map (\<lambda>u. (u, course_ids_of s (ac_id u), the (map_of stats (ac_id u)))) students)))"

section \<open>The platform's administrator\<close>

definition user_or_404 :: "accounts_db \<Rightarrow> string \<Rightarrow> account result" where
  "user_or_404 s i = from_option (NotFound ''User not found'') (find_account s i)"

record user_filter =
  uf_q :: "string option"
  uf_role :: "role option"
  uf_status :: "user_status option"
  uf_orgId :: "string option"
  uf_page :: "int option"
  uf_pageSize :: "int option"

definition user_matches :: "(string \<Rightarrow> string \<Rightarrow> bool) \<Rightarrow> user_filter \<Rightarrow> account \<Rightarrow> bool" where
  "user_matches contains f u \<longleftrightarrow>
     (uf_role f = None \<or> Some (ac_role u) = uf_role f) \<and> (uf_status f = None \<or> Some (ac_status u) = uf_status f) \<and>
     (\<not> given (uf_orgId f) \<or> ac_organizationId u = uf_orgId f) \<and>
     (\<not> given (uf_q f) \<or> contains (ac_name u) (the (uf_q f)) \<or> contains (ac_email u) (the (uf_q f)))"

definition shown_user :: "account \<Rightarrow> account" where
  "shown_user u = u\<lparr>ac_isSuperAdmin := ac_isSuperAdmin u \<and> is_configured_platform_admin_email (Some (ac_email u))\<rparr>"

text \<open>Newest first; whether a text contains another is the database's.\<close>

definition list_users :: "(string \<Rightarrow> string \<Rightarrow> bool) \<Rightarrow> accounts_db \<Rightarrow> user_filter \<Rightarrow> nat \<times> int \<times> int \<times> account list" where
  "list_users contains s f =
     (let page = max 1 (case uf_page f of None \<Rightarrow> 1 | Some p \<Rightarrow> p);
          pageSize = min 100 (max 1 (case uf_pageSize f of None \<Rightarrow> 25 | Some p \<Rightarrow> p));
          rows = filter (user_matches contains f) (rev (aw_users s))
      in (length rows, page, pageSize, map shown_user (take (nat pageSize) (drop (nat ((page - 1) * pageSize)) rows))))"

definition set_user_status :: "accounts_db \<Rightarrow> string \<Rightarrow> string \<Rightarrow> user_status \<Rightarrow> bool \<Rightarrow> accounts_db \<times> unit result" where
  "set_user_status s actor userId status up =
     (case user_or_404 s userId of
        Inl e \<Rightarrow> (s, Inl e)
      | Inr u \<Rightarrow>
          if ac_id u = actor then (s, Inl (BadRequest ''You cannot change your own account status''))
          else (drop_cached up userId (set_account userId (\<lambda>v. v\<lparr>ac_status := status\<rparr>) s), Inr ()))"

definition set_user_role :: "accounts_db \<Rightarrow> string \<Rightarrow> role \<Rightarrow> accounts_db \<times> unit result" where
  "set_user_role s userId r =
     (case user_or_404 s userId of
        Inl e \<Rightarrow> (s, Inl e) | Inr _ \<Rightarrow> (set_account userId (\<lambda>v. v\<lparr>ac_role := r\<rparr>) s, Inr ()))"

definition set_super_admin :: "accounts_db \<Rightarrow> string \<Rightarrow> string \<Rightarrow> bool \<Rightarrow> accounts_db \<times> unit result" where
  "set_super_admin s actor userId value =
     (case user_or_404 s userId of
        Inl e \<Rightarrow> (s, Inl e)
      | Inr u \<Rightarrow>
          if value \<and> \<not> is_configured_platform_admin_email (Some (ac_email u))
          then (s, Inl (Forbidden ''Only the configured platform-admin account can be granted access''))
          else if ac_id u = actor \<and> \<not> value then (s, Inl (BadRequest ''You cannot revoke your own platform-admin access''))
          else (set_account userId (\<lambda>v. v\<lparr>ac_isSuperAdmin := value\<rparr>) s, Inr ()))"

definition send_reset_link :: "crypto \<Rightarrow> accounts_db \<Rightarrow> string \<Rightarrow> string \<Rightarrow> int \<Rightarrow> accounts_db \<times> unit result" where
  "send_reset_link cr s userId token now =
     (case user_or_404 s userId of
        Inl e \<Rightarrow> (s, Inl e) | Inr u \<Rightarrow> (request_password_reset cr s (ac_email u) token now, Inr ()))"

definition verify_user_email :: "accounts_db \<Rightarrow> string \<Rightarrow> bool \<Rightarrow> accounts_db \<times> unit result" where
  "verify_user_email s userId up =
     (case user_or_404 s userId of
        Inl e \<Rightarrow> (s, Inl e)
      | Inr _ \<Rightarrow> (drop_cached up userId (set_account userId (\<lambda>v. v\<lparr>ac_emailVerified := True, ac_otp := None,
          ac_otpExpiresAt := None\<rparr>) s), Inr ()))"

text \<open>The claims, with who stands behind them.\<close>

definition impersonate :: "accounts_db \<Rightarrow> string \<Rightarrow> string \<Rightarrow> (jwt_payload \<times> string) result" where
  "impersonate s actor userId =
     rbind (user_or_404 s userId) (\<lambda>u.
     rbind (guard_or (\<not> (ac_isSuperAdmin u \<and> ac_id u \<noteq> actor)) (Forbidden ''Cannot impersonate another platform admin'')) (\<lambda>_.
     rbind (guard_or (ac_status u \<noteq> DISABLED) (BadRequest ''Cannot impersonate a disabled account'')) (\<lambda>_.
       Inr (\<lparr>jwt_sub = ac_id u, jwt_role = ac_role u, jwt_name = ac_name u, jwt_email = ac_email u,
             jwt_organizationId = ac_organizationId u, jwt_emailVerified = ac_emailVerified u,
             jwt_isSuperAdmin = ac_isSuperAdmin u, jwt_recorder = None, jwt_preview = None\<rparr>, actor))))"

definition list_orgs :: "accounts_db \<Rightarrow> (org_account \<times> nat \<times> nat) list" where
  "list_orgs s =
     map (\<lambda>g. (g, length (filter (\<lambda>u. ac_organizationId u = Some (og_id g)) (aw_users s)),
               length (filter (\<lambda>c. co_organizationId c = Some (og_id g)) (db_courses (aw_db s))))) (rev (aw_orgs s))"

end
