(* ===== verification/QuickAccess.thy ===== *)
theory QuickAccess
  imports Accounts
begin

text \<open>
  The students' shortcut: \<open>src/auth/quick-access.service.ts\<close>. The table is a list of rows beside the
  accounts; the drawn slugs, bcrypt's salt and the clock are inputs. \<open>redeem\<close> is cut between its look
  at the row and what it writes.
\<close>

record quick_access =
  qk_id :: string
  qk_userId :: string
  qk_organizationId :: string
  qk_slug :: string
  qk_passcodeHash :: string
  qk_failedAttempts :: nat
  qk_lockedUntil :: "int option"
  qk_revokedAt :: "int option"
  qk_lastUsedAt :: "int option"

definition code_length :: nat where
  "code_length = 6"

definition max_attempts :: nat where
  "max_attempts = 5"

definition lock_ms :: int where
  "lock_ms = 15 * 60000"

section \<open>Choosing a code\<close>

definition blocklist :: "string list" where
  "blocklist = [''000000'', ''111111'', ''222222'', ''333333'', ''444444'', ''555555'', ''666666'', ''777777'',
     ''888888'', ''999999'', ''123456'', ''654321'', ''121212'', ''112233'', ''123123'', ''789456'', ''159753'',
     ''147258'', ''696969'', ''101010'', ''202020'', ''123321'', ''456456'', ''789789'', ''012345'', ''543210'',
     ''111222'', ''222111'']"

definition code_steps :: "string \<Rightarrow> int list" where
  "code_steps code = map2 (\<lambda>a b. int (of_char b) - int (of_char a)) code (tl code)"

definition is_sequential :: "string \<Rightarrow> bool" where
  "is_sequential code \<longleftrightarrow> list_all (\<lambda>d. d = 1) (code_steps code) \<or> list_all (\<lambda>d. d = - 1) (code_steps code)"

definition six_digits :: "string \<Rightarrow> bool" where
  "six_digits code \<longleftrightarrow> length code = code_length \<and> list_all digit code"

text \<open>\<open>/^(19|20)\d{2}(19|20)\d{2}$/\<close>\<close>

definition two_years :: "string \<Rightarrow> bool" where
  "two_years code \<longleftrightarrow>
     length code = 8 \<and> list_all digit code \<and> take 2 code \<in> {''19'', ''20''} \<and> take 2 (drop 4 code) \<in> {''19'', ''20''}"

definition assert_usable_code :: "string \<Rightarrow> unit result" where
  "assert_usable_code code =
     rbind (guard_or (six_digits code) (BadRequest ''Your code must be exactly 6 digits.'')) (\<lambda>_.
     rbind (guard_or (code \<notin> set blocklist) (BadRequest ''That code is too easy to guess. Pick something less obvious.'')) (\<lambda>_.
     rbind (guard_or (\<not> is_sequential code) (BadRequest ''Codes that run straight up or down are too easy to guess.'')) (\<lambda>_.
     rbind (guard_or (card (set code) \<noteq> 1) (BadRequest ''A code of one repeated digit is too easy to guess.'')) (\<lambda>_.
       guard_or (\<not> two_years code) (BadRequest ''Pick something that is not a year.'')))))"

section \<open>The shortcut\<close>

definition by_slug :: "quick_access list \<Rightarrow> string \<Rightarrow> quick_access option" where
  "by_slug rows slug = find (\<lambda>r. qk_slug r = slug) rows"

definition quick_of :: "quick_access list \<Rightarrow> string \<Rightarrow> string \<Rightarrow> quick_access option" where
  "quick_of rows userId o' = find (\<lambda>r. qk_userId r = userId \<and> qk_organizationId r = o') rows"

text \<open>The first of five drawn slugs that is free.\<close>

definition mint_slug :: "quick_access list \<Rightarrow> string list \<Rightarrow> string result" where
  "mint_slug rows drawn =
     from_option (Internal ''Could not allocate a quick-access slug'') (find (\<lambda>x. by_slug rows x = None) (take 5 drawn))"

definition set_row :: "string \<Rightarrow> (quick_access \<Rightarrow> quick_access) \<Rightarrow> quick_access list \<Rightarrow> quick_access list" where
  "set_row i f rows = map (\<lambda>r. if qk_id r = i then f r else r) rows"

definition set_passcode ::
  "crypto \<Rightarrow> accounts_db \<Rightarrow> quick_access list \<Rightarrow> string \<Rightarrow> string \<Rightarrow> string \<Rightarrow> string list \<Rightarrow> string \<Rightarrow> string
    \<Rightarrow> quick_access list \<times> string result"
where
  "set_passcode cr s rows userId organizationId passcode drawn newId salt =
     (case rbind (assert_usable_code passcode) (\<lambda>_.
            rbind (guard_or (list_ex (\<lambda>u. ac_id u = userId \<and> ac_organizationId u = Some organizationId) (aw_users s))
              (Forbidden ''Not a member of this workspace'')) (\<lambda>_. mint_slug rows drawn)) of
        Inl e \<Rightarrow> (rows, Inl e)
      | Inr slug \<Rightarrow>
          ((case quick_of rows userId organizationId of
              None \<Rightarrow> rows @ [\<lparr>qk_id = newId, qk_userId = userId, qk_organizationId = organizationId, qk_slug = slug,
                qk_passcodeHash = cr_hash cr passcode salt, qk_failedAttempts = 0, qk_lockedUntil = None,
                qk_revokedAt = None, qk_lastUsedAt = None\<rparr>]
            | Some q \<Rightarrow> set_row (qk_id q) (\<lambda>r. r\<lparr>qk_slug := slug, qk_passcodeHash := cr_hash cr passcode salt,
                qk_failedAttempts := 0, qk_lockedUntil := None, qk_revokedAt := None\<rparr>) rows),
           Inr slug))"

definition current_shortcut :: "quick_access list \<Rightarrow> string \<Rightarrow> string \<Rightarrow> (string \<times> int option) option" where
  "current_shortcut rows userId o' =
     (case quick_of rows userId o' of None \<Rightarrow> None
      | Some r \<Rightarrow> if qk_revokedAt r \<noteq> None then None else Some (qk_slug r, qk_lastUsedAt r))"

definition revoke_shortcut :: "quick_access list \<Rightarrow> string \<Rightarrow> string \<Rightarrow> int \<Rightarrow> quick_access list" where
  "revoke_shortcut rows userId o' now =
     map (\<lambda>r. if qk_userId r = userId \<and> qk_organizationId r = o' \<and> qk_revokedAt r = None
              then r\<lparr>qk_revokedAt := Some now\<rparr> else r) rows"

record shortcut_view =
  sv_workspaceName :: string
  sv_logoUrl :: "string option"
  sv_primaryColor :: "string option"
  sv_accentColor :: "string option"
  sv_organizationId :: string

definition describe_shortcut :: "accounts_db \<Rightarrow> quick_access list \<Rightarrow> string \<Rightarrow> shortcut_view result" where
  "describe_shortcut s rows slug =
     rbind (case by_slug rows slug of
              None \<Rightarrow> Inl (NotFound ''Unknown shortcut'')
            | Some r \<Rightarrow> if qk_revokedAt r \<noteq> None then Inl (NotFound ''Unknown shortcut'') else Inr r) (\<lambda>r.
     rbind (from_option (Internal ''Inconsistent query result'') (find (\<lambda>g. og_id g = qk_organizationId r) (aw_orgs s))) (\<lambda>g.
       Inr \<lparr>sv_workspaceName = og_name g, sv_logoUrl = og_logoUrl g, sv_primaryColor = og_primaryColor g,
            sv_accentColor = og_accentColor g, sv_organizationId = qk_organizationId r\<rparr>))"

definition refused :: http_error where
  "refused = Unauthorized ''That code is not right for this shortcut.''"

definition locked_message :: "int \<Rightarrow> string" where
  "locked_message ms =
     (let mins = \<lceil>of_int ms / (60000 :: rat)\<rceil>
      in ''Too many wrong codes. Try again in '' @ int_text mins @ '' minute'' @ (if mins = 1 then [] else ''s'') @
         '', or sign in with your email and password.'')"

definition redeem_look :: "quick_access list \<Rightarrow> string \<Rightarrow> int \<Rightarrow> quick_access result" where
  "redeem_look rows slug now =
     (case by_slug rows slug of
        None \<Rightarrow> Inl refused
      | Some r \<Rightarrow>
          if qk_revokedAt r \<noteq> None then Inl refused
          else (case qk_lockedUntil r of
                  Some t \<Rightarrow> if t > now then Inl (Unauthorized (locked_message (t - now))) else Inr r
                | None \<Rightarrow> Inr r))"

definition miss :: "int \<Rightarrow> quick_access \<Rightarrow> quick_access \<Rightarrow> quick_access" where
  "miss now seen r =
     (let attempts = qk_failedAttempts seen + 1; lock = (max_attempts \<le> attempts)
      in r\<lparr>qk_failedAttempts := (if lock then 0 else attempts), qk_lockedUntil := (if lock then Some (now + lock_ms) else None)\<rparr>)"

definition redeem_settle ::
  "crypto \<Rightarrow> accounts_db \<Rightarrow> quick_access list \<Rightarrow> quick_access \<Rightarrow> string \<Rightarrow> int \<Rightarrow> quick_access list \<times> string result"
where
  "redeem_settle cr s rows seen passcode now =
     (if \<not> cr_verify cr passcode (qk_passcodeHash seen) then (set_row (qk_id seen) (miss now seen) rows, Inl refused)
      else (case find_account s (qk_userId seen) of
              None \<Rightarrow> (rows, Inl (Internal ''Inconsistent query result''))
            | Some u \<Rightarrow>
                if ac_status u = DISABLED then (rows, Inl (Forbidden ''This account has been disabled''))
                else (set_row (qk_id seen) (\<lambda>r. r\<lparr>qk_failedAttempts := 0, qk_lockedUntil := None, qk_lastUsedAt := Some now\<rparr>) rows,
                      Inr (qk_userId seen))))"

definition redeem ::
  "crypto \<Rightarrow> accounts_db \<Rightarrow> quick_access list \<Rightarrow> string \<Rightarrow> string \<Rightarrow> int \<Rightarrow> quick_access list \<times> string result"
where
  "redeem cr s rows slug passcode now =
     (case redeem_look rows slug now of
        Inl e \<Rightarrow> (rows, Inl e) | Inr seen \<Rightarrow> redeem_settle cr s rows seen passcode now)"

text \<open>The controller's \<open>redeemQuickAccess\<close>: the code, then a session like any other.\<close>

definition redeem_quick_access ::
  "crypto \<Rightarrow> accounts_db \<Rightarrow> quick_access list \<Rightarrow> string \<Rightarrow> string \<Rightarrow> int \<Rightarrow> quick_access list \<times> auth_result result"
where
  "redeem_quick_access cr s rows slug passcode now =
     (case redeem cr s rows slug passcode now of (rows', r) \<Rightarrow> (rows', rbind r (session_for s)))"

end
