(* ===== verification/AccountRuns.thy ===== *)
theory AccountRuns
  imports Workspaces QuickAccess
begin

text \<open>
  Runs of the account service, the invites and the platform's administrator: who a session speaks for,
  what an e-mail proves, and how far a link reaches.
\<close>

section \<open>Steps\<close>

text \<open>The pipe of \<open>CreateInviteDto\<close> on the number of uses.\<close>

definition invite_dto_ok :: "invite_dto \<Rightarrow> bool" where
  "invite_dto_ok dto \<longleftrightarrow> (case id_maxUses dto of None \<Rightarrow> True | Some m \<Rightarrow> 1 \<le> m \<and> m \<le> 100000)"

datatype account_op =
    Register register_dto string string string int bool
  | RegisterOrg org_admin_dto string string string string int bool
  | RequestReset string string int
  | ResetPassword string string string int bool
  | ChangePassword string string string string
  | Login string string
  | SessionFor string
  | SendOtp string string int bool
  | VerifyEmail string string int bool
  | JoinWorkspace string string int
  | CreateWorkspace string org_dto string int
  | SwitchWorkspace string string
  | CreateInvite string string invite_dto string string int
  | RevokeInvite string string int
  | SetMemberStatus string string user_status bool
  | UpdateBrand string brand_dto
  | UpdateSettings string settings_dto
  | SetUserStatus string string user_status bool
  | SetUserRole string role
  | SetSuperAdmin string string bool
  | SendResetLink string string int
  | VerifyUserEmail string bool

definition signed :: "accounts_db \<times> auth_result result \<Rightarrow> accounts_db \<times> auth_result list" where
  "signed x = (fst x, case snd x of Inl _ \<Rightarrow> [] | Inr r \<Rightarrow> [r])"

fun account_do :: "crypto \<Rightarrow> (string \<Rightarrow> string) \<Rightarrow> accounts_db \<Rightarrow> account_op \<Rightarrow> accounts_db \<times> auth_result list" where
  "account_do cr lower s (Register dto i salt code now sent) = signed (register cr s dto i salt code now sent)"
| "account_do cr lower s (RegisterOrg dto g i salt code now sent) = signed (register_organization cr lower s dto g i salt code now sent)"
| "account_do cr lower s (RequestReset email tok now) = (request_password_reset cr s email tok now, [])"
| "account_do cr lower s (ResetPassword tok p salt now up) = (fst (reset_password cr s tok p salt now up), [])"
| "account_do cr lower s (ChangePassword i p q salt) = (fst (change_password cr s i p q salt), [])"
| "account_do cr lower s (Login email p) = signed (s, login cr s email p)"
| "account_do cr lower s (SessionFor i) = signed (s, session_for s i)"
| "account_do cr lower s (SendOtp i code now sent) = (fst (send_verification_otp cr s i code now sent), [])"
| "account_do cr lower s (VerifyEmail i code now up) = signed (verify_email cr s i code now up)"
| "account_do cr lower s (JoinWorkspace i tok now) = signed (join_workspace s i tok now)"
| "account_do cr lower s (CreateWorkspace i dto g now) = signed (create_workspace lower s i dto g now)"
| "account_do cr lower s (SwitchWorkspace i g) = signed (s, switch_workspace s i g)"
| "account_do cr lower s (CreateInvite g i dto v tok now) = (if invite_dto_ok dto then fst (create_invite s g i dto v tok now) else s, [])"
| "account_do cr lower s (RevokeInvite g v now) = (fst (revoke_invite s g v now), [])"
| "account_do cr lower s (SetMemberStatus g i st up) = (fst (set_member_status s g i st up), [])"
| "account_do cr lower s (UpdateBrand g dto) = (fst (update_brand s g dto), [])"
| "account_do cr lower s (UpdateSettings g dto) = (fst (update_settings s g dto), [])"
| "account_do cr lower s (SetUserStatus a i st up) = (fst (set_user_status s a i st up), [])"
| "account_do cr lower s (SetUserRole i r) = (fst (set_user_role s i r), [])"
| "account_do cr lower s (SetSuperAdmin a i b) = (fst (set_super_admin s a i b), [])"
| "account_do cr lower s (SendResetLink i tok now) = (fst (send_reset_link cr s i tok now), [])"
| "account_do cr lower s (VerifyUserEmail i up) = (fst (verify_user_email s i up), [])"

definition account_step ::
  "crypto \<Rightarrow> (string \<Rightarrow> string) \<Rightarrow> accounts_db \<times> auth_result list \<Rightarrow> account_op \<Rightarrow> accounts_db \<times> auth_result list"
where
  "account_step cr lower x op = (case account_do cr lower (fst x) op of (s, rs) \<Rightarrow> (s, snd x @ rs))"

text \<open>The roles the platform's administrators gave to accounts in a run.\<close>

definition given_roles :: "account_op list \<Rightarrow> (string \<times> role) set" where
  "given_roles ops = {(i, r). SetUserRole i r \<in> set ops}"

definition no_accounts :: "accounts_db \<Rightarrow> bool" where
  "no_accounts s \<longleftrightarrow> aw_users s = [] \<and> aw_orgs s = [] \<and> aw_members s = [] \<and> aw_invites s = [] \<and> aw_mails s = []"

section \<open>Members and their workspaces\<close>

text \<open>The part of the tables that says who belongs where: accounts with role and workspace, members,
  invites with workspace, role, limit and uses, workspaces.\<close>

type_synonym roster =
  "(string \<times> role \<times> string option) list \<times> membership list \<times> (string \<times> string \<times> role \<times> int option \<times> int) list \<times> string list"

definition roster :: "accounts_db \<Rightarrow> roster" where
  "roster s =
     (map (\<lambda>u. (ac_id u, ac_role u, ac_organizationId u)) (aw_users s), aw_members s,
      map (\<lambda>v. (iv_id v, iv_organizationId v, iv_role v, iv_maxUses v, iv_uses v)) (aw_invites s), map og_id (aw_orgs s))"

text \<open>A member of the workspace, in that role or in one that the platform gave; \<open>R\<close>: the roles it gave.\<close>

definition is_member :: "(string \<times> role) set \<Rightarrow> membership list \<Rightarrow> string \<Rightarrow> string option \<Rightarrow> role \<Rightarrow> bool" where
  "is_member R ms i g r \<longleftrightarrow> (\<exists>m \<in> set ms. mb_userId m = i \<and> Some (mb_organizationId m) = g \<and> (mb_role m = r \<or> (i, r) \<in> R))"

definition admins :: "membership list \<Rightarrow> string \<Rightarrow> membership list" where
  "admins ms g = filter (\<lambda>m. mb_organizationId m = g \<and> mb_role m = ORG_ADMIN) ms"

definition newcomers :: "membership list \<Rightarrow> string \<Rightarrow> membership list" where
  "newcomers ms g = filter (\<lambda>m. mb_organizationId m = g \<and> mb_role m \<noteq> ORG_ADMIN) ms"

fun link_ok :: "string list \<Rightarrow> string \<times> string \<times> role \<times> int option \<times> int \<Rightarrow> bool" where
  "link_ok gs (k, g, r, limit, n) \<longleftrightarrow>
     r \<noteq> ORG_ADMIN \<and> g \<in> set gs \<and> 0 \<le> n \<and> (case limit of None \<Rightarrow> True | Some m \<Rightarrow> n \<le> m)"

definition used :: "(string \<times> string \<times> role \<times> int option \<times> int) list \<Rightarrow> string \<Rightarrow> int" where
  "used vs g = sum_list (map (\<lambda>(k, g', r, limit, n). if g' = g then n else 0) vs)"

fun roster_ok :: "(string \<times> role) set \<Rightarrow> roster \<Rightarrow> bool" where
  "roster_ok R (us, ms, vs, gs) \<longleftrightarrow>
     distinct (map fst us) \<and> distinct (map (\<lambda>m. (mb_userId m, mb_organizationId m)) ms) \<and> distinct (map fst vs) \<and>
     (\<forall>(i, r, g) \<in> set us. is_member R ms i g r) \<and>
     (\<forall>m \<in> set ms. mb_organizationId m \<in> set gs \<and> mb_userId m \<in> fst ` set us) \<and>
     (\<forall>g \<in> set gs. length (admins ms g) = 1) \<and> (\<forall>v \<in> set vs. link_ok gs v) \<and>
     (\<forall>g. int (length (newcomers ms g)) \<le> used vs g)"

definition new_member :: "string \<Rightarrow> string \<Rightarrow> role \<Rightarrow> membership" where
  "new_member i g r = \<lparr>mb_userId = i, mb_organizationId = g, mb_role = r, mb_status = ACTIVE\<rparr>"

fun spent :: "string \<Rightarrow> string \<times> string \<times> role \<times> int option \<times> int \<Rightarrow> string \<times> string \<times> role \<times> int option \<times> int" where
  "spent k (k', g, r, limit, n) = (k', g, r, limit, if k' = k then n + 1 else n)"

text \<open>The account of a new member is there already, or comes with the membership.\<close>

definition holds_account :: "(string \<times> role \<times> string option) list \<Rightarrow> string \<Rightarrow> string \<Rightarrow> role \<Rightarrow> (string \<times> role \<times> string option) list \<Rightarrow> bool" where
  "holds_account us i g r us' \<longleftrightarrow> (us' = us \<and> i \<in> fst ` set us) \<or> (us' = us @ [(i, r, Some g)] \<and> i \<notin> fst ` set us)"

lemma is_member_more: "is_member R ms i g r \<Longrightarrow> is_member R (ms @ xs) i g r"
  by (auto simp: is_member_def)

lemma spent_fst [simp]: "fst (spent k v) = fst v"
  by (cases v) simp

lemma spent_keys: "map fst (map (spent k) vs) = map fst vs"
  by simp

lemma used_spent:
  assumes "distinct (map fst vs)" and "(k, g, r, limit, n) \<in> set vs"
  shows "used (map (spent k) vs) g' = used vs g' + (if g' = g then 1 else 0)"
  using assms
proof (induction vs)
  case (Cons v vs)
  obtain k' h r' l m where v: "v = (k', h, r', l, m)" by (cases v)
  have out: "used (map (spent k) vs) g' = used vs g'" if "k \<notin> fst ` set vs"
    using that unfolding used_def by (intro arg_cong [where f = sum_list]) (force simp: image_iff)
  show ?case using Cons out by (auto simp: used_def v image_iff)
qed simp

lemma link_ok_spent:
  assumes "link_ok gs (k', g, r, limit, n)" and "k' = k \<Longrightarrow> (case limit of None \<Rightarrow> True | Some m \<Rightarrow> n < m)"
  shows "link_ok gs (spent k (k', g, r, limit, n))"
  using assms by (auto split: option.splits)

lemma roster_user:
  assumes "distinct (map fst us)" and "\<forall>(i, r, h) \<in> set us. is_member R ms i h r" and "holds_account us i g r us'"
  shows "distinct (map fst us')" and "\<forall>(j, q, h) \<in> set us'. is_member R (ms @ [new_member i g r]) j h q"
    and "fst ` set us' = insert i (fst ` set us)"
proof -
  have m: "is_member R (ms @ [new_member i g r]) i (Some g) r" by (simp add: is_member_def new_member_def)
  show "distinct (map fst us')" using assms(1,3) by (auto simp: holds_account_def)
  show "fst ` set us' = insert i (fst ` set us)" using assms(3) by (auto simp: holds_account_def)
  have "\<forall>(j, q, h) \<in> set us. is_member R (ms @ [new_member i g r]) j h q" using assms(2) is_member_more by fast
  then show "\<forall>(j, q, h) \<in> set us'. is_member R (ms @ [new_member i g r]) j h q"
    using assms(3) m by (auto simp: holds_account_def)
qed

lemma links_spent:
  assumes "distinct (map fst vs)" and "\<forall>w \<in> set vs. link_ok gs w" and "(k, g, r, limit, n) \<in> set vs"
    and "case limit of None \<Rightarrow> True | Some m \<Rightarrow> n < m"
  shows "\<forall>w \<in> set (map (spent k) vs). link_ok gs w"
proof -
  have "link_ok gs (spent k w)" if "w \<in> set vs" for w
  proof -
    obtain k' h q l m where w: "w = (k', h, q, l, m)" by (cases w)
    have "k' = k \<Longrightarrow> l = limit \<and> m = n" using assms(1,3) that by (auto simp: w dest: eq_key_imp_eq_value [of vs k])
    then show ?thesis using assms(2,4) that by (auto simp: w intro!: link_ok_spent split: option.splits)
  qed
  then show ?thesis by simp
qed

lemma roster_members_join:
  assumes "distinct (map (\<lambda>m. (mb_userId m, mb_organizationId m)) ms)" and "\<not> (\<exists>m \<in> set ms. mb_userId m = i \<and> mb_organizationId m = g)"
    and "\<forall>m \<in> set ms. mb_organizationId m \<in> G \<and> mb_userId m \<in> U" and "g \<in> G'" and "G \<subseteq> G'"
  shows "distinct (map (\<lambda>m. (mb_userId m, mb_organizationId m)) (ms @ [new_member i g r]))"
    and "\<forall>m \<in> set (ms @ [new_member i g r]). mb_organizationId m \<in> G' \<and> mb_userId m \<in> insert i U"
  using assms by (auto simp: new_member_def)

lemma roster_join:
  assumes ok: "roster_ok R (us, ms, vs, gs)" and acc: "holds_account us i g r us'"
    and new: "\<not> (\<exists>m \<in> set ms. mb_userId m = i \<and> mb_organizationId m = g)"
    and v: "(k, g, r', limit, n) \<in> set vs" and r: "r \<noteq> ORG_ADMIN" and room: "case limit of None \<Rightarrow> True | Some m \<Rightarrow> n < m"
  shows "roster_ok R (us', ms @ [new_member i g r], map (spent k) vs, gs)"
proof -
  have d: "distinct (map fst vs)" and l: "\<forall>w \<in> set vs. link_ok gs w" using ok by simp_all
  then have g: "g \<in> set gs" using v by fastforce
  have "int (length (newcomers (ms @ [new_member i g r]) h)) \<le> used (map (spent k) vs) h" for h
    using ok r used_spent [OF d v, of h] by (auto simp: newcomers_def new_member_def)
  moreover have "admins (ms @ [new_member i g r]) h = admins ms h" for h
    using r by (simp add: admins_def new_member_def)
  moreover have "length (admins ms h) = 1" if "h \<in> set gs" for h using ok that by simp
  moreover have o': "distinct (map fst us)" "\<forall>(i, r, h) \<in> set us. is_member R ms i h r"
    "distinct (map (\<lambda>m. (mb_userId m, mb_organizationId m)) ms)"
    "\<forall>m \<in> set ms. mb_organizationId m \<in> set gs \<and> mb_userId m \<in> fst ` set us" using ok by simp_all
  moreover note roster_members_join [OF o'(3) new o'(4) g subset_refl, of r] roster_user [OF o'(1,2) acc] links_spent [OF d l v room] d
  ultimately show ?thesis unfolding roster_ok.simps spent_keys by (intro conjI) simp_all
qed

lemma roster_spend:
  assumes ok: "roster_ok R (us, ms, vs, gs)" and v: "(k, g, r, limit, n) \<in> set vs"
    and room: "case limit of None \<Rightarrow> True | Some m \<Rightarrow> n < m"
  shows "roster_ok R (us, ms, map (spent k) vs, gs)"
proof -
  have d: "distinct (map fst vs)" and l: "\<forall>w \<in> set vs. link_ok gs w" using ok by simp_all
  have "int (length (newcomers ms h)) \<le> used (map (spent k) vs) h" for h
    using ok used_spent [OF d v, of h] by (auto intro: order_trans)
  then show ?thesis using ok links_spent [OF d l v room] unfolding roster_ok.simps spent_keys by blast
qed

lemma roster_found:
  assumes ok: "roster_ok R (us, ms, vs, gs)" and acc: "holds_account us i g ORG_ADMIN us'" and new: "g \<notin> set gs"
  shows "roster_ok R (us', ms @ [new_member i g ORG_ADMIN], vs, gs @ [g])"
proof -
  have m: "\<forall>m \<in> set ms. mb_organizationId m \<in> set gs \<and> mb_userId m \<in> fst ` set us" using ok by simp
  then have no: "\<not> (\<exists>m \<in> set ms. mb_userId m = i \<and> mb_organizationId m = g)" using new by auto
  have e: "admins ms g = []" using m new by (auto simp: admins_def filter_empty_conv)
  have "length (admins (ms @ [new_member i g ORG_ADMIN]) h) = 1" if "h \<in> set (gs @ [g])" for h
    using ok that e new by (auto simp: admins_def new_member_def)
  moreover have "newcomers (ms @ [new_member i g ORG_ADMIN]) h = newcomers ms h" for h
    by (simp add: newcomers_def new_member_def)
  moreover have "\<forall>w \<in> set vs. link_ok (gs @ [g]) w" using ok by auto
  moreover note roster_members_join [of ms i g "set gs" "fst ` set us" "set (gs @ [g])" ORG_ADMIN, OF _ no m] roster_user [OF _ _ acc, of R ms]
  ultimately show ?thesis using ok unfolding roster_ok.simps by auto
qed

lemma roster_invite:
  assumes ok: "roster_ok R (us, ms, vs, gs)" and "k \<notin> fst ` set vs" and "link_ok gs (k, g, r, limit, 0)"
  shows "roster_ok R (us, ms, vs @ [(k, g, r, limit, 0)], gs)"
  using assms by (auto simp: used_def)

section \<open>What each operation does to the roster\<close>

lemma roster_set_account [simp]:
  "(\<And>u. ac_id (f u) = ac_id u \<and> ac_role (f u) = ac_role u \<and> ac_organizationId (f u) = ac_organizationId u) \<Longrightarrow>
    roster (set_account i f s) = roster s"
  by (simp add: roster_def set_account_def comp_def if_distrib cong: if_cong)

lemma roster_drop [simp]: "roster (drop_cached up i s) = roster s"
  by (simp add: roster_def drop_cached_def)

lemma roster_mails [simp]: "roster (s\<lparr>aw_mails := ms\<rparr>) = roster s"
  by (simp add: roster_def)

lemma roster_land: "land c r u s = Inr t \<Longrightarrow> roster t = roster s"
  by (auto simp: land_def enrol_def assign_def roster_def split: if_splits)

lemma roster_plugins [simp]: "roster (enable_plugins g ks s) = roster s"
  by (simp add: roster_def enable_plugins_def)

lemma roster_member:
  "roster (add_member i g r s) = (case roster s of (us, ms, vs, gs) \<Rightarrow> (us, ms @ [new_member i g r], vs, gs))"
  by (simp add: roster_def add_member_def new_member_def)

lemma roster_spend_use: "roster (spend_use k s) = (case roster s of (us, ms, vs, gs) \<Rightarrow> (us, ms, map (spent k) vs, gs))"
  by (simp add: roster_def spend_use_def)

lemma roster_reset [simp]: "roster (request_password_reset cr s e t n) = roster s"
  by (simp add: request_password_reset_def Let_def split: option.splits)

lemma roster_reset_password [simp]: "roster (fst (reset_password cr s t p q n up)) = roster s"
  by (simp add: reset_password_def split: option.splits)

lemma roster_change_password [simp]: "roster (fst (change_password cr s i p q salt)) = roster s"
  by (simp add: change_password_def split: option.splits)

lemma roster_otp [simp]: "roster (fst (send_verification_otp cr s i c n b)) = roster s"
  by (simp add: send_verification_otp_def Let_def split: option.splits)

lemma roster_verify [simp]: "roster (fst (verify_email cr s i c n up)) = roster s"
  by (simp add: verify_email_def Let_def split: option.splits)

lemma roster_statuses [simp]:
  "roster (fst (set_member_status s g i st up)) = roster s" "roster (fst (set_user_status s a i st up)) = roster s"
  "roster (fst (set_super_admin s a i b)) = roster s" "roster (fst (verify_user_email s i up)) = roster s"
  "roster (fst (send_reset_link cr s i tok n)) = roster s"
  by (simp_all add: set_member_status_def set_user_status_def set_super_admin_def verify_user_email_def send_reset_link_def
      split: option.splits sum.splits)

lemma roster_set_workspace: "(\<And>g. og_id (f g) = og_id g) \<Longrightarrow> roster (fst (set_workspace i f s)) = roster s"
  by (simp add: set_workspace_def roster_def comp_def if_distrib cong: if_cong split: option.splits)

lemma roster_brand [simp]: "roster (fst (update_brand s g dto)) = roster s" "roster (fst (update_settings s g sd)) = roster s"
  by (simp_all add: update_brand_def update_settings_def roster_set_workspace)

lemma roster_revoke [simp]: "roster (fst (revoke_invite s g v n)) = roster s"
  by (simp add: revoke_invite_def roster_def comp_def if_distrib cong: if_cong)

lemma with_otp_roster [simp]: "roster (fst (with_otp cr s i u c n b)) = roster s"
  using roster_otp [of cr s i c n b] by (auto simp: with_otp_def simp del: roster_otp split: prod.splits sum.splits)

lemma with_otp_session: "snd (with_otp cr s i u c n b) = Inr r \<Longrightarrow> r = own_session u"
  by (auto simp: with_otp_def split: prod.splits sum.splits)

definition key_of :: "invite \<Rightarrow> string \<times> string \<times> role \<times> int option \<times> int" where
  "key_of v = (iv_id v, iv_organizationId v, iv_role v, iv_maxUses v, iv_uses v)"

lemma usableD:
  assumes "assert_invite_usable (invite_by_token s t) n = Inr v"
  shows "v \<in> set (aw_invites s)" and "iv_role v \<noteq> ORG_ADMIN" and "iv_revokedAt v = None"
    and "case iv_maxUses v of None \<Rightarrow> True | Some m \<Rightarrow> iv_uses v < m"
  using assms by (auto simp: assert_invite_usable_def invite_by_token_def find_Some_iff split: option.splits if_splits)

lemma key_in_roster: "v \<in> set (aw_invites s) \<Longrightarrow> roster s = (us, ms, vs, gs) \<Longrightarrow> key_of v \<in> set vs"
  by (auto simp: roster_def key_of_def)

lemma create_account_roster:
  "create_account u s = Inr t \<Longrightarrow> roster s = (us, ms, vs, gs) \<Longrightarrow>
    roster t = (us @ [(ac_id u, ac_role u, ac_organizationId u)], ms, vs, gs) \<and> ac_id u \<notin> fst ` set us"
  by (fastforce simp: create_account_def roster_def list_ex_iff split: if_splits)

lemma create_org_roster:
  "create_org g s = Inr t \<Longrightarrow> roster s = (us, ms, vs, gs) \<Longrightarrow> roster t = (us, ms, vs, gs @ [og_id g]) \<and> og_id g \<notin> set gs"
  by (fastforce simp: create_org_def roster_def list_ex_iff split: if_splits)

lemma register_roster:
  assumes "register_rows cr s dto v i salt = Inr t" and "roster s = (us, ms, vs, gs)"
  shows "roster t = (us @ [(i, iv_role v, Some (iv_organizationId v))], ms @ [new_member i (iv_organizationId v) (iv_role v)],
    map (spent (iv_id v)) vs, gs)" and "i \<notin> fst ` set us"
proof -
  obtain s1 where s1: "create_account (new_account i (rd_name dto) (rd_email dto) (cr_hash cr (rd_password dto) salt) (iv_role v) (iv_organizationId v)) s = Inr s1"
    and t: "land (iv_courseId v) (iv_role v) i (spend_use (iv_id v) (add_member i (iv_organizationId v) (iv_role v) s1)) = Inr t"
    using assms(1) unfolding register_rows_def by (auto simp: res)
  note c = create_account_roster [OF s1 assms(2)]
  show "i \<notin> fst ` set us" using c by (simp add: new_account_def)
  show "roster t = (us @ [(i, iv_role v, Some (iv_organizationId v))], ms @ [new_member i (iv_organizationId v) (iv_role v)],
    map (spent (iv_id v)) vs, gs)"
    unfolding roster_land [OF t] using c by (simp add: roster_spend_use roster_member new_account_def)
qed

lemma org_roster:
  assumes "register_org_rows cr s dto slug g i salt = Inr t" and "roster s = (us, ms, vs, gs)"
  shows "roster t = (us @ [(i, ORG_ADMIN, Some g)], ms @ [new_member i g ORG_ADMIN], vs, gs @ [g])"
    and "i \<notin> fst ` set us" and "g \<notin> set gs"
proof -
  obtain s1 s2 where s1: "create_org (new_org g slug (org_dto.truncate dto)) s = Inr s1"
    and s2: "create_account (new_account i (od_name dto) (od_email dto) (cr_hash cr (od_password dto) salt) ORG_ADMIN g) s1 = Inr s2"
    and t: "t = enable_plugins g (od_pluginKeys dto) (add_member i g ORG_ADMIN s2)"
    using assms(1) unfolding register_org_rows_def by (auto simp: res)
  have o1: "roster s1 = (us, ms, vs, gs @ [g])" "g \<notin> set gs" using create_org_roster [OF s1 assms(2)] by (simp_all add: new_org_def)
  note c = create_account_roster [OF s2 o1(1)]
  show "g \<notin> set gs" by (rule o1(2))
  show "i \<notin> fst ` set us" using c by (simp add: new_account_def)
  show "roster t = (us @ [(i, ORG_ADMIN, Some g)], ms @ [new_member i g ORG_ADMIN], vs, gs @ [g])"
    unfolding t using c by (simp add: roster_member new_account_def)
qed

lemma account_found: "find_account s i = Some u \<Longrightarrow> u \<in> set (aw_users s) \<and> ac_id u = i"
  by (auto simp: find_account_def find_Some_iff)

lemma account_key:
  assumes "find_account s i \<noteq> None" and "roster s = (us, ms, vs, gs)"
  shows "i \<in> fst ` set us"
proof -
  obtain u where "find_account s i = Some u" using assms(1) by blast
  then have "ac_id u = i" and "u \<in> set (aw_users s)" using account_found by auto
  then show ?thesis using assms(2) by (auto simp: roster_def image_image)
qed

lemma join_rowsD:
  assumes "join_rows s i v = Inr (t, r)" and "roster s = (us, ms, vs, gs)"
  defines "g \<equiv> iv_organizationId v"
  shows "i \<in> fst ` set us"
    and "(roster t = (us, ms @ [new_member i g (iv_role v)], map (spent (iv_id v)) vs, gs) \<and>
            \<not> (\<exists>m \<in> set ms. mb_userId m = i \<and> mb_organizationId m = g) \<and> r = iv_role v) \<or>
         ((roster t = (us, ms, vs, gs) \<or> roster t = (us, ms, map (spent (iv_id v)) vs, gs)) \<and> is_member R ms i (Some g) r)"
proof -
  have a: "find_account s i \<noteq> None" using assms(1) by (auto simp: join_rows_def Let_def split: if_splits)
  then show "i \<in> fst ` set us" by (rule account_key [OF _ assms(2)])
  have ms: "ms = aw_members s" using assms(2) by (simp add: roster_def)
  show "(roster t = (us, ms @ [new_member i g (iv_role v)], map (spent (iv_id v)) vs, gs) \<and>
            \<not> (\<exists>m \<in> set ms. mb_userId m = i \<and> mb_organizationId m = g) \<and> r = iv_role v) \<or>
         ((roster t = (us, ms, vs, gs) \<or> roster t = (us, ms, map (spent (iv_id v)) vs, gs)) \<and> is_member R ms i (Some g) r)"
  proof (cases "find_member s i g")
    case None
    then have no: "\<not> (\<exists>m \<in> set ms. mb_userId m = i \<and> mb_organizationId m = g)"
      by (auto simp: ms find_member_def find_None_iff)
    have "roster t = (us, ms @ [new_member i g (iv_role v)], map (spent (iv_id v)) vs, gs) \<and> r = iv_role v"
      using assms(1,2) a None
      by (auto simp: join_rows_def Let_def g_def res roster_spend_use roster_member dest!: roster_land split: if_splits)
    then show ?thesis using no by blast
  next
    case (Some m)
    then have "is_member R ms i (Some g) (mb_role m)" by (auto simp: ms find_member_def find_Some_iff is_member_def)
    moreover have "r = mb_role m \<and> (roster t = (us, ms, vs, gs) \<or> roster t = (us, ms, map (spent (iv_id v)) vs, gs))"
      using assms(1,2) a Some by (auto simp: join_rows_def Let_def g_def res roster_spend_use dest!: roster_land split: if_splits)
    ultimately show ?thesis by blast
  qed
qed

section \<open>The roster over a run\<close>

declare roster_ok.simps [simp del]

definition members_ok :: "(string \<times> role) set \<Rightarrow> accounts_db \<Rightarrow> bool" where
  "members_ok R s \<longleftrightarrow> roster_ok R (roster s)"

definition speaks_for_member :: "(string \<times> role) set \<Rightarrow> accounts_db \<Rightarrow> auth_result \<Rightarrow> bool" where
  "speaks_for_member R s r \<longleftrightarrow>
     (let p = ar_accessToken r in is_member R (aw_members s) (jwt_sub p) (jwt_organizationId p) (jwt_role p))"

lemma speaks_to_auth [simp]: "speaks_for_member R s (to_auth_result u r g) = is_member R (aw_members s) (ac_id u) g r"
  by (simp add: speaks_for_member_def to_auth_result_def)

lemma roster_members: "roster s = (us, ms, vs, gs) \<Longrightarrow> aw_members s = ms"
  by (simp add: roster_def)

lemma home_session: "members_ok R s \<Longrightarrow> u \<in> set (aw_users s) \<Longrightarrow> speaks_for_member R s (own_session u)"
  by (fastforce simp: members_ok_def roster_def roster_ok.simps own_session_def)

lemma email_found: "account_by_email s e = Some u \<Longrightarrow> u \<in> set (aw_users s) \<and> ac_email u = e"
  by (auto simp: account_by_email_def find_Some_iff)

text \<open>One operation: the roster stays good, no member is lost, and a session it signs speaks for one.\<close>

definition account_good :: "(string \<times> role) set \<Rightarrow> accounts_db \<Rightarrow> accounts_db \<times> auth_result list \<Rightarrow> bool" where
  "account_good R s x \<longleftrightarrow>
     members_ok R (fst x) \<and> (\<exists>xs. aw_members (fst x) = aw_members s @ xs) \<and> (\<forall>r \<in> set (snd x). speaks_for_member R (fst x) r)"

lemma good_quiet: "members_ok R s \<Longrightarrow> roster t = roster s \<Longrightarrow> account_good R s (t, [])"
  by (auto simp: account_good_def members_ok_def roster_def)

lemma good_signed: "members_ok R s \<Longrightarrow> (\<And>r. x = Inr r \<Longrightarrow> speaks_for_member R s r) \<Longrightarrow> account_good R s (signed (s, x))"
  by (cases x) (simp_all add: account_good_def signed_def)

lemma good_with_otp:
  assumes "members_ok R t" and "aw_members t = aw_members s @ xs" and "is_member R (aw_members t) (ac_id u) (ac_organizationId u) (ac_role u)"
  shows "account_good R s (signed (with_otp cr t i u code now sent))"
proof -
  let ?w = "with_otp cr t i u code now sent"
  have r: "roster (fst ?w) = roster t" by simp
  then have "aw_members (fst ?w) = aw_members t" by (simp add: roster_def)
  moreover have "members_ok R (fst ?w)" using assms(1) r by (simp add: members_ok_def)
  moreover have "speaks_for_member R (fst ?w) x" if "snd ?w = Inr x" for x
    unfolding with_otp_session [OF that] using assms(3) calculation(1) by (simp add: own_session_def)
  ultimately show ?thesis using assms(2) by (auto simp: account_good_def signed_def split: sum.splits)
qed

lemma good_register:
  assumes "members_ok R s"
  shows "account_good R s (signed (register cr s dto i salt code now sent))"
proof (cases "register_read s dto now")
  case (Inr v)
  note read = Inr
  have v: "assert_invite_usable (invite_by_token s (rd_inviteToken dto)) now = Inr v" using Inr by (auto simp: register_read_def res)
  obtain us ms vs gs where s: "roster s = (us, ms, vs, gs)" by (cases "roster s")
  show ?thesis
  proof (cases "register_rows cr s dto v i salt")
    case (Inr t)
    note t = register_roster [OF Inr s]
    have ok: "roster_ok R (us, ms, vs, gs)" using assms s by (simp add: members_ok_def)
    then have "\<not> (\<exists>m \<in> set ms. mb_userId m = i \<and> mb_organizationId m = iv_organizationId v)"
      using t(2) by (auto simp: roster_ok.simps)
    moreover have "holds_account us i (iv_organizationId v) (iv_role v) (us @ [(i, iv_role v, Some (iv_organizationId v))])"
      using t(2) by (simp add: holds_account_def)
    ultimately have "members_ok R t" unfolding members_ok_def t(1)
      using key_in_roster [OF usableD(1) [OF v] s] usableD(2,4) [OF v] by (intro roster_join [OF ok]) (auto simp: key_of_def)
    moreover have m: "aw_members t = aw_members s @ [new_member i (iv_organizationId v) (iv_role v)]"
      using roster_members [OF t(1)] roster_members [OF s] by simp
    ultimately show ?thesis
      by (simp add: register_def read register_write_def Inr)
        (rule good_with_otp, simp_all add: m new_account_def is_member_def new_member_def)
  qed (use assms read in \<open>simp add: register_def register_write_def signed_def good_quiet\<close>)
qed (use assms in \<open>simp add: register_def signed_def good_quiet\<close>)

lemma good_register_organization:
  assumes "members_ok R s"
  shows "account_good R s (signed (register_organization cr lower s dto g i salt code now sent))"
proof (cases "rbind (assert_email_free s (od_email dto)) (\<lambda>_.
    register_org_rows cr s dto (unique_slug lower s (od_organizationName dto) now) g i salt)")
  case (Inr t)
  obtain us ms vs gs where s: "roster s = (us, ms, vs, gs)" by (cases "roster s")
  have "register_org_rows cr s dto (unique_slug lower s (od_organizationName dto) now) g i salt = Inr t"
    using Inr by (auto simp: res)
  note t = org_roster [OF this s]
  have "holds_account us i g ORG_ADMIN (us @ [(i, ORG_ADMIN, Some g)])" using t(2) by (simp add: holds_account_def)
  then have "members_ok R t" unfolding members_ok_def t(1) using assms t(3) s by (intro roster_found) (simp_all add: members_ok_def)
  moreover have m: "aw_members t = aw_members s @ [new_member i g ORG_ADMIN]"
    using roster_members [OF t(1)] roster_members [OF s] by simp
  ultimately show ?thesis
    by (simp add: register_organization_def Inr) (rule good_with_otp, simp_all add: m new_account_def is_member_def new_member_def)
qed (use assms in \<open>simp add: register_organization_def signed_def good_quiet\<close>)

lemma good_after:
  assumes "members_ok R t" and "aw_members t = aw_members s @ xs" and "is_member R (aw_members t) i g r"
  shows "account_good R s (signed (t, rbind (from_option e (find_account t i)) (\<lambda>u. Inr (to_auth_result u r g))))"
  using assms by (cases "find_account t i") (auto simp: account_good_def signed_def from_option_def dest: account_found)

lemma good_join:
  assumes "members_ok R s"
  shows "account_good R s (signed (join_workspace s i tok now))"
proof (cases "rbind (assert_invite_usable (invite_by_token s tok) now) (\<lambda>v. rbind (join_rows s i v) (\<lambda>x. Inr (v, x)))")
  case (Inr y)
  obtain v t r where y: "y = (v, t, r)" by (cases y)
  have v: "assert_invite_usable (invite_by_token s tok) now = Inr v" and t: "join_rows s i v = Inr (t, r)"
    using Inr by (auto simp: res y)
  obtain us ms vs gs where s: "roster s = (us, ms, vs, gs)" by (cases "roster s")
  have ok: "roster_ok R (us, ms, vs, gs)" using assms s by (simp add: members_ok_def)
  note j = join_rowsD(1) [OF t s] join_rowsD(2) [OF t s, where R = R]
  have k: "(iv_id v, iv_organizationId v, iv_role v, iv_maxUses v, iv_uses v) \<in> set vs"
    using key_in_roster [OF usableD(1) [OF v] s] by (simp add: key_of_def)
  have "holds_account us i (iv_organizationId v) (iv_role v) us" using j(1) by (simp add: holds_account_def)
  note a = roster_join [OF ok this _ k usableD(2,4) [OF v]] roster_spend [OF ok k usableD(4) [OF v]]
  have "members_ok R t" unfolding members_ok_def using j(2) a ok by (elim disjE conjE) simp_all
  moreover have "(\<exists>xs. aw_members t = aw_members s @ xs) \<and> is_member R (aw_members t) i (Some (iv_organizationId v)) r"
    using j(2) roster_members [OF s] by (auto dest!: roster_members simp: is_member_def new_member_def)
  ultimately show ?thesis
    using good_after by (auto simp: join_workspace_def Inr y)
qed (use assms in \<open>simp add: join_workspace_def signed_def good_quiet\<close>)

lemma good_create_workspace:
  assumes "members_ok R s"
  shows "account_good R s (signed (create_workspace lower s i dto g now))"
proof -
  let ?d = "dto\<lparr>od_accentColor := None, od_logoUrl := None\<rparr>"
  let ?x = "rbind (create_org (new_org g (unique_slug lower s (od_organizationName dto) now) ?d) s) (\<lambda>s1.
    rbind (guard_or (find_account s i \<noteq> None) (Internal ''Foreign key constraint violated'')) (\<lambda>_. Inr (add_member i g ORG_ADMIN s1)))"
  show ?thesis
  proof (cases ?x)
    case (Inr t)
    obtain us ms vs gs where s: "roster s = (us, ms, vs, gs)" by (cases "roster s")
    obtain s1 where c: "create_org (new_org g (unique_slug lower s (od_organizationName dto) now) ?d) s = Inr s1"
      and a: "find_account s i \<noteq> None" and t: "t = add_member i g ORG_ADMIN s1" using Inr by (auto simp: res)
    have o1: "roster s1 = (us, ms, vs, gs @ [g])" "g \<notin> set gs" using create_org_roster [OF c s] by (simp_all add: new_org_def)
    then have r: "roster t = (us, ms @ [new_member i g ORG_ADMIN], vs, gs @ [g])" by (simp add: t roster_member)
    have "i \<in> fst ` set us" by (rule account_key [OF a s])
    then have "holds_account us i g ORG_ADMIN us" by (simp add: holds_account_def)
    then have "members_ok R t" unfolding members_ok_def r using assms o1(2) s by (intro roster_found) (simp_all add: members_ok_def)
    moreover have "aw_members t = aw_members s @ [new_member i g ORG_ADMIN]"
      using roster_members [OF r] roster_members [OF s] by simp
    ultimately show ?thesis
      using good_after [of R t s "[new_member i g ORG_ADMIN]" i "Some g" ORG_ADMIN] Inr
      by (simp add: create_workspace_def is_member_def new_member_def)
  qed (use assms in \<open>simp add: create_workspace_def signed_def good_quiet\<close>)
qed

lemma good_create_invite:
  assumes "members_ok R s" and "invite_dto_ok dto"
  shows "account_good R s (fst (create_invite s g i dto k tok now), [])"
proof (cases "snd (create_invite s g i dto k tok now)")
  case (Inr v)
  obtain us ms vs gs where s: "roster s = (us, ms, vs, gs)" by (cases "roster s")
  have w: "id_role dto \<in> {STUDENT, INSTRUCTOR}" "find_workspace s g \<noteq> None" "\<not> list_ex (\<lambda>v. iv_id v = k \<or> iv_token v = tok) (aw_invites s)"
    and t: "fst (create_invite s g i dto k tok now) = s\<lparr>aw_invites := aw_invites s @ [v]\<rparr>"
    and v: "key_of v = (k, g, id_role dto, id_maxUses dto, 0)"
    using Inr unfolding create_invite_def by (auto simp: res Let_def key_of_def split: sum.splits)
  have "g \<in> set gs" using w(2) s by (auto simp: find_workspace_def roster_def find_Some_iff)
  moreover have "k \<notin> fst ` set vs" using w(3) s by (auto simp: roster_def list_ex_iff)
  moreover have "link_ok gs (k, g, id_role dto, id_maxUses dto, 0)"
    using calculation(1) w(1) assms(2) by (auto simp: invite_dto_ok_def split: option.splits)
  moreover have "roster (s\<lparr>aw_invites := aw_invites s @ [v]\<rparr>) = (us, ms, vs @ [(k, g, id_role dto, id_maxUses dto, 0)], gs)"
    using s v by (auto simp: roster_def key_of_def)
  ultimately show ?thesis
    using assms(1) s unfolding t by (auto simp: account_good_def members_ok_def intro!: roster_invite)
next
  case (Inl e)
  then have "fst (create_invite s g i dto k tok now) = s" by (auto simp: create_invite_def Let_def split: sum.splits)
  then show ?thesis using assms(1) by (simp add: good_quiet)
qed

lemma good_sessions:
  assumes "members_ok R s"
  shows "account_good R s (signed (s, login cr s e p))" and "account_good R s (signed (s, session_for s i))"
    and "account_good R s (signed (s, switch_workspace s i g))"
  by (rule good_signed [OF assms],
      auto simp: login_def session_for_def switch_workspace_def res find_member_def find_Some_iff is_member_def
        dest!: account_found email_found intro!: home_session [OF assms] bexI nth_mem split: option.splits if_splits)+

lemma good_verify:
  assumes "members_ok R s"
  shows "account_good R s (signed (verify_email cr s i c now up))"
proof -
  let ?y = "verify_email cr s i c now up"
  have r: "roster (fst ?y) = roster s" by simp
  have "speaks_for_member R s x" if "snd ?y = Inr x" for x
    using that home_session [OF assms]
    by (auto simp: verify_email_def Let_def own_session_def dest!: account_found split: option.splits if_splits)
  moreover have "aw_members (fst ?y) = aw_members s" using r by (simp add: roster_def)
  moreover have "members_ok R (fst ?y)" using assms r by (simp add: members_ok_def)
  ultimately show ?thesis by (auto simp: account_good_def signed_def speaks_for_member_def split: sum.splits)
qed

lemma roster_set_role:
  assumes ok: "roster_ok R (us, ms, vs, gs)" and R: "(i, r) \<in> R"
  shows "roster_ok R (map (\<lambda>(j, q, h). if j = i then (j, r, h) else (j, q, h)) us, ms, vs, gs)"
proof -
  let ?us = "map (\<lambda>(j, q, h). if j = i then (j, r, h) else (j, q, h)) us"
  have m: "\<forall>(j, q, h) \<in> set us. is_member R ms j h q" using ok by (simp add: roster_ok.simps)
  have k: "map fst ?us = map fst us" by auto
  then have s: "fst ` set ?us = fst ` set us" by (metis set_map)
  have n: "is_member R ms j h q" if p: "(j, q, h) \<in> set ?us" for j q h
  proof -
    obtain q' where "(j, q', h) \<in> set us" "j = i \<and> q = r \<or> q = q'" using p by (auto split: if_splits)
    moreover from this have "is_member R ms j h q'" using m by blast
    ultimately show ?thesis using R unfolding is_member_def by blast
  qed
  have "\<forall>(j, q, h) \<in> set ?us. is_member R ms j h q"
  proof
    fix p assume p: "p \<in> set ?us"
    obtain j q h where "p = (j, q, h)" by (cases p)
    then show "case p of (j, q, h) \<Rightarrow> is_member R ms j h q" using n [of j q h] p by (simp only: prod.case)
  qed
  then show ?thesis using ok unfolding roster_ok.simps k s by blast
qed

lemma good_set_user_role:
  assumes "members_ok R s" and "(i, r) \<in> R"
  shows "account_good R s (fst (set_user_role s i r), [])"
proof -
  obtain us ms vs gs where s: "roster s = (us, ms, vs, gs)" by (cases "roster s")
  have "roster (set_account i (\<lambda>v. v\<lparr>ac_role := r\<rparr>) s) =
      (map (\<lambda>(j, q, h). if j = i then (j, r, h) else (j, q, h)) us, ms, vs, gs)"
    using s by (auto simp: roster_def set_account_def)
  then have "members_ok R (set_account i (\<lambda>v. v\<lparr>ac_role := r\<rparr>) s)"
    using roster_set_role [OF _ assms(2)] assms(1) s by (simp add: members_ok_def)
  moreover have "aw_members (set_account i (\<lambda>v. v\<lparr>ac_role := r\<rparr>) s) = aw_members s" by (simp add: set_account_def)
  ultimately show ?thesis using assms(1) by (auto simp: set_user_role_def account_good_def split: sum.split)
qed

lemma account_do_good:
  assumes "members_ok R s" and "given_roles [op] \<subseteq> R"
  shows "account_good R s (account_do cr lower s op)"
  using assms
  by (cases op) (simp_all add: good_quiet good_register good_register_organization good_join good_create_workspace good_sessions
      good_verify good_create_invite good_set_user_role given_roles_def)

definition signed_ok :: "(string \<times> role) set \<Rightarrow> accounts_db \<times> auth_result list \<Rightarrow> bool" where
  "signed_ok R x \<longleftrightarrow> members_ok R (fst x) \<and> (\<forall>r \<in> set (snd x). speaks_for_member R (fst x) r)"

text \<open>The runs in which the platform gives no roles beside \<open>R\<close>.\<close>

definition role_step where
  "role_step R cr lower x op = (if given_roles [op] \<subseteq> R then account_step cr lower x op else x)"

lemma speaks_more: "speaks_for_member R s r \<Longrightarrow> \<exists>xs. aw_members t = aw_members s @ xs \<Longrightarrow> speaks_for_member R t r"
  by (auto simp: speaks_for_member_def Let_def intro: is_member_more)

interpretation account_run: invariant_system "role_step R cr lower" "signed_ok R" for R cr lower
proof unfold_locales
  fix x op
  assume "signed_ok R x"
  then show "signed_ok R (role_step R cr lower x op)"
    using account_do_good [of R "fst x" op cr lower]
    by (cases "account_do cr lower (fst x) op")
      (auto simp: role_step_def account_step_def signed_ok_def account_good_def intro: speaks_more)
qed

lemma role_run: "given_roles ops \<subseteq> R \<Longrightarrow> foldl (role_step R cr lower) x ops = foldl (account_step cr lower) x ops"
proof (induction ops arbitrary: x)
  case (Cons op ops)
  have "given_roles (op # ops) = given_roles [op] \<union> given_roles ops" by (auto simp: given_roles_def)
  then show ?case using Cons by (simp add: role_step_def)
qed simp

lemma no_accounts_ok: "no_accounts s \<Longrightarrow> members_ok R s"
  by (simp add: no_accounts_def members_ok_def roster_def roster_ok.simps used_def newcomers_def)

lemma account_runs_ok:
  assumes "no_accounts s0"
  shows "signed_ok (given_roles ops) (foldl (account_step cr lower) (s0, []) ops)"
  using account_run.inv_run [of "given_roles ops" "(s0, [])" cr lower ops] no_accounts_ok [OF assms]
  by (simp add: signed_ok_def role_run)

section \<open>Proof by mail\<close>

text \<open>Whom a stored hash was sent to; \<open>opened\<close> and \<open>entered\<close> are the operations that used it.\<close>

definition collision_free :: "crypto \<Rightarrow> bool" where
  "collision_free cr \<longleftrightarrow> inj (cr_sha cr)"

definition reset_mailed :: "crypto \<Rightarrow> auth_mail list \<Rightarrow> account \<Rightarrow> bool" where
  "reset_mailed cr ms u \<longleftrightarrow>
     (\<forall>h. ac_reset u = Some h \<longrightarrow>
        (\<exists>tok t. h = cr_sha cr tok \<and> ac_resetExpiresAt u = Some (t + reset_life) \<and> ResetMail (ac_email u) tok t \<in> set ms))"

definition otp_mailed :: "crypto \<Rightarrow> auth_mail list \<Rightarrow> account \<Rightarrow> bool" where
  "otp_mailed cr ms u \<longleftrightarrow>
     (\<forall>h. ac_otp u = Some h \<longrightarrow>
        (\<exists>code t. h = cr_sha cr code \<and> ac_otpExpiresAt u = Some (t + otp_life) \<and> OtpMail (ac_email u) code t \<in> set ms))"

definition opened_in_time :: "auth_mail list \<Rightarrow> account_op list \<Rightarrow> account \<Rightarrow> bool" where
  "opened_in_time ms ops u \<longleftrightarrow>
     (\<exists>tok t p salt now up. ResetMail (ac_email u) tok t \<in> set ms \<and> ResetPassword tok p salt now up \<in> set ops \<and> now \<le> t + reset_life)"

definition entered_in_time :: "auth_mail list \<Rightarrow> account_op list \<Rightarrow> account \<Rightarrow> bool" where
  "entered_in_time ms ops u \<longleftrightarrow>
     (\<exists>code t now up. OtpMail (ac_email u) code t \<in> set ms \<and> VerifyEmail (ac_id u) code now up \<in> set ops \<and> now \<le> t + otp_life)"

definition by_hand :: "account_op list \<Rightarrow> account \<Rightarrow> bool" where
  "by_hand ops u \<longleftrightarrow> (\<exists>up. VerifyUserEmail (ac_id u) up \<in> set ops)"

definition address_ok :: "crypto \<Rightarrow> account_op list \<Rightarrow> accounts_db \<Rightarrow> account \<Rightarrow> bool" where
  "address_ok cr ops s u \<longleftrightarrow>
     reset_mailed cr (aw_mails s) u \<and> otp_mailed cr (aw_mails s) u \<and>
     (ac_emailVerified u \<longrightarrow> opened_in_time (aw_mails s) ops u \<or> entered_in_time (aw_mails s) ops u \<or> by_hand ops u)"

definition addresses_ok :: "crypto \<Rightarrow> account_op list \<Rightarrow> accounts_db \<Rightarrow> bool" where
  "addresses_ok cr ops s \<longleftrightarrow> distinct (map ac_id (aw_users s)) \<and> (\<forall>u \<in> set (aw_users s). address_ok cr ops s u)"

lemma address_later:
  assumes "address_ok cr ops s u" and "set (aw_mails s) \<subseteq> set (aw_mails t)" and "set ops \<subseteq> set ops'"
  shows "address_ok cr ops' t u"
  using assms unfolding address_ok_def reset_mailed_def otp_mailed_def opened_in_time_def entered_in_time_def by_hand_def
  by (meson subsetD)

text \<open>An account that only changes elsewhere keeps what was proved of its address.\<close>

definition same_address :: "account \<Rightarrow> account \<Rightarrow> bool" where
  "same_address u v \<longleftrightarrow>
     ac_id v = ac_id u \<and> ac_email v = ac_email u \<and> ac_emailVerified v = ac_emailVerified u \<and> ac_reset v = ac_reset u \<and>
     ac_resetExpiresAt v = ac_resetExpiresAt u \<and> ac_otp v = ac_otp u \<and> ac_otpExpiresAt v = ac_otpExpiresAt u"

lemma address_same: "address_ok cr ops s u \<Longrightarrow> same_address u v \<Longrightarrow> address_ok cr ops s v"
  by (simp add: address_ok_def same_address_def reset_mailed_def otp_mailed_def opened_in_time_def entered_in_time_def by_hand_def)

lemma one_account: "distinct (map ac_id us) \<Longrightarrow> u \<in> set us \<Longrightarrow> v \<in> set us \<Longrightarrow> ac_id v = ac_id u \<Longrightarrow> v = u"
  by (metis distinct_map inj_on_contraD)

lemma addresses_set:
  assumes "addresses_ok cr ops s" and "u \<in> set (aw_users s)" and "aw_users t = aw_users (set_account (ac_id u) f s)"
    and "set (aw_mails s) \<subseteq> set (aw_mails t)" and "set ops \<subseteq> set ops'" and "\<And>v. ac_id (f v) = ac_id v"
    and "address_ok cr ops s u \<Longrightarrow> address_ok cr ops' t (f u)"
  shows "addresses_ok cr ops' t"
proof -
  have d: "distinct (map ac_id (aw_users s))" using assms(1) by (simp add: addresses_ok_def)
  have "map ac_id (aw_users t) = map ac_id (aw_users s)" using assms(3,6) by (simp add: set_account_def comp_def if_distrib cong: if_cong)
  moreover have "address_ok cr ops' t w" if w: "w \<in> set (aw_users t)" for w
  proof -
    obtain v where v: "v \<in> set (aw_users s)" "w = (if ac_id v = ac_id u then f v else v)"
      using w assms(3) by (auto simp: set_account_def)
    have "address_ok cr ops s v" using v(1) assms(1) by (simp add: addresses_ok_def)
    then show ?thesis using one_account [OF d assms(2) v(1)] assms(7) address_later [OF _ assms(4,5)] v(2) by (simp split: if_splits)
  qed
  ultimately show ?thesis using d by (simp add: addresses_ok_def)
qed

lemma addresses_same:
  assumes "addresses_ok cr ops s" and "aw_users t = aw_users (set_account i f s)" and "aw_mails t = aw_mails s"
    and "set ops \<subseteq> set ops'" and "\<And>u. same_address u (f u)"
  shows "addresses_ok cr ops' t"
proof -
  have "map ac_id (aw_users t) = map ac_id (aw_users s)"
    using assms(2,5) by (simp add: set_account_def same_address_def comp_def if_distrib cong: if_cong)
  moreover have "address_ok cr ops' t w" if w: "w \<in> set (aw_users t)" for w
  proof -
    obtain v where v: "v \<in> set (aw_users s)" "w = f v \<or> w = v" using w assms(2) by (auto simp: set_account_def)
    have "address_ok cr ops' t v" using v(1) assms(1,3,4) by (auto simp: addresses_ok_def intro: address_later)
    then show ?thesis using v(2) address_same [OF _ assms(5)] by auto
  qed
  ultimately show ?thesis using assms(1) by (simp add: addresses_ok_def)
qed

lemma addresses_quiet:
  "addresses_ok cr ops s \<Longrightarrow> aw_users t = aw_users s \<Longrightarrow> aw_mails t = aw_mails s \<Longrightarrow> set ops \<subseteq> set ops' \<Longrightarrow> addresses_ok cr ops' t"
  by (auto simp: addresses_ok_def intro: address_later)

lemma addresses_fresh:
  assumes "addresses_ok cr ops s" and "aw_users t = aw_users s @ [u]" and "aw_mails t = aw_mails s" and "set ops \<subseteq> set ops'"
    and "ac_id u \<notin> ac_id ` set (aw_users s)" and "\<not> ac_emailVerified u" and "ac_reset u = None" and "ac_otp u = None"
  shows "addresses_ok cr ops' t"
proof -
  have "address_ok cr ops' t u" using assms(6-8) by (simp add: address_ok_def reset_mailed_def otp_mailed_def)
  moreover have "address_ok cr ops' t v" if "v \<in> set (aw_users s)" for v
    using that assms(1,3,4) by (auto simp: addresses_ok_def intro: address_later)
  ultimately show ?thesis using assms(1,2,5) by (auto simp: addresses_ok_def)
qed

lemma addr_request:
  assumes "addresses_ok cr ops s" and "set ops \<subseteq> set ops'"
  shows "addresses_ok cr ops' (request_password_reset cr s e tok now)"
proof (cases "account_by_email s e")
  case (Some u)
  show ?thesis
  proof (cases "ac_status u = DISABLED")
    case False
    let ?f = "\<lambda>v. v\<lparr>ac_reset := Some (cr_sha cr tok), ac_resetExpiresAt := Some (now + reset_life)\<rparr>"
    let ?t = "(set_account (ac_id u) ?f s)\<lparr>aw_mails := aw_mails s @ [ResetMail (ac_email u) tok now]\<rparr>"
    have "address_ok cr ops' ?t (?f u)" if a: "address_ok cr ops s u"
    proof -
      have "address_ok cr ops' ?t u" by (rule address_later [OF a _ assms(2)]) auto
      moreover have "reset_mailed cr (aw_mails ?t) (?f u)" by (auto simp: reset_mailed_def)
      ultimately show ?thesis by (simp add: address_ok_def otp_mailed_def opened_in_time_def entered_in_time_def by_hand_def)
    qed
    then have "addresses_ok cr ops' ?t"
      using email_found [OF Some] assms by (intro addresses_set [OF assms(1), of u _ ?f]) auto
    then show ?thesis using Some False by (simp add: request_password_reset_def Let_def set_account_def)
  qed (use assms Some in \<open>simp add: request_password_reset_def addresses_quiet\<close>)
qed (use assms in \<open>simp add: request_password_reset_def addresses_quiet\<close>)

lemma addr_otp:
  assumes "addresses_ok cr ops s" and "set ops \<subseteq> set ops'"
  shows "addresses_ok cr ops' (fst (send_verification_otp cr s i code now b))"
proof (cases "find_account s i")
  case (Some u)
  show ?thesis
  proof (cases "ac_emailVerified u")
    case False
    let ?f = "\<lambda>v. v\<lparr>ac_otp := Some (cr_sha cr code), ac_otpExpiresAt := Some (now + otp_life)\<rparr>"
    let ?t = "(set_account (ac_id u) ?f s)\<lparr>aw_mails := aw_mails s @ [OtpMail (ac_email u) code now]\<rparr>"
    have "address_ok cr ops' ?t (?f u)" if a: "address_ok cr ops s u"
    proof -
      have "address_ok cr ops' ?t u" by (rule address_later [OF a _ assms(2)]) auto
      moreover have "otp_mailed cr (aw_mails ?t) (?f u)" by (auto simp: otp_mailed_def)
      ultimately show ?thesis using False by (simp add: address_ok_def reset_mailed_def)
    qed
    then have "addresses_ok cr ops' ?t"
      using account_found [OF Some] assms by (intro addresses_set [OF assms(1), of u _ ?f]) auto
    then show ?thesis using Some False account_found [OF Some] by (simp add: send_verification_otp_def Let_def set_account_def)
  qed (use assms Some in \<open>simp add: send_verification_otp_def addresses_quiet\<close>)
qed (use assms in \<open>simp add: send_verification_otp_def addresses_quiet\<close>)

lemma addr_reset_password:
  assumes ok: "addresses_ok cr ops s" and sub: "set ops \<subseteq> set ops'" and cf: "collision_free cr"
    and op: "ResetPassword tok p salt now up \<in> set ops'"
  shows "addresses_ok cr ops' (fst (reset_password cr s tok p salt now up))"
proof (cases "reset_holder cr s tok")
  case (Some u)
  have u: "u \<in> set (aw_users s)" "ac_reset u = Some (cr_sha cr tok)" using Some by (auto simp: reset_holder_def find_Some_iff)
  show ?thesis
  proof (cases "case ac_resetExpiresAt u of None \<Rightarrow> True | Some t \<Rightarrow> t < now")
    case False
    let ?f = "\<lambda>v. v\<lparr>ac_passwordHash := cr_hash cr p salt, ac_reset := None, ac_resetExpiresAt := None,
      ac_emailVerified := True, ac_otp := None, ac_otpExpiresAt := None\<rparr>"
    let ?t = "drop_cached up (ac_id u) (set_account (ac_id u) ?f s)"
    have "address_ok cr ops' ?t (?f u)" if a: "address_ok cr ops s u"
    proof -
      obtain tok' t where t: "cr_sha cr tok = cr_sha cr tok'" "ac_resetExpiresAt u = Some (t + reset_life)" "ResetMail (ac_email u) tok' t \<in> set (aw_mails s)"
        using a u(2) by (auto simp: address_ok_def reset_mailed_def)
      then have "tok' = tok" and "now \<le> t + reset_life" using cf False by (auto simp: collision_free_def inj_eq)
      then have "opened_in_time (aw_mails s) ops' (?f u)" using t(3) op by (simp add: opened_in_time_def) blast
      then show ?thesis by (simp add: address_ok_def reset_mailed_def otp_mailed_def drop_cached_def set_account_def)
    qed
    then have "addresses_ok cr ops' ?t"
      using u sub by (intro addresses_set [OF ok, of u _ ?f]) (auto simp: drop_cached_def set_account_def)
    then show ?thesis using Some False by (simp add: reset_password_def)
  qed (use assms Some in \<open>simp add: reset_password_def addresses_quiet\<close>)
qed (use assms in \<open>simp add: reset_password_def addresses_quiet\<close>)

lemma addr_verify:
  assumes ok: "addresses_ok cr ops s" and sub: "set ops \<subseteq> set ops'" and cf: "collision_free cr"
    and op: "VerifyEmail i code now up \<in> set ops'"
  shows "addresses_ok cr ops' (fst (verify_email cr s i code now up))"
proof (cases "find_account s i")
  case (Some u)
  note u = account_found [OF Some]
  show ?thesis
  proof (cases "\<not> ac_emailVerified u \<and> otp_accepted cr u code now")
    case True
    let ?f = "\<lambda>v. v\<lparr>ac_emailVerified := True, ac_otp := None, ac_otpExpiresAt := None\<rparr>"
    let ?t = "drop_cached up i (set_account (ac_id u) ?f s)"
    have "address_ok cr ops' ?t (?f u)" if a: "address_ok cr ops s u"
    proof -
      obtain code' t where t: "cr_sha cr code = cr_sha cr code'" "ac_otpExpiresAt u = Some (t + otp_life)" "OtpMail (ac_email u) code' t \<in> set (aw_mails s)"
        using a True by (auto simp: address_ok_def otp_mailed_def otp_accepted_def)
      then have "code' = code" and "now \<le> t + otp_life" using cf True by (auto simp: collision_free_def inj_eq otp_accepted_def)
      then have "entered_in_time (aw_mails s) ops' (?f u)" using t(3) op u by (simp add: entered_in_time_def) blast
      then show ?thesis using a by (simp add: address_ok_def reset_mailed_def otp_mailed_def drop_cached_def set_account_def)
    qed
    then have "addresses_ok cr ops' ?t"
      using u sub by (intro addresses_set [OF ok, of u _ ?f]) (auto simp: drop_cached_def set_account_def)
    then show ?thesis using Some True u by (simp add: verify_email_def Let_def)
  qed (use assms Some in \<open>auto simp: verify_email_def addresses_quiet\<close>)
qed (use assms in \<open>simp add: verify_email_def addresses_quiet\<close>)

lemma land_same: "land c r u s = Inr t \<Longrightarrow> aw_users t = aw_users s \<and> aw_mails t = aw_mails s"
  by (auto simp: land_def enrol_def assign_def split: if_splits)

lemma member_same [simp]:
  "aw_users (add_member i g r s) = aw_users s" "aw_mails (add_member i g r s) = aw_mails s"
  "aw_users (spend_use k s) = aw_users s" "aw_mails (spend_use k s) = aw_mails s"
  "aw_users (enable_plugins g ks s) = aw_users s" "aw_mails (enable_plugins g ks s) = aw_mails s"
  by (simp_all add: add_member_def spend_use_def enable_plugins_def)

lemma create_account_same:
  "create_account u s = Inr t \<Longrightarrow> aw_users t = aw_users s @ [u] \<and> aw_mails t = aw_mails s \<and> ac_id u \<notin> ac_id ` set (aw_users s)"
  by (fastforce simp: create_account_def list_ex_iff split: if_splits)

lemma create_org_same: "create_org g s = Inr t \<Longrightarrow> aw_users t = aw_users s \<and> aw_mails t = aw_mails s"
  by (auto simp: create_org_def split: if_splits)

lemma addr_with_otp:
  assumes "addresses_ok cr ops s"
  shows "addresses_ok cr ops (fst (with_otp cr s i u code now b))"
proof -
  have "fst (with_otp cr s i u code now b) = fst (send_verification_otp cr s i code now b)"
    by (auto simp: with_otp_def split: prod.splits sum.splits)
  then show ?thesis using addr_otp [OF assms subset_refl] by simp
qed

lemma addr_new:
  assumes "addresses_ok cr ops s" and "set ops \<subseteq> set ops'" and "create_account (new_account i nm e p r g) s1 = Inr s2"
    and "aw_users s1 = aw_users s" and "aw_mails s1 = aw_mails s" and "aw_users t = aw_users s2" and "aw_mails t = aw_mails s2"
  shows "addresses_ok cr ops' (fst (with_otp cr t i u code now b))"
  using create_account_same [OF assms(3)] assms
  by (intro addr_with_otp addresses_fresh [OF assms(1), of _ "new_account i nm e p r g"]) (simp_all add: new_account_def)

lemma addr_register:
  assumes "addresses_ok cr ops s" and "set ops \<subseteq> set ops'"
  shows "addresses_ok cr ops' (fst (register cr s dto i salt code now sent))"
proof (cases "\<exists>v t. register_read s dto now = Inr v \<and> register_rows cr s dto v i salt = Inr t")
  case True
  then obtain v t where v: "register_read s dto now = Inr v" and t: "register_rows cr s dto v i salt = Inr t" by blast
  obtain s1 where "create_account (new_account i (rd_name dto) (rd_email dto) (cr_hash cr (rd_password dto) salt) (iv_role v) (iv_organizationId v)) s = Inr s1"
    and "aw_users t = aw_users s1" and "aw_mails t = aw_mails s1"
    using t by (auto simp: register_rows_def res dest!: land_same)
  then show ?thesis using addr_new [OF assms] v t by (simp add: register_def register_write_def)
next
  case False
  then have "fst (register cr s dto i salt code now sent) = s" by (auto simp: register_def register_write_def split: sum.splits)
  then show ?thesis using assms by (simp add: addresses_quiet)
qed

lemma addr_register_organization:
  assumes "addresses_ok cr ops s" and "set ops \<subseteq> set ops'"
  shows "addresses_ok cr ops' (fst (register_organization cr lower s dto g i salt code now sent))"
proof (cases "rbind (assert_email_free s (od_email dto)) (\<lambda>_.
    register_org_rows cr s dto (unique_slug lower s (od_organizationName dto) now) g i salt)")
  case (Inr t)
  obtain s1 s2 where "create_account (new_account i (od_name dto) (od_email dto) (cr_hash cr (od_password dto) salt) ORG_ADMIN g) s1 = Inr s2"
    and "aw_users s1 = aw_users s" and "aw_mails s1 = aw_mails s" and "aw_users t = aw_users s2" and "aw_mails t = aw_mails s2"
    using Inr by (auto simp: register_org_rows_def res dest!: create_org_same)
  then show ?thesis using addr_new [OF assms] Inr by (simp add: register_organization_def)
qed (use assms in \<open>simp add: register_organization_def addresses_quiet\<close>)

lemma join_same: "aw_users (fst (join_workspace s i tok now)) = aw_users s \<and> aw_mails (fst (join_workspace s i tok now)) = aw_mails s"
  by (auto simp: join_workspace_def join_rows_def Let_def res dest!: land_same split: sum.splits if_splits)

lemma workspace_same: "aw_users (fst (create_workspace lower s i dto g now)) = aw_users s \<and> aw_mails (fst (create_workspace lower s i dto g now)) = aw_mails s"
  by (auto simp: create_workspace_def res dest!: create_org_same split: sum.splits)

lemma other_same:
  "aw_users (fst (create_invite s g i d k tok now)) = aw_users s" "aw_mails (fst (create_invite s g i d k tok now)) = aw_mails s"
  "aw_users (fst (revoke_invite s g k now)) = aw_users s" "aw_mails (fst (revoke_invite s g k now)) = aw_mails s"
  "aw_users (fst (set_workspace g f s)) = aw_users s" "aw_mails (fst (set_workspace g f s)) = aw_mails s"
  by (simp_all add: create_invite_def revoke_invite_def set_workspace_def Let_def split: sum.splits option.splits)

lemma addr_drop: "addresses_ok cr ops s \<Longrightarrow> addresses_ok cr ops (drop_cached up i s)"
  by (erule addresses_quiet) (simp_all add: drop_cached_def)

lemma addr_set:
  assumes "addresses_ok cr ops s" and "set ops \<subseteq> set ops'" and "\<And>u. same_address u (f u)"
  shows "addresses_ok cr ops' (set_account i f s)"
  by (rule addresses_same [OF assms(1) HOL.refl _ assms(2,3)]) (simp add: set_account_def)

lemma addr_statuses:
  assumes "addresses_ok cr ops s" and "set ops \<subseteq> set ops'"
  shows "addresses_ok cr ops' (fst (set_member_status s g i st up))" and "addresses_ok cr ops' (fst (set_user_status s a i st up))"
    and "addresses_ok cr ops' (fst (set_user_role s i r))" and "addresses_ok cr ops' (fst (set_super_admin s a i b))"
    and "addresses_ok cr ops' (fst (change_password cr s i p q salt))"
  by (auto simp: set_member_status_def set_user_status_def set_user_role_def set_super_admin_def change_password_def same_address_def
      intro!: addr_drop addr_set [OF assms] addresses_quiet [OF assms(1) HOL.refl HOL.refl assms(2)] split: option.splits sum.splits)

lemma addr_by_hand:
  assumes ok: "addresses_ok cr ops s" and sub: "set ops \<subseteq> set ops'" and op: "VerifyUserEmail i up \<in> set ops'"
  shows "addresses_ok cr ops' (fst (verify_user_email s i up))"
proof (cases "find_account s i")
  case (Some u)
  note u = account_found [OF Some]
  let ?f = "\<lambda>v. v\<lparr>ac_emailVerified := True, ac_otp := None, ac_otpExpiresAt := None\<rparr>"
  let ?t = "drop_cached up i (set_account (ac_id u) ?f s)"
  have "address_ok cr ops' ?t (?f u)" if a: "address_ok cr ops s u"
  proof -
    have "address_ok cr ops' ?t u" by (rule address_later [OF a _ sub]) (simp add: drop_cached_def set_account_def)
    moreover have "by_hand ops' (?f u)" using op u by (auto simp: by_hand_def)
    ultimately show ?thesis by (simp add: address_ok_def reset_mailed_def otp_mailed_def)
  qed
  then have "addresses_ok cr ops' ?t"
    using u sub by (intro addresses_set [OF ok, of u _ ?f]) (auto simp: drop_cached_def set_account_def)
  then show ?thesis using Some u by (simp add: verify_user_email_def user_or_404_def from_option_def)
qed (use assms in \<open>simp add: verify_user_email_def user_or_404_def from_option_def addresses_quiet\<close>)

lemma addr_do:
  assumes ok: "addresses_ok cr ops s" and sub: "set ops \<subseteq> set ops'" and cf: "collision_free cr"
    and op: "op \<in> set ops'"
  shows "addresses_ok cr ops' (fst (account_do cr lower s op))"
  using join_same workspace_same op
  by (cases op) (simp_all add: addr_request [OF ok sub] addr_otp [OF ok sub] addr_register [OF ok sub]
      addr_register_organization [OF ok sub] addr_statuses [OF ok sub] addr_reset_password [OF ok sub cf]
      addr_verify [OF ok sub cf] addr_by_hand [OF ok sub] addresses_quiet [OF ok _ _ sub] other_same signed_def update_brand_def update_settings_def
      send_reset_link_def split: sum.split)

lemma fst_account_step [simp]: "fst (account_step cr lower x op) = fst (account_do cr lower (fst x) op)"
  by (simp add: account_step_def split: prod.splits)

lemma account_runs_proved:
  assumes "no_accounts s0" and "collision_free cr"
  shows "addresses_ok cr ops (fst (foldl (account_step cr lower) (s0, []) ops))"
proof (induction ops rule: rev_induct)
  case Nil
  show ?case using assms(1) by (simp add: no_accounts_def addresses_ok_def)
next
  case (snoc op ops)
  then show ?case
    by (auto intro!: addr_do [OF _ _ assms(2)])
qed

section \<open>Links that are used up\<close>

definition reset_tokens :: "auth_mail list \<Rightarrow> string list" where
  "reset_tokens ms = concat (map (\<lambda>m. case m of ResetMail _ tok _ \<Rightarrow> [tok] | OtpMail _ _ _ \<Rightarrow> []) ms)"

text \<open>The links that were sent with a token and that no account waits for any more.\<close>

definition spare :: "crypto \<Rightarrow> string \<Rightarrow> accounts_db \<Rightarrow> int" where
  "spare cr tok s =
     int (count_list (reset_tokens (aw_mails s)) tok) - int (count_list (map ac_reset (aw_users s)) (Some (cr_sha cr tok)))"

lemma reset_tokens_append [simp]: "reset_tokens (ms @ ns) = reset_tokens ms @ reset_tokens ns"
  by (simp add: reset_tokens_def)

lemma reset_tokens_simps [simp]: "reset_tokens [ResetMail e tok t] = [tok]" "reset_tokens [OtpMail e c t] = []"
  by (simp_all add: reset_tokens_def)

lemma spare_same: "map ac_reset (aw_users t) = map ac_reset (aw_users s) \<Longrightarrow> reset_tokens (aw_mails t) = reset_tokens (aw_mails s) \<Longrightarrow>
    spare cr tok t = spare cr tok s"
  by (simp add: spare_def)

lemma resets_set: "(\<And>u. ac_reset (f u) = ac_reset u) \<Longrightarrow> map ac_reset (aw_users (set_account i f s)) = map ac_reset (aw_users s)"
  by (simp add: set_account_def)

lemma spare_set [simp]:
  "(\<And>u. ac_reset (f u) = ac_reset u) \<Longrightarrow> spare cr tok (set_account i f s) = spare cr tok s"
  by (rule spare_same) (simp_all add: set_account_def)

lemma spare_drop [simp]: "spare cr tok (drop_cached up i s) = spare cr tok s"
  by (simp add: spare_def drop_cached_def)

lemma count_set_account:
  assumes "distinct (map ac_id us)" and "\<And>u. ac_reset (f u) = y"
  shows "int (count_list (map ac_reset (map (\<lambda>u. if ac_id u = i then f u else u) us)) x) \<le>
    int (count_list (map ac_reset us) x) + (if x = y then 1 else 0)"
  using assms(1)
proof (induction us)
  case (Cons u us)
  have "map (\<lambda>v. if ac_id v = i then f v else v) us = us" if "ac_id u = i"
    using that Cons.prems by (intro map_idI) (auto simp: rev_image_eqI)
  then show ?case using Cons assms(2) by (cases "ac_id u = i") auto
qed simp

lemma count_map_set_account:
  assumes "distinct (map ac_id (aw_users s))" and "\<And>u. ac_reset (f u) = y"
  shows "int (count_list (map ac_reset (aw_users (set_account i f s))) x) \<le>
    int (count_list (map ac_reset (aw_users s)) x) + (if x = y then 1 else 0)"
  using count_set_account [OF assms] by (simp add: set_account_def)

lemma spare_request:
  assumes "distinct (map ac_id (aw_users s))" and "collision_free cr"
  shows "spare cr tok s \<le> spare cr tok (request_password_reset cr s e tok' now)"
proof (cases "account_by_email s e")
  case (Some u)
  let ?f = "\<lambda>v. v\<lparr>ac_reset := Some (cr_sha cr tok'), ac_resetExpiresAt := Some (now + reset_life)\<rparr>"
  let ?s = "set_account (ac_id u) ?f s"
  have "cr_sha cr tok = cr_sha cr tok' \<longleftrightarrow> tok = tok'" using assms(2) by (simp add: collision_free_def inj_eq)
  then have "spare cr tok s \<le> spare cr tok (?s\<lparr>aw_mails := aw_mails s @ [ResetMail (ac_email u) tok' now]\<rparr>)"
    using count_map_set_account [OF assms(1), of ?f "Some (cr_sha cr tok')" "ac_id u" "Some (cr_sha cr tok)"]
    by (cases "tok = tok'") (simp_all add: spare_def)
  moreover have "aw_mails ?s = aw_mails s" by (simp add: set_account_def)
  ultimately show ?thesis using Some by (simp add: request_password_reset_def Let_def)
qed (simp add: request_password_reset_def)

text \<open>A successful reset frees one: the account no longer waits.\<close>

lemma count_list_set_none:
  assumes "u \<in> set us" and "ac_reset u = Some x" and "\<And>v. ac_reset (f v) = None"
  shows "count_list (map ac_reset (map (\<lambda>v. if ac_id v = ac_id u then f v else v) us)) (Some x) < count_list (map ac_reset us) (Some x)"
proof -
  have le: "count_list (map ac_reset (map (\<lambda>v. if ac_id v = i then f v else v) us)) (Some x) \<le> count_list (map ac_reset us) (Some x)" for i us
    by (induction us) (simp_all add: assms(3))
  obtain ps qs where us: "us = ps @ u # qs" using assms(1) by (auto dest: split_list)
  show ?thesis using le [of "ac_id u" ps] le [of "ac_id u" qs] by (simp add: us assms(2,3))
qed

lemma spare_reset_password:
  "spare cr tok s \<le> spare cr tok (fst (reset_password cr s tok' p salt now up))"
  "reset_password cr s tok p salt now up = (t, Inr ()) \<Longrightarrow> spare cr tok s < spare cr tok t"
proof -
  let ?f = "\<lambda>v. v\<lparr>ac_passwordHash := cr_hash cr p salt, ac_reset := None, ac_resetExpiresAt := None,
    ac_emailVerified := True, ac_otp := None, ac_otpExpiresAt := None\<rparr>"
  have le: "count_list (map ac_reset (map (\<lambda>v. if ac_id v = i then ?f v else v) us)) (Some x) \<le> count_list (map ac_reset us) (Some x)" for i us x
    by (induction us) simp_all
  then have "spare cr tok s \<le> spare cr tok (set_account i ?f s)" for i by (simp add: spare_def set_account_def)
  then show "spare cr tok s \<le> spare cr tok (fst (reset_password cr s tok' p salt now up))"
    by (simp add: reset_password_def split: option.splits)
  assume a: "reset_password cr s tok p salt now up = (t, Inr ())"
  then obtain u where u: "reset_holder cr s tok = Some u" and t: "t = drop_cached up (ac_id u) (set_account (ac_id u) ?f s)"
    by (auto simp: reset_password_def split: option.splits if_splits)
  have "u \<in> set (aw_users s)" "ac_reset u = Some (cr_sha cr tok)" using u by (auto simp: reset_holder_def find_Some_iff)
  then have "spare cr tok s < spare cr tok (set_account (ac_id u) ?f s)"
    using count_list_set_none [of u "aw_users s" "cr_sha cr tok" ?f] by (simp add: spare_def set_account_def)
  then show "spare cr tok s < spare cr tok t" by (simp add: t)
qed

lemma resets_otp [simp]: "spare cr tok (fst (send_verification_otp cr s i c n b)) = spare cr tok s"
  by (rule spare_same) (auto simp: send_verification_otp_def Let_def set_account_def split: option.splits)

lemma spare_otp [simp]: "spare cr tok (fst (with_otp cr s i u c n b)) = spare cr tok s"
proof -
  have "fst (with_otp cr s i u c n b) = fst (send_verification_otp cr s i c n b)"
    by (auto simp: with_otp_def split: prod.splits sum.splits)
  then show ?thesis by simp
qed

lemma spare_new:
  "create_account (new_account i nm e p r g) s1 = Inr s2 \<Longrightarrow> aw_users s1 = aw_users s \<Longrightarrow> aw_mails s1 = aw_mails s \<Longrightarrow>
    aw_users t = aw_users s2 \<Longrightarrow> aw_mails t = aw_mails s2 \<Longrightarrow> spare cr tok t = spare cr tok s"
  by (auto dest!: create_account_same simp: new_account_def spare_def)

lemma spare_register [simp]: "spare cr tok (fst (register cr s dto i salt code now sent)) = spare cr tok s"
  by (auto simp: register_def register_write_def register_rows_def res spare_new dest!: land_same split: sum.splits)

lemma spare_register_organization [simp]:
  "spare cr tok (fst (register_organization cr lower s dto g i salt code now sent)) = spare cr tok s"
  by (auto simp: register_organization_def register_org_rows_def res spare_new dest!: create_org_same split: sum.splits)

lemma spare_quiet [simp]:
  "spare cr tok (fst (join_workspace s i t n)) = spare cr tok s" "spare cr tok (fst (create_workspace lower s i d g n)) = spare cr tok s"
  "spare cr tok (fst (create_invite s g i v k t n)) = spare cr tok s" "spare cr tok (fst (revoke_invite s g k n)) = spare cr tok s"
  "spare cr tok (fst (set_workspace g f s)) = spare cr tok s"
  by (rule spare_same, simp add: join_same workspace_same other_same, simp add: join_same workspace_same other_same)+

lemma spare_statuses [simp]:
  "spare cr tok (fst (set_member_status s g i st up)) = spare cr tok s" "spare cr tok (fst (set_user_status s a i st up)) = spare cr tok s"
  "spare cr tok (fst (set_user_role s i r)) = spare cr tok s" "spare cr tok (fst (set_super_admin s a i b)) = spare cr tok s"
  "spare cr tok (fst (change_password cr s i p q salt)) = spare cr tok s" "spare cr tok (fst (verify_email cr s i c n up)) = spare cr tok s"
  "spare cr tok (fst (verify_user_email s i up)) = spare cr tok s"
  by (simp_all add: set_member_status_def set_user_status_def set_user_role_def set_super_admin_def change_password_def
      verify_email_def verify_user_email_def Let_def split: option.splits sum.splits)

lemma spare_do:
  assumes "distinct (map ac_id (aw_users s))" and "collision_free cr"
  shows "spare cr tok s \<le> spare cr tok (fst (account_do cr lower s op))"
  by (cases op) (simp_all add: signed_def spare_request [OF assms] spare_reset_password(1) update_brand_def update_settings_def
      send_reset_link_def split: sum.split)

lemma spare_run:
  assumes "addresses_ok cr ops s" and "collision_free cr"
  shows "spare cr tok s \<le> spare cr tok (fst (foldl (account_step cr lower) (s, rs) later)) \<and>
    addresses_ok cr (ops @ later) (fst (foldl (account_step cr lower) (s, rs) later))"
proof (induction later rule: rev_induct)
  case (snoc op later)
  let ?t = "fst (foldl (account_step cr lower) (s, rs) later)"
  have a: "addresses_ok cr (ops @ later) ?t" and le: "spare cr tok s \<le> spare cr tok ?t" using snoc by simp_all
  have "addresses_ok cr (ops @ later @ [op]) (fst (account_do cr lower ?t op))"
    by (intro addr_do [OF a _ assms(2)]) auto
  moreover have "spare cr tok ?t \<le> spare cr tok (fst (account_do cr lower ?t op))"
    using a by (intro spare_do [OF _ assms(2)]) (simp add: addresses_ok_def)
  ultimately show ?case using le by simp
qed (use assms in simp)

end
