(* ===== verification/AccountLaws.thy ===== *)
theory AccountLaws
  imports AccountRuns
begin

text \<open>
  What the accounts and the invites promise over every run, and where the code keeps less than it says.
\<close>

section \<open>A workspace in the making\<close>

text \<open>A founder with a link for one student, a student who takes it up, and toy hashes.\<close>

definition toy :: crypto where
  "toy = \<lparr>cr_sha = (\<lambda>t. t), cr_hash = (\<lambda>p salt. salt @ p), cr_verify = (\<lambda>p h. drop (length h - length p) h = p)\<rparr>"

lemma toy_collision_free: "collision_free toy"
  by (simp add: collision_free_def toy_def)

definition nobody :: accounts_db where
  "nobody = \<lparr>aw_db = empty_db\<lparr>db_courses := [\<lparr>co_id = ''c'', co_instructorId = Some ''t'', co_organizationId = Some ''g'', co_pluginKeys = None\<rparr>]\<rparr>,
     aw_users = [], aw_orgs = [], aw_members = [], aw_invites = [], aw_cache = Map.empty, aw_mails = []\<rparr>"

lemma nobody_empty: "no_accounts nobody"
  by (simp add: no_accounts_def nobody_def)

definition school_dto :: "string \<Rightarrow> org_admin_dto" where
  "school_dto e = \<lparr>od_organizationName = ''A School'', od_tagline = None, od_primaryColor = None, od_accentColor = None, od_logoUrl = None,
     od_name = ''Ada'', od_email = e, od_password = ''secret'', od_pluginKeys = []\<rparr>"

definition pupil_dto :: "string \<Rightarrow> register_dto" where
  "pupil_dto e = \<lparr>rd_name = ''Pupil'', rd_email = e, rd_password = ''pupil-pw'', rd_inviteToken = ''link''\<rparr>"

definition link_dto :: "role \<Rightarrow> invite_dto" where
  "link_dto r = \<lparr>id_role = r, id_label = None, id_courseId = Some ''c'', id_maxUses = Some 1, id_expiresAt = None\<rparr>"

definition first_days :: "account_op list" where
  "first_days = [RegisterOrg (school_dto ''a@x'') ''g'' ''a'' ''s'' ''111'' 0 True,
     CreateInvite ''g'' ''a'' (link_dto STUDENT) ''v'' ''link'' 10, Register (pupil_dto ''p@x'') ''p'' ''s'' ''222'' 20 True,
     VerifyEmail ''p'' ''222'' 30 True, RequestReset ''p@x'' ''reset-1'' 40]"

definition opened :: "accounts_db \<times> auth_result list" where
  "opened = foldl (account_step toy id) (nobody, []) first_days"

section \<open>Sessions\<close>

text \<open>C11: Over any run of the accounts, invites and the platform's administration, a session the service signed
  speaks for a member of the workspace it names, in the role the member has there or in one that an
  administrator of the platform gave the account; and who is a workspace's administrator there is the one who
  founded it, its only one. So without a role from the platform a session of an administrator is the founder's.\<close>

theorem sessions_speak_for_members:
  assumes "no_accounts s0" and "foldl (account_step cr lower) (s0, []) ops = (s, rs)" and "r \<in> set rs" and "p = ar_accessToken r"
  shows "\<exists>m \<in> set (aw_members s). mb_userId m = jwt_sub p \<and> Some (mb_organizationId m) = jwt_organizationId p \<and>
    (mb_role m = jwt_role p \<or> SetUserRole (jwt_sub p) (jwt_role p) \<in> set ops) \<and>
    (mb_role m = ORG_ADMIN \<longrightarrow> admins (aw_members s) (mb_organizationId m) = [m])"
proof -
  let ?R = "given_roles ops"
  have ok: "members_ok ?R s" and "speaks_for_member ?R s r"
    using account_runs_ok [OF assms(1), of ops cr lower] assms(2,3) by (auto simp: signed_ok_def)
  then obtain m where m: "m \<in> set (aw_members s)" "mb_userId m = jwt_sub p" "Some (mb_organizationId m) = jwt_organizationId p"
    "mb_role m = jwt_role p \<or> SetUserRole (jwt_sub p) (jwt_role p) \<in> set ops"
    unfolding assms(4) by (auto simp: speaks_for_member_def Let_def is_member_def given_roles_def)
  have "admins (aw_members s) (mb_organizationId m) = [m]" if "mb_role m = ORG_ADMIN"
  proof -
    have "m \<in> set (admins (aw_members s) (mb_organizationId m))" using m that by (simp add: admins_def)
    moreover have "length (admins (aw_members s) (mb_organizationId m)) = 1"
      using ok m(1) by (auto simp: members_ok_def roster_def roster_ok.simps)
    ultimately show ?thesis by (cases "admins (aw_members s) (mb_organizationId m)") auto
  qed
  then show ?thesis using m by blast
qed

lemma sessions_speak_for_members_witness:
  "\<exists>m \<in> set (aw_members (fst opened)). mb_userId m = ''a'' \<and> mb_organizationId m = ''g'' \<and> admins (aw_members (fst opened)) ''g'' = [m]"
proof -
  have o': "foldl (account_step toy id) (nobody, []) first_days = (fst opened, snd opened)" by (simp add: opened_def)
  have n: "SetUserRole i q \<notin> set first_days" for i q by (simp add: first_days_def)
  have "map (\<lambda>r. (jwt_sub (ar_accessToken r), jwt_organizationId (ar_accessToken r), jwt_role (ar_accessToken r))) (take 1 (snd opened)) =
      [(''a'', Some ''g'', ORG_ADMIN)]" unfolding opened_def by code_simp
  then obtain r where r: "r \<in> set (snd opened)" "jwt_sub (ar_accessToken r) = ''a''" "jwt_organizationId (ar_accessToken r) = Some ''g''"
    "jwt_role (ar_accessToken r) = ORG_ADMIN" by (cases "snd opened") auto
  show ?thesis using sessions_speak_for_members [OF nobody_empty o' r(1) HOL.refl] n r(2-4) by auto
qed

section \<open>Links\<close>

text \<open>C13: A link admits no more people than its limit: over every run of requests served one at a time, each
  link's uses stay within its limit, and a workspace has, beside its one administrator, at most as many members
  as its links were used; so one whose links are all limited has no more than their limits add up to. (Two
  registrations that overlap can use a link for one twice: \<open>overlapping_registrations_exceed_the_limit\<close>.)\<close>

theorem links_admit_within_their_limits:
  assumes "no_accounts s0" and "s = fst (foldl (account_step cr lower) (s0, []) ops)" and "g \<in> og_id ` set (aw_orgs s)"
  shows "(\<forall>v \<in> set (aw_invites s). 0 \<le> iv_uses v \<and> (\<forall>m. iv_maxUses v = Some m \<longrightarrow> iv_uses v \<le> m)) \<and>
    int (length (filter (\<lambda>m. mb_organizationId m = g) (aw_members s))) \<le>
      1 + (\<Sum>v \<leftarrow> filter (\<lambda>v. iv_organizationId v = g) (aw_invites s). iv_uses v) \<and>
    ((\<forall>v \<in> set (aw_invites s). iv_organizationId v = g \<longrightarrow> iv_maxUses v \<noteq> None) \<longrightarrow>
     int (length (filter (\<lambda>m. mb_organizationId m = g) (aw_members s))) \<le>
       1 + (\<Sum>v \<leftarrow> filter (\<lambda>v. iv_organizationId v = g) (aw_invites s). the (iv_maxUses v)))"
proof -
  let ?vs = "map (\<lambda>v. (iv_id v, iv_organizationId v, iv_role v, iv_maxUses v, iv_uses v)) (aw_invites s)"
  let ?gs = "filter (\<lambda>v. iv_organizationId v = g) (aw_invites s)"
  have ok: "members_ok (given_roles ops) s" using account_runs_ok [OF assms(1), of ops cr lower] assms(2) by (simp add: signed_ok_def)
  then have l: "\<forall>v \<in> set (aw_invites s). 0 \<le> iv_uses v \<and> (\<forall>m. iv_maxUses v = Some m \<longrightarrow> iv_uses v \<le> m)"
    by (auto simp: members_ok_def roster_def roster_ok.simps split: option.splits)
  have "used ?vs g = (\<Sum>v \<leftarrow> ?gs. iv_uses v)" by (simp add: used_def sum_list_map_filter' comp_def)
  then have n: "int (length (newcomers (aw_members s) g)) \<le> (\<Sum>v \<leftarrow> ?gs. iv_uses v)"
    using ok by (auto simp: members_ok_def roster_def roster_ok.simps dest: spec [of _ g])
  have "(\<Sum>v \<leftarrow> ?gs. iv_uses v) \<le> (\<Sum>v \<leftarrow> ?gs. the (iv_maxUses v))"
    if "\<forall>v \<in> set (aw_invites s). iv_organizationId v = g \<longrightarrow> iv_maxUses v \<noteq> None"
    using l that by (intro sum_list_mono) auto
  moreover have "length (admins (aw_members s) g) = 1" using ok assms(3) by (auto simp: members_ok_def roster_def roster_ok.simps)
  moreover have "length (filter (\<lambda>m. mb_organizationId m = g) (aw_members s)) = length (admins (aw_members s) g) + length (newcomers (aw_members s) g)"
    using sum_length_filter_compl [of "\<lambda>m. mb_role m = ORG_ADMIN" "filter (\<lambda>m. mb_organizationId m = g) (aw_members s)"]
    by (simp add: admins_def newcomers_def conj_commute)
  ultimately show ?thesis using l n by (intro conjI impI) (simp, simp, fastforce)
qed

lemma links_admit_within_their_limits_witness:
  "int (length (filter (\<lambda>m. mb_organizationId m = ''g'') (aw_members (fst opened)))) \<le> 2 \<and> length (aw_members (fst opened)) = 2"
proof -
  have v: "map (\<lambda>v. (iv_organizationId v, iv_maxUses v)) (aw_invites (fst opened)) = [(''g'', Some 1)]"
    and g: "map og_id (aw_orgs (fst opened)) = [''g'']" and m: "length (aw_members (fst opened)) = 2"
    unfolding opened_def by code_simp+
  obtain w where w: "aw_invites (fst opened) = [w]" "iv_organizationId w = ''g''" "iv_maxUses w = Some 1" using v by auto
  have "''g'' \<in> og_id ` set (aw_orgs (fst opened))" using g by (metis list.set_intros(1) set_map)
  then show ?thesis
    using links_admit_within_their_limits [OF nobody_empty, of "fst opened" toy id first_days "''g''"] w m by (simp add: opened_def)
qed

section \<open>Addresses and passwords\<close>

text \<open>C12: A verified account has answered from its own address, or an administrator of the platform verified it
  by hand: over every run each verified account opened a reset link that was sent to its address within the
  link's half hour, or entered a code that was sent there within the code's ten minutes, or is one of those an
  administrator verified. The hash of tokens and codes is taken to be free of collisions.\<close>

theorem verified_accounts_answered_their_mail:
  assumes "no_accounts s0" and "collision_free cr"
    and "s = fst (foldl (account_step cr lower) (s0, []) ops)" and "u \<in> set (aw_users s)" and "ac_emailVerified u"
  shows "(\<exists>tok t p salt now up. ResetMail (ac_email u) tok t \<in> set (aw_mails s) \<and> ResetPassword tok p salt now up \<in> set ops \<and>
      now \<le> t + 30 * 60 * 1000) \<or>
    (\<exists>code t now up. OtpMail (ac_email u) code t \<in> set (aw_mails s) \<and> VerifyEmail (ac_id u) code now up \<in> set ops \<and>
      now \<le> t + 10 * 60 * 1000) \<or>
    (\<exists>up. VerifyUserEmail (ac_id u) up \<in> set ops)"
proof -
  have "address_ok cr ops s u" using account_runs_proved [OF assms(1,2), of ops lower] assms(3,4) by (simp add: addresses_ok_def)
  then have "opened_in_time (aw_mails s) ops u \<or> entered_in_time (aw_mails s) ops u \<or> by_hand ops u"
    using assms(5) by (simp add: address_ok_def)
  then show ?thesis by (simp only: opened_in_time_def entered_in_time_def by_hand_def reset_life_def otp_life_def)
qed

lemma verified_accounts_answered_their_mail_witness:
  "\<exists>u \<in> set (aw_users (fst opened)). ac_emailVerified u \<and>
    (\<exists>code t now up. OtpMail (ac_email u) code t \<in> set (aw_mails (fst opened)) \<and> VerifyEmail (ac_id u) code now up \<in> set first_days)"
proof -
  have v: "map ac_emailVerified (aw_users (fst opened)) = [False, True]" unfolding opened_def by code_simp
  obtain a u where u: "aw_users (fst opened) = [a, u]" "ac_emailVerified u" using v by auto
  have "\<forall>i tok p salt now up. ResetPassword tok p salt now up \<notin> set first_days \<and> VerifyUserEmail i up \<notin> set first_days" by (simp add: first_days_def)
  then have "\<exists>code t now up. OtpMail (ac_email u) code t \<in> set (aw_mails (fst opened)) \<and> VerifyEmail (ac_id u) code now up \<in> set first_days"
    using verified_accounts_answered_their_mail [OF nobody_empty toy_collision_free, of "fst opened" id first_days u] u
    by (simp add: opened_def) blast
  then show ?thesis using u by (intro bexI [of _ u]) simp_all
qed

text \<open>C14: A reset link works once: after it set a password it is refused, whatever is done before, in between and
  later, as long as the same token is not drawn for a second mail and the hash of tokens is free of collisions.\<close>

theorem reset_link_works_once:
  assumes "no_accounts s0" and "collision_free cr"
    and "s = fst (foldl (account_step cr lower) (s0, []) ops)" and "reset_password cr s tok p salt now up = (s1, Inr ())"
    and "s2 = fst (foldl (account_step cr lower) (s1, []) later)" and "count_list (reset_tokens (aw_mails s2)) tok \<le> 1"
  shows "reset_password cr s2 tok p' salt' now' up' = (s2, Inl (BadRequest ''This reset link is invalid or has expired''))"
proof -
  have ok0: "addresses_ok cr [] s0" using assms(1) by (simp add: no_accounts_def addresses_ok_def)
  have z: "spare cr tok s0 = 0" using assms(1) by (simp add: no_accounts_def spare_def reset_tokens_def)
  note s = spare_run [OF ok0 assms(2), of tok lower "[]" ops]
  let ?ops = "ops @ [ResetPassword tok p salt now up]"
  have ok: "addresses_ok cr ops s" and le: "0 \<le> spare cr tok s" using s z assms(3) by simp_all
  have "addresses_ok cr ?ops (fst (reset_password cr s tok p salt now up))" by (rule addr_reset_password [OF ok _ assms(2)]) auto
  then have "spare cr tok s1 \<le> spare cr tok s2"
    using spare_run [OF _ assms(2), of ?ops s1 tok lower "[]" later] assms(4,5) by simp
  then have "0 < spare cr tok s2" using spare_reset_password(2) [OF assms(4)] le by linarith
  then have "count_list (map ac_reset (aw_users s2)) (Some (cr_sha cr tok)) = 0" using assms(6) by (simp add: spare_def)
  then have "reset_holder cr s2 tok = None" by (auto simp: reset_holder_def find_None_iff count_list_0_iff rev_image_eqI)
  then show ?thesis by (simp add: reset_password_def)
qed

lemma reset_link_works_once_witness:
  "case reset_password toy (fst opened) ''reset-1'' ''new'' ''s'' 50 True of
     (s1, Inr _) \<Rightarrow> snd (reset_password toy s1 ''reset-1'' ''again'' ''s'' 60 True) = Inl (BadRequest ''This reset link is invalid or has expired'')
   | _ \<Rightarrow> False"
proof -
  obtain s1 y where r: "reset_password toy (fst opened) ''reset-1'' ''new'' ''s'' 50 True = (s1, y)" by fastforce
  have "\<not> isl (snd (reset_password toy (fst opened) ''reset-1'' ''new'' ''s'' 50 True))"
    "count_list (reset_tokens (aw_mails (fst (reset_password toy (fst opened) ''reset-1'' ''new'' ''s'' 50 True)))) ''reset-1'' = 1"
    unfolding opened_def by code_simp+
  then have y: "y = Inr ()" and c: "count_list (reset_tokens (aw_mails s1)) ''reset-1'' \<le> 1" using r by (cases y; simp)+
  have "reset_password toy s1 ''reset-1'' ''again'' ''s'' 60 True = (s1, Inl (BadRequest ''This reset link is invalid or has expired''))"
    using reset_link_works_once [OF nobody_empty toy_collision_free, of "fst opened" id first_days, where later = "[]"] r y c by (simp add: opened_def)
  then show ?thesis using r y by simp
qed

section \<open>Where the code keeps less\<close>

definition before_pupils :: accounts_db where
  "before_pupils = fst (foldl (account_step toy id) (nobody, []) (take 2 first_days))"

text \<open>The comment says the transaction keeps the limit from being raced. Its read takes no lock: two
  registrations that both read before either writes both use a link for one.\<close>

lemma overlapping_registrations_exceed_the_limit:
  "let s = before_pupils in
   case (register_read s (pupil_dto ''p@x'') 20, register_read s (pupil_dto ''q@x'') 20) of
     (Inr v, Inr w) \<Rightarrow>
       let t = fst (register_write toy s (pupil_dto ''p@x'') v ''p'' ''s'' ''222'' 20 True);
           t' = fst (register_write toy t (pupil_dto ''q@x'') w ''q'' ''s'' ''333'' 20 True)
       in map (\<lambda>v. (iv_maxUses v, iv_uses v)) (aw_invites t') = [(Some 1, 2)] \<and> length (aw_users t') = 3
   | _ \<Rightarrow> False"
  unfolding before_pupils_def by code_simp

text \<open>A link for a program's students hands the program to any instructor of the school who opens it,
  and no use is spent.\<close>

lemma student_link_hands_over_the_program:
  "let s = fst (foldl (account_step toy id) (before_pupils, [])
         [CreateInvite ''g'' ''a'' \<lparr>id_role = INSTRUCTOR, id_label = None, id_courseId = None, id_maxUses = None, id_expiresAt = None\<rparr>
            ''w'' ''staff-link'' 11,
          Register \<lparr>rd_name = ''Ida'', rd_email = ''i@x'', rd_password = ''pw'', rd_inviteToken = ''staff-link''\<rparr> ''i'' ''s'' ''444'' 12 True]);
       t = fst (join_workspace s ''i'' ''link'' 13) in
   map co_instructorId (db_courses (aw_db s)) = [Some ''t''] \<and> map co_instructorId (db_courses (aw_db t)) = [Some ''i''] \<and>
   map iv_uses (filter (\<lambda>v. iv_token v = ''link'') (aw_invites t)) = [0]"
  unfolding before_pupils_def by code_simp

text \<open>A school that switches a member off switches the whole account off: here the founder of another
  workspace, who is a student in this one, can no longer sign in to their own.\<close>

lemma school_disables_the_whole_account:
  "let s = fst (foldl (account_step toy id) (before_pupils, [])
         [RegisterOrg (school_dto ''b@x'') ''h'' ''b'' ''s'' ''555'' 12 True, JoinWorkspace ''b'' ''link'' 13]);
       t = fst (set_member_status s ''g'' ''b'' DISABLED True) in
   \<not> isl (login toy s ''b@x'' ''secret'') \<and> login toy t ''b@x'' ''secret'' = Inl (Forbidden ''This account has been disabled'')"
  unfolding before_pupils_def by code_simp

text \<open>The platform's change of a role is not a member's: signing in gives the new role, switching to the
  same workspace gives the old one back.\<close>

lemma changed_role_is_two_roles:
  "let s = fst (set_user_role (fst opened) ''p'' INSTRUCTOR) in
   map_sum id (\<lambda>r. jwt_role (ar_accessToken r)) (login toy s ''p@x'' ''pupil-pw'') = Inr INSTRUCTOR \<and>
   map_sum id (\<lambda>r. jwt_role (ar_accessToken r)) (switch_workspace s ''p'' ''g'') = Inr STUDENT"
  unfolding opened_def by code_simp

end
