(* ===== verification/QuickAccessRuns.thy ===== *)
theory QuickAccessRuns
  imports AccountLaws
begin

text \<open>
  How many codes can be tried on a shortcut, which codes may be chosen, and what two guesses at once do
  to the count.
\<close>

section \<open>Guessing\<close>

text \<open>A guess is a slug, a code and an instant. It is checked when the shortcut is there and not locked.\<close>

type_synonym guess = "string \<times> string \<times> int"

definition guess_step :: "crypto \<Rightarrow> accounts_db \<Rightarrow> quick_access list \<Rightarrow> guess \<Rightarrow> quick_access list" where
  "guess_step cr s rows x = (case x of (slug, code, now) \<Rightarrow> fst (redeem cr s rows slug code now))"

fun checked :: "crypto \<Rightarrow> accounts_db \<Rightarrow> quick_access list \<Rightarrow> string \<Rightarrow> guess list \<Rightarrow> nat" where
  "checked cr s rows slug [] = 0"
| "checked cr s rows slug (x # xs) =
     (if fst x = slug \<and> \<not> isl (redeem_look rows slug (snd (snd x))) then 1 else 0) +
     checked cr s (guess_step cr s rows x) slug xs"

text \<open>Ids and slugs are the keys of the table.\<close>

definition shortcuts_ok :: "quick_access list \<Rightarrow> bool" where
  "shortcuts_ok rows \<longleftrightarrow> distinct (map qk_id rows) \<and> distinct (map qk_slug rows)"

definition wrong_code :: "crypto \<Rightarrow> quick_access list \<Rightarrow> string \<Rightarrow> string \<Rightarrow> bool" where
  "wrong_code cr rows slug code \<longleftrightarrow> (\<forall>r \<in> set rows. qk_slug r = slug \<longrightarrow> \<not> cr_verify cr code (qk_passcodeHash r))"

text \<open>\<open>c\<close> codes checked since \<open>t0\<close>: \<open>k\<close> locks and \<open>f\<close> misses after the last; each lock lasts its quarter
  of an hour.\<close>

definition tally_ok :: "int \<Rightarrow> int \<Rightarrow> nat \<Rightarrow> quick_access \<Rightarrow> bool" where
  "tally_ok t0 t c r \<longleftrightarrow>
     (\<exists>k. c = 5 * k + qk_failedAttempts r \<and> qk_failedAttempts r < 5 \<and> (k = 0 \<or> t0 + (int k - 1) * lock_ms \<le> t) \<and>
        (case qk_lockedUntil r of
           None \<Rightarrow> k = 0 \<or> t0 + int k * lock_ms \<le> t
         | Some u \<Rightarrow> qk_failedAttempts r = 0 \<and> (k = 0 \<or> t0 + int k * lock_ms \<le> u)))"

lemma tally_later: "tally_ok t0 t c r \<Longrightarrow> t \<le> t' \<Longrightarrow> tally_ok t0 t' c r"
  unfolding tally_ok_def by (elim exE, rule exI) (auto split: option.splits)

lemma tally_miss:
  assumes "tally_ok t0 t c r" and "t \<le> t'" and "t0 \<le> t'" and "case qk_lockedUntil r of None \<Rightarrow> True | Some u \<Rightarrow> u \<le> t'"
  shows "tally_ok t0 t' (c + 1) (miss t' r r)"
proof -
  obtain k where k: "c = 5 * k + qk_failedAttempts r" "qk_failedAttempts r < 5" "k = 0 \<or> t0 + int k * lock_ms \<le> t'"
    using assms by (auto simp: tally_ok_def split: option.splits)
  show ?thesis
  proof (cases "qk_failedAttempts r = 4")
    case True
    then show ?thesis using k assms(3) unfolding tally_ok_def
      by (intro exI [of _ "k + 1"]) (auto simp: miss_def max_attempts_def Let_def algebra_simps)
  next
    case False
    then have "(k = 0 \<or> t0 + (int k - 1) * lock_ms \<le> t')"
      using k(3) by (auto simp: algebra_simps lock_ms_def)
    then show ?thesis using k False unfolding tally_ok_def
      by (intro exI [of _ k]) (auto simp: miss_def max_attempts_def Let_def)
  qed
qed

lemma tally_bound:
  assumes "tally_ok t0 t c r" and "t0 \<le> t"
  shows "int c \<le> 5 * ((t - t0) div lock_ms + 1)"
proof -
  obtain k where k: "c = 5 * k + qk_failedAttempts r" "qk_failedAttempts r < 5" "k = 0 \<or> t0 + (int k - 1) * lock_ms \<le> t"
    and l: "qk_failedAttempts r = 0 \<or> k = 0 \<or> t0 + int k * lock_ms \<le> t"
    using assms(1) by (auto simp: tally_ok_def split: option.splits)
  have d: "j * lock_ms \<le> t - t0 \<Longrightarrow> j \<le> (t - t0) div lock_ms" for j
    by (simp add: lock_ms_def pos_imp_zdiv_nonneg_iff zdiv_mono1 [of "j * 900000" "t - t0" 900000, simplified])
  have nn: "0 \<le> (t - t0) div lock_ms" using assms(2) by (simp add: lock_ms_def pos_imp_zdiv_nonneg_iff)
  show ?thesis
  proof (cases "qk_failedAttempts r = 0")
    case True
    then show ?thesis using k d [of "int k - 1"] nn by (auto simp: algebra_simps)
  next
    case False
    then have "int k \<le> (t - t0) div lock_ms" using l d [of "int k"] nn by (auto simp: algebra_simps)
    then show ?thesis using k(1,2) by simp
  qed
qed

section \<open>A run of guesses\<close>

lemma set_row_keys [simp]: "(\<And>r. qk_id (f r) = qk_id r) \<Longrightarrow> map qk_id (set_row i f rows) = map qk_id rows"
  by (simp add: set_row_def comp_def if_distrib cong: if_cong)

lemma set_row_slugs [simp]: "(\<And>r. qk_slug (f r) = qk_slug r) \<Longrightarrow> map qk_slug (set_row i f rows) = map qk_slug rows"
  by (simp add: set_row_def comp_def if_distrib cong: if_cong)

lemma by_slugD: "by_slug rows x = Some r \<Longrightarrow> r \<in> set rows \<and> qk_slug r = x"
  by (auto simp: by_slug_def find_Some_iff)

lemma by_slugI: "shortcuts_ok rows \<Longrightarrow> r \<in> set rows \<Longrightarrow> by_slug rows (qk_slug r) = Some r"
  by (simp add: by_slug_def shortcuts_ok_def find_by_key)

lemma miss_keys [simp]: "qk_id (miss now a r) = qk_id r" "qk_slug (miss now a r) = qk_slug r" "qk_passcodeHash (miss now a r) = qk_passcodeHash r"
  by (simp_all add: miss_def Let_def)

lemma set_row_mem: "shortcuts_ok rows \<Longrightarrow> q \<in> set rows \<Longrightarrow> r \<in> set rows \<Longrightarrow> (if qk_id r = qk_id q then f r else r) \<in> set (set_row (qk_id q) f rows)"
  by (auto simp: set_row_def)

lemma redeem_settle_row:
  assumes "shortcuts_ok rows" and "q \<in> set rows" and "by_slug rows x = Some r"
  shows "shortcuts_ok (fst (redeem_settle cr s rows q code now))"
    and "qk_slug q \<noteq> x \<Longrightarrow> by_slug (fst (redeem_settle cr s rows q code now)) x = Some r"
    and "q = r \<Longrightarrow> \<not> cr_verify cr code (qk_passcodeHash r) \<Longrightarrow> by_slug (fst (redeem_settle cr s rows q code now)) x = Some (miss now r r)"
proof -
  let ?g = "\<lambda>r. r\<lparr>qk_failedAttempts := 0, qk_lockedUntil := None, qk_lastUsedAt := Some now\<rparr>"
  show ok: "shortcuts_ok (fst (redeem_settle cr s rows q code now))"
    using assms(1) by (auto simp: redeem_settle_def shortcuts_ok_def split: option.splits)
  have r: "r \<in> set rows" "qk_slug r = x" using by_slugD [OF assms(3)] by simp_all
  show "by_slug (fst (redeem_settle cr s rows q code now)) x = Some r" if "qk_slug q \<noteq> x"
  proof -
    have "qk_id r \<noteq> qk_id q" using assms(1,2) r that unfolding shortcuts_ok_def distinct_map inj_on_def by blast
    then have "r \<in> set (set_row (qk_id q) f rows)" for f using set_row_mem [OF assms(1,2) r(1), of f] by simp
    then have "r \<in> set (fst (redeem_settle cr s rows q code now))" using r(1) by (simp add: redeem_settle_def split: option.split)
    then show ?thesis using by_slugI [OF ok, of r] by (simp only: r(2))
  qed
  show "by_slug (fst (redeem_settle cr s rows q code now)) x = Some (miss now r r)" if "q = r" and "\<not> cr_verify cr code (qk_passcodeHash r)"
  proof -
    have "miss now r r \<in> set (fst (redeem_settle cr s rows q code now))"
      using set_row_mem [OF assms(1,2) r(1), of "miss now q"] that by (simp add: redeem_settle_def)
    then show ?thesis using by_slugI [OF ok, of "miss now r r"] by (simp only: r(2) miss_keys)
  qed
qed

lemma guess_row:
  assumes "shortcuts_ok rows" and "by_slug rows x = Some r" and "y = x \<Longrightarrow> \<not> cr_verify cr code (qk_passcodeHash r)"
  shows "shortcuts_ok (guess_step cr s rows (y, code, now))"
    and "by_slug (guess_step cr s rows (y, code, now)) x =
      Some (if y = x \<and> \<not> isl (redeem_look rows y now) then miss now r r else r)"
proof -
  have "shortcuts_ok (guess_step cr s rows (y, code, now)) \<and> by_slug (guess_step cr s rows (y, code, now)) x =
      Some (if y = x \<and> \<not> isl (redeem_look rows y now) then miss now r r else r)"
  proof (cases "redeem_look rows y now")
    case (Inl e)
    then show ?thesis using assms by (simp add: guess_step_def redeem_def)
  next
    case (Inr q)
    then have q: "by_slug rows y = Some q" by (auto simp: redeem_look_def split: option.splits if_splits)
    then have "q \<in> set rows" "qk_slug q = y" using by_slugD by auto
    note t = redeem_settle_row [OF assms(1) this(1) assms(2), where cr = cr and s = s and code = code and now = now]
    show ?thesis using t q assms(2,3) Inr \<open>qk_slug q = y\<close> by (auto simp: guess_step_def redeem_def)
  qed
  then show "shortcuts_ok (guess_step cr s rows (y, code, now))"
    and "by_slug (guess_step cr s rows (y, code, now)) x = Some (if y = x \<and> \<not> isl (redeem_look rows y now) then miss now r r else r)"
    by simp_all
qed

lemma look_open: "by_slug rows x = Some r \<Longrightarrow> \<not> isl (redeem_look rows x now) \<Longrightarrow> case qk_lockedUntil r of None \<Rightarrow> True | Some u \<Rightarrow> u \<le> now"
  by (auto simp: redeem_look_def split: option.splits if_splits)

lemma checked_tally:
  assumes "shortcuts_ok rows" and "by_slug rows x = Some r" and "tally_ok t0 t c r" and "sorted_wrt (\<lambda>a b. snd (snd a) \<le> snd (snd b)) xs"
    and "\<forall>g \<in> set xs. t \<le> snd (snd g) \<and> snd (snd g) \<le> t1" and "t0 \<le> t" and "t \<le> t1"
    and "\<forall>(y, code, now) \<in> set xs. y = x \<longrightarrow> \<not> cr_verify cr code (qk_passcodeHash r)"
  shows "int (c + checked cr s rows x xs) \<le> 5 * ((t1 - t0) div lock_ms + 1)"
  using assms
proof (induction xs arbitrary: rows r t c)
  case Nil
  then show ?case using tally_bound [OF tally_later [of t0 t c r t1]] by simp
next
  case (Cons g xs)
  obtain y code now where g: "g = (y, code, now)" by (cases g)
  let ?hit = "y = x \<and> \<not> isl (redeem_look rows y now)"
  have w: "y = x \<Longrightarrow> \<not> cr_verify cr code (qk_passcodeHash r)" using Cons.prems(8) by (simp add: g)
  note gr = guess_row [OF Cons.prems(1,2), of y cr code s now, OF w]
  have t: "t \<le> now" "now \<le> t1" using Cons.prems(5) by (simp_all add: g)
  have h: "tally_ok t0 now (c + (if ?hit then 1 else 0)) (if ?hit then miss now r r else r)"
    using tally_miss [OF Cons.prems(3) t(1)] tally_later [OF Cons.prems(3) t(1)] look_open [OF Cons.prems(2)] Cons.prems(6) t(1) by auto
  have "int (c + (if ?hit then 1 else 0) + checked cr s (guess_step cr s rows g) x xs) \<le> 5 * ((t1 - t0) div lock_ms + 1)"
    using gr h Cons.prems t unfolding g
    by (intro Cons.IH [where r = "if ?hit then miss now r r else r" and t = now]) auto
  then show ?case by (cases ?hit) (auto simp: g)
qed

section \<open>Properties\<close>

text \<open>What the count and the lock of a shortcut can be: fewer than five misses, and none while there is a lock. It is so
  when the shortcut is made, and every code sent, right or wrong, leaves it so.\<close>

definition row_ok :: "quick_access \<Rightarrow> bool" where
  "row_ok r \<longleftrightarrow> qk_failedAttempts r < 5 \<and> (qk_lockedUntil r \<noteq> None \<longrightarrow> qk_failedAttempts r = 0)"

lemma rows_stay_ok:
  assumes "\<forall>r \<in> set rows. row_ok r"
  shows "\<forall>r \<in> set (guess_step cr s rows g). row_ok r"
proof -
  have m: "row_ok (miss now q r)" if "row_ok q" for now q r using that by (auto simp: row_ok_def miss_def max_attempts_def Let_def)
  have u: "row_ok (r\<lparr>qk_failedAttempts := 0, qk_lockedUntil := None, qk_lastUsedAt := l\<rparr>)" for r l by (simp add: row_ok_def)
  have s: "\<forall>r \<in> set (fst (redeem_settle cr s rows q code now)). row_ok r" if "row_ok q" for q code now
    using assms m [OF that] u by (auto simp: redeem_settle_def set_row_def split: option.split)
  obtain x code now where g: "g = (x, code, now)" by (cases g)
  show ?thesis
  proof (cases "redeem_look rows x now")
    case (Inr q)
    then have "by_slug rows x = Some q" by (auto simp: redeem_look_def split: option.splits if_splits)
    then have "row_ok q" using by_slugD assms by blast
    then show ?thesis using s Inr by (simp add: guess_step_def g redeem_def)
  qed (use assms in \<open>simp add: guess_step_def g redeem_def\<close>)
qed

text \<open>C15: Guessing is slow: in a period in which no right code is sent to a shortcut, at most five wrong codes are
  compared in each quarter of an hour that has begun, those counted before included, however many are sent to it,
  each settled before the next is looked at, and whatever is sent to other shortcuts in between. (Guesses at once
  count as one: \<open>guesses_at_once_count_as_one\<close>.)\<close>

theorem guesses_are_limited:
  assumes "shortcuts_ok rows" and "by_slug rows slug = Some r" and "row_ok r"
    and "sorted_wrt (\<lambda>a b. snd (snd a) \<le> snd (snd b)) xs" and "t0 \<le> t1" and "\<forall>(y, code, now) \<in> set xs. t0 \<le> now \<and> now \<le> t1"
    and "\<forall>(y, code, now) \<in> set xs. y = slug \<longrightarrow> \<not> cr_verify cr code (qk_passcodeHash r)"
  shows "int (qk_failedAttempts r + checked cr s rows slug xs) \<le> 5 * ((t1 - t0) div (15 * 60000) + 1)"
proof -
  have "tally_ok t0 t0 (qk_failedAttempts r) r" using assms(3) by (auto simp: tally_ok_def row_ok_def split: option.split)
  moreover have "\<forall>g \<in> set xs. t0 \<le> snd (snd g) \<and> snd (snd g) \<le> t1" using assms(6) by fastforce
  ultimately show ?thesis
    using checked_tally [OF assms(1,2) _ assms(4) _ order_refl assms(5,7), of "qk_failedAttempts r" s] by (simp add: lock_ms_def)
qed

definition pupils_shortcut :: "quick_access list" where
  "pupils_shortcut = [\<lparr>qk_id = ''k'', qk_userId = ''p'', qk_organizationId = ''g'', qk_slug = ''slug'', qk_passcodeHash = ''s135790'',
     qk_failedAttempts = 0, qk_lockedUntil = None, qk_revokedAt = None, qk_lastUsedAt = None\<rparr>]"

definition seven_guesses :: "guess list" where
  "seven_guesses = map (\<lambda>i. (''slug'', ''24680'' @ dec i, int i)) [0..<7]"

lemma guesses_are_limited_witness:
  "checked toy nobody pupils_shortcut ''slug'' seven_guesses = 5 \<and>
   int (checked toy nobody pupils_shortcut ''slug'' seven_guesses) \<le> 5 * ((10 - 0) div (15 * 60000) + 1)"
proof -
  have c: "checked toy nobody pupils_shortcut ''slug'' seven_guesses = 5"
    and k: "map (\<lambda>r. (qk_id r, qk_slug r, qk_failedAttempts r, qk_lockedUntil r)) pupils_shortcut = [(''k'', ''slug'', 0, None)]"
    and b: "list_all (\<lambda>(y, code, now). 0 \<le> now \<and> now \<le> 10) seven_guesses"
    and w: "list_all (\<lambda>(y, code, now). list_all (\<lambda>r. \<not> cr_verify toy code (qk_passcodeHash r)) pupils_shortcut) seven_guesses"
    and srt: "sorted_wrt (\<le>) (map (\<lambda>g. snd (snd g)) seven_guesses)"
    by code_simp+
  obtain r where r: "pupils_shortcut = [r]" "qk_slug r = ''slug''" "qk_failedAttempts r = 0" "qk_lockedUntil r = None" using k by auto
  have ok: "shortcuts_ok pupils_shortcut" and f: "by_slug pupils_shortcut ''slug'' = Some r"
    unfolding r(1) by (simp_all add: shortcuts_ok_def by_slug_def r(2))
  have "\<forall>(y, code, now) \<in> set seven_guesses. y = ''slug'' \<longrightarrow> \<not> cr_verify toy code (qk_passcodeHash r)"
    using w unfolding r(1) by (auto simp: list_all_iff)
  moreover have "sorted_wrt (\<lambda>a b. snd (snd a) \<le> snd (snd b)) seven_guesses" using srt by (simp add: sorted_wrt_map)
  moreover have "\<forall>(y, code, now) \<in> set seven_guesses. 0 \<le> now \<and> now \<le> 10" using b by (simp add: list_all_iff)
  moreover have "row_ok r" by (simp add: row_ok_def r(3,4))
  ultimately have "int (checked toy nobody pupils_shortcut ''slug'' seven_guesses) \<le> 5 * ((10 - 0) div (15 * 60000) + 1)"
    using guesses_are_limited [OF ok f, of seven_guesses 0 10 toy nobody] r(3) by simp
  then show ?thesis using c by blast
qed

section \<open>Codes that may be chosen\<close>

lemma six_digitsE:
  assumes "six_digits code"
  obtains a b c d e f where "code = [a, b, c, d, e, f]" and "list_all digit [a, b, c, d, e, f]"
  using assms by (auto simp: six_digits_def code_length_def numeral_eq_Suc length_Suc_conv)

text \<open>The years the comment speaks of are eight digits for the pattern and never asked about; a code of
  one digit is on the list already.\<close>

lemma year_check_never_fires: "assert_usable_code code \<noteq> Inl (BadRequest ''Pick something that is not a year.'')"
  by (auto simp: assert_usable_code_def res six_digits_def code_length_def two_years_def)

lemma years_are_accepted: "assert_usable_code ''199019'' = Inr ()" "assert_usable_code ''202420'' = Inr ()"
  by (code_simp, code_simp)

section \<open>Two guesses at once\<close>

text \<open>The count of misses is read and written apart: guesses that all look before one of them is
  settled count as one.\<close>

lemma guesses_at_once_count_as_one:
  "case (redeem_look pupils_shortcut ''slug'' 5, redeem_look pupils_shortcut ''slug'' 5) of
     (Inr q, Inr q') \<Rightarrow>
       map qk_failedAttempts (fst (redeem_settle toy nobody
         (fst (redeem_settle toy nobody pupils_shortcut q ''246801'' 5)) q' ''246802'' 5)) = [1]
   | _ \<Rightarrow> False"
  by code_simp

end
