(* ===== verification/TajweedMarks.thy ===== *)
theory TajweedMarks
  imports Courses QuranWords TajweedInput
begin

text \<open>
  Saved marks on the Quran's text: \<open>src/tajweed/tajweed.service.ts\<close>, with the checks of
  \<open>QuranWords\<close> and \<open>TajweedInput\<close>. A mark's id comes from its client; the clock is an input, and so
  is the wording of a refused position. An absent field of a request is \<open>None\<close>; where an edit tells
  an absent field from a null one it is \<open>None\<close> or \<open>Some None\<close>.
\<close>

section \<open>Rows\<close>

datatype mark_mode = LESSON | STUDENT_CORRECTION

datatype mark_style = HIGHLIGHT | UNDERLINE

datatype mark_outcome = CORRECT | REPEAT | TAJWEED_ISSUE | PRONUNCIATION | NOTE

datatype mark_change = CREATED | UPDATED | DELETED

text \<open>The row without its organization is what \<open>toPublic\<close> returns and a revision keeps.\<close>

record public_mark =
  mk_id :: string
  mk_courseId :: string
  mk_sectionId :: "string option"
  mk_sessionId :: "string option"
  mk_mode :: mark_mode
  mk_studentId :: "string option"
  mk_hifzEntryId :: "string option"
  mk_kept :: bool
  mk_surahNumber :: nat
  mk_ayahNumber :: nat
  mk_parts :: "normalized_part list"
  mk_rule :: "string option"
  mk_customLabel :: "string option"
  mk_style :: mark_style
  mk_color :: "string option"
  mk_note :: "string option"
  mk_outcome :: "mark_outcome option"
  mk_version :: int
  mk_createdById :: string
  mk_updatedById :: string
  mk_createdAt :: int
  mk_updatedAt :: int

record annotation_row = public_mark +
  mk_organizationId :: string

definition to_public :: "annotation_row \<Rightarrow> public_mark" where
  "to_public r = public_mark.truncate r"

record mark_revision =
  tr_annotationId :: string
  tr_version :: int
  tr_change :: mark_change
  tr_snapshot :: public_mark
  tr_changedById :: string
  tr_changedAt :: int

text \<open>A session's row with the section it teaches; a recitation's id, course and student.\<close>

record lesson_session =
  lx_id :: string
  lx_courseId :: string
  lx_sectionId :: "string option"

record hifz_entry =
  hz_id :: string
  hz_courseId :: string
  hz_studentId :: string

datatype audience = ToAll string | ToStaff string

datatype mark_event = MarkCreated public_mark | MarkUpdated public_mark | MarkDeleted string mark_mode

record tajweed =
  tj_db :: db
  tj_sessions :: "lesson_session list"
  tj_hifz :: "hifz_entry list"
  tj_marks :: "annotation_row list"
  tj_revisions :: "mark_revision list"
  tj_sent :: "(audience \<times> mark_event) list"

definition find_mark :: "tajweed \<Rightarrow> string \<Rightarrow> annotation_row option" where
  "find_mark s i = find (\<lambda>r. mk_id r = i) (tj_marks s)"

definition course_mark :: "tajweed \<Rightarrow> string \<Rightarrow> string \<Rightarrow> annotation_row result" where
  "course_mark s courseId i =
     from_option (NotFound ''Annotation not found in this course'')
       (find (\<lambda>r. mk_id r = i \<and> mk_courseId r = courseId) (tj_marks s))"

section \<open>Who may see and change\<close>

definition assert_mark_enrolled :: "db \<Rightarrow> string \<Rightarrow> string \<Rightarrow> unit result" where
  "assert_mark_enrolled d courseId student =
     guard_or (enrolled d courseId student) (Forbidden ''That student is not enrolled in this course'')"

text \<open>A refusal is no; a course that does not exist is still an error.\<close>

definition can_manage :: "db \<Rightarrow> jwt_payload \<Rightarrow> string \<Rightarrow> bool result" where
  "can_manage d user courseId =
     (if jwt_role user = STUDENT then Inr False
      else (case assert_can_manage_course d user courseId of
              Inr _ \<Rightarrow> Inr True
            | Inl e \<Rightarrow> (case e of Forbidden _ \<Rightarrow> Inr False | _ \<Rightarrow> Inl e)))"

definition resolve_section :: "tajweed \<Rightarrow> string \<Rightarrow> string option \<Rightarrow> string option \<Rightarrow> string option result" where
  "resolve_section s courseId sectionId sessionId =
     rbind (if given sessionId
            then (case find (\<lambda>x. Some (lx_id x) = sessionId \<and> lx_courseId x = courseId) (tj_sessions s) of
                    None \<Rightarrow> Inl (NotFound ''Session not found in this course'')
                  | Some x \<Rightarrow> Inr (if sectionId = None then lx_sectionId x else sectionId))
            else Inr sectionId) (\<lambda>section.
     rbind (guard_or (\<not> given section \<or>
         list_ex (\<lambda>e. Some (se_id e) = section \<and> se_courseId e = courseId) (db_sections (tj_db s)))
       (NotFound ''Lesson not found in this course'')) (\<lambda>_. Inr section))"

text \<open>The marks of a lesson; \<open>None\<close> is the whole course.\<close>

definition lesson_scope ::
  "tajweed \<Rightarrow> string \<Rightarrow> string option \<Rightarrow> string option \<Rightarrow> (annotation_row \<Rightarrow> bool) option result"
where
  "lesson_scope s courseId sectionId sessionId =
     rbind (resolve_section s courseId sectionId sessionId) (\<lambda>section.
       Inr (if \<not> given section \<and> \<not> given sessionId then None
            else Some (\<lambda>r. (given section \<and> mk_sectionId r = section) \<or>
                           (given sessionId \<and> mk_sessionId r = sessionId \<and> mk_sectionId r = None))))"

definition notify_session :: "tajweed \<Rightarrow> string \<Rightarrow> string option \<Rightarrow> annotation_row \<Rightarrow> string option result" where
  "notify_session s courseId sessionId r =
     (if \<not> given sessionId then Inr (mk_sessionId r)
      else rbind (guard_or (list_ex (\<lambda>x. Some (lx_id x) = sessionId \<and> lx_courseId x = courseId) (tj_sessions s))
        (NotFound ''Session not found in this course'')) (\<lambda>_. Inr sessionId))"

section \<open>Listing\<close>

definition newest_first :: "annotation_row list \<Rightarrow> annotation_row list" where
  "newest_first rs = sort_key (\<lambda>r. - mk_createdAt r) rs"

definition lesson_order :: "annotation_row list \<Rightarrow> annotation_row list" where
  "lesson_order rs = sort_key mk_surahNumber (sort_key mk_ayahNumber (sort_key mk_createdAt rs))"

definition corrections_where :: "tajweed \<Rightarrow> string \<Rightarrow> (annotation_row \<Rightarrow> bool) \<Rightarrow> annotation_row list" where
  "corrections_where s courseId who =
     newest_first (filter (\<lambda>r. mk_courseId r = courseId \<and> mk_mode r = STUDENT_CORRECTION \<and> who r) (tj_marks s))"

record mark_query =
  mq_sectionId :: "string option"
  mq_sessionId :: "string option"
  mq_studentId :: "string option"

definition lesson_marks :: "tajweed \<Rightarrow> string \<Rightarrow> (annotation_row \<Rightarrow> bool) option \<Rightarrow> annotation_row list" where
  "lesson_marks s courseId scope =
     lesson_order (filter (\<lambda>r. mk_courseId r = courseId \<and> mk_mode r = LESSON \<and>
       (case scope of None \<Rightarrow> True | Some P \<Rightarrow> P r \<or> mk_kept r)) (tj_marks s))"

text \<open>Whose corrections a listing shows.\<close>

definition whose :: "bool \<Rightarrow> jwt_payload \<Rightarrow> mark_query \<Rightarrow> (annotation_row \<Rightarrow> bool) option" where
  "whose staff user q =
     (if \<not> staff then Some (\<lambda>r. mk_studentId r = Some (jwt_sub user))
      else if given (mq_studentId q) then Some (\<lambda>r. mk_studentId r = mq_studentId q)
      else if given (mq_sessionId q) then Some (\<lambda>r. mk_sessionId r = mq_sessionId q)
      else None)"

definition list_marks ::
  "tajweed \<Rightarrow> jwt_payload \<Rightarrow> string \<Rightarrow> mark_query \<Rightarrow> (public_mark list \<times> public_mark list) result"
where
  "list_marks s user courseId q =
     (let recorder = (jwt_recorder user \<noteq> None) in
      rbind (guard_or (\<not> recorder \<or> map_option rc_sessionId (jwt_recorder user) = mq_sessionId q)
        (Forbidden ''Not the session this token films'')) (\<lambda>_.
      rbind (if recorder then Inr False else can_manage (tj_db s) user courseId) (\<lambda>staff.
      rbind (if \<not> staff \<and> \<not> recorder then assert_mark_enrolled (tj_db s) courseId (jwt_sub user) else Inr ()) (\<lambda>_.
      rbind (lesson_scope s courseId (mq_sectionId q) (mq_sessionId q)) (\<lambda>scope.
      rbind (if \<not> recorder \<and> staff \<and> given (mq_studentId q)
             then assert_mark_enrolled (tj_db s) courseId (the (mq_studentId q)) else Inr ()) (\<lambda>_.
        Inr (map to_public (lesson_marks s courseId scope),
             if recorder then []
             else (case whose staff user q of
                     None \<Rightarrow> []
                   | Some who \<Rightarrow> map to_public (corrections_where s courseId who)))))))))"

text \<open>\<open>tallyByRule\<close>: issues and correct recitations for each rule, in order of appearance.\<close>

definition tally_mark :: "(string, nat \<times> nat) amap \<Rightarrow> string option \<times> mark_outcome option \<Rightarrow> (string, nat \<times> nat) amap" where
  "tally_mark m r =
     (case r of (rule, outcome) \<Rightarrow>
        if \<not> given rule then m
        else
          let k = the rule;
              (issues, correct) = (case map_of m k of None \<Rightarrow> (0, 0) | Some p \<Rightarrow> p)
          in aput k (if outcome = Some TAJWEED_ISSUE then issues + 1 else issues,
                     if outcome = Some CORRECT then correct + 1 else correct) m)"

definition tally_by_rule :: "(string option \<times> mark_outcome option) list \<Rightarrow> (string, nat \<times> nat) amap" where
  "tally_by_rule rs = foldl tally_mark [] rs"

definition rule_outcome :: "annotation_row \<Rightarrow> string option \<times> mark_outcome option" where
  "rule_outcome r = (mk_rule r, mk_outcome r)"

definition student_corrections ::
  "tajweed \<Rightarrow> jwt_payload \<Rightarrow> string \<Rightarrow> string \<Rightarrow> (public_mark list \<times> (string, nat \<times> nat) amap) result"
where
  "student_corrections s user courseId student =
     rbind (can_manage (tj_db s) user courseId) (\<lambda>staff.
     rbind (guard_or (staff \<or> student = jwt_sub user) (Forbidden ''You can only see your own corrections'')) (\<lambda>_.
     rbind (assert_mark_enrolled (tj_db s) courseId student) (\<lambda>_.
       let rs = corrections_where s courseId (\<lambda>r. mk_studentId r = Some student)
       in Inr (map to_public rs, tally_by_rule (map rule_outcome rs)))))"

record mark_progress =
  mp_student :: string
  mp_total :: nat
  mp_lastAt :: "int option"
  mp_byRule :: "(string, nat \<times> nat) amap"
  mp_byOutcome :: "(mark_outcome, nat) amap"

definition tally_outcome :: "(mark_outcome, nat) amap \<Rightarrow> annotation_row \<Rightarrow> (mark_outcome, nat) amap" where
  "tally_outcome m r =
     (case mk_outcome r of None \<Rightarrow> m
      | Some x \<Rightarrow> aput x ((case map_of m x of None \<Rightarrow> 0 | Some n \<Rightarrow> n) + 1) m)"

definition progress_of :: "annotation_row list \<Rightarrow> string \<Rightarrow> mark_progress" where
  "progress_of rows student =
     (let theirs = filter (\<lambda>r. mk_studentId r = Some student) rows
      in \<lparr>mp_student = student, mp_total = length theirs,
          mp_lastAt = (case theirs of [] \<Rightarrow> None | r # _ \<Rightarrow> Some (mk_createdAt r)),
          mp_byRule = tally_by_rule (map rule_outcome theirs), mp_byOutcome = foldl tally_outcome [] theirs\<rparr>)"

text \<open>The query orders the students by name in the database's collation; the model keeps the order
  of the rows.\<close>

definition marks_progress :: "tajweed \<Rightarrow> jwt_payload \<Rightarrow> string \<Rightarrow> mark_progress list result" where
  "marks_progress s user courseId =
     rbind (can_manage (tj_db s) user courseId) (\<lambda>staff.
     rbind (if \<not> staff then assert_mark_enrolled (tj_db s) courseId (jwt_sub user) else Inr ()) (\<lambda>_.
       let mine = (\<lambda>i. staff \<or> i = jwt_sub user);
           rows = corrections_where s courseId (\<lambda>r. staff \<or> mk_studentId r = Some (jwt_sub user))
       in Inr (map (\<lambda>r. progress_of rows (en_studentId r))
            (filter (\<lambda>r. en_courseId r = courseId \<and> mine (en_studentId r)) (db_enrollments (tj_db s))))))"

definition mark_history :: "tajweed \<Rightarrow> jwt_payload \<Rightarrow> string \<Rightarrow> string \<Rightarrow> (mark_revision \<times> string) list result" where
  "mark_history s user courseId i =
     rbind (assert_can_manage_course (tj_db s) user courseId) (\<lambda>_.
       let inCourse = filter (\<lambda>v. mk_courseId (tr_snapshot v) = courseId)
             (sort_key tr_changedAt (filter (\<lambda>v. tr_annotationId v = i) (tj_revisions s)))
       in if inCourse = [] then Inl (NotFound ''Annotation not found in this course'')
          else Inr (map (\<lambda>v. (v, case find_user (tj_db s) (tr_changedById v) of None \<Rightarrow> ''Unknown'' | Some u \<Rightarrow> us_name u)) inCourse))"

section \<open>Content\<close>

record mark_content =
  ct_rule :: "string option"
  ct_customLabel :: "string option"
  ct_style :: mark_style
  ct_color :: "string option"
  ct_note :: "string option"
  ct_outcome :: "mark_outcome option"

definition content_checks :: "string option \<Rightarrow> string option \<Rightarrow> mark_outcome option \<Rightarrow> mark_mode \<Rightarrow> unit result" where
  "content_checks rule customLabel outcome mode =
     rbind (guard_or (rule = None \<or> is_tajweed_rule rule) (BadRequest ''Unknown Tajweed rule'')) (\<lambda>_.
     rbind (if mode = LESSON
            then rbind (guard_or (given rule) (BadRequest ''Choose a Tajweed rule'')) (\<lambda>_.
                 guard_or (outcome = None) (BadRequest ''Only a correction has an outcome''))
            else rbind (guard_or (outcome \<noteq> None) (BadRequest ''Choose what the correction is'')) (\<lambda>_.
                 guard_or (outcome \<noteq> Some TAJWEED_ISSUE \<or> given rule) (BadRequest ''Choose which Tajweed rule needs work''))) (\<lambda>_.
     guard_or (rule \<noteq> Some ''custom'' \<or> customLabel \<noteq> None) (BadRequest ''Give the custom note a label'')))"

definition content_of ::
  "string option \<Rightarrow> string option \<Rightarrow> mark_style \<Rightarrow> string option \<Rightarrow> string option \<Rightarrow> mark_outcome option \<Rightarrow> mark_mode
    \<Rightarrow> mark_content result"
where
  "content_of rule label style color note outcome mode =
     (let customLabel = clean_text label 60 in
      rbind (content_checks rule customLabel outcome mode) (\<lambda>_.
        Inr \<lparr>ct_rule = rule, ct_customLabel = customLabel, ct_style = style, ct_color = color,
             ct_note = clean_text note 1000, ct_outcome = outcome\<rparr>))"

definition check_parts ::
  "quran_text \<Rightarrow> segmenter \<Rightarrow> (part_error \<Rightarrow> string) \<Rightarrow> part_ref list \<Rightarrow> normalized_part list result"
where
  "check_parts txt seg wording parts =
     (case validate_parts txt seg parts of Inl e \<Rightarrow> Inl (BadRequest (wording e)) | Inr ps \<Rightarrow> Inr ps)"

definition mark_revision_of :: "annotation_row \<Rightarrow> mark_change \<Rightarrow> string \<Rightarrow> int \<Rightarrow> mark_revision" where
  "mark_revision_of r change who now =
     \<lparr>tr_annotationId = mk_id r, tr_version = mk_version r, tr_change = change, tr_snapshot = to_public r,
      tr_changedById = who, tr_changedAt = now\<rparr>"

text \<open>A lesson's mark goes to the room, a correction to the staff.\<close>

definition mark_room :: "mark_mode \<Rightarrow> string \<Rightarrow> audience" where
  "mark_room mode sid = (if mode = LESSON then ToAll sid else ToStaff sid)"

definition announce :: "(public_mark \<Rightarrow> mark_event) \<Rightarrow> annotation_row \<Rightarrow> string option \<Rightarrow> tajweed \<Rightarrow> tajweed" where
  "announce ev r sessionId s =
     (if \<not> given sessionId then s
      else s\<lparr>tj_sent := tj_sent s @ [(mark_room (mk_mode r) (the sessionId), ev (to_public r))]\<rparr>)"

section \<open>Creating\<close>

record mark_dto =
  md_id :: string
  md_mode :: mark_mode
  md_sectionId :: "string option"
  md_sessionId :: "string option"
  md_studentId :: "string option"
  md_hifzEntryId :: "string option"
  md_parts :: "part_ref list"
  md_kept :: "bool option"
  md_rule :: "string option"
  md_customLabel :: "string option"
  md_style :: "mark_style option"
  md_color :: "string option"
  md_note :: "string option"
  md_outcome :: "mark_outcome option"

definition replay_create :: "annotation_row \<Rightarrow> jwt_payload \<Rightarrow> string \<Rightarrow> public_mark result" where
  "replay_create r user courseId =
     (if mk_courseId r \<noteq> courseId \<or> mk_createdById r \<noteq> jwt_sub user
      then Inl (Conflict ''An annotation with that id already exists'') else Inr (to_public r))"

definition mode_checks :: "tajweed \<Rightarrow> string \<Rightarrow> mark_dto \<Rightarrow> unit result" where
  "mode_checks s courseId dto =
     (if md_mode dto = LESSON
      then guard_or (\<not> given (md_studentId dto) \<and> \<not> given (md_hifzEntryId dto))
        (BadRequest ''A lesson annotation is not about one student'')
      else rbind (guard_or (given (md_studentId dto)) (BadRequest ''Choose the student this correction is for'')) (\<lambda>_.
           assert_mark_enrolled (tj_db s) courseId (the (md_studentId dto))))"

definition recitation_check :: "tajweed \<Rightarrow> string \<Rightarrow> mark_dto \<Rightarrow> unit result" where
  "recitation_check s courseId dto =
     guard_or (\<not> given (md_hifzEntryId dto) \<or>
         list_ex (\<lambda>h. Some (hz_id h) = md_hifzEntryId dto \<and> hz_courseId h = courseId \<and>
           Some (hz_studentId h) = md_studentId dto) (tj_hifz s))
       (NotFound ''That recitation is not this student's in this course'')"

definition org_of :: "tajweed \<Rightarrow> string \<Rightarrow> string option" where
  "org_of s courseId = Option.bind (find_course (tj_db s) courseId) co_organizationId"

text \<open>The checks of a new mark, in the code's order, and the row they lead to. An empty string where
  an id belongs breaks a foreign key.\<close>

definition create_checks ::
  "quran_text \<Rightarrow> segmenter \<Rightarrow> (part_error \<Rightarrow> string) \<Rightarrow> tajweed \<Rightarrow> jwt_payload \<Rightarrow> string \<Rightarrow> mark_dto \<Rightarrow> int
    \<Rightarrow> annotation_row result"
where
  "create_checks txt seg wording s user courseId dto now =
     rbind (guard_or (given (org_of s courseId)) (Forbidden ''This course does not belong to a workspace'')) (\<lambda>_.
     rbind (check_parts txt seg wording (md_parts dto)) (\<lambda>parts.
     rbind (content_of (md_rule dto) (md_customLabel dto) (case md_style dto of None \<Rightarrow> HIGHLIGHT | Some x \<Rightarrow> x)
       (md_color dto) (md_note dto) (md_outcome dto) (md_mode dto)) (\<lambda>content.
     rbind (mode_checks s courseId dto) (\<lambda>_.
     rbind (resolve_section s courseId (md_sectionId dto) (md_sessionId dto)) (\<lambda>sectionId.
     rbind (recitation_check s courseId dto) (\<lambda>_.
     rbind (guard_or (Some [] \<notin> {sectionId, md_sessionId dto, md_studentId dto, md_hifzEntryId dto})
       (Internal ''Foreign key constraint violated'')) (\<lambda>_.
       Inr \<lparr>mk_id = md_id dto, mk_courseId = courseId, mk_sectionId = sectionId, mk_sessionId = md_sessionId dto,
            mk_mode = md_mode dto, mk_studentId = md_studentId dto, mk_hifzEntryId = md_hifzEntryId dto,
            mk_kept = (md_mode dto = LESSON \<and> md_kept dto = Some True),
            mk_surahNumber = np_surah (hd parts), mk_ayahNumber = np_ayah (hd parts), mk_parts = parts,
            mk_rule = ct_rule content, mk_customLabel = ct_customLabel content, mk_style = ct_style content,
            mk_color = ct_color content, mk_note = ct_note content, mk_outcome = ct_outcome content, mk_version = 1,
            mk_createdById = jwt_sub user, mk_updatedById = jwt_sub user, mk_createdAt = now, mk_updatedAt = now,
            mk_organizationId = the (org_of s courseId)\<rparr>)))))))"

text \<open>The transaction; a row that is already there is the other of two resends racing.\<close>

definition create_write :: "tajweed \<Rightarrow> jwt_payload \<Rightarrow> string \<Rightarrow> annotation_row \<Rightarrow> int \<Rightarrow> tajweed \<times> public_mark result" where
  "create_write s user courseId r now =
     (case find_mark s (mk_id r) of
        Some raced \<Rightarrow> (s, replay_create raced user courseId)
      | None \<Rightarrow>
          (announce MarkCreated r (mk_sessionId r)
             (s\<lparr>tj_marks := tj_marks s @ [r], tj_revisions := tj_revisions s @ [mark_revision_of r CREATED (jwt_sub user) now]\<rparr>),
           Inr (to_public r)))"

definition create_mark ::
  "quran_text \<Rightarrow> segmenter \<Rightarrow> (part_error \<Rightarrow> string) \<Rightarrow> tajweed \<Rightarrow> jwt_payload \<Rightarrow> string \<Rightarrow> mark_dto \<Rightarrow> int
    \<Rightarrow> tajweed \<times> public_mark result"
where
  "create_mark txt seg wording s user courseId dto now =
     (case assert_can_manage_course (tj_db s) user courseId of
        Inl e \<Rightarrow> (s, Inl e)
      | Inr _ \<Rightarrow>
          (case find_mark s (md_id dto) of
             Some existing \<Rightarrow> (s, replay_create existing user courseId)
           | None \<Rightarrow>
               (case create_checks txt seg wording s user courseId dto now of
                  Inl e \<Rightarrow> (s, Inl e)
                | Inr r \<Rightarrow> create_write s user courseId r now)))"

section \<open>Editing\<close>

record mark_edit =
  mt_version :: int
  mt_sessionId :: "string option"
  mt_parts :: "part_ref list option"
  mt_kept :: "bool option"
  mt_rule :: "string option option"
  mt_customLabel :: "string option option"
  mt_style :: "mark_style option"
  mt_color :: "string option option"
  mt_note :: "string option option"
  mt_outcome :: "mark_outcome option option"

definition keep :: "'a option \<Rightarrow> 'a \<Rightarrow> 'a" where
  "keep x stored = (case x of None \<Rightarrow> stored | Some v \<Rightarrow> v)"

definition stale_edit :: http_error where
  "stale_edit = Conflict ''This annotation was changed somewhere else. Reload it and try again.''"

definition edited_content :: "mark_edit \<Rightarrow> annotation_row \<Rightarrow> mark_content result" where
  "edited_content dto r =
     content_of (keep (mt_rule dto) (mk_rule r)) (keep (mt_customLabel dto) (mk_customLabel r)) (keep (mt_style dto) (mk_style r))
       (keep (mt_color dto) (mk_color r)) (keep (mt_note dto) (mk_note r)) (keep (mt_outcome dto) (mk_outcome r)) (mk_mode r)"

definition edit_row ::
  "normalized_part list option \<Rightarrow> mark_content \<Rightarrow> bool \<Rightarrow> string \<Rightarrow> int \<Rightarrow> annotation_row \<Rightarrow> annotation_row"
where
  "edit_row parts content kept who now r =
     (let r' = (case parts of None \<Rightarrow> r
                | Some ps \<Rightarrow> r\<lparr>mk_surahNumber := np_surah (hd ps), mk_ayahNumber := np_ayah (hd ps), mk_parts := ps\<rparr>)
      in r'\<lparr>mk_rule := ct_rule content, mk_customLabel := ct_customLabel content, mk_style := ct_style content,
            mk_color := ct_color content, mk_note := ct_note content, mk_outcome := ct_outcome content,
            mk_kept := kept, mk_version := mk_version r + 1, mk_updatedById := who, mk_updatedAt := now\<rparr>)"

text \<open>What \<open>update\<close> reads and checks before its transaction.\<close>

definition update_read ::
  "quran_text \<Rightarrow> segmenter \<Rightarrow> (part_error \<Rightarrow> string) \<Rightarrow> tajweed \<Rightarrow> jwt_payload \<Rightarrow> string \<Rightarrow> string \<Rightarrow> mark_edit
    \<Rightarrow> (string option \<times> normalized_part list option \<times> mark_content \<times> bool) result"
where
  "update_read txt seg wording s user courseId i dto =
     rbind (assert_can_manage_course (tj_db s) user courseId) (\<lambda>_.
     rbind (course_mark s courseId i) (\<lambda>r.
     rbind (guard_or (mt_version dto = mk_version r) stale_edit) (\<lambda>_.
     rbind (notify_session s courseId (mt_sessionId dto) r) (\<lambda>notify.
     rbind (case mt_parts dto of None \<Rightarrow> Inr None
            | Some ps \<Rightarrow> rbind (check_parts txt seg wording ps) (\<lambda>qs. Inr (Some qs))) (\<lambda>parts.
     rbind (edited_content dto r) (\<lambda>content.
       Inr (notify, parts, content, mk_mode r = LESSON \<and> keep (mt_kept dto) (mk_kept r))))))))"

text \<open>The transaction, conditional on the version: an edit that no longer matches is refused.\<close>

definition change_mark :: "string \<Rightarrow> (annotation_row \<Rightarrow> annotation_row) \<Rightarrow> string \<Rightarrow> int \<Rightarrow> tajweed \<Rightarrow> tajweed" where
  "change_mark i f who now s =
     (let marks = map (\<lambda>r. if mk_id r = i then f r else r) (tj_marks s)
      in s\<lparr>tj_marks := marks,
           tj_revisions := tj_revisions s @
             (case find (\<lambda>r. mk_id r = i) marks of None \<Rightarrow> [] | Some r \<Rightarrow> [mark_revision_of r UPDATED who now])\<rparr>)"

definition update_write ::
  "tajweed \<Rightarrow> jwt_payload \<Rightarrow> string \<Rightarrow> string \<Rightarrow> int \<Rightarrow> string option \<times> normalized_part list option \<times> mark_content \<times> bool \<Rightarrow> int
    \<Rightarrow> tajweed \<times> public_mark result"
where
  "update_write s user courseId i version x now =
     (case x of (notify, parts, content, kept) \<Rightarrow>
        if find (\<lambda>r. mk_id r = i \<and> mk_courseId r = courseId \<and> mk_version r = version) (tj_marks s) = None
        then (s, Inl stale_edit)
        else
          let s1 = change_mark i (edit_row parts content kept (jwt_sub user) now) (jwt_sub user) now s
          in (case find_mark s1 i of
                None \<Rightarrow> (s1, Inl (Internal ''No record was found''))
              | Some r \<Rightarrow> (announce MarkUpdated r notify s1, Inr (to_public r))))"

definition update_mark ::
  "quran_text \<Rightarrow> segmenter \<Rightarrow> (part_error \<Rightarrow> string) \<Rightarrow> tajweed \<Rightarrow> jwt_payload \<Rightarrow> string \<Rightarrow> string \<Rightarrow> mark_edit \<Rightarrow> int
    \<Rightarrow> tajweed \<times> public_mark result"
where
  "update_mark txt seg wording s user courseId i dto now =
     (case update_read txt seg wording s user courseId i dto of
        Inl e \<Rightarrow> (s, Inl e)
      | Inr x \<Rightarrow> update_write s user courseId i (mt_version dto) x now)"

section \<open>Removing\<close>

definition remove_write :: "tajweed \<Rightarrow> jwt_payload \<Rightarrow> annotation_row \<Rightarrow> int \<Rightarrow> tajweed option" where
  "remove_write s user r now =
     (if find_mark s (mk_id r) = None then None
      else Some (s\<lparr>tj_marks := filter (\<lambda>x. mk_id x \<noteq> mk_id r) (tj_marks s),
             tj_revisions := tj_revisions s @ [mark_revision_of r DELETED (jwt_sub user) now]\<rparr>))"

definition remove_mark ::
  "tajweed \<Rightarrow> jwt_payload \<Rightarrow> string \<Rightarrow> string \<Rightarrow> string option \<Rightarrow> int \<Rightarrow> tajweed \<times> unit result"
where
  "remove_mark s user courseId i sessionId now =
     (case rbind (assert_can_manage_course (tj_db s) user courseId) (\<lambda>_.
            rbind (course_mark s courseId i) (\<lambda>r.
            rbind (notify_session s courseId sessionId r) (\<lambda>notify. Inr (r, notify)))) of
        Inl e \<Rightarrow> (s, Inl e)
      | Inr (r, notify) \<Rightarrow>
          (case remove_write s user r now of
             None \<Rightarrow> (s, Inl (Internal ''Record to delete does not exist''))
           | Some s1 \<Rightarrow>
               (if given notify
                then s1\<lparr>tj_sent := tj_sent s1 @ [(mark_room (mk_mode r) (the notify), MarkDeleted i (mk_mode r))]\<rparr>
                else s1, Inr ())))"

section \<open>Linking to a recitation\<close>

record recitation =
  rn_id :: string
  rn_courseId :: string
  rn_studentId :: string
  rn_sessionId :: "string option"
  rn_recordedById :: string

definition unlinked :: "recitation \<Rightarrow> annotation_row \<Rightarrow> bool" where
  "unlinked e r \<longleftrightarrow>
     mk_courseId r = rn_courseId e \<and> mk_studentId r = Some (rn_studentId e) \<and> mk_sessionId r = rn_sessionId e \<and>
     mk_mode r = STUDENT_CORRECTION \<and> mk_hifzEntryId r = None"

definition link_row :: "recitation \<Rightarrow> int \<Rightarrow> annotation_row \<Rightarrow> annotation_row" where
  "link_row e now r =
     r\<lparr>mk_hifzEntryId := Some (rn_id e), mk_version := mk_version r + 1, mk_updatedById := rn_recordedById e, mk_updatedAt := now\<rparr>"

text \<open>One round of the loop, on a row's id and the version it was read at.\<close>

definition link_one :: "recitation \<Rightarrow> int \<Rightarrow> tajweed \<times> nat \<Rightarrow> string \<times> int \<Rightarrow> tajweed \<times> nat" where
  "link_one e now x r =
     (case (x, r) of ((s, n), (i, version)) \<Rightarrow>
        if find (\<lambda>r. mk_id r = i \<and> mk_version r = version \<and> mk_hifzEntryId r = None) (tj_marks s) = None then (s, n)
        else (change_mark i (link_row e now) (rn_recordedById e) now s, n + 1))"

definition link_corrections :: "tajweed \<Rightarrow> recitation \<Rightarrow> int \<Rightarrow> tajweed \<times> nat" where
  "link_corrections s e now =
     (if \<not> given (rn_sessionId e) then (s, 0)
      else foldl (link_one e now) (s, 0) (map (\<lambda>r. (mk_id r, mk_version r)) (filter (unlinked e) (tj_marks s))))"

end
