(* ===== verification/TajweedRuns.thy ===== *)
theory TajweedRuns
  imports TajweedMarks
begin

text \<open>
  Runs of the saved marks: the change history replays to the table, a student's feedback reaches that
  student and the staff alone, and of two edits of one version only the first lands.
\<close>

section \<open>Replaying the history\<close>

text \<open>What the revisions say is there: the last snapshot of an id, unless it was deleted.\<close>

definition replay_one :: "(string \<rightharpoonup> public_mark) \<Rightarrow> mark_revision \<Rightarrow> string \<rightharpoonup> public_mark" where
  "replay_one m v =
     (case tr_change v of DELETED \<Rightarrow> m(tr_annotationId v := None)
      | _ \<Rightarrow> m(tr_annotationId v \<mapsto> tr_snapshot v))"

definition replay :: "mark_revision list \<Rightarrow> string \<rightharpoonup> public_mark" where
  "replay vs = foldl replay_one Map.empty vs"

definition marks_map :: "tajweed \<Rightarrow> string \<rightharpoonup> public_mark" where
  "marks_map s i = map_option to_public (find_mark s i)"

lemma to_public_sel [simp]:
  "mk_id (to_public r) = mk_id r" "mk_mode (to_public r) = mk_mode r" "mk_version (to_public r) = mk_version r"
  "mk_courseId (to_public r) = mk_courseId r" "mk_studentId (to_public r) = mk_studentId r"
  by (simp_all add: to_public_def public_mark.truncate_def)

lemma revision_sel [simp]:
  "tr_annotationId (mark_revision_of r c w n) = mk_id r" "tr_change (mark_revision_of r c w n) = c"
  "tr_snapshot (mark_revision_of r c w n) = to_public r" "tr_version (mark_revision_of r c w n) = mk_version r"
  by (simp_all add: mark_revision_of_def)

lemma replay_snoc: "replay (vs @ [v]) = replay_one (replay vs) v"
  by (simp add: replay_def)

text \<open>Corrections are announced to the staff, and a mark is lesson material or about a student.\<close>

fun event_mode :: "mark_event \<Rightarrow> mark_mode" where
  "event_mode (MarkCreated p) = mk_mode p"
| "event_mode (MarkUpdated p) = mk_mode p"
| "event_mode (MarkDeleted i m) = m"

definition sent_right :: "audience \<times> mark_event \<Rightarrow> bool" where
  "sent_right x \<longleftrightarrow> (case fst x of ToAll _ \<Rightarrow> event_mode (snd x) = LESSON | ToStaff _ \<Rightarrow> event_mode (snd x) = STUDENT_CORRECTION)"

definition mark_shape :: "annotation_row \<Rightarrow> bool" where
  "mark_shape r \<longleftrightarrow> (mk_mode r = LESSON \<longleftrightarrow> mk_studentId r = None) \<and> (mk_kept r \<longrightarrow> mk_mode r = LESSON) \<and> 1 \<le> mk_version r"

definition tajweed_ok :: "tajweed \<Rightarrow> bool" where
  "tajweed_ok s \<longleftrightarrow>
     distinct (map mk_id (tj_marks s)) \<and> (\<forall>r \<in> set (tj_marks s). mark_shape r) \<and>
     replay (tj_revisions s) = marks_map s \<and> (\<forall>v \<in> set (tj_revisions s). tr_version v = mk_version (tr_snapshot v) \<and>
       tr_annotationId v = mk_id (tr_snapshot v)) \<and>
     (\<forall>x \<in> set (tj_sent s). sent_right x)"

lemma find_markD: "find_mark s i = Some r \<Longrightarrow> r \<in> set (tj_marks s) \<and> mk_id r = i"
  by (auto simp: find_mark_def find_Some_iff)

lemma course_markD:
  "course_mark s c i = Inr r \<Longrightarrow> r \<in> set (tj_marks s) \<and> mk_id r = i \<and> mk_courseId r = c"
  by (auto simp: course_mark_def res find_Some_iff)

lemma mark_same_id:
  assumes "tajweed_ok s" "r \<in> set (tj_marks s)"
  shows "find_mark s (mk_id r) = Some r"
  using assms by (simp add: find_mark_def tajweed_ok_def find_by_key)

section \<open>Steps\<close>

lemma sent_room: "sent_right (mark_room m sid, ev) \<longleftrightarrow> event_mode ev = m"
  by (cases m) (auto simp: sent_right_def mark_room_def)

lemma announce_same [simp]:
  "tj_marks (announce ev r sid s) = tj_marks s" "tj_revisions (announce ev r sid s) = tj_revisions s"
  "tj_db (announce ev r sid s) = tj_db s" "find_mark (announce ev r sid s) = find_mark s" "marks_map (announce ev r sid s) = marks_map s"
  by (simp_all add: announce_def find_mark_def marks_map_def fun_eq_iff)

lemma ok_announce:
  assumes "tajweed_ok s" "\<And>p. event_mode (ev p) = mk_mode p"
  shows "tajweed_ok (announce ev r sid s)"
proof -
  have "\<forall>x \<in> set (tj_sent (announce ev r sid s)). sent_right x"
    using assms by (auto simp: announce_def tajweed_ok_def sent_room)
  then show ?thesis using assms(1) by (simp add: tajweed_ok_def)
qed

lemma sent_to_staff: "sent_right x \<Longrightarrow> event_mode (snd x) = STUDENT_CORRECTION \<Longrightarrow> \<exists>sid. fst x = ToStaff sid"
  by (cases "fst x") (simp_all add: sent_right_def)

lemma ok_new_mark:
  assumes ok: "tajweed_ok s" and new: "find_mark s (mk_id r) = None" and shape: "mark_shape r"
  shows "tajweed_ok (s\<lparr>tj_marks := tj_marks s @ [r], tj_revisions := tj_revisions s @ [mark_revision_of r CREATED w n]\<rparr>)"
    (is "tajweed_ok ?t")
proof -
  have "mk_id r \<notin> mk_id ` set (tj_marks s)" using new by (auto simp: find_mark_def find_None_iff)
  moreover have "marks_map ?t = (marks_map s)(mk_id r \<mapsto> to_public r)"
    using new by (auto simp: fun_eq_iff marks_map_def find_mark_def find_append split: option.split)
  ultimately show ?thesis using ok shape by (simp add: tajweed_ok_def replay_snoc replay_one_def)
qed

lemma find_mapped:
  assumes "\<And>r. mk_id (f r) = mk_id r"
  shows "find (\<lambda>r. mk_id r = j) (map (\<lambda>r. if mk_id r = i then f r else r) xs) =
    (if j = i then map_option f (find (\<lambda>r. mk_id r = i) xs) else find (\<lambda>r. mk_id r = j) xs)"
  by (induction xs) (auto simp: assms)

lemma ok_change:
  assumes ok: "tajweed_ok s" and f: "\<And>r. mk_id (f r) = mk_id r" "\<And>r. mark_shape r \<Longrightarrow> mk_id r = i \<Longrightarrow> r \<in> set (tj_marks s) \<Longrightarrow> mark_shape (f r)"
  shows "tajweed_ok (change_mark i f w n s)"
proof (cases "find_mark s i")
  case None
  then have "i \<notin> mk_id ` set (tj_marks s)" by (auto simp: find_mark_def find_None_iff)
  then have "map (\<lambda>r. if mk_id r = i then f r else r) (tj_marks s) = tj_marks s" by (intro map_idI) auto
  then show ?thesis using ok None by (simp add: change_mark_def Let_def find_mark_def)
next
  case (Some r)
  let ?t = "change_mark i f w n s"
  have marks: "tj_marks ?t = map (\<lambda>r. if mk_id r = i then f r else r) (tj_marks s)" by (simp add: change_mark_def Let_def)
  have i: "mk_id r = i" using find_markD [OF Some] by simp
  have revs: "tj_revisions ?t = tj_revisions s @ [mark_revision_of (f r) UPDATED w n]"
    using Some i by (simp add: change_mark_def Let_def find_mark_def find_mapped f)
  have "marks_map ?t = (marks_map s)(i \<mapsto> to_public (f r))"
    unfolding fun_eq_iff marks_map_def find_mark_def marks find_mapped [OF f(1)] using Some
    by (simp add: find_mark_def)
  moreover have "distinct (map mk_id (tj_marks ?t))"
  proof -
    have "map mk_id (tj_marks ?t) = map mk_id (tj_marks s)" unfolding marks by (simp add: f)
    then show ?thesis using ok by (simp add: tajweed_ok_def)
  qed
  moreover have "\<forall>r \<in> set (tj_marks ?t). mark_shape r" unfolding marks using ok f(2) by (auto simp: tajweed_ok_def)
  moreover have "tj_sent ?t = tj_sent s" by (simp add: change_mark_def Let_def)
  ultimately show ?thesis using ok i by (simp add: tajweed_ok_def revs replay_snoc replay_one_def f)
qed

lemma ok_removed:
  assumes ok: "tajweed_ok s" and r: "remove_write s user r n = Some t"
  shows "tajweed_ok t"
proof -
  have t: "t = s\<lparr>tj_marks := filter (\<lambda>x. mk_id x \<noteq> mk_id r) (tj_marks s),
      tj_revisions := tj_revisions s @ [mark_revision_of r DELETED (jwt_sub user) n]\<rparr>"
    using r by (simp add: remove_write_def split: if_splits)
  have "find (\<lambda>x. mk_id x = j) (filter (\<lambda>x. mk_id x \<noteq> i) xs) = (if j = i then None else find (\<lambda>x. mk_id x = j) xs)"
    for j i and xs :: "annotation_row list" by (induction xs) auto
  then have "marks_map t = (marks_map s)(mk_id r := None)"
    by (auto simp: fun_eq_iff marks_map_def find_mark_def t)
  then show ?thesis using ok by (simp add: tajweed_ok_def t replay_snoc replay_one_def distinct_map_filter)
qed

section \<open>Operations\<close>

lemma create_checksD:
  assumes "create_checks txt seg wording s user c dto n = Inr r"
  shows "mode_checks s c dto = Inr ()" "mk_id r = md_id dto" "mk_mode r = md_mode dto" "mk_studentId r = md_studentId dto"
    "mk_kept r \<longrightarrow> md_mode dto = LESSON" "mk_version r = 1" "md_studentId dto \<noteq> Some []" "mk_createdById r = jwt_sub user"
proof -
  have "mode_checks s c dto = Inr () \<and> mk_id r = md_id dto \<and> mk_mode r = md_mode dto \<and> mk_studentId r = md_studentId dto \<and>
      (mk_kept r \<longrightarrow> md_mode dto = LESSON) \<and> mk_version r = 1 \<and> md_studentId dto \<noteq> Some [] \<and> mk_createdById r = jwt_sub user"
    using assms unfolding create_checks_def rbind_Inr_iff guard_or_Inr_iff by (elim exE conjE) force
  then show "mode_checks s c dto = Inr ()" "mk_id r = md_id dto" "mk_mode r = md_mode dto" "mk_studentId r = md_studentId dto"
    "mk_kept r \<longrightarrow> md_mode dto = LESSON" "mk_version r = 1" "md_studentId dto \<noteq> Some []" "mk_createdById r = jwt_sub user"
    by simp_all
qed

lemma created_shape: "create_checks txt seg wording s user c dto n = Inr r \<Longrightarrow> mark_shape r \<and> mk_id r = md_id dto"
  using create_checksD [of _ _ _ s user c dto n r]
  by (cases "md_mode dto") (auto simp: mark_shape_def mode_checks_def given_def res)

lemma ok_create_mark:
  assumes ok: "tajweed_ok s"
  shows "tajweed_ok (fst (create_mark txt seg wording s user c dto n))"
proof (cases "find_mark s (md_id dto) = None \<and> (\<exists>r. create_checks txt seg wording s user c dto n = Inr r)")
  case True
  then obtain r where r: "create_checks txt seg wording s user c dto n = Inr r" by blast
  have new: "find_mark s (mk_id r) = None" and shape: "mark_shape r" using True created_shape [OF r] by simp_all
  have "tajweed_ok (fst (create_write s user c r n))"
    using ok_announce [OF ok_new_mark [OF ok new shape]] new by (simp add: create_write_def)
  then show ?thesis using ok True r by (simp add: create_mark_def split: sum.split)
next
  case False
  then show ?thesis using ok by (auto simp: create_mark_def split: sum.split option.split)
qed

lemma edit_row_keys [simp]: "mk_id (edit_row ps ct kept w n r) = mk_id r" "mk_mode (edit_row ps ct kept w n r) = mk_mode r"
    "mk_studentId (edit_row ps ct kept w n r) = mk_studentId r" "mk_version (edit_row ps ct kept w n r) = mk_version r + 1"
    "mk_kept (edit_row ps ct kept w n r) = kept"
  by (simp_all add: edit_row_def Let_def split: option.split)

lemma update_readD:
  assumes "update_read txt seg wording s user c i dto = Inr (notify, ps, ct, kept)"
  obtains r where "course_mark s c i = Inr r" "mt_version dto = mk_version r" "kept \<longrightarrow> mk_mode r = LESSON"
    "assert_can_manage_course (tj_db s) user c = Inr ()"
  using assms by (auto simp: update_read_def res)

lemma ok_update_mark:
  assumes ok: "tajweed_ok s"
  shows "tajweed_ok (fst (update_mark txt seg wording s user c i dto n))"
proof (cases "update_read txt seg wording s user c i dto")
  case (Inl e)
  then show ?thesis using ok by (simp add: update_mark_def)
next
  case (Inr x)
  obtain notify ps ct kept where x: "x = (notify, ps, ct, kept)" by (cases x)
  obtain r where r: "course_mark s c i = Inr r" "kept \<longrightarrow> mk_mode r = LESSON" using update_readD [OF Inr [unfolded x]] by metis
  note row = course_markD [OF r(1)]
  let ?t = "change_mark i (edit_row ps ct kept (jwt_sub user) n) (jwt_sub user) n s"
  have "mark_shape (edit_row ps ct kept (jwt_sub user) n r')" if "mark_shape r'" "mk_id r' = i" "r' \<in> set (tj_marks s)" for r'
  proof -
    have "find_mark s i = Some r" using mark_same_id [OF ok, of r] row by simp
    then have "r' = r" using mark_same_id [OF ok that(3)] that(2) by simp
    then show ?thesis using that(1) r(2) by (simp add: mark_shape_def)
  qed
  then have "tajweed_ok ?t" by (intro ok_change [OF ok]) simp_all
  then show ?thesis using ok ok_announce [of ?t MarkUpdated]
    by (simp add: update_mark_def Inr x update_write_def Let_def split: option.split)
qed

lemma ok_remove_mark:
  assumes ok: "tajweed_ok s"
  shows "tajweed_ok (fst (remove_mark s user c i sid n))"
proof -
  have "tajweed_ok (t\<lparr>tj_sent := tj_sent t @ [(mark_room (mk_mode r) sid', MarkDeleted i (mk_mode r))]\<rparr>)"
    if "remove_write s user r n = Some t" for t r sid'
    using ok_removed [OF ok that] by (simp add: tajweed_ok_def sent_room marks_map_def find_mark_def fun_eq_iff)
  then show ?thesis using ok ok_removed [OF ok]
    by (auto simp: remove_mark_def split: sum.split option.split prod.split)
qed

lemma ok_link_one:
  assumes "tajweed_ok (fst x)"
  shows "tajweed_ok (fst (link_one e n x r))"
proof -
  obtain s k i v where x: "x = (s, k)" "r = (i, v)" by (cases x; cases r)
  have "tajweed_ok (change_mark i (link_row e n) (rn_recordedById e) n s)"
    using assms by (intro ok_change) (simp_all add: x link_row_def mark_shape_def)
  then show ?thesis using assms by (simp add: x link_one_def)
qed

lemma ok_link: "tajweed_ok s \<Longrightarrow> tajweed_ok (fst (link_corrections s e n))"
proof -
  assume ok: "tajweed_ok s"
  have "tajweed_ok (fst (foldl (link_one e n) x rs))" if "tajweed_ok (fst x)" for x rs
    using that by (induction rs arbitrary: x) (simp_all add: ok_link_one)
  then show ?thesis using ok by (simp add: link_corrections_def)
qed

section \<open>Runs\<close>

text \<open>Courses, sessions, enrolments and recitations change beside them; a recitation that is deleted, whose
  marks the database unlinks, is no step here (see \<open>Hifz\<close>).\<close>

datatype mark_op =
    CreateMark jwt_payload string mark_dto int
  | UpdateMark jwt_payload string string mark_edit int
  | RemoveMark jwt_payload string string "string option" int
  | LinkMarks recitation int
  | SchoolChanges db "lesson_session list" "hifz_entry list"

fun mark_step :: "quran_text \<Rightarrow> segmenter \<Rightarrow> (part_error \<Rightarrow> string) \<Rightarrow> tajweed \<Rightarrow> mark_op \<Rightarrow> tajweed" where
  "mark_step txt seg wording s (CreateMark user c dto n) = fst (create_mark txt seg wording s user c dto n)"
| "mark_step txt seg wording s (UpdateMark user c i dto n) = fst (update_mark txt seg wording s user c i dto n)"
| "mark_step txt seg wording s (RemoveMark user c i sid n) = fst (remove_mark s user c i sid n)"
| "mark_step txt seg wording s (LinkMarks e n) = fst (link_corrections s e n)"
| "mark_step txt seg wording s (SchoolChanges d ls hs) = s\<lparr>tj_db := d, tj_sessions := ls, tj_hifz := hs\<rparr>"

lemma ok_school: "tajweed_ok s \<Longrightarrow> tajweed_ok (s\<lparr>tj_db := d, tj_sessions := ls, tj_hifz := hs\<rparr>)"
  by (simp add: tajweed_ok_def marks_map_def find_mark_def fun_eq_iff)

interpretation mark_run: invariant_system "mark_step q seg wording" tajweed_ok for q seg wording
proof unfold_locales
  fix s op
  assume "tajweed_ok s"
  then show "tajweed_ok (mark_step q seg wording s op)"
    by (cases op) (simp_all add: ok_create_mark ok_update_mark ok_remove_mark ok_link ok_school)
qed

definition no_marks :: "tajweed \<Rightarrow> bool" where
  "no_marks s \<longleftrightarrow> tj_marks s = [] \<and> tj_revisions s = [] \<and> tj_sent s = []"

lemma mark_runs_ok: "no_marks s \<Longrightarrow> tajweed_ok (foldl (mark_step txt seg wording) s ops)"
  by (rule mark_run.inv_run) (simp add: no_marks_def tajweed_ok_def replay_def marks_map_def find_mark_def fun_eq_iff)

section \<open>What a student is shown\<close>

text \<open>The tables without what is about other students.\<close>

definition only_about :: "string \<Rightarrow> tajweed \<Rightarrow> tajweed" where
  "only_about i s = s\<lparr>tj_marks := filter (\<lambda>r. mk_mode r = LESSON \<or> mk_studentId r = Some i) (tj_marks s)\<rparr>"

lemma only_about_same [simp]:
  "tj_db (only_about i s) = tj_db s" "lesson_scope (only_about i s) = lesson_scope s" "lesson_marks (only_about i s) = lesson_marks s"
  by (auto simp: only_about_def lesson_scope_def resolve_section_def lesson_marks_def fun_eq_iff split: option.split
      intro!: arg_cong [where f = lesson_order] filter_cong)

lemma only_about_corrections:
  "(\<And>r. P r \<Longrightarrow> mk_studentId r = Some i) \<Longrightarrow> corrections_where (only_about i s) c P = corrections_where s c P"
  by (auto simp: only_about_def corrections_where_def intro!: arg_cong [where f = newest_first] filter_cong)

lemma student_not_staff: "jwt_role user = STUDENT \<Longrightarrow> can_manage d user c = Inr False"
  by (simp add: can_manage_def)

section \<open>Tallies\<close>

definition issue_count :: "(string option \<times> mark_outcome option) list \<Rightarrow> string \<Rightarrow> mark_outcome \<Rightarrow> nat" where
  "issue_count rs k x = length (filter (\<lambda>r. r = (Some k, Some x)) rs)"

lemma tally_snoc: "tally_by_rule (rs @ [r]) = tally_mark (tally_by_rule rs) r"
  by (simp add: tally_by_rule_def)

lemma tally_counts:
  "map_of (tally_by_rule rs) k =
     (if k \<noteq> [] \<and> Some k \<in> fst ` set rs then Some (issue_count rs k TAJWEED_ISSUE, issue_count rs k CORRECT) else None)"
proof (induction rs rule: rev_induct)
  case (snoc r rs)
  have none: "issue_count rs k x = 0" if "Some k \<notin> fst ` set rs" for x
    using that by (force simp: issue_count_def filter_empty_conv)
  obtain rule outcome where r: "r = (rule, outcome)" by (cases r)
  show ?case
  proof (cases "rule = Some k \<and> k \<noteq> []")
    case True
    then show ?thesis using snoc none
      by (auto simp: tally_snoc tally_mark_def r given_def issue_count_def aput_lookup Let_def split: option.split)
  next
    case False
    then show ?thesis using snoc
      by (cases rule) (auto simp: tally_snoc tally_mark_def r given_def issue_count_def aput_lookup Let_def case_prod_beta)
  qed
qed (simp add: tally_by_rule_def)

section \<open>Linking\<close>

lemma link_row_id [simp]: "mk_id (link_row e n r) = mk_id r"
  by (simp add: link_row_def)

lemma link_one_fresh:
  assumes "distinct (map mk_id (tj_marks s))" "r \<in> set (tj_marks s)" "mk_hifzEntryId r = None"
  shows "link_one e n (s, k) (mk_id r, mk_version r) = (change_mark (mk_id r) (link_row e n) (rn_recordedById e) n s, k + 1)"
  using assms(2,3) by (auto simp: link_one_def find_None_iff)

lemma change_marks: "tj_marks (change_mark i f w n s) = map (\<lambda>r. if mk_id r = i then f r else r) (tj_marks s)"
  by (simp add: change_mark_def Let_def)

lemma link_loop:
  assumes "distinct (map mk_id (tj_marks s))" "distinct xs" "set xs \<subseteq> set (tj_marks s)" "\<forall>r \<in> set xs. mk_hifzEntryId r = None"
  shows "let y = foldl (link_one e n) (s, 0) (map (\<lambda>r. (mk_id r, mk_version r)) xs) in
    snd y = length xs \<and> tj_marks (fst y) = map (\<lambda>r. if r \<in> set xs then link_row e n r else r) (tj_marks s)"
  using assms(2-4)
proof (induction xs rule: rev_induct)
  case (snoc r xs)
  obtain u k where u: "foldl (link_one e n) (s, 0) (map (\<lambda>r. (mk_id r, mk_version r)) xs) = (u, k)" by fastforce
  have IH: "k = length xs" "tj_marks u = map (\<lambda>r. if r \<in> set xs then link_row e n r else r) (tj_marks s)"
    using snoc u by (simp_all add: Let_def)
  have "map mk_id (tj_marks u) = map mk_id (tj_marks s)" unfolding IH(2) by simp
  then have d: "distinct (map mk_id (tj_marks u))" using assms(1) by simp
  have "r \<in> set (tj_marks u)" unfolding IH(2) set_map using snoc.prems by (intro image_eqI [of _ _ r]) auto
  then have "link_one e n (u, k) (mk_id r, mk_version r) = (change_mark (mk_id r) (link_row e n) (rn_recordedById e) n u, k + 1)"
    using snoc.prems by (intro link_one_fresh d) simp_all
  moreover have "mk_id x = mk_id r \<longleftrightarrow> x = r" if "x \<in> set (tj_marks s)" for x
    using assms(1) snoc.prems that by (auto simp: distinct_map dest: inj_onD)
  ultimately show ?case using snoc.prems IH
    by (auto simp: u change_marks Let_def)
qed simp

section \<open>An edit that has landed\<close>

lemma edited_mark:
  assumes ok: "tajweed_ok s" and i: "find_mark s i = Some r"
  shows "find_mark (change_mark i (edit_row ps ct kept w n) w' n' s) i = Some (edit_row ps ct kept w n r)"
    and "\<And>y. y \<in> set (tj_marks (change_mark i (edit_row ps ct kept w n) w' n' s)) \<Longrightarrow> mk_id y = i \<Longrightarrow> mk_version y = mk_version r + 1"
proof -
  show "find_mark (change_mark i (edit_row ps ct kept w n) w' n' s) i = Some (edit_row ps ct kept w n r)"
    using i by (simp add: find_mark_def change_marks find_mapped)
  fix y
  assume y: "y \<in> set (tj_marks (change_mark i (edit_row ps ct kept w n) w' n' s))" "mk_id y = i"
  then obtain z where z: "z \<in> set (tj_marks s)" "y = (if mk_id z = i then edit_row ps ct kept w n z else z)"
    unfolding change_marks set_map by blast
  then have "mk_id z = i" using y(2) by (simp split: if_splits)
  then have "z = r" using mark_same_id [OF ok z(1)] i by simp
  then show "mk_version y = mk_version r + 1" using z(2) \<open>mk_id z = i\<close> by simp
qed

section \<open>Properties\<close>

text \<open>A one-letter text, a course with a lesson, a session of it and two students.\<close>

definition one_letter :: quran_text where
  "one_letter = (\<lambda>_. Some [[65]])"

definition letters :: segmenter where
  "letters = map (\<lambda>c. [c])"

definition no_wording :: "part_error \<Rightarrow> string" where
  "no_wording _ = []"

definition mark_teacher :: jwt_payload where
  "mark_teacher = \<lparr>jwt_sub = ''t'', jwt_role = INSTRUCTOR, jwt_name = [], jwt_email = [], jwt_organizationId = Some ''o'',
     jwt_emailVerified = True, jwt_isSuperAdmin = False, jwt_recorder = None, jwt_preview = None\<rparr>"

definition mark_pupil :: jwt_payload where
  "mark_pupil = mark_teacher\<lparr>jwt_sub := ''p'', jwt_role := STUDENT\<rparr>"

definition mark_school :: tajweed where
  "mark_school = \<lparr>tj_db = empty_db\<lparr>db_courses := [\<lparr>co_id = ''c'', co_instructorId = Some ''t'', co_organizationId = Some ''o'',
       co_pluginKeys = None\<rparr>], db_sections := [\<lparr>se_id = ''e'', se_courseId = ''c''\<rparr>],
       db_enrollments := [\<lparr>en_courseId = ''c'', en_studentId = ''p''\<rparr>, \<lparr>en_courseId = ''c'', en_studentId = ''q''\<rparr>]\<rparr>,
     tj_sessions = [\<lparr>lx_id = ''l'', lx_courseId = ''c'', lx_sectionId = Some ''e''\<rparr>], tj_hifz = [], tj_marks = [],
     tj_revisions = [], tj_sent = []\<rparr>"

lemma mark_school_new: "no_marks mark_school"
  by (simp add: no_marks_def mark_school_def)

definition first_letter :: part_ref where
  "first_letter = \<lparr>pr_surah = WNum 1, pr_ayah = WNum 1, pr_word = Some (WNum 0), pr_letter = Some (WNum 0)\<rparr>"

definition issue_for :: "string \<Rightarrow> string \<Rightarrow> mark_dto" where
  "issue_for i student = \<lparr>md_id = i, md_mode = STUDENT_CORRECTION, md_sectionId = None, md_sessionId = Some ''l'',
     md_studentId = Some student, md_hifzEntryId = None, md_parts = [first_letter], md_kept = None, md_rule = Some ''madd'',
     md_customLabel = None, md_style = None, md_color = None, md_note = None, md_outcome = Some TAJWEED_ISSUE\<rparr>"

definition recolour :: "int \<Rightarrow> string \<Rightarrow> mark_edit" where
  "recolour v c = \<lparr>mt_version = v, mt_sessionId = None, mt_parts = None, mt_kept = None, mt_rule = None, mt_customLabel = None,
     mt_style = None, mt_color = Some (Some c), mt_note = None, mt_outcome = None\<rparr>"

definition marked_class :: "mark_op list" where
  "marked_class = [CreateMark mark_teacher ''c'' (issue_for ''mark-of-p'' ''p'') 1,
     CreateMark mark_teacher ''c'' (issue_for ''mark-of-q'' ''q'') 2,
     UpdateMark mark_teacher ''c'' ''mark-of-p'' (recolour 1 ''#ff0000'') 3, RemoveMark mark_teacher ''c'' ''mark-of-q'' None 4]"

text \<open>C23: The history is complete: after any run of the service's own operations on new tables (the hifz
  service's deletion of a recitation is not one of them), replaying the revisions, creations and
  edits by their snapshots and deletions by forgetting, gives exactly the marks that are stored, each
  with the version its last revision has.\<close>

theorem history_replays_to_the_marks:
  assumes "no_marks s0" and "s = foldl (mark_step txt seg wording) s0 ops"
  shows "replay (tj_revisions s) = marks_map s \<and>
    (\<forall>v \<in> set (tj_revisions s). tr_version v = mk_version (tr_snapshot v) \<and> tr_annotationId v = mk_id (tr_snapshot v))"
  using mark_runs_ok [OF assms(1)] assms(2) by (simp add: tajweed_ok_def)

lemma history_replays_to_the_marks_witness:
  "let s = foldl (mark_step one_letter letters no_wording) mark_school marked_class in
   map (\<lambda>v. (tr_annotationId v, tr_version v)) (tj_revisions s) =
     [(''mark-of-p'', 1), (''mark-of-q'', 1), (''mark-of-p'', 2), (''mark-of-q'', 1)] \<and>
   map_option mk_color (replay (tj_revisions s) ''mark-of-p'') = Some (Some ''#ff0000'') \<and> replay (tj_revisions s) ''mark-of-q'' = None"
proof -
  let ?s = "foldl (mark_step one_letter letters no_wording) mark_school marked_class"
  have "map (\<lambda>v. (tr_annotationId v, tr_version v)) (tj_revisions ?s) =
      [(''mark-of-p'', 1), (''mark-of-q'', 1), (''mark-of-p'', 2), (''mark-of-q'', 1)]"
    and "map_option mk_color (find_mark ?s ''mark-of-p'') = Some (Some ''#ff0000'')"
    and "map_option mk_color (find_mark ?s ''mark-of-q'') = None" by code_simp+
  moreover have "replay (tj_revisions ?s) = marks_map ?s"
    using history_replays_to_the_marks [of mark_school ?s one_letter letters no_wording marked_class]
    by (simp add: no_marks_def mark_school_def)
  ultimately show ?thesis
    by (auto simp: marks_map_def to_public_def public_mark.truncate_def)
qed

text \<open>C24: A student's feedback is the student's and the staff's: what a student is shown (lists,
  corrections, progress) does not depend on the corrections of other students, and over any run an
  event about a correction goes to the staff room only.\<close>

theorem corrections_stay_private:
  assumes "no_marks s0" and "s = foldl (mark_step txt seg wording) s0 ops" and "jwt_role user = STUDENT"
  shows "list_marks (only_about (jwt_sub user) s) user c q = list_marks s user c q \<and>
    student_corrections (only_about (jwt_sub user) s) user c st = student_corrections s user c st \<and>
    marks_progress (only_about (jwt_sub user) s) user c = marks_progress s user c \<and>
    (\<forall>x \<in> set (tj_sent s). event_mode (snd x) = STUDENT_CORRECTION \<longrightarrow> (\<exists>sid. fst x = ToStaff sid))"
proof -
  have "\<forall>x \<in> set (tj_sent s). sent_right x" using mark_runs_ok [OF assms(1)] assms(2) by (simp add: tajweed_ok_def)
  then have "\<forall>x \<in> set (tj_sent s). event_mode (snd x) = STUDENT_CORRECTION \<longrightarrow> (\<exists>sid. fst x = ToStaff sid)"
    by (metis sent_to_staff)
  moreover have "list_marks (only_about (jwt_sub user) s) user c q = list_marks s user c q"
    by (simp add: list_marks_def student_not_staff [OF assms(3)] whose_def only_about_corrections Let_def)
  moreover have "student_corrections (only_about (jwt_sub user) s) user c st = student_corrections s user c st"
  proof (cases "st = jwt_sub user")
    case True
    then show ?thesis
      by (simp add: student_corrections_def student_not_staff [OF assms(3)] only_about_corrections)
  qed (simp add: student_corrections_def student_not_staff [OF assms(3)] guard_or_def)
  moreover have "marks_progress (only_about (jwt_sub user) s) user c = marks_progress s user c"
    by (simp add: marks_progress_def student_not_staff [OF assms(3)] only_about_corrections)
  ultimately show ?thesis by blast
qed

lemma corrections_stay_private_witness:
  "let s = foldl (mark_step one_letter letters no_wording) mark_school (take 2 marked_class);
       q = \<lparr>mq_sectionId = None, mq_sessionId = Some ''l'', mq_studentId = None\<rparr>;
       g = list_marks (only_about ''p'' s) mark_pupil ''c'' q in
   map_sum id (\<lambda>r. map mk_id (snd r)) g = Inr [''mark-of-p''] \<and> g = list_marks s mark_pupil ''c'' q \<and> length (tj_marks s) = 2"
proof -
  let ?s = "foldl (mark_step one_letter letters no_wording) mark_school (take 2 marked_class)"
  let ?q = "\<lparr>mq_sectionId = None, mq_sessionId = Some ''l'', mq_studentId = None\<rparr>"
  have "map_sum id (\<lambda>r. map mk_id (snd r)) (list_marks ?s mark_pupil ''c'' ?q) = Inr [''mark-of-p'']" and "length (tj_marks ?s) = 2"
    by code_simp+
  moreover have "list_marks (only_about (jwt_sub mark_pupil) ?s) mark_pupil ''c'' ?q = list_marks ?s mark_pupil ''c'' ?q"
    using corrections_stay_private [of mark_school ?s one_letter letters no_wording "take 2 marked_class" mark_pupil "''c''" ?q]
    by (simp add: no_marks_def mark_school_def mark_pupil_def)
  ultimately show ?thesis by (simp add: mark_pupil_def Let_def)
qed

text \<open>C25: Of two edits that were both made against the same version and both passed the check, only
  the first to reach its transaction lands: the second is refused as stale and changes nothing, and
  the mark holds the first's version.\<close>

theorem second_edit_is_stale:
  assumes "no_marks s0" and "s = foldl (mark_step txt seg wording) s0 ops"
    and "update_read txt seg wording s u c i dto = Inr x" and "update_read txt seg wording s u' c i dto' = Inr x'"
    and "update_write s u c i (mt_version dto) x n = (t, Inr p)"
  shows "update_write t u' c i (mt_version dto') x' n' = (t, Inl stale_edit) \<and>
    map_option mk_version (find_mark t i) = Some (mt_version dto + 1) \<and> mk_version p = mt_version dto + 1"
proof -
  have ok: "tajweed_ok s" using mark_runs_ok [OF assms(1)] assms(2) by simp
  obtain notify ps ct kept where x: "x = (notify, ps, ct, kept)" by (cases x)
  obtain notify' ps' ct' kept' where x': "x' = (notify', ps', ct', kept')" by (cases x')
  obtain r where r: "course_mark s c i = Inr r" "mt_version dto = mk_version r" using update_readD [OF assms(3) [unfolded x]] by metis
  obtain r' where r': "course_mark s c i = Inr r'" "mt_version dto' = mk_version r'" using update_readD [OF assms(4) [unfolded x']] by metis
  have v: "mt_version dto' = mk_version r" using r(1) r' by simp
  have i: "find_mark s i = Some r" using mark_same_id [OF ok, of r] course_markD [OF r(1)] by simp
  let ?m = "change_mark i (edit_row ps ct kept (jwt_sub u) n) (jwt_sub u) n s"
  note found = edited_mark [OF ok i, where ps = ps and ct = ct and kept = kept and w = "jwt_sub u" and n = n and w' = "jwt_sub u" and n' = n]
  have t: "t = announce MarkUpdated (edit_row ps ct kept (jwt_sub u) n r) notify ?m" "p = to_public (edit_row ps ct kept (jwt_sub u) n r)"
    using assms(5) found(1) by (auto simp: x update_write_def Let_def split: if_splits)
  have "find (\<lambda>y. mk_id y = i \<and> mk_courseId y = c \<and> mk_version y = mt_version dto') (tj_marks t) = None"
    using found(2) unfolding find_None_iff t announce_same v by fastforce
  then have "update_write t u' c i (mt_version dto') x' n' = (t, Inl stale_edit)"
    by (simp add: update_write_def x')
  then show ?thesis using found(1) r(2) by (simp add: t)
qed

lemma second_edit_is_stale_witness:
  "let s = foldl (mark_step one_letter letters no_wording) mark_school (take 1 marked_class);
       read = update_read one_letter letters no_wording s mark_teacher ''c'' ''mark-of-p'' in
   case (read (recolour 1 ''#ff0000''), read (recolour 1 ''#00ff00'')) of
     (Inr x, Inr x') \<Rightarrow>
       (case update_write s mark_teacher ''c'' ''mark-of-p'' 1 x 5 of
          (t, Inr p) \<Rightarrow> update_write t mark_teacher ''c'' ''mark-of-p'' 1 x' 6 = (t, Inl stale_edit) \<and> mk_version p = 2
        | _ \<Rightarrow> False)
   | _ \<Rightarrow> False"
proof -
  define s where "s = foldl (mark_step one_letter letters no_wording) mark_school (take 1 marked_class)"
  let ?r = "update_read one_letter letters no_wording s mark_teacher ''c'' ''mark-of-p''"
  have v: "\<not> isl (?r (recolour 1 ''#ff0000''))" "\<not> isl (?r (recolour 1 ''#00ff00''))"
    "case ?r (recolour 1 ''#ff0000'') of Inl _ \<Rightarrow> False
      | Inr x \<Rightarrow> \<not> isl (snd (update_write s mark_teacher ''c'' ''mark-of-p'' 1 x 5))" unfolding s_def by code_simp+
  obtain x x' where r: "?r (recolour 1 ''#ff0000'') = Inr x" "?r (recolour 1 ''#00ff00'') = Inr x'"
    using v(1,2) by (cases "?r (recolour 1 ''#ff0000'')"; cases "?r (recolour 1 ''#00ff00'')") simp_all
  obtain t p where w: "update_write s mark_teacher ''c'' ''mark-of-p'' 1 x 5 = (t, Inr p)"
    using v(3) by (cases "update_write s mark_teacher ''c'' ''mark-of-p'' 1 x 5"; cases "snd (update_write s mark_teacher ''c'' ''mark-of-p'' 1 x 5)")
      (simp_all add: r)
  have "mt_version (recolour 1 c) = 1" for c by (simp add: recolour_def)
  then show ?thesis
    using second_edit_is_stale [OF mark_school_new s_def r(1) r(2), of 5 t p 6] w unfolding s_def [symmetric] by (simp add: r Let_def)
qed

text \<open>Saving a recitation links exactly the student's corrections of that session that were not
  linked yet, each with its own new version, counts them, and leaves every other mark as it was;
  none is left to link.\<close>

theorem recitation_links_its_corrections:
  assumes "no_marks s0" and "s = foldl (mark_step txt seg wording) s0 ops"
    and "given (rn_sessionId e)" and "link_corrections s e n = (t, k)"
  shows "tj_marks t = map (\<lambda>r. if unlinked e r then link_row e n r else r) (tj_marks s) \<and>
    k = length (filter (unlinked e) (tj_marks s)) \<and> filter (unlinked e) (tj_marks t) = []"
proof -
  let ?xs = "filter (unlinked e) (tj_marks s)"
  have d: "distinct (map mk_id (tj_marks s))" using mark_runs_ok [OF assms(1)] assms(2) by (simp add: tajweed_ok_def)
  then have "distinct ?xs" by (simp add: distinct_map)
  moreover have "\<forall>r \<in> set ?xs. mk_hifzEntryId r = None" by (simp add: unlinked_def)
  moreover have f: "foldl (link_one e n) (s, 0) (map (\<lambda>r. (mk_id r, mk_version r)) ?xs) = (t, k)"
    using assms(3,4) by (simp add: link_corrections_def)
  ultimately have y: "k = length ?xs" "tj_marks t = map (\<lambda>r. if r \<in> set ?xs then link_row e n r else r) (tj_marks s)"
    using link_loop [OF d _ filter_is_subset, of "unlinked e" e n] unfolding f Let_def fst_conv snd_conv by blast+
  have m: "tj_marks t = map (\<lambda>r. if unlinked e r then link_row e n r else r) (tj_marks s)"
    unfolding y(2) by (rule map_cong) auto
  have "\<not> unlinked e (link_row e n r)" for r by (simp add: unlinked_def link_row_def)
  then have "filter (unlinked e) (tj_marks t) = []" unfolding m by (auto simp: filter_empty_conv)
  then show ?thesis using y(1) m by simp
qed

lemma recitation_links_its_corrections_witness:
  "let s = foldl (mark_step one_letter letters no_wording) mark_school (take 2 marked_class);
       e = \<lparr>rn_id = ''h'', rn_courseId = ''c'', rn_studentId = ''p'', rn_sessionId = Some ''l'', rn_recordedById = ''t''\<rparr>;
       y = link_corrections s e 9 in
   map mk_hifzEntryId (tj_marks (fst y)) = [Some ''h'', None] \<and> filter (unlinked e) (tj_marks (fst y)) = []"
proof -
  let ?s = "foldl (mark_step one_letter letters no_wording) mark_school (take 2 marked_class)"
  let ?e = "\<lparr>rn_id = ''h'', rn_courseId = ''c'', rn_studentId = ''p'', rn_sessionId = Some ''l'', rn_recordedById = ''t''\<rparr>"
  have "map mk_hifzEntryId (tj_marks (fst (link_corrections ?s ?e 9))) = [Some ''h'', None]" by code_simp
  moreover have "given (rn_sessionId ?e)" by (simp add: given_def)
  then have "filter (unlinked ?e) (tj_marks (fst (link_corrections ?s ?e 9))) = []"
    using recitation_links_its_corrections [OF mark_school_new refl _ prod.collapse [symmetric]] by blast
  ultimately show ?thesis unfolding Let_def by blast
qed

section \<open>A deletion that overlaps an edit\<close>

text \<open>A deletion is not conditional on the version: an edit that lands between its look and its
  transaction is deleted with it, and the deletion's snapshot is of the version before.\<close>

lemma removal_overtakes_an_edit:
  "let s = foldl (mark_step one_letter letters no_wording) mark_school (take 1 marked_class);
       s1 = fst (update_mark one_letter letters no_wording s mark_teacher ''c'' ''mark-of-p'' (recolour 1 ''#ff0000'') 5) in
   map_option (\<lambda>t. (length (tj_marks t), map (\<lambda>v. (tr_change v, tr_version v)) (tj_revisions t)))
     (remove_write s1 mark_teacher (the (find_mark s ''mark-of-p'')) 6) =
   Some (0, [(CREATED, 1), (UPDATED, 2), (DELETED, 1)])"
  by code_simp

end
