(* ===== verification/Hifz.thy ===== *)
theory Hifz
  imports TajweedRuns
begin

text \<open>
  Memorization of the Quran: \<open>src/hifz/hifz.service.ts\<close> and the surahs of
  \<open>src/quran/surahs.ts\<close>. A saved recitation links the corrections of \<open>TajweedMarks\<close>; the table of
  recitations that service reads is the one here. Ids, the clock and the reading of a date are inputs, and
  rows are listed in the order of their creation where the code orders by a student's name.
\<close>

section \<open>Surahs\<close>

text \<open>The transliterated name and the number of ayahs of each.\<close>

definition surahs :: "(string \<times> int) list" where
  "surahs =
    [(''Al-Fatihah'', 7), (''Al-Baqarah'', 286), (''Aal-E-Imran'', 200), (''An-Nisa'', 176),
     (''Al-Ma'idah'', 120), (''Al-An'am'', 165), (''Al-A'raf'', 206), (''Al-Anfal'', 75),
     (''At-Tawbah'', 129), (''Yunus'', 109), (''Hud'', 123), (''Yusuf'', 111), (''Ar-Ra'd'', 43),
     (''Ibrahim'', 52), (''Al-Hijr'', 99), (''An-Nahl'', 128), (''Al-Isra'', 111), (''Al-Kahf'', 110),
     (''Maryam'', 98), (''Ta-Ha'', 135), (''Al-Anbiya'', 112), (''Al-Hajj'', 78),
     (''Al-Mu'minun'', 118), (''An-Nur'', 64), (''Al-Furqan'', 77), (''Ash-Shu'ara'', 227),
     (''An-Naml'', 93), (''Al-Qasas'', 88), (''Al-Ankabut'', 69), (''Ar-Rum'', 60), (''Luqman'', 34),
     (''As-Sajdah'', 30), (''Al-Ahzab'', 73), (''Saba'', 54), (''Fatir'', 45), (''Ya-Sin'', 83),
     (''As-Saffat'', 182), (''Sad'', 88), (''Az-Zumar'', 75), (''Ghafir'', 85), (''Fussilat'', 54),
     (''Ash-Shura'', 53), (''Az-Zukhruf'', 89), (''Ad-Dukhan'', 59), (''Al-Jathiyah'', 37),
     (''Al-Ahqaf'', 35), (''Muhammad'', 38), (''Al-Fath'', 29), (''Al-Hujurat'', 18), (''Qaf'', 45),
     (''Adh-Dhariyat'', 60), (''At-Tur'', 49), (''An-Najm'', 62), (''Al-Qamar'', 55),
     (''Ar-Rahman'', 78), (''Al-Waqi'ah'', 96), (''Al-Hadid'', 29), (''Al-Mujadila'', 22),
     (''Al-Hashr'', 24), (''Al-Mumtahanah'', 13), (''As-Saff'', 14), (''Al-Jumu'ah'', 11),
     (''Al-Munafiqun'', 11), (''At-Taghabun'', 18), (''At-Talaq'', 12), (''At-Tahrim'', 12),
     (''Al-Mulk'', 30), (''Al-Qalam'', 52), (''Al-Haqqah'', 52), (''Al-Ma'arij'', 44), (''Nuh'', 28),
     (''Al-Jinn'', 28), (''Al-Muzzammil'', 20), (''Al-Muddaththir'', 56), (''Al-Qiyamah'', 40),
     (''Al-Insan'', 31), (''Al-Mursalat'', 50), (''An-Naba'', 40), (''An-Nazi'at'', 46),
     (''Abasa'', 42), (''At-Takwir'', 29), (''Al-Infitar'', 19), (''Al-Mutaffifin'', 36),
     (''Al-Inshiqaq'', 25), (''Al-Buruj'', 22), (''At-Tariq'', 17), (''Al-A'la'', 19),
     (''Al-Ghashiyah'', 26), (''Al-Fajr'', 30), (''Al-Balad'', 20), (''Ash-Shams'', 15),
     (''Al-Layl'', 21), (''Ad-Duha'', 11), (''Ash-Sharh'', 8), (''At-Tin'', 8), (''Al-Alaq'', 19),
     (''Al-Qadr'', 5), (''Al-Bayyinah'', 8), (''Az-Zalzalah'', 8), (''Al-Adiyat'', 11),
     (''Al-Qari'ah'', 11), (''At-Takathur'', 8), (''Al-Asr'', 3), (''Al-Humazah'', 9), (''Al-Fil'', 5),
     (''Quraysh'', 4), (''Al-Ma'un'', 7), (''Al-Kawthar'', 3), (''Al-Kafirun'', 6), (''An-Nasr'', 3),
     (''Al-Masad'', 5), (''Al-Ikhlas'', 4), (''Al-Falaq'', 5), (''An-Nas'', 6)]"

definition total_ayahs :: int where
  "total_ayahs = sum_list (map snd surahs)"

definition get_surah :: "int \<Rightarrow> (string \<times> int) option" where
  "get_surah n = (if 1 \<le> n \<and> n \<le> int (length surahs) then Some (surahs ! nat (n - 1)) else None)"

definition validate_ref :: "int \<Rightarrow> int \<Rightarrow> int \<Rightarrow> string + int \<times> int \<times> int" where
  "validate_ref surahNumber ayahStart ayahEnd =
     (case get_surah surahNumber of
        None \<Rightarrow> Inl ''Unknown surah''
      | Some (transliteration, ayahCount) \<Rightarrow>
          if ayahStart < 1 \<or> ayahEnd < 1 then Inl ''Ayah numbers must be positive whole numbers''
          else if ayahEnd > ayahCount then Inl (transliteration @ '' has '' @ int_text ayahCount @ '' ayahs'')
          else if ayahStart > ayahEnd then Inl ''Start ayah must not be after the end ayah''
          else Inr (surahNumber, ayahStart, ayahEnd))"

text \<open>The service answers a refused reference with 403.\<close>

definition validate :: "int \<Rightarrow> int \<Rightarrow> int \<Rightarrow> (int \<times> int \<times> int) result" where
  "validate surah start end' =
     (case validate_ref surah start end' of Inl e \<Rightarrow> Inl (Forbidden e) | Inr x \<Rightarrow> Inr x)"

section \<open>Rows\<close>

datatype hifz_kind = NEW_HIFZ | REVISION

record hifz_target =
  ht_id :: string
  ht_courseId :: string
  ht_studentId :: string
  ht_surahNumber :: int
  ht_ayahStart :: int
  ht_ayahEnd :: int
  ht_dueAt :: "int option"
  ht_note :: "string option"
  ht_createdById :: string
  ht_createdAt :: int

record hifz_recitation =
  he_id :: string
  he_courseId :: string
  he_studentId :: string
  he_surahNumber :: int
  he_ayahStart :: int
  he_ayahEnd :: int
  he_kind :: hifz_kind
  he_rating :: "int option"
  he_tajweed :: "string option"
  he_notes :: "string option"
  he_sessionId :: "string option"
  he_recordedById :: string
  he_recordedAt :: int

record hifz =
  hz_marks :: tajweed
  hz_targets :: "hifz_target list"
  hz_entries :: "hifz_recitation list"

text \<open>What the tajweed service sees of a recitation.\<close>

definition entry_key :: "hifz_recitation \<Rightarrow> hifz_entry" where
  "entry_key e = \<lparr>hifz_entry.hz_id = he_id e, hz_courseId = he_courseId e, hz_studentId = he_studentId e\<rparr>"

definition set_entries :: "hifz_recitation list \<Rightarrow> hifz \<Rightarrow> hifz" where
  "set_entries es s = s\<lparr>hz_entries := es, hz_marks := (hz_marks s)\<lparr>tj_hifz := map entry_key es\<rparr>\<rparr>"

section \<open>Progress\<close>

text \<open>The ranges of each surah, in order of appearance.\<close>

definition by_surah :: "hifz_recitation list \<Rightarrow> (int, (int \<times> int) list) amap" where
  "by_surah es =
     foldl (\<lambda>m e. if he_kind e \<noteq> NEW_HIFZ then m
       else aput (he_surahNumber e) ((case map_of m (he_surahNumber e) of None \<Rightarrow> [] | Some rs \<Rightarrow> rs) @
              [(he_ayahStart e, he_ayahEnd e)]) m) [] es"

fun merge_loop :: "int \<Rightarrow> int \<Rightarrow> int \<Rightarrow> (int \<times> int) list \<Rightarrow> int" where
  "merge_loop ayahs curStart curEnd [] = ayahs + (curEnd - curStart + 1)"
| "merge_loop ayahs curStart curEnd ((s, en) # ranges) =
     (if s \<le> curEnd + 1 then merge_loop ayahs curStart (max curEnd en) ranges
      else merge_loop (ayahs + (curEnd - curStart + 1)) s en ranges)"

definition merge_ranges :: "int \<Rightarrow> (int \<times> int) list \<Rightarrow> int" where
  "merge_ranges ayahs ranges =
     (case sort_key fst ranges of [] \<Rightarrow> ayahs | (s, en) # rs \<Rightarrow> merge_loop ayahs s en rs)"

record progress =
  pg_ayahsMemorized :: int
  pg_surahsTouched :: nat
  pg_lastRecitedAt :: "int option"

definition summarize :: "hifz_recitation list \<Rightarrow> progress" where
  "summarize es =
     \<lparr>pg_ayahsMemorized = foldl merge_ranges 0 (avals (by_surah es)), pg_surahsTouched = length (by_surah es),
      pg_lastRecitedAt = (case es of [] \<Rightarrow> None | e # _ \<Rightarrow> Some (he_recordedAt e))\<rparr>"

section \<open>Reading\<close>

text \<open>A target without a date comes first, as MySQL orders null.\<close>

definition target_order :: "hifz_target list \<Rightarrow> hifz_target list" where
  "target_order ts =
     (let made = sort_key ht_createdAt ts
      in filter (\<lambda>t. ht_dueAt t = None) made @ sort_key (\<lambda>t. the (ht_dueAt t)) (filter (\<lambda>t. ht_dueAt t \<noteq> None) made))"

definition latest_first :: "hifz_recitation list \<Rightarrow> hifz_recitation list" where
  "latest_first es = sort_key (\<lambda>e. - he_recordedAt e) es"

record heard =
  hd_id :: string
  hd_surahNumber :: nat
  hd_ayahNumber :: nat
  hd_rule :: "string option"
  hd_customLabel :: "string option"
  hd_outcome :: "mark_outcome option"
  hd_note :: "string option"

definition corrections_heard :: "hifz \<Rightarrow> hifz_recitation \<Rightarrow> heard list" where
  "corrections_heard s e =
     map (\<lambda>m. \<lparr>hd_id = mk_id m, hd_surahNumber = mk_surahNumber m, hd_ayahNumber = mk_ayahNumber m, hd_rule = mk_rule m,
             hd_customLabel = mk_customLabel m, hd_outcome = mk_outcome m, hd_note = mk_note m\<rparr>)
       (sort_key mk_createdAt (filter (\<lambda>m. mk_hifzEntryId m = Some (he_id e)) (tj_marks (hz_marks s))))"

record student_hifz =
  sh_student :: string
  sh_targets :: "hifz_target list"
  sh_entries :: "(hifz_recitation \<times> heard list) list"
  sh_progress :: progress

definition hifz_of :: "hifz \<Rightarrow> string \<Rightarrow> string \<Rightarrow> student_hifz" where
  "hifz_of s courseId student =
     (let mine = latest_first (filter (\<lambda>e. he_courseId e = courseId \<and> he_studentId e = student) (hz_entries s))
      in \<lparr>sh_student = student,
          sh_targets = target_order (filter (\<lambda>t. ht_courseId t = courseId \<and> ht_studentId t = student) (hz_targets s)),
          sh_entries = map (\<lambda>e. (e, corrections_heard s e)) mine, sh_progress = summarize mine\<rparr>)"

definition hifz_overview :: "hifz \<Rightarrow> jwt_payload \<Rightarrow> string \<Rightarrow> student_hifz list result" where
  "hifz_overview s user courseId =
     rbind (assert_can_manage_course (tj_db (hz_marks s)) user courseId) (\<lambda>_.
       let targets = target_order (filter (\<lambda>t. ht_courseId t = courseId) (hz_targets s));
           entries = latest_first (filter (\<lambda>e. he_courseId e = courseId) (hz_entries s))
       in Inr (map (\<lambda>r.
            let theirEntries = filter (\<lambda>e. he_studentId e = en_studentId r) entries
            in \<lparr>sh_student = en_studentId r, sh_targets = filter (\<lambda>t. ht_studentId t = en_studentId r) targets,
                sh_entries = map (\<lambda>e. (e, corrections_heard s e)) theirEntries, sh_progress = summarize theirEntries\<rparr>)
          (filter (\<lambda>r. en_courseId r = courseId) (db_enrollments (tj_db (hz_marks s))))))"

definition hifz_mine :: "hifz \<Rightarrow> jwt_payload \<Rightarrow> string \<Rightarrow> student_hifz result" where
  "hifz_mine s user courseId =
     rbind (assert_mark_enrolled (tj_db (hz_marks s)) courseId (jwt_sub user)) (\<lambda>_. Inr (hifz_of s courseId (jwt_sub user)))"

section \<open>Writing\<close>

text \<open>\<open>x?.trim() || null\<close>\<close>

definition trimmed :: "string option \<Rightarrow> string option" where
  "trimmed x = (case x of None \<Rightarrow> None | Some t \<Rightarrow> if trim t = [] then None else Some (trim t))"

record target_dto =
  td_studentId :: string
  td_surahNumber :: int
  td_ayahStart :: int
  td_ayahEnd :: int
  td_dueAt :: "string option"
  td_note :: "string option"

text \<open>A text that is no date makes an invalid \<open>Date\<close>, which the database client refuses.\<close>

definition due_date :: "(string \<Rightarrow> int option) \<Rightarrow> string option \<Rightarrow> int option result" where
  "due_date parse dueAt =
     (if \<not> given dueAt then Inr None
      else (case parse (the dueAt) of None \<Rightarrow> Inl (Internal ''Invalid value provided'') | Some t \<Rightarrow> Inr (Some t)))"

definition create_target ::
  "(string \<Rightarrow> int option) \<Rightarrow> hifz \<Rightarrow> jwt_payload \<Rightarrow> string \<Rightarrow> target_dto \<Rightarrow> string \<Rightarrow> int \<Rightarrow> hifz \<times> hifz_target result"
where
  "create_target parse s user courseId dto newId now =
     (case rbind (assert_can_manage_course (tj_db (hz_marks s)) user courseId) (\<lambda>_.
            rbind (assert_mark_enrolled (tj_db (hz_marks s)) courseId (td_studentId dto)) (\<lambda>_.
            rbind (validate (td_surahNumber dto) (td_ayahStart dto) (td_ayahEnd dto)) (\<lambda>(surah, start, end').
            rbind (due_date parse (td_dueAt dto)) (\<lambda>due.
              Inr \<lparr>ht_id = newId, ht_courseId = courseId, ht_studentId = td_studentId dto, ht_surahNumber = surah,
                   ht_ayahStart = start, ht_ayahEnd = end', ht_dueAt = due, ht_note = trimmed (td_note dto),
                   ht_createdById = jwt_sub user, ht_createdAt = now\<rparr>)))) of
        Inl e \<Rightarrow> (s, Inl e) | Inr t \<Rightarrow> (s\<lparr>hz_targets := hz_targets s @ [t]\<rparr>, Inr t))"

definition remove_target :: "hifz \<Rightarrow> jwt_payload \<Rightarrow> string \<Rightarrow> string \<Rightarrow> hifz \<times> unit result" where
  "remove_target s user courseId targetId =
     (case rbind (assert_can_manage_course (tj_db (hz_marks s)) user courseId) (\<lambda>_.
            guard_or (list_ex (\<lambda>t. ht_id t = targetId \<and> ht_courseId t = courseId) (hz_targets s))
              (NotFound ''Record not found in this course'')) of
        Inl e \<Rightarrow> (s, Inl e)
      | Inr _ \<Rightarrow> (s\<lparr>hz_targets := filter (\<lambda>t. ht_id t \<noteq> targetId) (hz_targets s)\<rparr>, Inr ()))"

record log_dto =
  lg_studentId :: string
  lg_surahNumber :: int
  lg_ayahStart :: int
  lg_ayahEnd :: int
  lg_kind :: hifz_kind
  lg_rating :: "int option"
  lg_tajweed :: "string option"
  lg_notes :: "string option"
  lg_sessionId :: "string option"

definition log_checks :: "hifz \<Rightarrow> jwt_payload \<Rightarrow> string \<Rightarrow> log_dto \<Rightarrow> string \<Rightarrow> int \<Rightarrow> hifz_recitation result" where
  "log_checks s user courseId dto newId now =
     rbind (assert_can_manage_course (tj_db (hz_marks s)) user courseId) (\<lambda>_.
     rbind (assert_mark_enrolled (tj_db (hz_marks s)) courseId (lg_studentId dto)) (\<lambda>_.
     rbind (validate (lg_surahNumber dto) (lg_ayahStart dto) (lg_ayahEnd dto)) (\<lambda>(surah, start, end').
     rbind (guard_or (\<not> given (lg_sessionId dto) \<or>
         list_ex (\<lambda>x. Some (lx_id x) = lg_sessionId dto \<and> lx_courseId x = courseId) (tj_sessions (hz_marks s)))
       (Forbidden ''Session not found in course'')) (\<lambda>_.
     rbind (guard_or (lg_sessionId dto \<noteq> Some [] \<and> newId \<notin> he_id ` set (hz_entries s)) (Internal ''Constraint failed'')) (\<lambda>_.
       Inr \<lparr>he_id = newId, he_courseId = courseId, he_studentId = lg_studentId dto, he_surahNumber = surah,
            he_ayahStart = start, he_ayahEnd = end', he_kind = lg_kind dto, he_rating = lg_rating dto,
            he_tajweed = trimmed (lg_tajweed dto), he_notes = trimmed (lg_notes dto), he_sessionId = lg_sessionId dto,
            he_recordedById = jwt_sub user, he_recordedAt = now\<rparr>)))))"

definition recitation_of :: "hifz_recitation \<Rightarrow> recitation" where
  "recitation_of e = \<lparr>rn_id = he_id e, rn_courseId = he_courseId e, rn_studentId = he_studentId e, rn_sessionId = he_sessionId e,
     rn_recordedById = he_recordedById e\<rparr>"

definition log_entry :: "hifz \<Rightarrow> jwt_payload \<Rightarrow> string \<Rightarrow> log_dto \<Rightarrow> string \<Rightarrow> int \<Rightarrow> hifz \<times> hifz_recitation result" where
  "log_entry s user courseId dto newId now =
     (case log_checks s user courseId dto newId now of
        Inl e \<Rightarrow> (s, Inl e)
      | Inr e \<Rightarrow>
          let s1 = set_entries (hz_entries s @ [e]) s
          in (s1\<lparr>hz_marks := fst (link_corrections (hz_marks s1) (recitation_of e) now)\<rparr>, Inr e))"

text \<open>A mark's recitation is set to null by the database when the recitation is deleted.\<close>

definition unlink_marks :: "string \<Rightarrow> tajweed \<Rightarrow> tajweed" where
  "unlink_marks i t =
     t\<lparr>tj_marks := map (\<lambda>m. if mk_hifzEntryId m = Some i then m\<lparr>mk_hifzEntryId := None\<rparr> else m) (tj_marks t)\<rparr>"

definition remove_entry :: "hifz \<Rightarrow> jwt_payload \<Rightarrow> string \<Rightarrow> string \<Rightarrow> hifz \<times> unit result" where
  "remove_entry s user courseId entryId =
     (case rbind (assert_can_manage_course (tj_db (hz_marks s)) user courseId) (\<lambda>_.
            guard_or (list_ex (\<lambda>e. he_id e = entryId \<and> he_courseId e = courseId) (hz_entries s))
              (NotFound ''Record not found in this course'')) of
        Inl e \<Rightarrow> (s, Inl e)
      | Inr _ \<Rightarrow>
          let s1 = set_entries (filter (\<lambda>e. he_id e \<noteq> entryId) (hz_entries s)) s
          in (s1\<lparr>hz_marks := unlink_marks entryId (hz_marks s1)\<rparr>, Inr ()))"

end
