(* ===== verification/HifzLaws.thy ===== *)
theory HifzLaws
  imports Hifz
begin

text \<open>
  What a student is shown of their memorization: the merged ranges count each ayah once, and teacher and
  student see the same.
\<close>

section \<open>Merging ranges\<close>

text \<open>A list of ranges stands for the ayahs in them.\<close>

definition covered :: "(int \<times> int) list \<Rightarrow> int set" where
  "covered rs = (\<Union>(s, en) \<in> set rs. {s..en})"

lemma covered_simps [simp]: "covered [] = {}" "covered ((s, en) # rs) = {s..en} \<union> covered rs" "finite (covered rs)"
  by (auto simp: covered_def)

lemma covered_from: "\<forall>(s, en) \<in> set rs. a \<le> s \<Longrightarrow> covered rs \<subseteq> {a..}"
  by (fastforce simp: covered_def)

lemma merge_loop_counts:
  assumes "sorted (map fst rs)" and "\<forall>(s, en) \<in> set rs. cs \<le> s \<and> s \<le> en" and "cs \<le> ce"
  shows "merge_loop n cs ce rs = n + int (card ({cs..ce} \<union> covered rs))"
  using assms
proof (induction rs arbitrary: n cs ce)
  case (Cons r rs)
  obtain s en where r: "r = (s, en)" by (cases r)
  have se: "cs \<le> s" "s \<le> en" using Cons.prems(2) by (auto simp: r)
  have later: "\<forall>(s', en') \<in> set rs. s \<le> s' \<and> s' \<le> en'" using Cons.prems(1,2) by (fastforce simp: r)
  show ?case
  proof (cases "s \<le> ce + 1")
    case True
    have "{cs..ce} \<union> {s..en} = {cs..max ce en}" using True se Cons.prems(3) by auto
    then have "{cs..ce} \<union> covered (r # rs) = {cs..max ce en} \<union> covered rs" by (simp add: r Un_assoc [symmetric])
    then show ?thesis using Cons.IH [of cs "max ce en" n] Cons.prems True by (auto simp: r)
  next
    case False
    have "{s..en} \<union> covered rs \<subseteq> {s..}" using covered_from [of rs s] later by fastforce
    then have "{cs..ce} \<inter> ({s..en} \<union> covered rs) = {}" using False by fastforce
    then have "card ({cs..ce} \<union> covered (r # rs)) = card {cs..ce} + card ({s..en} \<union> covered rs)"
      by (simp add: r card_Un_disjoint)
    then show ?thesis using Cons.IH [of s en "n + (ce - cs + 1)"] Cons.prems later se False by (simp add: r)
  qed
qed simp

lemma merge_ranges_counts:
  assumes "\<forall>(s, en) \<in> set rs. s \<le> en"
  shows "merge_ranges n rs = n + int (card (covered rs))"
proof (cases "sort_key fst rs")
  case Nil
  then have "set rs = {}" by (metis set_sort set_empty)
  then show ?thesis using Nil by (simp add: merge_ranges_def covered_def)
next
  case (Cons r qs)
  obtain s en where r: "r = (s, en)" by (cases r)
  have srt: "sorted (map fst (r # qs))" by (metis Cons sorted_sort_key)
  have st: "set rs = set (r # qs)" by (metis Cons set_sort)
  then have c: "covered rs = {s..en} \<union> covered qs" by (simp add: covered_def r)
  have "\<forall>(s', en') \<in> set qs. s \<le> s' \<and> s' \<le> en'" using srt st assms by (fastforce simp: r)
  moreover have "s \<le> en" using st assms by (auto simp: r)
  ultimately have "merge_loop n s en qs = n + int (card ({s..en} \<union> covered qs))"
    using srt by (intro merge_loop_counts) simp_all
  then show ?thesis by (simp add: merge_ranges_def Cons r c)
qed

section \<open>The surahs of a student\<close>

definition ranges_of :: "int \<Rightarrow> hifz_recitation list \<Rightarrow> (int \<times> int) list" where
  "ranges_of k es = map (\<lambda>e. (he_ayahStart e, he_ayahEnd e)) (filter (\<lambda>e. he_kind e = NEW_HIFZ \<and> he_surahNumber e = k) es)"

lemma by_surah_snoc:
  "by_surah (es @ [e]) = (if he_kind e \<noteq> NEW_HIFZ then by_surah es
     else aput (he_surahNumber e) ((case map_of (by_surah es) (he_surahNumber e) of None \<Rightarrow> [] | Some rs \<Rightarrow> rs) @
            [(he_ayahStart e, he_ayahEnd e)]) (by_surah es))"
  by (simp add: by_surah_def)

lemma ranges_of_snoc:
  "ranges_of k (es @ [e]) = ranges_of k es @ (if he_kind e = NEW_HIFZ \<and> he_surahNumber e = k then [(he_ayahStart e, he_ayahEnd e)] else [])"
  by (simp add: ranges_of_def)

lemma by_surah_lookup: "map_of (by_surah es) k = (if ranges_of k es = [] then None else Some (ranges_of k es))"
proof (induction es arbitrary: k rule: rev_induct)
  case Nil
  show ?case by (simp add: by_surah_def ranges_of_def)
next
  case (snoc e es)
  then show ?case by (auto simp: by_surah_snoc ranges_of_snoc aput_lookup)
qed

lemma by_surah_distinct: "distinct (akeys (by_surah es))"
  by (induction es rule: rev_induct) (simp add: by_surah_def, simp add: by_surah_snoc aput_distinct)

text \<open>The ayahs a student recited as new, each once.\<close>

definition recited :: "hifz_recitation list \<Rightarrow> (int \<times> int) set" where
  "recited es = {(k, a). \<exists>e \<in> set es. he_kind e = NEW_HIFZ \<and> he_surahNumber e = k \<and> he_ayahStart e \<le> a \<and> a \<le> he_ayahEnd e}"

lemma covered_ranges_of: "covered (ranges_of k es) = {a. (k, a) \<in> recited es}"
  by (auto simp: covered_def ranges_of_def recited_def)

lemma foldl_merge_ranges:
  "\<forall>rs \<in> set gs. \<forall>(s, en) \<in> set rs. s \<le> en \<Longrightarrow> foldl merge_ranges n gs = n + (\<Sum>rs \<leftarrow> gs. int (card (covered rs)))"
  by (induction gs arbitrary: n) (simp_all add: merge_ranges_counts)

lemma by_surah_values: "avals (by_surah es) = map (\<lambda>k. ranges_of k es) (akeys (by_surah es))"
proof -
  have "snd x = ranges_of (fst x) es" if "x \<in> set (by_surah es)" for x
    using map_of_is_SomeI [OF by_surah_distinct, of "fst x" "snd x" es] that by_surah_lookup [of es "fst x"] by (simp split: if_splits)
  then show ?thesis by simp
qed

lemma by_surah_keys: "set (akeys (by_surah es)) = {k. ranges_of k es \<noteq> []}"
  using by_surah_lookup [of es] by (auto simp: dom_map_of_conv_image_fst [symmetric] domIff split: if_splits)

lemma summarize_counts:
  assumes "\<forall>e \<in> set es. he_ayahStart e \<le> he_ayahEnd e"
  shows "pg_ayahsMemorized (summarize es) = int (card (recited es))" and "pg_surahsTouched (summarize es) = card (fst ` recited es)"
proof -
  let ?K = "akeys (by_surah es)"
  have v: "\<forall>rs \<in> set (avals (by_surah es)). \<forall>(s, en) \<in> set rs. s \<le> en"
    using assms unfolding by_surah_values by (auto simp: ranges_of_def)
  have "ranges_of k es \<noteq> []" if "(k, a) \<in> recited es" for k a
    using that covered_ranges_of [of k es] by (auto simp del: covered_simps(2))
  then have r: "recited es = (SIGMA k:set ?K. covered (ranges_of k es))"
    unfolding by_surah_keys covered_ranges_of by auto
  have "pg_ayahsMemorized (summarize es) = (\<Sum>k \<leftarrow> ?K. int (card (covered (ranges_of k es))))"
    using foldl_merge_ranges [OF v, of 0] by (simp add: summarize_def by_surah_values comp_def)
  also have "\<dots> = (\<Sum>k \<in> set ?K. int (card (covered (ranges_of k es))))"
    by (rule sum_list_distinct_conv_sum_set [OF by_surah_distinct])
  also have "\<dots> = int (card (recited es))" unfolding r by (simp add: card_SigmaI)
  finally show "pg_ayahsMemorized (summarize es) = int (card (recited es))" .
  have "fst ` recited es = set ?K"
    using assms unfolding by_surah_keys by (force simp: ranges_of_def recited_def filter_empty_conv image_iff)
  then show "pg_surahsTouched (summarize es) = card (fst ` recited es)"
    using distinct_card [OF by_surah_distinct, of es] by (simp add: summarize_def)
qed

section \<open>The whole text\<close>

lemma surah_count: "length surahs = 114" "total_ayahs = 6236"
  by code_simp+

definition all_ayahs :: "(int \<times> int) list" where
  "all_ayahs = concat (map (\<lambda>k. map (Pair k) [1..snd (surahs ! nat (k - 1))]) [1..114])"

lemma all_ayahs_length: "length all_ayahs = 6236"
proof -
  have "length all_ayahs = sum_list (map (\<lambda>k. nat (snd (surahs ! nat (k - 1)))) [1..114])"
    by (simp add: all_ayahs_def length_concat comp_def)
  also have "\<dots> = 6236" by code_simp
  finally show ?thesis .
qed

definition in_text :: "hifz_recitation \<Rightarrow> bool" where
  "in_text e \<longleftrightarrow>
     1 \<le> he_surahNumber e \<and> he_surahNumber e \<le> 114 \<and> 1 \<le> he_ayahStart e \<and> he_ayahStart e \<le> he_ayahEnd e \<and>
     he_ayahEnd e \<le> snd (surahs ! nat (he_surahNumber e - 1))"

lemma recited_in_text: "\<forall>e \<in> set es. in_text e \<Longrightarrow> recited es \<subseteq> set all_ayahs"
  by (force simp: recited_def all_ayahs_def in_text_def)

lemma recited_bound:
  assumes "\<forall>e \<in> set es. in_text e"
  shows "card (recited es) \<le> 6236"
  using card_mono [OF _ recited_in_text [OF assms]] card_length [of all_ayahs] all_ayahs_length by simp

lemma validated: "validate k a b = Inr (k', a', b') \<Longrightarrow> k' = k \<and> a' = a \<and> b' = b \<and> 1 \<le> k \<and> k \<le> 114 \<and> 1 \<le> a \<and> a \<le> b \<and> b \<le> snd (surahs ! nat (k - 1))"
  by (auto simp: validate_def validate_ref_def get_surah_def surah_count(1) split: sum.splits option.splits prod.splits if_splits)

section \<open>Runs\<close>

datatype hifz_op =
    LogEntry jwt_payload string log_dto string int
  | RemoveEntry jwt_payload string string
  | CreateTarget jwt_payload string target_dto string int
  | RemoveTarget jwt_payload string string
  | MarksChange mark_op

fun hifz_step ::
  "(string \<Rightarrow> int option) \<Rightarrow> quran_text \<Rightarrow> segmenter \<Rightarrow> (part_error \<Rightarrow> string) \<Rightarrow> hifz \<Rightarrow> hifz_op \<Rightarrow> hifz"
where
  "hifz_step parse t seg wording s (LogEntry user c dto i n) = fst (log_entry s user c dto i n)"
| "hifz_step parse t seg wording s (RemoveEntry user c i) = fst (remove_entry s user c i)"
| "hifz_step parse t seg wording s (CreateTarget user c dto i n) = fst (create_target parse s user c dto i n)"
| "hifz_step parse t seg wording s (RemoveTarget user c i) = fst (remove_target s user c i)"
| "hifz_step parse t seg wording s (MarksChange op) =
     set_entries (hz_entries s) (s\<lparr>hz_marks := mark_step t seg wording (hz_marks s) op\<rparr>)"

definition entries_ok :: "hifz \<Rightarrow> bool" where
  "entries_ok s \<longleftrightarrow> (\<forall>e \<in> set (hz_entries s). in_text e) \<and> distinct (map he_id (hz_entries s)) \<and> tj_hifz (hz_marks s) = map entry_key (hz_entries s)"

lemma log_checksD:
  "log_checks s user c dto i n = Inr e \<Longrightarrow> in_text e \<and> he_id e = i \<and> i \<notin> he_id ` set (hz_entries s)"
  by (auto simp: log_checks_def res in_text_def dest!: validated split: prod.splits)

lemma change_mark_hifz [simp]: "tj_hifz (change_mark i f w n s) = tj_hifz s"
  by (simp add: change_mark_def Let_def)

lemma link_hifz [simp]: "tj_hifz (fst (link_corrections s e n)) = tj_hifz s"
proof -
  have "tj_hifz (fst (foldl (link_one e n) x rs)) = tj_hifz (fst x)" for x rs
    by (induction rs arbitrary: x) (simp_all add: link_one_def split: prod.splits)
  then show ?thesis by (simp add: link_corrections_def)
qed

lemma entries_ok_log:
  assumes "entries_ok s"
  shows "entries_ok (fst (log_entry s user c dto i n))"
proof (cases "log_checks s user c dto i n")
  case (Inr e)
  then show ?thesis using assms log_checksD [OF Inr] by (auto simp: log_entry_def entries_ok_def set_entries_def Let_def)
qed (use assms in \<open>simp add: log_entry_def\<close>)

lemma entries_ok_remove: "entries_ok s \<Longrightarrow> entries_ok (fst (remove_entry s user c i))"
  by (auto simp: remove_entry_def entries_ok_def set_entries_def unlink_marks_def Let_def distinct_map_filter split: sum.splits)

interpretation hifz_run: invariant_system "hifz_step parse t seg wording" entries_ok for parse t seg wording
proof unfold_locales
  fix s op
  assume ok: "entries_ok s"
  show "entries_ok (hifz_step parse t seg wording s op)"
    using ok entries_ok_log [OF ok] entries_ok_remove [OF ok]
    by (cases op) (auto simp: create_target_def remove_target_def set_entries_def entries_ok_def split: sum.splits)
qed

lemma recited_latest [simp]: "recited (latest_first es) = recited es"
  by (simp add: recited_def latest_first_def)

lemma latest_filter: "filter P (latest_first es) = latest_first (filter P es)"
  by (simp add: latest_first_def filter_sort)

lemma target_order_filter: "filter P (target_order ts) = target_order (filter P ts)"
  by (simp add: target_order_def Let_def filter_sort conj_commute)

lemma overview_is_hifz_of:
  assumes "hifz_overview s user c = Inr vs" and "v \<in> set vs"
  shows "v = hifz_of s c (sh_student v)" and "enrolled (tj_db (hz_marks s)) c (sh_student v)"
proof -
  obtain r where r: "r \<in> set (db_enrollments (tj_db (hz_marks s)))" "en_courseId r = c"
    and v: "v = (let es = filter (\<lambda>e. he_studentId e = en_studentId r) (latest_first (filter (\<lambda>e. he_courseId e = c) (hz_entries s)))
      in \<lparr>sh_student = en_studentId r,
          sh_targets = filter (\<lambda>t. ht_studentId t = en_studentId r) (target_order (filter (\<lambda>t. ht_courseId t = c) (hz_targets s))),
          sh_entries = map (\<lambda>e. (e, corrections_heard s e)) es, sh_progress = summarize es\<rparr>)"
    using assms by (auto simp: hifz_overview_def res Let_def)
  show "v = hifz_of s c (sh_student v)" by (simp add: v hifz_of_def Let_def latest_filter target_order_filter conj_commute)
  show "enrolled (tj_db (hz_marks s)) c (sh_student v)" using r by (auto simp: v Let_def enrolled_def list_ex_iff)
qed

section \<open>The property\<close>

text \<open>C33: Each ayah counts once: after any run, what the teacher's overview shows of a student is what the
  student is shown, and its progress is the number of different ayahs in the student's new
  recitations in the course, however the ranges overlap, with the number of surahs they are in; it never
  exceeds the 6236 ayahs of the text.\<close>

theorem progress_counts_each_ayah_once:
  assumes "entries_ok s0" and "s = foldl (hifz_step parse t seg wording) s0 ops"
    and "hifz_overview s user c = Inr vs" and "v \<in> set vs" and "jwt_sub pupil = sh_student v"
    and "es = filter (\<lambda>e. he_courseId e = c \<and> he_studentId e = sh_student v) (hz_entries s)"
  shows "hifz_mine s pupil c = Inr v \<and> pg_ayahsMemorized (sh_progress v) = int (card (recited es)) \<and>
    pg_surahsTouched (sh_progress v) = card (fst ` recited es) \<and> pg_ayahsMemorized (sh_progress v) \<le> 6236"
proof -
  have ok: "entries_ok s" using hifz_run.inv_run [OF assms(1)] assms(2) by simp
  note v = overview_is_hifz_of [OF assms(3,4)]
  have "hifz_mine s pupil c = Inr v"
    using v by (simp add: hifz_mine_def assert_mark_enrolled_def guard_or_def assms(5))
  moreover have "\<forall>e \<in> set es. in_text e" using ok assms(6) by (simp add: entries_ok_def)
  moreover have "sh_progress v = summarize (latest_first es)"
    by (subst v(1)) (simp add: hifz_of_def Let_def assms(6))
  moreover have "\<forall>e \<in> set (latest_first es). he_ayahStart e \<le> he_ayahEnd e"
    using calculation(2) by (simp add: latest_first_def in_text_def)
  ultimately show ?thesis
    using summarize_counts [of "latest_first es"] recited_bound [of es] by simp
qed

definition hifz_school :: hifz where
  "hifz_school = \<lparr>hz_marks = mark_school\<lparr>tj_hifz := []\<rparr>, hz_targets = [], hz_entries = []\<rparr>"

definition heard_range :: "int \<Rightarrow> int \<Rightarrow> log_dto" where
  "heard_range a b = \<lparr>lg_studentId = ''p'', lg_surahNumber = 2, lg_ayahStart = a, lg_ayahEnd = b, lg_kind = NEW_HIFZ,
     lg_rating = None, lg_tajweed = None, lg_notes = None, lg_sessionId = Some ''l''\<rparr>"

definition two_lessons :: "hifz_op list" where
  "two_lessons = [MarksChange (CreateMark mark_teacher ''c'' (issue_for ''mark-of-p'' ''p'') 1),
     LogEntry mark_teacher ''c'' (heard_range 1 5) ''h1'' 2, LogEntry mark_teacher ''c'' (heard_range 4 7) ''h2'' 3]"

lemma progress_counts_each_ayah_once_witness:
  "let s = foldl (hifz_step (\<lambda>_. None) one_letter letters no_wording) hifz_school two_lessons;
       v = hifz_of s ''c'' ''p'' in
   hifz_mine s mark_pupil ''c'' = Inr v \<and> pg_ayahsMemorized (sh_progress v) = 7 \<and> pg_ayahsMemorized (sh_progress v) \<le> 6236"
proof -
  define s where "s = foldl (hifz_step (\<lambda>_. None) one_letter letters no_wording) hifz_school two_lessons"
  have ok: "entries_ok hifz_school" by (simp add: entries_ok_def hifz_school_def)
  have n: "pg_ayahsMemorized (sh_progress (hifz_of s ''c'' ''p'')) = 7" unfolding s_def by code_simp
  have "case hifz_overview s mark_teacher ''c'' of Inl _ \<Rightarrow> False | Inr vs \<Rightarrow> ''p'' \<in> set (map sh_student vs)"
    unfolding s_def by code_simp
  then obtain vs v where o: "hifz_overview s mark_teacher ''c'' = Inr vs" and v: "v \<in> set vs" "sh_student v = ''p''"
    by (auto split: sum.splits)
  have p: "jwt_sub mark_pupil = sh_student v" by (simp add: v mark_pupil_def)
  note t = progress_counts_each_ayah_once [OF ok s_def o v(1) p HOL.refl]
  have "v = hifz_of s ''c'' ''p''" using overview_is_hifz_of(1) [OF o v(1)] v(2) by simp
  then show ?thesis unfolding Let_def s_def [symmetric] using t n by blast
qed

section \<open>A deleted recitation\<close>

text \<open>Deleting a recitation unlinks its corrections in the database, without a version and without a
  revision: the history still says which recitation the correction belongs to.\<close>

lemma deleted_recitation_stays_in_the_history:
  "let s = foldl (hifz_step (\<lambda>_. None) one_letter letters no_wording) hifz_school
         (two_lessons @ [RemoveEntry mark_teacher ''c'' ''h1'']) in
   map mk_hifzEntryId (tj_marks (hz_marks s)) = [None] \<and>
   map_option mk_hifzEntryId (replay (tj_revisions (hz_marks s)) ''mark-of-p'') = Some (Some ''h1'')"
  by code_simp

end
