(* ===== verification/CourseDeletion.thy ===== *)
theory CourseDeletion
  imports Identity
begin

text \<open>
  The deletion of a course, \<open>deleteCourse\<close> of \<open>src/courses/courses.service.ts\<close>, on the tables that hang on
  a course. A row is its table, its id and the columns that name another row; the foreign keys and what a
  delete does to the rows that refer are those the migrations of \<open>prisma/migrations\<close> create. Users,
  organizations and GitHub connections are never deleted here and left out.
\<close>

section \<open>Tables\<close>

datatype tbl =
    T_Course | T_Section | T_Enrollment | T_Invite | T_LiveSession | T_Attendance | T_ChatMessage | T_SessionReminder
  | T_Recording | T_PointsLedger | T_Certificate | T_CourseDocument | T_Assignment | T_Submission | T_StudentGroup
  | T_StudentGroupMember | T_Quiz | T_QuizQuestion | T_QuizAnswer | T_AssessmentQuestion | T_RemediationTask
  | T_AssignedRemediation | T_Assessment | T_AssessmentAttempt | T_AssessmentResponse | T_Exam | T_ExamQuestion
  | T_ExamAttempt | T_ExamAnswer | T_HifzTarget | T_HifzEntry | T_TajweedAnnotation | T_TajweedAnnotationPart
  | T_TajweedAnnotationRevision | T_CodingAssignment | T_CodingRequirement | T_CodingRubricItem | T_CodingSubmission
  | T_CodingSubmissionFile | T_CodingAiReview | T_CodingAiFinding | T_CodingRequirementResult | T_CodingFeedback
  | T_CodingProgramGitConfig | T_CodingEnrollmentWorkspace

datatype on_delete = Restrict | Cascade | Set_Null

text \<open>The table and the column that refer, the table referred to, and what a delete of it does.\<close>

definition foreign_keys :: "(tbl \<times> string \<times> tbl \<times> on_delete) list" where
  "foreign_keys =
    [(T_Section, ''courseId'', T_Course, Restrict), (T_Assignment, ''courseId'', T_Course, Restrict),
     (T_Assignment, ''sectionId'', T_Section, Set_Null), (T_Submission, ''assignmentId'', T_Assignment, Restrict),
     (T_Enrollment, ''courseId'', T_Course, Restrict), (T_LiveSession, ''courseId'', T_Course, Restrict),
     (T_LiveSession, ''sectionId'', T_Section, Set_Null), (T_Attendance, ''sessionId'', T_LiveSession, Restrict),
     (T_ChatMessage, ''sessionId'', T_LiveSession, Restrict), (T_Quiz, ''sectionId'', T_Section, Set_Null),
     (T_Quiz, ''sessionId'', T_LiveSession, Set_Null), (T_QuizQuestion, ''quizId'', T_Quiz, Restrict),
     (T_QuizAnswer, ''questionId'', T_QuizQuestion, Restrict), (T_PointsLedger, ''courseId'', T_Course, Restrict),
     (T_Certificate, ''courseId'', T_Course, Restrict), (T_Assignment, ''groupId'', T_StudentGroup, Set_Null),
     (T_StudentGroup, ''courseId'', T_Course, Restrict), (T_StudentGroupMember, ''groupId'', T_StudentGroup, Cascade),
     (T_AssessmentQuestion, ''courseId'', T_Course, Restrict), (T_AssessmentQuestion, ''sectionId'', T_Section, Restrict),
     (T_RemediationTask, ''courseId'', T_Course, Restrict), (T_RemediationTask, ''sectionId'', T_Section, Restrict),
     (T_Assessment, ''courseId'', T_Course, Restrict), (T_Assessment, ''sessionId'', T_LiveSession, Restrict),
     (T_AssessmentAttempt, ''assessmentId'', T_Assessment, Cascade),
     (T_AssessmentResponse, ''attemptId'', T_AssessmentAttempt, Cascade),
     (T_AssessmentResponse, ''questionId'', T_AssessmentQuestion, Restrict),
     (T_AssignedRemediation, ''taskId'', T_RemediationTask, Restrict), (T_CourseDocument, ''courseId'', T_Course, Restrict),
     (T_HifzTarget, ''courseId'', T_Course, Restrict), (T_HifzEntry, ''courseId'', T_Course, Restrict),
     (T_Assignment, ''sessionId'', T_LiveSession, Set_Null), (T_HifzEntry, ''sessionId'', T_LiveSession, Set_Null),
     (T_Exam, ''courseId'', T_Course, Restrict), (T_ExamQuestion, ''examId'', T_Exam, Restrict),
     (T_ExamAttempt, ''examId'', T_Exam, Restrict), (T_ExamAnswer, ''attemptId'', T_ExamAttempt, Restrict),
     (T_ExamAnswer, ''questionId'', T_ExamQuestion, Restrict), (T_Invite, ''courseId'', T_Course, Cascade),
     (T_Quiz, ''courseId'', T_Course, Cascade), (T_CodingAssignment, ''courseId'', T_Course, Restrict),
     (T_CodingAssignment, ''sessionId'', T_LiveSession, Set_Null),
     (T_CodingRequirement, ''assignmentId'', T_CodingAssignment, Cascade),
     (T_CodingRubricItem, ''assignmentId'', T_CodingAssignment, Cascade),
     (T_CodingSubmission, ''assignmentId'', T_CodingAssignment, Cascade),
     (T_CodingSubmissionFile, ''submissionId'', T_CodingSubmission, Cascade),
     (T_CodingAiReview, ''submissionId'', T_CodingSubmission, Cascade),
     (T_CodingAiFinding, ''reviewId'', T_CodingAiReview, Cascade),
     (T_CodingRequirementResult, ''reviewId'', T_CodingAiReview, Cascade),
     (T_CodingRequirementResult, ''requirementId'', T_CodingRequirement, Cascade),
     (T_CodingFeedback, ''submissionId'', T_CodingSubmission, Cascade), (T_SessionReminder, ''courseId'', T_Course, Restrict),
     (T_Recording, ''sessionId'', T_LiveSession, Cascade), (T_Recording, ''courseId'', T_Course, Restrict),
     (T_TajweedAnnotation, ''courseId'', T_Course, Cascade), (T_TajweedAnnotation, ''sectionId'', T_Section, Set_Null),
     (T_TajweedAnnotation, ''sessionId'', T_LiveSession, Set_Null),
     (T_TajweedAnnotation, ''hifzEntryId'', T_HifzEntry, Set_Null),
     (T_TajweedAnnotationPart, ''annotationId'', T_TajweedAnnotation, Cascade),
     (T_CodingProgramGitConfig, ''courseId'', T_Course, Cascade),
     (T_CodingEnrollmentWorkspace, ''enrollmentId'', T_Enrollment, Cascade),
     (T_CodingEnrollmentWorkspace, ''courseId'', T_Course, Restrict),
     (T_CodingSubmission, ''workspaceId'', T_CodingEnrollmentWorkspace, Restrict)]"

record stored =
  st_table :: tbl
  st_id :: string
  st_columns :: "(string \<times> string) list"

text \<open>A column that holds null is not listed.\<close>

definition st_refs :: "stored \<Rightarrow> string \<rightharpoonup> string" where
  "st_refs r = map_of (st_columns r)"

type_synonym store = "stored list"

definition find_row :: "store \<Rightarrow> tbl \<Rightarrow> string \<Rightarrow> stored option" where
  "find_row s t i = find (\<lambda>r. st_table r = t \<and> st_id r = i) s"

section \<open>Deleting rows\<close>

definition refers :: "on_delete \<Rightarrow> stored \<Rightarrow> stored \<Rightarrow> bool" where
  "refers action r d =
     list_ex (\<lambda>(t, k, p, a). a = action \<and> t = st_table r \<and> p = st_table d \<and> st_refs r k = Some (st_id d)) foreign_keys"

text \<open>The rows that go because a row they refer to goes, to any depth.\<close>

function cascade :: "store \<Rightarrow> store \<Rightarrow> store \<times> store" where
  "cascade rest dead =
     (let new = filter (\<lambda>r. list_ex (refers Cascade r) dead) rest
      in if new = [] then (rest, dead)
         else cascade (filter (\<lambda>r. \<not> list_ex (refers Cascade r) dead) rest) (dead @ new))"
  by pat_completeness auto

termination
  by (relation "measure (\<lambda>(rest, _). length rest)")
    (auto simp: filter_empty_conv intro!: length_filter_less)

declare cascade.simps [simp del]

definition null_refs :: "store \<Rightarrow> stored \<Rightarrow> stored" where
  "null_refs dead r =
     r\<lparr>st_columns := filter (\<lambda>(k, _). \<not> list_ex (\<lambda>(t, k', p, a). a = Set_Null \<and> t = st_table r \<and> k' = k \<and>
            list_ex (\<lambda>d. st_table d = p \<and> st_refs r k = Some (st_id d)) dead) foreign_keys) (st_columns r)\<rparr>"

text \<open>\<open>deleteMany\<close>; \<open>None\<close> is the refusal of a foreign key. A row that refers to a deleted one by a restricting
  key is refused even when it goes by a cascade itself, whatever order the database takes them in.\<close>

definition delete_many :: "(stored \<Rightarrow> bool) \<Rightarrow> store \<Rightarrow> store option" where
  "delete_many P s =
     (let (rest, dead) = cascade (filter (\<lambda>r. \<not> P r) s) (filter P s)
      in if list_ex (\<lambda>r. list_ex (refers Restrict r) dead) s then None else Some (map (null_refs dead) rest))"

section \<open>Deleting a course\<close>

text \<open>The column \<open>k\<close> of the row that the columns of a path lead to.\<close>

fun column_along :: "store \<Rightarrow> (string \<times> tbl) list \<Rightarrow> string \<Rightarrow> stored \<Rightarrow> string option" where
  "column_along s [] k r = st_refs r k"
| "column_along s ((j, t) # ps) k r =
     Option.bind (st_refs r j) (\<lambda>i. Option.bind (find_row s t i) (column_along s ps k))"

text \<open>The statements of the transaction: the table, and the paths to a \<open>courseId\<close>, any of which may match.\<close>

definition deletions_before :: "(tbl \<times> (string \<times> tbl) list list) list" where
  "deletions_before =
    [(T_CodingAssignment, [[]]),
     (T_ExamAnswer, [[(''attemptId'', T_ExamAttempt), (''examId'', T_Exam)]]),
     (T_ExamAttempt, [[(''examId'', T_Exam)]]), (T_ExamQuestion, [[(''examId'', T_Exam)]]), (T_Exam, [[]]),
     (T_AssignedRemediation, [[(''taskId'', T_RemediationTask)]]),
     (T_Assessment, [[]]), (T_RemediationTask, [[]]), (T_AssessmentQuestion, [[]]),
     (T_QuizAnswer, [[(''questionId'', T_QuizQuestion), (''quizId'', T_Quiz)],
        [(''questionId'', T_QuizQuestion), (''quizId'', T_Quiz), (''sessionId'', T_LiveSession)]]),
     (T_QuizQuestion, [[(''quizId'', T_Quiz)], [(''quizId'', T_Quiz), (''sessionId'', T_LiveSession)]]),
     (T_Quiz, [[], [(''sessionId'', T_LiveSession)]]),
     (T_Submission, [[(''assignmentId'', T_Assignment)]]), (T_Assignment, [[]]), (T_StudentGroup, [[]])]"

definition deletions_after :: "(tbl \<times> (string \<times> tbl) list list) list" where
  "deletions_after =
    [(T_TajweedAnnotation, [[]]), (T_HifzEntry, [[]]), (T_HifzTarget, [[]]),
     (T_Attendance, [[(''sessionId'', T_LiveSession)]]), (T_ChatMessage, [[(''sessionId'', T_LiveSession)]]),
     (T_PointsLedger, [[]]), (T_Certificate, [[]]), (T_CourseDocument, [[]]), (T_Enrollment, [[]]),
     (T_SessionReminder, [[]]), (T_Invite, [[]]), (T_Section, [[]]), (T_LiveSession, [[]])]"

definition of_course :: "store \<Rightarrow> string \<Rightarrow> tbl \<times> (string \<times> tbl) list list \<Rightarrow> stored \<Rightarrow> bool" where
  "of_course s c = (\<lambda>(t, paths) r. st_table r = t \<and> list_ex (\<lambda>p. column_along s p ''courseId'' r = Some c) paths)"

fun delete_all :: "string \<Rightarrow> (tbl \<times> (string \<times> tbl) list list) list \<Rightarrow> store \<Rightarrow> store option" where
  "delete_all c [] s = Some s"
| "delete_all c (d # ds) s = Option.bind (delete_many (of_course s c d) s) (delete_all c ds)"

definition delete_history :: "string \<Rightarrow> store \<Rightarrow> store option" where
  "delete_history c s =
     (let tajweed = map st_id (filter (of_course s c (T_TajweedAnnotation, [[]])) s)
      in delete_many (\<lambda>r. st_table r = T_TajweedAnnotationRevision \<and>
           (case st_refs r ''annotationId'' of None \<Rightarrow> False | Some i \<Rightarrow> i \<in> set tajweed)) s)"

definition delete_course_rows :: "string \<Rightarrow> store \<Rightarrow> store option" where
  "delete_course_rows c s =
     Option.bind (delete_all c deletions_before s) (\<lambda>s1.
     Option.bind (delete_history c s1) (\<lambda>s2.
     Option.bind (delete_all c deletions_after s2) (\<lambda>s3.
       delete_many (\<lambda>r. st_table r = T_Course \<and> st_id r = c) s3)))"

text \<open>\<open>orgOf\<close>\<close>

definition own_org :: "jwt_payload \<Rightarrow> string result" where
  "own_org user = (if given (jwt_organizationId user) then Inr (the (jwt_organizationId user))
     else Inl (Forbidden ''No organization on this account''))"

definition delete_course :: "store \<Rightarrow> jwt_payload \<Rightarrow> string \<Rightarrow> store \<times> unit result" where
  "delete_course s user courseId =
     (case rbind (own_org user) (\<lambda>orgId.
            rbind (guard_or (case find_row s T_Course courseId of None \<Rightarrow> False
                 | Some r \<Rightarrow> st_refs r ''organizationId'' = Some orgId) (NotFound ''Course not found'')) (\<lambda>_.
            rbind (guard_or (\<not> list_ex (\<lambda>r. st_table r = T_Course \<and> st_refs r ''parentCourseId'' = Some courseId) s)
                 (BadRequest ''This program has batches. Delete its batches first, then delete the program.'')) (\<lambda>_.
              (case delete_course_rows courseId s of None \<Rightarrow> Inl (Internal ''Foreign key constraint failed'') | Some t \<Rightarrow> Inr t)))) of
        Inl e \<Rightarrow> (s, Inl e) | Inr t \<Rightarrow> (t, Inr ()))"

end
