(* ===== verification/Programs.thy ===== *)
theory Programs
  imports Assessment Assignments Accounts Sessions CalendarIcs CourseDeletion
begin

text \<open>
  Programs and their batches: \<open>src/courses/courses.service.ts\<close> on its tables, but for \<open>deleteCourse\<close>, which
  is in \<open>CourseDeletion\<close>. Question and assignment rows are those of \<open>Assessment\<close> and \<open>Assignments\<close>, classes those
  of \<open>Sessions\<close>. A DTO field that is omitted is \<open>None\<close> and one that is null \<open>Some None\<close>. Texts are the bytes of
  their UTF-8. Generated ids, the clock, the reading of a date and time zones are inputs.
\<close>

section \<open>Rows\<close>

record program = course_row +
  pm_parentCourseId :: "string option"
  pm_title :: string
  pm_description :: "string option"
  pm_posterUrl :: "string option"
  pm_code :: "string option"
  pm_category :: "string option"
  pm_level :: "string option"
  pm_startDate :: "int option"
  pm_durationWeeks :: "int option"
  pm_meetingDays :: "int list option"
  pm_meetingTime :: "string option"
  pm_meetingTimesByDay :: "(int, string) amap option"
  pm_timezone :: "string option"
  pm_scheduleUpdatedAt :: "int option"
  pm_instantClassAssessment :: bool
  pm_createdAt :: int

record syllabus = section_row +
  sy_order :: int
  sy_title :: string
  sy_description :: "string option"

record place = enrollment_row +
  er_reminderAddedAt :: "int option"
  er_createdAt :: int

record course_document =
  do_id :: string
  do_courseId :: string
  do_filename :: string
  do_storageKey :: string
  do_mimeType :: string
  do_charCount :: int
  do_extractedText :: string
  do_createdById :: string

text \<open>To the student, with the title.\<close>

datatype program_mail = ScheduleChanged string string | EnrolledInProgram string string

text \<open>\<open>pg_handed_in\<close>: course and student of the enrolments whose workspace a coding submission names.
  \<open>pg_evicted\<close>: session and student, each with the reason \<open>UNENROLLED\<close>.\<close>

record programs =
  pg_courses :: "program list"
  pg_sections :: "syllabus list"
  pg_enrollments :: "place list"
  pg_sessions :: "class_session list"
  pg_members :: "membership list"
  pg_users :: "user_row list"
  pg_questions :: "bank_question list"
  pg_assignments :: "assignment list"
  pg_documents :: "course_document list"
  pg_handed_in :: "(string \<times> string) list"
  pg_mails :: "program_mail list"
  pg_evicted :: "(string \<times> string) list"

text \<open>The rows as the other services see them, in the tables \<open>d\<close>.\<close>

definition with_programs :: "programs \<Rightarrow> db \<Rightarrow> db" where
  "with_programs s d = d\<lparr>db_courses := map course_row.truncate (pg_courses s), db_users := pg_users s,
     db_sections := map section_row.truncate (pg_sections s), db_sessions := map session_row.truncate (pg_sessions s),
     db_enrollments := map enrollment_row.truncate (pg_enrollments s)\<rparr>"

definition program_db :: "programs \<Rightarrow> db" where
  "program_db s = with_programs s empty_db"

definition find_program :: "programs \<Rightarrow> string \<Rightarrow> program option" where
  "find_program s i = find (\<lambda>c. co_id c = i) (pg_courses s)"

definition set_program :: "string \<Rightarrow> (program \<Rightarrow> program) \<Rightarrow> programs \<Rightarrow> programs" where
  "set_program i f s = s\<lparr>pg_courses := map (\<lambda>c. if co_id c = i then f c else c) (pg_courses s)\<rparr>"

section \<open>Membership checks\<close>

definition active_member :: "programs \<Rightarrow> string \<Rightarrow> role \<Rightarrow> string \<Rightarrow> bool" where
  "active_member s orgId r u =
     (case find (\<lambda>m. mb_userId m = u \<and> mb_organizationId m = orgId) (pg_members s) of
        None \<Rightarrow> False | Some m \<Rightarrow> mb_status m = ACTIVE \<and> mb_role m = r)"

definition assert_org_instructor :: "programs \<Rightarrow> string \<Rightarrow> string \<Rightarrow> unit result" where
  "assert_org_instructor s orgId instructorId =
     guard_or (active_member s orgId INSTRUCTOR instructorId) (BadRequest ''Instructor not found in your organization'')"

definition assert_org_student :: "programs \<Rightarrow> string \<Rightarrow> string \<Rightarrow> unit result" where
  "assert_org_student s orgId studentId =
     guard_or (active_member s orgId STUDENT studentId) (BadRequest ''Student not found in your organization'')"

text \<open>An instructor who is named is checked; an empty name passes and fails on the foreign key.\<close>

definition check_instructor :: "programs \<Rightarrow> string \<Rightarrow> string option \<Rightarrow> unit result" where
  "check_instructor s orgId instructorId =
     (if given instructorId then assert_org_instructor s orgId (the instructorId)
      else guard_or (instructorId = None) (Internal ''Foreign key constraint failed''))"

section \<open>Codes\<close>

definition upper_char :: "char \<Rightarrow> char" where
  "upper_char c = (if 97 \<le> (of_char c :: nat) \<and> of_char c \<le> (122 :: nat) then char_of (of_char c - (32 :: nat)) else c)"

definition normalize_code :: "string option \<Rightarrow> string option" where
  "normalize_code code = (if given code then Some (map upper_char (trim (the code))) else None)"

definition code_clash :: "programs \<Rightarrow> string option \<Rightarrow> string option \<Rightarrow> string \<Rightarrow> string option \<Rightarrow> program option" where
  "code_clash s orgId parent code except =
     find (\<lambda>c. co_organizationId c = orgId \<and> pm_parentCourseId c = parent \<and> pm_code c = Some code \<and>
       (\<not> given except \<or> Some (co_id c) \<noteq> except)) (pg_courses s)"

definition assert_code_available ::
  "programs \<Rightarrow> string \<Rightarrow> string option \<Rightarrow> string \<Rightarrow> string option \<Rightarrow> unit result"
where
  "assert_code_available s orgId parent code except =
     (case code_clash s (Some orgId) parent code except of
        None \<Rightarrow> Inr ()
      | Some clash \<Rightarrow>
          Inl (BadRequest (if given parent then [CHR 0x22] @ code @ [CHR 0x22] @ '' is already the code for another intake of this program''
            else [CHR 0x22] @ code @ [CHR 0x22] @ '' is already the code for '' @ [CHR 0x22] @ pm_title clash @ [CHR 0x22])))"

definition check_code :: "programs \<Rightarrow> string \<Rightarrow> string option \<Rightarrow> string option \<Rightarrow> string option \<Rightarrow> unit result" where
  "check_code s orgId parent code except =
     (if given code then assert_code_available s orgId parent (the code) except else Inr ())"

text \<open>The unique index on organization, parent and code: a null makes rows distinct.\<close>

definition index_clash :: "programs \<Rightarrow> program \<Rightarrow> bool" where
  "index_clash s c \<longleftrightarrow>
     co_organizationId c \<noteq> None \<and> pm_parentCourseId c \<noteq> None \<and> pm_code c \<noteq> None \<and>
     list_ex (\<lambda>d. co_id d \<noteq> co_id c \<and> co_organizationId d = co_organizationId c \<and> pm_parentCourseId d = pm_parentCourseId c \<and>
       pm_code d = pm_code c) (pg_courses s)"

definition insert_program :: "program \<Rightarrow> programs \<Rightarrow> programs result" where
  "insert_program c s =
     (if index_clash s c \<or> co_id c \<in> co_id ` set (pg_courses s) then Inl (Internal ''Unique constraint failed'')
      else Inr (s\<lparr>pg_courses := pg_courses s @ [c]\<rparr>))"

section \<open>The cadence\<close>

record program_dto =
  pd_title :: "string option option"
  pd_description :: "string option option"
  pd_instructorId :: "string option option"
  pd_code :: "string option option"
  pd_category :: "string option option"
  pd_level :: "string option option"
  pd_startDate :: "string option option"
  pd_durationWeeks :: "int option option"
  pd_meetingDays :: "int list option option"
  pd_meetingTime :: "string option option"
  pd_meetingTimesByDay :: "(rat option \<times> string option) list option option"
  pd_timezone :: "string option option"
  pd_pluginKeys :: "string list option option"

text \<open>\<open>cleanTimesByDay\<close>: of an entry, what \<open>Number\<close> makes of the key and the value if it is a string.\<close>

definition clean_entry :: "(int, string) amap \<Rightarrow> rat option \<times> string option \<Rightarrow> (int, string) amap" where
  "clean_entry clean = (\<lambda>(k, v).
     case (k, v) of
       (Some day, Some time) \<Rightarrow>
         if of_int \<lfloor>day\<rfloor> = day \<and> 0 \<le> day \<and> day \<le> 6 \<and> parse_hhmm time \<noteq> None then aput \<lfloor>day\<rfloor> time clean else clean
     | _ \<Rightarrow> clean)"

definition clean_times_by_day :: "(rat option \<times> string option) list option \<Rightarrow> (int, string) amap option" where
  "clean_times_by_day raw =
     (case raw of
        None \<Rightarrow> None
      | Some entries \<Rightarrow>
          let clean = foldl clean_entry [] entries in if clean = [] then None else Some (sort_key fst clean))"

definition week_days :: "int list \<Rightarrow> int list" where
  "week_days ds = sort (remdups ds)"

definition read_date :: "(string \<Rightarrow> int option) \<Rightarrow> string \<Rightarrow> int result" where
  "read_date parse t = (case parse t of None \<Rightarrow> Inl (Internal ''Invalid value provided'') | Some d \<Rightarrow> Inr d)"

definition cohort_overrides :: "(string \<Rightarrow> int option) \<Rightarrow> program_dto \<Rightarrow> program \<Rightarrow> program result" where
  "cohort_overrides parse dto c =
     rbind (case pd_startDate dto of
         None \<Rightarrow> Inr (pm_startDate c)
       | Some None \<Rightarrow> Inr None
       | Some (Some t) \<Rightarrow> rbind (read_date parse t) (\<lambda>d. Inr (Some d))) (\<lambda>start.
     Inr (c\<lparr>pm_startDate := start,
       pm_meetingDays := (case pd_meetingDays dto of None \<Rightarrow> pm_meetingDays c | Some ds \<Rightarrow> map_option week_days ds),
       pm_meetingTimesByDay := (case pd_meetingTimesByDay dto of None \<Rightarrow> pm_meetingTimesByDay c | Some raw \<Rightarrow> clean_times_by_day raw)\<rparr>))"

definition unless_omitted :: "'a option \<Rightarrow> 'a \<Rightarrow> 'a" where
  "unless_omitted x old = (case x of None \<Rightarrow> old | Some v \<Rightarrow> v)"

text \<open>The fields the database client takes as they are; it refuses null for the title and for JSON.\<close>

definition apply_rest :: "program_dto \<Rightarrow> program \<Rightarrow> program result" where
  "apply_rest dto c =
     rbind (guard_or (pd_title dto \<noteq> Some None \<and> pd_pluginKeys dto \<noteq> Some None) (Internal ''Invalid value provided'')) (\<lambda>_.
     Inr (c\<lparr>pm_title := (case pd_title dto of Some (Some t) \<Rightarrow> t | _ \<Rightarrow> pm_title c),
       pm_description := unless_omitted (pd_description dto) (pm_description c),
       pm_category := unless_omitted (pd_category dto) (pm_category c),
       pm_level := unless_omitted (pd_level dto) (pm_level c),
       pm_durationWeeks := unless_omitted (pd_durationWeeks dto) (pm_durationWeeks c),
       pm_meetingTime := unless_omitted (pd_meetingTime dto) (pm_meetingTime c),
       pm_timezone := unless_omitted (pd_timezone dto) (pm_timezone c),
       co_pluginKeys := unless_omitted (pd_pluginKeys dto) (co_pluginKeys c)\<rparr>))"

section \<open>Creating\<close>

definition blank_program :: "string \<Rightarrow> string \<Rightarrow> string option \<Rightarrow> string option \<Rightarrow> int \<Rightarrow> program" where
  "blank_program i orgId instructorId code now =
     \<lparr>co_id = i, co_instructorId = instructorId, co_organizationId = Some orgId, co_pluginKeys = None,
      pm_parentCourseId = None, pm_title = [], pm_description = None, pm_posterUrl = None, pm_code = code,
      pm_category = None, pm_level = None, pm_startDate = None, pm_durationWeeks = None, pm_meetingDays = None,
      pm_meetingTime = None, pm_meetingTimesByDay = None, pm_timezone = None, pm_scheduleUpdatedAt = None,
      pm_instantClassAssessment = True, pm_createdAt = now\<rparr>"

text \<open>\<open>createCourse\<close> up to its insertion.\<close>

definition new_program ::
  "(string \<Rightarrow> int option) \<Rightarrow> programs \<Rightarrow> jwt_payload \<Rightarrow> program_dto \<Rightarrow> string \<Rightarrow> int \<Rightarrow> program result"
where
  "new_program parse s user dto newId now =
     rbind (own_org user) (\<lambda>orgId.
       let instructorId = Option.bind (pd_instructorId dto) id; normalized = normalize_code (Option.bind (pd_code dto) id) in
       rbind (if given instructorId then assert_org_instructor s orgId (the instructorId) else Inr ()) (\<lambda>_.
       rbind (check_code s orgId None normalized None) (\<lambda>_.
       rbind (check_instructor s orgId instructorId) (\<lambda>_.
       rbind (apply_rest dto (blank_program newId orgId instructorId normalized now)) (cohort_overrides parse dto)))))"

definition create_course ::
  "(string \<Rightarrow> int option) \<Rightarrow> programs \<Rightarrow> jwt_payload \<Rightarrow> program_dto \<Rightarrow> string \<Rightarrow> int \<Rightarrow> programs \<times> program result"
where
  "create_course parse s user dto newId now =
     (case rbind (new_program parse s user dto newId now) (\<lambda>c. rbind (insert_program c s) (\<lambda>t. Inr (t, c))) of
        Inl e \<Rightarrow> (s, Inl e) | Inr (t, c) \<Rightarrow> (t, Inr c))"

section \<open>Batches\<close>

record batch_dto =
  bd_label :: "string option"
  bd_instructorId :: "string option"
  bd_code :: "string option"
  bd_startDate :: "string option option"
  bd_durationWeeks :: "int option"
  bd_meetingDays :: "int list option option"
  bd_meetingTime :: "string option"
  bd_timezone :: "string option"

text \<open>\<open>a ?? b\<close>\<close>

definition or_else :: "'a option \<Rightarrow> 'a option \<Rightarrow> 'a option" where
  "or_else a b = (case a of None \<Rightarrow> b | Some x \<Rightarrow> Some x)"

text \<open>A date of null is \<open>new Date(null)\<close>, the epoch, and days of null are \<open>new Set(null)\<close>, none. The dash is
  U+2014.\<close>

definition batch_of ::
  "(string \<Rightarrow> int option) \<Rightarrow> program \<Rightarrow> batch_dto \<Rightarrow> string \<Rightarrow> string \<Rightarrow> string option \<Rightarrow> int \<Rightarrow> program result"
where
  "batch_of parse p dto newId orgId code now =
     rbind (case bd_startDate dto of
         None \<Rightarrow> Inr (pm_startDate p)
       | Some None \<Rightarrow> Inr (Some 0)
       | Some (Some t) \<Rightarrow> rbind (read_date parse t) (\<lambda>d. Inr (Some d))) (\<lambda>start.
     let label = (case bd_label dto of None \<Rightarrow> [] | Some l \<Rightarrow> trim l) in
     Inr \<lparr>co_id = newId, co_instructorId = or_else (bd_instructorId dto) (co_instructorId p), co_organizationId = Some orgId,
       co_pluginKeys = co_pluginKeys p, pm_parentCourseId = Some (co_id p),
       pm_title = (if label = [] then pm_title p else pm_title p @ '' '' @ [CHR 0xE2, CHR 0x80, CHR 0x94] @ '' '' @ label),
       pm_description = pm_description p, pm_posterUrl = pm_posterUrl p, pm_code = code, pm_category = pm_category p,
       pm_level = pm_level p, pm_startDate = start, pm_durationWeeks = or_else (bd_durationWeeks dto) (pm_durationWeeks p),
       pm_meetingDays = (case bd_meetingDays dto of None \<Rightarrow> pm_meetingDays p | Some None \<Rightarrow> Some [] | Some (Some ds) \<Rightarrow> Some (week_days ds)),
       pm_meetingTime = or_else (bd_meetingTime dto) (pm_meetingTime p), pm_meetingTimesByDay = None,
       pm_timezone = or_else (bd_timezone dto) (pm_timezone p), pm_scheduleUpdatedAt = Some now,
       pm_instantClassAssessment = pm_instantClassAssessment p, pm_createdAt = now\<rparr>)"

text \<open>\<open>copy\<close> is the id generated for the copy of a row.\<close>

definition sections_of :: "programs \<Rightarrow> string \<Rightarrow> syllabus list" where
  "sections_of s courseId = sort_key sy_order (filter (\<lambda>e. se_courseId e = courseId) (pg_sections s))"

definition section_map :: "(string \<Rightarrow> string) \<Rightarrow> programs \<Rightarrow> string \<Rightarrow> string \<Rightarrow> string option" where
  "section_map copy s src i = (if list_ex (\<lambda>e. se_id e = i) (sections_of s src) then Some (copy i) else None)"

definition copied_sections :: "(string \<Rightarrow> string) \<Rightarrow> programs \<Rightarrow> string \<Rightarrow> string \<Rightarrow> syllabus list" where
  "copied_sections copy s src dst = map (\<lambda>e. e\<lparr>se_id := copy (se_id e), se_courseId := dst\<rparr>) (sections_of s src)"

definition copied_questions :: "(string \<Rightarrow> string) \<Rightarrow> programs \<Rightarrow> string \<Rightarrow> string \<Rightarrow> int \<Rightarrow> bank_question list" where
  "copied_questions copy s src dst now =
     concat (map (\<lambda>q. case section_map copy s src (bq_sectionId q) of
         None \<Rightarrow> []
       | Some i \<Rightarrow> [q\<lparr>bq_id := copy (bq_id q), bq_courseId := dst, bq_sectionId := i, bq_createdAt := now\<rparr>])
       (filter (\<lambda>q. bq_courseId q = src \<and> bq_active q) (pg_questions s)))"

definition copied_assignments :: "(string \<Rightarrow> string) \<Rightarrow> programs \<Rightarrow> string \<Rightarrow> string \<Rightarrow> int \<Rightarrow> assignment list" where
  "copied_assignments copy s src dst now =
     map (\<lambda>a. a\<lparr>am_id := copy (am_id a), am_courseId := dst,
         am_sectionId := (if given (am_sectionId a) then section_map copy s src (the (am_sectionId a)) else None),
         am_sessionId := None, am_groupId := None, am_createdAt := now\<rparr>)
       (filter (\<lambda>a. am_courseId a = src) (pg_assignments s))"

definition copied_documents :: "(string \<Rightarrow> string) \<Rightarrow> programs \<Rightarrow> string \<Rightarrow> string \<Rightarrow> course_document list" where
  "copied_documents copy s src dst =
     map (\<lambda>x. x\<lparr>do_id := copy (do_id x), do_courseId := dst\<rparr>) (filter (\<lambda>x. do_courseId x = src) (pg_documents s))"

text \<open>Primary keys: the new rows have ids of their own.\<close>

definition new_keys :: "('a \<Rightarrow> string) \<Rightarrow> 'a list \<Rightarrow> 'a list \<Rightarrow> bool" where
  "new_keys idof new rows \<longleftrightarrow> distinct (map idof new) \<and> set (map idof new) \<inter> set (map idof rows) = {}"

definition snapshot_program_content ::
  "(string \<Rightarrow> string) \<Rightarrow> string \<Rightarrow> string \<Rightarrow> int \<Rightarrow> programs \<Rightarrow> programs result"
where
  "snapshot_program_content copy src dst now s =
     (let es = copied_sections copy s src dst; qs = copied_questions copy s src dst now;
          as = copied_assignments copy s src dst now; ds = copied_documents copy s src dst
      in if new_keys se_id es (pg_sections s) \<and> new_keys bq_id qs (pg_questions s) \<and> new_keys am_id as (pg_assignments s) \<and>
            new_keys do_id ds (pg_documents s)
         then Inr (s\<lparr>pg_sections := pg_sections s @ es, pg_questions := pg_questions s @ qs,
                pg_assignments := pg_assignments s @ as, pg_documents := pg_documents s @ ds\<rparr>)
         else Inl (Internal ''Unique constraint failed''))"

definition create_batch ::
  "(string \<Rightarrow> int option) \<Rightarrow> (string \<Rightarrow> string) \<Rightarrow> programs \<Rightarrow> jwt_payload \<Rightarrow> string \<Rightarrow> batch_dto \<Rightarrow> string \<Rightarrow> int \<Rightarrow>
   programs \<times> program result"
where
  "create_batch parse copy s user programId dto newId now =
     (case rbind (own_org user) (\<lambda>orgId.
            rbind (from_option (NotFound ''Program not found'') (find_program s programId)) (\<lambda>p.
            rbind (guard_or (co_organizationId p = Some orgId) (NotFound ''Program not found'')) (\<lambda>_.
            rbind (guard_or (\<not> given (pm_parentCourseId p))
                 (BadRequest ''Batches can only be created on a program, not on another batch'')) (\<lambda>_.
            rbind (if given (bd_instructorId dto) then assert_org_instructor s orgId (the (bd_instructorId dto)) else Inr ()) (\<lambda>_.
            let code = normalize_code (bd_code dto) in
            rbind (check_code s orgId (Some (co_id p)) code None) (\<lambda>_.
            rbind (batch_of parse p dto newId orgId code now) (\<lambda>b.
            rbind (guard_or (bd_instructorId dto \<noteq> Some []) (Internal ''Foreign key constraint failed'')) (\<lambda>_.
            rbind (insert_program b s) (\<lambda>s1.
            rbind (snapshot_program_content copy (co_id p) newId now s1) (\<lambda>t. Inr (t, b))))))))))) of
        Inl e \<Rightarrow> (s, Inl e) | Inr (t, b) \<Rightarrow> (t, Inr b))"

section \<open>The catalog\<close>

text \<open>The course that is live, and the earliest class scheduled.\<close>

definition class_summary :: "class_session list \<Rightarrow> class_session list \<Rightarrow> string option \<times> int option" where
  "class_summary own batches =
     (let sched = sort_key cs_scheduledAt (filter (\<lambda>x. ls_status x = SCHEDULED) own @ filter (\<lambda>x. ls_status x = SCHEDULED) batches)
      in (map_option ls_id (or_else (find (\<lambda>x. ls_status x = LIVE) own) (find (\<lambda>x. ls_status x = LIVE) batches)),
          case sched of [] \<Rightarrow> None | x # _ \<Rightarrow> Some (cs_scheduledAt x)))"

definition sessions_of :: "programs \<Rightarrow> string \<Rightarrow> class_session list" where
  "sessions_of s courseId =
     filter (\<lambda>x. ls_courseId x = courseId \<and> (ls_status x = LIVE \<or> ls_status x = SCHEDULED)) (pg_sessions s)"

definition batches_of :: "programs \<Rightarrow> string \<Rightarrow> program list" where
  "batches_of s programId = filter (\<lambda>b. pm_parentCourseId b = Some programId) (pg_courses s)"

definition enrollment_count :: "programs \<Rightarrow> string \<Rightarrow> nat" where
  "enrollment_count s courseId = length (filter (\<lambda>r. en_courseId r = courseId) (pg_enrollments s))"

record catalog_entry =
  ct_course :: program
  ct_enrollments :: nat
  ct_sections :: nat
  ct_liveSessionId :: "string option"
  ct_nextSessionAt :: "int option"

definition catalog_where :: "programs \<Rightarrow> jwt_payload \<Rightarrow> program \<Rightarrow> bool" where
  "catalog_where s user c \<longleftrightarrow>
     co_organizationId c = jwt_organizationId user \<and>
     (jwt_role user \<noteq> INSTRUCTOR \<or> co_instructorId c = Some (jwt_sub user) \<or>
      list_ex (\<lambda>b. co_instructorId b = Some (jwt_sub user)) (batches_of s (co_id c)))"

definition list_catalog :: "programs \<Rightarrow> jwt_payload \<Rightarrow> catalog_entry list" where
  "list_catalog s user =
     (if \<not> given (jwt_organizationId user) then []
      else map (\<lambda>c. let batches = batches_of s (co_id c);
             sm = class_summary (sessions_of s (co_id c)) (concat (map (\<lambda>b. sessions_of s (co_id b)) batches))
           in \<lparr>ct_course = c,
               ct_enrollments = enrollment_count s (co_id c) + sum_list (map (\<lambda>b. enrollment_count s (co_id b)) batches),
               ct_sections = length (filter (\<lambda>e. se_courseId e = co_id c) (pg_sections s)),
               ct_liveSessionId = fst sm, ct_nextSessionAt = snd sm\<rparr>)
         (sort_key (\<lambda>c. - pm_createdAt c) (filter (catalog_where s user) (pg_courses s))))"

definition parents :: "programs \<Rightarrow> (string \<times> string) list" where
  "parents s = map (\<lambda>c. (co_id c, the (pm_parentCourseId c))) (filter (\<lambda>c. pm_parentCourseId c \<noteq> None) (pg_courses s))"

definition course_for :: "programs \<Rightarrow> jwt_payload \<Rightarrow> string \<Rightarrow> (program \<times> syllabus list \<times> nat) result" where
  "course_for s user i =
     rbind (get_course_for (program_db s) (parents s) user i) (\<lambda>_.
       rbind (from_option (NotFound ''Course not found'') (find_program s i)) (\<lambda>c.
         Inr (c, sections_of s i, enrollment_count s i)))"

definition list_batches :: "programs \<Rightarrow> jwt_payload \<Rightarrow> string \<Rightarrow> (program \<times> nat \<times> string option \<times> int option) list result" where
  "list_batches s user programId =
     rbind (course_for s user programId) (\<lambda>_.
       Inr (map (\<lambda>b. (b, enrollment_count s (co_id b), class_summary (sessions_of s (co_id b)) []))
         (sort_key pm_createdAt (batches_of s programId))))"

section \<open>Calendar reminders\<close>

definition schedule_of :: "(string \<Rightarrow> zone) \<Rightarrow> program \<Rightarrow> course_schedule" where
  "schedule_of zones c =
     \<lparr>sc_startDate = pm_startDate c, sc_durationWeeks = pm_durationWeeks c,
      sc_meetingDays = map_option (map (\<lambda>d. Some (of_int d))) (pm_meetingDays c), sc_meetingTime = pm_meetingTime c,
      sc_meetingTimesByDay = map_option (map (\<lambda>(d, t). (Some (of_int d), Some t))) (pm_meetingTimesByDay c),
      sc_timezone = (if given (pm_timezone c) then map_option zones (pm_timezone c) else None)\<rparr>"

text \<open>\<open>utf8\<close> reads a text's code points.\<close>

definition get_calendar_ics ::
  "(string \<Rightarrow> zone) \<Rightarrow> (string \<Rightarrow> codepoints) \<Rightarrow> string \<Rightarrow> programs \<Rightarrow> jwt_payload \<Rightarrow> string \<Rightarrow> int \<Rightarrow> codepoints list result"
where
  "get_calendar_ics zones utf8 host s user i now =
     (case find_program s i of
        None \<Rightarrow> Inl (NotFound ''Course not found'')
      | Some c \<Rightarrow>
          if \<not> given (jwt_organizationId user) \<or> co_organizationId c \<noteq> jwt_organizationId user then Inl (NotFound ''Course not found'')
          else from_option (BadRequest ''This class has no schedule yet'')
            (build_course_ics \<lparr>ic_id = co_id c, ic_title = utf8 (pm_title c), ic_schedule = schedule_of zones c,
               ic_timezone = (case pm_timezone c of None \<Rightarrow> [] | Some z \<Rightarrow> z), ic_scheduleUpdatedAt = pm_scheduleUpdatedAt c\<rparr> host now))"

definition mark_reminder_added :: "programs \<Rightarrow> string \<Rightarrow> string \<Rightarrow> int \<Rightarrow> programs \<times> unit result" where
  "mark_reminder_added s userId courseId now =
     (if list_ex (\<lambda>r. en_courseId r = courseId \<and> en_studentId r = userId) (pg_enrollments s)
      then (s\<lparr>pg_enrollments := map (\<lambda>r. if en_courseId r = courseId \<and> en_studentId r = userId
              then r\<lparr>er_reminderAddedAt := Some now\<rparr> else r) (pg_enrollments s)\<rparr>, Inr ())
      else (s, Inl (NotFound ''You are not enrolled in this class'')))"

section \<open>Changing a course\<close>

definition schedule_changed :: "program_dto \<Rightarrow> bool" where
  "schedule_changed dto \<longleftrightarrow> pd_startDate dto \<noteq> None \<or> pd_durationWeeks dto \<noteq> None \<or> pd_meetingDays dto \<noteq> None \<or>
     pd_meetingTime dto \<noteq> None \<or> pd_timezone dto \<noteq> None"

text \<open>The students who set a reminder.\<close>

definition notify_schedule_change :: "string \<Rightarrow> programs \<Rightarrow> programs" where
  "notify_schedule_change courseId s =
     (case find_program s courseId of
        None \<Rightarrow> s
      | Some c \<Rightarrow> s\<lparr>pg_mails := pg_mails s @ map (\<lambda>r. ScheduleChanged (en_studentId r) (pm_title c))
          (filter (\<lambda>r. en_courseId r = courseId \<and> er_reminderAddedAt r \<noteq> None) (pg_enrollments s))\<rparr>)"

definition changed_program ::
  "(string \<Rightarrow> int option) \<Rightarrow> programs \<Rightarrow> jwt_payload \<Rightarrow> string \<Rightarrow> program_dto \<Rightarrow> int \<Rightarrow> program result"
where
  "changed_program parse s user i dto now =
     rbind (assert_can_manage_course (program_db s) user i) (\<lambda>_.
     rbind (from_option (NotFound ''Course not found'') (find_program s i)) (\<lambda>current.
     let normalized = (case pd_code dto of None \<Rightarrow> None | Some code \<Rightarrow> normalize_code code) in
     rbind (if given normalized \<and> given (co_organizationId current)
            then assert_code_available s (the (co_organizationId current)) (pm_parentCourseId current) (the normalized) (Some i)
            else Inr ()) (\<lambda>_.
     rbind (apply_rest dto current) (\<lambda>c.
     rbind (cohort_overrides parse dto c) (\<lambda>c.
     let c = c\<lparr>pm_code := (if pd_code dto = None then pm_code c else normalized),
               pm_scheduleUpdatedAt := (if schedule_changed dto then Some now else pm_scheduleUpdatedAt c)\<rparr>
     in rbind (guard_or (\<not> index_clash s c) (Internal ''Unique constraint failed'')) (\<lambda>_. Inr c))))))"

definition update_course ::
  "(string \<Rightarrow> int option) \<Rightarrow> programs \<Rightarrow> jwt_payload \<Rightarrow> string \<Rightarrow> program_dto \<Rightarrow> int \<Rightarrow> programs \<times> program result"
where
  "update_course parse s user i dto now =
     (case changed_program parse s user i dto now of
        Inl e \<Rightarrow> (s, Inl e)
      | Inr c \<Rightarrow>
          let s1 = set_program i (\<lambda>_. c) s
          in (if schedule_changed dto then notify_schedule_change i s1 else s1, Inr c))"

definition assign_instructor :: "programs \<Rightarrow> jwt_payload \<Rightarrow> string \<Rightarrow> string option \<Rightarrow> programs \<times> unit result" where
  "assign_instructor s user i instructorId =
     (case rbind (own_org user) (\<lambda>orgId.
            rbind (assert_org_course (program_db s) orgId i) (\<lambda>_. check_instructor s orgId instructorId)) of
        Inl e \<Rightarrow> (s, Inl e) | Inr _ \<Rightarrow> (set_program i (\<lambda>c. c\<lparr>co_instructorId := instructorId\<rparr>) s, Inr ()))"

section \<open>Sections\<close>

record section_dto =
  xd_title :: "string option option"
  xd_description :: "string option option"
  xd_order :: "int option option"

definition next_section_order :: "programs \<Rightarrow> string \<Rightarrow> int" where
  "next_section_order s courseId =
     (case sort_key (\<lambda>e. - sy_order e) (filter (\<lambda>e. se_courseId e = courseId) (pg_sections s)) of
        [] \<Rightarrow> 1 | e # _ \<Rightarrow> sy_order e + 1)"

text \<open>The unique index on course and order; the conflict names the course.\<close>

definition order_taken :: "programs \<Rightarrow> string \<Rightarrow> int \<Rightarrow> string \<Rightarrow> bool" where
  "order_taken s courseId ord i \<longleftrightarrow> list_ex (\<lambda>e. se_courseId e = courseId \<and> sy_order e = ord \<and> se_id e \<noteq> i) (pg_sections s)"

definition duplicate_order :: "string \<Rightarrow> http_error" where
  "duplicate_order courseId = Conflict (''A section with that order already exists in course '' @ courseId)"

definition trimmed_text :: "string option \<Rightarrow> string option" where
  "trimmed_text x = (case x of None \<Rightarrow> None | Some t \<Rightarrow> if trim t = [] then None else Some (trim t))"

definition add_section ::
  "programs \<Rightarrow> jwt_payload \<Rightarrow> string \<Rightarrow> section_dto \<Rightarrow> string \<Rightarrow> programs \<times> syllabus result"
where
  "add_section s user courseId dto newId =
     (case rbind (assert_can_manage_course (program_db s) user courseId) (\<lambda>_.
            let ord = (case Option.bind (xd_order dto) id of None \<Rightarrow> next_section_order s courseId | Some n \<Rightarrow> n) in
            rbind (from_option (Internal ''Invalid value provided'') (Option.bind (xd_title dto) id)) (\<lambda>title.
            rbind (guard_or (\<not> order_taken s courseId ord newId \<and> newId \<notin> se_id ` set (pg_sections s)) (duplicate_order courseId)) (\<lambda>_.
              Inr \<lparr>se_id = newId, se_courseId = courseId, sy_order = ord, sy_title = title,
                   sy_description = trimmed_text (Option.bind (xd_description dto) id)\<rparr>))) of
        Inl e \<Rightarrow> (s, Inl e) | Inr e \<Rightarrow> (s\<lparr>pg_sections := pg_sections s @ [e]\<rparr>, Inr e))"

definition update_section ::
  "programs \<Rightarrow> jwt_payload \<Rightarrow> string \<Rightarrow> string \<Rightarrow> section_dto \<Rightarrow> programs \<times> syllabus result"
where
  "update_section s user courseId sectionId dto =
     (case rbind (assert_can_manage_course (program_db s) user courseId) (\<lambda>_.
            rbind (from_option (NotFound ''Section not found'')
                (find (\<lambda>e. se_id e = sectionId \<and> se_courseId e = courseId) (pg_sections s))) (\<lambda>e.
            rbind (guard_or (xd_title dto \<noteq> Some None \<and> xd_order dto \<noteq> Some None) (Internal ''Invalid value provided'')) (\<lambda>_.
            let e' = e\<lparr>sy_title := (case xd_title dto of Some (Some t) \<Rightarrow> t | _ \<Rightarrow> sy_title e),
                       sy_description := unless_omitted (xd_description dto) (sy_description e),
                       sy_order := (case xd_order dto of Some (Some n) \<Rightarrow> n | _ \<Rightarrow> sy_order e)\<rparr>
            in rbind (guard_or (\<not> order_taken s courseId (sy_order e') sectionId) (duplicate_order courseId)) (\<lambda>_. Inr e')))) of
        Inl e \<Rightarrow> (s, Inl e)
      | Inr e' \<Rightarrow> (s\<lparr>pg_sections := map (\<lambda>e. if se_id e = sectionId then e' else e) (pg_sections s)\<rparr>, Inr e'))"

section \<open>Enrolment\<close>

definition insert_enrollment :: "string \<Rightarrow> string \<Rightarrow> int \<Rightarrow> programs \<Rightarrow> programs result" where
  "insert_enrollment courseId studentId now s =
     (if list_ex (\<lambda>r. en_courseId r = courseId \<and> en_studentId r = studentId) (pg_enrollments s)
      then Inl (Conflict ''Already enrolled'')
      else Inr (s\<lparr>pg_enrollments := pg_enrollments s @
             [\<lparr>en_courseId = courseId, en_studentId = studentId, er_reminderAddedAt = None, er_createdAt = now\<rparr>]\<rparr>))"

definition enroll :: "programs \<Rightarrow> jwt_payload \<Rightarrow> string \<Rightarrow> int \<Rightarrow> programs \<times> unit result" where
  "enroll s user courseId now =
     (case rbind (from_option (NotFound ''Course not found'') (find_program s courseId)) (\<lambda>c.
            rbind (guard_or (given (jwt_organizationId user) \<and> co_organizationId c = jwt_organizationId user)
                (Forbidden ''This course is not offered by your organization'')) (\<lambda>_.
              insert_enrollment courseId (jwt_sub user) now s)) of
        Inl e \<Rightarrow> (s, Inl e) | Inr t \<Rightarrow> (t, Inr ()))"

text \<open>A coding submission keeps the workspace of the enrolment, and with it the enrolment: the database
  restricts the delete. The student is put out of every class that runs or is to come.\<close>

definition unenroll :: "programs \<Rightarrow> string \<Rightarrow> string \<Rightarrow> programs \<times> unit result" where
  "unenroll s studentId courseId =
     (if \<not> list_ex (\<lambda>r. en_courseId r = courseId \<and> en_studentId r = studentId) (pg_enrollments s) then (s, Inl (NotFound ''Not enrolled''))
      else if (courseId, studentId) \<in> set (pg_handed_in s) then (s, Inl (Internal ''Foreign key constraint failed''))
      else (s\<lparr>pg_enrollments := filter (\<lambda>r. \<not> (en_courseId r = courseId \<and> en_studentId r = studentId)) (pg_enrollments s),
              pg_evicted := pg_evicted s @ map (\<lambda>x. (ls_id x, studentId)) (sessions_of s courseId)\<rparr>, Inr ()))"

definition notify_enrolled :: "string \<Rightarrow> string \<Rightarrow> programs \<Rightarrow> programs" where
  "notify_enrolled courseId studentId s =
     (case (find_program s courseId, find (\<lambda>u. us_id u = studentId) (pg_users s)) of
        (Some c, Some u) \<Rightarrow> s\<lparr>pg_mails := pg_mails s @ [EnrolledInProgram studentId (pm_title c)]\<rparr>
      | _ \<Rightarrow> s)"

definition enroll_student :: "programs \<Rightarrow> jwt_payload \<Rightarrow> string \<Rightarrow> string \<Rightarrow> int \<Rightarrow> programs \<times> unit result" where
  "enroll_student s user courseId studentId now =
     (case rbind (own_org user) (\<lambda>orgId.
            rbind (assert_org_course (program_db s) orgId courseId) (\<lambda>_.
            rbind (assert_org_student s orgId studentId) (\<lambda>_. insert_enrollment courseId studentId now s))) of
        Inl e \<Rightarrow> (s, Inl e) | Inr t \<Rightarrow> (notify_enrolled courseId studentId t, Inr ()))"

definition remove_student_by_admin :: "programs \<Rightarrow> jwt_payload \<Rightarrow> string \<Rightarrow> string \<Rightarrow> programs \<times> unit result" where
  "remove_student_by_admin s user courseId studentId =
     (case rbind (own_org user) (\<lambda>orgId. assert_org_course (program_db s) orgId courseId) of
        Inl e \<Rightarrow> (s, Inl e) | Inr _ \<Rightarrow> unenroll s studentId courseId)"

definition list_students :: "programs \<Rightarrow> jwt_payload \<Rightarrow> string \<Rightarrow> place list result" where
  "list_students s user courseId =
     rbind (assert_can_manage_course (program_db s) user courseId) (\<lambda>_.
       Inr (sort_key er_createdAt (filter (\<lambda>r. en_courseId r = courseId) (pg_enrollments s))))"

definition taught_by :: "programs \<Rightarrow> string \<Rightarrow> string \<Rightarrow> bool" where
  "taught_by s instructorId courseId =
     (case find_program s courseId of None \<Rightarrow> False | Some c \<Rightarrow> co_instructorId c = Some instructorId)"

definition list_instructor_students :: "programs \<Rightarrow> string \<Rightarrow> place list" where
  "list_instructor_students s instructorId =
     sort_key er_createdAt (filter (\<lambda>r. taught_by s instructorId (en_courseId r)) (pg_enrollments s))"

definition instructor_student_stats ::
  "stats_db \<Rightarrow> programs \<Rightarrow> string \<Rightarrow> string option \<Rightarrow> (user_row \<times> string list \<times> student_stat) list option"
where
  "instructor_student_stats d s instructorId courseId =
     (let courseWhere = (\<lambda>c. taught_by s instructorId c \<and> (\<not> given courseId \<or> Some c = courseId));
          students = filter (\<lambda>u. us_role u = STUDENT \<and>
            list_ex (\<lambda>r. en_studentId r = us_id u \<and> courseWhere (en_courseId r)) (pg_enrollments s)) (pg_users s);
          courses = (\<lambda>u. map en_courseId (filter (\<lambda>r. en_studentId r = us_id u \<and> taught_by s instructorId (en_courseId r))
            (pg_enrollments s)))
      in Option.bind (aggregate_student_stats (d\<lparr>sd_db := with_programs s (sd_db d)\<rparr>) (map (\<lambda>u. (us_id u, courses u)) students) courseWhere)
           (\<lambda>stats. Some (map (\<lambda>u. (u, courses u, the (map_of stats (us_id u)))) students)))"

definition list_enrolled :: "programs \<Rightarrow> string \<Rightarrow> (place \<times> program option \<times> string option \<times> int option) list" where
  "list_enrolled s studentId =
     map (\<lambda>r. (r, find_program s (en_courseId r), class_summary (sessions_of s (en_courseId r)) []))
       (sort_key (\<lambda>r. - er_createdAt r) (filter (\<lambda>r. en_studentId r = studentId) (pg_enrollments s)))"

end
