(* ===== verification/ProgramRuns.thy ===== *)
theory ProgramRuns
  imports Programs
begin

text \<open>
  Runs of the course service. A request that the validation of its body refuses changes nothing. What is kept:
  codes name one course, batches hang one level under a program of their own organization, and the
  cadence that is stored is one the schedule can read.
\<close>

section \<open>Validation of bodies\<close>

definition alnum :: "char \<Rightarrow> bool" where
  "alnum c \<longleftrightarrow> (let n = of_char c :: nat in (48 \<le> n \<and> n \<le> 57) \<or> (65 \<le> n \<and> n \<le> 90) \<or> (97 \<le> n \<and> n \<le> 122))"

definition code_ok :: "string \<Rightarrow> bool" where
  "code_ok k \<longleftrightarrow> 2 \<le> length k \<and> length k \<le> 16 \<and> list_all alnum k"

definition weeks_ok :: "int \<Rightarrow> bool" where
  "weeks_ok n \<longleftrightarrow> 1 \<le> n \<and> n \<le> 52"

definition days_ok :: "int list \<Rightarrow> bool" where
  "days_ok ds \<longleftrightarrow> length ds \<le> 7 \<and> list_all (\<lambda>d. 0 \<le> d \<and> d \<le> 6) ds"

definition levels :: "string list" where
  "levels = [''Beginner'', ''Intermediate'', ''Advanced'']"

text \<open>A field that is omitted or null is not checked.\<close>

definition checked :: "('a \<Rightarrow> bool) \<Rightarrow> 'a option option \<Rightarrow> bool" where
  "checked P x = (case x of Some (Some v) \<Rightarrow> P v | _ \<Rightarrow> True)"

definition optional :: "('a \<Rightarrow> bool) \<Rightarrow> 'a option \<Rightarrow> bool" where
  "optional P x = (case x of None \<Rightarrow> True | Some v \<Rightarrow> P v)"

text \<open>The parts of a date that \<open>IsISO8601\<close> accepts are left to the reader of dates.\<close>

definition program_dto_ok :: "program_dto \<Rightarrow> bool" where
  "program_dto_ok dto \<longleftrightarrow>
     checked (\<lambda>t. 2 \<le> length t \<and> length t \<le> 200) (pd_title dto) \<and> checked (\<lambda>t. length t \<le> 5000) (pd_description dto) \<and>
     checked code_ok (pd_code dto) \<and> checked (\<lambda>t. length t \<le> 60) (pd_category dto) \<and> checked (\<lambda>l. l \<in> set levels) (pd_level dto) \<and>
     checked weeks_ok (pd_durationWeeks dto) \<and> checked days_ok (pd_meetingDays dto) \<and>
     checked (\<lambda>t. parse_hhmm t \<noteq> None) (pd_meetingTime dto) \<and> checked (\<lambda>t. length t \<le> 64) (pd_timezone dto)"

definition batch_dto_ok :: "batch_dto \<Rightarrow> bool" where
  "batch_dto_ok dto \<longleftrightarrow>
     optional (\<lambda>l. length l \<le> 60) (bd_label dto) \<and> optional code_ok (bd_code dto) \<and> optional weeks_ok (bd_durationWeeks dto) \<and>
     checked days_ok (bd_meetingDays dto) \<and> optional (\<lambda>t. parse_hhmm t \<noteq> None) (bd_meetingTime dto) \<and>
     optional (\<lambda>t. length t \<le> 64) (bd_timezone dto)"

definition section_dto_ok :: "section_dto \<Rightarrow> bool" where
  "section_dto_ok dto \<longleftrightarrow>
     checked (\<lambda>t. 2 \<le> length t \<and> length t \<le> 200) (xd_title dto) \<and> checked (\<lambda>t. length t \<le> 1000) (xd_description dto) \<and>
     checked (\<lambda>n. 1 \<le> n) (xd_order dto)"

section \<open>Steps\<close>

datatype program_op =
    CreateCourse jwt_payload program_dto string int
  | CreateBatch jwt_payload string batch_dto string "string \<Rightarrow> string" int
  | UpdateCourse jwt_payload string program_dto int
  | AssignInstructor jwt_payload string "string option"
  | AddSection jwt_payload string section_dto string
  | UpdateSection jwt_payload string string section_dto
  | Enroll jwt_payload string int
  | Unenroll string string
  | EnrollStudent jwt_payload string string int
  | RemoveStudent jwt_payload string string
  | MarkReminder string string int

fun program_op_ok :: "program_op \<Rightarrow> bool" where
  "program_op_ok (CreateCourse _ dto i _) = (program_dto_ok dto \<and> i \<noteq> [])"
| "program_op_ok (CreateBatch _ _ dto i _ _) = (batch_dto_ok dto \<and> i \<noteq> [])"
| "program_op_ok (UpdateCourse _ _ dto _) = program_dto_ok dto"
| "program_op_ok (AddSection _ _ dto _) = section_dto_ok dto"
| "program_op_ok (UpdateSection _ _ _ dto) = section_dto_ok dto"
| "program_op_ok _ = True"

fun program_act :: "(string \<Rightarrow> int option) \<Rightarrow> programs \<Rightarrow> program_op \<Rightarrow> programs" where
  "program_act parse s (CreateCourse user dto i n) = fst (create_course parse s user dto i n)"
| "program_act parse s (CreateBatch user p dto i copy n) = fst (create_batch parse copy s user p dto i n)"
| "program_act parse s (UpdateCourse user i dto n) = fst (update_course parse s user i dto n)"
| "program_act parse s (AssignInstructor user i t) = fst (assign_instructor s user i t)"
| "program_act parse s (AddSection user c dto i) = fst (add_section s user c dto i)"
| "program_act parse s (UpdateSection user c i dto) = fst (update_section s user c i dto)"
| "program_act parse s (Enroll user c n) = fst (enroll s user c n)"
| "program_act parse s (Unenroll u c) = fst (unenroll s u c)"
| "program_act parse s (EnrollStudent user c u n) = fst (enroll_student s user c u n)"
| "program_act parse s (RemoveStudent user c u) = fst (remove_student_by_admin s user c u)"
| "program_act parse s (MarkReminder u c n) = fst (mark_reminder_added s u c n)"

definition program_step :: "(string \<Rightarrow> int option) \<Rightarrow> programs \<Rightarrow> program_op \<Rightarrow> programs" where
  "program_step parse s op = (if program_op_ok op then program_act parse s op else s)"

section \<open>What is kept\<close>

definition cadence_ok :: "program \<Rightarrow> bool" where
  "cadence_ok c \<longleftrightarrow>
     optional weeks_ok (pm_durationWeeks c) \<and> optional (\<lambda>t. parse_hhmm t \<noteq> None) (pm_meetingTime c) \<and>
     optional (\<lambda>ds. sorted ds \<and> distinct ds \<and> set ds \<subseteq> {0..6}) (pm_meetingDays c) \<and>
     optional (\<lambda>ts. ts \<noteq> [] \<and> sorted (akeys ts) \<and> distinct (akeys ts) \<and> (\<forall>(d, t) \<in> set ts. d \<in> {0..6} \<and> parse_hhmm t \<noteq> None))
       (pm_meetingTimesByDay c)"

definition stored_code_ok :: "program \<Rightarrow> bool" where
  "stored_code_ok c \<longleftrightarrow> optional (\<lambda>k. k \<noteq> [] \<and> map upper_char k = k) (pm_code c)"

definition program_ok :: "program \<Rightarrow> bool" where
  "program_ok c \<longleftrightarrow> co_id c \<noteq> [] \<and> given (co_organizationId c) \<and> cadence_ok c \<and> stored_code_ok c"

definition codes_ok :: "programs \<Rightarrow> bool" where
  "codes_ok s \<longleftrightarrow> (\<forall>c \<in> set (pg_courses s). \<forall>d \<in> set (pg_courses s).
     co_organizationId c = co_organizationId d \<longrightarrow> pm_parentCourseId c = pm_parentCourseId d \<longrightarrow> pm_code c = pm_code d \<longrightarrow>
     pm_code c \<noteq> None \<longrightarrow> c = d)"

definition parents_ok :: "programs \<Rightarrow> bool" where
  "parents_ok s \<longleftrightarrow> (\<forall>c \<in> set (pg_courses s). \<forall>p. pm_parentCourseId c = Some p \<longrightarrow>
     (\<exists>q \<in> set (pg_courses s). co_id q = p \<and> pm_parentCourseId q = None \<and> co_organizationId q = co_organizationId c))"

definition programs_ok :: "programs \<Rightarrow> bool" where
  "programs_ok s \<longleftrightarrow>
     distinct (map co_id (pg_courses s)) \<and> codes_ok s \<and> parents_ok s \<and> (\<forall>c \<in> set (pg_courses s). program_ok c)"

section \<open>Cadence\<close>

lemma optional_simps [simp]: "optional P None" "optional P (Some v) = P v"
  by (simp_all add: optional_def)

lemma checked_simps [simp]: "checked P None" "checked P (Some None)" "checked P (Some (Some v)) = P v"
  by (simp_all add: checked_def)

lemma checked_omitted: "checked P x \<Longrightarrow> optional P old \<Longrightarrow> optional P (unless_omitted x old)"
  by (cases x; cases "the x") (simp_all add: unless_omitted_def)

lemma optional_or_else: "optional P x \<Longrightarrow> optional P y \<Longrightarrow> optional P (or_else x y)"
  by (cases x) (simp_all add: or_else_def)

lemma week_days_ok: "days_ok ds \<Longrightarrow> sorted (week_days ds) \<and> distinct (week_days ds) \<and> set (week_days ds) \<subseteq> {0..6}"
  by (auto simp: week_days_def days_ok_def list_all_iff)

lemma clean_entries:
  "distinct (akeys m) \<Longrightarrow> \<forall>(d, t) \<in> set m. d \<in> {0..6} \<and> parse_hhmm t \<noteq> None \<Longrightarrow> m' = foldl clean_entry m es \<Longrightarrow>
   distinct (akeys m') \<and> (\<forall>(d, t) \<in> set m'. d \<in> {0..6} \<and> parse_hhmm t \<noteq> None)"
proof (induction es arbitrary: m)
  case (Cons e es)
  have "distinct (akeys (clean_entry m e)) \<and> (\<forall>(d, t) \<in> set (clean_entry m e). d \<in> {0..6} \<and> parse_hhmm t \<noteq> None)"
    using Cons.prems(1,2) by (auto simp: clean_entry_def aput_distinct aput_set split: prod.splits option.splits)
  then show ?case using Cons.IH [of "clean_entry m e"] Cons.prems(3) by simp
qed simp

lemma clean_times_ok:
  "optional (\<lambda>ts. ts \<noteq> [] \<and> sorted (akeys ts) \<and> distinct (akeys ts) \<and> (\<forall>(d, t) \<in> set ts. d \<in> {0..6} \<and> parse_hhmm t \<noteq> None))
     (clean_times_by_day raw)"
proof (cases raw)
  case (Some es)
  let ?m = "foldl clean_entry [] es"
  have m: "distinct (akeys ?m)" "\<forall>(d, t) \<in> set ?m. d \<in> {0..6} \<and> parse_hhmm t \<noteq> None" using clean_entries [of "[]" ?m es] by simp_all
  have "distinct (akeys (sort_key fst ?m))" using m(1) by (simp add: distinct_map)
  moreover have "sort_key fst ?m = [] \<longleftrightarrow> ?m = []" by (metis set_empty set_sort)
  ultimately show ?thesis using m(2) by (auto simp: clean_times_by_day_def Some Let_def)
qed (simp add: clean_times_by_day_def)

lemma overrides_ok:
  assumes "cohort_overrides parse dto c = Inr d" and "checked days_ok (pd_meetingDays dto)" and "cadence_ok c"
  shows "cadence_ok d"
proof -
  obtain st where d: "d = c\<lparr>pm_startDate := st,
       pm_meetingDays := (case pd_meetingDays dto of None \<Rightarrow> pm_meetingDays c | Some ds \<Rightarrow> map_option week_days ds),
       pm_meetingTimesByDay := (case pd_meetingTimesByDay dto of None \<Rightarrow> pm_meetingTimesByDay c | Some raw \<Rightarrow> clean_times_by_day raw)\<rparr>"
    using assms(1) by (auto simp: cohort_overrides_def res)
  have "optional (\<lambda>ds. sorted ds \<and> distinct ds \<and> set ds \<subseteq> {0..6}) (pm_meetingDays d)"
    using assms(2,3) week_days_ok by (auto simp: d cadence_ok_def checked_def optional_def split: option.splits)
  moreover have "optional (\<lambda>ts. ts \<noteq> [] \<and> sorted (akeys ts) \<and> distinct (akeys ts) \<and>
      (\<forall>(d, t) \<in> set ts. d \<in> {0..6} \<and> parse_hhmm t \<noteq> None)) (pm_meetingTimesByDay d)"
    using assms(3) clean_times_ok by (simp add: d cadence_ok_def split: option.split)
  ultimately show ?thesis using assms(3) by (simp add: d cadence_ok_def)
qed

lemma rest_ok: "apply_rest dto c = Inr d \<Longrightarrow> program_dto_ok dto \<Longrightarrow> cadence_ok c \<Longrightarrow> cadence_ok d"
  by (auto simp: apply_rest_def res cadence_ok_def program_dto_ok_def intro: checked_omitted)

lemma overrides_same:
  "cohort_overrides parse dto c = Inr d \<Longrightarrow> co_id d = co_id c \<and> co_organizationId d = co_organizationId c \<and> co_instructorId d = co_instructorId c \<and>
     pm_parentCourseId d = pm_parentCourseId c \<and> pm_code d = pm_code c"
  by (auto simp: cohort_overrides_def res)

lemma rest_same:
  "apply_rest dto c = Inr d \<Longrightarrow> co_id d = co_id c \<and> co_organizationId d = co_organizationId c \<and> co_instructorId d = co_instructorId c \<and>
     pm_parentCourseId d = pm_parentCourseId c \<and> pm_code d = pm_code c"
  by (auto simp: apply_rest_def res)

section \<open>Codes\<close>

lemma upper_twice: "upper_char (upper_char c) = upper_char c"
proof (cases "97 \<le> (of_char c :: nat) \<and> of_char c \<le> (122 :: nat)")
  case True
  then have "(of_char c - (32 :: nat)) mod 256 = of_char c - 32" by (intro mod_less) linarith
  moreover have "of_char c - (32 :: nat) \<le> 90" using True by linarith
  ultimately show ?thesis using True by (simp add: upper_char_def)
qed (auto simp: upper_char_def)

lemma alnum_no_space: "alnum c \<Longrightarrow> \<not> js_space c"
  by (auto simp: alnum_def js_space_def Let_def)

lemma trim_alnum: "list_all alnum k \<Longrightarrow> trim k = k"
proof -
  assume a: "list_all alnum k"
  then have "dropWhile js_space k = k" using alnum_no_space by (cases k) auto
  moreover have "dropWhile js_space (rev k) = rev k"
    using a alnum_no_space by (cases "rev k") (auto simp: list_all_iff dest: arg_cong [of _ _ set])
  ultimately show ?thesis by (simp add: trim_def)
qed

lemma normalized:
  "optional code_ok code \<Longrightarrow> normalize_code code = k \<Longrightarrow> k = None \<or> (given k \<and> map upper_char (the k) = the k)"
  by (cases code) (auto simp: normalize_code_def given_def code_ok_def trim_alnum upper_twice comp_def split: if_splits)

lemma find_programD: "find_program s i = Some c \<Longrightarrow> c \<in> set (pg_courses s) \<and> co_id c = i"
  by (auto simp: find_program_def find_Some_iff)

lemma same_program_row:
  "programs_ok s \<Longrightarrow> c \<in> set (pg_courses s) \<Longrightarrow> d \<in> set (pg_courses s) \<Longrightarrow> co_id c = co_id d \<Longrightarrow> c = d"
  by (auto simp: programs_ok_def distinct_map dest: inj_onD)

text \<open>What the check of a code leaves to say of the other courses.\<close>

definition code_free :: "programs \<Rightarrow> program \<Rightarrow> bool" where
  "code_free s c \<longleftrightarrow> pm_code c = None \<or> (\<forall>d \<in> set (pg_courses s). co_id d \<noteq> co_id c \<longrightarrow>
     \<not> (co_organizationId d = co_organizationId c \<and> pm_parentCourseId d = pm_parentCourseId c \<and> pm_code d = pm_code c))"

lemma code_availableD:
  "assert_code_available s orgId parent code except = Inr () \<Longrightarrow> d \<in> set (pg_courses s) \<Longrightarrow> \<not> given except \<or> Some (co_id d) \<noteq> except \<Longrightarrow>
   \<not> (co_organizationId d = Some orgId \<and> pm_parentCourseId d = parent \<and> pm_code d = Some code)"
  by (force simp: assert_code_available_def code_clash_def find_None_iff split: option.splits)

lemma insert_ok:
  assumes "programs_ok s" and "insert_program c s = Inr t" and "program_ok c" and "code_free s c"
    and "\<And>p. pm_parentCourseId c = Some p \<Longrightarrow>
      \<exists>q \<in> set (pg_courses s). co_id q = p \<and> pm_parentCourseId q = None \<and> co_organizationId q = co_organizationId c"
  shows "programs_ok t"
proof -
  have t: "pg_courses t = pg_courses s @ [c]" "co_id c \<notin> co_id ` set (pg_courses s)"
    using assms(2) by (auto simp: insert_program_def split: if_splits)
  have "codes_ok t" using assms(1,4) t unfolding programs_ok_def codes_ok_def code_free_def by (auto simp: image_iff)
  moreover have "parents_ok t" using assms(1,5) unfolding programs_ok_def parents_ok_def t(1) by fastforce
  ultimately show ?thesis using assms(1,3) t by (auto simp: programs_ok_def)
qed

lemma change_ok:
  assumes "programs_ok s" and "find_program s i = Some c" and "program_ok d" and "code_free s d"
    and "co_id d = co_id c" and "co_organizationId d = co_organizationId c" and "pm_parentCourseId d = pm_parentCourseId c"
  shows "programs_ok (set_program i (\<lambda>_. d) s)"
proof -
  let ?f = "\<lambda>x. if co_id x = i then d else x"
  note c = find_programD [OF assms(2)]
  have f: "co_id (?f x) = co_id x \<and> co_organizationId (?f x) = co_organizationId x \<and> pm_parentCourseId (?f x) = pm_parentCourseId x"
    if "x \<in> set (pg_courses s)" for x
    using same_program_row [OF assms(1) that, of c] c assms(5-7) by auto
  have ids: "map (co_id \<circ> ?f) (pg_courses s) = map co_id (pg_courses s)" using f by (intro map_cong) simp_all
  have "codes_ok (set_program i (\<lambda>_. d) s)"
  proof -
    have "?f x = ?f y" if x: "x \<in> set (pg_courses s)" and y: "y \<in> set (pg_courses s)"
      and e: "co_organizationId (?f x) = co_organizationId (?f y)" "pm_parentCourseId (?f x) = pm_parentCourseId (?f y)"
        "pm_code (?f x) = pm_code (?f y)" "pm_code (?f x) \<noteq> None" for x y
    proof (cases "co_id x = i \<or> co_id y = i")
      case True
      then show ?thesis using assms(4,5) e x y c unfolding code_free_def by (cases "co_id x = i"; cases "co_id y = i") auto
    next
      case False
      then show ?thesis using e x y assms(1) by (simp add: programs_ok_def codes_ok_def)
    qed
    then show ?thesis unfolding codes_ok_def set_program_def by (simp del: if_image_distrib)
  qed
  moreover have "parents_ok (set_program i (\<lambda>_. d) s)"
  proof -
    have "\<exists>q \<in> set (pg_courses s). co_id (?f q) = p \<and> pm_parentCourseId (?f q) = None \<and> co_organizationId (?f q) = co_organizationId (?f x)"
      if x: "x \<in> set (pg_courses s)" "pm_parentCourseId (?f x) = Some p" for x p
    proof -
      obtain q where "q \<in> set (pg_courses s)" "co_id q = p" "pm_parentCourseId q = None" "co_organizationId q = co_organizationId x"
        using assms(1) x f [OF x(1)] unfolding programs_ok_def parents_ok_def by metis
      then show ?thesis using f [of q] f [OF x(1)] by metis
    qed
    then show ?thesis unfolding parents_ok_def set_program_def by (simp del: if_image_distrib)
  qed
  moreover have "distinct (map co_id (pg_courses (set_program i (\<lambda>_. d) s)))"
    using ids assms(1) by (simp add: set_program_def programs_ok_def del: map_eq_conv)
  moreover have "\<forall>x \<in> set (pg_courses (set_program i (\<lambda>_. d) s)). program_ok x"
    using assms(1,3) by (auto simp: set_program_def programs_ok_def)
  ultimately show ?thesis unfolding programs_ok_def by blast
qed

lemma same_courses_ok: "pg_courses t = pg_courses s \<Longrightarrow> programs_ok t = programs_ok s"
  by (simp add: programs_ok_def codes_ok_def parents_ok_def)

section \<open>Every operation\<close>

lemma own_org_given: "own_org user = Inr i \<Longrightarrow> given (Some i)"
  by (auto simp: own_org_def given_def split: if_splits)

lemma code_free_None:
  assumes "check_code s orgId parent code None = Inr ()" and "code = None \<or> given code" and "co_organizationId c = Some orgId"
    and "pm_parentCourseId c = parent" and "pm_code c = code"
  shows "code_free s c"
  using code_availableD [of s orgId parent "the code" None] assms
  by (cases code) (auto simp: code_free_def check_code_def given_def)

lemma new_program_ok:
  assumes n: "new_program parse s user dto i now = Inr c" and "program_dto_ok dto" and "i \<noteq> []"
  shows "program_ok c \<and> code_free s c \<and> pm_parentCourseId c = None"
proof -
  define code where "code = normalize_code (Option.bind (pd_code dto) id)"
  obtain orgId instr c1 u where o1: "own_org user = Inr orgId" and k: "check_code s orgId None code None = Inr u"
    and c1: "apply_rest dto (blank_program i orgId instr code now) = Inr c1" and c2: "cohort_overrides parse dto c1 = Inr c"
    using n unfolding new_program_def Let_def rbind_Inr_iff code_def by blast
  have "optional code_ok (Option.bind (pd_code dto) id)"
    using assms(2) unfolding program_dto_ok_def checked_def by (cases "pd_code dto") (auto simp: optional_def split: option.splits)
  then have code: "code = None \<or> (given code \<and> map upper_char (the code) = the code)" using normalized [OF _ code_def [symmetric]] by simp
  have e: "co_id c = i" "co_organizationId c = Some orgId" "pm_parentCourseId c = None" "pm_code c = code"
    using overrides_same [OF c2] rest_same [OF c1] by (simp_all add: blank_program_def)
  have "cadence_ok (blank_program i orgId instr code now)" by (simp add: cadence_ok_def blank_program_def)
  then have "cadence_ok c" using overrides_ok [OF c2] rest_ok [OF c1 assms(2)] assms(2) by (simp add: program_dto_ok_def)
  moreover have "stored_code_ok c" using code by (auto simp: stored_code_ok_def e(4) given_def)
  ultimately have "program_ok c" using own_org_given [OF o1] assms(3) e by (simp add: program_ok_def)
  then show ?thesis using code_free_None [OF k [simplified] _ e(2,3,4)] code e(3) by blast
qed

lemma create_ok:
  assumes "programs_ok s" and "program_dto_ok dto" and "i \<noteq> []"
  shows "programs_ok (fst (create_course parse s user dto i now))"
proof (cases "rbind (new_program parse s user dto i now) (\<lambda>c. rbind (insert_program c s) (\<lambda>t. Inr (t, c)))")
  case (Inr r)
  then obtain c t where c: "new_program parse s user dto i now = Inr c" "insert_program c s = Inr t" "r = (t, c)" by (auto simp: res)
  note n = new_program_ok [OF c(1) assms(2,3)]
  have "programs_ok t" using n by (intro insert_ok [OF assms(1) c(2)]) simp_all
  then show ?thesis by (simp add: create_course_def Inr c(3))
qed (use assms in \<open>simp add: create_course_def\<close>)

lemma batch_of_ok:
  assumes "batch_of parse p dto i orgId code now = Inr b" and "batch_dto_ok dto" and "cadence_ok p"
  shows "cadence_ok b \<and> co_id b = i \<and> co_organizationId b = Some orgId \<and> pm_parentCourseId b = Some (co_id p) \<and> pm_code b = code"
proof -
  have "optional (\<lambda>ds. sorted ds \<and> distinct ds \<and> set ds \<subseteq> {0..6})
      (case bd_meetingDays dto of None \<Rightarrow> pm_meetingDays p | Some None \<Rightarrow> Some [] | Some (Some ds) \<Rightarrow> Some (week_days ds))"
    using assms(2,3) week_days_ok [of "the (the (bd_meetingDays dto))"]
    by (cases "bd_meetingDays dto"; cases "the (bd_meetingDays dto)") (simp_all add: cadence_ok_def batch_dto_ok_def)
  then show ?thesis using assms
    by (auto simp: batch_of_def res Let_def cadence_ok_def batch_dto_ok_def intro: optional_or_else)
qed

lemma create_batchD:
  assumes "create_batch parse copy s user programId dto i now = (t, Inr b)"
  obtains orgId p s1 where "own_org user = Inr orgId" and "find_program s programId = Some p" and "co_organizationId p = Some orgId"
    and "\<not> given (pm_parentCourseId p)" and "check_code s orgId (Some (co_id p)) (normalize_code (bd_code dto)) None = Inr ()"
    and "batch_of parse p dto i orgId (normalize_code (bd_code dto)) now = Inr b" and "insert_program b s = Inr s1"
    and "snapshot_program_content copy (co_id p) i now s1 = Inr t"
  using assms by (auto simp: create_batch_def res Let_def split: sum.splits)

lemma create_batch_refused: "create_batch parse copy s user programId dto i now = (t, Inl e) \<Longrightarrow> t = s"
  by (simp add: create_batch_def split: sum.splits prod.splits)

lemma snapshot_courses: "snapshot_program_content copy a b now s = Inr t \<Longrightarrow> pg_courses t = pg_courses s"
  by (auto simp: snapshot_program_content_def Let_def split: if_splits)

lemma batch_ok:
  assumes "programs_ok s" and "batch_dto_ok dto" and "i \<noteq> []"
  shows "programs_ok (fst (create_batch parse copy s user programId dto i now))"
proof (cases "create_batch parse copy s user programId dto i now")
  case (Pair t r)
  show ?thesis
  proof (cases r)
    case (Inr b)
    obtain orgId p s1 where u: "own_org user = Inr orgId" "find_program s programId = Some p" "co_organizationId p = Some orgId"
      "\<not> given (pm_parentCourseId p)" "check_code s orgId (Some (co_id p)) (normalize_code (bd_code dto)) None = Inr ()"
      and b: "batch_of parse p dto i orgId (normalize_code (bd_code dto)) now = Inr b" and s1: "insert_program b s = Inr s1"
      and t: "snapshot_program_content copy (co_id p) i now s1 = Inr t" using create_batchD [OF Pair [unfolded Inr]] .
    note p = find_programD [OF u(2)]
    have pok: "program_ok p" using assms(1) p by (simp add: programs_ok_def)
    note bo = batch_of_ok [OF b assms(2)]
    have code: "normalize_code (bd_code dto) = None \<or>
        (given (normalize_code (bd_code dto)) \<and> map upper_char (the (normalize_code (bd_code dto))) = the (normalize_code (bd_code dto)))"
      using normalized [of "bd_code dto"] assms(2) by (simp add: batch_dto_ok_def)
    have "stored_code_ok b" using code bo pok by (auto simp: stored_code_ok_def given_def program_ok_def)
    then have "program_ok b" using bo pok own_org_given [OF u(1)] assms(3) by (simp add: program_ok_def)
    moreover have "code_free s b" using code bo pok by (intro code_free_None [OF u(5)]) (auto simp: program_ok_def)
    moreover have "pm_parentCourseId p = None"
    proof (rule ccontr)
      assume "pm_parentCourseId p \<noteq> None"
      then obtain q where "pm_parentCourseId p = Some (co_id q)" "q \<in> set (pg_courses s)"
        using assms(1) p unfolding programs_ok_def parents_ok_def by blast
      then show False using u(4) assms(1) by (auto simp: given_def programs_ok_def program_ok_def)
    qed
    ultimately have "programs_ok s1" using p bo pok u(3) by (intro insert_ok [OF assms(1) s1]) (auto simp: program_ok_def)
    then show ?thesis using same_courses_ok [OF snapshot_courses [OF t]] Pair by simp
  qed (use assms(1) create_batch_refused [of parse copy s user programId dto i now t] Pair in auto)
qed

lemma changed_programD:
  assumes "changed_program parse s user i dto now = Inr c"
  obtains p c1 c2 where "find_program s i = Some p" and "apply_rest dto p = Inr c1" and "cohort_overrides parse dto c1 = Inr c2"
    and "given (case pd_code dto of None \<Rightarrow> None | Some code \<Rightarrow> normalize_code code) \<longrightarrow> given (co_organizationId p) \<longrightarrow>
      assert_code_available s (the (co_organizationId p)) (pm_parentCourseId p)
        (the (case pd_code dto of None \<Rightarrow> None | Some code \<Rightarrow> normalize_code code)) (Some i) = Inr ()"
    and "c = c2\<lparr>pm_code := (if pd_code dto = None then pm_code c2 else (case pd_code dto of None \<Rightarrow> None | Some code \<Rightarrow> normalize_code code)),
      pm_scheduleUpdatedAt := (if schedule_changed dto then Some now else pm_scheduleUpdatedAt c2)\<rparr>"
proof -
  note x = assms [unfolded changed_program_def Let_def rbind_Inr_iff from_option_Inr_iff guard_or_Inr_iff]
  then show ?thesis using that by (elim exE conjE) (simp split: if_splits)
qed

lemma changed_ok:
  assumes ok: "programs_ok s" and c: "changed_program parse s user i dto now = Inr c" and v: "program_dto_ok dto"
  shows "programs_ok (set_program i (\<lambda>_. c) s)"
proof -
  define code where "code = (case pd_code dto of None \<Rightarrow> None | Some code \<Rightarrow> normalize_code code)"
  obtain p c1 c2 where p: "find_program s i = Some p" and c1: "apply_rest dto p = Inr c1" and c2: "cohort_overrides parse dto c1 = Inr c2"
    and a: "given code \<longrightarrow> given (co_organizationId p) \<longrightarrow>
      assert_code_available s (the (co_organizationId p)) (pm_parentCourseId p) (the code) (Some i) = Inr ()"
    and ce: "c = c2\<lparr>pm_code := (if pd_code dto = None then pm_code c2 else code),
      pm_scheduleUpdatedAt := (if schedule_changed dto then Some now else pm_scheduleUpdatedAt c2)\<rparr>"
    using changed_programD [OF c] unfolding code_def by blast
  note pd = find_programD [OF p]
  have pok: "program_ok p" using ok pd by (simp add: programs_ok_def)
  have e: "co_id c = co_id p" "co_organizationId c = co_organizationId p" "pm_parentCourseId c = pm_parentCourseId p"
    "pm_code c = (if pd_code dto = None then pm_code p else code)"
    using overrides_same [OF c2] rest_same [OF c1] by (simp_all add: ce)
  have "cadence_ok c2" using overrides_ok [OF c2] rest_ok [OF c1 v] pok v by (simp add: program_dto_ok_def program_ok_def)
  then have cad: "cadence_ok c" by (simp add: ce cadence_ok_def)
  have n: "code = None \<or> (given code \<and> map upper_char (the code) = the code)" if "pd_code dto = Some k" for k
    using normalized [of k code] v that by (cases k) (simp_all add: code_def program_dto_ok_def)
  have "stored_code_ok c"
    using pok n by (cases "pd_code dto") (auto simp: stored_code_ok_def program_ok_def e(4) given_def)
  then have "program_ok c" using cad pok e by (simp add: program_ok_def)
  moreover have "code_free s c"
  proof (cases "pd_code dto")
    case None
    then show ?thesis using ok pd e unfolding code_free_def programs_ok_def codes_ok_def by auto
  next
    case (Some k)
    have "given (Some i)" "given (co_organizationId p)" using pok pd by (auto simp: program_ok_def given_def)
    then show ?thesis using code_availableD [of s "the (co_organizationId p)" "pm_parentCourseId p" "the code" "Some i"] a n [OF Some] pd
      unfolding code_free_def e by (auto simp: Some given_def)
  qed
  ultimately show ?thesis using change_ok [OF ok p] e(1-3) by blast
qed

lemma notify_courses: "pg_courses (notify_schedule_change i s) = pg_courses s"
  by (simp add: notify_schedule_change_def split: option.split)

lemma update_ok:
  assumes "programs_ok s" and "program_dto_ok dto"
  shows "programs_ok (fst (update_course parse s user i dto now))"
proof (cases "changed_program parse s user i dto now")
  case (Inr c)
  then show ?thesis using changed_ok [OF assms(1) Inr assms(2)] same_courses_ok [OF notify_courses]
    by (simp add: update_course_def Let_def)
qed (simp add: update_course_def assms(1))

lemma assign_ok:
  assumes "programs_ok s"
  shows "programs_ok (fst (assign_instructor s user i t))"
proof -
  have "programs_ok (set_program i (\<lambda>c. c\<lparr>co_instructorId := t\<rparr>) s)"
  proof (cases "find_program s i")
    case None
    then have "map (\<lambda>c. if co_id c = i then c\<lparr>co_instructorId := t\<rparr> else c) (pg_courses s) = pg_courses s"
      by (intro map_idI) (auto simp: find_program_def find_None_iff)
    then show ?thesis using assms by (simp add: set_program_def)
  next
    case (Some c)
    note c = find_programD [OF Some]
    have "pg_courses (set_program i (\<lambda>c. c\<lparr>co_instructorId := t\<rparr>) s) = pg_courses (set_program i (\<lambda>_. c\<lparr>co_instructorId := t\<rparr>) s)"
      using same_program_row [OF assms, of c] c by (auto simp: set_program_def)
    moreover have "programs_ok (set_program i (\<lambda>_. c\<lparr>co_instructorId := t\<rparr>) s)"
    proof (rule change_ok [OF assms Some])
      show "program_ok (c\<lparr>co_instructorId := t\<rparr>)"
        using assms c by (auto simp: programs_ok_def program_ok_def cadence_ok_def stored_code_ok_def)
      show "code_free s (c\<lparr>co_instructorId := t\<rparr>)"
        using assms c unfolding code_free_def programs_ok_def codes_ok_def by auto
    qed simp_all
    ultimately show ?thesis using same_courses_ok by blast
  qed
  then show ?thesis using assms by (simp add: assign_instructor_def split: sum.split)
qed

lemma insert_enrollment_courses: "insert_enrollment c u n s = Inr t \<Longrightarrow> pg_courses t = pg_courses s"
  by (auto simp: insert_enrollment_def split: if_splits)

lemma courses_kept:
  "pg_courses (fst (add_section s user c xd i)) = pg_courses s" "pg_courses (fst (update_section s user c i xd)) = pg_courses s"
  "pg_courses (fst (enroll s user c n)) = pg_courses s" "pg_courses (fst (unenroll s u c)) = pg_courses s"
  "pg_courses (fst (enroll_student s user c u n)) = pg_courses s" "pg_courses (fst (remove_student_by_admin s user c u)) = pg_courses s"
  "pg_courses (fst (mark_reminder_added s u c n)) = pg_courses s"
  by (auto simp: add_section_def update_section_def enroll_def unenroll_def enroll_student_def remove_student_by_admin_def
    mark_reminder_added_def notify_enrolled_def res insert_enrollment_courses split: sum.split option.split)

interpretation program_run: invariant_system "program_step parse" programs_ok for parse
proof unfold_locales
  fix s op
  assume ok: "programs_ok s"
  show "programs_ok (program_step parse s op)"
  proof (cases "program_op_ok op")
    case True
    then show ?thesis using ok create_ok [OF ok] batch_ok [OF ok] update_ok [OF ok] assign_ok [OF ok]
      by (cases op) (simp_all add: program_step_def same_courses_ok [OF courses_kept(1)] same_courses_ok [OF courses_kept(2)]
        same_courses_ok [OF courses_kept(3)] same_courses_ok [OF courses_kept(4)] same_courses_ok [OF courses_kept(5)]
        same_courses_ok [OF courses_kept(6)] same_courses_ok [OF courses_kept(7)])
  qed (simp add: program_step_def ok)
qed

section \<open>What the schedule reads\<close>

lemma times_read:
  "distinct (akeys ts) \<Longrightarrow> \<forall>(d, t) \<in> set ts. d \<in> {0..6} \<and> parse_hhmm t \<noteq> None \<Longrightarrow>
   map_of (foldl add_time m (map (\<lambda>(d, t). (Some (of_int d), Some t)) ts)) k =
     (case map_of ts k of None \<Rightarrow> map_of m k | Some t \<Rightarrow> parse_hhmm t)"
proof (induction ts arbitrary: m)
  case (Cons x ts)
  obtain d t hm where x: "x = (d, t)" "d \<in> {0..6}" "parse_hhmm t = Some hm" using Cons.prems(2) by (cases x) auto
  have a: "add_time m (Some (of_int d), Some t) = aput d hm m" using x by (simp add: add_time_def)
  have n: "map_of ts d = None" using Cons.prems(1) by (simp add: x map_of_eq_None_iff)
  show ?case using Cons.IH [of "aput d hm m"] Cons.prems x n by (auto simp: a aput_lookup split: option.split)
qed simp

lemma schedule_reads:
  assumes "cadence_ok c"
  shows "map_of (parse_times_by_day (sc_meetingTimesByDay (schedule_of zones c))) d =
      Option.bind (Option.bind (pm_meetingTimesByDay c) (\<lambda>ts. map_of ts d)) parse_hhmm"
    and "meeting_days (schedule_of zones c) = map of_int (case pm_meetingDays c of None \<Rightarrow> [] | Some ds \<Rightarrow> ds)"
proof -
  show "map_of (parse_times_by_day (sc_meetingTimesByDay (schedule_of zones c))) d =
      Option.bind (Option.bind (pm_meetingTimesByDay c) (\<lambda>ts. map_of ts d)) parse_hhmm"
  proof (cases "pm_meetingTimesByDay c")
    case (Some ts)
    then have "distinct (akeys ts)" "\<forall>(d, t) \<in> set ts. d \<in> {0..6} \<and> parse_hhmm t \<noteq> None"
      using assms by (auto simp: cadence_ok_def)
    then show ?thesis using times_read [of ts "[]" d] by (simp add: schedule_of_def parse_times_by_day_def Some split: option.split)
  qed (simp add: schedule_of_def parse_times_by_day_def)
  show "meeting_days (schedule_of zones c) = map of_int (case pm_meetingDays c of None \<Rightarrow> [] | Some ds \<Rightarrow> ds)"
    by (simp add: schedule_of_def meeting_days_def List.map_filter_def comp_def split: option.split)
qed

section \<open>Properties\<close>

text \<open>C36: A code names one course: after any run on an organization's empty tables, no two courses of an
  organization at the same place, its programs or the batches of one program, have the same code, and
  every batch is of a program of its own organization that is not a batch itself.\<close>

theorem codes_name_one_course:
  assumes "pg_courses s0 = []" and "s = foldl (program_step parse) s0 ops"
  shows "(\<forall>c \<in> set (pg_courses s). \<forall>d \<in> set (pg_courses s). co_organizationId c = co_organizationId d \<longrightarrow>
      pm_parentCourseId c = pm_parentCourseId d \<longrightarrow> pm_code c = pm_code d \<longrightarrow> pm_code c \<noteq> None \<longrightarrow> c = d) \<and>
    (\<forall>c \<in> set (pg_courses s). \<forall>p. pm_parentCourseId c = Some p \<longrightarrow>
      (\<exists>q \<in> set (pg_courses s). co_id q = p \<and> pm_parentCourseId q = None \<and> co_organizationId q = co_organizationId c))"
proof -
  have "programs_ok s0" using assms(1) by (simp add: programs_ok_def codes_ok_def parents_ok_def)
  then have "programs_ok s" using program_run.inv_run assms(2) by blast
  then show ?thesis unfolding programs_ok_def codes_ok_def parents_ok_def by blast
qed

text \<open>C37: The cadence that is stored is the cadence the schedule reads: after any run, whatever the bodies of the
  requests held, the weekdays are distinct, in order and from Sunday to Saturday, times are times of the day, the
  weeks are 1 to 52, and reading the schedule of a course gives those days and those times, none
  dropped.\<close>

theorem stored_cadence_is_read:
  assumes "pg_courses s0 = []" and "s = foldl (program_step parse) s0 ops" and "c \<in> set (pg_courses s)"
  shows "cadence_ok c \<and> meeting_days (schedule_of zones c) = map of_int (case pm_meetingDays c of None \<Rightarrow> [] | Some ds \<Rightarrow> ds) \<and>
    map_of (parse_times_by_day (sc_meetingTimesByDay (schedule_of zones c))) d =
      Option.bind (Option.bind (pm_meetingTimesByDay c) (\<lambda>ts. map_of ts d)) parse_hhmm"
proof -
  have "programs_ok s0" using assms(1) by (simp add: programs_ok_def codes_ok_def parents_ok_def)
  then have "programs_ok s" using program_run.inv_run assms(2) by blast
  then have "cadence_ok c" using assms(3) by (simp add: programs_ok_def program_ok_def)
  then show ?thesis using schedule_reads by blast
qed

section \<open>Witnesses\<close>

definition new_school :: programs where
  "new_school = \<lparr>pg_courses = [], pg_sections = [], pg_enrollments = [], pg_sessions = [],
     pg_members = [\<lparr>mb_userId = ''t'', mb_organizationId = ''o'', mb_role = INSTRUCTOR, mb_status = ACTIVE\<rparr>],
     pg_users = [], pg_questions = [], pg_assignments = [], pg_documents = [], pg_handed_in = [], pg_mails = [], pg_evicted = []\<rparr>"

definition the_admin :: jwt_payload where
  "the_admin = \<lparr>jwt_sub = ''a'', jwt_role = ORG_ADMIN, jwt_name = [], jwt_email = [], jwt_organizationId = Some ''o'',
     jwt_emailVerified = True, jwt_isSuperAdmin = False, jwt_recorder = None, jwt_preview = None\<rparr>"

definition no_fields :: program_dto where
  "no_fields = \<lparr>pd_title = None, pd_description = None, pd_instructorId = None, pd_code = None, pd_category = None, pd_level = None,
     pd_startDate = None, pd_durationWeeks = None, pd_meetingDays = None, pd_meetingTime = None, pd_meetingTimesByDay = None,
     pd_timezone = None, pd_pluginKeys = None\<rparr>"

definition frontend :: program_dto where
  "frontend = no_fields\<lparr>pd_title := Some (Some ''Frontend''), pd_code := Some (Some ''fe''), pd_durationWeeks := Some (Some 6),
     pd_meetingDays := Some (Some [5, 1, 5]), pd_meetingTime := Some (Some ''18:00''),
     pd_meetingTimesByDay := Some (Some [(Some 5, Some ''09:30''), (Some 7, Some ''10:00''), (Some 1, Some ''late'')])\<rparr>"

definition intake :: "string \<Rightarrow> batch_dto" where
  "intake code = \<lparr>bd_label = Some ''Evening'', bd_instructorId = Some ''t'', bd_code = Some code, bd_startDate = None,
     bd_durationWeeks = None, bd_meetingDays = None, bd_meetingTime = None, bd_timezone = None\<rparr>"

definition school_year :: "program_op list" where
  "school_year = [CreateCourse the_admin frontend ''p'' 1, CreateCourse the_admin frontend ''q'' 2,
     CreateBatch the_admin ''p'' (intake ''sep26'') ''b'' (\<lambda>i. ''b-'' @ i) 3,
     CreateBatch the_admin ''p'' (intake ''SEP26'') ''d'' (\<lambda>i. ''d-'' @ i) 4,
     CreateBatch the_admin ''b'' (intake ''JAN27'') ''e'' (\<lambda>i. ''e-'' @ i) 5]"

lemma codes_name_one_course_witness:
  "let s = foldl (program_step (\<lambda>_. None)) new_school school_year in
   map (\<lambda>c. (co_id c, pm_code c)) (pg_courses s) = [(''p'', Some ''FE''), (''b'', Some ''SEP26'')] \<and> codes_ok s \<and> parents_ok s"
proof -
  let ?s = "foldl (program_step (\<lambda>_. None)) new_school school_year"
  have "map (\<lambda>c. (co_id c, pm_code c)) (pg_courses ?s) = [(''p'', Some ''FE''), (''b'', Some ''SEP26'')]" by code_simp
  moreover have "codes_ok ?s \<and> parents_ok ?s"
    unfolding codes_ok_def parents_ok_def by (rule codes_name_one_course [OF _ HOL.refl]) (simp add: new_school_def)
  ultimately show ?thesis unfolding Let_def by blast
qed

lemma stored_cadence_is_read_witness:
  "let s = foldl (program_step (\<lambda>_. None)) new_school school_year; c = hd (pg_courses s) in
   cadence_ok c \<and> pm_meetingDays c = Some [1, 5] \<and> meeting_days (schedule_of (\<lambda>_ _. 0) c) = [1, 5] \<and>
   map_of (parse_times_by_day (sc_meetingTimesByDay (schedule_of (\<lambda>_ _. 0) c))) 5 = Some (9, 30)"
proof -
  define s where "s = foldl (program_step (\<lambda>_. None)) new_school school_year"
  have v: "length (pg_courses s) = 2" "pm_meetingDays (hd (pg_courses s)) = Some [1, 5]"
    "pm_meetingTimesByDay (hd (pg_courses s)) = Some [(5, ''09:30'')]" "parse_hhmm ''09:30'' = Some (9, 30)" unfolding s_def by code_simp+
  have "hd (pg_courses s) \<in> set (pg_courses s)" using v(1) by (cases "pg_courses s") simp_all
  then have "cadence_ok (hd (pg_courses s)) \<and>
      meeting_days (schedule_of (\<lambda>_ _. 0) (hd (pg_courses s))) = map of_int (case pm_meetingDays (hd (pg_courses s)) of None \<Rightarrow> [] | Some ds \<Rightarrow> ds) \<and>
      map_of (parse_times_by_day (sc_meetingTimesByDay (schedule_of (\<lambda>_ _. 0) (hd (pg_courses s))))) 5 =
        Option.bind (Option.bind (pm_meetingTimesByDay (hd (pg_courses s))) (\<lambda>ts. map_of ts 5)) parse_hhmm"
    by (intro stored_cadence_is_read [OF _ s_def]) (simp add: new_school_def)
  then show ?thesis unfolding Let_def s_def [symmetric] by (simp add: v)
qed

section \<open>Where the service falls short\<close>

text \<open>The code of a program is looked up before it is written, and no index covers it: two creations at
  once can both take it.\<close>

lemma two_programs_one_code:
  "case (new_program (\<lambda>_. None) new_school the_admin frontend ''p'' 1, new_program (\<lambda>_. None) new_school the_admin frontend ''q'' 1) of
     (Inr c, Inr d) \<Rightarrow> map_sum id (\<lambda>s. map (\<lambda>c. (co_id c, pm_code c)) (pg_courses s)) (rbind (insert_program c new_school) (insert_program d)) =
       Inr [(''p'', Some ''FE''), (''q'', Some ''FE'')]
   | _ \<Rightarrow> False"
  by code_simp

text \<open>The times of single days are no schedule field: moving Friday's class neither marks the schedule as
  changed nor tells the students who set a reminder.\<close>

definition with_reminder :: programs where
  "with_reminder = (foldl (program_step (\<lambda>_. None)) new_school (take 1 school_year))
     \<lparr>pg_enrollments := [\<lparr>en_courseId = ''p'', en_studentId = ''u'', er_reminderAddedAt = Some 1, er_createdAt = 1\<rparr>]\<rparr>"

lemma moved_day_is_not_announced:
  "let s = fst (update_course (\<lambda>_. None) with_reminder the_admin ''p''
         (no_fields\<lparr>pd_meetingTimesByDay := Some (Some [(Some 5, Some ''20:00'')])\<rparr>) 9);
       t = fst (update_course (\<lambda>_. None) with_reminder the_admin ''p'' (no_fields\<lparr>pd_meetingTime := Some (Some ''20:00'')\<rparr>) 9) in
   map pm_meetingTimesByDay (pg_courses s) = [Some [(5, ''20:00'')]] \<and> map pm_scheduleUpdatedAt (pg_courses s) = [None] \<and>
   pg_mails s = [] \<and> map pm_scheduleUpdatedAt (pg_courses t) = [Some 9] \<and> pg_mails t = [ScheduleChanged ''u'' ''Frontend'']"
  by code_simp

text \<open>A batch does not inherit them either: Friday's class of the batch is at the general time.\<close>

lemma batch_loses_the_days_times:
  "map pm_meetingTimesByDay (pg_courses (foldl (program_step (\<lambda>_. None)) new_school school_year)) = [Some [(5, ''09:30'')], None]"
  by code_simp

end
