(* ===== verification/ProgramBatches.thy ===== *)
theory ProgramBatches
  imports ProgramRuns
begin

text \<open>
  A new batch: what its snapshot teaches is what its program teaches, seen through \<open>teaches\<close>, which forgets ids.
\<close>

section \<open>What a course teaches\<close>

definition question_view :: "bank_question \<Rightarrow> string \<times> string list \<times> int" where
  "question_view q = (bq_body q, bq_options q, bq_correctIndex q)"

definition assignment_view :: "assignment \<Rightarrow> string \<times> string option \<times> int option \<times> int option" where
  "assignment_view a = (am_title a, am_instructions a, am_dueAt a, am_maxPoints a)"

definition document_view :: "course_document \<Rightarrow> string \<times> string \<times> string \<times> int \<times> string" where
  "document_view x = (do_filename x, do_storageKey x, do_mimeType x, do_charCount x, do_extractedText x)"

text \<open>Each section in order with its questions and assignments, the assignments outside the sections, and the
  documents.\<close>

record lessons =
  le_sections :: "(int \<times> string \<times> string option \<times> (string \<times> string list \<times> int) list \<times>
    (string \<times> string option \<times> int option \<times> int option) list) list"
  le_assignments :: "(string \<times> string option \<times> int option \<times> int option) list"
  le_documents :: "(string \<times> string \<times> string \<times> int \<times> string) list"

definition teaches :: "programs \<Rightarrow> string \<Rightarrow> lessons" where
  "teaches s c =
     \<lparr>le_sections = map (\<lambda>e. (sy_order e, sy_title e, sy_description e,
         map question_view (filter (\<lambda>q. bq_courseId q = c \<and> bq_sectionId q = se_id e \<and> bq_active q) (pg_questions s)),
         map assignment_view (filter (\<lambda>a. am_courseId a = c \<and> am_sectionId a = Some (se_id e)) (pg_assignments s)))) (sections_of s c),
      le_assignments = map assignment_view (filter (\<lambda>a. am_courseId a = c \<and>
         (\<forall>e \<in> set (sections_of s c). am_sectionId a \<noteq> Some (se_id e))) (pg_assignments s)),
      le_documents = map document_view (filter (\<lambda>x. do_courseId x = c) (pg_documents s))\<rparr>"

text \<open>Rows of content belong to courses, and sections have ids.\<close>

definition content_ok :: "programs \<Rightarrow> bool" where
  "content_ok s \<longleftrightarrow> (let ids = co_id ` set (pg_courses s) in
     se_courseId ` set (pg_sections s) \<subseteq> ids \<and> bq_courseId ` set (pg_questions s) \<subseteq> ids \<and>
     am_courseId ` set (pg_assignments s) \<subseteq> ids \<and> do_courseId ` set (pg_documents s) \<subseteq> ids \<and>
     distinct (map se_id (pg_sections s)) \<and> [] \<notin> se_id ` set (pg_sections s))"

section \<open>Lemmas\<close>

lemma filter_none: "(\<And>x. x \<in> set xs \<Longrightarrow> \<not> P x) \<Longrightarrow> filter P xs = []"
  by (simp add: filter_empty_conv)

lemma sections_of_set: "e \<in> set (sections_of s c) \<longleftrightarrow> e \<in> set (pg_sections s) \<and> se_courseId e = c"
  by (auto simp: sections_of_def)

lemma copied_sections_sorted: "sorted (map sy_order (copied_sections copy s src dst))"
  by (simp add: copied_sections_def comp_def sections_of_def)

lemma section_map_copy:
  assumes "inj_on copy (se_id ` set (sections_of s src))" and "j \<in> se_id ` set (sections_of s src)"
  shows "section_map copy s src i = Some (copy j) \<longleftrightarrow> i = j"
proof -
  have "list_ex (\<lambda>e. se_id e = i) (sections_of s src) \<longleftrightarrow> i \<in> se_id ` set (sections_of s src)" for i
    by (auto simp: list_ex_iff)
  then show ?thesis using assms by (auto simp: section_map_def dest: inj_onD)
qed

lemma question_copies:
  assumes "\<And>i. section_map copy s src i = Some (copy j) \<longleftrightarrow> i = j"
  shows "map question_view (filter (\<lambda>q. bq_courseId q = dst \<and> bq_sectionId q = copy j \<and> bq_active q) (copied_questions copy s src dst now)) =
    map question_view (filter (\<lambda>q. bq_courseId q = src \<and> bq_sectionId q = j \<and> bq_active q) (pg_questions s))"
proof -
  define f where "f = (\<lambda>q :: bank_question. case section_map copy s src (bq_sectionId q) of None \<Rightarrow> []
         | Some i \<Rightarrow> [q\<lparr>bq_id := copy (bq_id q), bq_courseId := dst, bq_sectionId := i, bq_createdAt := now\<rparr>])"
  have one: "map question_view (filter (\<lambda>q. bq_courseId q = dst \<and> bq_sectionId q = copy j \<and> bq_active q) (f q)) =
      (if bq_sectionId q = j \<and> bq_active q then [question_view q] else [])" for q
    using assms [of "bq_sectionId q"] by (cases "section_map copy s src (bq_sectionId q)") (auto simp: f_def question_view_def)
  have "map question_view (filter (\<lambda>q. bq_courseId q = dst \<and> bq_sectionId q = copy j \<and> bq_active q)
      (concat (map f (filter (\<lambda>q. bq_courseId q = src \<and> bq_active q) qs)))) =
    map question_view (filter (\<lambda>q. bq_courseId q = src \<and> bq_sectionId q = j \<and> bq_active q) qs)" for qs
    by (induction qs) (simp_all add: one)
  then show ?thesis by (simp add: copied_questions_def f_def)
qed

lemma assignment_copies:
  assumes "\<And>i. section_map copy s src i = Some (copy j) \<longleftrightarrow> i = j" and "j \<noteq> []"
  shows "map assignment_view (filter (\<lambda>a. am_courseId a = dst \<and> am_sectionId a = Some (copy j)) (copied_assignments copy s src dst now)) =
    map assignment_view (filter (\<lambda>a. am_courseId a = src \<and> am_sectionId a = Some j) (pg_assignments s))"
proof -
  have one: "(given x \<and> section_map copy s src (the x) = Some (copy j)) = (x = Some j)" for x
    using assms by (cases x) (auto simp: given_def)
  have "map assignment_view (filter (\<lambda>a. am_courseId a = dst \<and> am_sectionId a = Some (copy j))
      (map (\<lambda>a. a\<lparr>am_id := copy (am_id a), am_courseId := dst,
         am_sectionId := (if given (am_sectionId a) then section_map copy s src (the (am_sectionId a)) else None),
         am_sessionId := None, am_groupId := None, am_createdAt := now\<rparr>) (filter (\<lambda>a. am_courseId a = src) as))) =
    map assignment_view (filter (\<lambda>a. am_courseId a = src \<and> am_sectionId a = Some j) as)" for as
  proof (induction as)
    case (Cons a as)
    then show ?case using one [of "am_sectionId a"] by (auto simp: assignment_view_def)
  qed simp
  then show ?thesis by (simp add: copied_assignments_def)
qed

lemma loose_copies:
  assumes "[] \<notin> se_id ` set (sections_of s src)"
  shows "map assignment_view (filter (\<lambda>a. am_courseId a = dst \<and>
      (\<forall>e \<in> set (copied_sections copy s src dst). am_sectionId a \<noteq> Some (se_id e))) (copied_assignments copy s src dst now)) =
    map assignment_view (filter (\<lambda>a. am_courseId a = src \<and> (\<forall>e \<in> set (sections_of s src). am_sectionId a \<noteq> Some (se_id e)))
      (pg_assignments s))"
proof -
  have "map assignment_view (filter (\<lambda>a. am_courseId a = dst \<and> (\<forall>e \<in> set (copied_sections copy s src dst). am_sectionId a \<noteq> Some (se_id e)))
      (map (\<lambda>a. a\<lparr>am_id := copy (am_id a), am_courseId := dst,
         am_sectionId := (if given (am_sectionId a) then section_map copy s src (the (am_sectionId a)) else None),
         am_sessionId := None, am_groupId := None, am_createdAt := now\<rparr>) (filter (\<lambda>a. am_courseId a = src) as))) =
    map assignment_view (filter (\<lambda>a. am_courseId a = src \<and> (\<forall>e \<in> set (sections_of s src). am_sectionId a \<noteq> Some (se_id e))) as)" for as
    using assms by (induction as) (auto simp: section_map_def list_ex_iff assignment_view_def given_def copied_sections_def)
  then show ?thesis by (simp add: copied_assignments_def)
qed

text \<open>The rows of a course in tables that grew by rows of another course.\<close>

lemma teaches_apart:
  assumes "pg_sections t = pg_sections s @ es" and "pg_questions t = pg_questions s @ qs" and "pg_assignments t = pg_assignments s @ as"
    and "pg_documents t = pg_documents s @ ds" and "\<forall>e \<in> set es. se_courseId e \<noteq> c" and "\<forall>q \<in> set qs. bq_courseId q \<noteq> c"
    and "\<forall>a \<in> set as. am_courseId a \<noteq> c" and "\<forall>x \<in> set ds. do_courseId x \<noteq> c"
  shows "teaches t c = teaches s c"
proof -
  have "sections_of t c = sections_of s c" using assms(1,5) by (simp add: sections_of_def filter_empty_conv)
  moreover have "filter (\<lambda>q. bq_courseId q = c \<and> P q) qs = []" for P using assms(6) by (auto simp: filter_empty_conv)
  moreover have "filter (\<lambda>a. am_courseId a = c \<and> P a) as = []" for P using assms(7) by (auto simp: filter_empty_conv)
  moreover have "filter (\<lambda>x. do_courseId x = c) ds = []" using assms(8) by (auto simp: filter_empty_conv)
  ultimately show ?thesis using assms(2-4) by (simp add: teaches_def)
qed

lemma copies_of:
  "e \<in> set (copied_sections copy s src dst) \<Longrightarrow> se_courseId e = dst"
  "q \<in> set (copied_questions copy s src dst now) \<Longrightarrow> bq_courseId q = dst"
  "a \<in> set (copied_assignments copy s src dst now) \<Longrightarrow> am_courseId a = dst"
  "x \<in> set (copied_documents copy s src dst) \<Longrightarrow> do_courseId x = dst"
  by (auto simp: copied_sections_def copied_questions_def copied_assignments_def copied_documents_def split: option.splits)

lemma snapshotD:
  assumes "snapshot_program_content copy src dst now s = Inr t"
  shows "pg_sections t = pg_sections s @ copied_sections copy s src dst" and "pg_questions t = pg_questions s @ copied_questions copy s src dst now"
    and "pg_assignments t = pg_assignments s @ copied_assignments copy s src dst now" and "pg_documents t = pg_documents s @ copied_documents copy s src dst"
    and "distinct (map se_id (copied_sections copy s src dst))" and "pg_enrollments t = pg_enrollments s" and "pg_sessions t = pg_sessions s"
  using assms by (auto simp: snapshot_program_content_def Let_def new_keys_def split: if_splits)

lemma snapshot_teaches:
  assumes t: "snapshot_program_content copy src dst now s = Inr t" and "dst \<noteq> src"
    and none: "dst \<notin> se_courseId ` set (pg_sections s)" "dst \<notin> bq_courseId ` set (pg_questions s)"
      "dst \<notin> am_courseId ` set (pg_assignments s)" "dst \<notin> do_courseId ` set (pg_documents s)" and ids: "[] \<notin> se_id ` set (pg_sections s)"
  shows "teaches t dst = teaches s src"
proof -
  note d = snapshotD [OF t]
  have "map (copy \<circ> se_id) (sections_of s src) = map se_id (copied_sections copy s src dst)"
    by (simp add: copied_sections_def comp_def)
  then have "distinct (map copy (map se_id (sections_of s src)))" using d(5) by simp
  then have inj: "inj_on copy (se_id ` set (sections_of s src))" by (simp add: distinct_map comp_inj_on_iff [symmetric] inj_on_imageI)
  have ne: "[] \<notin> se_id ` set (sections_of s src)" using ids by (auto simp: sections_of_set)
  have sec: "sections_of t dst = copied_sections copy s src dst"
  proof -
    have "filter (\<lambda>e. se_courseId e = dst) (pg_sections t) = copied_sections copy s src dst"
      using none(1) copies_of(1) [of _ copy s src dst] unfolding d(1) by (auto simp: filter_id_conv filter_empty_conv)
    then show ?thesis using copied_sections_sorted [of copy s src dst] by (simp add: sections_of_def sorted_sort_id sort_key_id_if_sorted)
  qed
  have q: "filter (\<lambda>q. bq_courseId q = dst \<and> P q) (pg_questions t) = filter (\<lambda>q. bq_courseId q = dst \<and> P q) (copied_questions copy s src dst now)" for P
    using none(2) unfolding d(2) by (auto simp: filter_empty_conv)
  have a: "filter (\<lambda>a. am_courseId a = dst \<and> P a) (pg_assignments t) = filter (\<lambda>a. am_courseId a = dst \<and> P a) (copied_assignments copy s src dst now)" for P
    using none(3) unfolding d(3) by (auto simp: filter_empty_conv)
  have x: "filter (\<lambda>x. do_courseId x = dst) (pg_documents t) = copied_documents copy s src dst"
    using none(4) copies_of(4) [of _ copy s src dst] unfolding d(4) by (auto simp: filter_empty_conv filter_id_conv)
  have "le_sections (teaches t dst) = le_sections (teaches s src)"
  proof -
    have "map question_view (filter (\<lambda>q. bq_courseId q = dst \<and> bq_sectionId q = copy (se_id e) \<and> bq_active q) (copied_questions copy s src dst now)) =
        map question_view (filter (\<lambda>q. bq_courseId q = src \<and> bq_sectionId q = se_id e \<and> bq_active q) (pg_questions s)) \<and>
      map assignment_view (filter (\<lambda>a. am_courseId a = dst \<and> am_sectionId a = Some (copy (se_id e))) (copied_assignments copy s src dst now)) =
        map assignment_view (filter (\<lambda>a. am_courseId a = src \<and> am_sectionId a = Some (se_id e)) (pg_assignments s))"
      if e: "e \<in> set (sections_of s src)" for e
    proof -
      have m: "section_map copy s src i = Some (copy (se_id e)) \<longleftrightarrow> i = se_id e" for i using section_map_copy [OF inj] e by simp
      have "se_id e \<noteq> []" using e ne by force
      then show ?thesis using question_copies [OF m] assignment_copies [OF m] by blast
    qed
    then show ?thesis by (simp add: teaches_def sec q a copied_sections_def)
  qed
  moreover have "le_assignments (teaches t dst) = le_assignments (teaches s src)"
    using loose_copies [OF ne] by (simp add: teaches_def sec a)
  moreover have "le_documents (teaches t dst) = le_documents (teaches s src)"
    by (simp add: teaches_def x) (simp add: copied_documents_def document_view_def comp_def)
  ultimately show ?thesis by (simp add: lessons.equality)
qed

lemma insert_rows:
  "insert_program b s = Inr t \<Longrightarrow> pg_sections t = pg_sections s \<and> pg_questions t = pg_questions s \<and> pg_assignments t = pg_assignments s \<and>
     pg_documents t = pg_documents s \<and> pg_enrollments t = pg_enrollments s \<and> pg_sessions t = pg_sessions s \<and>
     co_id b \<notin> co_id ` set (pg_courses s) \<and> pg_courses t = pg_courses s @ [b]"
  by (auto simp: insert_program_def split: if_splits)

lemma batch_of_same: "batch_of parse p dto i orgId code now = Inr b \<Longrightarrow> co_id b = i \<and> pm_parentCourseId b = Some (co_id p)"
  by (auto simp: batch_of_def res Let_def)

section \<open>The property\<close>

text \<open>C35: A batch teaches what its program teaches: a created batch has the program's sections in their order,
  each with the program's active questions and its assignments, the assignments outside the sections, and
  the documents; what every other course teaches stays as it was, and nobody is enrolled or scheduled.\<close>

theorem batch_teaches_like_its_program:
  assumes "content_ok s" and "create_batch parse copy s user programId dto i now = (t, Inr b)"
  shows "teaches t (co_id b) = teaches s programId \<and> pm_parentCourseId b = Some programId \<and>
    (\<forall>c \<in> set (pg_courses s). teaches t (co_id c) = teaches s (co_id c)) \<and>
    pg_enrollments t = pg_enrollments s \<and> pg_sessions t = pg_sessions s"
proof -
  obtain orgId p s1 where p: "find_program s programId = Some p" and b: "batch_of parse p dto i orgId (normalize_code (bd_code dto)) now = Inr b"
    and s1: "insert_program b s = Inr s1" and t: "snapshot_program_content copy (co_id p) i now s1 = Inr t"
    using create_batchD [OF assms(2)] by blast
  note pd = find_programD [OF p] and bd = batch_of_same [OF b] and r = insert_rows [OF s1] and d = snapshotD [OF t]
  have same: "teaches s1 c = teaches s c" for c using r by (simp add: teaches_def sections_of_def)
  have fresh: "i \<notin> co_id ` set (pg_courses s)" using r bd by simp
  have none: "i \<notin> se_courseId ` set (pg_sections s)" "i \<notin> bq_courseId ` set (pg_questions s)" "i \<notin> am_courseId ` set (pg_assignments s)"
    "i \<notin> do_courseId ` set (pg_documents s)" "[] \<notin> se_id ` set (pg_sections s)"
    using fresh assms(1) by (auto simp: content_ok_def Let_def)
  have "i \<noteq> co_id p" using fresh pd by blast
  then have "teaches t i = teaches s1 (co_id p)" using none r by (intro snapshot_teaches [OF t]) simp_all
  moreover have "teaches t (co_id c) = teaches s1 (co_id c)" if "c \<in> set (pg_courses s)" for c
  proof -
    have "co_id c \<noteq> i" using fresh that by blast
    then show ?thesis by (intro teaches_apart [OF d(1-4)]) (auto dest!: copies_of)
  qed
  ultimately show ?thesis using bd pd r d(6,7) same by simp
qed

definition taught_program :: programs where
  "taught_program = (let s = foldl (program_step (\<lambda>_. None)) new_school
       [CreateCourse the_admin frontend ''p'' 1,
        AddSection the_admin ''p'' \<lparr>xd_title = Some (Some ''CSS''), xd_description = None, xd_order = Some (Some 2)\<rparr> ''e2'',
        AddSection the_admin ''p'' \<lparr>xd_title = Some (Some ''HTML''), xd_description = None, xd_order = Some (Some 1)\<rparr> ''e1''];
      q = \<lparr>bq_id = ''q1'', bq_courseId = ''p'', bq_sectionId = ''e1'', bq_body = ''tag?'', bq_options = [''a'', ''b''], bq_correctIndex = 1,
           bq_active = True, bq_createdById = ''t'', bq_createdAt = 2\<rparr>
    in s\<lparr>pg_questions := [q, q\<lparr>bq_id := ''q2'', bq_body := ''old'', bq_active := False\<rparr>],
         pg_assignments := [\<lparr>am_id = ''w'', am_courseId = ''p'', am_sectionId = Some ''e2'', am_sessionId = Some ''l'', am_groupId = Some ''g'',
           am_title = ''A page'', am_instructions = None, am_dueAt = None, am_maxPoints = Some 10, am_createdById = ''t'', am_createdAt = 3\<rparr>]\<rparr>)"

lemma batch_teaches_like_its_program_witness:
  "let r = create_batch (\<lambda>_. None) (\<lambda>i. ''b-'' @ i) taught_program the_admin ''p'' (intake ''sep26'') ''b'' 9 in
   \<not> isl (snd r) \<and> teaches (fst r) ''b'' = teaches taught_program ''p'' \<and>
   map (fst \<circ> snd) (le_sections (teaches (fst r) ''b'')) = [''HTML'', ''CSS''] \<and>
   map (\<lambda>x. fst (snd (snd (snd x)))) (le_sections (teaches (fst r) ''b'')) = [[(''tag?'', [''a'', ''b''], 1)], []]"
proof -
  let ?r = "create_batch (\<lambda>_. None) (\<lambda>i. ''b-'' @ i) taught_program the_admin ''p'' (intake ''sep26'') ''b'' 9"
  have ok: "content_ok taught_program" by code_simp
  have "map_sum id co_id (snd ?r) = Inr ''b''" by code_simp
  then obtain t b where r: "?r = (t, Inr b)" "co_id b = ''b''" by (cases ?r; cases "snd ?r") auto
  note teach = batch_teaches_like_its_program [OF ok r(1), unfolded r(2)]
  have "map (fst \<circ> snd) (le_sections (teaches taught_program ''p'')) = [''HTML'', ''CSS'']"
    "map (\<lambda>x. fst (snd (snd (snd x)))) (le_sections (teaches taught_program ''p'')) = [[(''tag?'', [''a'', ''b''], 1)], []]" by code_simp+
  moreover have "teaches t ''b'' = teaches taught_program ''p''" using teach by blast
  ultimately show ?thesis unfolding Let_def r(1) fst_conv snd_conv by simp
qed

end
