(* ===== verification/CourseDeletionLaws.thy ===== *)
theory CourseDeletionLaws
  imports CourseDeletion
begin

text \<open>
  The order of the statements of \<open>deleteCourse\<close> respects every foreign key: a check on the tables, evaluated
  once, is shown to be enough for the rows.
\<close>

section \<open>Consistent tables\<close>

text \<open>The columns that may hold null although their key does not set them to null.\<close>

definition optional_columns :: "(tbl \<times> string) list" where
  "optional_columns = [(T_Invite, ''courseId''), (T_Quiz, ''courseId''), (T_CodingSubmission, ''workspaceId'')]"

text \<open>How a row reaches its course.\<close>

fun course_path :: "tbl \<Rightarrow> (string \<times> tbl) list" where
  "course_path T_Submission = [(''assignmentId'', T_Assignment)]"
| "course_path T_Attendance = [(''sessionId'', T_LiveSession)]"
| "course_path T_ChatMessage = [(''sessionId'', T_LiveSession)]"
| "course_path T_QuizQuestion = [(''quizId'', T_Quiz)]"
| "course_path T_QuizAnswer = [(''questionId'', T_QuizQuestion), (''quizId'', T_Quiz)]"
| "course_path T_StudentGroupMember = [(''groupId'', T_StudentGroup)]"
| "course_path T_AssessmentAttempt = [(''assessmentId'', T_Assessment)]"
| "course_path T_AssessmentResponse = [(''attemptId'', T_AssessmentAttempt), (''assessmentId'', T_Assessment)]"
| "course_path T_AssignedRemediation = [(''taskId'', T_RemediationTask)]"
| "course_path T_ExamQuestion = [(''examId'', T_Exam)]"
| "course_path T_ExamAttempt = [(''examId'', T_Exam)]"
| "course_path T_ExamAnswer = [(''attemptId'', T_ExamAttempt), (''examId'', T_Exam)]"
| "course_path T_CodingRequirement = [(''assignmentId'', T_CodingAssignment)]"
| "course_path T_CodingRubricItem = [(''assignmentId'', T_CodingAssignment)]"
| "course_path T_CodingSubmission = [(''assignmentId'', T_CodingAssignment)]"
| "course_path T_CodingSubmissionFile = [(''submissionId'', T_CodingSubmission), (''assignmentId'', T_CodingAssignment)]"
| "course_path T_CodingAiReview = [(''submissionId'', T_CodingSubmission), (''assignmentId'', T_CodingAssignment)]"
| "course_path T_CodingFeedback = [(''submissionId'', T_CodingSubmission), (''assignmentId'', T_CodingAssignment)]"
| "course_path T_CodingAiFinding =
     [(''reviewId'', T_CodingAiReview), (''submissionId'', T_CodingSubmission), (''assignmentId'', T_CodingAssignment)]"
| "course_path T_CodingRequirementResult =
     [(''reviewId'', T_CodingAiReview), (''submissionId'', T_CodingSubmission), (''assignmentId'', T_CodingAssignment)]"
| "course_path T_TajweedAnnotationPart = [(''annotationId'', T_TajweedAnnotation)]"
| "course_path _ = []"

definition course_of_row :: "store \<Rightarrow> stored \<Rightarrow> string option" where
  "course_of_row s r =
     (if st_table r = T_Course then Some (st_id r)
      else if st_table r = T_TajweedAnnotationRevision then None
      else column_along s (course_path (st_table r)) ''courseId'' r)"

text \<open>The keys whose two rows have to be of one course: all that bind, and a quiz's session.\<close>

definition binds :: "tbl \<Rightarrow> string \<Rightarrow> on_delete \<Rightarrow> bool" where
  "binds t k a \<longleftrightarrow> a \<noteq> Set_Null \<or> (t = T_Quiz \<and> k = ''sessionId'')"

definition key :: "stored \<Rightarrow> tbl \<times> string" where
  "key r = (st_table r, st_id r)"

definition refs_ok :: "store \<Rightarrow> stored \<Rightarrow> bool" where
  "refs_ok s r \<longleftrightarrow> (\<forall>(t, k, p, a) \<in> set foreign_keys. t \<noteq> st_table r \<or>
     (case st_refs r k of
        None \<Rightarrow> a = Set_Null \<or> (t, k) \<in> set optional_columns
      | Some i \<Rightarrow> \<exists>d \<in> set s. key d = (p, i) \<and> (binds t k a \<longrightarrow> course_of_row s d = course_of_row s r)))"

definition tables_ok :: "store \<Rightarrow> bool" where
  "tables_ok s \<longleftrightarrow> distinct (map key s) \<and> (\<forall>r \<in> set s. refs_ok s r)"

lemma refs_okD:
  assumes "tables_ok s" and "r \<in> set s" and "(st_table r, k, p, a) \<in> set foreign_keys"
  shows "st_refs r k = Some i \<Longrightarrow> \<exists>d \<in> set s. key d = (p, i) \<and> (binds (st_table r) k a \<longrightarrow> course_of_row s d = course_of_row s r)"
    and "st_refs r k = None \<Longrightarrow> a = Set_Null \<or> (st_table r, k) \<in> set optional_columns"
  using assms unfolding tables_ok_def refs_ok_def by (force split: option.splits)+

lemma one_key: "(t, k, p, a) \<in> set foreign_keys \<Longrightarrow> (t, k, p', a') \<in> set foreign_keys \<Longrightarrow> p' = p \<and> a' = a"
proof -
  have "distinct (map (\<lambda>(t, k, p, a). (t, k)) foreign_keys)" by code_simp
  moreover assume "(t, k, p, a) \<in> set foreign_keys" "(t, k, p', a') \<in> set foreign_keys"
  ultimately show ?thesis using inj_onD [of "\<lambda>(t, k, p, a). (t, k)" "set foreign_keys" "(t, k, p, a)" "(t, k, p', a')"]
    by (simp add: distinct_map)
qed

lemma find_row_key:
  assumes "distinct (map key s)" and "d \<in> set s"
  shows "find_row s (st_table d) (st_id d) = Some d"
proof -
  obtain x where x: "find_row s (st_table d) (st_id d) = Some x"
    using assms(2) by (cases "find_row s (st_table d) (st_id d)") (auto simp: find_row_def find_None_iff)
  then have "x \<in> set s" "key x = key d" by (auto simp: find_row_def find_Some_iff key_def)
  then show ?thesis using inj_onD [of key "set s" x d] assms x by (simp add: distinct_map)
qed

lemma same_key: "tables_ok s \<Longrightarrow> d \<in> set s \<Longrightarrow> e \<in> set s \<Longrightarrow> key e = key d \<Longrightarrow> e = d"
  by (auto simp: tables_ok_def distinct_map dest: inj_onD)

lemma refers_iff: "refers a r d \<longleftrightarrow> (\<exists>k. (st_table r, k, st_table d, a) \<in> set foreign_keys \<and> st_refs r k = Some (st_id d))"
  by (fastforce simp: refers_def list_ex_iff)

section \<open>One statement\<close>

lemma cascade_splits:
  "cascade rest dead = (R, D) \<Longrightarrow> set R \<union> set D = set rest \<union> set dead \<and> set R \<subseteq> set rest \<and> set dead \<subseteq> set D \<and>
     (distinct (map key rest) \<longrightarrow> distinct (map key R)) \<and> (\<forall>r \<in> set R. \<forall>d \<in> set D. \<not> refers Cascade r d) \<and>
     ((\<forall>r \<in> set rest. \<forall>d \<in> set dead. key r \<noteq> key d) \<longrightarrow> distinct (map key rest) \<longrightarrow> (\<forall>r \<in> set R. \<forall>d \<in> set D. key r \<noteq> key d))"
proof (induction rest dead rule: cascade.induct)
  case (1 rest dead)
  let ?new = "filter (\<lambda>r. list_ex (refers Cascade r) dead) rest"
  let ?old = "filter (\<lambda>r. \<not> list_ex (refers Cascade r) dead) rest"
  show ?case
  proof (cases "?new = []")
    case True
    then show ?thesis using 1(2) by (subst (asm) cascade.simps) (auto simp: filter_empty_conv list_ex_iff)
  next
    case False
    then have c: "cascade ?old (dead @ ?new) = (R, D)" using 1(2) by (subst (asm) cascade.simps) (simp add: Let_def)
    have u: "set ?old \<union> set (dead @ ?new) = set rest \<union> set dead" by auto
    have d: "(\<forall>r \<in> set rest. \<forall>d \<in> set dead. key r \<noteq> key d) \<Longrightarrow> distinct (map key rest) \<Longrightarrow>
        \<forall>r \<in> set ?old. \<forall>d \<in> set (dead @ ?new). key r \<noteq> key d"
      by (auto simp: distinct_map dest: inj_onD)
    note IH = 1(1) [OF HOL.refl False c]
    show ?thesis
      using IH d distinct_map_filter [of key rest "\<lambda>r. \<not> list_ex (refers Cascade r) dead"] unfolding u by auto
  qed
qed

lemma cascade_dead:
  assumes "\<forall>d \<in> set dead. Q d" and "\<And>r d. r \<in> set rest \<Longrightarrow> Q d \<Longrightarrow> refers Cascade r d \<Longrightarrow> Q r" and "cascade rest dead = (R, D)"
  shows "\<forall>d \<in> set D. Q d"
  using assms
proof (induction rest dead rule: cascade.induct)
  case (1 rest dead)
  let ?new = "filter (\<lambda>r. list_ex (refers Cascade r) dead) rest"
  show ?case
  proof (cases "?new = []")
    case True
    then show ?thesis using 1(2,4) by (subst (asm) cascade.simps) simp
  next
    case False
    then have c: "cascade (filter (\<lambda>r. \<not> list_ex (refers Cascade r) dead) rest) (dead @ ?new) = (R, D)"
      using 1(4) by (subst (asm) cascade.simps) (simp add: Let_def)
    have "\<forall>d \<in> set (dead @ ?new). Q d" using 1(2,3) by (auto simp: list_ex_iff)
    then show ?thesis using 1(1) [OF HOL.refl False _ _ c] 1(3) by (meson filter_is_subset subsetD)
  qed
qed

text \<open>What a delete that is not refused leaves of the rows, and what it takes.\<close>

definition cut :: "store \<Rightarrow> store \<Rightarrow> store \<Rightarrow> bool" where
  "cut s R D \<longleftrightarrow> set R \<union> set D = set s \<and> distinct (map key R) \<and> (\<forall>r \<in> set R. \<forall>d \<in> set D. key r \<noteq> key d \<and> \<not> refers Cascade r d) \<and>
     (\<forall>r \<in> set s. \<forall>d \<in> set D. \<not> refers Restrict r d)"

lemma delete_many_cut:
  assumes "tables_ok s" and "delete_many P s = Some s'"
  obtains R D where "s' = map (null_refs D) R" and "cut s R D" and "\<forall>r \<in> set s. P r \<longrightarrow> r \<in> set D"
    and "cascade (filter (\<lambda>r. \<not> P r) s) (filter P s) = (R, D)"
proof -
  obtain R D where c: "cascade (filter (\<lambda>r. \<not> P r) s) (filter P s) = (R, D)" by fastforce
  have d: "distinct (map key (filter (\<lambda>r. \<not> P r) s))" using assms(1) by (simp add: tables_ok_def distinct_map_filter)
  have k: "\<forall>r \<in> set (filter (\<lambda>r. \<not> P r) s). \<forall>e \<in> set (filter P s). key r \<noteq> key e"
    using assms(1) by (auto simp: tables_ok_def distinct_map dest: inj_onD)
  have u: "set (filter (\<lambda>r. \<not> P r) s) \<union> set (filter P s) = set s" by auto
  note x = cascade_splits [OF c, unfolded u]
  have "s' = map (null_refs D) R" "\<forall>r \<in> set s. \<forall>e \<in> set D. \<not> refers Restrict r e"
    using assms(2) by (auto simp: delete_many_def c list_ex_iff split: if_splits)
  moreover have "cut s R D" using x d k calculation(2) unfolding cut_def by blast
  moreover have "\<forall>r \<in> set s. P r \<longrightarrow> r \<in> set D" using x by auto
  ultimately show ?thesis using that c by blast
qed

lemma null_refs_key [simp]: "key (null_refs D r) = key r" "st_table (null_refs D r) = st_table r" "st_id (null_refs D r) = st_id r"
  by (simp_all add: null_refs_def key_def)

lemma map_of_filter_key: "map_of (filter (\<lambda>(k, _). P k) xs) k = (if P k then map_of xs k else None)"
  by (induction xs) auto

lemma null_refs_refs:
  "st_refs (null_refs D r) k = (if list_ex (\<lambda>(t, k', p, a). a = Set_Null \<and> t = st_table r \<and> k' = k \<and>
     list_ex (\<lambda>d. st_table d = p \<and> st_refs r k = Some (st_id d)) D) foreign_keys then None else st_refs r k)"
  unfolding null_refs_def st_refs_def by (simp add: map_of_filter_key)

lemma null_refs_some: "st_refs (null_refs D r) k = Some i \<Longrightarrow> st_refs r k = Some i"
  by (simp add: null_refs_refs split: if_splits)

lemma null_refs_keep:
  assumes "(st_table r, k, p, a) \<in> set foreign_keys" and "a \<noteq> Set_Null"
  shows "st_refs (null_refs D r) k = st_refs r k"
  using one_key [OF assms(1)] assms(2) by (fastforce simp: null_refs_refs list_ex_iff)

lemma null_refs_gone:
  assumes "(st_table r, k, p, Set_Null) \<in> set foreign_keys" and "d \<in> set D" and "key d = (p, i)"
  shows "st_refs (null_refs D r) k \<noteq> Some i"
proof
  assume x: "st_refs (null_refs D r) k = Some i"
  have "list_ex (\<lambda>d. st_table d = p \<and> st_refs r k = Some (st_id d)) D"
    using assms(2,3) null_refs_some [OF x] by (auto simp: list_ex_iff key_def)
  then have "list_ex (\<lambda>(t, k', p, a). a = Set_Null \<and> t = st_table r \<and> k' = k \<and>
      list_ex (\<lambda>d. st_table d = p \<and> st_refs r k = Some (st_id d)) D) foreign_keys"
    using assms(1) by (subst list_ex_iff) blast
  then show False using x by (simp add: null_refs_refs)
qed

lemma cut_target:
  assumes "cut s R D" and "r \<in> set R" and "d \<in> set s" and "(st_table r, k, st_table d, a) \<in> set foreign_keys"
    and "st_refs r k = Some (st_id d)" and "a \<noteq> Set_Null"
  shows "d \<in> set R"
proof (rule ccontr)
  assume "d \<notin> set R"
  then have d: "d \<in> set D" using assms(1,3) by (auto simp: cut_def)
  have "refers a r d" using assms(4,5) by (auto simp: refers_iff)
  then show False using assms(1,2,6) d by (cases a) (auto simp: cut_def)
qed

fun good_path :: "tbl \<Rightarrow> (string \<times> tbl) list \<Rightarrow> bool" where
  "good_path t [] = list_ex (\<lambda>(t', k, p, a). t' = t \<and> k = ''courseId'' \<and> p = T_Course \<and> a \<noteq> Set_Null) foreign_keys"
| "good_path t ((j, u) # ps) = (list_ex (\<lambda>(t', k, p, a). t' = t \<and> k = j \<and> p = u \<and> a \<noteq> Set_Null) foreign_keys \<and> good_path u ps)"

lemma course_path_good: "t \<noteq> T_Course \<Longrightarrow> t \<noteq> T_TajweedAnnotationRevision \<Longrightarrow> good_path t (course_path t)"
  by (cases t) (simp_all, code_simp+)

lemma along_kept:
  assumes "tables_ok s" and "cut s R D" and "good_path (st_table r) ps" and "r \<in> set R"
  shows "column_along (map (null_refs D) R) ps ''courseId'' (null_refs D r) = column_along s ps ''courseId'' r"
  using assms(3,4)
proof (induction ps arbitrary: r)
  case Nil
  then obtain a where "(st_table r, ''courseId'', T_Course, a) \<in> set foreign_keys" "a \<noteq> Set_Null" by (auto simp: list_ex_iff)
  then show ?case by (simp add: null_refs_keep)
next
  case (Cons x ps)
  obtain j u where x: "x = (j, u)" by (cases x)
  obtain a where fk: "(st_table r, j, u, a) \<in> set foreign_keys" "a \<noteq> Set_Null" and g: "good_path u ps"
    using Cons.prems(1) by (auto simp: x list_ex_iff)
  have rs: "r \<in> set s" using Cons.prems(2) assms(2) by (auto simp: cut_def)
  show ?case
  proof (cases "st_refs r j")
    case (Some i)
    then obtain d where d: "d \<in> set s" "st_table d = u" "st_id d = i"
      using refs_okD(1) [OF assms(1) rs fk(1) Some] by (auto simp: key_def)
    have dR: "d \<in> set R" using cut_target [OF assms(2) Cons.prems(2) d(1), of j a] fk Some d by simp
    have "find_row s u i = Some d" using find_row_key [of s d] assms(1) d by (simp add: tables_ok_def)
    moreover have "find_row (map (null_refs D) R) u i = Some (null_refs D d)"
      using find_row_key [of "map (null_refs D) R" "null_refs D d"] assms(2) dR d by (simp add: cut_def comp_def)
    ultimately show ?thesis using Cons.IH [of d] g d dR Some by (simp add: x null_refs_keep [OF fk])
  qed (simp add: x null_refs_keep [OF fk])
qed

lemma course_kept:
  assumes "tables_ok s" and "cut s R D" and "r \<in> set R"
  shows "course_of_row (map (null_refs D) R) (null_refs D r) = course_of_row s r"
  using along_kept [OF assms(1,2) course_path_good assms(3)] by (simp add: course_of_row_def)

lemma tables_kept:
  assumes ok: "tables_ok s" and c: "cut s R D"
  shows "tables_ok (map (null_refs D) R)"
proof -
  let ?s = "map (null_refs D) R"
  have "refs_ok ?s (null_refs D r)" if r: "r \<in> set R" for r
  proof -
    have rs: "r \<in> set s" using r c by (auto simp: cut_def)
    have "case st_refs (null_refs D r) k of
        None \<Rightarrow> a = Set_Null \<or> (st_table r, k) \<in> set optional_columns
      | Some i \<Rightarrow> \<exists>d \<in> set ?s. key d = (p, i) \<and> (binds (st_table r) k a \<longrightarrow> course_of_row ?s d = course_of_row ?s (null_refs D r))"
      if fk: "(st_table r, k, p, a) \<in> set foreign_keys" for k p a
    proof (cases "st_refs (null_refs D r) k")
      case None
      then show ?thesis using refs_okD(2) [OF ok rs fk] null_refs_keep [OF fk, of D] by (cases "a = Set_Null") simp_all
    next
      case (Some i)
      note i = null_refs_some [OF Some]
      obtain d where d: "d \<in> set s" "key d = (p, i)" "binds (st_table r) k a \<longrightarrow> course_of_row s d = course_of_row s r"
        using refs_okD(1) [OF ok rs fk i] by blast
      have "d \<in> set R"
      proof (cases "a = Set_Null")
        case True
        then have "d \<notin> set D" using null_refs_gone [of r k p d D i] fk d(2) Some by blast
        then show ?thesis using d(1) c by (auto simp: cut_def)
      qed (use cut_target [OF c r d(1), of k a] fk i d(2) in \<open>auto simp: key_def\<close>)
      then show ?thesis using Some d(2,3) course_kept [OF ok c] r by auto
    qed
    then show ?thesis unfolding refs_ok_def by auto
  qed
  then show ?thesis using c by (auto simp: tables_ok_def cut_def comp_def)
qed

text \<open>A row and what is left of it: the same row, of the same course, with the same columns but for those
  that a delete sets to null.\<close>

definition nullable :: "tbl \<Rightarrow> string \<Rightarrow> bool" where
  "nullable t k = list_ex (\<lambda>(t', k', p, a). t' = t \<and> k' = k \<and> a = Set_Null) foreign_keys"

definition left_of :: "store \<Rightarrow> stored \<Rightarrow> store \<Rightarrow> stored \<Rightarrow> bool" where
  "left_of s r s' r' \<longleftrightarrow> key r' = key r \<and> st_refs r' \<subseteq>\<^sub>m st_refs r \<and> course_of_row s' r' = course_of_row s r \<and>
     (\<forall>k. \<not> nullable (st_table r) k \<longrightarrow> st_refs r' k = st_refs r k)"

lemma left_of_trans: "left_of s r s' r' \<Longrightarrow> left_of s' r' s'' r'' \<Longrightarrow> left_of s r s'' r''"
  by (auto simp: left_of_def key_def intro: map_le_trans)

lemma left_of_refl [simp]: "left_of s r s r"
  by (simp add: left_of_def)

lemma null_refs_fixed: "\<not> nullable (st_table r) k \<Longrightarrow> st_refs (null_refs D r) k = st_refs r k"
  by (fastforce simp: null_refs_refs nullable_def list_ex_iff)

lemma delete_many_rows:
  assumes ok: "tables_ok s" and P: "\<And>r. r \<in> set s \<Longrightarrow> P r \<Longrightarrow> Q r"
    and Q: "\<And>r d. r \<in> set s \<Longrightarrow> d \<in> set s \<Longrightarrow> Q d \<Longrightarrow> refers Cascade r d \<Longrightarrow> Q r"
    and R: "\<And>r d. r \<in> set s \<Longrightarrow> d \<in> set s \<Longrightarrow> Q d \<Longrightarrow> \<not> refers Restrict r d"
  shows "\<exists>s'. delete_many P s = Some s' \<and> tables_ok s' \<and> (\<forall>r' \<in> set s'. \<exists>r \<in> set s. \<not> P r \<and> left_of s r s' r') \<and>
    (\<forall>r \<in> set s. \<not> Q r \<longrightarrow> (\<exists>r' \<in> set s'. left_of s r s' r'))"
proof -
  obtain R0 D0 where c0: "cascade (filter (\<lambda>r. \<not> P r) s) (filter P s) = (R0, D0)" by fastforce
  have u: "set (filter (\<lambda>r. \<not> P r) s) \<union> set (filter P s) = set s" by auto
  have D0: "\<forall>d \<in> set D0. d \<in> set s \<and> Q d"
  proof (rule cascade_dead [OF _ _ c0])
    show "\<forall>d \<in> set (filter P s). d \<in> set s \<and> Q d" using P by simp
    show "r \<in> set s \<and> Q r" if "r \<in> set (filter (\<lambda>r. \<not> P r) s)" "d \<in> set s \<and> Q d" "refers Cascade r d" for r d
      using that Q [of r d] by simp
  qed
  then obtain s' where s': "delete_many P s = Some s'" using R by (force simp: delete_many_def c0 list_ex_iff)
  obtain R1 D1 where x: "s' = map (null_refs D1) R1" "cut s R1 D1" "\<forall>r \<in> set s. P r \<longrightarrow> r \<in> set D1"
    and c: "cascade (filter (\<lambda>r. \<not> P r) s) (filter P s) = (R1, D1)" using delete_many_cut [OF ok s'] .
  have D1: "\<forall>d \<in> set D1. Q d" using D0 c c0 by simp
  have l: "left_of s r s' (null_refs D1 r)" if "r \<in> set R1" for r
  proof -
    have "st_refs (null_refs D1 r) \<subseteq>\<^sub>m st_refs r" using null_refs_some [of D1 r] by (auto simp: map_le_def dom_def)
    then show ?thesis using course_kept [OF ok x(2) that] null_refs_fixed [of r _ D1] unfolding left_of_def x(1) by simp
  qed
  have "\<forall>r' \<in> set s'. \<exists>r \<in> set s. \<not> P r \<and> left_of s r s' r'"
  proof
    fix r' assume "r' \<in> set s'"
    then obtain r where r: "r \<in> set R1" "r' = null_refs D1 r" by (auto simp: x(1))
    then have "r \<in> set s" "\<not> P r" using x(2,3) by (auto simp: cut_def)
    then show "\<exists>r \<in> set s. \<not> P r \<and> left_of s r s' r'" using l r by blast
  qed
  moreover have "\<forall>r \<in> set s. \<not> Q r \<longrightarrow> (\<exists>r' \<in> set s'. left_of s r s' r')"
  proof (intro ballI impI)
    fix r assume "r \<in> set s" "\<not> Q r"
    then have "r \<in> set R1" using D1 x(2) by (auto simp: cut_def)
    then show "\<exists>r' \<in> set s'. left_of s r s' r'" using l unfolding x(1) by auto
  qed
  ultimately show ?thesis using s' tables_kept [OF ok x(2)] x(1) by blast
qed

section \<open>The order of the statements\<close>

definition widen :: "tbl list \<Rightarrow> tbl list" where
  "widen ts = remdups (ts @ map fst (filter (\<lambda>(t, k, p, a). a = Cascade \<and> p \<in> set ts) foreign_keys))"

text \<open>The tables a delete reaches by cascades, which are three deep at most.\<close>

definition reach :: "tbl \<Rightarrow> tbl list" where
  "reach t = widen (widen (widen [t]))"

text \<open>A delete is safe if the tables it reaches are closed under cascades and only emptied tables restrict them.\<close>

definition safe :: "tbl list \<Rightarrow> tbl \<Rightarrow> bool" where
  "safe gone t \<longleftrightarrow> (let rs = reach t in list_all (\<lambda>(t', k, p, a).
     p \<notin> set rs \<or> (if a = Cascade then t' \<in> set rs else a \<noteq> Restrict \<or> t' \<in> set gone)) foreign_keys)"

text \<open>A table whose rows must refer to an emptied one is emptied with it, and one further.\<close>

definition spread :: "tbl list \<Rightarrow> tbl list" where
  "spread gone = remdups (gone @ map fst (filter (\<lambda>(t, k, p, a).
     p \<in> set gone \<and> a \<noteq> Set_Null \<and> (t, k) \<notin> set optional_columns) foreign_keys))"

definition emptying :: "tbl list \<Rightarrow> tbl \<Rightarrow> tbl list" where
  "emptying gone t = spread (spread [t]) @ gone"

fun order_ok :: "tbl list \<Rightarrow> tbl list \<Rightarrow> bool" where
  "order_ok gone [] = True"
| "order_ok gone (t # ts) = (safe gone t \<and> order_ok (emptying gone t) ts)"

definition emptied :: "store \<Rightarrow> string \<Rightarrow> tbl list \<Rightarrow> bool" where
  "emptied s c gone \<longleftrightarrow> (\<forall>r \<in> set s. st_table r \<in> set gone \<longrightarrow> course_of_row s r \<noteq> Some c)"

lemma emptied_spread:
  assumes "tables_ok s" and "emptied s c gone"
  shows "emptied s c (spread gone)"
proof -
  have "course_of_row s r \<noteq> Some c"
    if r: "r \<in> set s" and k: "(st_table r, k, p, a) \<in> set foreign_keys" "p \<in> set gone" "a \<noteq> Set_Null"
      "(st_table r, k) \<notin> set optional_columns" for r k p a
  proof -
    obtain i where "st_refs r k = Some i" using refs_okD(2) [OF assms(1) r k(1)] k(3,4) by blast
    then obtain d where "d \<in> set s" "key d = (p, i)" "course_of_row s d = course_of_row s r"
      using refs_okD(1) [OF assms(1) r k(1)] k(3) by (auto simp: binds_def)
    then show ?thesis using assms(2) k(2) by (auto simp: emptied_def key_def)
  qed
  then show ?thesis using assms(2) unfolding emptied_def spread_def by fastforce
qed

lemma emptied_left:
  assumes "emptied s c gone" and "\<forall>r' \<in> set s'. \<exists>r \<in> set s. \<not> P r \<and> left_of s r s' r'"
  shows "emptied s' c gone"
  using assms unfolding emptied_def left_of_def key_def by (metis prod.inject)

text \<open>Rows of other courses stay; the revisions of marks, which name a mark by no key, are stated apart.\<close>

definition others_stay :: "store \<Rightarrow> string \<Rightarrow> store \<Rightarrow> bool" where
  "others_stay s c s' \<longleftrightarrow> (\<forall>r \<in> set s. st_table r \<noteq> T_TajweedAnnotationRevision \<longrightarrow> course_of_row s r \<noteq> Some c \<longrightarrow>
     (\<exists>r' \<in> set s'. left_of s r s' r'))"

lemma others_stay_trans: "others_stay s c s' \<Longrightarrow> others_stay s' c s'' \<Longrightarrow> others_stay s c s''"
  unfolding others_stay_def by (metis left_of_trans left_of_def key_def prod.inject)

text \<open>Nothing is made anew, and tables that no delete reaches keep their rows.\<close>

definition kept_by :: "tbl list \<Rightarrow> store \<Rightarrow> store \<Rightarrow> bool" where
  "kept_by ts s s' \<longleftrightarrow> (\<forall>r' \<in> set s'. \<exists>r \<in> set s. left_of s r s' r') \<and>
     (\<forall>r \<in> set s. list_all (\<lambda>t. st_table r \<notin> set (reach t)) ts \<longrightarrow> (\<exists>r' \<in> set s'. left_of s r s' r'))"

lemma kept_by_trans:
  assumes "kept_by ts s s'" and "kept_by us s' s''"
  shows "kept_by (ts @ us) s s''"
proof -
  have "\<exists>r \<in> set s. left_of s r s'' r''" if "r'' \<in> set s''" for r''
    using assms that left_of_trans unfolding kept_by_def by metis
  moreover have "\<exists>r'' \<in> set s''. left_of s r s'' r''"
    if rs: "r \<in> set s" "list_all (\<lambda>t. st_table r \<notin> set (reach t)) (ts @ us)" for r
  proof -
    have "list_all (\<lambda>t. st_table r \<notin> set (reach t)) ts" using rs(2) by simp
    then obtain r' where r': "r' \<in> set s'" "left_of s r s' r'" using assms(1) rs(1) unfolding kept_by_def by blast
    then have "st_table r' = st_table r" by (simp add: left_of_def key_def)
    then have "list_all (\<lambda>t. st_table r' \<notin> set (reach t)) us" using rs(2) by simp
    then obtain r'' where "r'' \<in> set s''" "left_of s' r' s'' r''" using assms(2) r'(1) unfolding kept_by_def by blast
    then show ?thesis using left_of_trans [OF r'(2)] by blast
  qed
  ultimately show ?thesis unfolding kept_by_def by blast
qed

lemma refers_course:
  assumes "tables_ok s" and "r \<in> set s" and "d \<in> set s" and "refers a r d" and "a \<noteq> Set_Null"
  shows "course_of_row s d = course_of_row s r"
proof -
  obtain k where k: "(st_table r, k, st_table d, a) \<in> set foreign_keys" "st_refs r k = Some (st_id d)"
    using assms(4) by (auto simp: refers_iff)
  then obtain e where e: "e \<in> set s" "key e = key d" "course_of_row s e = course_of_row s r"
    using refs_okD(1) [OF assms(1,2) k] assms(5) by (auto simp: binds_def key_def)
  then have "e = d" using same_key [OF assms(1,3)] by simp
  then show ?thesis using e(3) by simp
qed

lemma safe_delete:
  assumes ok: "tables_ok s" and P: "\<And>r. r \<in> set s \<Longrightarrow> P r \<longleftrightarrow> st_table r = t \<and> course_of_row s r = Some c"
    and safe: "safe gone t" and gone: "emptied s c gone"
  shows "\<exists>s'. delete_many P s = Some s' \<and> tables_ok s' \<and> emptied s' c (emptying gone t) \<and> others_stay s c s' \<and>
    kept_by [t] s s'"
proof -
  let ?Q = "\<lambda>r. st_table r \<in> set (reach t) \<and> course_of_row s r = Some c"
  have t: "t \<in> set (reach t)" by (simp add: reach_def widen_def)
  have "\<exists>s'. delete_many P s = Some s' \<and> tables_ok s' \<and> (\<forall>r' \<in> set s'. \<exists>r \<in> set s. \<not> P r \<and> left_of s r s' r') \<and>
    (\<forall>r \<in> set s. \<not> ?Q r \<longrightarrow> (\<exists>r' \<in> set s'. left_of s r s' r'))"
  proof (rule delete_many_rows [OF ok])
    show "?Q r" if "r \<in> set s" "P r" for r using that P t by simp
    show "?Q r" if "r \<in> set s" "d \<in> set s" "?Q d" "refers Cascade r d" for r d
      using that safe refers_course [OF ok that(1,2,4)] by (fastforce simp: safe_def Let_def list_all_iff refers_iff)
    show "\<not> refers Restrict r d" if "r \<in> set s" "d \<in> set s" "?Q d" for r d
    proof
      assume x: "refers Restrict r d"
      then obtain k where "(st_table r, k, st_table d, Restrict) \<in> set foreign_keys" by (auto simp: refers_iff)
      then have "st_table r \<in> set gone" using safe that(3) by (fastforce simp: safe_def Let_def list_all_iff)
      then show False using gone that refers_course [OF ok that(1,2) x] by (simp add: emptied_def)
    qed
  qed
  then obtain s' where s': "delete_many P s = Some s'" "tables_ok s'"
    and src: "\<forall>r' \<in> set s'. \<exists>r \<in> set s. \<not> P r \<and> left_of s r s' r'"
    and stay: "\<forall>r \<in> set s. \<not> ?Q r \<longrightarrow> (\<exists>r' \<in> set s'. left_of s r s' r')" by blast
  have "emptied s' c [t]" using src P unfolding emptied_def left_of_def key_def by (metis empty_iff list.set(1) prod.inject set_ConsD)
  then have "emptied s' c (spread (spread [t]))" by (intro emptied_spread s'(2))
  then have "emptied s' c (emptying gone t)" using emptied_left [OF gone src] by (auto simp: emptied_def emptying_def)
  moreover have "others_stay s c s'" using stay by (auto simp: others_stay_def)
  moreover have "kept_by [t] s s'" using src stay unfolding kept_by_def by auto
  ultimately show ?thesis using s' by blast
qed

section \<open>What a statement matches\<close>

fun bound_path :: "tbl \<Rightarrow> (string \<times> tbl) list \<Rightarrow> bool" where
  "bound_path t [] = good_path t []"
| "bound_path t ((j, u) # ps) = (list_ex (\<lambda>(t', k, p, a). t' = t \<and> k = j \<and> p = u \<and> binds t k a) foreign_keys \<and> bound_path u ps)"

lemma along_same:
  assumes "tables_ok s" and "bound_path (st_table r) ps" and "r \<in> set s" and "column_along s ps ''courseId'' r = Some c"
  shows "course_of_row s r = Some c"
  using assms(2-4)
proof (induction ps arbitrary: r)
  case Nil
  then obtain a where fk: "(st_table r, ''courseId'', T_Course, a) \<in> set foreign_keys" "a \<noteq> Set_Null" by (auto simp: list_ex_iff)
  then obtain d where "key d = (T_Course, c)" "course_of_row s d = course_of_row s r"
    using refs_okD(1) [OF assms(1) Nil(2) fk(1), of c] Nil(3) by (auto simp: binds_def)
  then show ?case by (simp add: course_of_row_def key_def)
next
  case (Cons x ps)
  obtain j u where x: "x = (j, u)" by (cases x)
  obtain a where fk: "(st_table r, j, u, a) \<in> set foreign_keys" "binds (st_table r) j a" and g: "bound_path u ps"
    using Cons.prems(1) by (auto simp: x list_ex_iff)
  obtain i d where i: "st_refs r j = Some i" and d: "find_row s u i = Some d" "column_along s ps ''courseId'' d = Some c"
    using Cons.prems(3) by (auto simp: x bind_eq_Some_conv)
  have ds: "d \<in> set s" "key d = (u, i)" using d(1) by (auto simp: find_row_def find_Some_iff key_def)
  obtain e where e: "e \<in> set s" "key e = (u, i)" "course_of_row s e = course_of_row s r"
    using refs_okD(1) [OF assms(1) Cons.prems(2) fk(1) i] fk(2) by auto
  have "e = d" using same_key [OF assms(1) ds(1) e(1)] ds e by simp
  then show ?case using Cons.IH [of d] g ds d(2) e(3) by (simp add: key_def)
qed

definition statement_ok :: "tbl \<times> (string \<times> tbl) list list \<Rightarrow> bool" where
  "statement_ok = (\<lambda>(t, paths). t \<noteq> T_Course \<and> t \<noteq> T_TajweedAnnotationRevision \<and> course_path t \<in> set paths \<and>
     list_all (bound_path t) paths)"

lemma statement_matches:
  assumes "tables_ok s" and "statement_ok (t, paths)" and "r \<in> set s"
  shows "of_course s c (t, paths) r \<longleftrightarrow> st_table r = t \<and> course_of_row s r = Some c"
proof
  assume "of_course s c (t, paths) r"
  then obtain p where "st_table r = t" "p \<in> set paths" "column_along s p ''courseId'' r = Some c"
    by (auto simp: of_course_def list_ex_iff)
  then show "st_table r = t \<and> course_of_row s r = Some c"
    using along_same [OF assms(1) _ assms(3)] assms(2) by (auto simp: statement_ok_def list_all_iff)
next
  assume "st_table r = t \<and> course_of_row s r = Some c"
  then show "of_course s c (t, paths) r"
    using assms(2) by (auto simp: of_course_def statement_ok_def list_ex_iff course_of_row_def)
qed

lemma safe_deletes:
  assumes "tables_ok s" and "emptied s c gone" and "list_all statement_ok ds" and "order_ok gone (map fst ds)"
  shows "\<exists>s'. delete_all c ds s = Some s' \<and> tables_ok s' \<and> emptied s' c (foldl emptying gone (map fst ds)) \<and> others_stay s c s' \<and>
    kept_by (map fst ds) s s'"
  using assms
proof (induction ds arbitrary: s gone)
  case Nil
  then show ?case by (auto simp: others_stay_def kept_by_def intro: left_of_refl)
next
  case (Cons d ds)
  obtain t paths where d: "d = (t, paths)" by (cases d)
  have "of_course s c d r \<longleftrightarrow> st_table r = t \<and> course_of_row s r = Some c" if "r \<in> set s" for r
    using statement_matches [OF Cons.prems(1) _ that] Cons.prems(3) by (simp add: d)
  moreover have "safe gone t" and o: "order_ok (emptying gone t) (map fst ds)" using Cons.prems(4) by (simp_all add: d)
  ultimately obtain s1 where s1: "delete_many (of_course s c d) s = Some s1" "tables_ok s1" "emptied s1 c (emptying gone t)"
    "others_stay s c s1" "kept_by [t] s s1" using safe_delete [OF Cons.prems(1) _ _ Cons.prems(2)] by blast
  obtain s' where "delete_all c ds s1 = Some s'" "tables_ok s'" "emptied s' c (foldl emptying (emptying gone t) (map fst ds))"
    "others_stay s1 c s'" "kept_by (map fst ds) s1 s'" using Cons.IH [OF s1(2,3) _ o] Cons.prems(3) by auto
  then show ?case using s1 others_stay_trans [OF s1(4)] kept_by_trans [OF s1(5)] by (auto simp: d)
qed

lemma order_ok_append: "order_ok gone (xs @ ys) \<longleftrightarrow> order_ok gone xs \<and> order_ok (foldl emptying gone xs) ys"
  by (induction xs arbitrary: gone) auto

lemma order_of_statements:
  "list_all statement_ok deletions_before" "list_all statement_ok deletions_after"
  "order_ok [] (map fst deletions_before @ map fst deletions_after @ [T_Course])"
  by code_simp+

lemmas statements_ok = order_of_statements(1,2) order_of_statements(3) [unfolded order_ok_append order_ok.simps]

text \<open>The revisions of the marks of a course: found through the mark, while it is there.\<close>

definition history_of :: "store \<Rightarrow> string \<Rightarrow> stored \<Rightarrow> bool" where
  "history_of s c v \<longleftrightarrow> st_table v = T_TajweedAnnotationRevision \<and>
     (\<exists>m \<in> set s. st_table m = T_TajweedAnnotation \<and> st_refs m ''courseId'' = Some c \<and> st_refs v ''annotationId'' = Some (st_id m))"

lemma history_deleted:
  assumes "tables_ok s" and "emptied s c gone"
  shows "\<exists>s'. delete_history c s = Some s' \<and> tables_ok s' \<and> emptied s' c gone \<and> others_stay s c s' \<and>
    (\<forall>r' \<in> set s'. \<exists>r \<in> set s. \<not> history_of s c r \<and> left_of s r s' r') \<and>
    (\<forall>r \<in> set s. \<not> history_of s c r \<longrightarrow> (\<exists>r' \<in> set s'. left_of s r s' r'))"
proof -
  let ?P = "\<lambda>r. st_table r = T_TajweedAnnotationRevision \<and> (case st_refs r ''annotationId'' of None \<Rightarrow> False
     | Some i \<Rightarrow> i \<in> set (map st_id (filter (of_course s c (T_TajweedAnnotation, [[]])) s)))"
  have P: "?P = history_of s c" by (force simp: fun_eq_iff history_of_def of_course_def split: option.split)
  have "list_all (\<lambda>(t, k, p, a). p \<noteq> T_TajweedAnnotationRevision) foreign_keys" by code_simp
  then have n: "\<not> refers a r d" if "history_of s c d" for a r d
    using that by (fastforce simp: refers_iff list_all_iff history_of_def)
  obtain s' where s': "delete_many (history_of s c) s = Some s'" "tables_ok s'"
    and src: "\<forall>r' \<in> set s'. \<exists>r \<in> set s. \<not> history_of s c r \<and> left_of s r s' r'"
    and stay: "\<forall>r \<in> set s. \<not> history_of s c r \<longrightarrow> (\<exists>r' \<in> set s'. left_of s r s' r')"
    using delete_many_rows [OF assms(1), of "history_of s c" "history_of s c"] n by blast
  have "emptied s' c gone" by (rule emptied_left [OF assms(2) src])
  moreover have "others_stay s c s'" using stay by (auto simp: others_stay_def history_of_def)
  ultimately show ?thesis using s' src stay by (simp add: delete_history_def Let_def P)
qed

lemma widen_in: "t \<in> set (widen ts) \<longleftrightarrow> t \<in> set ts \<or> (\<exists>k p. (t, k, p, Cascade) \<in> set foreign_keys \<and> p \<in> set ts)"
  by (force simp: widen_def)

lemma cascades_of:
  "(T_Course, k, p, a) \<notin> set foreign_keys" "(T_TajweedAnnotationRevision, k, p, a) \<notin> set foreign_keys"
  "(T_TajweedAnnotation, k, p, Cascade) \<in> set foreign_keys \<Longrightarrow> p = T_Course"
  by (simp_all add: foreign_keys_def)

lemma reach_marks:
  "T_TajweedAnnotationRevision \<in> set (reach t) \<Longrightarrow> t = T_TajweedAnnotationRevision"
  "T_TajweedAnnotation \<in> set (reach t) \<Longrightarrow> t = T_TajweedAnnotation \<or> t = T_Course"
  unfolding reach_def widen_in using cascades_of by fastforce+

lemma outside_reach:
  "list_all (\<lambda>t. T_TajweedAnnotation \<notin> set (reach t)) (map fst deletions_before)"
  "list_all (\<lambda>t. T_TajweedAnnotationRevision \<notin> set (reach t)) (map fst deletions_before)"
  "list_all (\<lambda>t. T_TajweedAnnotationRevision \<notin> set (reach t)) (map fst deletions_after @ [T_Course])"
  using reach_marks by (fastforce simp: deletions_before_def deletions_after_def)+

lemma history_columns:
  "\<not> nullable T_TajweedAnnotation ''courseId''" "\<not> nullable T_TajweedAnnotationRevision ''annotationId''"
  by code_simp+

text \<open>The first statements do not touch marks or their history.\<close>

lemma history_before:
  assumes "kept_by (map fst deletions_before) s s1" and "left_of s v s1 v1"
  shows "history_of s1 c v1 \<longleftrightarrow> history_of s c v"
proof -
  let ?mark = "\<lambda>m. st_table m = T_TajweedAnnotation \<and> st_refs m ''courseId'' = Some c \<and> st_refs v ''annotationId'' = Some (st_id m)"
  have v: "st_table v1 = st_table v" "st_table v = T_TajweedAnnotationRevision \<longrightarrow> st_refs v1 ''annotationId'' = st_refs v ''annotationId''"
    using assms(2) history_columns(2) by (auto simp: left_of_def key_def)
  have m: "?mark m1 \<longleftrightarrow> ?mark m" if "left_of s m s1 m1" for m m1
    using that history_columns(1) by (auto simp: left_of_def key_def)
  have fwd: "\<exists>m1 \<in> set s1. left_of s m s1 m1" if "m \<in> set s" "?mark m" for m
    using assms(1) that outside_reach(1) unfolding kept_by_def by metis
  have bwd: "\<exists>m \<in> set s. left_of s m s1 m1" if "m1 \<in> set s1" for m1 using assms(1) that unfolding kept_by_def by metis
  have "(\<exists>x \<in> set s1. ?mark x) \<longleftrightarrow> (\<exists>x \<in> set s. ?mark x)" using m fwd bwd by meson
  then show ?thesis using v unfolding history_of_def by auto
qed

text \<open>Exactly the history of the course's marks goes.\<close>

definition history_goes :: "store \<Rightarrow> string \<Rightarrow> store \<Rightarrow> bool" where
  "history_goes s c s' \<longleftrightarrow> (\<forall>v \<in> set s. st_table v = T_TajweedAnnotationRevision \<longrightarrow>
     (if history_of s c v then \<forall>r' \<in> set s'. key r' \<noteq> key v else \<exists>v' \<in> set s'. left_of s v s' v'))"

lemma history_gone:
  assumes "tables_ok s1" and "kept_by (map fst deletions_before) s s1"
    and "\<forall>r' \<in> set s2. \<exists>r \<in> set s1. \<not> history_of s1 c r \<and> left_of s1 r s2 r'"
    and "\<forall>r \<in> set s1. \<not> history_of s1 c r \<longrightarrow> (\<exists>r' \<in> set s2. left_of s1 r s2 r')"
    and "kept_by (map fst deletions_after @ [T_Course]) s2 s4"
  shows "history_goes s c s4"
  unfolding history_goes_def
proof (intro ballI impI)
  fix v
  assume v: "v \<in> set s" "st_table v = T_TajweedAnnotationRevision"
  obtain v1 where v1: "v1 \<in> set s1" "left_of s v s1 v1"
    using assms(2) v outside_reach(2) by (auto simp: kept_by_def)
  note h = history_before [OF assms(2) v1(2), of c]
  have k: "key v1 = key v" using v1(2) by (simp add: left_of_def)
  show "if history_of s c v then \<forall>r' \<in> set s4. key r' \<noteq> key v else \<exists>v' \<in> set s4. left_of s v s4 v'"
  proof (cases "history_of s c v")
    case True
    have "key r4 \<noteq> key v" if r4: "r4 \<in> set s4" for r4
    proof
      assume e: "key r4 = key v"
      obtain r2 where r2: "r2 \<in> set s2" "left_of s2 r2 s4 r4" using assms(5) r4 unfolding kept_by_def by metis
      obtain r1 where r1: "r1 \<in> set s1" "\<not> history_of s1 c r1" "left_of s1 r1 s2 r2" using assms(3) r2(1) by metis
      have "key r1 = key v1" using e k r2(2) r1(3) by (simp add: left_of_def)
      then show False using same_key [OF assms(1) v1(1) r1(1)] r1(2) h True by simp
    qed
    then show ?thesis using True by simp
  next
    case False
    then obtain v2 where v2: "v2 \<in> set s2" "left_of s1 v1 s2 v2" using assms(4) v1(1) h by metis
    then have "st_table v2 = T_TajweedAnnotationRevision" using k v(2) by (simp add: left_of_def key_def)
    then obtain v4 where "v4 \<in> set s4" "left_of s2 v2 s4 v4" using assms(5) v2(1) outside_reach(3) by (auto simp: kept_by_def)
    then show ?thesis using False left_of_trans [OF v1(2) left_of_trans [OF v2(2)]] by auto
  qed
qed

lemma course_rows_deleted:
  assumes "tables_ok s"
  shows "\<exists>s'. delete_course_rows c s = Some s' \<and> tables_ok s' \<and> emptied s' c [T_Course] \<and> others_stay s c s' \<and> history_goes s c s'"
proof -
  let ?g = "foldl emptying [] (map fst deletions_before)"
  let ?h = "foldl emptying ?g (map fst deletions_after)"
  have "emptied s c []" by (simp add: emptied_def)
  then obtain s1 where s1: "delete_all c deletions_before s = Some s1" "tables_ok s1" "emptied s1 c ?g" "others_stay s c s1"
    "kept_by (map fst deletions_before) s s1" using safe_deletes [OF assms _ statements_ok(1)] statements_ok(3) by blast
  obtain s2 where s2: "delete_history c s1 = Some s2" "tables_ok s2" "emptied s2 c ?g" "others_stay s1 c s2"
    and h2: "\<forall>r' \<in> set s2. \<exists>r \<in> set s1. \<not> history_of s1 c r \<and> left_of s1 r s2 r'"
      "\<forall>r \<in> set s1. \<not> history_of s1 c r \<longrightarrow> (\<exists>r' \<in> set s2. left_of s1 r s2 r')"
    using history_deleted [OF s1(2,3)] by blast
  obtain s3 where s3: "delete_all c deletions_after s2 = Some s3" "tables_ok s3" "emptied s3 c ?h" "others_stay s2 c s3"
    "kept_by (map fst deletions_after) s2 s3" using safe_deletes [OF s2(2,3) statements_ok(2)] statements_ok(3) by blast
  have "(st_table r = T_Course \<and> st_id r = c) = (st_table r = T_Course \<and> course_of_row s3 r = Some c)" for r
    by (auto simp: course_of_row_def)
  then obtain s4 where s4: "delete_many (\<lambda>r. st_table r = T_Course \<and> st_id r = c) s3 = Some s4" "tables_ok s4"
    "emptied s4 c (emptying ?h T_Course)" "others_stay s3 c s4" "kept_by [T_Course] s3 s4"
    using safe_delete [OF s3(2) _ _ s3(3), of "\<lambda>r. st_table r = T_Course \<and> st_id r = c"] statements_ok(3) by blast
  have "emptied s4 c [T_Course]" using s4(3) by (auto simp: emptied_def emptying_def spread_def)
  moreover have "delete_course_rows c s = Some s4" by (simp add: delete_course_rows_def s1(1) s2(1) s3(1) s4(1))
  moreover have "others_stay s c s4" using s1(4) s2(4) s3(4) s4(4) by (meson others_stay_trans)
  moreover have "history_goes s c s4" by (rule history_gone [OF s1(2,5) h2 kept_by_trans [OF s3(5) s4(5)]])
  ultimately show ?thesis using s4(2) by blast
qed

text \<open>A row of a course has its course in the tables.\<close>

lemma course_stands:
  assumes "tables_ok s" and "r \<in> set s" and "course_of_row s r = Some c"
  shows "\<exists>d \<in> set s. key d = (T_Course, c)"
proof -
  have "\<exists>d \<in> set s. key d = (T_Course, c)" if "good_path (st_table r) ps" "r \<in> set s" "column_along s ps ''courseId'' r = Some c" for ps r
    using that
  proof (induction ps arbitrary: r)
    case Nil
    then show ?case using refs_okD(1) [OF assms(1) Nil(2)] by (fastforce simp: list_ex_iff)
  next
    case (Cons x ps)
    obtain j u where x: "x = (j, u)" by (cases x)
    obtain i d where d: "find_row s u i = Some d" "column_along s ps ''courseId'' d = Some c"
      using Cons.prems(3) by (auto simp: x bind_eq_Some_conv)
    then show ?case using Cons.IH [of d] Cons.prems(1) by (auto simp: x find_row_def find_Some_iff)
  qed
  then show ?thesis using assms(2,3) course_path_good [of "st_table r"]
    by (auto simp: course_of_row_def key_def split: if_splits)
qed

section \<open>The property\<close>

text \<open>C34: A course without batches is deleted whole: on consistent tables no statement of the deletion is
  refused by a foreign key, the tables stay consistent, no row that a foreign key leads to the course is left in
  any table, and every row of another course is still there, with the columns it had but for references set
  to null. Of the revisions of marks, which no key ties to their mark, exactly those go whose mark is there and
  of the course; a revision of a mark that was deleted earlier stays, whichever course it was of.\<close>

theorem course_is_deleted_whole:
  assumes "tables_ok s" and "own_org user = Inr oid" and "find_row s T_Course c = Some r"
    and "st_refs r ''organizationId'' = Some oid" and "\<forall>b \<in> set s. st_table b = T_Course \<longrightarrow> st_refs b ''parentCourseId'' \<noteq> Some c"
  shows "\<exists>s'. delete_course s user c = (s', Inr ()) \<and> tables_ok s' \<and> (\<forall>r' \<in> set s'. course_of_row s' r' \<noteq> Some c) \<and>
    others_stay s c s' \<and> history_goes s c s'"
proof -
  obtain s' where s': "delete_course_rows c s = Some s'" "tables_ok s'" "emptied s' c [T_Course]" "others_stay s c s'"
    "history_goes s c s'" using course_rows_deleted [OF assms(1)] by blast
  have "\<not> list_ex (\<lambda>b. st_table b = T_Course \<and> st_refs b ''parentCourseId'' = Some c) s" using assms(5) by (auto simp: list_ex_iff)
  then have "delete_course s user c = (s', Inr ())" using assms(2-4) s'(1) by (simp add: delete_course_def guard_or_def)
  moreover have "course_of_row s' r' \<noteq> Some c" if "r' \<in> set s'" for r'
    using course_stands [OF s'(2) that] s'(3) by (fastforce simp: emptied_def key_def course_of_row_def)
  ultimately show ?thesis using s'(2,4,5) by blast
qed

definition stored_row :: "tbl \<Rightarrow> string \<Rightarrow> (string \<times> string) list \<Rightarrow> stored" where
  "stored_row t i refs = \<lparr>st_table = t, st_id = i, st_columns = refs\<rparr>"

definition school_admin :: jwt_payload where
  "school_admin = \<lparr>jwt_sub = ''a'', jwt_role = ORG_ADMIN, jwt_name = [], jwt_email = [], jwt_organizationId = Some ''o'',
     jwt_emailVerified = True, jwt_isSuperAdmin = False, jwt_recorder = None, jwt_preview = None\<rparr>"

definition two_courses :: store where
  "two_courses =
     [stored_row T_Course ''c'' [(''organizationId'', ''o'')], stored_row T_Course ''d'' [(''organizationId'', ''o'')],
      stored_row T_LiveSession ''l'' [(''courseId'', ''c'')], stored_row T_Quiz ''q'' [(''courseId'', ''c''), (''sessionId'', ''l'')],
      stored_row T_Section ''e'' [(''courseId'', ''d'')], stored_row T_Assignment ''w'' [(''courseId'', ''d''), (''sessionId'', ''l'')],
      stored_row T_TajweedAnnotation ''m'' [(''courseId'', ''c'')], stored_row T_TajweedAnnotationRevision ''v'' [(''annotationId'', ''m'')]]"

text \<open>For small tables: the keys of one table at a time.\<close>

definition keys_of :: "tbl \<Rightarrow> (string \<times> tbl \<times> on_delete) list" where
  "keys_of t = map snd (filter (\<lambda>fk. fst fk = t) foreign_keys)"

definition tables_check :: "store \<Rightarrow> bool" where
  "tables_check s = (distinct (map key s) \<and> list_all (\<lambda>r. list_all (\<lambda>(k, p, a). case st_refs r k of
        None \<Rightarrow> a = Set_Null \<or> (st_table r, k) \<in> set optional_columns
      | Some i \<Rightarrow> (case find_row s p i of None \<Rightarrow> False
          | Some d \<Rightarrow> \<not> binds (st_table r) k a \<or> course_of_row s d = course_of_row s r)) (keys_of (st_table r))) s)"

lemma tables_checked:
  assumes "tables_check s"
  shows "tables_ok s"
proof -
  have "case st_refs r k of
      None \<Rightarrow> a = Set_Null \<or> (st_table r, k) \<in> set optional_columns
    | Some i \<Rightarrow> \<exists>d \<in> set s. key d = (p, i) \<and> (binds (st_table r) k a \<longrightarrow> course_of_row s d = course_of_row s r)"
    if r: "r \<in> set s" "(st_table r, k, p, a) \<in> set foreign_keys" for r k p a
  proof -
    have "(k, p, a) \<in> set (keys_of (st_table r))" using r(2) by (force simp: keys_of_def)
    then have "case st_refs r k of
        None \<Rightarrow> a = Set_Null \<or> (st_table r, k) \<in> set optional_columns
      | Some i \<Rightarrow> (case find_row s p i of None \<Rightarrow> False
          | Some d \<Rightarrow> \<not> binds (st_table r) k a \<or> course_of_row s d = course_of_row s r)"
      using assms r(1) by (fastforce simp: tables_check_def list_all_iff)
    then show ?thesis by (fastforce simp: find_row_def find_Some_iff key_def split: option.splits)
  qed
  then show ?thesis using assms by (auto simp: tables_ok_def refs_ok_def tables_check_def)
qed

lemma course_is_deleted_whole_witness:
  "let s' = fst (delete_course two_courses school_admin ''c'') in
   map st_id s' = [''d'', ''e'', ''w''] \<and> tables_ok s' \<and> others_stay two_courses ''c'' s' \<and> history_goes two_courses ''c'' s'"
proof -
  have ok: "tables_ok two_courses" by (rule tables_checked) code_simp
  have left: "map st_id (fst (delete_course two_courses school_admin ''c'')) = [''d'', ''e'', ''w'']" by code_simp
  have "own_org school_admin = Inr ''o''"
    "find_row two_courses T_Course ''c'' = Some (stored_row T_Course ''c'' [(''organizationId'', ''o'')])"
    "st_refs (stored_row T_Course ''c'' [(''organizationId'', ''o'')]) ''organizationId'' = Some ''o''"
    "\<forall>b \<in> set two_courses. st_table b = T_Course \<longrightarrow> st_refs b ''parentCourseId'' \<noteq> Some ''c''"
    by (simp_all add: own_org_def school_admin_def given_def find_row_def two_courses_def stored_row_def st_refs_def)
  from course_is_deleted_whole [OF ok this] show ?thesis using left by (auto simp: Let_def)
qed

section \<open>Where the deletion falls short\<close>

text \<open>The history of the marks is found through the marks that are still there: the revisions of a mark
  deleted earlier outlive the course.\<close>

lemma deleted_marks_outlive_their_course:
  "map st_id (fst (delete_course
     [stored_row T_Course ''c'' [(''organizationId'', ''o'')], stored_row T_TajweedAnnotation ''m'' [(''courseId'', ''c'')],
      stored_row T_TajweedAnnotationRevision ''v1'' [(''annotationId'', ''m'')],
      stored_row T_TajweedAnnotationRevision ''v2'' [(''annotationId'', ''gone'')]] school_admin ''c'')) = [''v2'']"
  by code_simp

text \<open>The migration restricts a submission's workspace, where the schema lets it be set to null: a student
  who handed work in from a workspace cannot leave the course (\<open>unenroll\<close>'s \<open>deleteMany\<close>).\<close>

definition handed_in :: store where
  "handed_in = [stored_row T_Course ''c'' [(''organizationId'', ''o'')],
     stored_row T_Enrollment ''n'' [(''courseId'', ''c''), (''studentId'', ''p'')],
     stored_row T_CodingAssignment ''t'' [(''courseId'', ''c'')],
     stored_row T_CodingEnrollmentWorkspace ''w'' [(''enrollmentId'', ''n''), (''courseId'', ''c'')],
     stored_row T_CodingSubmission ''s'' [(''assignmentId'', ''t''), (''workspaceId'', ''w'')]]"

lemma handed_in_work_blocks_leaving:
  "let leave = delete_many (\<lambda>r. st_table r = T_Enrollment \<and> st_refs r ''courseId'' = Some ''c'' \<and> st_refs r ''studentId'' = Some ''p'') in
   tables_ok handed_in \<and> leave (take 4 handed_in) \<noteq> None \<and> leave handed_in = None"
proof -
  let ?leave = "delete_many (\<lambda>r. st_table r = T_Enrollment \<and> st_refs r ''courseId'' = Some ''c'' \<and> st_refs r ''studentId'' = Some ''p'')"
  have "tables_ok handed_in" by (rule tables_checked) code_simp
  moreover have "?leave handed_in = None" by code_simp
  moreover have "?leave (take 4 handed_in) \<noteq> None" by code_simp
  ultimately show ?thesis by simp
qed

end
