(* ===== verification/Reminders.thy ===== *)
theory Reminders
  imports Programs
begin

text \<open>
  Mail before a class: \<open>src/reminders/reminders.service.ts\<close>, on the courses of \<open>Programs\<close>, the meetings of
  \<open>Schedule\<close> and the settings of \<open>Accounts\<close>. A delivery that fails is only logged by the mail service. The
  clock and the time zones that \<open>Intl\<close> knows are inputs, and so is how it writes a time of day.
\<close>

record class_reminder =
  cr_courseId :: string
  cr_dateKey :: string
  cr_scheduledAt :: int
  cr_sentAt :: int
  cr_studentId :: string
  cr_when :: string

text \<open>\<open>rr_emails\<close>: the e-mail column of the users; \<open>rr_latches\<close>: the rows of \<open>SessionReminder\<close>.\<close>

record reminders =
  rr_programs :: programs
  rr_orgs :: "org_account list"
  rr_emails :: "(string \<times> string) list"
  rr_latches :: "(string \<times> string) list"
  rr_mails :: "class_reminder list"

definition course_org :: "reminders \<Rightarrow> program \<Rightarrow> org_account option" where
  "course_org s c = Option.bind (co_organizationId c) (\<lambda>i. find (\<lambda>g. og_id g = i) (rr_orgs s))"

definition roster :: "reminders \<Rightarrow> string \<Rightarrow> string list" where
  "roster s courseId = map en_studentId (filter (\<lambda>r. en_courseId r = courseId) (pg_enrollments (rr_programs s)))"

text \<open>The query: an organization that wants reminders, a meeting time and somebody enrolled.\<close>

definition reminded_course :: "reminders \<Rightarrow> program \<Rightarrow> bool" where
  "reminded_course s c \<longleftrightarrow>
     (case course_org s c of None \<Rightarrow> False | Some g \<Rightarrow> og_preClassReminder g) \<and> pm_meetingTime c \<noteq> None \<and> roster s (co_id c) \<noteq> []"

definition lead_ms :: "reminders \<Rightarrow> program \<Rightarrow> int" where
  "lead_ms s c = (case course_org s c of None \<Rightarrow> 30 | Some g \<Rightarrow> og_reminderLeadMinutes g) * 60000"

text \<open>\<open>resolveJoinWindow\<close> throws when the schedule is complete and \<open>Intl\<close> does not know its zone: \<open>None\<close>. An
  incomplete schedule has no meetings, whatever its zone.\<close>

definition window_of :: "(string \<Rightarrow> zone option) \<Rightarrow> program \<Rightarrow> int \<Rightarrow> join_window option" where
  "window_of zones c now =
     (let known = (\<lambda>z. case zones z of None \<Rightarrow> (\<lambda>_. 0) | Some f \<Rightarrow> f); sched = schedule_of known c in
      if given (pm_timezone c) \<and> zones (the (pm_timezone c)) = None \<and> pm_startDate c \<noteq> None \<and>
         pm_durationWeeks c \<noteq> None \<and> pm_durationWeeks c \<noteq> Some 0 \<and> given (pm_meetingTime c) \<and>
         parse_hhmm (the (pm_meetingTime c)) \<noteq> None \<and> meeting_days sched \<noteq> []
      then None else Some (resolve_join_window sched now))"

definition next_due :: "(string \<Rightarrow> zone option) \<Rightarrow> reminders \<Rightarrow> int \<Rightarrow> program \<Rightarrow> occurrence option" where
  "next_due zones s now c =
     Option.bind (Option.bind (window_of zones c now) jw_next) (\<lambda>next.
       let untilMs = oc_scheduledAt next - now
       in if untilMs \<le> 0 \<or> untilMs > lead_ms s c then None else Some next)"

text \<open>\<open>Math.round\<close> is half up. The dot is U+00B7.\<close>

definition format_when :: "(int \<Rightarrow> string option \<Rightarrow> string option) \<Rightarrow> int \<Rightarrow> string option \<Rightarrow> int \<Rightarrow> string" where
  "format_when clock at' timezone untilMs =
     (let mins = max 1 ((untilMs + 30000) div 60000);
          rel = (if mins \<ge> 60 then ''in about '' @ int_text ((mins + 30) div 60) @ '' hour'' @ (if mins \<ge> 120 then ''s'' else [])
                 else ''in '' @ int_text mins @ '' minute'' @ (if mins = 1 then [] else ''s''))
      in (case clock at' timezone of None \<Rightarrow> rel | Some time \<Rightarrow> rel @ '' '' @ [CHR 0xC2, CHR 0xB7] @ '' '' @ time))"

definition mailed :: "reminders \<Rightarrow> string \<Rightarrow> bool" where
  "mailed s studentId = given (map_of (rr_emails s) studentId)"

definition remind :: "(int \<Rightarrow> string option \<Rightarrow> string option) \<Rightarrow> int \<Rightarrow> program \<Rightarrow> occurrence \<Rightarrow> reminders \<Rightarrow> reminders" where
  "remind clock now c next s =
     (if (co_id c, oc_dateKey next) \<in> set (rr_latches s) then s
      else s\<lparr>rr_latches := rr_latches s @ [(co_id c, oc_dateKey next)],
             rr_mails := rr_mails s @ map (\<lambda>u. \<lparr>cr_courseId = co_id c, cr_dateKey = oc_dateKey next,
                 cr_scheduledAt = oc_scheduledAt next, cr_sentAt = now, cr_studentId = u,
                 cr_when = format_when clock (oc_scheduledAt next) (pm_timezone c) (oc_scheduledAt next - now)\<rparr>)
               (filter (mailed s) (roster s (co_id c)))\<rparr>)"

text \<open>The sweep stops at the first course whose window throws.\<close>

fun sweep_courses ::
  "(string \<Rightarrow> zone option) \<Rightarrow> (int \<Rightarrow> string option \<Rightarrow> string option) \<Rightarrow> int \<Rightarrow> program list \<Rightarrow> reminders \<Rightarrow> reminders"
where
  "sweep_courses zones clock now [] s = s"
| "sweep_courses zones clock now (c # cs) s =
     (if window_of zones c now = None then s
      else sweep_courses zones clock now cs
        (case next_due zones s now c of None \<Rightarrow> s | Some next \<Rightarrow> remind clock now c next s))"

definition sweep ::
  "(string \<Rightarrow> zone option) \<Rightarrow> (int \<Rightarrow> string option \<Rightarrow> string option) \<Rightarrow> reminders \<Rightarrow> int \<Rightarrow> reminders"
where
  "sweep zones clock s now = sweep_courses zones clock now (filter (reminded_course s) (pg_courses (rr_programs s))) s"

end
