(* ===== verification/ReminderRuns.thy ===== *)
theory ReminderRuns
  imports Reminders ProgramRuns
begin

text \<open>
  Runs of the sweep, between which the courses, rosters and settings change as they like: the latch lets
  each meeting day of a course be reminded once, and a sweep mails just those whom a due meeting waits for.
\<close>

datatype reminder_op = Sweep int | Change programs "org_account list" "(string \<times> string) list"

fun reminder_step ::
  "(string \<Rightarrow> zone option) \<Rightarrow> (int \<Rightarrow> string option \<Rightarrow> string option) \<Rightarrow> reminders \<Rightarrow> reminder_op \<Rightarrow> reminders"
where
  "reminder_step zones clock s (Sweep now) = sweep zones clock s now"
| "reminder_step zones clock s (Change p g e) =
     (if distinct (map (\<lambda>r. (en_courseId r, en_studentId r)) (pg_enrollments p))
      then s\<lparr>rr_programs := p, rr_orgs := g, rr_emails := e\<rparr> else s)"

definition mail_key :: "class_reminder \<Rightarrow> string \<times> string \<times> string" where
  "mail_key m = (cr_courseId m, cr_dateKey m, cr_studentId m)"

definition reminders_ok :: "reminders \<Rightarrow> bool" where
  "reminders_ok s \<longleftrightarrow>
     distinct (map (\<lambda>r. (en_courseId r, en_studentId r)) (pg_enrollments (rr_programs s))) \<and>
     distinct (map mail_key (rr_mails s)) \<and>
     (\<forall>m \<in> set (rr_mails s). (cr_courseId m, cr_dateKey m) \<in> set (rr_latches s) \<and> cr_sentAt m < cr_scheduledAt m)"

lemma roster_distinct:
  assumes "distinct (map (\<lambda>r. (en_courseId r, en_studentId r)) (pg_enrollments (rr_programs s)))"
  shows "distinct (roster s c)"
proof -
  have "distinct (map (\<lambda>r. (en_courseId r, en_studentId r)) (filter (\<lambda>r. en_courseId r = c) (pg_enrollments (rr_programs s))))"
    by (rule distinct_map_filter [OF assms])
  then show ?thesis by (auto simp: roster_def distinct_map inj_on_def)
qed

lemma next_dueD: "next_due zones s now c = Some x \<Longrightarrow> now < oc_scheduledAt x \<and> oc_scheduledAt x \<le> now + lead_ms s c"
  by (auto simp: next_due_def bind_eq_Some_conv Let_def split: if_splits)

lemma remind_ok:
  assumes "reminders_ok s" and "now < oc_scheduledAt x"
  shows "reminders_ok (remind clock now c x s)"
proof (cases "(co_id c, oc_dateKey x) \<in> set (rr_latches s)")
  case False
  let ?new = "map (\<lambda>u. \<lparr>cr_courseId = co_id c, cr_dateKey = oc_dateKey x, cr_scheduledAt = oc_scheduledAt x, cr_sentAt = now,
      cr_studentId = u, cr_when = format_when clock (oc_scheduledAt x) (pm_timezone c) (oc_scheduledAt x - now)\<rparr>)
    (filter (mailed s) (roster s (co_id c)))"
  have "distinct (map mail_key ?new)"
    using roster_distinct [of s "co_id c"] assms(1) by (simp add: reminders_ok_def comp_def mail_key_def distinct_map inj_on_def)
  moreover have "set (map mail_key (rr_mails s)) \<inter> set (map mail_key ?new) = {}"
    using assms(1) False by (auto simp: reminders_ok_def mail_key_def)
  ultimately show ?thesis using assms False by (auto simp: remind_def reminders_ok_def)
qed (simp add: remind_def assms(1))

lemma sweep_courses_ok: "reminders_ok s \<Longrightarrow> reminders_ok (sweep_courses zones clock now cs s)"
proof (induction cs arbitrary: s)
  case (Cons c cs)
  then show ?case using remind_ok next_dueD by (simp split: option.split) 
qed simp

interpretation reminder_run: invariant_system "reminder_step zones clock" reminders_ok for zones clock
proof unfold_locales
  fix s op
  assume "reminders_ok s"
  then show "reminders_ok (reminder_step zones clock s op)"
    by (cases op) (auto simp: sweep_def sweep_courses_ok, auto simp: reminders_ok_def)
qed

text \<open>What a sweep does to the latch.\<close>

lemma remind_same:
  "rr_programs (remind clock now c x s) = rr_programs s" "rr_orgs (remind clock now c x s) = rr_orgs s"
  "set (rr_latches (remind clock now c x s)) = insert (co_id c, oc_dateKey x) (set (rr_latches s))"
  by (auto simp: remind_def)

lemma next_due_same: "rr_orgs t = rr_orgs s \<Longrightarrow> next_due zones t now c = next_due zones s now c"
  by (simp add: next_due_def lead_ms_def course_org_def)

lemma sweep_courses_latch:
  assumes "\<forall>c \<in> set cs. window_of zones c now \<noteq> None"
  shows "set (rr_latches (sweep_courses zones clock now cs s)) =
    set (rr_latches s) \<union> {(co_id c, oc_dateKey x) |c x. c \<in> set cs \<and> next_due zones s now c = Some x}"
  using assms
proof (induction cs arbitrary: s)
  case (Cons c cs)
  let ?t = "case next_due zones s now c of None \<Rightarrow> s | Some x \<Rightarrow> remind clock now c x s"
  have o': "rr_orgs ?t = rr_orgs s" by (simp add: remind_same split: option.split)
  have "set (rr_latches ?t) = set (rr_latches s) \<union> {(co_id c, oc_dateKey x) |x. next_due zones s now c = Some x}"
    by (auto simp: remind_same split: option.split)
  then show ?case using Cons.IH [of ?t] Cons.prems next_due_same [OF o', of zones now] by auto
qed simp

text \<open>What a sweep mails: for each course with a meeting due that is not latched, everybody on its roster with
  an address.\<close>

definition new_mail :: "(string \<Rightarrow> zone option) \<Rightarrow> reminders \<Rightarrow> int \<Rightarrow> program list \<Rightarrow> (string \<times> string \<times> string) set" where
  "new_mail zones s now cs = {(co_id c, oc_dateKey x, u) |c x u. c \<in> set cs \<and> next_due zones s now c = Some x \<and>
     (co_id c, oc_dateKey x) \<notin> set (rr_latches s) \<and> u \<in> set (roster s (co_id c)) \<and> mailed s u}"

lemma remind_mails:
  "mail_key ` set (rr_mails (remind clock now c x s)) = mail_key ` set (rr_mails s) \<union>
     {(co_id c, oc_dateKey x, u) |u. (co_id c, oc_dateKey x) \<notin> set (rr_latches s) \<and> u \<in> set (roster s (co_id c)) \<and> mailed s u}"
  by (auto simp: remind_def mail_key_def image_Un image_image)

lemma remind_mailed: "mailed (remind clock now c x s) = mailed s" "roster (remind clock now c x s) = roster s"
  by (simp_all add: fun_eq_iff mailed_def roster_def remind_def)

lemma sweep_courses_mails:
  assumes "\<forall>c \<in> set cs. window_of zones c now \<noteq> None"
  shows "mail_key ` set (rr_mails (sweep_courses zones clock now cs s)) = mail_key ` set (rr_mails s) \<union> new_mail zones s now cs"
  using assms
proof (induction cs arbitrary: s)
  case (Cons c cs)
  show ?case
  proof (cases "next_due zones s now c")
    case None
    then have "new_mail zones s now (c # cs) = new_mail zones s now cs" by (auto simp: new_mail_def)
    then show ?thesis using Cons.IH [of s] Cons.prems None by auto
  next
    case (Some x)
    let ?t = "remind clock now c x s"
    let ?mine = "{(co_id c, oc_dateKey x, u) |u. (co_id c, oc_dateKey x) \<notin> set (rr_latches s) \<and> u \<in> set (roster s (co_id c)) \<and> mailed s u}"
    have d: "next_due zones ?t now = next_due zones s now" by (rule ext) (rule next_due_same, simp add: remind_same)
    have "new_mail zones s now (c # cs) = ?mine \<union> new_mail zones s now cs"
      using Some unfolding new_mail_def by auto
    moreover have "new_mail zones ?t now cs = {p \<in> new_mail zones s now cs. fst p \<noteq> co_id c \<or> fst (snd p) \<noteq> oc_dateKey x}"
      by (auto simp: new_mail_def d remind_mailed remind_same) (metis, metis)
    moreover have "p \<in> ?mine" if "p \<in> new_mail zones s now cs" "fst p = co_id c" "fst (snd p) = oc_dateKey x" for p
      using that by (auto simp: new_mail_def)
    ultimately have "?mine \<union> new_mail zones ?t now cs = new_mail zones s now (c # cs)" by blast
    then show ?thesis using Cons.IH [of ?t] Cons.prems Some by (auto simp: remind_mails)
  qed
qed (simp add: new_mail_def)

section \<open>The property\<close>

text \<open>A meeting that is due, from the schedule itself: the organization wants reminders, and the first of the
  course's meetings still to come begins within the organization's lead time.\<close>

definition meeting_due :: "(string \<Rightarrow> zone option) \<Rightarrow> reminders \<Rightarrow> int \<Rightarrow> program \<Rightarrow> occurrence \<Rightarrow> bool" where
  "meeting_due zones s now c x \<longleftrightarrow>
     (\<exists>g \<in> set (rr_orgs s). Some (og_id g) = co_organizationId c \<and> og_preClassReminder g \<and>
        oc_scheduledAt x \<le> now + og_reminderLeadMinutes g * 60000) \<and>
     (\<exists>before after. list_occurrences (schedule_of (\<lambda>z. case zones z of None \<Rightarrow> (\<lambda>_. 0) | Some f \<Rightarrow> f) c) = before @ x # after \<and>
        now < oc_scheduledAt x \<and> (\<forall>y \<in> set before. oc_scheduledAt y \<le> now))"

lemma find_first: "find P xs = Some x \<longleftrightarrow> (\<exists>before after. xs = before @ x # after \<and> P x \<and> (\<forall>y \<in> set before. \<not> P y))"
proof (induction xs)
  case (Cons a xs)
  show ?case
  proof (cases "P a")
    case True
    then show ?thesis by (auto simp: Cons_eq_append_conv)
  next
    case False
    have "(\<exists>before after. a # xs = before @ x # after \<and> P x \<and> (\<forall>y \<in> set before. \<not> P y)) \<longleftrightarrow>
        (\<exists>before after. xs = before @ x # after \<and> P x \<and> (\<forall>y \<in> set before. \<not> P y))" (is "?l \<longleftrightarrow> ?r")
    proof
      assume ?r
      then obtain before after where "a # xs = (a # before) @ x # after" "P x" "\<forall>y \<in> set (a # before). \<not> P y" using False by auto
      then show ?l by blast
    qed (use False in \<open>auto simp: Cons_eq_append_conv\<close>)
    then show ?thesis using Cons False by simp
  qed
qed simp

lemma scheduled_zone:
  assumes "list_occurrences (schedule_of k c) \<noteq> []"
  shows "sc_timezone (schedule_of k c) \<noteq> None" "pm_meetingTime c \<noteq> None"
proof -
  have "list_occurrences s \<noteq> [] \<Longrightarrow> sc_timezone s \<noteq> None \<and> sc_meetingTime s \<noteq> None" for s
    by (simp add: list_occurrences_def split: option.splits)
  moreover have "sc_meetingTime (schedule_of k c) = pm_meetingTime c" by (simp add: schedule_of_def)
  ultimately show "sc_timezone (schedule_of k c) \<noteq> None" "pm_meetingTime c \<noteq> None" using assms by metis+
qed

lemma due_next:
  assumes "window_of zones c now \<noteq> None" and "distinct (map og_id (rr_orgs s))" and "roster s (co_id c) \<noteq> []"
  shows "reminded_course s c \<and> next_due zones s now c = Some x \<longleftrightarrow> meeting_due zones s now c x"
proof -
  let ?os = "list_occurrences (schedule_of (\<lambda>z. case zones z of None \<Rightarrow> (\<lambda>_. 0) | Some f \<Rightarrow> f) c)"
  have "window_of zones c now = Some (resolve_join_window (schedule_of (\<lambda>z. case zones z of None \<Rightarrow> (\<lambda>_. 0) | Some f \<Rightarrow> f) c) now)"
    using assms(1) unfolding window_of_def Let_def by (meson option.distinct(1))
  moreover have "?os = [] \<or> sc_timezone (schedule_of (\<lambda>z. case zones z of None \<Rightarrow> (\<lambda>_. 0) | Some f \<Rightarrow> f) c) \<noteq> None"
    using scheduled_zone(1) by blast
  ultimately have w: "Option.bind (window_of zones c now) jw_next = find (\<lambda>y. now < oc_scheduledAt y) ?os"
    by (auto simp: resolve_join_window_def Let_def split: option.splits)
  have org: "course_org s c = Some g \<longleftrightarrow> g \<in> set (rr_orgs s) \<and> Some (og_id g) = co_organizationId c" for g
    using find_by_key [OF assms(2)] by (cases "co_organizationId c") (auto simp: course_org_def find_Some_iff)
  have "find (\<lambda>y. now < oc_scheduledAt y) ?os = Some y \<Longrightarrow> now < oc_scheduledAt y" for y
    by (auto simp: find_Some_iff)
  then have "next_due zones s now c = Some x \<longleftrightarrow> find (\<lambda>y. now < oc_scheduledAt y) ?os = Some x \<and> oc_scheduledAt x \<le> now + lead_ms s c"
    by (cases "find (\<lambda>y. now < oc_scheduledAt y) ?os") (auto simp: next_due_def w)
  moreover have "pm_meetingTime c \<noteq> None" if "find (\<lambda>y. now < oc_scheduledAt y) ?os = Some x"
  proof -
    have "?os \<noteq> []" using that by auto
    then show ?thesis by (rule scheduled_zone(2))
  qed
  ultimately have "reminded_course s c \<and> next_due zones s now c = Some x \<longleftrightarrow>
      (case course_org s c of None \<Rightarrow> False | Some g \<Rightarrow> og_preClassReminder g \<and> oc_scheduledAt x \<le> now + og_reminderLeadMinutes g * 60000) \<and>
      find (\<lambda>y. now < oc_scheduledAt y) ?os = Some x"
    using assms(3) by (auto simp: reminded_course_def lead_ms_def split: option.splits)
  also have "\<dots> \<longleftrightarrow> (\<exists>g. course_org s c = Some g \<and> og_preClassReminder g \<and> oc_scheduledAt x \<le> now + og_reminderLeadMinutes g * 60000) \<and>
      find (\<lambda>y. now < oc_scheduledAt y) ?os = Some x" by (simp split: option.split)
  also have "\<dots> \<longleftrightarrow> meeting_due zones s now c x" unfolding meeting_due_def find_first org not_less by blast
  finally show ?thesis .
qed

text \<open>C39: Each student is reminded once of a meeting day of a course, and before the class starts, over any run of
  sweeps and changes. And a sweep whose courses' zones \<open>Intl\<close> all knows reminds of exactly the meetings that are
  due and were not reminded of: everybody enrolled who has an address is mailed, and nobody else.\<close>

theorem class_is_reminded_once:
  assumes "reminders_ok s0" and "s = foldl (reminder_step zones clock) s0 ops"
  shows "distinct (map mail_key (rr_mails s)) \<and> (\<forall>m \<in> set (rr_mails s). cr_sentAt m < cr_scheduledAt m) \<and>
    (distinct (map og_id (rr_orgs s)) \<longrightarrow> (\<forall>c \<in> set (pg_courses (rr_programs s)). window_of zones c now \<noteq> None) \<longrightarrow>
     mail_key ` set (rr_mails (sweep zones clock s now)) = mail_key ` set (rr_mails s) \<union>
       {(co_id c, oc_dateKey x, u) |c x u. c \<in> set (pg_courses (rr_programs s)) \<and> meeting_due zones s now c x \<and>
          (co_id c, oc_dateKey x) \<notin> set (rr_latches s) \<and> given (map_of (rr_emails s) u) \<and>
          (\<exists>r \<in> set (pg_enrollments (rr_programs s)). en_courseId r = co_id c \<and> en_studentId r = u)})"
proof -
  let ?cs = "pg_courses (rr_programs s)"
  have "reminders_ok s" using reminder_run.inv_run [OF assms(1)] assms(2) by simp
  moreover have "mail_key ` set (rr_mails (sweep zones clock s now)) = mail_key ` set (rr_mails s) \<union>
       {(co_id c, oc_dateKey x, u) |c x u. c \<in> set ?cs \<and> meeting_due zones s now c x \<and>
          (co_id c, oc_dateKey x) \<notin> set (rr_latches s) \<and> given (map_of (rr_emails s) u) \<and>
          (\<exists>r \<in> set (pg_enrollments (rr_programs s)). en_courseId r = co_id c \<and> en_studentId r = u)}"
    if d: "distinct (map og_id (rr_orgs s))" and w: "\<forall>c \<in> set ?cs. window_of zones c now \<noteq> None"
  proof -
    have r: "u \<in> set (roster s k) \<longleftrightarrow> (\<exists>r \<in> set (pg_enrollments (rr_programs s)). en_courseId r = k \<and> en_studentId r = u)" for u k
      by (auto simp: roster_def)
    have due: "c \<in> set ?cs \<and> reminded_course s c \<and> next_due zones s now c = Some x \<longleftrightarrow> c \<in> set ?cs \<and> meeting_due zones s now c x"
      if "u \<in> set (roster s (co_id c))" for c x u
      using due_next [OF _ d, of zones c now x] w that by (metis empty_iff list.set(1))
    have "new_mail zones s now (filter (reminded_course s) ?cs) = {(co_id c, oc_dateKey x, u) |c x u. c \<in> set ?cs \<and>
        meeting_due zones s now c x \<and> (co_id c, oc_dateKey x) \<notin> set (rr_latches s) \<and> mailed s u \<and> u \<in> set (roster s (co_id c))}"
      unfolding new_mail_def set_filter using due by blast
    then show ?thesis
      using sweep_courses_mails [of "filter (reminded_course s) ?cs" zones now clock s] w
      by (simp add: sweep_def mailed_def r)
  qed
  ultimately show ?thesis unfolding reminders_ok_def by blast
qed

text \<open>Monday 4 March 2024, class at 18:00 in Lagos, 17:00 UTC: sweeps at 16:25, 16:35 and 16:40.\<close>

definition evening_program :: program where
  "evening_program = (blank_program ''p'' ''o'' None None 1)\<lparr>pm_title := ''Tajweed'', pm_startDate := Some 1709510400000,
     pm_durationWeeks := Some 1, pm_meetingDays := Some [1], pm_meetingTime := Some ''18:00'', pm_timezone := Some ''Africa/Lagos''\<rparr>"

definition lagos :: "string \<Rightarrow> zone option" where
  "lagos z = (if z = ''Africa/Lagos'' then Some (\<lambda>_. 3600000) else None)"

definition reminding :: "program list \<Rightarrow> (string \<times> string) list \<Rightarrow> reminders" where
  "reminding cs places = \<lparr>rr_programs = new_school\<lparr>pg_courses := cs,
       pg_enrollments := map (\<lambda>(c, u). \<lparr>en_courseId = c, en_studentId = u, er_reminderAddedAt = None, er_createdAt = 1\<rparr>) places\<rparr>,
     rr_orgs = [\<lparr>og_id = ''o'', og_name = [], og_slug = [], og_tagline = None, og_primaryColor = None,
       og_accentColor = None, og_logoUrl = None, og_evictOnInstructorLeave = False, og_micRequiresRaisedHand = False,
       og_preClassReminder = True, og_reminderLeadMinutes = 30, og_inviteLinkExpiryDays = None\<rparr>],
     rr_emails = [(''u'', ''u@x'')], rr_latches = [], rr_mails = []\<rparr>"

definition evening :: "reminder_op list" where
  "evening = [Sweep 1709569500000, Sweep 1709570100000, Sweep 1709570400000]"

lemma evening_meetings:
  "list_occurrences (schedule_of (\<lambda>z. case lagos z of None \<Rightarrow> (\<lambda>_. 0) | Some f \<Rightarrow> f) evening_program) =
     [\<lparr>oc_dateKey = ''2024-03-04'', oc_scheduledAt = 1709571600000\<rparr>]"
  by code_simp

lemma evening_window:
  "now < 1709571600000 \<Longrightarrow> \<exists>w. window_of lagos evening_program now = Some w \<and>
     jw_next w = Some \<lparr>oc_dateKey = ''2024-03-04'', oc_scheduledAt = 1709571600000\<rparr>"
  using evening_meetings
  by (simp add: window_of_def Let_def resolve_join_window_def lagos_def evening_program_def schedule_of_def given_def)

lemma evening_sweep:
  assumes "now < 1709571600000" and "1709571600000 \<le> now + 1800000" and "rr_programs s = rr_programs (reminding [evening_program] [(''p'', ''u'')])"
    and "rr_orgs s = rr_orgs (reminding [] [])"
  shows "sweep lagos clock s now = remind clock now evening_program \<lparr>oc_dateKey = ''2024-03-04'', oc_scheduledAt = 1709571600000\<rparr> s"
proof -
  obtain w where w: "window_of lagos evening_program now = Some w"
    "jw_next w = Some \<lparr>oc_dateKey = ''2024-03-04'', oc_scheduledAt = 1709571600000\<rparr>" using evening_window [OF assms(1)] by blast
  have "reminded_course s evening_program"
    using assms(3,4) by (simp add: reminded_course_def course_org_def roster_def reminding_def evening_program_def blank_program_def)
  then show ?thesis using assms w
    by (simp add: sweep_def reminding_def next_due_def lead_ms_def course_org_def evening_program_def blank_program_def)
qed

text \<open>What the property says of the second sweep alone.\<close>

lemma evening_due:
  assumes "rr_orgs s = rr_orgs (reminding [] [])" and "now < 1709571600000" and "1709571600000 \<le> now + 1800000"
  shows "meeting_due lagos s now evening_program x \<longleftrightarrow> x = \<lparr>oc_dateKey = ''2024-03-04'', oc_scheduledAt = 1709571600000\<rparr>"
proof -
  have "co_organizationId evening_program = Some ''o''" by (simp add: evening_program_def blank_program_def)
  moreover have "[y] = before @ x # after \<longleftrightarrow> before = [] \<and> x = y \<and> after = []" for y before after
    by (auto simp: Cons_eq_append_conv)
  ultimately show ?thesis using assms(2,3) unfolding meeting_due_def evening_meetings by (auto simp: assms(1) reminding_def)
qed

lemma class_is_reminded_once_witness:
  "let s = foldl (reminder_step lagos (\<lambda>_ _. None)) (reminding [evening_program] [(''p'', ''u'')]) evening in
   distinct (map mail_key (rr_mails s)) \<and> map mail_key (rr_mails s) = [(''p'', ''2024-03-04'', ''u'')] \<and>
   map cr_when (rr_mails s) = [''in 25 minutes''] \<and>
   mail_key ` set (rr_mails (sweep lagos (\<lambda>_ _. None) (reminding [evening_program] [(''p'', ''u'')]) 1709570100000)) =
     {(''p'', ''2024-03-04'', ''u'')}"
proof -
  let ?s = "foldl (reminder_step lagos (\<lambda>_ _. None)) (reminding [evening_program] [(''p'', ''u'')]) evening"
  let ?x = "\<lparr>oc_dateKey = ''2024-03-04'', oc_scheduledAt = 1709571600000\<rparr>"
  let ?t = "remind (\<lambda>_ _. None) 1709570100000 evening_program ?x (reminding [evening_program] [(''p'', ''u'')])"
  let ?b = "reminding [evening_program] [(''p'', ''u'')]"
  have ok: "reminders_ok ?b" by (simp add: reminders_ok_def reminding_def)
  have 1: "sweep lagos (\<lambda>_ _. None) (reminding [evening_program] [(''p'', ''u'')]) 1709569500000 = reminding [evening_program] [(''p'', ''u'')]"
    using evening_window [of 1709569500000]
    by (auto simp: sweep_def next_due_def lead_ms_def course_org_def reminding_def evening_program_def blank_program_def)
  have 2: "sweep lagos (\<lambda>_ _. None) (reminding [evening_program] [(''p'', ''u'')]) 1709570100000 = ?t"
    by (rule evening_sweep) (simp_all add: reminding_def)
  have "sweep lagos (\<lambda>_ _. None) ?t 1709570400000 = remind (\<lambda>_ _. None) 1709570400000 evening_program ?x ?t"
    by (rule evening_sweep) (simp_all add: remind_same, simp_all add: reminding_def)
  then have s: "?s = ?t" by (simp add: evening_def 1 2 remind_def)
  have "map mail_key (rr_mails ?t) = [(''p'', ''2024-03-04'', ''u'')]" "map cr_when (rr_mails ?t) = [''in 25 minutes'']" by code_simp+
  moreover have "mail_key ` set (rr_mails (sweep lagos (\<lambda>_ _. None) ?b 1709570100000)) = {(''p'', ''2024-03-04'', ''u'')}"
  proof -
    have "\<forall>c \<in> set (pg_courses (rr_programs ?b)). window_of lagos c 1709570100000 \<noteq> None"
      using evening_window [of 1709570100000] by (auto simp: reminding_def)
    moreover have "distinct (map og_id (rr_orgs ?b))" by (simp add: reminding_def)
    moreover have "meeting_due lagos ?b 1709570100000 evening_program x \<longleftrightarrow> x = ?x" for x by (rule evening_due) (simp_all add: reminding_def)
    moreover have "pg_courses (rr_programs ?b) = [evening_program]" "rr_latches ?b = []" "rr_mails ?b = []" "map_of (rr_emails ?b) u = (if u = ''u'' then Some ''u@x'' else None)"
      "r \<in> set (pg_enrollments (rr_programs ?b)) \<longleftrightarrow> r = \<lparr>en_courseId = ''p'', en_studentId = ''u'', er_reminderAddedAt = None, er_createdAt = 1\<rparr>"
      "co_id evening_program = ''p''" for u r by (simp_all add: reminding_def evening_program_def blank_program_def)
    ultimately show ?thesis
      using class_is_reminded_once [OF ok, where ops = "[]" and now = 1709570100000 and zones = lagos and clock = "\<lambda>_ _. None"]
      by (auto simp: given_def)
  qed
  ultimately show ?thesis using class_is_reminded_once [OF ok HOL.refl, of lagos "\<lambda>_ _. None" evening] s unfolding Let_def by simp
qed

section \<open>An unknown time zone\<close>

text \<open>The time zone of a course is any text of up to 64 characters. One that \<open>Intl\<close> does not know makes the
  window throw, and the sweep ends there: the courses after it are not reminded.\<close>

lemma unknown_zone_stops_the_sweep:
  "rr_mails (sweep lagos clock (reminding [evening_program\<lparr>co_id := ''first'', pm_timezone := Some ''WAT''\<rparr>, evening_program]
     [(''first'', ''u''), (''p'', ''u'')]) now) = []"
proof -
  let ?c = "evening_program\<lparr>co_id := ''first'', pm_timezone := Some ''WAT''\<rparr>"
  have "parse_hhmm ''18:00'' = Some (18, 0)" by code_simp
  then have "window_of lagos ?c now = None"
    by (simp add: window_of_def Let_def lagos_def given_def evening_program_def blank_program_def meeting_days_def schedule_of_def
      List.map_filter_def)
  then show ?thesis
    by (simp add: sweep_def reminded_course_def course_org_def roster_def reminding_def evening_program_def blank_program_def)
qed

end
