(* ===== verification/StudentGroups.thy ===== *)
theory StudentGroups
  imports AssignmentRuns
begin

text \<open>
  Groups of a course's students: \<open>src/groups/groups.service.ts\<close>, on the tables of \<open>Assignments\<close>. The
  groups are in the order they were made. The members of a group are in the order of the rows, where the query
  orders them by name in the database's collation.
\<close>

record group_view =
  gv_group :: group_row
  gv_members :: "string list"
  gv_memberCount :: nat
  gv_assignmentCount :: nat

definition group_view :: "coursework \<Rightarrow> group_row \<Rightarrow> group_view" where
  "group_view s g =
     \<lparr>gv_group = g, gv_members = group_roster s (gr_id g), gv_memberCount = length (group_roster s (gr_id g)),
      gv_assignmentCount = length (filter (\<lambda>a. am_groupId a = Some (gr_id g)) (cw_assignments s))\<rparr>"

definition list_groups :: "coursework \<Rightarrow> jwt_payload \<Rightarrow> string \<Rightarrow> group_view list result" where
  "list_groups s user courseId =
     rbind (assert_can_manage_course (cw_db s) user courseId) (\<lambda>_.
       Inr (map (group_view s) (filter (\<lambda>g. gr_courseId g = courseId) (cw_groups s))))"

definition create_group :: "coursework \<Rightarrow> jwt_payload \<Rightarrow> string \<Rightarrow> string \<Rightarrow> string \<Rightarrow> coursework \<times> group_view result" where
  "create_group s user courseId name i =
     (case assert_can_manage_course (cw_db s) user courseId of
        Inl e \<Rightarrow> (s, Inl e)
      | Inr _ \<Rightarrow>
          let g = \<lparr>gr_id = i, gr_courseId = courseId, gr_name = trim name\<rparr>; t = s\<lparr>cw_groups := cw_groups s @ [g]\<rparr>
          in (t, Inr (group_view t g)))"

text \<open>What \<open>rename\<close>, \<open>remove\<close> and \<open>setMembers\<close> check first.\<close>

definition group_in_course :: "coursework \<Rightarrow> string \<Rightarrow> string \<Rightarrow> group_row result" where
  "group_in_course s groupId courseId =
     from_option (NotFound ''Group not found in this course'')
       (find (\<lambda>g. gr_id g = groupId \<and> gr_courseId g = courseId) (cw_groups s))"

definition managed_group :: "coursework \<Rightarrow> jwt_payload \<Rightarrow> string \<Rightarrow> string \<Rightarrow> group_row result" where
  "managed_group s user courseId groupId =
     rbind (assert_can_manage_course (cw_db s) user courseId) (\<lambda>_. group_in_course s groupId courseId)"

definition rename_group ::
  "coursework \<Rightarrow> jwt_payload \<Rightarrow> string \<Rightarrow> string \<Rightarrow> string \<Rightarrow> coursework \<times> group_view result"
where
  "rename_group s user courseId groupId name =
     (case managed_group s user courseId groupId of
        Inl e \<Rightarrow> (s, Inl e)
      | Inr g \<Rightarrow>
          let t = s\<lparr>cw_groups := map (\<lambda>x. if gr_id x = groupId then x\<lparr>gr_name := trim name\<rparr> else x) (cw_groups s)\<rparr>
          in (t, Inr (group_view t (g\<lparr>gr_name := trim name\<rparr>))))"

text \<open>The members go with the group's row.\<close>

definition remove_group :: "coursework \<Rightarrow> jwt_payload \<Rightarrow> string \<Rightarrow> string \<Rightarrow> coursework \<times> unit result" where
  "remove_group s user courseId groupId =
     (case managed_group s user courseId groupId of
        Inl e \<Rightarrow> (s, Inl e)
      | Inr _ \<Rightarrow>
          (s\<lparr>cw_assignments :=
               map (\<lambda>a. if am_groupId a = Some groupId then a\<lparr>am_groupId := None\<rparr> else a) (cw_assignments s),
             cw_groups := filter (\<lambda>g. gr_id g \<noteq> groupId) (cw_groups s),
             cw_members := filter (\<lambda>m. fst m \<noteq> groupId) (cw_members s)\<rparr>, Inr ()))"

text \<open>The ids asked for that are enrolled, in the order of the enrolments.\<close>

definition enrolled_of :: "coursework \<Rightarrow> string \<Rightarrow> string list \<Rightarrow> string list" where
  "enrolled_of s courseId ids =
     map en_studentId (filter (\<lambda>r. en_courseId r = courseId \<and> en_studentId r \<in> set ids) (db_enrollments (cw_db s)))"

definition set_members ::
  "coursework \<Rightarrow> jwt_payload \<Rightarrow> string \<Rightarrow> string \<Rightarrow> string list \<Rightarrow> coursework \<times> group_view result"
where
  "set_members s user courseId groupId ids =
     (case managed_group s user courseId groupId of
        Inl e \<Rightarrow> (s, Inl e)
      | Inr g \<Rightarrow>
          let t = s\<lparr>cw_members := filter (\<lambda>m. fst m \<noteq> groupId) (cw_members s) @
                     map (Pair groupId) (enrolled_of s courseId ids)\<rparr>
          in (t, Inr (group_view t g)))"

section \<open>Runs\<close>

text \<open>The groups, the coursework and changes of the enrolments in any order. Ids are fresh, and the key of
  the enrolments is unique.\<close>

datatype group_op =
    CreateGroup jwt_payload string string string
  | RenameGroup jwt_payload string string string
  | RemoveGroup jwt_payload string string
  | SetMembers jwt_payload string string "string list"
  | GroupWork work_op
  | Enrolments "enrollment_row list"

definition enrolment_key :: "enrollment_row \<Rightarrow> string \<times> string" where
  "enrolment_key r = (en_courseId r, en_studentId r)"

fun group_step :: "coursework \<Rightarrow> group_op \<Rightarrow> coursework" where
  "group_step s (CreateGroup user courseId name i) =
     (if i \<notin> gr_id ` set (cw_groups s) then fst (create_group s user courseId name i) else s)"
| "group_step s (RenameGroup user courseId g name) = fst (rename_group s user courseId g name)"
| "group_step s (RemoveGroup user courseId g) = fst (remove_group s user courseId g)"
| "group_step s (SetMembers user courseId g ids) = fst (set_members s user courseId g ids)"
| "group_step s (GroupWork (Roster es ms)) = s"
| "group_step s (GroupWork op) = work_step s op"
| "group_step s (Enrolments es) =
     (if distinct (map enrolment_key es) then s\<lparr>cw_db := (cw_db s)\<lparr>db_enrollments := es\<rparr>\<rparr> else s)"

definition group_places :: "coursework \<Rightarrow> (string \<times> string) list" where
  "group_places s = map (\<lambda>g. (gr_id g, gr_courseId g)) (cw_groups s)"

definition groups_ok :: "coursework \<Rightarrow> bool" where
  "groups_ok s \<longleftrightarrow>
     distinct (map fst (group_places s)) \<and> rosters_unique s \<and>
     fst ` set (cw_members s) \<subseteq> fst ` set (group_places s) \<and>
     distinct (map am_id (cw_assignments s)) \<and>
     (\<forall>a \<in> set (cw_assignments s). \<forall>g. am_groupId a = Some g \<longrightarrow>
        g \<noteq> [] \<and> (g, am_courseId a) \<in> set (group_places s))"

lemmas group_res = managed_group_def group_in_course_def from_option_def res

lemma work_frame:
  assumes "\<And>u c dto i now. op \<noteq> PostWork u c dto i now" "\<And>es ms. op \<noteq> Roster es ms"
  shows "cw_groups (work_step s op) = cw_groups s \<and> cw_members (work_step s op) = cw_members s \<and>
    cw_db (work_step s op) = cw_db s \<and> cw_assignments (work_step s op) = cw_assignments s"
proof (cases op)
  case (HandIn user aid content url lang i now)
  then show ?thesis
    by (auto simp: submit_text_def upsert_submission_def push_submission_def write_submission_def Let_def split: sum.split option.split)
next
  case (Upload up user aid blob i now)
  then show ?thesis by (auto simp: upload_submission_def upsert_submission_def write_submission_def Let_def split: sum.split option.split)
next
  case (GradeWork up user i g fb now)
  then show ?thesis
    by (auto simp: grade_submission_def grade_write_def write_submission_def Let_def split: sum.split option.split)
qed (use assms in auto)

lemma group_frame:
  assumes "groups_ok s" "cw_groups t = cw_groups s" "cw_members t = cw_members s" "cw_db t = cw_db s" "cw_assignments t = cw_assignments s"
  shows "groups_ok t"
  using assms by (simp add: groups_ok_def rosters_unique_def group_places_def)

text \<open>New work names a group of its course.\<close>

lemma posted_work:
  assumes "groups_ok s" "i \<notin> am_id ` set (cw_assignments s)"
  shows "groups_ok (fst (create_assignment s user courseId dto i now))"
proof (cases "create_checks s user courseId dto")
  case (Inl e)
  then show ?thesis using assms(1) by (simp add: create_assignment_def)
next
  case (Inr x)
  let ?a = "new_assignment user courseId dto i now" and ?t = "fst (create_assignment s user courseId dto i now)"
  have same: "cw_groups ?t = cw_groups s \<and> cw_members ?t = cw_members s \<and> cw_db ?t = cw_db s \<and>
      cw_assignments ?t = cw_assignments s @ [?a]"
    using Inr by (simp add: create_assignment_def notify_assignment_posted_def Let_def split: option.split)
  have "g \<noteq> [] \<and> (g, courseId) \<in> set (group_places s)" if "ad_groupId dto = Some g" for g
    using Inr that by (auto simp: create_checks_def referenced_def res list_ex_iff group_places_def)
  then show ?thesis using assms same by (auto simp: groups_ok_def rosters_unique_def new_assignment_def group_places_def)
qed

lemma grouped_id: "groups_ok s \<Longrightarrow> managed_group s user c i = Inr g \<Longrightarrow> g \<in> set (cw_groups s) \<and> gr_id g = i \<and> gr_courseId g = c"
  by (auto simp: group_res find_Some_iff split: option.splits)

lemma removed_group:
  assumes ok: "groups_ok s"
  shows "groups_ok (fst (remove_group s user c i))"
proof (cases "managed_group s user c i")
  case (Inl e)
  then show ?thesis using ok by (simp add: remove_group_def)
next
  case (Inr r)
  let ?t = "fst (remove_group s user c i)"
  have places: "group_places ?t = filter (\<lambda>p. fst p \<noteq> i) (group_places s)"
    using Inr by (simp add: remove_group_def group_places_def filter_map o_def)
  have "map am_id (cw_assignments ?t) = map am_id (cw_assignments s)" using Inr by (simp add: remove_group_def)
  moreover have "rosters_unique ?t" "fst ` set (cw_members ?t) \<subseteq> fst ` set (group_places s) - {i}"
    using ok Inr by (auto simp: remove_group_def groups_ok_def rosters_unique_def)
  moreover have "g \<noteq> [] \<and> g \<noteq> i \<and> (g, am_courseId a) \<in> set (group_places s)"
    if "a \<in> set (cw_assignments ?t)" "am_groupId a = Some g" for a g
    using ok Inr that by (auto simp: remove_group_def groups_ok_def split: if_splits)
  ultimately show ?thesis using ok by (auto simp: groups_ok_def places distinct_map_filter)
qed

lemma replaced_members:
  assumes ok: "groups_ok s"
  shows "groups_ok (fst (set_members s user c i ids))"
proof (cases "managed_group s user c i")
  case (Inl e)
  then show ?thesis using ok by (simp add: set_members_def)
next
  case (Inr g)
  let ?new = "filter (\<lambda>r. en_courseId r = c \<and> en_studentId r \<in> set ids) (db_enrollments (cw_db s))"
  have "distinct (map (\<lambda>r. (en_courseId r, en_studentId r)) ?new)"
    using ok by (simp add: groups_ok_def rosters_unique_def distinct_map_filter)
  then have "distinct (map (Pair i) (enrolled_of s c ids))" unfolding enrolled_of_def by (auto simp: distinct_map inj_on_def)
  then have "distinct (filter (\<lambda>m. fst m \<noteq> i) (cw_members s) @ map (Pair i) (enrolled_of s c ids))"
    using ok by (auto simp: groups_ok_def rosters_unique_def)
  moreover have i: "i \<in> fst ` set (group_places s)" using grouped_id [OF ok Inr] by (force simp: group_places_def)
  obtain t where t: "t = s\<lparr>cw_members := filter (\<lambda>m. fst m \<noteq> i) (cw_members s) @ map (Pair i) (enrolled_of s c ids)\<rparr>"
    by blast
  have "fst ` set (cw_members t) \<subseteq> insert i (fst ` set (cw_members s))" unfolding t by auto
  then have "fst ` set (cw_members t) \<subseteq> fst ` set (group_places t)"
    using i ok by (auto simp: t groups_ok_def group_places_def)
  ultimately have "groups_ok t" using ok by (simp add: t groups_ok_def rosters_unique_def group_places_def)
  then show ?thesis using Inr by (simp add: set_members_def t Let_def)
qed

lemma renamed_group: "groups_ok s \<Longrightarrow> groups_ok (fst (rename_group s user c i name))"
proof -
  assume ok: "groups_ok s"
  have "group_places (fst (rename_group s user c i name)) = group_places s"
    by (auto simp: rename_group_def group_places_def Let_def split: sum.split)
  then show ?thesis
    using ok by (simp add: rename_group_def groups_ok_def rosters_unique_def Let_def split: sum.split)
qed

interpretation group_run: invariant_system group_step groups_ok
proof unfold_locales
  fix s op
  assume ok: "groups_ok s"
  show "groups_ok (group_step s op)"
  proof (cases op)
    case (CreateGroup user c name i)
    then show ?thesis using ok by (auto simp: create_group_def groups_ok_def rosters_unique_def group_places_def Let_def split: sum.split)
  next
    case (GroupWork w)
    have frame: "groups_ok (work_step s w)"
      if "\<And>u c dto i now. w \<noteq> PostWork u c dto i now" "\<And>es ms. w \<noteq> Roster es ms"
      using work_frame [OF that, of s] by (intro group_frame [OF ok]) auto
    show ?thesis
    proof (cases w)
      case (PostWork u c dto i now)
      then show ?thesis using ok GroupWork posted_work [OF ok] by simp
    qed (use ok GroupWork frame in auto)
  next
    case (Enrolments es)
    then show ?thesis using ok by (simp add: groups_ok_def rosters_unique_def group_places_def enrolment_key_def [abs_def])
  qed (use ok removed_group replaced_members renamed_group in auto)
qed

section \<open>Reading and handing in agree\<close>

definition new_groups :: "coursework \<Rightarrow> bool" where
  "new_groups s \<longleftrightarrow> cw_groups s = [] \<and> cw_members s = [] \<and> cw_assignments s = [] \<and>
     distinct (map enrolment_key (db_enrollments (cw_db s)))"

lemma group_runs_ok: "new_groups s \<Longrightarrow> groups_ok (foldl group_step s ops)"
  by (rule group_run.inv_run) (simp add: new_groups_def groups_ok_def rosters_unique_def group_places_def enrolment_key_def [abs_def])

lemma assignment_by_id: "distinct (map am_id (cw_assignments s)) \<Longrightarrow> a \<in> set (cw_assignments s) \<Longrightarrow> find_assignment s (am_id a) = Some a"
  unfolding find_assignment_def by (rule find_by_key)

lemma group_of_work:
  assumes ok: "groups_ok s" and a: "a \<in> set (cw_assignments s)" "am_groupId a = Some g"
  shows "g \<noteq> [] \<and> (\<exists>r. find_group s g = Some r \<and> gr_courseId r = am_courseId a)"
proof -
  have "(g, am_courseId a) \<in> set (group_places s)" "g \<noteq> []" using ok a unfolding groups_ok_def by blast+
  then obtain r where r: "r \<in> set (cw_groups s)" "gr_id r = g" "gr_courseId r = am_courseId a"
    by (auto simp: group_places_def)
  moreover have "distinct (map gr_id (cw_groups s))" using ok by (simp add: groups_ok_def group_places_def o_def)
  ultimately have "find_group s g = Some r" unfolding find_group_def using find_by_key [of gr_id "cw_groups s" r] by simp
  then show ?thesis using r \<open>g \<noteq> []\<close> by blast
qed

lemma open_to:
  assumes ok: "groups_ok s" and a: "a \<in> set (cw_assignments s)"
  shows "assert_can_submit s u (am_id a) =
    (if \<not> enrolled (cw_db s) (am_courseId a) (jwt_sub u) then Inl (Forbidden ''Not enrolled in this program'')
     else if for_student s (jwt_sub u) a then Inr a else Inl (Forbidden ''This assignment is not assigned to you''))"
proof -
  have f: "find_assignment s (am_id a) = Some a" using ok a by (simp add: groups_ok_def assignment_by_id)
  show ?thesis
  proof (cases "am_groupId a")
    case None
    then show ?thesis using f by (simp add: assert_can_submit_def for_student_def)
  next
    case (Some g)
    then have "g \<noteq> [] \<and> find_group s g \<noteq> None" using group_of_work [OF ok a] by force
    then show ?thesis using f Some by (simp add: assert_can_submit_def for_student_def)
  qed
qed

definition demo_groups :: "group_op list" where
  "demo_groups =
     [CreateGroup work_teacher ''c'' ''Readers '' ''g'', SetMembers work_teacher ''c'' ''g'' [''r'', ''x''],
      GroupWork (PostWork work_teacher ''c'' \<lparr>ad_title = ''Essay'', ad_instructions = None, ad_dueAt = None, ad_maxPoints = None,
        ad_sectionId = None, ad_sessionId = None, ad_groupId = Some ''g''\<rparr> ''a'' 1)]"

text \<open>C38: In every run of the groups and the coursework, with students joining and leaving in between,
  what a student is shown as theirs is what they may hand in: the list asks whether the work's group exists and
  has them, the hand-in asks for their membership alone. Every member and every assignment of a group
  belongs to a group that is there, in the course of the work; a student whose group is removed may hand in.\<close>

theorem listed_work_can_be_handed_in:
  assumes "new_groups s0" and "s = foldl group_step s0 ops"
  shows "(i \<in> ma_id ` set (my_assignments s u)) = (\<exists>a. assert_can_submit s u i = Inr a) \<and>
    fst ` set (cw_members s) \<subseteq> gr_id ` set (cw_groups s) \<and>
    (\<forall>a \<in> set (cw_assignments s). \<forall>g. am_groupId a = Some g \<longrightarrow>
       (\<exists>r. find_group s g = Some r \<and> gr_courseId r = am_courseId a) \<and>
       (\<forall>t c. remove_group s w c g = (t, Inr ()) \<longrightarrow> enrolled (cw_db s) (am_courseId a) (jwt_sub u) \<longrightarrow>
          assert_can_submit t u (am_id a) = Inr (a\<lparr>am_groupId := None\<rparr>)))"
proof -
  have ok: "groups_ok s" using group_runs_ok assms by simp
  have listed: "i \<in> ma_id ` set (my_assignments s u) \<longleftrightarrow>
      (\<exists>a \<in> set (cw_assignments s). am_id a = i \<and> enrolled (cw_db s) (am_courseId a) (jwt_sub u) \<and> for_student s (jwt_sub u) a)"
    by (auto simp: my_assignments_def image_iff)
  have "(\<exists>a. assert_can_submit s u i = Inr a) \<longleftrightarrow>
      (\<exists>a \<in> set (cw_assignments s). am_id a = i \<and> enrolled (cw_db s) (am_courseId a) (jwt_sub u) \<and> for_student s (jwt_sub u) a)"
    using open_to [OF ok, of _ u] can_submitD [of s u i] find_assignmentD [of s i] by (metis Inl_Inr_False)
  moreover note group_of_work [OF ok]
  moreover have "assert_can_submit t u (am_id a) = Inr (a\<lparr>am_groupId := None\<rparr>)"
    if r: "remove_group s w c g = (t, Inr ())" and a: "a \<in> set (cw_assignments s)" "am_groupId a = Some g"
      and e: "enrolled (cw_db s) (am_courseId a) (jwt_sub u)" for t c a g
  proof -
    have "groups_ok t" using removed_group [OF ok, of w c g] r by simp
    moreover have "a\<lparr>am_groupId := None\<rparr> \<in> set (cw_assignments t)" "cw_db t = cw_db s"
      using r a by (auto simp: remove_group_def image_iff split: sum.splits intro!: bexI [of _ a])
    ultimately show ?thesis using open_to [of t "a\<lparr>am_groupId := None\<rparr>" u] e by (simp add: for_student_def)
  qed
  moreover have "fst ` set (cw_members s) \<subseteq> gr_id ` set (cw_groups s)"
    using ok by (simp add: groups_ok_def group_places_def image_image)
  ultimately show ?thesis using listed by blast
qed

lemma listed_work_can_be_handed_in_witness:
  "let s = foldl group_step demo_work demo_groups in
     map (ma_id) (my_assignments s (work_student\<lparr>jwt_sub := ''r''\<rparr>)) = [''a''] \<and>
     cw_members s = [(''g'', ''r'')] \<and> my_assignments s work_student = [] \<and>
     (\<forall>a. assert_can_submit s work_student ''a'' \<noteq> Inr a) \<and>
     (\<exists>a. assert_can_submit s (work_student\<lparr>jwt_sub := ''r''\<rparr>) ''a'' = Inr a)"
proof -
  let ?s = "foldl group_step demo_work demo_groups" and ?r = "work_student\<lparr>jwt_sub := ''r''\<rparr>"
  have v: "map ma_id (my_assignments ?s ?r) = [''a'']" "cw_members ?s = [(''g'', ''r'')]" "my_assignments ?s work_student = []"
    by code_simp+
  have new: "new_groups demo_work" by code_simp
  have "''a'' \<in> ma_id ` set (my_assignments ?s ?r)" using v(1) by (metis list.set_intros(1) list.set_map)
  then show ?thesis using v listed_work_can_be_handed_in [OF new HOL.refl, of "''a''" demo_groups ?r]
      listed_work_can_be_handed_in [OF new HOL.refl, of "''a''" demo_groups work_student] by (simp add: Let_def)
qed

section \<open>Groups and leaving\<close>

text \<open>A student who leaves the course stays in its groups: the tracking board counts them and lists them as
  missing, and they cannot hand in.\<close>

lemma left_student_stays_missing:
  assumes "find_assignment s i = Some a" "am_groupId a = Some g" "find_group s g = Some r"
    and "in_group s g (jwt_sub u)" "\<not> enrolled (cw_db s) (am_courseId a) (jwt_sub u)"
    and "submission_of s (am_id a) (jwt_sub u) = None"
  shows "jwt_sub u \<in> set (tw_missing (track s a)) \<and> assert_can_submit s u i = Inl (Forbidden ''Not enrolled in this program'')"
proof -
  have "gr_id r = g" using assms(3) by (auto simp: find_group_def find_Some_iff)
  then have "jwt_sub u \<in> set (audience_of s a)"
    using assms(2-4) by (force simp: audience_of_def group_roster_def in_group_def)
  moreover have "sb_studentId x \<noteq> jwt_sub u" if "x \<in> set (submissions_of s (am_id a))" for x
    using assms(6) that by (auto simp: submission_of_def submissions_of_def find_None_iff)
  ultimately show ?thesis using assms(1,5) by (fastforce simp: track_def Let_def assert_can_submit_def)
qed

lemma left_student_is_counted:
  "let s = foldl group_step demo_work (demo_groups @ [Enrolments [\<lparr>en_courseId = ''c'', en_studentId = ''s''\<rparr>]])
   in map (\<lambda>a. (tw_audienceCount (track s a), tw_missing (track s a))) (cw_assignments s) = [(1, [''r''])] \<and>
      class_roster s ''c'' = [''s'']"
  by code_simp

text \<open>The request's check asks for one character, and the name is trimmed afterwards.\<close>

lemma blank_name_is_kept:
  "map gr_name (cw_groups (group_step demo_work (CreateGroup work_teacher ''c'' '' '' ''g''))) = [[]]"
  by code_simp

end
