(* ===== verification/Certificates.thy ===== *)
theory Certificates
  imports Programs
begin

text \<open>
  Certificates: \<open>src/certificates\<close>, on the courses of \<open>Programs\<close>. The queue is a list of jobs with the
  attempts they have left; the PDF is what the argument \<open>render\<close> makes of its data. Generated ids, random codes,
  the clock and what fails are inputs.
\<close>

section \<open>Rows\<close>

record certificate =
  ct_id :: string
  ct_courseId :: string
  ct_studentId :: string
  ct_verificationCode :: string
  ct_pdfUrl :: "string option"
  ct_issuedById :: string
  ct_issuedAt :: int

record pdf_data =
  pd_studentName :: string
  pd_courseTitle :: string
  pd_instructorName :: string
  pd_issuedAt :: int
  pd_verificationCode :: string
  pd_verifyUrl :: string

record certificates =
  cf_programs :: programs
  cf_certs :: "certificate list"
  cf_jobs :: "(string \<times> nat) list"
  cf_blobs :: "(string, string) amap"

definition find_certificate :: "certificates \<Rightarrow> string \<Rightarrow> certificate option" where
  "find_certificate s i = find (\<lambda>c. ct_id c = i) (cf_certs s)"

definition certificate_key :: "string \<Rightarrow> string" where
  "certificate_key i = ''certificates/'' @ i @ ''.pdf''"

definition user_named :: "certificates \<Rightarrow> string \<Rightarrow> string option" where
  "user_named s i = map_option us_name (find (\<lambda>u. us_id u = i) (pg_users (cf_programs s)))"

definition course_of :: "certificates \<Rightarrow> certificate \<Rightarrow> program option" where
  "course_of s c = find_program (cf_programs s) (ct_courseId c)"

section \<open>Issuing\<close>

definition assert_org_course :: "certificates \<Rightarrow> jwt_payload \<Rightarrow> string \<Rightarrow> unit result" where
  "assert_org_course s user courseId =
     rbind (guard_or (given (jwt_organizationId user)) (Forbidden ''No organization on this account'')) (\<lambda>_.
     (case find_program (cf_programs s) courseId of
        None \<Rightarrow> Inl (NotFound ''Course not found'')
      | Some c \<Rightarrow> guard_or (co_organizationId c = jwt_organizationId user) (NotFound ''Course not found'')))"

definition has_place :: "certificates \<Rightarrow> string \<Rightarrow> string \<Rightarrow> bool" where
  "has_place s courseId studentId =
     list_ex (\<lambda>r. en_courseId r = courseId \<and> en_studentId r = studentId) (pg_enrollments (cf_programs s))"

text \<open>Both unique keys answer with the same error.\<close>

definition certificate_taken :: "certificates \<Rightarrow> certificate \<Rightarrow> bool" where
  "certificate_taken s c =
     list_ex (\<lambda>x. (ct_courseId x = ct_courseId c \<and> ct_studentId x = ct_studentId c) \<or>
       ct_verificationCode x = ct_verificationCode c) (cf_certs s)"

definition max_tries :: nat where "max_tries = 3"

text \<open>\<open>queued\<close>: Redis takes the job. When it does not, the row is there already.\<close>

definition issue ::
  "bool \<Rightarrow> certificates \<Rightarrow> jwt_payload \<Rightarrow> string \<Rightarrow> string \<Rightarrow> string \<Rightarrow> string \<Rightarrow> int
    \<Rightarrow> certificates \<times> certificate result"
where
  "issue queued s user courseId studentId i code now =
     (case rbind (assert_org_course s user courseId) (\<lambda>_.
             guard_or (has_place s courseId studentId) (NotFound ''Student is not enrolled in this course'')) of
        Inl e \<Rightarrow> (s, Inl e)
      | Inr _ \<Rightarrow>
          let c = \<lparr>ct_id = i, ct_courseId = courseId, ct_studentId = studentId, ct_verificationCode = code,
                   ct_pdfUrl = None, ct_issuedById = jwt_sub user, ct_issuedAt = now\<rparr>
          in if certificate_taken s c
             then (s, Inl (Conflict ''A certificate was already issued to this student for this course''))
             else let t = s\<lparr>cf_certs := cf_certs s @ [c]\<rparr>
                  in if queued then (t\<lparr>cf_jobs := cf_jobs t @ [(i, max_tries)]\<rparr>, Inr c)
                     else (t, Inl (Internal ''queue'')))"

section \<open>The worker\<close>

definition instructor_name :: "certificates \<Rightarrow> certificate \<Rightarrow> string" where
  "instructor_name s c =
     (case Option.bind (Option.bind (course_of s c) co_instructorId) (user_named s) of
        None \<Rightarrow> ''Course instructor'' | Some n \<Rightarrow> n)"

definition student_name :: "certificates \<Rightarrow> certificate \<Rightarrow> string" where
  "student_name s c = (case user_named s (ct_studentId c) of None \<Rightarrow> [] | Some n \<Rightarrow> n)"

definition course_title :: "certificates \<Rightarrow> certificate \<Rightarrow> string" where
  "course_title s c = (case course_of s c of None \<Rightarrow> [] | Some p \<Rightarrow> pm_title p)"

definition pdf_data :: "string \<Rightarrow> certificates \<Rightarrow> certificate \<Rightarrow> pdf_data" where
  "pdf_data base s c =
     \<lparr>pd_studentName = student_name s c, pd_courseTitle = course_title s c, pd_instructorName = instructor_name s c,
      pd_issuedAt = ct_issuedAt c, pd_verificationCode = ct_verificationCode c,
      pd_verifyUrl = base @ ''/'' @ ct_verificationCode c\<rparr>"

text \<open>How far an attempt comes: rendering, the store and the row may each fail.\<close>

datatype attempt_end = Completes | RenderFails | StoreFails | UpdateFails

definition process_job ::
  "(pdf_data \<Rightarrow> string) \<Rightarrow> string \<Rightarrow> attempt_end \<Rightarrow> string \<Rightarrow> certificates \<Rightarrow> certificates \<times> bool"
where
  "process_job render base ends i s =
     (case find_certificate s i of
        None \<Rightarrow> (s, True)
      | Some c \<Rightarrow>
          if ends = RenderFails \<or> ends = StoreFails then (s, False)
          else let t = s\<lparr>cf_blobs := aput (certificate_key i) (render (pdf_data base s c)) (cf_blobs s)\<rparr>
               in if ends = UpdateFails then (t, False)
                  else (t\<lparr>cf_certs := map (\<lambda>x. if ct_id x = i
                          then x\<lparr>ct_pdfUrl := Some (''/certificates/'' @ i @ ''/download'')\<rparr> else x) (cf_certs t)\<rparr>, True))"

text \<open>The first job; one that fails goes back for its next attempt while it has one.\<close>

definition run_job :: "(pdf_data \<Rightarrow> string) \<Rightarrow> string \<Rightarrow> attempt_end \<Rightarrow> certificates \<Rightarrow> certificates" where
  "run_job render base ends s =
     (case cf_jobs s of
        [] \<Rightarrow> s
      | (i, tries) # jobs \<Rightarrow>
          (case process_job render base ends i s of
             (t, done') \<Rightarrow> t\<lparr>cf_jobs := jobs @ (if done' \<or> tries \<le> 1 then [] else [(i, tries - 1)])\<rparr>))"

section \<open>Reading\<close>

definition newest_first :: "certificate list \<Rightarrow> certificate list" where
  "newest_first cs = sort_key (\<lambda>c. - ct_issuedAt c) cs"

definition list_mine :: "certificates \<Rightarrow> string \<Rightarrow> (certificate \<times> string) list" where
  "list_mine s studentId =
     map (\<lambda>c. (c, course_title s c)) (newest_first (filter (\<lambda>c. ct_studentId c = studentId) (cf_certs s)))"

definition list_for_course :: "certificates \<Rightarrow> jwt_payload \<Rightarrow> string \<Rightarrow> (certificate \<times> string) list result" where
  "list_for_course s user courseId =
     rbind (assert_org_course s user courseId) (\<lambda>_.
       Inr (map (\<lambda>c. (c, student_name s c)) (newest_first (filter (\<lambda>c. ct_courseId c = courseId) (cf_certs s)))))"

record verified_certificate =
  vc_verificationCode :: string
  vc_student :: string
  vc_course :: string
  vc_instructor :: string
  vc_issuedAt :: int

definition verify_certificate :: "certificates \<Rightarrow> string \<Rightarrow> verified_certificate result" where
  "verify_certificate s code =
     (case find (\<lambda>c. ct_verificationCode c = code) (cf_certs s) of
        None \<Rightarrow> Inl (NotFound ''Certificate not found'')
      | Some c \<Rightarrow> Inr \<lparr>vc_verificationCode = ct_verificationCode c, vc_student = student_name s c,
          vc_course = course_title s c, vc_instructor = instructor_name s c, vc_issuedAt = ct_issuedAt c\<rparr>)"

text \<open>The dash of the message is U+2014.\<close>

definition not_generated :: http_error where
  "not_generated = NotFound (''PDF not generated yet '' @ [CHR 0xE2, CHR 0x80, CHR 0x94] @ '' try again shortly'')"

definition get_for_download :: "certificates \<Rightarrow> string \<Rightarrow> string \<Rightarrow> certificate result" where
  "get_for_download s userId i =
     (case find_certificate s i of
        None \<Rightarrow> Inl (NotFound ''Certificate not found'')
      | Some c \<Rightarrow>
          if ct_studentId c \<noteq> userId \<and> Option.bind (course_of s c) co_instructorId \<noteq> Some userId
          then Inl (Forbidden ''Not your certificate'')
          else if given (ct_pdfUrl c) then Inr c else Inl not_generated)"

definition download :: "certificates \<Rightarrow> jwt_payload \<Rightarrow> string \<Rightarrow> (string \<times> string) result" where
  "download s user i =
     rbind (get_for_download s (jwt_sub user) i) (\<lambda>c.
     rbind (from_option not_generated (map_of (cf_blobs s) (certificate_key (ct_id c)))) (\<lambda>pdf.
     Inr (pdf, ''certificate-'' @ ct_verificationCode c @ ''.pdf'')))"

end
