(* ===== verification/CertificateRuns.thy ===== *)
theory CertificateRuns
  imports Certificates ProgramRuns
begin

text \<open>
  Runs of the certificates: administrators issue, the worker works, courses change or go. A certificate that is
  downloaded verifies.
\<close>

section \<open>Runs\<close>

text \<open>\<open>ChangePrograms\<close>: what else happens to courses, enrolments and users; the foreign keys keep the courses and
  students that certificates name. \<open>CourseGone\<close>: \<open>deleteCourse\<close>. Ids are fresh.\<close>

datatype certificate_op =
    Issue bool jwt_payload string string string string int
  | Work attempt_end
  | ChangePrograms programs
  | CourseGone string

definition linked :: "certificates \<Rightarrow> programs \<Rightarrow> bool" where
  "linked s p \<longleftrightarrow>
     list_all (\<lambda>c. find_program p (ct_courseId c) \<noteq> None \<and> ct_studentId c \<in> us_id ` set (pg_users p)) (cf_certs s) \<and>
     list_all (\<lambda>r. en_studentId r \<in> us_id ` set (pg_users p)) (pg_enrollments p)"

definition new_certificate_id :: "certificates \<Rightarrow> string \<Rightarrow> bool" where
  "new_certificate_id s i \<longleftrightarrow>
     i \<notin> ct_id ` set (cf_certs s) \<and> i \<notin> fst ` set (cf_jobs s) \<and> map_of (cf_blobs s) (certificate_key i) = None"

fun certificate_step :: "(pdf_data \<Rightarrow> string) \<Rightarrow> string \<Rightarrow> certificates \<Rightarrow> certificate_op \<Rightarrow> certificates" where
  "certificate_step render base s (Issue queued user c st i code now) =
     (if new_certificate_id s i then fst (issue queued s user c st i code now) else s)"
| "certificate_step render base s (Work ends) = run_job render base ends s"
| "certificate_step render base s (ChangePrograms p) = (if linked s p then s\<lparr>cf_programs := p\<rparr> else s)"
| "certificate_step render base s (CourseGone c) =
     s\<lparr>cf_certs := filter (\<lambda>x. ct_courseId x \<noteq> c) (cf_certs s),
       cf_programs := (cf_programs s)\<lparr>pg_courses := filter (\<lambda>x. co_id x \<noteq> c) (pg_courses (cf_programs s)),
         pg_enrollments := filter (\<lambda>r. en_courseId r \<noteq> c) (pg_enrollments (cf_programs s))\<rparr>\<rparr>"

definition certificate_place :: "certificate \<Rightarrow> string \<times> string" where
  "certificate_place c = (ct_courseId c, ct_studentId c)"

text \<open>The stored PDF of a certificate is a rendering of its code and date.\<close>

definition pdf_of :: "(pdf_data \<Rightarrow> string) \<Rightarrow> string \<Rightarrow> certificate \<Rightarrow> string \<Rightarrow> bool" where
  "pdf_of render base c pdf \<longleftrightarrow>
     (\<exists>d. pdf = render d \<and> pd_verificationCode d = ct_verificationCode c \<and> pd_issuedAt d = ct_issuedAt c \<and>
       pd_verifyUrl d = base @ ''/'' @ ct_verificationCode c)"

definition stored_pdf :: "certificates \<Rightarrow> certificate \<Rightarrow> string option" where
  "stored_pdf s c = map_of (cf_blobs s) (certificate_key (ct_id c))"

definition certificates_ok :: "(pdf_data \<Rightarrow> string) \<Rightarrow> string \<Rightarrow> certificates \<Rightarrow> bool" where
  "certificates_ok render base s \<longleftrightarrow>
     distinct (map ct_id (cf_certs s)) \<and> distinct (map ct_verificationCode (cf_certs s)) \<and>
     distinct (map certificate_place (cf_certs s)) \<and> linked s (cf_programs s) \<and>
     (\<forall>c \<in> set (cf_certs s). (\<forall>pdf. stored_pdf s c = Some pdf \<longrightarrow> pdf_of render base c pdf) \<and>
        (ct_pdfUrl c \<noteq> None \<longrightarrow> stored_pdf s c \<noteq> None))"

lemma certificate_key_inject [simp]: "certificate_key i = certificate_key j \<longleftrightarrow> i = j"
  by (simp add: certificate_key_def)

lemma find_certificateD: "find_certificate s i = Some c \<Longrightarrow> c \<in> set (cf_certs s) \<and> ct_id c = i"
  by (auto simp: find_certificate_def find_Some_iff)

lemma ok_issue:
  assumes ok: "certificates_ok render base s" and new: "new_certificate_id s i"
  shows "certificates_ok render base (fst (issue queued s user c st i code now))"
proof -
  let ?c = "\<lparr>ct_id = i, ct_courseId = c, ct_studentId = st, ct_verificationCode = code, ct_pdfUrl = None,
    ct_issuedById = jwt_sub user, ct_issuedAt = now\<rparr>"
  let ?t = "s\<lparr>cf_certs := cf_certs s @ [?c]\<rparr>"
  have "certificates_ok render base ?t"
    if r: "assert_org_course s user c = Inr u" "has_place s c st" "\<not> certificate_taken s ?c" for u
  proof -
    have "find_program (cf_programs s) c \<noteq> None" using r(1) by (auto simp: assert_org_course_def res split: option.splits)
    moreover have "st \<in> us_id ` set (pg_users (cf_programs s))"
      using ok r(2) by (auto simp: certificates_ok_def linked_def has_place_def list_ex_iff list_all_iff)
    ultimately have "linked ?t (cf_programs s)" using ok by (simp add: certificates_ok_def linked_def)
    moreover have "stored_pdf ?t x = stored_pdf s x" for x by (simp add: stored_pdf_def)
    moreover have "stored_pdf s ?c = None" using new by (simp add: new_certificate_id_def stored_pdf_def)
    moreover have "code \<notin> ct_verificationCode ` set (cf_certs s)" "(c, st) \<notin> certificate_place ` set (cf_certs s)"
      using r(3) by (auto simp: certificate_taken_def list_ex_iff certificate_place_def)
    ultimately show ?thesis using ok new
      by (simp add: certificates_ok_def new_certificate_id_def certificate_place_def)
  qed
  moreover have "certificates_ok render base (x\<lparr>cf_jobs := j\<rparr>) = certificates_ok render base x" for x j
    by (simp add: certificates_ok_def linked_def stored_pdf_def)
  ultimately show ?thesis
    using ok by (auto simp: issue_def res Let_def split: sum.split if_splits)
qed

lemma ok_stored:
  assumes ok: "certificates_ok render base s" and c: "find_certificate s i = Some c"
  shows "certificates_ok render base (s\<lparr>cf_blobs := aput (certificate_key i) (render (pdf_data base s c)) (cf_blobs s)\<rparr>)"
proof -
  let ?t = "s\<lparr>cf_blobs := aput (certificate_key i) (render (pdf_data base s c)) (cf_blobs s)\<rparr>"
  have same: "stored_pdf ?t x = (if ct_id x = i then Some (render (pdf_data base s c)) else stored_pdf s x)" for x
    by (simp add: stored_pdf_def aput_lookup)
  have "x = c" if "x \<in> set (cf_certs s)" "ct_id x = i" for x
    using ok find_certificateD [OF c] that unfolding certificates_ok_def distinct_map by (metis inj_onD)
  moreover have "pdf_of render base c (render (pdf_data base s c))" by (auto simp: pdf_of_def pdf_data_def)
  ultimately show ?thesis using ok by (auto simp: certificates_ok_def same linked_def)
qed

text \<open>An update of the rows that keeps what identifies them.\<close>

lemma ok_rows:
  assumes ok: "certificates_ok render base s"
    and f: "\<And>x. ct_id (f x) = ct_id x" "\<And>x. ct_verificationCode (f x) = ct_verificationCode x" "\<And>x. ct_issuedAt (f x) = ct_issuedAt x"
      "\<And>x. ct_courseId (f x) = ct_courseId x" "\<And>x. ct_studentId (f x) = ct_studentId x"
    and url: "\<And>x. x \<in> set (cf_certs s) \<Longrightarrow> ct_pdfUrl (f x) \<noteq> None \<Longrightarrow> stored_pdf s x \<noteq> None"
  shows "certificates_ok render base (s\<lparr>cf_certs := map f (cf_certs s)\<rparr>)"
proof -
  have "stored_pdf (s\<lparr>cf_certs := map f (cf_certs s)\<rparr>) (f x) = stored_pdf s x" for x by (simp add: stored_pdf_def f)
  moreover have "pdf_of render base (f x) pdf = pdf_of render base x pdf" for x pdf by (simp add: pdf_of_def f)
  moreover have "certificate_place \<circ> f = certificate_place" "ct_id \<circ> f = ct_id" "ct_verificationCode \<circ> f = ct_verificationCode"
    by (simp_all add: fun_eq_iff certificate_place_def f)
  moreover have "linked (s\<lparr>cf_certs := map f (cf_certs s)\<rparr>) p = linked s p" for p by (simp add: linked_def list.pred_map o_def f)
  ultimately show ?thesis using ok url by (simp add: certificates_ok_def)
qed

lemma ok_work:
  assumes ok: "certificates_ok render base s"
  shows "certificates_ok render base (fst (process_job render base ends i s))"
proof (cases "find_certificate s i")
  case None
  then show ?thesis using ok by (simp add: process_job_def)
next
  case (Some c)
  define t where "t = s\<lparr>cf_blobs := aput (certificate_key i) (render (pdf_data base s c)) (cf_blobs s)\<rparr>"
  have t: "certificates_ok render base t" unfolding t_def by (rule ok_stored [OF ok Some])
  have "stored_pdf t x \<noteq> None" if "x \<in> set (cf_certs t)" "ct_id x = i \<or> ct_pdfUrl x \<noteq> None" for x
  proof (cases "ct_id x = i")
    case True
    then show ?thesis by (simp add: t_def stored_pdf_def aput_lookup)
  next
    case False
    then show ?thesis using t that unfolding certificates_ok_def by blast
  qed
  then have "certificates_ok render base (t\<lparr>cf_certs :=
      map (\<lambda>x. if ct_id x = i then x\<lparr>ct_pdfUrl := Some (''/certificates/'' @ i @ ''/download'')\<rparr> else x) (cf_certs t)\<rparr>)"
    by (intro ok_rows [OF t]) (simp_all split: if_splits)
  then show ?thesis using ok t Some by (simp add: process_job_def Let_def t_def)
qed

lemma ok_jobs: "certificates_ok render base (x\<lparr>cf_jobs := j\<rparr>) = certificates_ok render base x"
  by (simp add: certificates_ok_def linked_def stored_pdf_def)

lemma ok_run_job: "certificates_ok render base s \<Longrightarrow> certificates_ok render base (run_job render base ends s)"
proof -
  assume ok: "certificates_ok render base s"
  then have "certificates_ok render base (fst (process_job render base ends i s))" for i by (rule ok_work)
  then show ?thesis using ok
    by (auto simp: run_job_def ok_jobs split: list.split prod.split) (metis fst_conv)
qed

interpretation certificate_run: invariant_system "certificate_step render base" "certificates_ok render base" for render base
proof unfold_locales
  fix s op
  assume ok: "certificates_ok render base s"
  show "certificates_ok render base (certificate_step render base s op)"
  proof (cases op)
    case (ChangePrograms p)
    then show ?thesis using ok by (simp add: certificates_ok_def stored_pdf_def linked_def)
  next
    case (CourseGone c)
    have "find (\<lambda>x. co_id x = i) (filter (\<lambda>x. co_id x \<noteq> c) cs) = find (\<lambda>x. co_id x = i) cs" if "i \<noteq> c" for i and cs :: "program list"
      using that by (induction cs) auto
    then show ?thesis using ok CourseGone
      by (auto simp: certificates_ok_def stored_pdf_def linked_def distinct_map_filter list_all_iff find_program_def)
  qed (use ok ok_issue ok_run_job in auto)
qed

section \<open>The property\<close>

definition no_certificates :: "certificates \<Rightarrow> bool" where
  "no_certificates s \<longleftrightarrow> cf_certs s = [] \<and> linked s (cf_programs s)"

lemma certificate_runs_ok: "no_certificates s \<Longrightarrow> certificates_ok render base (foldl (certificate_step render base) s ops)"
  by (rule certificate_run.inv_run) (simp add: no_certificates_def certificates_ok_def)

lemma code_finds:
  assumes "certificates_ok render base s" and "c \<in> set (cf_certs s)"
  shows "verify_certificate s (ct_verificationCode c) = Inr \<lparr>vc_verificationCode = ct_verificationCode c, vc_student = student_name s c,
    vc_course = course_title s c, vc_instructor = instructor_name s c, vc_issuedAt = ct_issuedAt c\<rparr>"
proof -
  have "find (\<lambda>x. ct_verificationCode x = ct_verificationCode c) (cf_certs s) = Some c"
    using assms by (intro find_by_key) (simp_all add: certificates_ok_def)
  then show ?thesis by (simp add: verify_certificate_def)
qed

lemma downloadable: "certificates_ok render base s \<Longrightarrow> get_for_download s u i = Inr c \<Longrightarrow>
  c \<in> set (cf_certs s) \<and> ct_id c = i \<and> (u = ct_studentId c \<or> Option.bind (course_of s c) co_instructorId = Some u) \<and>
  (\<exists>pdf. stored_pdf s c = Some pdf \<and> pdf_of render base c pdf)"
proof -
  assume ok: "certificates_ok render base s" and g: "get_for_download s u i = Inr c"
  then have c: "c \<in> set (cf_certs s)" "ct_id c = i" "ct_pdfUrl c \<noteq> None"
    and who: "u = ct_studentId c \<or> Option.bind (course_of s c) co_instructorId = Some u"
    using find_certificateD [of s i] by (auto simp: get_for_download_def given_def split: option.splits if_splits)
  have "stored_pdf s c \<noteq> None" "\<And>pdf. stored_pdf s c = Some pdf \<Longrightarrow> pdf_of render base c pdf"
    using ok c unfolding certificates_ok_def by blast+
  then show ?thesis using c who by blast
qed

text \<open>C40: Over any run of the certificates, with failures of the queue, the renderer, the store and the table and
  with courses changing and going, a student has one certificate for a course; what passes the download's checks is
  in the store; and a downloaded PDF is its student's or the course's instructor's, and the address in its QR
  code carries a code that verifies, with the student, the course and the date of the certificate.\<close>

theorem downloaded_certificate_verifies:
  assumes "no_certificates s0" and "s = foldl (certificate_step render base) s0 ops"
  shows "distinct (map certificate_place (cf_certs s)) \<and>
    ((\<exists>r. download s u i = Inr r) = (\<exists>c. get_for_download s (jwt_sub u) i = Inr c)) \<and>
    (\<forall>pdf name. download s u i = Inr (pdf, name) \<longrightarrow>
       (\<exists>c d v. find_certificate s i = Some c \<and>
          (jwt_sub u = ct_studentId c \<or> Option.bind (course_of s c) co_instructorId = Some (jwt_sub u)) \<and>
          pdf = render d \<and> pd_verifyUrl d = base @ ''/'' @ pd_verificationCode d \<and>
          verify_certificate s (pd_verificationCode d) = Inr v \<and> vc_student v = student_name s c \<and>
          vc_course v = course_title s c \<and> vc_issuedAt v = pd_issuedAt d))"
proof -
  have ok: "certificates_ok render base s" using certificate_runs_ok assms by simp
  have stored: "\<exists>pdf. download s u i = Inr (pdf, ''certificate-'' @ ct_verificationCode c @ ''.pdf'') \<and> pdf_of render base c pdf"
    if "get_for_download s (jwt_sub u) i = Inr c" for c
    using downloadable [OF ok that] that by (auto simp: download_def res stored_pdf_def from_option_def)
  have passed: "\<exists>c. get_for_download s (jwt_sub u) i = Inr c" if "download s u i = Inr r" for r
    using that by (auto simp: download_def res)
  have "\<exists>c d v. find_certificate s i = Some c \<and>
          (jwt_sub u = ct_studentId c \<or> Option.bind (course_of s c) co_instructorId = Some (jwt_sub u)) \<and>
          pdf = render d \<and> pd_verifyUrl d = base @ ''/'' @ pd_verificationCode d \<and>
          verify_certificate s (pd_verificationCode d) = Inr v \<and> vc_student v = student_name s c \<and>
          vc_course v = course_title s c \<and> vc_issuedAt v = pd_issuedAt d"
    if d: "download s u i = Inr (pdf, name)" for pdf name
  proof -
    obtain c where g: "get_for_download s (jwt_sub u) i = Inr c" using passed [OF d] by blast
    then have "find_certificate s i = Some c" by (auto simp: get_for_download_def split: option.splits if_splits)
    moreover obtain d where "pdf = render d" "pd_verificationCode d = ct_verificationCode c" "pd_issuedAt d = ct_issuedAt c"
      "pd_verifyUrl d = base @ ''/'' @ ct_verificationCode c" using stored [OF g] d by (auto simp: pdf_of_def)
    moreover note downloadable [OF ok g]
    moreover note code_finds [OF ok conjunct1 [OF downloadable [OF ok g]]]
    ultimately show ?thesis by (intro exI [of _ c] exI [of _ d]) simp
  qed
  moreover have "distinct (map certificate_place (cf_certs s))" using ok by (simp add: certificates_ok_def)
  ultimately show ?thesis using stored passed by blast
qed

text \<open>An issued certificate whose first attempt fails at the store.\<close>

definition certified_school :: certificates where
  "certified_school =
     \<lparr>cf_programs = new_school\<lparr>pg_courses := [(blank_program ''p'' ''o'' (Some ''t'') None 1)\<lparr>pm_title := ''Tajweed''\<rparr>],
        pg_enrollments := [\<lparr>en_courseId = ''p'', en_studentId = ''u'', er_reminderAddedAt = None, er_createdAt = 1\<rparr>],
        pg_users := [\<lparr>us_id = ''u'', us_name = ''Aisha'', us_role = STUDENT\<rparr>, \<lparr>us_id = ''t'', us_name = ''Umar'', us_role = INSTRUCTOR\<rparr>]\<rparr>,
      cf_certs = [], cf_jobs = [], cf_blobs = []\<rparr>"

definition certified :: "certificate_op list" where
  "certified = [Issue True the_admin ''p'' ''u'' ''k'' ''code'' 5, Work StoreFails, Work Completes]"

lemma downloaded_certificate_verifies_witness:
  "let s = foldl (certificate_step pd_verifyUrl ''https://x'') certified_school certified; u = the_admin\<lparr>jwt_sub := ''u''\<rparr> in
   download s u ''k'' = Inr (''https://x/code'', ''certificate-code.pdf'') \<and>
   (\<exists>v. verify_certificate s ''code'' = Inr v \<and> vc_student v = ''Aisha'' \<and> vc_course v = ''Tajweed'' \<and> vc_issuedAt v = 5)"
proof -
  obtain s where s: "s = foldl (certificate_step pd_verifyUrl ''https://x'') certified_school certified" by blast
  let ?u = "the_admin\<lparr>jwt_sub := ''u''\<rparr>"
  have d: "download s ?u ''k'' = Inr (''https://x/code'', ''certificate-code.pdf'')" unfolding s by code_simp
  have f: "map_option (\<lambda>c. (student_name s c, course_title s c)) (find_certificate s ''k'') = Some (''Aisha'', ''Tajweed'')"
    unfolding s by code_simp
  have v5: "map_sum (\<lambda>_. ()) vc_issuedAt (verify_certificate s ''code'') = Inr 5" unfolding s by code_simp
  have new: "no_certificates certified_school" by code_simp
  obtain c v and x :: pdf_data where c: "find_certificate s ''k'' = Some c" "''https://x/code'' = pd_verifyUrl x"
    "pd_verifyUrl x = ''https://x'' @ ''/'' @ pd_verificationCode x" "verify_certificate s (pd_verificationCode x) = Inr v"
    "vc_student v = student_name s c" "vc_course v = course_title s c"
    using conjunct2 [OF conjunct2 [OF downloaded_certificate_verifies [OF new s]], THEN spec, THEN spec, THEN mp, OF d] by blast
  have "pd_verificationCode x = ''code''" using c(2,3) by simp
  then show ?thesis using c(1,4-6) d f v5 unfolding Let_def s [symmetric] by simp
qed

section \<open>Certificates that are never made\<close>

definition issued_id :: "certificate_op \<Rightarrow> string option" where
  "issued_id op = (case op of Issue _ _ _ _ i _ _ \<Rightarrow> Some i | _ \<Rightarrow> None)"

definition never_made :: "string \<Rightarrow> certificates \<Rightarrow> bool" where
  "never_made i s \<longleftrightarrow> i \<notin> fst ` set (cf_jobs s) \<and> (\<forall>c \<in> set (cf_certs s). ct_id c = i \<longrightarrow> ct_pdfUrl c = None)"

lemma processed_rows:
  "c \<in> set (cf_certs (fst (process_job render base ends j s))) \<Longrightarrow> ct_id c \<noteq> j \<Longrightarrow> c \<in> set (cf_certs s)"
  "cf_jobs (fst (process_job render base ends j s)) = cf_jobs s"
  by (auto simp: process_job_def Let_def split: option.splits if_splits)

lemma never_made_step:
  assumes "never_made i s" and "issued_id op \<noteq> Some i"
  shows "never_made i (certificate_step render base s op)"
proof (cases op)
  case (Issue queued u c st j code now)
  then show ?thesis using assms by (auto simp: never_made_def issued_id_def issue_def Let_def split: sum.split)
next
  case (Work ends)
  have "never_made i (fst (process_job render base ends j s))" if "j \<noteq> i" for j
  proof -
    have "ct_pdfUrl c = None" if "c \<in> set (cf_certs (fst (process_job render base ends j s)))" "ct_id c = i" for c
      using processed_rows(1) [OF that(1)] that \<open>j \<noteq> i\<close> assms(1) by (simp add: never_made_def)
    then show ?thesis using assms(1) by (simp add: never_made_def processed_rows(2))
  qed
  then show ?thesis using assms(1) Work
    by (auto simp: never_made_def run_job_def split: list.split prod.split) (metis fst_conv)+
qed (use assms(1) in \<open>auto simp: never_made_def\<close>)

text \<open>The queue refuses the job after the row is written, or all three attempts fail: the PDF is never made,
  whatever happens later, and while the row stands the certificate cannot be issued again.\<close>

lemma unqueued_certificate_is_never_made:
  assumes "new_certificate_id s i" and "issue False s user c st i code now = (t, r)" and "\<forall>op \<in> set ops. issued_id op \<noteq> Some i"
    and "x \<in> set (cf_certs (foldl (certificate_step render base) t ops))" "ct_id x = i"
  shows "ct_pdfUrl x = None \<and> (\<forall>v. get_for_download (foldl (certificate_step render base) t ops) v i \<noteq> Inr x)"
proof -
  have "never_made i t"
    using assms(1,2) by (auto simp: never_made_def issue_def new_certificate_id_def Let_def split: sum.splits if_splits)
      (metis certificate.select_convs(5))+
  then have "never_made i (foldl (certificate_step render base) t ops)"
    using assms(3) never_made_step by (induction ops arbitrary: t) simp_all
  then have "ct_pdfUrl x = None" using assms(4,5) by (simp add: never_made_def)
  then show ?thesis by (auto simp: get_for_download_def given_def split: option.splits if_splits)
qed

lemma issued_again_conflicts:
  assumes "x \<in> set (cf_certs s)" "ct_courseId x = c" "ct_studentId x = st"
  shows "fst (issue q s user c st i code now) = s \<and> (\<forall>y. snd (issue q s user c st i code now) \<noteq> Inr y)"
  using assms by (auto simp: issue_def certificate_taken_def list_ex_iff Let_def split: sum.split)

end
