(* ===== verification/Spec2Isabelle.thy ===== *)
theory Spec2Isabelle
  imports RoomMembership RoomStage RoomEdges RoomBuzzer BuzzerRace Quiz Guards Points Plugins
    QuranWords TajweedInput Schedule CalendarIcs Tunnel Terminal RepoName CommitRef StudentStats
    RecordingLaws ExamRuns SessionRuns AssignmentRuns AssessmentRuns QuickAccessRuns HifzLaws
    ProgramBatches CourseDeletionLaws ReminderRuns StudentGroups
    CertificateRuns
begin

text \<open>
  A verification library for the livetich API, a NestJS server for live teaching. A class meets in a
  room over Socket.IO; courses, quizzes, points, recordings and coding work are HTTP services over
  MySQL, with Redis for caches and room state.

  How the parts interact. A request passes the guards (token, account, role, plugin pack) and reaches
  a service; a socket is authenticated once and its packets reach the room gateway, which reads and
  writes the room's state in Redis and the shared tables, and pays points through the points
  service. The quiz service writes the questions the gateway's buzzer asks. The schedule decides when
  a class may be joined. The coding plugin pushes its boards into the rooms.

  What the theories model.
  \<^item> \<open>Prelude\<close>, \<open>JsText\<close>: results of service methods, insertion-ordered maps, runs of a step
    function; decimal text, \<open>trim\<close>, \<open>split\<close>, code points.
  \<^item> \<open>Identity\<close>, \<open>AuthCache\<close>, \<open>Guards\<close>: the token's claims, the cached account state
    (\<open>src/auth/auth-cache.service.ts\<close>) and the guards in \<open>src/auth\<close>, \<open>src/plugins\<close> and
    \<open>src/admin\<close>. The cache is equivalent to the database while invalidations arrive, and a stale
    state lives 60 seconds at most.
  \<^item> \<open>Plugins\<close>: the pack catalogue and the entitlements (\<open>src/plugins\<close>).
  \<^item> \<open>Points\<close>: the ledger and its Redis projection (\<open>src/points/points.service.ts\<close>), the
    sums of the ledger as long as no increment of an award was missed.
  \<^item> \<open>Database\<close>: the rows of \<open>prisma/schema.prisma\<close>; a table is the list of its rows.
  \<^item> \<open>QuranWords\<close>, \<open>TajweedInput\<close>: what a mark on the text may name, and what a note may hold.
  \<^item> \<open>RoomState\<close>, \<open>RoomGateway\<close>: \<open>src/room-gateway\<close>, with one definition per
    \<open>RoomStateService\<close> method and per \<open>RoomGateway\<close> handler; \<open>gateway_step\<close> dispatches
    connections, packets, departures, finished account checks and timers, and
    \<open>foldl gateway_step\<close> is a run. \<open>RoomFrame\<close> holds what each handler leaves alone,
    \<open>RoomMembership\<close> who is in a room, \<open>RoomStage\<close> what the room shows, \<open>RoomBuzzer\<close> the
    rounds of the buzzer, \<open>RoomEdges\<close> where the gateway falls short, and \<open>BuzzerRace\<close> the answer
    handler cut at its awaits, with two answers interleaved.
  \<^item> \<open>Courses\<close>, \<open>Quiz\<close>: who may act on a course, and \<open>src/quiz\<close>.
  \<^item> \<open>Calendar\<close>, \<open>Schedule\<close>, \<open>CalendarIcs\<close>: the civil calendar and the instants of
    JavaScript's \<open>Date\<close>, \<open>src/sessions/session-schedule.ts\<close>, and the calendar file.
  \<^item> \<open>Tunnel\<close>, \<open>Terminal\<close>: \<open>src/tunnel/tunnel.service.ts\<close> and
    \<open>src/terminal/terminal.service.ts\<close>.
  \<^item> \<open>Coding\<close>, \<open>CommitRef\<close>, \<open>RepoName\<close>: the coding plugin's live boards and the rule for what
    a student sees of an AI review, the commit a submission is read from, and repository names.
  \<^item> \<open>StudentStats\<close>: \<open>src/performance/student-stats.ts\<close>.
  \<^item> \<open>Recordings\<close>, \<open>RecordingRuns\<close>, \<open>RecordingLaws\<close>: \<open>src/recordings\<close>, with LiveKit and the
    bucket as arguments; \<open>rec_step\<close> takes a start's row and LiveKit's answer as separate steps and
    \<open>serial_step\<close> as one.
  \<^item> \<open>Doubles\<close>, \<open>Exams\<close>, \<open>ExamRuns\<close>: the double arithmetic of percentages, rounded to 53 bits as
    IEEE 754 does, and \<open>src/exams/exams.service.ts\<close>.
  \<^item> \<open>Sessions\<close>, \<open>SessionRuns\<close>: \<open>src/sessions/sessions.service.ts\<close>. Its rows extend those of
    \<open>Database\<close>, and \<open>class_db\<close> is what the room gateway sees of them, so that the tokens of the one can be
    compared with the admissions of the other.
  \<^item> \<open>Ledger\<close>: what the services that pay points use of \<open>Points\<close>. \<open>Assignments\<close>,
    \<open>AssignmentRuns\<close>: \<open>src/assignments/assignments.service.ts\<close>; grading is cut into its reads and its
    transaction. \<open>Assessment\<close>, \<open>AssessmentRuns\<close>: \<open>src/assessment/assessment.service.ts\<close>, cut the
    same way; its transaction fails on the unique keys.
  \<^item> \<open>StudentGroups\<close>: \<open>src/groups/groups.service.ts\<close>, run together with the coursework it aims.
    \<open>Reminders\<close>, \<open>ReminderRuns\<close>: the sweep of \<open>src/reminders/reminders.service.ts\<close>.
    \<open>Certificates\<close>, \<open>CertificateRuns\<close>: \<open>src/certificates\<close>, with its worker's attempts and what may fail in them.
  \<^item> \<open>TajweedMarks\<close>, \<open>TajweedRuns\<close>: \<open>src/tajweed/tajweed.service.ts\<close>; creations and edits
    are cut at their transactions. A message is cut at its first character outside ASCII.
  \<^item> \<open>Hifz\<close>, \<open>HifzLaws\<close>: \<open>src/hifz/hifz.service.ts\<close> and the surahs of \<open>src/quran/surahs.ts\<close>, on
    top of the marks, which a recitation links; progress is a number of ayahs of the text.
  \<^item> \<open>Programs\<close>, \<open>ProgramRuns\<close>, \<open>ProgramBatches\<close>: \<open>src/courses/courses.service.ts\<close>, with the rows of
    the services whose content a batch copies. \<open>CourseDeletion\<close>, \<open>CourseDeletionLaws\<close>: its \<open>deleteCourse\<close>,
    on all the tables that hang on a course and the foreign keys of the migrations; that the order of its
    statements respects the keys is a check on the tables, evaluated once.
  \<^item> \<open>Accounts\<close>, \<open>Workspaces\<close>, \<open>QuickAccess\<close>: \<open>src/auth/auth.service.ts\<close>,
    \<open>src/organizations/organizations.service.ts\<close> with the accounts' part of \<open>src/admin/admin.service.ts\<close>,
    and \<open>src/auth/quick-access.service.ts\<close>. \<open>AccountRuns\<close> runs them together: \<open>roster\<close> is the part of
    the tables that says who belongs where. \<open>AccountLaws\<close> and \<open>QuickAccessRuns\<close> hold the properties.

  Conventions. A thrown HTTP exception is \<open>Inl\<close> of an \<open>http_error\<close>. A handler is a function
  from the gateway's state to the next; the events it emits are appended to a log in the state. Handlers run to
  completion one after another, except where a theory says that it interleaves them. What the code
  takes from outside (the clock, generated ids, whether Redis or Express accepts a call, the
  verification of a token, the Quran's text, Unicode tables, time zones, a collation) is an argument;
  what a proof needs of it is a named predicate that a witness instantiates. String equality in a query is exact (the
  database's collation also equates case; generated ids are lower case). Numbers of JSON are
  rationals, and instants are integers of milliseconds; JavaScript's doubles are exact in the ranges
  the code uses. All recursion is structural or on a smaller number, so there is no fuel.

  Not modelled: the coding plugin's assignments, submissions and reviews, whose rows would come on top of
  those of \<open>Coding\<close> as coursework does on \<open>Assignments\<close>, and its calls of GitHub; the socket edges of the
  tunnels and terminals; the code and board gateways' documents, which are updates in a library's binary
  format; the layout of a certificate's page; and the wrappers around mail, object storage, metrics and
  GitHub, which only do I/O.
\<close>

end
